(* ===== verification/Prelude.thy ===== *)
theory Prelude
  imports Complex_Main "HOL-Library.Char_ord" "HOL-Library.List_Lexorder"
begin

text \<open>
  Shared vocabulary of the development: the exceptions of the Python sources as one
  datatype, effectful methods as functions from a state to an exception or a result
  together with the state they leave behind, a small Hoare logic for them, the
  parts of Python's string library the sources use, and generic list lemmas.

  A Python method that mutates its object and may raise is modelled as an
  \<open>op\<close>: the state component is returned on both exits, because an exception raised
  half way through a method leaves the mutations made so far in place.
\<close>

named_theorems hoare_intros \<open>compositional rules for the triples of effectful methods\<close>
named_theorems op_simps \<open>evaluation of effectful methods at a given state\<close>

section \<open>Exceptions\<close>

text \<open>
  The exception classes of \<^verbatim>\<open>backend/domain/exceptions\<close>,
  \<^verbatim>\<open>backend/workflow_engine/exceptions\<close> and
  \<^verbatim>\<open>backend/persistence/ports/errors.py\<close>,
  \<^verbatim>\<open>backend/skill_system/exceptions\<close>, of the agent runtime, of
  \<^verbatim>\<open>backend/application/errors.py\<close> (the coded ones with their code), of
  \<^verbatim>\<open>backend/progress_reports\<close> and of \<^verbatim>\<open>backend/research\<close>, with their message, the budget error of
  \<^verbatim>\<open>backend/research/services/budget.py\<close>, and the built-in exceptions that the modelled
  methods can raise; \<open>ValueErrorMsg\<close> and \<open>RuntimeErrorMsg\<close> are a
  \<open>ValueError\<close> and a \<open>RuntimeError\<close> whose message is kept.
\<close>

datatype py_exc =
    DomainValidationError string
  | InvalidStateTransition string string string string
  | CheckpointIntegrityError string
  | CheckpointMismatchError string
  | ExecutionNotResumableError string
  | StepRunNotFoundError string
  | InvalidWorkflowDefinitionError string
  | InvalidReferenceError string
  | InvalidRetryPolicyError string
  | WorkflowStateError string
  | StaleDecisionError string
  | ValueErrorMsg string
  | StaleStateError string
  | DuplicateEntityError string
  | BudgetExceededError string
  | RuntimeErrorMsg string
  | SkillValidationError string string
  | InvalidSkillDefinitionError string
  | InvalidSkillReferenceError string
  | DuplicateSkillRegistrationError string
  | SkillNotFoundError string
  | SkillDecisionMismatchError string
  | SkillCapabilityDeniedError string
  | AgentRuntimeError string
  | ArtifactGatewayError string
  | ApplicationValidationError string
  | ApplicationNotFoundError string
  | ApplicationConflictError string
  | UnsafeProgressReportError string
  | ApplicationCodedValidationError string string
  | ApplicationCodedNotFoundError string string
  | ApplicationCodedConflictError string string
  | ApplicationCodedAuthorizationError string string
  | PyKeyError string
  | PyTypeError
  | PyValueError
  | PyAttributeError
  | PyOverflowError
  | PyAssertionError

text \<open>
  Congruence rules that keep the simplifier out of message texts.
\<close>

lemma exc_msg_cong [cong]:
  "DomainValidationError m = DomainValidationError m"
  "CheckpointIntegrityError m = CheckpointIntegrityError m"
  "CheckpointMismatchError m = CheckpointMismatchError m"
  "ExecutionNotResumableError m = ExecutionNotResumableError m"
  "StepRunNotFoundError m = StepRunNotFoundError m"
  "InvalidWorkflowDefinitionError m = InvalidWorkflowDefinitionError m"
  "InvalidReferenceError m = InvalidReferenceError m"
  "InvalidRetryPolicyError m = InvalidRetryPolicyError m"
  "WorkflowStateError m = WorkflowStateError m"
  "StaleDecisionError m = StaleDecisionError m"
  "ValueErrorMsg m = ValueErrorMsg m"
  "StaleStateError m = StaleStateError m"
  "DuplicateEntityError m = DuplicateEntityError m"
  "RuntimeErrorMsg m = RuntimeErrorMsg m"
  "SkillValidationError p m = SkillValidationError p m"
  "InvalidSkillDefinitionError m = InvalidSkillDefinitionError m"
  "InvalidSkillReferenceError m = InvalidSkillReferenceError m"
  "DuplicateSkillRegistrationError m = DuplicateSkillRegistrationError m"
  "SkillNotFoundError m = SkillNotFoundError m"
  "SkillDecisionMismatchError m = SkillDecisionMismatchError m"
  "SkillCapabilityDeniedError m = SkillCapabilityDeniedError m"
  "AgentRuntimeError m = AgentRuntimeError m"
  "ArtifactGatewayError m = ArtifactGatewayError m"
  "ApplicationValidationError m = ApplicationValidationError m"
  "ApplicationNotFoundError m = ApplicationNotFoundError m"
  "ApplicationConflictError m = ApplicationConflictError m"
  "UnsafeProgressReportError m = UnsafeProgressReportError m"
  "ApplicationCodedValidationError m c = ApplicationCodedValidationError m c"
  "ApplicationCodedNotFoundError m c = ApplicationCodedNotFoundError m c"
  "ApplicationCodedConflictError m c = ApplicationCodedConflictError m c"
  "ApplicationCodedAuthorizationError m c = ApplicationCodedAuthorizationError m c"
  by (rule refl)+

text \<open>
  \<open>except WorkflowStateError\<close> also catches the subclass \<open>StaleDecisionError\<close>.
\<close>

fun is_WorkflowStateError :: "py_exc \<Rightarrow> bool" where
  "is_WorkflowStateError (WorkflowStateError _) = True"
| "is_WorkflowStateError (StaleDecisionError _) = True"
| "is_WorkflowStateError _ = False"

fun is_InvalidReferenceError :: "py_exc \<Rightarrow> bool" where
  "is_InvalidReferenceError (InvalidReferenceError _) = True"
| "is_InvalidReferenceError _ = False"

section \<open>Methods that return a value or raise\<close>

type_synonym 'a res = "py_exc + 'a"

definition bindR :: "'a res \<Rightarrow> ('a \<Rightarrow> 'b res) \<Rightarrow> 'b res" where
  "bindR m f = (case m of Inl e \<Rightarrow> Inl e | Inr a \<Rightarrow> f a)"

lemma bindR_simps [simp]:
  "bindR (Inl e) f = Inl e"
  "bindR (Inr a) f = f a"
  by (simp_all add: bindR_def)

lemma bindR_Inr_iff: "bindR m f = Inr b \<longleftrightarrow> (\<exists>a. m = Inr a \<and> f a = Inr b)"
  by (cases m) auto

lemma bindR_Inl_iff: "bindR m f = Inl e \<longleftrightarrow> m = Inl e \<or> (\<exists>a. m = Inr a \<and> f a = Inl e)"
  by (cases m) auto

text \<open>\<open>if bad: raise e\<close>\<close>

definition guardR :: "bool \<Rightarrow> py_exc \<Rightarrow> unit res" where
  "guardR bad e = (if bad then Inl e else Inr ())"

lemma guardR_Inr_iff [simp]: "guardR bad e = Inr u \<longleftrightarrow> \<not> bad"
  by (simp add: guardR_def)

lemma guardR_Inl_iff: "guardR bad e = Inl e' \<longleftrightarrow> bad \<and> e' = e"
  by (auto simp: guardR_def)

text \<open>A loop of checks, \<open>for x in xs: f(x)\<close>, stops at the first exception.\<close>

fun forR :: "'a list \<Rightarrow> ('a \<Rightarrow> unit res) \<Rightarrow> unit res" where
  "forR [] f = Inr ()"
| "forR (x # xs) f = bindR (f x) (\<lambda>_. forR xs f)"

lemma forR_Inr_iff: "forR xs f = Inr u \<longleftrightarrow> (\<forall>x \<in> set xs. f x = Inr ())"
  by (induction xs) (auto simp: bindR_Inr_iff)

lemma forR_Inl: "forR xs f = Inl e \<Longrightarrow> \<exists>x \<in> set xs. f x = Inl e"
  by (induction xs) (auto simp: bindR_Inl_iff)

text \<open>A comprehension whose element expression may raise.\<close>

fun mapR :: "('a \<Rightarrow> 'b res) \<Rightarrow> 'a list \<Rightarrow> 'b list res" where
  "mapR f [] = Inr []"
| "mapR f (x # xs) = bindR (f x) (\<lambda>y. bindR (mapR f xs) (\<lambda>ys. Inr (y # ys)))"

lemma mapR_cong [fundef_cong]:
  "xs = ys \<Longrightarrow> (\<And>x. x \<in> set ys \<Longrightarrow> f x = g x) \<Longrightarrow> mapR f xs = mapR g ys"
  by (induction ys arbitrary: xs) auto

lemma mapR_Inr_iff: "mapR f xs = Inr ys \<longleftrightarrow> list_all2 (\<lambda>x y. f x = Inr y) xs ys"
proof (induction xs arbitrary: ys)
  case Nil
  then show ?case by auto
next
  case (Cons x xs)
  then show ?case by (auto simp: bindR_Inr_iff list_all2_Cons1)
qed

lemma mapR_Inl: "mapR f xs = Inl e \<Longrightarrow> \<exists>x \<in> set xs. f x = Inl e"
  by (induction xs) (auto simp: bindR_Inl_iff)

lemma mapR_total: "(\<And>x. x \<in> set xs \<Longrightarrow> \<exists>y. f x = Inr y) \<Longrightarrow> \<exists>ys. mapR f xs = Inr ys"
  by (induction xs) (fastforce simp: bindR_Inr_iff)+

lemma mapR_pure: "(\<And>x. x \<in> set xs \<Longrightarrow> f x = Inr (g x)) \<Longrightarrow> mapR f xs = Inr (map g xs)"
  by (induction xs) auto

section \<open>Methods that mutate a state and may raise\<close>

type_synonym ('s, 'a) op = "'s \<Rightarrow> 'a res \<times> 's"

definition returnE :: "'a \<Rightarrow> ('s, 'a) op" where
  "returnE a = (\<lambda>s. (Inr a, s))"

definition raiseE :: "py_exc \<Rightarrow> ('s, 'a) op" where
  "raiseE e = (\<lambda>s. (Inl e, s))"

definition bindE :: "('s, 'a) op \<Rightarrow> ('a \<Rightarrow> ('s, 'b) op) \<Rightarrow> ('s, 'b) op" where
  "bindE m f = (\<lambda>s. case m s of (Inl e, s') \<Rightarrow> (Inl e, s') | (Inr a, s') \<Rightarrow> f a s')"

definition thenE :: "('s, 'a) op \<Rightarrow> ('s, 'b) op \<Rightarrow> ('s, 'b) op" where
  "thenE m n = bindE m (\<lambda>_. n)"

definition getsE :: "('s \<Rightarrow> 'a) \<Rightarrow> ('s, 'a) op" where
  "getsE f = (\<lambda>s. (Inr (f s), s))"

definition modifyE :: "('s \<Rightarrow> 's) \<Rightarrow> ('s, unit) op" where
  "modifyE f = (\<lambda>s. (Inr (), f s))"

text \<open>Reading the state through a method that returns or raises without mutating.\<close>

definition readE :: "('s \<Rightarrow> 'a res) \<Rightarrow> ('s, 'a) op" where
  "readE f = (\<lambda>s. (f s, s))"

text \<open>
  Calling a method of a part of the state: the callee raises before it mutates, so its
  exceptional exit leaves the caller's state alone.
\<close>

definition updE :: "('s \<Rightarrow> 's res) \<Rightarrow> ('s, unit) op" where
  "updE f = (\<lambda>s. case f s of Inl e \<Rightarrow> (Inl e, s) | Inr s' \<Rightarrow> (Inr (), s'))"

definition guardE :: "('s \<Rightarrow> bool) \<Rightarrow> ('s \<Rightarrow> py_exc) \<Rightarrow> ('s, unit) op" where
  "guardE bad e = (\<lambda>s. if bad s then (Inl (e s), s) else (Inr (), s))"

fun forE :: "'a list \<Rightarrow> ('a \<Rightarrow> ('s, unit) op) \<Rightarrow> ('s, unit) op" where
  "forE [] f = returnE ()"
| "forE (x # xs) f = thenE (f x) (forE xs f)"

lemma op_apply [op_simps]:
  "returnE a s = (Inr a, s)"
  "raiseE e s = (Inl e, s)"
  "getsE g s = (Inr (g s), s)"
  "modifyE h s = (Inr (), h s)"
  "readE r s = (r s, s)"
  "guardE bad ex s = (if bad s then (Inl (ex s), s) else (Inr (), s))"
  by (simp_all add: returnE_def raiseE_def getsE_def modifyE_def readE_def guardE_def)

lemma updE_apply [op_simps]:
  "updE u s = (case u s of Inl e \<Rightarrow> (Inl e, s) | Inr s' \<Rightarrow> (Inr (), s'))"
  by (simp add: updE_def)

lemma bindE_apply [op_simps]:
  "bindE m f s = (case m s of (Inl e, s') \<Rightarrow> (Inl e, s') | (Inr a, s') \<Rightarrow> f a s')"
  by (simp add: bindE_def)

lemma thenE_apply [op_simps]:
  "thenE m n s = (case m s of (Inl e, s') \<Rightarrow> (Inl e, s') | (Inr a, s') \<Rightarrow> n s')"
  by (simp add: thenE_def bindE_def)

lemma bindE_ok: "m s = (Inr a, s') \<Longrightarrow> bindE m f s = f a s'"
  by (simp add: bindE_def)

lemma thenE_ok: "m s = (Inr a, s') \<Longrightarrow> thenE m n s = n s'"
  by (simp add: thenE_def bindE_def)

lemma bindE_returned:
  "bindE m f s = (Inr b, t) \<longleftrightarrow> (\<exists>a s'. m s = (Inr a, s') \<and> f a s' = (Inr b, t))"
  by (auto simp: bindE_def split: prod.splits sum.splits)

lemma thenE_returned:
  "thenE m n s = (Inr b, t) \<longleftrightarrow> (\<exists>a s'. m s = (Inr a, s') \<and> n s' = (Inr b, t))"
  by (simp add: thenE_def bindE_returned)

subsection \<open>Hoare triples with a postcondition for each exit\<close>

definition hoareE ::
  "('s \<Rightarrow> bool) \<Rightarrow> ('s, 'a) op \<Rightarrow> ('a \<Rightarrow> 's \<Rightarrow> bool) \<Rightarrow> (py_exc \<Rightarrow> 's \<Rightarrow> bool) \<Rightarrow> bool" where
  "hoareE P m Q E \<longleftrightarrow>
     (\<forall>s. P s \<longrightarrow> (case m s of (Inr a, s') \<Rightarrow> Q a s' | (Inl e, s') \<Rightarrow> E e s'))"

lemma hoareE_D_ok: "hoareE P m Q E \<Longrightarrow> P s \<Longrightarrow> m s = (Inr a, s') \<Longrightarrow> Q a s'"
  by (auto simp: hoareE_def)

lemma hoareE_D_err: "hoareE P m Q E \<Longrightarrow> P s \<Longrightarrow> m s = (Inl e, s') \<Longrightarrow> E e s'"
  by (auto simp: hoareE_def)

lemma hoareE_I:
  assumes "\<And>s a s'. P s \<Longrightarrow> m s = (Inr a, s') \<Longrightarrow> Q a s'"
    and "\<And>s e s'. P s \<Longrightarrow> m s = (Inl e, s') \<Longrightarrow> E e s'"
  shows "hoareE P m Q E"
  using assms by (auto simp: hoareE_def split: prod.splits sum.splits)

lemma hoareE_bind [hoare_intros]:
  assumes "hoareE P m R E" and "\<And>a. hoareE (R a) (f a) Q E"
  shows "hoareE P (bindE m f) Q E"
  using assms by (fastforce simp: hoareE_def bindE_def split: prod.splits sum.splits)

lemma hoareE_then [hoare_intros]:
  assumes "hoareE P m (\<lambda>_. R) E" and "hoareE R n Q E"
  shows "hoareE P (thenE m n) Q E"
  unfolding thenE_def using assms by (rule hoareE_bind)

lemma hoareE_conseq:
  assumes "hoareE P' m Q' E'"
    and "\<And>s. P s \<Longrightarrow> P' s" and "\<And>a s. Q' a s \<Longrightarrow> Q a s" and "\<And>e s. E' e s \<Longrightarrow> E e s"
  shows "hoareE P m Q E"
  using assms by (fastforce simp: hoareE_def split: prod.splits sum.splits)

lemma hoareE_return [hoare_intros]: "(\<And>s. P s \<Longrightarrow> Q a s) \<Longrightarrow> hoareE P (returnE a) Q E"
  by (auto simp: hoareE_def op_simps)

lemma hoareE_raise [hoare_intros]: "(\<And>s. P s \<Longrightarrow> E e s) \<Longrightarrow> hoareE P (raiseE e) Q E"
  by (auto simp: hoareE_def op_simps)

lemma hoareE_gets [hoare_intros]: "(\<And>s. P s \<Longrightarrow> Q (f s) s) \<Longrightarrow> hoareE P (getsE f) Q E"
  by (auto simp: hoareE_def op_simps)

lemma hoareE_modify [hoare_intros]: "(\<And>s. P s \<Longrightarrow> Q () (f s)) \<Longrightarrow> hoareE P (modifyE f) Q E"
  by (auto simp: hoareE_def op_simps)

lemma hoareE_guard [hoare_intros]:
  "(\<And>s. P s \<Longrightarrow> \<not> bad s \<Longrightarrow> Q () s) \<Longrightarrow> (\<And>s. P s \<Longrightarrow> bad s \<Longrightarrow> E (e s) s) \<Longrightarrow>
   hoareE P (guardE bad e) Q E"
  by (auto simp: hoareE_def op_simps)

lemma hoareE_read [hoare_intros]:
  "(\<And>s a. P s \<Longrightarrow> f s = Inr a \<Longrightarrow> Q a s) \<Longrightarrow> (\<And>s e. P s \<Longrightarrow> f s = Inl e \<Longrightarrow> E e s) \<Longrightarrow>
   hoareE P (readE f) Q E"
  by (auto simp: hoareE_def op_simps split: sum.splits)

lemma hoareE_upd [hoare_intros]:
  "(\<And>s s'. P s \<Longrightarrow> f s = Inr s' \<Longrightarrow> Q () s') \<Longrightarrow> (\<And>s e. P s \<Longrightarrow> f s = Inl e \<Longrightarrow> E e s) \<Longrightarrow>
   hoareE P (updE f) Q E"
  by (auto simp: hoareE_def op_simps split: sum.splits)

lemma hoareE_if [hoare_intros]:
  "(b \<Longrightarrow> hoareE P m Q E) \<Longrightarrow> (\<not> b \<Longrightarrow> hoareE P n Q E) \<Longrightarrow> hoareE P (if b then m else n) Q E"
  by auto

lemma hoareE_for:
  assumes "\<And>x. x \<in> set xs \<Longrightarrow> hoareE I (f x) (\<lambda>_. I) E"
  shows "hoareE I (forE xs f) (\<lambda>_. I) E"
  using assms
proof (induction xs)
  case Nil
  then show ?case by (auto simp: hoareE_def op_simps)
next
  case (Cons x xs)
  then have "hoareE I (f x) (\<lambda>_. I) E" and "hoareE I (forE xs f) (\<lambda>_. I) E" by auto
  then show ?case by (simp add: hoareE_then)
qed

section \<open>Timestamps\<close>

text \<open>
  A \<open>datetime\<close> either carries a UTC offset, and then denotes an instant (microseconds
  since the epoch), or is naive.
\<close>

datatype datetime = Aware int | Naive int

section \<open>Strings\<close>

text \<open>
  Python strings are lists of \<open>char\<close>, read as code points up to U+00FF.
  \<open>py_isspace\<close> is \<open>str.isspace\<close> on one such character.
\<close>

definition py_isspace :: "char \<Rightarrow> bool" where
  "py_isspace c \<longleftrightarrow> (of_char c :: nat) \<in> {9, 10, 11, 12, 13, 28, 29, 30, 31, 32, 133, 160}"

definition py_strip :: "string \<Rightarrow> string" where
  "py_strip s = rev (dropWhile py_isspace (rev (dropWhile py_isspace s)))"

definition startswith :: "string \<Rightarrow> string \<Rightarrow> bool" where
  "startswith s p \<longleftrightarrow> take (length p) s = p"

definition removeprefix :: "string \<Rightarrow> string \<Rightarrow> string" where
  "removeprefix s p = (if startswith s p then drop (length p) s else s)"

text \<open>The substring test \<open>p in s\<close>.\<close>

fun contains :: "string \<Rightarrow> string \<Rightarrow> bool" where
  "contains p [] \<longleftrightarrow> p = []"
| "contains p (c # s) \<longleftrightarrow> startswith (c # s) p \<or> contains p s"

lemma py_strip_Nil_iff: "py_strip s = [] \<longleftrightarrow> (\<forall>c \<in> set s. py_isspace c)"
proof -
  have "py_strip s = [] \<longleftrightarrow> (\<forall>c \<in> set (dropWhile py_isspace s). py_isspace c)"
    by (auto simp: py_strip_def dropWhile_eq_Nil_conv)
  also have "\<dots> \<longleftrightarrow> (\<forall>c \<in> set s. py_isspace c)"
    by (metis dropWhile_eq_Nil_conv hd_dropWhile list.set_sel(1) set_dropWhileD)
  finally show ?thesis .
qed

lemma startswith_append [simp]: "startswith (p @ s) p"
  by (simp add: startswith_def)

lemma removeprefix_append [simp]: "removeprefix (p @ s) p = s"
  by (simp add: removeprefix_def startswith_def)

lemma startswith_iff: "startswith s p \<longleftrightarrow> (\<exists>t. s = p @ t)"
  by (metis append_take_drop_id append_eq_conv_conj startswith_def)

text \<open>Decimal text of an integer, \<open>str(n)\<close>.\<close>

definition digit_char :: "nat \<Rightarrow> char" where
  "digit_char d = char_of (48 + d)"

fun nat_str :: "nat \<Rightarrow> string" where
  "nat_str n = (if n < 10 then [digit_char n] else nat_str (n div 10) @ [digit_char (n mod 10)])"

declare nat_str.simps [simp del]

definition int_str :: "int \<Rightarrow> string" where
  "int_str i = (if i < 0 then CHR ''-'' # nat_str (nat (- i)) else nat_str (nat i))"

text \<open>
  \<open>repr\<close> of a string: single quotes unless the text holds a single and no double quote,
  with backslash, the quote, newline, return, tab and unprintable characters escaped.
\<close>

definition hex_digit :: "nat \<Rightarrow> char" where
  "hex_digit d = (if d < 10 then char_of (48 + d) else char_of (87 + d))"

definition py_repr_char :: "char \<Rightarrow> char \<Rightarrow> string" where
  "py_repr_char q c =
     (let n = of_char c :: nat in
      if c = q \<or> n = 92 then [char_of (92 :: nat), c]
      else if n = 10 then [char_of (92 :: nat), CHR ''n'']
      else if n = 13 then [char_of (92 :: nat), CHR ''r'']
      else if n = 9 then [char_of (92 :: nat), CHR ''t'']
      else if n < 32 \<or> (127 \<le> n \<and> n \<le> 160) \<or> n = 173
        then [char_of (92 :: nat), CHR ''x'', hex_digit (n div 16), hex_digit (n mod 16)]
      else [c])"

definition py_repr :: "string \<Rightarrow> string" where
  "py_repr s =
     (let q = (if char_of (39 :: nat) \<in> set s \<and> char_of (34 :: nat) \<notin> set s
               then char_of (34 :: nat) else char_of (39 :: nat))
      in q # concat (map (py_repr_char q) s) @ [q])"

text \<open>\<open>", ".join(xs)\<close> and the text of a list of strings.\<close>

fun join :: "string \<Rightarrow> string list \<Rightarrow> string" where
  "join sep [] = []"
| "join sep [x] = x"
| "join sep (x # y # xs) = x @ sep @ join sep (y # xs)"

definition str_list_repr :: "string list \<Rightarrow> string" where
  "str_list_repr xs = ''['' @ join '', '' (map py_repr xs) @ '']''"

text \<open>The text of an exception, as \<open>str(error)\<close> gives it.\<close>

fun exc_str :: "py_exc \<Rightarrow> string" where
  "exc_str (DomainValidationError m) = m"
| "exc_str (InvalidStateTransition t i c g) =
     ''Invalid '' @ t @ '' transition for '' @ i @ '': '' @ c @ '' -> '' @ g"
| "exc_str (CheckpointIntegrityError m) = m"
| "exc_str (CheckpointMismatchError m) = m"
| "exc_str (ExecutionNotResumableError m) = m"
| "exc_str (StepRunNotFoundError m) = m"
| "exc_str (InvalidWorkflowDefinitionError m) = m"
| "exc_str (InvalidReferenceError m) = m"
| "exc_str (InvalidRetryPolicyError m) = m"
| "exc_str (WorkflowStateError m) = m"
| "exc_str (StaleDecisionError m) = m"
| "exc_str (ValueErrorMsg m) = m"
| "exc_str (StaleStateError m) = m"
| "exc_str (DuplicateEntityError m) = m"
| "exc_str (RuntimeErrorMsg m) = m"
| "exc_str (SkillValidationError p m) = p @ '': '' @ m"
| "exc_str (InvalidSkillDefinitionError m) = m"
| "exc_str (InvalidSkillReferenceError m) = m"
| "exc_str (DuplicateSkillRegistrationError m) = m"
| "exc_str (SkillNotFoundError m) = m"
| "exc_str (SkillDecisionMismatchError m) = m"
| "exc_str (SkillCapabilityDeniedError m) = m"
| "exc_str (AgentRuntimeError m) = m"
| "exc_str (ArtifactGatewayError m) = m"
| "exc_str (ApplicationValidationError m) = m"
| "exc_str (ApplicationNotFoundError m) = m"
| "exc_str (ApplicationConflictError m) = m"
| "exc_str (UnsafeProgressReportError m) = m"
| "exc_str (ApplicationCodedValidationError m c) = m"
| "exc_str (ApplicationCodedNotFoundError m c) = m"
| "exc_str (ApplicationCodedConflictError m c) = m"
| "exc_str (ApplicationCodedAuthorizationError m c) = m"
| "exc_str (BudgetExceededError d) = ''Provider budget exceeded: '' @ d"
| "exc_str (PyKeyError k) = py_repr k"
| "exc_str PyTypeError = ''''"
| "exc_str PyValueError = ''''"
| "exc_str PyAttributeError = ''''"
| "exc_str PyOverflowError = ''''"
| "exc_str PyAssertionError = ''''"

section \<open>Lists\<close>

text \<open>
  The position of the first element with the largest key, as \<open>max(xs, key=...)\<close> picks it.
\<close>

fun first_max :: "('a \<Rightarrow> int) \<Rightarrow> 'a list \<Rightarrow> 'a option" where
  "first_max k [] = None"
| "first_max k (x # xs) =
     (case first_max k xs of None \<Rightarrow> Some x | Some y \<Rightarrow> if k y > k x then Some y else Some x)"

lemma first_max_None [simp]: "first_max k xs = None \<longleftrightarrow> xs = []"
  by (cases xs) (auto split: option.splits)

lemma first_max_in: "first_max k xs = Some y \<Longrightarrow> y \<in> set xs"
  by (induction xs arbitrary: y) (auto split: option.splits if_splits)

lemma first_max_ge: "first_max k xs = Some y \<Longrightarrow> x \<in> set xs \<Longrightarrow> k x \<le> k y"
proof (induction xs arbitrary: y)
  case Nil
  then show ?case by simp
next
  case (Cons a xs)
  show ?case
  proof (cases "first_max k xs")
    case None
    with Cons.prems show ?thesis by simp
  next
    case (Some z)
    with Cons.prems Cons.IH[OF Some] show ?thesis
      by (cases "x = a") (auto split: if_splits)
  qed
qed

lemma first_max_cong: "(\<And>x. x \<in> set xs \<Longrightarrow> k x = l x) \<Longrightarrow> first_max k xs = first_max l xs"
proof (induction xs)
  case (Cons x xs)
  then have "first_max k xs = first_max l xs" by simp
  with Cons.prems first_max_in [of l xs] show ?case by (auto split: option.splits)
qed simp

lemma first_max_inj:
  assumes "inj_on k (set xs)" and "y \<in> set xs" and "\<And>x. x \<in> set xs \<Longrightarrow> k x \<le> k y"
  shows "first_max k xs = Some y"
proof -
  from assms(2) obtain z where z: "first_max k xs = Some z"
    by (cases "first_max k xs") auto
  then have "z \<in> set xs" and "k y \<le> k z"
    using assms(2) by (auto dest: first_max_in first_max_ge)
  with assms have "k y = k z" by (simp add: antisym)
  with assms(1,2) \<open>z \<in> set xs\<close> have "z = y" by (metis inj_onD)
  with z show ?thesis by simp
qed

lemma filter_single: "length (filter P xs) = 1 \<Longrightarrow> \<exists>x. filter P xs = [x]"
  by (cases "filter P xs") auto

lemma map_of_SomeI: "distinct (map fst xs) \<Longrightarrow> (k, v) \<in> set xs \<Longrightarrow> map_of xs k = Some v"
  by simp

lemma map_of_map_snd: "map_of (map (\<lambda>(k, v). (k, f v)) xs) k = map_option f (map_of xs k)"
  by (induction xs) auto

end
