(* ===== verification/Lifecycle.thy ===== *)
theory Lifecycle
  imports Prelude
begin

text \<open>
  The status enumerations of \<^verbatim>\<open>backend/domain/enums/statuses.py\<close>, the transition
  tables of the entities that carry them, and the two interfaces the entities share: a
  \<open>lifecycle\<close> (a transition table with its terminal statuses) and a
  \<open>versioned_entity\<close> (an entity whose \<open>transition_to\<close> follows such a table and
  counts every change in its \<open>row_version\<close>).

  Constructors carry the name of their enumeration in front, since the Python classes
  reuse member names. The aliases of the source (\<open>WAITING_APPROVAL\<close> of the run,
  \<open>SUCCEEDED\<close> of the step, \<open>RUNNING\<close> of the session and so on) denote the same member.
\<close>

section \<open>Enumerations\<close>

datatype WorkflowRunStatus =
    Run_CREATED | Run_INITIALIZING | Run_RUNNING | Run_WAITING_FOR_APPROVAL
  | Run_WAITING_FOR_INPUT | Run_RETRY_SCHEDULED | Run_COMPLETED | Run_FAILED
  | Run_CANCELLING | Run_CANCELLED

datatype StepRunStatus =
    Step_CREATED | Step_READY | Step_RUNNING | Step_WAITING_APPROVAL | Step_COMPLETED
  | Step_FAILED | Step_SKIPPED | Step_CANCELLED

datatype AgentSessionStatus =
    Agent_CREATED | Agent_INITIALIZING | Agent_ACTIVE | Agent_WAITING | Agent_COMPLETED
  | Agent_FAILED | Agent_CANCELLING | Agent_CANCELLED

datatype WorkflowStepKind = Kind_SKILL | Kind_APPROVAL

datatype ApprovalRequestStatus =
    Approval_PENDING | Approval_APPROVED | Approval_REJECTED | Approval_EXPIRED

fun run_is_terminal :: "WorkflowRunStatus \<Rightarrow> bool" where
  "run_is_terminal s \<longleftrightarrow> s \<in> {Run_COMPLETED, Run_FAILED, Run_CANCELLED}"

fun step_is_terminal :: "StepRunStatus \<Rightarrow> bool" where
  "step_is_terminal s \<longleftrightarrow> s \<in> {Step_COMPLETED, Step_FAILED, Step_SKIPPED, Step_CANCELLED}"

fun agent_is_terminal :: "AgentSessionStatus \<Rightarrow> bool" where
  "agent_is_terminal s \<longleftrightarrow> s \<in> {Agent_COMPLETED, Agent_FAILED, Agent_CANCELLED}"

fun approval_is_terminal :: "ApprovalRequestStatus \<Rightarrow> bool" where
  "approval_is_terminal s \<longleftrightarrow> s \<noteq> Approval_PENDING"

fun run_status_value :: "WorkflowRunStatus \<Rightarrow> string" where
  "run_status_value Run_CREATED = ''CREATED''"
| "run_status_value Run_INITIALIZING = ''INITIALIZING''"
| "run_status_value Run_RUNNING = ''RUNNING''"
| "run_status_value Run_WAITING_FOR_APPROVAL = ''WAITING_FOR_APPROVAL''"
| "run_status_value Run_WAITING_FOR_INPUT = ''WAITING_FOR_INPUT''"
| "run_status_value Run_RETRY_SCHEDULED = ''RETRY_SCHEDULED''"
| "run_status_value Run_COMPLETED = ''COMPLETED''"
| "run_status_value Run_FAILED = ''FAILED''"
| "run_status_value Run_CANCELLING = ''CANCELLING''"
| "run_status_value Run_CANCELLED = ''CANCELLED''"

fun step_status_value :: "StepRunStatus \<Rightarrow> string" where
  "step_status_value Step_CREATED = ''CREATED''"
| "step_status_value Step_READY = ''READY''"
| "step_status_value Step_RUNNING = ''RUNNING''"
| "step_status_value Step_WAITING_APPROVAL = ''WAITING_APPROVAL''"
| "step_status_value Step_COMPLETED = ''COMPLETED''"
| "step_status_value Step_FAILED = ''FAILED''"
| "step_status_value Step_SKIPPED = ''SKIPPED''"
| "step_status_value Step_CANCELLED = ''CANCELLED''"

fun agent_status_value :: "AgentSessionStatus \<Rightarrow> string" where
  "agent_status_value Agent_CREATED = ''CREATED''"
| "agent_status_value Agent_INITIALIZING = ''INITIALIZING''"
| "agent_status_value Agent_ACTIVE = ''ACTIVE''"
| "agent_status_value Agent_WAITING = ''WAITING''"
| "agent_status_value Agent_COMPLETED = ''COMPLETED''"
| "agent_status_value Agent_FAILED = ''FAILED''"
| "agent_status_value Agent_CANCELLING = ''CANCELLING''"
| "agent_status_value Agent_CANCELLED = ''CANCELLED''"

fun approval_status_value :: "ApprovalRequestStatus \<Rightarrow> string" where
  "approval_status_value Approval_PENDING = ''PENDING''"
| "approval_status_value Approval_APPROVED = ''APPROVED''"
| "approval_status_value Approval_REJECTED = ''REJECTED''"
| "approval_status_value Approval_EXPIRED = ''EXPIRED''"

text \<open>Every member has its own text, so comparing texts compares members.\<close>

lemma run_status_value_inj [simp]: "run_status_value s = run_status_value t \<longleftrightarrow> s = t"
  by (cases s; cases t) simp_all

lemma step_status_value_inj [simp]: "step_status_value s = step_status_value t \<longleftrightarrow> s = t"
  by (cases s; cases t) simp_all

lemma agent_status_value_inj [simp]: "agent_status_value s = agent_status_value t \<longleftrightarrow> s = t"
  by (cases s; cases t) simp_all

section \<open>Transition tables\<close>

fun workflow_run_transitions :: "WorkflowRunStatus \<Rightarrow> WorkflowRunStatus list" where
  "workflow_run_transitions Run_CREATED = [Run_INITIALIZING, Run_CANCELLING]"
| "workflow_run_transitions Run_INITIALIZING = [Run_RUNNING, Run_FAILED, Run_CANCELLING]"
| "workflow_run_transitions Run_RUNNING =
     [Run_WAITING_FOR_APPROVAL, Run_WAITING_FOR_INPUT, Run_RETRY_SCHEDULED, Run_COMPLETED,
      Run_FAILED, Run_CANCELLING]"
| "workflow_run_transitions Run_WAITING_FOR_APPROVAL = [Run_RUNNING, Run_CANCELLING]"
| "workflow_run_transitions Run_WAITING_FOR_INPUT = [Run_RUNNING, Run_CANCELLING]"
| "workflow_run_transitions Run_RETRY_SCHEDULED = [Run_RUNNING, Run_CANCELLING]"
| "workflow_run_transitions Run_CANCELLING = [Run_CANCELLED]"
| "workflow_run_transitions Run_COMPLETED = []"
| "workflow_run_transitions Run_FAILED = []"
| "workflow_run_transitions Run_CANCELLED = []"

fun step_run_transitions :: "StepRunStatus \<Rightarrow> StepRunStatus list" where
  "step_run_transitions Step_CREATED = [Step_READY, Step_SKIPPED, Step_CANCELLED]"
| "step_run_transitions Step_READY = [Step_RUNNING, Step_SKIPPED, Step_CANCELLED]"
| "step_run_transitions Step_RUNNING =
     [Step_WAITING_APPROVAL, Step_COMPLETED, Step_FAILED, Step_CANCELLED]"
| "step_run_transitions Step_WAITING_APPROVAL = [Step_RUNNING, Step_CANCELLED]"
| "step_run_transitions Step_COMPLETED = []"
| "step_run_transitions Step_FAILED = []"
| "step_run_transitions Step_SKIPPED = []"
| "step_run_transitions Step_CANCELLED = []"

fun agent_session_transitions :: "AgentSessionStatus \<Rightarrow> AgentSessionStatus list" where
  "agent_session_transitions Agent_CREATED = [Agent_INITIALIZING, Agent_CANCELLING]"
| "agent_session_transitions Agent_INITIALIZING = [Agent_ACTIVE, Agent_FAILED, Agent_CANCELLING]"
| "agent_session_transitions Agent_ACTIVE =
     [Agent_WAITING, Agent_COMPLETED, Agent_FAILED, Agent_CANCELLING]"
| "agent_session_transitions Agent_WAITING = [Agent_ACTIVE, Agent_FAILED, Agent_CANCELLING]"
| "agent_session_transitions Agent_CANCELLING = [Agent_CANCELLED]"
| "agent_session_transitions Agent_COMPLETED = []"
| "agent_session_transitions Agent_FAILED = []"
| "agent_session_transitions Agent_CANCELLED = []"

section \<open>The lifecycle interface\<close>

text \<open>A walk through a transition table.\<close>

inductive walk :: "('s \<Rightarrow> 's list) \<Rightarrow> 's \<Rightarrow> 's list \<Rightarrow> 's \<Rightarrow> bool" for table where
  walk_nil: "walk table s [] s"
| walk_step: "t \<in> set (table s) \<Longrightarrow> walk table t ts u \<Longrightarrow> walk table s (t # ts) u"

inductive_cases walk_consE: "walk table s (t # ts) u"
inductive_simps walk_nil_iff [simp]: "walk table s [] u"
inductive_simps walk_cons_iff [simp]: "walk table s (t # ts) u"

locale lifecycle =
  fixes table :: "'s \<Rightarrow> 's list"
    and terminal :: "'s \<Rightarrow> bool"
  assumes terminal_iff: "terminal s \<longleftrightarrow> table s = []"
begin

lemma terminal_stuck: "walk table s ts u \<Longrightarrow> terminal s \<Longrightarrow> ts = [] \<and> u = s"
  by (cases ts) (auto simp: terminal_iff)

lemma terminal_only_last:
  "walk table s ts u \<Longrightarrow> i < length ts \<Longrightarrow> terminal (ts ! i) \<Longrightarrow> Suc i = length ts"
proof (induction arbitrary: i rule: walk.induct)
  case (walk_nil s)
  then show ?case by simp
next
  case (walk_step t s ts u)
  show ?case
  proof (cases i)
    case 0
    with walk_step terminal_stuck show ?thesis by fastforce
  next
    case (Suc j)
    with walk_step show ?thesis by auto
  qed
qed

lemma walk_prefix_alive:
  "walk table s (ts @ t # us) u \<Longrightarrow> \<not> terminal s"
  by (cases "ts @ t # us") (auto simp: terminal_iff)

end

interpretation run_life: lifecycle workflow_run_transitions run_is_terminal
proof unfold_locales
  fix s show "run_is_terminal s \<longleftrightarrow> workflow_run_transitions s = []" by (cases s) auto
qed

interpretation step_life: lifecycle step_run_transitions step_is_terminal
proof unfold_locales
  fix s show "step_is_terminal s \<longleftrightarrow> step_run_transitions s = []" by (cases s) auto
qed

interpretation agent_life: lifecycle agent_session_transitions agent_is_terminal
proof unfold_locales
  fix s show "agent_is_terminal s \<longleftrightarrow> agent_session_transitions s = []" by (cases s) auto
qed

section \<open>Versioned entities\<close>

text \<open>A sequence of calls, each on the entity the previous one left; the first error stops it.\<close>

fun calls :: "('s \<Rightarrow> 'a \<Rightarrow> 'e \<Rightarrow> 'e res) \<Rightarrow> ('s \<times> 'a) list \<Rightarrow> 'e \<Rightarrow> 'e res" where
  "calls transition [] e = Inr e"
| "calls transition (c # cs) e = bindR (transition (fst c) (snd c) e) (calls transition cs)"

text \<open>
  What every entity with a lifecycle promises about \<open>transition_to\<close>: it moves along the
  table and adds one to \<open>row_version\<close>, or it raises and leaves the entity as it was.
  \<open>'a\<close> is the type of the remaining arguments of the call.
\<close>

locale versioned_entity = lifecycle table terminal
  for table :: "'s \<Rightarrow> 's list" and terminal :: "'s \<Rightarrow> bool" +
  fixes status :: "'e \<Rightarrow> 's"
    and version :: "'e \<Rightarrow> int"
    and transition :: "'s \<Rightarrow> 'a \<Rightarrow> 'e \<Rightarrow> 'e res"
  assumes moves: "transition t a e = Inr e' \<Longrightarrow>
      t \<in> set (table (status e)) \<and> status e' = t \<and> version e' = version e + 1"
    and refuses: "t \<notin> set (table (status e)) \<Longrightarrow>
      \<exists>k i c g. transition t a e = Inl (InvalidStateTransition k i c g)"
begin

lemma calls_walk: "calls transition cs e = Inr e' \<Longrightarrow> walk table (status e) (map fst cs) (status e')"
proof (induction cs arbitrary: e)
  case Nil
  then show ?case by (simp add: walk.walk_nil)
next
  case (Cons c cs)
  then obtain e1 where "transition (fst c) (snd c) e = Inr e1" and "calls transition cs e1 = Inr e'"
    by (auto simp: bindR_Inr_iff)
  then show ?case using Cons.IH [of e1] moves by auto
qed

lemma calls_version: "calls transition cs e = Inr e' \<Longrightarrow> version e' = version e + int (length cs)"
proof (induction cs arbitrary: e)
  case Nil
  then show ?case by simp
next
  case (Cons c cs)
  then obtain e1 where "transition (fst c) (snd c) e = Inr e1" and "calls transition cs e1 = Inr e'"
    by (auto simp: bindR_Inr_iff)
  then show ?case using Cons.IH [of e1] moves by fastforce
qed

lemma terminal_refuses:
  assumes "terminal (status e)"
  shows "\<exists>k i c g. transition t a e = Inl (InvalidStateTransition k i c g)"
  using refuses assms by (auto simp: terminal_iff)

lemma terminal_final:
  assumes "terminal (status e)" and "calls transition cs e = Inr e'"
  shows "cs = [] \<and> e' = e"
proof -
  from calls_walk [OF assms(2)] have "cs = []" using terminal_stuck assms(1) by fastforce
  with assms(2) show ?thesis by simp
qed

end

end
