(* ===== verification/Py_Values.thy ===== *)
theory Py_Values
  imports Prelude "HOL-Library.AList"
begin

text \<open>
  The dynamic values (\<open>Any\<close>) that flow through workflow inputs, outputs, metadata and
  checkpoints, and the helpers that freeze and thaw their containers
  (\<^verbatim>\<open>backend/domain/models/_utils.py\<close> and
  \<^verbatim>\<open>backend/workflow_engine/models/_immutability.py\<close>).

  The universe is that of JSON documents with string keys, with mutable and read-only
  containers told apart: \<open>VDict\<close> and \<open>VList\<close> are \<open>dict\<close> and \<open>list\<close>, \<open>VProxy\<close>
  and \<open>VTuple\<close> are \<open>MappingProxyType\<close> and \<open>tuple\<close>. A dictionary is the list of its
  items in insertion order. A float is given by its literal text (\<open>repr\<close>), since the
  modelled code only stores, compares and prints these floats. \<open>VObj\<close> stands for any
  object that is none of these. Sets are not part of the universe.
\<close>

datatype pyval =
    VNone
  | VBool bool
  | VInt int
  | VFloat string
  | VStr string
  | VList "pyval list"
  | VTuple "pyval list"
  | VDict "(string \<times> pyval) list"
  | VProxy "(string \<times> pyval) list"
  | VObj nat

type_synonym pymap = "(string \<times> pyval) list"

lemma pyval_induct [case_names None Bool Int Float Str List Tuple Dict Proxy Obj]:
  assumes "P VNone" and "\<And>b. P (VBool b)" and "\<And>i. P (VInt i)" and "\<And>t. P (VFloat t)"
    and "\<And>s. P (VStr s)"
    and "\<And>xs. (\<And>x. x \<in> set xs \<Longrightarrow> P x) \<Longrightarrow> P (VList xs)"
    and "\<And>xs. (\<And>x. x \<in> set xs \<Longrightarrow> P x) \<Longrightarrow> P (VTuple xs)"
    and "\<And>kvs. (\<And>k v. (k, v) \<in> set kvs \<Longrightarrow> P v) \<Longrightarrow> P (VDict kvs)"
    and "\<And>kvs. (\<And>k v. (k, v) \<in> set kvs \<Longrightarrow> P v) \<Longrightarrow> P (VProxy kvs)"
    and "\<And>n. P (VObj n)"
  shows "P v"
  by (induction v) (use assms in \<open>auto simp: snds.simps\<close>)

lemma pyval_size_item [termination_simp]:
  "(k, v) \<in> set kvs \<Longrightarrow> size v < Suc (size_list (size_prod (\<lambda>_. 0) size) kvs)"
  by (induction kvs) auto

section \<open>Freezing and thawing\<close>

primrec freeze_value :: "pyval \<Rightarrow> pyval" where
  "freeze_value VNone = VNone"
| "freeze_value (VBool b) = VBool b"
| "freeze_value (VInt i) = VInt i"
| "freeze_value (VFloat t) = VFloat t"
| "freeze_value (VStr s) = VStr s"
| "freeze_value (VList xs) = VTuple (map freeze_value xs)"
| "freeze_value (VTuple xs) = VTuple (map freeze_value xs)"
| "freeze_value (VDict kvs) = VProxy (map (map_prod id freeze_value) kvs)"
| "freeze_value (VProxy kvs) = VProxy (map (map_prod id freeze_value) kvs)"
| "freeze_value (VObj n) = VObj n"

primrec thaw_value :: "pyval \<Rightarrow> pyval" where
  "thaw_value VNone = VNone"
| "thaw_value (VBool b) = VBool b"
| "thaw_value (VInt i) = VInt i"
| "thaw_value (VFloat t) = VFloat t"
| "thaw_value (VStr s) = VStr s"
| "thaw_value (VList xs) = VList (map thaw_value xs)"
| "thaw_value (VTuple xs) = VList (map thaw_value xs)"
| "thaw_value (VDict kvs) = VDict (map (map_prod id thaw_value) kvs)"
| "thaw_value (VProxy kvs) = VDict (map (map_prod id thaw_value) kvs)"
| "thaw_value (VObj n) = VObj n"

text \<open>The Engine's own copies of the two helpers.\<close>

primrec freeze :: "pyval \<Rightarrow> pyval" where
  "freeze VNone = VNone"
| "freeze (VBool b) = VBool b"
| "freeze (VInt i) = VInt i"
| "freeze (VFloat t) = VFloat t"
| "freeze (VStr s) = VStr s"
| "freeze (VList xs) = VTuple (map freeze xs)"
| "freeze (VTuple xs) = VTuple (map freeze xs)"
| "freeze (VDict kvs) = VProxy (map (map_prod id freeze) kvs)"
| "freeze (VProxy kvs) = VProxy (map (map_prod id freeze) kvs)"
| "freeze (VObj n) = VObj n"

primrec thaw :: "pyval \<Rightarrow> pyval" where
  "thaw VNone = VNone"
| "thaw (VBool b) = VBool b"
| "thaw (VInt i) = VInt i"
| "thaw (VFloat t) = VFloat t"
| "thaw (VStr s) = VStr s"
| "thaw (VList xs) = VList (map thaw xs)"
| "thaw (VTuple xs) = VList (map thaw xs)"
| "thaw (VDict kvs) = VDict (map (map_prod id thaw) kvs)"
| "thaw (VProxy kvs) = VDict (map (map_prod id thaw) kvs)"
| "thaw (VObj n) = VObj n"

text \<open>
  A mapping field (\<open>Mapping[str, Any]\<close>) is kept as its items; freezing it freezes the
  items.
\<close>

definition freeze_map :: "pymap \<Rightarrow> pymap" where
  "freeze_map = map (map_prod id freeze_value)"

definition thaw_map :: "pymap \<Rightarrow> pymap" where
  "thaw_map = map (map_prod id thaw_value)"

lemma freeze_eq_freeze_value [simp]: "freeze v = freeze_value v"
  by (induction v rule: pyval_induct) auto

lemma thaw_eq_thaw_value [simp]: "thaw v = thaw_value v"
  by (induction v rule: pyval_induct) auto

text \<open>Values made of mutable containers only, the shape of decoded JSON.\<close>

fun is_json_shape :: "pyval \<Rightarrow> bool" where
  "is_json_shape (VList xs) \<longleftrightarrow> (\<forall>x \<in> set xs. is_json_shape x)"
| "is_json_shape (VDict kvs) \<longleftrightarrow> (\<forall>(k, v) \<in> set kvs. is_json_shape v)"
| "is_json_shape (VTuple _) \<longleftrightarrow> False"
| "is_json_shape (VProxy _) \<longleftrightarrow> False"
| "is_json_shape (VObj _) \<longleftrightarrow> False"
| "is_json_shape _ \<longleftrightarrow> True"

fun is_frozen :: "pyval \<Rightarrow> bool" where
  "is_frozen (VTuple xs) \<longleftrightarrow> (\<forall>x \<in> set xs. is_frozen x)"
| "is_frozen (VProxy kvs) \<longleftrightarrow> (\<forall>(k, v) \<in> set kvs. is_frozen v)"
| "is_frozen (VList _) \<longleftrightarrow> False"
| "is_frozen (VDict _) \<longleftrightarrow> False"
| "is_frozen _ \<longleftrightarrow> True"

lemma freeze_value_frozen [simp]: "is_frozen (freeze_value v)"
  by (induction v rule: pyval_induct) auto

lemma freeze_value_id [simp]: "is_frozen v \<Longrightarrow> freeze_value v = v"
  by (induction v rule: pyval_induct) (fastforce intro: map_idI)+

lemma thaw_freeze_value [simp]: "thaw_value (freeze_value v) = thaw_value v"
  by (induction v rule: pyval_induct) auto

lemma thaw_value_id [simp]: "is_json_shape v \<Longrightarrow> thaw_value v = v"
  by (induction v rule: pyval_induct) (fastforce intro: map_idI)+

lemma freeze_thaw_value [simp]: "freeze_value (thaw_value v) = freeze_value v"
  by (induction v rule: pyval_induct) auto

lemma keys_freeze_map [simp]: "map fst (freeze_map m) = map fst m"
  by (simp add: freeze_map_def)

lemma keys_thaw_map [simp]: "map fst (thaw_map m) = map fst m"
  by (simp add: thaw_map_def)

lemma lookup_freeze_map [simp]: "map_of (freeze_map m) k = map_option freeze_value (map_of m k)"
  by (induction m) (auto simp: freeze_map_def)

lemma freeze_map_idem [simp]: "freeze_map (freeze_map m) = freeze_map m"
  by (auto simp: freeze_map_def)

lemma thaw_freeze_map [simp]: "thaw_map (freeze_map m) = thaw_map m"
  by (auto simp: freeze_map_def thaw_map_def)

lemma freeze_thaw_map [simp]: "freeze_map (thaw_map m) = freeze_map m"
  by (auto simp: freeze_map_def thaw_map_def)

section \<open>Dictionaries\<close>

text \<open>\<open>d[k] = v\<close> keeps the position of an existing key and appends a new one.\<close>

definition dict_set :: "string \<Rightarrow> 'v \<Rightarrow> (string \<times> 'v) list \<Rightarrow> (string \<times> 'v) list" where
  "dict_set k v d = AList.update k v d"

lemma dict_set_lookup [simp]: "map_of (dict_set k v d) = (map_of d)(k \<mapsto> v)"
  by (simp add: dict_set_def update_conv')

lemma dict_set_distinct [simp]: "distinct (map fst d) \<Longrightarrow> distinct (map fst (dict_set k v d))"
  by (simp add: dict_set_def distinct_update)

lemma dict_set_keys: "set (map fst (dict_set k v d)) = insert k (set (map fst d))"
  using dom_update [of k v d] by (simp add: dict_set_def)

text \<open>\<open>isinstance(value, Mapping)\<close>, with the items of the mapping.\<close>

fun as_mapping :: "pyval \<Rightarrow> pymap option" where
  "as_mapping (VDict kvs) = Some kvs"
| "as_mapping (VProxy kvs) = Some kvs"
| "as_mapping _ = None"

end
