(* ===== verification/Json_Codec.thy ===== *)
theory Json_Codec
  imports Py_Values
begin

text \<open>
  The part of Python's \<open>json\<close> module that the sources use for canonical documents:
  \<open>json.dumps(v, sort_keys=True, separators=(",", ":"), ensure_ascii=False)\<close> and
  \<open>json.loads\<close>, with the proof that loading a dumped document gives the document back
  with its keys sorted and its tuples turned into lists.
\<close>

section \<open>Encoding\<close>

definition json_escape :: "char \<Rightarrow> string" where
  "json_escape c =
     (let n = of_char c :: nat; bs = CHR 0x5C in
      if n = 34 then [bs, c]
      else if n = 92 then [bs, c]
      else if n = 10 then [bs, CHR ''n'']
      else if n = 13 then [bs, CHR ''r'']
      else if n = 9 then [bs, CHR ''t'']
      else if n = 12 then [bs, CHR ''f'']
      else if n = 8 then [bs, CHR ''b'']
      else if n < 32
        then [bs, CHR ''u'', CHR ''0'', CHR ''0'', hex_digit (n div 16), hex_digit (n mod 16)]
      else [c])"

lemma of_char_control: "(of_char c :: nat) < 32 \<longleftrightarrow> (case c of Char b0 b1 b2 b3 b4 b5 b6 b7 \<Rightarrow> \<not> b5 \<and> \<not> b6 \<and> \<not> b7)"
proof (cases c)
  case (Char b0 b1 b2 b3 b4 b5 b6 b7)
  have "of_bool b \<le> (1 :: nat)" for b by simp
  note le = this [of b0] this [of b1] this [of b2] this [of b3] this [of b4]
  show ?thesis unfolding Char using le by (cases b5; cases b6; cases b7) (simp_all add: of_char_def)
qed

text \<open>An equation for evaluation: characters are compared by their bits.\<close>

lemma json_escape_code [code]:
  "json_escape c =
     (if c = CHR 0x22 \<or> c = CHR 0x5C then [CHR 0x5C, c]
      else if (case c of Char b0 b1 b2 b3 b4 b5 b6 b7 \<Rightarrow> b5 \<or> b6 \<or> b7) then [c]
      else if c = CHR 0x0A then [CHR 0x5C, CHR ''n'']
      else if c = CHR 0x0D then [CHR 0x5C, CHR ''r'']
      else if c = CHR 0x09 then [CHR 0x5C, CHR ''t'']
      else if c = CHR 0x0C then [CHR 0x5C, CHR ''f'']
      else if c = CHR 0x08 then [CHR 0x5C, CHR ''b'']
      else (let n = of_char c :: nat in
        [CHR 0x5C, CHR ''u'', CHR ''0'', CHR ''0'', hex_digit (n div 16), hex_digit (n mod 16)]))"
proof -
  have ctl: "(case c of Char b0 b1 b2 b3 b4 b5 b6 b7 \<Rightarrow> b5 \<or> b6 \<or> b7) \<longleftrightarrow> \<not> (of_char c :: nat) < 32"
    unfolding of_char_control by (cases c) simp
  have num: "(of_char c :: nat) = 34 \<longleftrightarrow> c = CHR 0x22" "(of_char c :: nat) = 92 \<longleftrightarrow> c = CHR 0x5C"
    "(of_char c :: nat) = 10 \<longleftrightarrow> c = CHR 0x0A" "(of_char c :: nat) = 13 \<longleftrightarrow> c = CHR 0x0D"
    "(of_char c :: nat) = 9 \<longleftrightarrow> c = CHR 0x09" "(of_char c :: nat) = 12 \<longleftrightarrow> c = CHR 0x0C"
    "(of_char c :: nat) = 8 \<longleftrightarrow> c = CHR 0x08"
    using of_char_eq_iff [of c "CHR 0x22", where 'a = nat] of_char_eq_iff [of c "CHR 0x5C", where 'a = nat]
      of_char_eq_iff [of c "CHR 0x0A", where 'a = nat] of_char_eq_iff [of c "CHR 0x0D", where 'a = nat]
      of_char_eq_iff [of c "CHR 0x09", where 'a = nat] of_char_eq_iff [of c "CHR 0x0C", where 'a = nat]
      of_char_eq_iff [of c "CHR 0x08", where 'a = nat] by simp_all
  show ?thesis unfolding ctl json_escape_def Let_def num
    by (cases "c = CHR 0x22"; cases "c = CHR 0x5C"; cases "(of_char c :: nat) < 32"; cases "c = CHR 0x0A"; cases "c = CHR 0x0D";
        cases "c = CHR 0x09"; cases "c = CHR 0x0C"; cases "c = CHR 0x08") simp_all
qed

section \<open>Two reports, uploaded in the wrong order\<close>

definition json_string :: "string \<Rightarrow> string" where
  "json_string s = CHR 0x22 # concat (map json_escape s) @ [CHR 0x22]"

definition nonfinite_text :: "string \<Rightarrow> string option" where
  "nonfinite_text t =
     (if t = ''nan'' then Some ''NaN''
      else if t = ''inf'' then Some ''Infinity''
      else if t = ''-inf'' then Some ''-Infinity''
      else None)"

definition float_dumps :: "bool \<Rightarrow> string \<Rightarrow> string res" where
  "float_dumps allow_nan t =
     (case nonfinite_text t of
        None \<Rightarrow> Inr t
      | Some u \<Rightarrow> if allow_nan then Inr u else Inl PyValueError)"

fun json_dumps :: "bool \<Rightarrow> pyval \<Rightarrow> string res" where
  "json_dumps nan VNone = Inr ''null''"
| "json_dumps nan (VBool b) = Inr (if b then ''true'' else ''false'')"
| "json_dumps nan (VInt i) = Inr (int_str i)"
| "json_dumps nan (VFloat t) = float_dumps nan t"
| "json_dumps nan (VStr s) = Inr (json_string s)"
| "json_dumps nan (VList xs) =
     bindR (mapR (json_dumps nan) xs) (\<lambda>ts. Inr (''['' @ join '','' ts @ '']''))"
| "json_dumps nan (VTuple xs) =
     bindR (mapR (json_dumps nan) xs) (\<lambda>ts. Inr (''['' @ join '','' ts @ '']''))"
| "json_dumps nan (VDict kvs) =
     bindR (mapR (\<lambda>(k, v). bindR (json_dumps nan v) (\<lambda>t. Inr (json_string k @ '':'' @ t)))
             (sort_key fst kvs))
       (\<lambda>ts. Inr (''{'' @ join '','' ts @ ''}''))"
| "json_dumps nan (VProxy _) = Inl PyTypeError"
| "json_dumps nan (VObj _) = Inl PyTypeError"

section \<open>Decoding\<close>

definition json_ws :: "char \<Rightarrow> bool" where
  "json_ws c \<longleftrightarrow> c \<in> {CHR 0x20, CHR 0x09, CHR 0x0A, CHR 0x0D}"

abbreviation skip_ws :: "string \<Rightarrow> string" where
  "skip_ws \<equiv> dropWhile json_ws"

definition hex_val :: "char \<Rightarrow> nat option" where
  "hex_val c =
     (let n = of_char c :: nat in
      if 48 \<le> n \<and> n \<le> 57 then Some (n - 48)
      else if 97 \<le> n \<and> n \<le> 102 then Some (n - 87)
      else if 65 \<le> n \<and> n \<le> 70 then Some (n - 55)
      else None)"

definition simple_escape :: "char \<Rightarrow> char option" where
  "simple_escape c =
     (if c = CHR 0x22 \<or> c = CHR 0x5C \<or> c = CHR ''/'' then Some c
      else if c = CHR ''n'' then Some (CHR 0x0A)
      else if c = CHR ''r'' then Some (CHR 0x0D)
      else if c = CHR ''t'' then Some (CHR 0x09)
      else if c = CHR ''f'' then Some (CHR 0x0C)
      else if c = CHR ''b'' then Some (CHR 0x08)
      else None)"

text \<open>
  The characters of a string literal up to its closing quote. A \<open>\u\<close> escape beyond
  U+00FF is outside the modelled character set and is refused.
\<close>

fun parse_str :: "string \<Rightarrow> (string \<times> string) option" where
  "parse_str [] = None"
| "parse_str (c # r) =
     (if c = CHR 0x22 then Some ([], r)
      else if c = CHR 0x5C then
        (case r of
           [] \<Rightarrow> None
         | e # r' \<Rightarrow>
             if e = CHR ''u'' then
               (case r' of
                  h1 # h2 # h3 # h4 # r'' \<Rightarrow>
                    (case (hex_val h1, hex_val h2, hex_val h3, hex_val h4) of
                       (Some a, Some b, Some x, Some y) \<Rightarrow>
                         if a = 0 \<and> b = 0
                         then map_option (apfst ((#) (char_of (16 * x + y)))) (parse_str r'')
                         else None
                     | _ \<Rightarrow> None)
                | _ \<Rightarrow> None)
             else (case simple_escape e of
                     None \<Rightarrow> None
                   | Some d \<Rightarrow> map_option (apfst ((#) d)) (parse_str r')))
      else if (of_char c :: nat) < 32 then None
      else map_option (apfst ((#) c)) (parse_str r))"

definition is_digit :: "char \<Rightarrow> bool" where
  "is_digit c \<longleftrightarrow> 48 \<le> (of_char c :: nat) \<and> (of_char c :: nat) \<le> 57"

definition digit_val :: "char \<Rightarrow> nat" where
  "digit_val c = of_char c - 48"

definition nat_val :: "string \<Rightarrow> nat" where
  "nat_val s = foldl (\<lambda>n c. 10 * n + digit_val c) 0 s"

definition is_nat_text :: "string \<Rightarrow> bool" where
  "is_nat_text t \<longleftrightarrow> t \<noteq> [] \<and> list_all is_digit t \<and> (hd t = CHR ''0'' \<longrightarrow> t = ''0'')"

fun is_int_text :: "string \<Rightarrow> bool" where
  "is_int_text [] \<longleftrightarrow> False"
| "is_int_text (c # t) \<longleftrightarrow> (if c = CHR ''-'' then is_nat_text t else is_nat_text (c # t))"

fun int_val :: "string \<Rightarrow> int" where
  "int_val [] = 0"
| "int_val (c # t) = (if c = CHR ''-'' then - int (nat_val t) else int (nat_val (c # t)))"

definition is_exp_text :: "string \<Rightarrow> bool" where
  "is_exp_text e \<longleftrightarrow>
     (case e of
        [] \<Rightarrow> True
      | c # r \<Rightarrow>
          (c = CHR ''e'' \<or> c = CHR ''E'') \<and>
          (let d = (case r of s # d \<Rightarrow> if s = CHR ''+'' \<or> s = CHR ''-'' then d else r | [] \<Rightarrow> r)
           in d \<noteq> [] \<and> list_all is_digit d))"

definition is_float_text :: "string \<Rightarrow> bool" where
  "is_float_text t \<longleftrightarrow>
     (let u = (case t of c # r \<Rightarrow> if c = CHR ''-'' then r else t | [] \<Rightarrow> t);
          m = takeWhile is_digit u; rest = dropWhile is_digit u
      in is_nat_text m \<and> rest \<noteq> [] \<and>
         (if hd rest = CHR ''.'' then
            takeWhile is_digit (tl rest) \<noteq> [] \<and> is_exp_text (dropWhile is_digit (tl rest))
          else is_exp_text rest))"

definition is_num_char :: "char \<Rightarrow> bool" where
  "is_num_char c \<longleftrightarrow> is_digit c \<or> c \<in> {CHR ''+'', CHR ''-'', CHR ''.'', CHR ''e'', CHR ''E''}"

definition parse_number :: "string \<Rightarrow> (pyval \<times> string) option" where
  "parse_number s =
     (let t = takeWhile is_num_char s; r = dropWhile is_num_char s in
      if is_int_text t then Some (VInt (int_val t), r)
      else if is_float_text t then Some (VFloat t, r)
      else None)"

definition literals :: "(string \<times> pyval) list" where
  "literals = [(''null'', VNone), (''true'', VBool True), (''false'', VBool False),
     (''NaN'', VFloat ''nan''), (''Infinity'', VFloat ''inf''), (''-Infinity'', VFloat ''-inf'')]"

fun parse_literal :: "(string \<times> pyval) list \<Rightarrow> string \<Rightarrow> (pyval \<times> string) option" where
  "parse_literal [] s = None"
| "parse_literal ((t, v) # ls) s =
     (if startswith s t then Some (v, drop (length t) s) else parse_literal ls s)"

definition parse_scalar :: "string \<Rightarrow> (pyval \<times> string) option" where
  "parse_scalar s =
     (case parse_literal literals s of None \<Rightarrow> parse_number s | Some x \<Rightarrow> Some x)"

fun parse_value :: "nat \<Rightarrow> string \<Rightarrow> (pyval \<times> string) option"
  and parse_elems :: "nat \<Rightarrow> string \<Rightarrow> (pyval list \<times> string) option"
  and parse_members :: "nat \<Rightarrow> pymap \<Rightarrow> string \<Rightarrow> (pymap \<times> string) option" where
  "parse_value 0 s = None"
| "parse_value (Suc f) s =
     (case s of
        [] \<Rightarrow> None
      | c # r \<Rightarrow>
          if c = CHR 0x22 then map_option (apfst VStr) (parse_str r)
          else if c = CHR ''['' then
            (case skip_ws r of
               [] \<Rightarrow> None
             | d # r' \<Rightarrow> if d = CHR '']'' then Some (VList [], r')
                        else map_option (apfst VList) (parse_elems f (d # r')))
          else if c = CHR 0x7B then
            (case skip_ws r of
               [] \<Rightarrow> None
             | d # r' \<Rightarrow> if d = CHR 0x7D then Some (VDict [], r')
                        else map_option (apfst VDict) (parse_members f [] (d # r')))
          else parse_scalar s)"
| "parse_elems 0 s = None"
| "parse_elems (Suc f) s =
     (case parse_value f s of
        None \<Rightarrow> None
      | Some (v, r) \<Rightarrow>
          (case skip_ws r of
             [] \<Rightarrow> None
           | c # r' \<Rightarrow>
               if c = CHR '']'' then Some ([v], r')
               else if c = CHR '','' then map_option (apfst ((#) v)) (parse_elems f (skip_ws r'))
               else None))"
| "parse_members 0 d s = None"
| "parse_members (Suc f) d s =
     (case s of
        [] \<Rightarrow> None
      | q # r \<Rightarrow>
          if q \<noteq> CHR 0x22 then None
          else (case parse_str r of
             None \<Rightarrow> None
           | Some (k, r1) \<Rightarrow>
               (case skip_ws r1 of
                  [] \<Rightarrow> None
                | c # r2 \<Rightarrow>
                    if c \<noteq> CHR '':'' then None
                    else (case parse_value f (skip_ws r2) of
                       None \<Rightarrow> None
                     | Some (v, r3) \<Rightarrow>
                         (case skip_ws r3 of
                            [] \<Rightarrow> None
                          | e # r4 \<Rightarrow>
                              if e = CHR 0x7D then Some (dict_set k v d, r4)
                              else if e = CHR '','' then
                                parse_members f (dict_set k v d) (skip_ws r4)
                              else None)))))"

text \<open>
  Every nested call consumes a character before it recurses twice at most, so twice the
  length of the text is enough fuel (lemma \<open>json_fuel_enough\<close>).
\<close>

definition json_loads :: "string \<Rightarrow> pyval res" where
  "json_loads s =
     (case parse_value (2 * length s + 2) (skip_ws s) of
        None \<Rightarrow> Inl PyValueError
      | Some (v, r) \<Rightarrow> if skip_ws r = [] then Inr v else Inl PyValueError)"

section \<open>Canonical form and well-formed documents\<close>

fun json_canon :: "pyval \<Rightarrow> pyval" where
  "json_canon (VList xs) = VList (map json_canon xs)"
| "json_canon (VTuple xs) = VList (map json_canon xs)"
| "json_canon (VDict kvs) = VDict (map (\<lambda>(k, v). (k, json_canon v)) (sort_key fst kvs))"
| "json_canon v = v"

text \<open>Keys of a dictionary are distinct, a float is a literal of Python's grammar.\<close>

fun json_wf :: "pyval \<Rightarrow> bool" where
  "json_wf (VFloat t) \<longleftrightarrow> nonfinite_text t \<noteq> None \<or> is_float_text t"
| "json_wf (VList xs) \<longleftrightarrow> (\<forall>x \<in> set xs. json_wf x)"
| "json_wf (VTuple xs) \<longleftrightarrow> (\<forall>x \<in> set xs. json_wf x)"
| "json_wf (VDict kvs) \<longleftrightarrow> distinct (map fst kvs) \<and> (\<forall>(k, v) \<in> set kvs. json_wf v)"
| "json_wf _ \<longleftrightarrow> True"

section \<open>Loading what was dumped\<close>

lemma hex_val_hex_digit: "d < 16 \<Longrightarrow> hex_val (hex_digit d) = Some d"
  by (auto simp: hex_val_def hex_digit_def Let_def)

lemma of_char_inj: "(of_char c :: nat) = of_char d \<Longrightarrow> c = d"
  by simp

lemma char_of_split: "char_of (16 * ((of_char c :: nat) div 16) + of_char c mod 16) = c"
  by simp

declare parse_str.simps [simp del]

lemma parse_str_steps:
  "parse_str (CHR 0x22 # r) = Some ([], r)"
  "e \<noteq> CHR ''u'' \<Longrightarrow> simple_escape e = Some d \<Longrightarrow>
     parse_str (CHR 0x5C # e # r) = map_option (apfst ((#) d)) (parse_str r)"
  "hex_val h = Some x \<Longrightarrow> hex_val l = Some y \<Longrightarrow>
     parse_str (CHR 0x5C # CHR ''u'' # CHR ''0'' # CHR ''0'' # h # l # r) =
     map_option (apfst ((#) (char_of (16 * x + y)))) (parse_str r)"
  "c \<noteq> CHR 0x22 \<Longrightarrow> c \<noteq> CHR 0x5C \<Longrightarrow> \<not> (of_char c :: nat) < 32 \<Longrightarrow>
     parse_str (c # r) = map_option (apfst ((#) c)) (parse_str r)"
  by (subst parse_str.simps, simp add: hex_val_def Let_def)+

lemma parse_str_escape:
  "parse_str (json_escape c @ t) = map_option (apfst ((#) c)) (parse_str t)"
proof -
  let ?n = "of_char c :: nat"
  consider (sp) "c \<in> {CHR 0x22, CHR 0x5C, CHR 0x0A, CHR 0x0D, CHR 0x09, CHR 0x0C, CHR 0x08}"
    | (ctl) "?n < 32" "?n \<notin> {8, 9, 10, 12, 13}"
    | (plain) "\<not> ?n < 32" "c \<noteq> CHR 0x22" "c \<noteq> CHR 0x5C"
  proof -
    have "?n = 8 \<longrightarrow> c = CHR 0x08" "?n = 9 \<longrightarrow> c = CHR 0x09" "?n = 10 \<longrightarrow> c = CHR 0x0A"
      "?n = 12 \<longrightarrow> c = CHR 0x0C" "?n = 13 \<longrightarrow> c = CHR 0x0D"
      using of_char_inj [of c "CHR 0x08"] of_char_inj [of c "CHR 0x09"]
        of_char_inj [of c "CHR 0x0A"] of_char_inj [of c "CHR 0x0C"] of_char_inj [of c "CHR 0x0D"]
      by simp_all
    then show ?thesis using that by blast
  qed
  then show ?thesis
  proof cases
    case sp
    then show ?thesis
      by (auto simp: json_escape_def Let_def parse_str_steps(2) simple_escape_def)
  next
    case ctl
    then have h: "hex_val (hex_digit (?n div 16)) = Some (?n div 16)"
      "hex_val (hex_digit (?n mod 16)) = Some (?n mod 16)"
      by (auto intro: hex_val_hex_digit)
    from ctl show ?thesis
      using char_of_split [of c] by (simp add: json_escape_def Let_def parse_str_steps(3) [OF h])
  next
    case plain
    then have "?n \<noteq> 34" "?n \<noteq> 92"
      using of_char_inj [of c "CHR 0x22"] of_char_inj [of c "CHR 0x5C"] by auto
    with plain show ?thesis
      by (simp add: json_escape_def Let_def parse_str_steps(4))
  qed
qed

lemma parse_str_json: "parse_str (concat (map json_escape s) @ CHR 0x22 # r) = Some (s, r)"
  by (induction s) (simp_all add: parse_str_escape parse_str_steps(1))

lemma is_digit_digit_char: "d < 10 \<Longrightarrow> is_digit (digit_char d) \<and> digit_val (digit_char d) = d"
  by (simp add: is_digit_def digit_char_def digit_val_def)

lemma nat_val_snoc: "nat_val (s @ [c]) = 10 * nat_val s + digit_val c"
  by (simp add: nat_val_def)

lemma nat_str_props:
  "list_all is_digit (nat_str n) \<and> nat_str n \<noteq> [] \<and> nat_val (nat_str n) = n \<and>
   (hd (nat_str n) = CHR ''0'' \<longrightarrow> n = 0)"
proof (induction n rule: nat_str.induct)
  case (1 n)
  show ?case
  proof (cases "n < 10")
    case True
    then have "digit_char n = CHR ''0'' \<longrightarrow> n = 0"
      by (auto simp: digit_char_def dest: arg_cong [where f = "of_char :: char \<Rightarrow> nat"])
    with True show ?thesis
      by (simp add: nat_str.simps [of n] is_digit_digit_char nat_val_def)
  next
    case False
    with "1.IH" show ?thesis
      by (auto simp: nat_str.simps [of n] is_digit_digit_char nat_val_snoc)
  qed
qed

lemma is_nat_text_nat_str: "is_nat_text (nat_str n)"
  using nat_str_props [of n] by (cases "n = 0") (auto simp: is_nat_text_def nat_str.simps [of 0] digit_char_def)

lemma digit_not_minus: "is_digit c \<Longrightarrow> c \<noteq> CHR ''-''"
  by (auto simp: is_digit_def)

lemma is_int_text_int_str: "is_int_text (int_str i) \<and> int_val (int_str i) = i"
proof (cases "i < 0")
  case True
  then show ?thesis
    using is_nat_text_nat_str [of "nat (- i)"] nat_str_props [of "nat (- i)"]
    by (simp add: int_str_def)
next
  case False
  obtain c t where ct: "nat_str (nat i) = c # t"
    using nat_str_props [of "nat i"] by (cases "nat_str (nat i)") auto
  with False show ?thesis
    using is_nat_text_nat_str [of "nat i"] nat_str_props [of "nat i"]
    by (auto simp: int_str_def dest: digit_not_minus)
qed

text \<open>The text after a value starts with a delimiter or is empty.\<close>

definition delim :: "string \<Rightarrow> bool" where
  "delim r \<longleftrightarrow> (case r of [] \<Rightarrow> True | c # _ \<Rightarrow> c \<in> {CHR '','', CHR '']'', CHR 0x7D})"

lemma delim_num: "delim r \<Longrightarrow> takeWhile is_num_char r = [] \<and> dropWhile is_num_char r = r"
  by (auto simp: delim_def is_num_char_def is_digit_def split: list.splits)

lemma num_text_split:
  assumes "list_all is_num_char t" and "delim r"
  shows "takeWhile is_num_char (t @ r) = t" and "dropWhile is_num_char (t @ r) = r"
  using assms delim_num [OF assms(2)]
  by (simp_all add: takeWhile_append2 dropWhile_append2 list_all_iff)

lemma digits_num: "list_all is_digit t \<Longrightarrow> list_all is_num_char t"
  by (auto simp: list_all_iff is_num_char_def)

lemma int_str_num: "list_all is_num_char (int_str i)"
  using nat_str_props by (auto simp: int_str_def is_num_char_def intro: digits_num)

lemma parse_number_int: "delim r \<Longrightarrow> parse_number (int_str i @ r) = Some (VInt i, r)"
  using is_int_text_int_str [of i]
  by (simp add: parse_number_def num_text_split int_str_num Let_def)

lemma exp_text_num: "is_exp_text e \<Longrightarrow> list_all is_num_char e"
  by (auto simp: is_exp_text_def is_num_char_def Let_def split: list.splits if_splits
           intro: digits_num)

lemma takeWhile_num: "list_all is_num_char (dropWhile is_digit u) \<Longrightarrow> list_all is_num_char u"
  by (induction u) (auto simp: is_num_char_def split: if_splits)

lemma float_text_num: "is_float_text t \<Longrightarrow> list_all is_num_char t"
proof -
  assume t: "is_float_text t"
  define u where "u = (case t of c # r \<Rightarrow> if c = CHR ''-'' then r else t | [] \<Rightarrow> t)"
  have "list_all is_num_char (dropWhile is_digit u)"
    using t by (auto simp: is_float_text_def Let_def u_def [symmetric] is_num_char_def
        hd_conv_nth neq_Nil_conv split: if_splits dest!: exp_text_num intro: takeWhile_num)
  then have "list_all is_num_char u" by (rule takeWhile_num)
  then show ?thesis by (auto simp: u_def is_num_char_def split: list.splits if_splits)
qed

lemma float_text_not_int: "is_float_text t \<Longrightarrow> \<not> is_int_text t"
proof -
  assume t: "is_float_text t"
  define u where "u = (case t of c # r \<Rightarrow> if c = CHR ''-'' then r else t | [] \<Rightarrow> t)"
  have "dropWhile is_digit u \<noteq> []" using t by (auto simp: is_float_text_def Let_def u_def)
  then have "\<not> list_all is_digit u" by (auto simp: list_all_iff dropWhile_eq_Nil_conv)
  then show ?thesis
    by (cases t) (auto simp: u_def is_nat_text_def split: if_splits)
qed

lemma parse_number_float: "delim r \<Longrightarrow> is_float_text t \<Longrightarrow> parse_number (t @ r) = Some (VFloat t, r)"
  by (simp add: parse_number_def num_text_split float_text_num float_text_not_int Let_def)


lemma digit_facts: "is_digit c \<Longrightarrow> \<not> json_ws c \<and> c \<notin> {CHR '']'', CHR 0x7D, CHR ''['', CHR 0x7B, CHR 0x22}"
  by (auto simp: is_digit_def json_ws_def)

text \<open>How the text of a number starts, which no other value's text does.\<close>

definition num_start :: "string \<Rightarrow> bool" where
  "num_start t \<longleftrightarrow> (\<exists>c u. t = c # u \<and> (is_digit c \<or> c = CHR ''-'' \<and> (\<exists>d w. u = d # w \<and> is_digit d)))"

lemma num_start_nat_text: "is_nat_text m \<Longrightarrow> num_start (m @ r)"
  by (cases m) (auto simp: is_nat_text_def num_start_def)

lemma num_start_minus: "is_nat_text m \<Longrightarrow> num_start (CHR ''-'' # m @ r)"
  by (cases m) (auto simp: is_nat_text_def num_start_def)

lemma num_start_int: "num_start (int_str i @ r)"
  using num_start_nat_text [OF is_nat_text_nat_str, of "nat i" r]
    num_start_minus [OF is_nat_text_nat_str, of "nat (- i)" r]
  by (simp add: int_str_def)

lemma num_start_float: "is_float_text t \<Longrightarrow> num_start (t @ r)"
proof -
  assume t: "is_float_text t"
  define u where "u = (case t of c # r \<Rightarrow> if c = CHR ''-'' then r else t | [] \<Rightarrow> t)"
  have m: "is_nat_text (takeWhile is_digit u)"
    using t by (simp add: is_float_text_def Let_def u_def)
  have u: "u = takeWhile is_digit u @ dropWhile is_digit u" by simp
  have tu: "t = u \<or> t = CHR ''-'' # u" by (auto simp: u_def split: list.splits if_splits)
  have "num_start (u @ r)"
    using num_start_nat_text [OF m, of "dropWhile is_digit u @ r"] u by (metis append_assoc)
  moreover have "num_start (CHR ''-'' # u @ r)"
    using num_start_minus [OF m, of "dropWhile is_digit u @ r"] u by (metis append_assoc)
  ultimately show ?thesis using tu by auto
qed

lemma parse_scalar_num: "num_start t \<Longrightarrow> parse_scalar t = parse_number t"
  by (auto simp: num_start_def parse_scalar_def literals_def startswith_def is_digit_def)

lemma parse_value_scalar:
  "num_start t \<Longrightarrow> parse_value (Suc f) t = parse_scalar t"
  by (auto simp: num_start_def dest: digit_facts)

lemma parse_literal_value:
  assumes "(t, v) \<in> set literals"
  shows "parse_value (Suc f) (t @ r) = Some (v, r)"
  using assms by (auto simp: literals_def parse_scalar_def startswith_def)

lemma nonfinite_cases:
  "nonfinite_text t = Some u \<Longrightarrow> (u, VFloat t) \<in> set literals"
  by (auto simp: nonfinite_text_def literals_def split: if_splits)

definition starts_value :: "string \<Rightarrow> bool" where
  "starts_value t \<longleftrightarrow> (\<exists>c u. t = c # u \<and> \<not> json_ws c \<and> c \<noteq> CHR '']'' \<and> c \<noteq> CHR 0x7D)"

lemma starts_num: "num_start t \<Longrightarrow> starts_value t"
  by (auto simp: num_start_def starts_value_def json_ws_def is_digit_def)

lemma dumps_starts: "json_dumps nan v = Inr t \<Longrightarrow> json_wf v \<Longrightarrow> starts_value t"
proof (cases v)
  case (VFloat x)
  assume "json_dumps nan v = Inr t" and "json_wf v"
  with VFloat show ?thesis
    using starts_num [OF num_start_float, of x "[]"]
    by (auto simp: float_dumps_def nonfinite_text_def starts_value_def json_ws_def
             split: option.splits if_splits)
next
  case (VInt i)
  assume "json_dumps nan v = Inr t"
  with VInt show ?thesis using starts_num [OF num_start_int, of i "[]"] by simp
qed (auto simp: starts_value_def json_ws_def json_string_def bindR_Inr_iff split: if_splits)

lemma starts_value_skip: "starts_value t \<Longrightarrow> skip_ws (t @ r) = t @ r"
  by (auto simp: starts_value_def)

lemma join_Cons: "join sep (x # xs) = (if xs = [] then x else x @ sep @ join sep xs)"
  by (cases xs) auto

definition parses :: "pyval \<Rightarrow> string \<Rightarrow> bool" where
  "parses v t \<longleftrightarrow> starts_value t \<and>
     (\<forall>f r. delim r \<longrightarrow> 2 * length t \<le> f \<longrightarrow> parse_value f (t @ r) = Some (json_canon v, r))"

lemma parses_elems:
  assumes "list_all2 parses xs ts" and "xs \<noteq> []" and "2 * length (join '','' ts) + 1 \<le> f"
  shows "parse_elems f (join '','' ts @ CHR '']'' # r) = Some (map json_canon xs, r)"
  using assms
proof (induction xs ts arbitrary: f rule: list_all2_induct)
  case Nil
  then show ?case by simp
next
  case (Cons x xs t ts)
  from Cons.prems obtain f' where f: "f = Suc f'" by (cases f) auto
  show ?case
  proof (cases "ts = []")
    case True
    with Cons.hyps have "xs = []" by simp
    moreover have "parse_value f' (t @ CHR '']'' # r) = Some (json_canon x, CHR '']'' # r)"
      using Cons.hyps(1) Cons.prems True f by (simp add: parses_def delim_def)
    ultimately show ?thesis using True f by (simp add: json_ws_def)
  next
    case False
    with Cons.hyps(2) have xs: "xs \<noteq> []" by auto
    have "parse_value f' (t @ CHR '','' # join '','' ts @ CHR '']'' # r)
        = Some (json_canon x, CHR '','' # join '','' ts @ CHR '']'' # r)"
      using Cons.hyps(1) Cons.prems False f by (simp add: parses_def delim_def join_Cons)
    moreover have "skip_ws (join '','' ts @ CHR '']'' # r) = join '','' ts @ CHR '']'' # r"
    proof -
      obtain t' ts' where "ts = t' # ts'" using False by (cases ts) auto
      moreover with Cons.hyps(2) have "starts_value t'" by (auto simp: list_all2_Cons2 parses_def)
      ultimately show ?thesis by (simp add: join_Cons starts_value_skip)
    qed
    moreover have "parse_elems f' (join '','' ts @ CHR '']'' # r) = Some (map json_canon xs, r)"
      using Cons.IH xs Cons.prems False f by (simp add: join_Cons)
    ultimately show ?thesis using False f by (simp add: join_Cons json_ws_def)
  qed
qed

lemma dict_set_new: "k \<notin> fst ` set d \<Longrightarrow> dict_set k v d = d @ [(k, v)]"
  unfolding dict_set_def by (induction d) auto

definition entry :: "string \<times> pyval \<Rightarrow> string \<Rightarrow> bool" where
  "entry kv t \<longleftrightarrow> (\<exists>u. t = json_string (fst kv) @ CHR '':'' # u \<and> parses (snd kv) u)"

lemma parses_members:
  assumes "list_all2 entry kvs ts" and "kvs \<noteq> []" and "2 * length (join '','' ts) + 1 \<le> f"
    and "distinct (map fst (d @ kvs))"
  shows "parse_members f d (join '','' ts @ CHR 0x7D # r) =
    Some (d @ map (\<lambda>(k, v). (k, json_canon v)) kvs, r)"
  using assms
proof (induction kvs ts arbitrary: f d rule: list_all2_induct)
  case Nil
  then show ?case by simp
next
  case (Cons kv kvs t ts)
  obtain k v where kv: "kv = (k, v)" by (cases kv)
  from Cons.prems obtain f' where f: "f = Suc f'" by (cases f) auto
  from Cons.hyps(1) kv obtain u where t: "t = json_string k @ CHR '':'' # u" and u: "parses v u"
    by (auto simp: entry_def)
  have len: "2 * length u + 1 \<le> f'"
    using Cons.prems f t by (auto simp: join_Cons json_string_def split: if_splits)
  have new: "dict_set k (json_canon v) d = d @ [(k, json_canon v)]"
    using Cons.prems kv by (intro dict_set_new) auto
  let ?tail = "if ts = [] then CHR 0x7D # r else CHR '','' # join '','' ts @ CHR 0x7D # r"
  have whole: "join '','' (t # ts) @ CHR 0x7D # r
      = CHR 0x22 # (concat (map json_escape k) @ CHR 0x22 # CHR '':'' # u @ ?tail)"
    by (simp add: join_Cons t json_string_def)
  have val: "parse_value f' (u @ ?tail) = Some (json_canon v, ?tail)"
    using u len by (auto simp: parses_def delim_def)
  have skip: "skip_ws (u @ ?tail) = u @ ?tail"
    using u by (intro starts_value_skip) (simp add: parses_def)
  have step: "parse_members f d (join '','' (t # ts) @ CHR 0x7D # r) =
      (if ts = [] then Some (d @ [(k, json_canon v)], r)
       else parse_members f' (d @ [(k, json_canon v)]) (skip_ws (join '','' ts @ CHR 0x7D # r)))"
    unfolding whole f by (simp add: parse_str_json json_ws_def [of "CHR '':''"] skip val new json_ws_def
        del: append_Cons append_assoc)
  show ?case
  proof (cases "ts = []")
    case True
    with Cons.hyps have "kvs = []" by simp
    with step True kv show ?thesis by simp
  next
    case False
    with Cons.hyps(2) have xs: "kvs \<noteq> []" by auto
    obtain t' ts' where "ts = t' # ts'" using False by (cases ts) auto
    moreover with Cons.hyps(2) have "starts_value t'"
      by (auto simp: list_all2_Cons2 entry_def json_string_def starts_value_def json_ws_def)
    ultimately have sk: "skip_ws (join '','' ts @ CHR 0x7D # r) = join '','' ts @ CHR 0x7D # r"
      by (simp add: join_Cons starts_value_skip)
    have "parse_members f' (d @ [(k, json_canon v)]) (join '','' ts @ CHR 0x7D # r)
        = Some ((d @ [(k, json_canon v)]) @ map (\<lambda>(k, v). (k, json_canon v)) kvs, r)"
      by (rule Cons.IH [OF xs]) (use Cons.prems False f kv in \<open>auto simp: join_Cons\<close>)
    with step False sk kv show ?thesis by simp
  qed
qed

lemma list_all2_dumps_parses:
  assumes "list_all2 (\<lambda>x t. json_dumps nan x = Inr t) xs ts"
    and "\<And>x t. x \<in> set xs \<Longrightarrow> json_dumps nan x = Inr t \<Longrightarrow> parses x t"
  shows "list_all2 parses xs ts"
  using assms by (induction xs ts rule: list_all2_induct) auto

lemma parses_list:
  assumes "list_all2 parses xs ts"
  shows "2 * length (''['' @ join '','' ts @ '']'') \<le> f \<Longrightarrow>
    parse_value f ((''['' @ join '','' ts @ '']'') @ r) = Some (VList (map json_canon xs), r)"
proof (cases xs)
  case Nil
  then show "2 * length (''['' @ join '','' ts @ '']'') \<le> f \<Longrightarrow> ?thesis"
    using assms by (cases f) (auto simp: json_ws_def)
next
  case (Cons x xs')
  assume len: "2 * length (''['' @ join '','' ts @ '']'') \<le> f"
  then obtain f' where f: "f = Suc f'" by (cases f) auto
  from Cons assms obtain t ts' where ts: "ts = t # ts'" and st: "starts_value t"
    by (auto simp: list_all2_Cons1 parses_def)
  then obtain c u where cu: "join '','' ts @ CHR '']'' # r = c # u" and c: "\<not> json_ws c" "c \<noteq> CHR '']''"
    by (cases ts') (auto simp: starts_value_def)
  have "parse_elems f' (join '','' ts @ CHR '']'' # r) = Some (map json_canon xs, r)"
    using assms Cons len f by (intro parses_elems) auto
  with cu c f show ?thesis by simp
qed

lemma parses_dict:
  assumes "list_all2 entry kvs ts" and "distinct (map fst kvs)"
  shows "2 * length (CHR 0x7B # join '','' ts @ [CHR 0x7D]) \<le> f \<Longrightarrow>
    parse_value f ((CHR 0x7B # join '','' ts @ [CHR 0x7D]) @ r) =
    Some (VDict (map (\<lambda>(k, v). (k, json_canon v)) kvs), r)"
proof (cases kvs)
  case Nil
  then show "2 * length (CHR 0x7B # join '','' ts @ [CHR 0x7D]) \<le> f \<Longrightarrow> ?thesis"
    using assms by (cases f) (auto simp: json_ws_def)
next
  case (Cons kv kvs')
  assume len: "2 * length (CHR 0x7B # join '','' ts @ [CHR 0x7D]) \<le> f"
  then obtain f' where f: "f = Suc f'" by (cases f) auto
  from Cons assms(1) obtain t ts' where ts: "ts = t # ts'" and st: "starts_value t"
    by (auto simp: list_all2_Cons1 entry_def json_string_def starts_value_def json_ws_def)
  then obtain c u where cu: "join '','' ts @ CHR 0x7D # r = c # u" and c: "\<not> json_ws c" "c \<noteq> CHR 0x7D"
    by (cases ts') (auto simp: starts_value_def)
  have "parse_members f' [] (join '','' ts @ CHR 0x7D # r)
      = Some ([] @ map (\<lambda>(k, v). (k, json_canon v)) kvs, r)"
    using assms Cons len f by (intro parses_members) auto
  with cu c f show ?thesis by simp
qed

lemma parses_scalar:
  assumes "starts_value t" and "\<And>f r. delim r \<Longrightarrow> parse_value (Suc f) (t @ r) = Some (json_canon v, r)"
  shows "parses v t"
  unfolding parses_def
proof (intro conjI allI impI)
  fix f r
  assume "delim r" and "2 * length t \<le> f"
  moreover from assms(1) have "length t > 0" by (auto simp: starts_value_def)
  ultimately obtain f' where "f = Suc f'" by (cases f) auto
  with assms(2) \<open>delim r\<close> show "parse_value f (t @ r) = Some (json_canon v, r)" by blast
qed (rule assms(1))

lemma distinct_sort_keys: "distinct (map fst kvs) \<Longrightarrow> distinct (map fst (sort_key fst kvs))"
  by (metis distinct_map distinct_sort set_sort)

lemma dumps_parses: "json_dumps nan v = Inr t \<Longrightarrow> json_wf v \<Longrightarrow> parses v t"
proof (induction v arbitrary: t rule: pyval_induct)
  case None
  show ?case
    by (rule parses_scalar [OF dumps_starts [OF None]])
       (use None parse_literal_value [of t VNone] in \<open>auto simp: literals_def\<close>)
next
  case (Bool b)
  show ?case
    by (rule parses_scalar [OF dumps_starts [OF Bool]])
       (use Bool parse_literal_value [of t "VBool b"] in \<open>auto simp: literals_def split: if_splits\<close>)
next
  case (Int i)
  show ?case
    by (rule parses_scalar [OF dumps_starts [OF Int]])
       (use Int in \<open>auto simp: parse_value_scalar parse_scalar_num num_start_int parse_number_int
          simp del: parse_value.simps\<close>)
next
  case (Float x)
  show ?case
  proof (rule parses_scalar [OF dumps_starts [OF Float]], cases "nonfinite_text x")
    fix f r
    assume "delim r"
    { case None
      with Float have x: "is_float_text x" and t: "t = x" by (auto simp: float_dumps_def)
      then show "parse_value (Suc f) (t @ r) = Some (json_canon (VFloat x), r)"
        using \<open>delim r\<close> by (simp add: parse_value_scalar parse_scalar_num num_start_float
            parse_number_float del: parse_value.simps) }
    { case (Some u)
      with Float have "t = u" by (auto simp: float_dumps_def split: if_splits)
      then show "parse_value (Suc f) (t @ r) = Some (json_canon (VFloat x), r)"
        using parse_literal_value [OF nonfinite_cases [OF Some]] by simp }
  qed
next
  case (Str s)
  show ?case
    by (rule parses_scalar [OF dumps_starts [OF Str]])
       (use Str in \<open>auto simp: json_string_def parse_str_json\<close>)
next
  case (List xs)
  from List.prems(1) obtain ts where ts: "list_all2 (\<lambda>x t. json_dumps nan x = Inr t) xs ts"
    and t: "t = ''['' @ join '','' ts @ '']''"
    by (auto simp: bindR_Inr_iff mapR_Inr_iff)
  have "list_all2 parses xs ts"
    by (rule list_all2_dumps_parses [OF ts]) (use List in auto)
  then show ?case
    using parses_list t dumps_starts [OF List.prems] by (simp add: parses_def)
next
  case (Tuple xs)
  from Tuple.prems(1) obtain ts where ts: "list_all2 (\<lambda>x t. json_dumps nan x = Inr t) xs ts"
    and t: "t = ''['' @ join '','' ts @ '']''"
    by (auto simp: bindR_Inr_iff mapR_Inr_iff)
  have "list_all2 parses xs ts"
    by (rule list_all2_dumps_parses [OF ts]) (use Tuple in auto)
  then show ?case
    using parses_list t dumps_starts [OF Tuple.prems] by (simp add: parses_def)
next
  case (Dict kvs)
  from Dict.prems(1) obtain ts where
    ts: "list_all2 (\<lambda>kv t. (case kv of (k, v) \<Rightarrow>
           bindR (json_dumps nan v) (\<lambda>t. Inr (json_string k @ '':'' @ t))) = Inr t) (sort_key fst kvs) ts"
    and t: "t = CHR 0x7B # join '','' ts @ [CHR 0x7D]"
    by (auto simp: bindR_Inr_iff mapR_Inr_iff)
  have "list_all2 entry (sort_key fst kvs) ts"
    by (rule list.rel_mono_strong [OF ts])
       (use Dict in \<open>fastforce simp: entry_def bindR_Inr_iff\<close>)
  moreover have "distinct (map fst (sort_key fst kvs))"
    using Dict.prems(2) by (simp add: distinct_sort_keys)
  ultimately show ?case
    using parses_dict t dumps_starts [OF Dict.prems] by (simp add: parses_def)
qed auto

lemma json_loads_dumps:
  assumes "json_dumps nan v = Inr t" and "json_wf v"
  shows "json_loads t = Inr (json_canon v)"
proof -
  have p: "parses v t" using assms by (rule dumps_parses)
  then have "skip_ws t = t" using starts_value_skip [of t "[]"] by (simp add: parses_def)
  moreover have "parse_value (2 * length t + 2) (t @ []) = Some (json_canon v, [])"
    using p by (auto simp: parses_def delim_def simp del: append_Nil2 parse_value.simps)
  ultimately show ?thesis by (simp add: json_loads_def)
qed

lemma json_dumps_total: "is_json_shape v \<Longrightarrow> \<exists>t. json_dumps True v = Inr t"
proof (induction v rule: pyval_induct)
  case (List xs)
  then have "\<exists>ts. mapR (json_dumps True) xs = Inr ts" by (intro mapR_total) auto
  then show ?case by auto
next
  case (Dict kvs)
  have "\<exists>ts. mapR (\<lambda>(k, v). bindR (json_dumps True v) (\<lambda>t. Inr (json_string k @ '':'' @ t)))
             (sort_key fst kvs) = Inr ts"
    by (intro mapR_total) (use Dict in \<open>fastforce simp: bindR_Inr_iff\<close>)
  then show ?case by auto
qed (auto simp: float_dumps_def split: option.splits)

lemma json_canon_lookup:
  "distinct (map fst kvs) \<Longrightarrow>
   map_of (map (\<lambda>(k, v). (k, json_canon v)) (sort_key fst kvs)) k = map_option json_canon (map_of kvs k)"
proof -
  assume d: "distinct (map fst kvs)"
  have "map_of (sort_key fst kvs) = map_of kvs"
    using d distinct_sort_keys [OF d] by (simp add: map_of_inject_set)
  then show ?thesis by (simp add: map_of_map_snd)
qed

section \<open>The fuel is enough\<close>

lemma skip_ws_length: "length (skip_ws s) \<le> length s"
  by (induction s) auto

lemma skip_ws_Cons: "skip_ws s = c # r \<Longrightarrow> length r < length s"
  using skip_ws_length [of s] by simp

lemma parse_str_length: "parse_str s = Some (k, r) \<Longrightarrow> length r < length s"
proof (induction s arbitrary: k r rule: length_induct)
  case (1 s)
  have IH: "length r' < length s" if "parse_str t = Some (k', r')" "length t < length s" for t k' r'
    using "1.IH" that by (meson less_trans)
  from "1.prems" show ?case
    by (cases s) (auto simp: parse_str.simps split: if_splits option.splits list.splits, (drule IH, simp, simp)+)
qed

lemma number_chars:
  "is_int_text t \<Longrightarrow> t \<noteq> []" "is_float_text t \<Longrightarrow> t \<noteq> []"
  by (auto simp: is_float_text_def is_nat_text_def)

lemma parse_scalar_length: "parse_scalar s = Some (v, r) \<Longrightarrow> length r < length s"
proof -
  have num: "length r < length s" if "parse_number s = Some (v, r)"
  proof -
    from that have "takeWhile is_num_char s \<noteq> []" and r: "r = dropWhile is_num_char s"
      using number_chars by (fastforce simp: parse_number_def Let_def split: if_splits)+
    then show ?thesis using arg_cong [OF takeWhile_dropWhile_id [of is_num_char s], of length] by (cases "takeWhile is_num_char s") auto
  qed
  have lit: "length r < length s" if "parse_literal ls s = Some (v, r)" "\<forall>(t, u) \<in> set ls. t \<noteq> []" for ls
  proof (cases s)
    case (Cons c q)
    with that show ?thesis by (induction ls) (auto simp: startswith_def split: if_splits)
  next
    case Nil
    with that show ?thesis by (induction ls) (auto simp: startswith_def split: if_splits)
  qed
  assume "parse_scalar s = Some (v, r)"
  then show ?thesis using num lit [of literals] by (auto simp: parse_scalar_def literals_def split: option.splits)
qed


lemma parse_length:
  "parse_value f s = Some (v, r) \<Longrightarrow> length r < length s"
  "parse_elems f s = Some (vs, r) \<Longrightarrow> length r < length s"
  "parse_members f d s = Some (m, r) \<Longrightarrow> length r < length s"
proof (induction f arbitrary: s v r vs d m)
  case (Suc f)
  have ws: "length (skip_ws t) < n" if "length t < n" for t n using skip_ws_length [of t] that by simp
  {
    case 1
    then show ?case
      by (cases s; auto split: if_splits list.splits dest!: parse_str_length parse_scalar_length Suc.IH(2,3) skip_ws_Cons)
  next
    case 2
    then obtain a q c t where v: "parse_value f s = Some (a, q)" "skip_ws q = c # t"
      and rest: "(if c = CHR '']'' then Some ([a], t)
        else if c = CHR '','' then map_option (apfst ((#) a)) (parse_elems f (skip_ws t)) else None) = Some (vs, r)"
      by (auto split: option.splits list.splits)
    have "length t < length s" using skip_ws_Cons [OF v(2)] Suc.IH(1) [OF v(1)] by simp
    with rest ws [of t "length s"] show ?case by (auto split: if_splits dest: Suc.IH(2))
  next
    case 3
    then obtain q0 k q1 c q2 a q3 e q4 where s: "s = CHR 0x22 # q0" and k: "parse_str q0 = Some (k, q1)"
      and c: "skip_ws q1 = c # q2" and v: "parse_value f (skip_ws q2) = Some (a, q3)" and e: "skip_ws q3 = e # q4"
      and rest: "(if e = CHR 0x7D then Some (dict_set k a d, q4)
        else if e = CHR '','' then parse_members f (dict_set k a d) (skip_ws q4) else None) = Some (m, r)"
      by (auto split: option.splits list.splits if_splits)
    have "length q4 < length s"
      using skip_ws_Cons [OF e] Suc.IH(1) [OF v] skip_ws_length [of q2] skip_ws_Cons [OF c] parse_str_length [OF k] s by simp
    with rest ws [of q4 "length s"] show ?case by (auto split: if_splits dest: Suc.IH(3))
  }
qed auto

text \<open>Fuel beyond the bound changes nothing.\<close>

lemma parse_fuel:
  "2 * length s + 1 \<le> f \<Longrightarrow> parse_value (Suc f) s = parse_value f s"
  "2 * length s + 2 \<le> f \<Longrightarrow> parse_elems (Suc f) s = parse_elems f s"
  "2 * length s + 1 \<le> f \<Longrightarrow> parse_members (Suc f) d s = parse_members f d s"
proof (induction f arbitrary: s d)
  case (Suc f)
  {
    case 1
    show ?case
    proof (cases s)
      case (Cons c q)
      have "parse_elems (Suc f) (e # t) = parse_elems f (e # t)" "parse_members (Suc f) [] (e # t) = parse_members f [] (e # t)"
        if "skip_ws q = e # t" for e t
        using that skip_ws_length [of q] 1 Cons by (intro Suc.IH(2,3); simp)+
      then show ?thesis unfolding Cons parse_value.simps(2)
        by (cases "skip_ws q") (simp_all del: parse_elems.simps parse_members.simps dropWhile_eq_Nil_conv)
    qed simp
  next
    case 2
    have v: "parse_value (Suc f) s = parse_value f s" using 2 by (intro Suc.IH(1)) simp
    have e: "parse_elems (Suc f) (skip_ws t) = parse_elems f (skip_ws t)"
      if "parse_value f s = Some (a, q)" "skip_ws q = c # t" for a q c t
      using parse_length(1) [OF that(1)] skip_ws_Cons [OF that(2)] skip_ws_length [of t] 2
      by (intro Suc.IH(2)) simp
    show ?case unfolding parse_elems.simps(2) [of "Suc f" s] parse_elems.simps(2) [of f s] v
      by (auto split: option.split list.split simp del: parse_elems.simps parse_value.simps dropWhile_eq_Nil_conv simp: e)
  next
    case 3
    show ?case
    proof (cases s)
      case (Cons q0 q)
      have v: "parse_value (Suc f) (skip_ws t) = parse_value f (skip_ws t)"
        if "parse_str q = Some (k, q1)" "skip_ws q1 = c # t" for k q1 c t
        using parse_str_length [OF that(1)] skip_ws_Cons [OF that(2)] skip_ws_length [of t] 3 Cons
        by (intro Suc.IH(1)) simp
      have m: "parse_members (Suc f) d' (skip_ws t') = parse_members f d' (skip_ws t')"
        if "parse_str q = Some (k, q1)" "skip_ws q1 = c # t" "parse_value f (skip_ws t) = Some (a, q3)" "skip_ws q3 = e # t'"
        for k q1 c t a q3 e t' d'
        using parse_str_length [OF that(1)] skip_ws_Cons [OF that(2)] skip_ws_length [of t] parse_length(1) [OF that(3)]
          skip_ws_Cons [OF that(4)] skip_ws_length [of t'] 3 Cons
        by (intro Suc.IH(3)) simp
      show ?thesis unfolding Cons parse_members.simps(2) [of "Suc f" d] parse_members.simps(2) [of f d]
        by (auto split: option.split list.split simp del: parse_members.simps parse_value.simps dropWhile_eq_Nil_conv simp: v m)
    qed simp
  }
qed auto

lemma json_fuel_enough:
  assumes "2 * length s + 2 \<le> f"
  shows "parse_value f (skip_ws s) = parse_value (2 * length s + 2) (skip_ws s)"
  using assms
proof (induction f rule: dec_induct)
  case (step f)
  then show ?case using parse_fuel(1) [of "skip_ws s" f] skip_ws_length [of s] by simp
qed simp

end
