(* ===== verification/Entities.thy ===== *)
theory Entities
  imports Lifecycle Json_Codec
begin

text \<open>
  The entities of \<^verbatim>\<open>backend/domain/models\<close> that an execution is made of:
  \<open>WorkflowRun\<close>, \<open>StepRun\<close>, \<open>AgentSession\<close>, \<open>ArtifactMetadata\<close> and
  \<open>Checkpoint\<close>, each with the checks of its constructor (\<open>__post_init__\<close>) and its
  methods. Every check of a method comes before its first assignment, so a method is a
  function to an exception or the new entity. The clock reading that \<open>at or utc_now()\<close>
  falls back to is the argument \<open>utc\<close>.
\<close>

section \<open>Field checks\<close>

definition require_non_empty :: "string \<Rightarrow> string \<Rightarrow> unit res" where
  "require_non_empty value field_name =
     guardR (value = [] \<or> py_strip value = [])
       (DomainValidationError (field_name @ '' must be a non-empty string''))"

definition require_aware :: "datetime \<Rightarrow> string \<Rightarrow> unit res" where
  "require_aware timestamp field_name =
     (case timestamp of
        Aware _ \<Rightarrow> Inr ()
      | Naive _ \<Rightarrow> Inl (DomainValidationError (field_name @ '' must be timezone-aware'')))"

text \<open>\<open>for value, name in (...): require_non_empty(value, name)\<close>\<close>

definition require_all_non_empty :: "(string \<times> string) list \<Rightarrow> unit res" where
  "require_all_non_empty fields = forR fields (\<lambda>(value, name). require_non_empty value name)"

definition nonblank :: "string \<Rightarrow> bool" where
  "nonblank s \<longleftrightarrow> py_strip s \<noteq> []"

lemma require_non_empty_ok [simp]: "require_non_empty v n = Inr u \<longleftrightarrow> nonblank v"
  by (auto simp: require_non_empty_def nonblank_def py_strip_Nil_iff)

lemma require_aware_ok [simp]: "require_aware t n = Inr u \<longleftrightarrow> (\<exists>i. t = Aware i)"
  by (cases t) (auto simp: require_aware_def)

lemma require_all_non_empty_ok [simp]:
  "require_all_non_empty fs = Inr u \<longleftrightarrow> (\<forall>f \<in> set fs. nonblank (fst f))"
  by (auto simp: require_all_non_empty_def forR_Inr_iff)

lemma nonblank_append [simp]: "nonblank (s @ t) \<longleftrightarrow> nonblank s \<or> nonblank t"
  by (auto simp: nonblank_def py_strip_Nil_iff)

lemma nonblank_Cons [simp]: "nonblank (c # t) \<longleftrightarrow> \<not> py_isspace c \<or> nonblank t"
  by (auto simp: nonblank_def py_strip_Nil_iff)

lemma nonblank_Nil [simp]: "\<not> nonblank []"
  by (simp add: nonblank_def py_strip_def)

section \<open>WorkflowRun\<close>

record WorkflowRun =
  wr_id :: string
  wr_project_id :: string
  wr_workflow_id :: string
  wr_workflow_version :: string
  wr_actor_user_id :: string
  wr_idempotency_key :: string
  wr_inputs :: pymap
  wr_status :: WorkflowRunStatus
  wr_outputs :: pymap
  wr_wait_reason :: "string option"
  wr_error_code :: "string option"
  wr_row_version :: int
  wr_created_at :: datetime
  wr_updated_at :: datetime

definition workflow_run_post_init :: "WorkflowRun \<Rightarrow> WorkflowRun res" where
  "workflow_run_post_init r =
     bindR (require_all_non_empty
       [(wr_id r, ''WorkflowRun.id''), (wr_project_id r, ''WorkflowRun.project_id''),
        (wr_workflow_id r, ''WorkflowRun.workflow_id''),
        (wr_workflow_version r, ''WorkflowRun.workflow_version''),
        (wr_actor_user_id r, ''WorkflowRun.actor_user_id''),
        (wr_idempotency_key r, ''WorkflowRun.idempotency_key'')])
     (\<lambda>_. bindR (require_aware (wr_created_at r) ''WorkflowRun.created_at'')
     (\<lambda>_. bindR (require_aware (wr_updated_at r) ''WorkflowRun.updated_at'')
     (\<lambda>_. Inr (r\<lparr>wr_inputs := freeze_map (wr_inputs r)\<rparr>))))"

text \<open>The remaining arguments of \<open>transition_to\<close>: clock, \<open>at\<close>, \<open>wait_reason\<close>, \<open>error_code\<close>.\<close>

record run_call =
  rc_utc :: datetime
  rc_at :: "datetime option"
  rc_wait_reason :: "string option"
  rc_error_code :: "string option"

definition at_or_now :: "datetime option \<Rightarrow> datetime \<Rightarrow> datetime" where
  "at_or_now at_arg utc = (case at_arg of Some t \<Rightarrow> t | None \<Rightarrow> utc)"

text \<open>The assignments of \<open>transition_to\<close>, once its checks have passed.\<close>

definition workflow_run_moved ::
  "WorkflowRunStatus \<Rightarrow> datetime \<Rightarrow> run_call \<Rightarrow> WorkflowRun \<Rightarrow> WorkflowRun" where
  "workflow_run_moved target timestamp c r =
     r\<lparr>wr_status := target,
       wr_updated_at := timestamp,
       wr_row_version := wr_row_version r + 1,
       wr_wait_reason :=
         (if target \<in> {Run_WAITING_FOR_APPROVAL, Run_WAITING_FOR_INPUT, Run_RETRY_SCHEDULED}
          then rc_wait_reason c else None),
       wr_error_code := (if target = Run_FAILED then rc_error_code c else None)\<rparr>"

definition workflow_run_transition_to ::
  "WorkflowRunStatus \<Rightarrow> run_call \<Rightarrow> WorkflowRun \<Rightarrow> WorkflowRun res" where
  "workflow_run_transition_to target c r =
     (if target \<notin> set (workflow_run_transitions (wr_status r)) then
        Inl (InvalidStateTransition ''WorkflowRun'' (wr_id r)
               (run_status_value (wr_status r)) (run_status_value target))
      else
        (let timestamp = at_or_now (rc_at c) (rc_utc c) in
         bindR (require_aware timestamp ''WorkflowRun transition timestamp'')
           (\<lambda>_. Inr (workflow_run_moved target timestamp c r))))"

definition workflow_run_set_outputs :: "pymap \<Rightarrow> WorkflowRun \<Rightarrow> WorkflowRun" where
  "workflow_run_set_outputs outputs r = r\<lparr>wr_outputs := outputs\<rparr>"

text \<open>
  What a run keeps between method calls: a reason for waiting only while it waits, an
  error code only when it failed, aware timestamps.
\<close>

definition workflow_run_ok :: "WorkflowRun \<Rightarrow> bool" where
  "workflow_run_ok r \<longleftrightarrow>
     nonblank (wr_id r) \<and> (\<exists>i. wr_updated_at r = Aware i) \<and>
     (wr_wait_reason r \<noteq> None \<longrightarrow>
        wr_status r \<in> {Run_WAITING_FOR_APPROVAL, Run_WAITING_FOR_INPUT, Run_RETRY_SCHEDULED}) \<and>
     (wr_error_code r \<noteq> None \<longrightarrow> wr_status r = Run_FAILED)"

lemma workflow_run_moved_sel [simp]:
  "wr_id (workflow_run_moved t ts c r) = wr_id r"
  "wr_project_id (workflow_run_moved t ts c r) = wr_project_id r"
  "wr_workflow_id (workflow_run_moved t ts c r) = wr_workflow_id r"
  "wr_workflow_version (workflow_run_moved t ts c r) = wr_workflow_version r"
  "wr_idempotency_key (workflow_run_moved t ts c r) = wr_idempotency_key r"
  "wr_inputs (workflow_run_moved t ts c r) = wr_inputs r"
  "wr_outputs (workflow_run_moved t ts c r) = wr_outputs r"
  "wr_status (workflow_run_moved t ts c r) = t"
  "wr_updated_at (workflow_run_moved t ts c r) = ts"
  "wr_row_version (workflow_run_moved t ts c r) = wr_row_version r + 1"
  "wr_wait_reason (workflow_run_moved t ts c r) =
     (if t \<in> {Run_WAITING_FOR_APPROVAL, Run_WAITING_FOR_INPUT, Run_RETRY_SCHEDULED}
      then rc_wait_reason c else None)"
  "wr_error_code (workflow_run_moved t ts c r) = (if t = Run_FAILED then rc_error_code c else None)"
  by (simp_all add: workflow_run_moved_def)

lemma workflow_run_transition_ok:
  "workflow_run_transition_to t c r = Inr r' \<longleftrightarrow>
     t \<in> set (workflow_run_transitions (wr_status r)) \<and>
     (\<exists>i. at_or_now (rc_at c) (rc_utc c) = Aware i \<and> r' = workflow_run_moved t (Aware i) c r)"
  by (auto simp: workflow_run_transition_to_def bindR_Inr_iff Let_def)

lemma workflow_run_transition_keeps:
  "workflow_run_ok r \<Longrightarrow> workflow_run_transition_to t c r = Inr r' \<Longrightarrow> workflow_run_ok r'"
  by (auto simp: workflow_run_transition_ok workflow_run_ok_def split: if_splits)

interpretation run_ent: versioned_entity
  workflow_run_transitions run_is_terminal wr_status wr_row_version workflow_run_transition_to
proof unfold_locales
  fix t c r r'
  assume "workflow_run_transition_to t c r = Inr r'"
  then show "t \<in> set (workflow_run_transitions (wr_status r)) \<and> wr_status r' = t \<and>
      wr_row_version r' = wr_row_version r + 1"
    by (auto simp: workflow_run_transition_ok)
qed (simp add: workflow_run_transition_to_def)

section \<open>StepRun\<close>

record StepRun =
  sr_id :: string
  sr_workflow_run_id :: string
  sr_step_id :: string
  sr_attempt :: int
  sr_idempotency_key :: string
  sr_inputs :: pymap
  sr_status :: StepRunStatus
  sr_outputs :: pymap
  sr_error_code :: "string option"
  sr_row_version :: int
  sr_created_at :: datetime
  sr_updated_at :: datetime
  sr_started_at :: "datetime option"
  sr_finished_at :: "datetime option"

definition step_run_post_init :: "StepRun \<Rightarrow> StepRun res" where
  "step_run_post_init s =
     bindR (require_all_non_empty
       [(sr_id s, ''StepRun.id''), (sr_workflow_run_id s, ''StepRun.workflow_run_id''),
        (sr_step_id s, ''StepRun.step_id''), (sr_idempotency_key s, ''StepRun.idempotency_key'')])
     (\<lambda>_. bindR (guardR (sr_attempt s \<le> 0) (DomainValidationError ''StepRun.attempt must be positive''))
     (\<lambda>_. bindR (require_aware (sr_created_at s) ''StepRun.created_at'')
     (\<lambda>_. bindR (require_aware (sr_updated_at s) ''StepRun.updated_at'')
     (\<lambda>_. Inr (s\<lparr>sr_inputs := freeze_map (sr_inputs s)\<rparr>)))))"

record step_call =
  sc_utc :: datetime
  sc_at :: "datetime option"
  sc_inputs :: "pymap option"
  sc_outputs :: "pymap option"
  sc_error_code :: "string option"

definition step_run_moved ::
  "StepRunStatus \<Rightarrow> datetime \<Rightarrow> step_call \<Rightarrow> StepRun \<Rightarrow> StepRun" where
  "step_run_moved target timestamp c s =
     s\<lparr>sr_status := target,
       sr_updated_at := timestamp,
       sr_row_version := sr_row_version s + 1,
       sr_started_at :=
         (if target = Step_RUNNING \<and> sr_started_at s = None
          then Some timestamp else sr_started_at s),
       sr_finished_at :=
         (if step_is_terminal target then Some timestamp else sr_finished_at s),
       sr_inputs := (case sc_inputs c of None \<Rightarrow> sr_inputs s | Some m \<Rightarrow> freeze_map m),
       sr_outputs := (case sc_outputs c of None \<Rightarrow> sr_outputs s | Some m \<Rightarrow> m),
       sr_error_code := (if target = Step_FAILED then sc_error_code c else None)\<rparr>"

definition step_run_transition_to :: "StepRunStatus \<Rightarrow> step_call \<Rightarrow> StepRun \<Rightarrow> StepRun res" where
  "step_run_transition_to target c s =
     (if target \<notin> set (step_run_transitions (sr_status s)) then
        Inl (InvalidStateTransition ''StepRun'' (sr_id s)
               (step_status_value (sr_status s)) (step_status_value target))
      else if sc_inputs c \<noteq> None \<and> target \<noteq> Step_READY then
        Inl (DomainValidationError ''StepRun inputs can be assigned only when entering READY'')
      else
        (let timestamp = at_or_now (sc_at c) (sc_utc c) in
         bindR (require_aware timestamp ''StepRun transition timestamp'')
           (\<lambda>_. Inr (step_run_moved target timestamp c s))))"

definition step_run_ok :: "StepRun \<Rightarrow> bool" where
  "step_run_ok s \<longleftrightarrow>
     0 < sr_attempt s \<and>
     (sr_error_code s \<noteq> None \<longrightarrow> sr_status s = Step_FAILED) \<and>
     (sr_finished_at s \<noteq> None \<longleftrightarrow> step_is_terminal (sr_status s)) \<and>
     (sr_status s \<in> {Step_CREATED, Step_READY} \<longrightarrow> sr_started_at s = None) \<and>
     (sr_status s \<in> {Step_RUNNING, Step_WAITING_APPROVAL, Step_COMPLETED, Step_FAILED} \<longrightarrow>
        sr_started_at s \<noteq> None)"

lemma step_run_moved_sel [simp]:
  "sr_id (step_run_moved t ts c s) = sr_id s"
  "sr_workflow_run_id (step_run_moved t ts c s) = sr_workflow_run_id s"
  "sr_step_id (step_run_moved t ts c s) = sr_step_id s"
  "sr_attempt (step_run_moved t ts c s) = sr_attempt s"
  "sr_status (step_run_moved t ts c s) = t"
  "sr_row_version (step_run_moved t ts c s) = sr_row_version s + 1"
  "sr_started_at (step_run_moved t ts c s) =
     (if t = Step_RUNNING \<and> sr_started_at s = None then Some ts else sr_started_at s)"
  "sr_finished_at (step_run_moved t ts c s) =
     (if step_is_terminal t then Some ts else sr_finished_at s)"
  "sr_inputs (step_run_moved t ts c s) =
     (case sc_inputs c of None \<Rightarrow> sr_inputs s | Some m \<Rightarrow> freeze_map m)"
  "sr_outputs (step_run_moved t ts c s) =
     (case sc_outputs c of None \<Rightarrow> sr_outputs s | Some m \<Rightarrow> m)"
  "sr_error_code (step_run_moved t ts c s) = (if t = Step_FAILED then sc_error_code c else None)"
  by (simp_all add: step_run_moved_def)

lemma step_run_transition_ok:
  "step_run_transition_to t c s = Inr s' \<longleftrightarrow>
     t \<in> set (step_run_transitions (sr_status s)) \<and> (sc_inputs c = None \<or> t = Step_READY) \<and>
     (\<exists>i. at_or_now (sc_at c) (sc_utc c) = Aware i \<and> s' = step_run_moved t (Aware i) c s)"
  unfolding step_run_transition_to_def Let_def
  by (auto simp: bindR_Inr_iff simp del: step_is_terminal.simps)

lemma step_run_transition_keeps:
  assumes "step_run_ok s" and "step_run_transition_to t c s = Inr s'"
  shows "step_run_ok s'"
  using assms
  by (cases "sr_status s"; cases t) (auto simp: step_run_transition_ok step_run_ok_def)

interpretation step_ent: versioned_entity
  step_run_transitions step_is_terminal sr_status sr_row_version step_run_transition_to
proof unfold_locales
  fix t c s s'
  assume "step_run_transition_to t c s = Inr s'"
  then show "t \<in> set (step_run_transitions (sr_status s)) \<and> sr_status s' = t \<and>
      sr_row_version s' = sr_row_version s + 1"
    by (auto simp: step_run_transition_ok)
qed (simp add: step_run_transition_to_def)

section \<open>AgentSession\<close>

record AgentSession =
  as_id :: string
  as_project_id :: string
  as_workflow_run_id :: string
  as_agent_profile_ref :: string
  as_role :: string
  as_status :: AgentSessionStatus
  as_state :: pymap
  as_row_version :: int
  as_created_at :: datetime
  as_updated_at :: datetime

definition agent_session_post_init :: "AgentSession \<Rightarrow> AgentSession res" where
  "agent_session_post_init a =
     bindR (require_all_non_empty
       [(as_id a, ''AgentSession.id''), (as_project_id a, ''AgentSession.project_id''),
        (as_workflow_run_id a, ''AgentSession.workflow_run_id''),
        (as_agent_profile_ref a, ''AgentSession.agent_profile_ref''),
        (as_role a, ''AgentSession.role'')])
     (\<lambda>_. bindR (require_aware (as_created_at a) ''AgentSession.created_at'')
     (\<lambda>_. bindR (require_aware (as_updated_at a) ''AgentSession.updated_at'')
     (\<lambda>_. Inr (a\<lparr>as_state := freeze_map (as_state a)\<rparr>))))"

record agent_call =
  ac_utc :: datetime
  ac_at :: "datetime option"

definition agent_session_moved ::
  "AgentSessionStatus \<Rightarrow> datetime \<Rightarrow> AgentSession \<Rightarrow> AgentSession" where
  "agent_session_moved target timestamp a =
     a\<lparr>as_status := target,
       as_updated_at := timestamp,
       as_row_version := as_row_version a + 1\<rparr>"

definition agent_session_transition_to ::
  "AgentSessionStatus \<Rightarrow> agent_call \<Rightarrow> AgentSession \<Rightarrow> AgentSession res" where
  "agent_session_transition_to target c a =
     (if target \<notin> set (agent_session_transitions (as_status a)) then
        Inl (InvalidStateTransition ''AgentSession'' (as_id a)
               (agent_status_value (as_status a)) (agent_status_value target))
      else
        (let timestamp = at_or_now (ac_at c) (ac_utc c) in
         bindR (require_aware timestamp ''AgentSession transition timestamp'')
           (\<lambda>_. Inr (agent_session_moved target timestamp a))))"

lemma agent_session_moved_sel [simp]:
  "as_id (agent_session_moved t ts a) = as_id a"
  "as_project_id (agent_session_moved t ts a) = as_project_id a"
  "as_workflow_run_id (agent_session_moved t ts a) = as_workflow_run_id a"
  "as_status (agent_session_moved t ts a) = t"
  "as_row_version (agent_session_moved t ts a) = as_row_version a + 1"
  by (simp_all add: agent_session_moved_def)

lemma agent_session_transition_ok:
  "agent_session_transition_to t c a = Inr a' \<longleftrightarrow>
     t \<in> set (agent_session_transitions (as_status a)) \<and>
     (\<exists>i. at_or_now (ac_at c) (ac_utc c) = Aware i \<and> a' = agent_session_moved t (Aware i) a)"
  by (auto simp: agent_session_transition_to_def bindR_Inr_iff Let_def)

interpretation agent_ent: versioned_entity
  agent_session_transitions agent_is_terminal as_status as_row_version agent_session_transition_to
proof unfold_locales
  fix t c a a'
  assume "agent_session_transition_to t c a = Inr a'"
  then show "t \<in> set (agent_session_transitions (as_status a)) \<and> as_status a' = t \<and>
      as_row_version a' = as_row_version a + 1"
    by (auto simp: agent_session_transition_ok)
qed (simp add: agent_session_transition_to_def)

section \<open>ArtifactMetadata\<close>

record ArtifactMetadata =
  am_id :: string
  am_project_id :: string
  am_logical_artifact_id :: string
  am_logical_name :: string
  am_version :: int
  am_kind :: string
  am_storage_ref :: string
  am_checksum :: string
  am_media_type :: string
  am_size :: int
  am_producer_run_id :: "string option"
  am_producer_step_run_id :: "string option"
  am_metadata :: pymap
  am_created_at :: datetime

definition artifact_metadata_post_init :: "ArtifactMetadata \<Rightarrow> ArtifactMetadata res" where
  "artifact_metadata_post_init m =
     bindR (require_all_non_empty
       [(am_id m, ''ArtifactMetadata.id''), (am_project_id m, ''ArtifactMetadata.project_id''),
        (am_logical_artifact_id m, ''ArtifactMetadata.logical_artifact_id''),
        (am_logical_name m, ''ArtifactMetadata.logical_name''),
        (am_kind m, ''ArtifactMetadata.kind''), (am_storage_ref m, ''ArtifactMetadata.storage_ref''),
        (am_checksum m, ''ArtifactMetadata.checksum''),
        (am_media_type m, ''ArtifactMetadata.media_type'')])
     (\<lambda>_. bindR (guardR (am_version m \<le> 0)
        (DomainValidationError ''ArtifactMetadata.version must be positive''))
     (\<lambda>_. bindR (guardR (am_size m < 0)
        (DomainValidationError ''ArtifactMetadata.size cannot be negative''))
     (\<lambda>_. bindR (require_aware (am_created_at m) ''ArtifactMetadata.created_at'')
     (\<lambda>_. Inr (m\<lparr>am_metadata := freeze_map (am_metadata m)\<rparr>)))))"

section \<open>Checkpoint\<close>

record Checkpoint =
  cp_id :: string
  cp_workflow_run_id :: string
  cp_agent_session_id :: string
  cp_sequence :: int
  cp_state_json :: string
  cp_state_hash :: string
  cp_created_at :: datetime
  cp_parent_id :: "string option"

definition checkpoint_post_init :: "Checkpoint \<Rightarrow> Checkpoint res" where
  "checkpoint_post_init p =
     bindR (require_all_non_empty
       [(cp_id p, ''Checkpoint.id''), (cp_workflow_run_id p, ''Checkpoint.workflow_run_id''),
        (cp_agent_session_id p, ''Checkpoint.agent_session_id''),
        (cp_state_json p, ''Checkpoint.state_json''), (cp_state_hash p, ''Checkpoint.state_hash'')])
     (\<lambda>_. bindR (guardR (cp_sequence p \<le> 0)
        (DomainValidationError ''Checkpoint.sequence must be positive''))
     (\<lambda>_. bindR (require_aware (cp_created_at p) ''Checkpoint.created_at'')
     (\<lambda>_. Inr p)))"

text \<open>
  \<open>sha256\<close> stands for \<open>hashlib.sha256(text.encode("utf-8")).hexdigest()\<close>; nothing is
  assumed of it here.
\<close>

definition checkpoint_create ::
  "(string \<Rightarrow> string) \<Rightarrow> string \<Rightarrow> string \<Rightarrow> string \<Rightarrow> int \<Rightarrow> pyval \<Rightarrow> datetime \<Rightarrow> string option \<Rightarrow>
   Checkpoint res" where
  "checkpoint_create sha256 checkpoint_id workflow_run_id agent_session_id sequence state
     created_at parent_id =
     bindR (json_dumps True state)
       (\<lambda>state_json. checkpoint_post_init
          \<lparr>cp_id = checkpoint_id, cp_workflow_run_id = workflow_run_id,
           cp_agent_session_id = agent_session_id, cp_sequence = sequence,
           cp_state_json = state_json, cp_state_hash = sha256 state_json,
           cp_created_at = created_at, cp_parent_id = parent_id\<rparr>)"

definition verify_integrity :: "(string \<Rightarrow> string) \<Rightarrow> Checkpoint \<Rightarrow> unit res" where
  "verify_integrity sha256 p =
     guardR (sha256 (cp_state_json p) \<noteq> cp_state_hash p)
       (CheckpointIntegrityError (''Checkpoint '' @ cp_id p @ '' failed integrity verification''))"

definition restore_state :: "(string \<Rightarrow> string) \<Rightarrow> Checkpoint \<Rightarrow> pymap res" where
  "restore_state sha256 p =
     bindR (verify_integrity sha256 p)
       (\<lambda>_. bindR (json_loads (cp_state_json p))
         (\<lambda>state. case state of
              VDict kvs \<Rightarrow> Inr kvs
            | _ \<Rightarrow> Inl (CheckpointIntegrityError
                     (''Checkpoint '' @ cp_id p @ '' does not contain an object state''))))"

lemma checkpoint_create_ok:
  assumes "checkpoint_create h i w a n state t p = Inr c"
  shows "cp_id c = i" "cp_workflow_run_id c = w" "cp_agent_session_id c = a" "cp_sequence c = n"
    "cp_parent_id c = p" "json_dumps True state = Inr (cp_state_json c)"
    "cp_state_hash c = h (cp_state_json c)" "0 < n"
  using assms by (auto simp: checkpoint_create_def checkpoint_post_init_def bindR_Inr_iff)

lemma restore_created:
  assumes "checkpoint_create h i w a n (VDict state) t p = Inr c" and "json_wf (VDict state)"
  shows "restore_state h c = Inr (map (\<lambda>(k, v). (k, json_canon v)) (sort_key fst state))"
  using json_loads_dumps [OF checkpoint_create_ok(6) [OF assms(1)] assms(2)]
    checkpoint_create_ok(7) [OF assms(1)]
  by (simp add: restore_state_def verify_integrity_def guardR_def)

end
