(* ===== verification/Graph.thy ===== *)
theory Graph
  imports Prelude
begin

text \<open>
  Dependency graphs of workflows: the queue-based acyclicity check and the worklist that
  collects the ancestors of a step, with their correctness. A graph lists the steps in
  definition order, each with the steps it needs. The domain workflow
  (\<^verbatim>\<open>backend/domain/models/workflow.py\<close>) and the Engine's validator
  (\<^verbatim>\<open>backend/workflow_engine/services/validator.py\<close>) each run the check on their own
  steps; \<open>dag_checker\<close> is what both promise.
\<close>

type_synonym graph = "(string \<times> string list) list"

section \<open>Kahn's algorithm\<close>

text \<open>
  \<open>for step in steps: for dependency in step.needs: dependents[dependency].append(step.id)\<close>
\<close>

definition dependents :: "graph \<Rightarrow> string \<Rightarrow> string list" where
  "dependents g =
     fold (\<lambda>(s, ns) m. fold (\<lambda>d m. m(d := m d @ [s])) ns m) g (\<lambda>_. [])"

text \<open>The body of the loop: every dependent loses one inbound edge and is queued at zero.\<close>

fun relax :: "string list \<Rightarrow> (string \<Rightarrow> int) \<Rightarrow> string list \<Rightarrow> (string \<Rightarrow> int) \<times> string list" where
  "relax [] inbound ready = (inbound, ready)"
| "relax (d # ds) inbound ready =
     (let inbound' = inbound(d := inbound d - 1)
      in relax ds inbound' (if inbound' d = 0 then ready @ [d] else ready))"

definition open_nodes :: "graph \<Rightarrow> (string \<Rightarrow> int) \<Rightarrow> string set" where
  "open_nodes g inbound = {s \<in> fst ` set g. 0 < inbound s}"

lemma finite_open_nodes [simp]: "finite (open_nodes g inbound)"
  by (rule finite_subset [of _ "fst ` set g"]) (auto simp: open_nodes_def)

lemma fold_needs: "fold (\<lambda>d m. m(d := m d @ [s])) ns m d = m d @ map (\<lambda>_. s) (filter ((=) d) ns)"
  by (induction ns arbitrary: m) auto

lemma dependents_gen:
  "fold (\<lambda>(s, ns) m. fold (\<lambda>d m. m(d := m d @ [s])) ns m) g m d =
   m d @ concat (map (\<lambda>(s, ns). map (\<lambda>_. s) (filter ((=) d) ns)) g)"
  by (induction g arbitrary: m) (auto simp: fold_needs)

lemma dependents_eq:
  "dependents g d = concat (map (\<lambda>(s, ns). map (\<lambda>_. s) (filter ((=) d) ns)) g)"
  by (simp add: dependents_def dependents_gen)

lemma dependents_nodes: "set (dependents g d) \<subseteq> fst ` set g"
  by (force simp: dependents_eq)

lemma relax_measure:
  assumes "relax ds inbound ready = (inbound', ready')" and "set ds \<subseteq> fst ` set g"
  shows "length ready' + card (open_nodes g inbound') \<le> length ready + card (open_nodes g inbound)"
  using assms
proof (induction ds arbitrary: inbound ready)
  case Nil
  then show ?case by simp
next
  case (Cons d ds)
  let ?i = "inbound(d := inbound d - 1)"
  let ?r = "if ?i d = 0 then ready @ [d] else ready"
  have r: "relax ds ?i ?r = (inbound', ready')" using Cons.prems(1) by (simp add: Let_def)
  have "length ready' + card (open_nodes g inbound') \<le> length ?r + card (open_nodes g ?i)"
    by (rule Cons.IH [OF r]) (use Cons.prems in simp)
  also have "\<dots> \<le> length ready + card (open_nodes g inbound)"
  proof (cases "inbound d = 1")
    case True
    with Cons.prems have "d \<in> open_nodes g inbound"
      and "open_nodes g ?i = open_nodes g inbound - {d}"
      by (auto simp: open_nodes_def)
    then have "Suc (card (open_nodes g ?i)) = card (open_nodes g inbound)"
      by (simp add: card_Suc_Diff1 del: card_Diff_insert)
    with True show ?thesis by simp
  next
    case False
    have "open_nodes g ?i \<subseteq> open_nodes g inbound" by (auto simp: open_nodes_def)
    then have "card (open_nodes g ?i) \<le> card (open_nodes g inbound)" by (simp add: card_mono)
    with False show ?thesis by simp
  qed
  finally show ?case .
qed

text \<open>The loop itself, \<open>while ready: ...\<close>, with the number of visited steps.\<close>

function kahn_loop :: "graph \<Rightarrow> (string \<Rightarrow> int) \<Rightarrow> string list \<Rightarrow> nat \<Rightarrow> nat" where
  "kahn_loop g inbound [] visited = visited"
| "kahn_loop g inbound (x # ready) visited =
     (let (inbound', ready') = relax (dependents g x) inbound ready
      in kahn_loop g inbound' ready' (Suc visited))"
  by pat_completeness auto
termination
proof (relation "measure (\<lambda>(g, inbound, ready, visited). length ready + card (open_nodes g inbound))")
  fix g inbound x ready visited p inbound' ready'
  assume "p = relax (dependents g x) inbound ready" and "(inbound', ready') = p"
  then show "((g, inbound', ready', Suc visited), g, inbound, x # ready, visited)
      \<in> measure (\<lambda>(g, inbound, ready, visited). length ready + card (open_nodes g inbound))"
    using relax_measure [of "dependents g x" inbound ready inbound' ready' g]
      dependents_nodes [of g x]
    by auto
qed simp

definition inbound_count :: "graph \<Rightarrow> string \<Rightarrow> int" where
  "inbound_count g s = (case map_of (rev g) s of None \<Rightarrow> 0 | Some ns \<Rightarrow> int (length ns))"

definition edges :: "graph \<Rightarrow> (string \<times> string) set" where
  "edges g = {(d, s). \<exists>ns. (s, ns) \<in> set g \<and> d \<in> set ns}"

definition graph_wf :: "graph \<Rightarrow> bool" where
  "graph_wf g \<longleftrightarrow> distinct (map fst g) \<and> (\<forall>(s, ns) \<in> set g. set ns \<subseteq> fst ` set g)"

subsection \<open>Correctness\<close>

lemma map_of_rev: "distinct (map fst g) \<Longrightarrow> map_of (rev g) = map_of g"
  by (rule map_of_inject_set [THEN iffD2]) (auto simp: rev_map [symmetric])

lemma relax_inbound:
  assumes "relax ds inbound ready = (inbound', ready')"
  shows "inbound' s = inbound s - int (count_list ds s)"
  using assms
  by (induction ds inbound ready rule: relax.induct) (auto simp: Let_def)

lemma relax_ready:
  assumes "relax ds inbound ready = (inbound', ready')"
    and "\<And>s. s \<in> set ds \<Longrightarrow> int (count_list ds s) \<le> inbound s" and "distinct ready"
    and "set ready \<inter> set ds = {}"
  shows "distinct ready' \<and> set ready' = set ready \<union> {s \<in> set ds. inbound' s = 0}"
  using assms
proof (induction ds arbitrary: inbound ready)
  case Nil
  then show ?case by simp
next
  case (Cons d ds)
  let ?i = "inbound(d := inbound d - 1)"
  let ?r = "if ?i d = 0 then ready @ [d] else ready"
  have le: "int (count_list ds s) \<le> ?i s" if "s \<in> set ds" for s
    using Cons.prems(2) [of s] that by (auto split: if_splits)
  have dz: "d \<notin> set ds" if "?i d = 0"
    using le [of d] that by (auto simp: count_list_0_iff)
  have r: "relax ds ?i ?r = (inbound', ready')" using Cons.prems(1) by (simp add: Let_def)
  have pre: "distinct ?r" "set ?r \<inter> set ds = {}"
    using dz Cons.prems(3,4) by (simp_all add: Int_commute)
  have IH: "distinct ready'" "set ready' = set ?r \<union> {s \<in> set ds. inbound' s = 0}"
    using Cons.IH [OF r le pre] by blast+
  have d: "inbound' d = ?i d - int (count_list ds d)" using relax_inbound [OF r] by simp
  show ?case
  proof (cases "?i d = 0")
    case True
    with dz d have "inbound' d = 0" by (simp add: count_notin)
    with True IH show ?thesis by auto
  next
    case False
    have "inbound' d \<noteq> 0 \<or> d \<in> set ds" using False d by (metis count_notin diff_zero of_nat_0)
    with False IH show ?thesis by auto
  qed
qed

lemma count_dependents:
  assumes "distinct (map fst g)"
  shows "count_list (dependents g d) s =
    (case map_of g s of None \<Rightarrow> 0 | Some ns \<Rightarrow> count_list ns d)"
  using assms
proof (induction g)
  case Nil
  then show ?case by (simp add: dependents_eq)
next
  case (Cons p g)
  obtain t ns where p: "p = (t, ns)" by (cases p)
  have len: "length (filter ((=) d) ns) = count_list ns d" for ns :: "string list"
    by (induction ns) auto
  have const: "count_list (map (\<lambda>_. t) xs) s = (if s = t then length xs else 0)" for xs :: "string list"
    by (induction xs) auto
  have none: "map_of g t = None" using Cons.prems p by (simp add: map_of_eq_None_iff)
  have "count_list (dependents (p # g) d) s =
      count_list (map (\<lambda>_. t) (filter ((=) d) ns)) s + count_list (dependents g d) s"
    by (simp add: dependents_eq p)
  with Cons none p len const show ?case by auto
qed

text \<open>
  The loop invariant: \<open>P\<close> are the visited steps in the order of their visit, each after
  all its dependencies; the inbound counts are the dependencies not yet visited; the queue
  holds the unvisited steps without any.
\<close>

definition kahn_inv :: "graph \<Rightarrow> string list \<Rightarrow> (string \<Rightarrow> int) \<Rightarrow> string list \<Rightarrow> bool" where
  "kahn_inv g P inbound ready \<longleftrightarrow>
     distinct (P @ ready) \<and>
     (\<forall>(s, ns) \<in> set g. inbound s = int (length (filter (\<lambda>d. d \<notin> set P) ns))) \<and>
     set P \<union> set ready = {s \<in> fst ` set g. inbound s = 0} \<and>
     (\<forall>i < length P. \<forall>ns. (P ! i, ns) \<in> set g \<longrightarrow> set ns \<subseteq> set (take i P))"

lemma filter_visit:
  "x \<notin> set P \<Longrightarrow>
   int (length (filter (\<lambda>d. d \<notin> set (P @ [x])) ns)) =
   int (length (filter (\<lambda>d. d \<notin> set P) ns)) - int (count_list ns x)"
  by (induction ns) auto

lemma kahn_invD:
  assumes "kahn_inv g P inbound ready"
  shows "distinct (P @ ready)"
    and "(s, ns) \<in> set g \<Longrightarrow> inbound s = int (length (filter (\<lambda>d. d \<notin> set P) ns))"
    and "s \<in> set P \<or> s \<in> set ready \<longleftrightarrow> s \<in> fst ` set g \<and> inbound s = 0"
    and "i < length P \<Longrightarrow> (P ! i, ns) \<in> set g \<Longrightarrow> set ns \<subseteq> set (take i P)"
  using assms unfolding kahn_inv_def by (blast, blast, blast, blast)

text \<open>A step without open dependencies needs only visited steps.\<close>

lemma closed_needs:
  assumes "kahn_inv g P inbound ready" and "(s, ns) \<in> set g" and "inbound s = 0"
  shows "set ns \<subseteq> set P"
  using kahn_invD(2) [OF assms(1,2)] assms(3) by (auto simp: filter_empty_conv)

lemma count_dependents_in:
  "graph_wf g \<Longrightarrow> (s, ns) \<in> set g \<Longrightarrow> count_list (dependents g x) s = count_list ns x"
  by (simp add: count_dependents graph_wf_def)

lemma closed_not_dependent:
  assumes "graph_wf g" and "kahn_inv g P inbound ready" and "x \<notin> set P"
    and "s \<in> fst ` set g" and "inbound s = 0"
  shows "s \<notin> set (dependents g x)"
proof -
  from assms(4) obtain ns where sn: "(s, ns) \<in> set g" by auto
  with assms closed_needs have "x \<notin> set ns" by blast
  then have "count_list (dependents g x) s = 0"
    using count_dependents_in [OF assms(1) sn] by (simp add: count_notin)
  then show ?thesis by (simp add: count_list_0_iff)
qed

lemma visit_counts:
  assumes "graph_wf g" and "kahn_inv g P inbound ready" and "x \<notin> set P" and "(s, ns) \<in> set g"
    and "relax (dependents g x) inbound q = (inbound', q')"
  shows "inbound' s = int (length (filter (\<lambda>d. d \<notin> set (P @ [x])) ns))"
  using relax_inbound [OF assms(5), of s] kahn_invD(2) [OF assms(2,4)]
    count_dependents_in [OF assms(1,4), of x] filter_visit [OF assms(3), of ns] by simp

lemma visit_ready:
  assumes wf: "graph_wf g" and inv: "kahn_inv g P inbound (x # ready)"
    and r: "relax (dependents g x) inbound ready = (inbound', ready')"
  shows "distinct ready'" and "set ready' = set ready \<union> {s \<in> set (dependents g x). inbound' s = 0}"
proof -
  have x: "x \<notin> set P" and dr: "distinct ready" using kahn_invD(1) [OF inv] by auto
  have "int (count_list (dependents g x) s) \<le> inbound s" if "s \<in> set (dependents g x)" for s
  proof -
    from that dependents_nodes [of g x] obtain ns where "(s, ns) \<in> set g" by auto
    then have "0 \<le> inbound' s" using visit_counts [OF wf inv x _ r] by simp
    then show ?thesis using relax_inbound [OF r, of s] by simp
  qed
  moreover have "set ready \<inter> set (dependents g x) = {}"
  proof -
    have "s \<notin> set (dependents g x)" if "s \<in> set ready" for s
      using closed_not_dependent [OF wf inv x, of s] kahn_invD(3) [OF inv, of s] that by simp
    then show ?thesis by blast
  qed
  ultimately have "distinct ready' \<and>
      set ready' = set ready \<union> {s \<in> set (dependents g x). inbound' s = 0}"
    using relax_ready [OF r] dr by blast
  then show "distinct ready'"
    and "set ready' = set ready \<union> {s \<in> set (dependents g x). inbound' s = 0}" by auto
qed

lemma kahn_inv_step:
  assumes wf: "graph_wf g" and inv: "kahn_inv g P inbound (x # ready)"
    and r: "relax (dependents g x) inbound ready = (inbound', ready')"
  shows "kahn_inv g (P @ [x]) inbound' ready'"
proof -
  note R = visit_ready [OF wf inv r]
  have x: "x \<notin> set P" and disj: "distinct (P @ x # ready)" using kahn_invD(1) [OF inv] by auto
  have old: "s \<in> set P \<or> s \<in> set (x # ready) \<longleftrightarrow> s \<in> fst ` set g \<and> inbound s = 0" for s
    using kahn_invD(3) [OF inv] .
  have nodep: "s \<notin> set (dependents g x)" if "s \<in> set P \<or> s \<in> set (x # ready)" for s
    using that old closed_not_dependent [OF wf inv x] by blast
  have same: "inbound' s = inbound s" if "s \<notin> set (dependents g x)" for s
    using relax_inbound [OF r, of s] that by (simp add: count_notin)
  have zero: "s \<in> set (P @ [x]) \<union> set ready' \<longleftrightarrow> s \<in> fst ` set g \<and> inbound' s = 0" for s
  proof (cases "s \<in> set (dependents g x)")
    case True
    then have "s \<in> fst ` set g" using dependents_nodes by fast
    with True nodep R(2) show ?thesis by auto
  next
    case False
    with same old [of s] R(2) show ?thesis by auto
  qed
  have "distinct ((P @ [x]) @ ready')" using disj R nodep by auto
  moreover have "\<forall>(s, ns) \<in> set g. inbound' s = int (length (filter (\<lambda>d. d \<notin> set (P @ [x])) ns))"
    using visit_counts [OF wf inv x _ r] by blast
  moreover have "set (P @ [x]) \<union> set ready' = {s \<in> fst ` set g. inbound' s = 0}"
    using zero by blast
  moreover have "\<forall>i < length (P @ [x]). \<forall>ns. ((P @ [x]) ! i, ns) \<in> set g \<longrightarrow>
      set ns \<subseteq> set (take i (P @ [x]))"
    using kahn_invD(4) [OF inv] closed_needs [OF inv] old [of x]
    by (auto simp: nth_append less_Suc_eq)
  ultimately show ?thesis unfolding kahn_inv_def by blast
qed

lemma kahn_loop_inv:
  assumes "graph_wf g" and "kahn_inv g P inbound ready" and "visited = length P"
  shows "\<exists>P' inbound'. kahn_inv g P' inbound' [] \<and> kahn_loop g inbound ready visited = length P'"
  using assms
proof (induction g inbound ready visited arbitrary: P rule: kahn_loop.induct)
  case (1 g inbound visited)
  then show ?case by auto
next
  case (2 g inbound x ready visited)
  obtain inbound' ready' where r: "relax (dependents g x) inbound ready = (inbound', ready')"
    by fastforce
  have "kahn_inv g (P @ [x]) inbound' ready'" using 2(2,3) r by (rule kahn_inv_step)
  then have "\<exists>P' i. kahn_inv g P' i [] \<and> kahn_loop g inbound' ready' (Suc visited) = length P'"
    using 2 r by (intro "2.IH" [of _ inbound' ready' "P @ [x]"]) auto
  then show ?case by (simp add: r)
qed

definition kahn :: "graph \<Rightarrow> nat" where
  "kahn g = kahn_loop g (inbound_count g)
     (filter (\<lambda>s. inbound_count g s = 0) (map fst g)) 0"

lemma kahn_inv_initial:
  assumes "graph_wf g"
  shows "kahn_inv g [] (inbound_count g) (filter (\<lambda>s. inbound_count g s = 0) (map fst g))"
  using assms map_of_rev [of g]
  by (auto simp: kahn_inv_def graph_wf_def inbound_count_def distinct_map_filter)

lemma kahn_order:
  assumes "graph_wf g"
  obtains P inbound where "kahn_inv g P inbound []" and "kahn g = length P"
  using kahn_loop_inv [OF assms kahn_inv_initial [OF assms]] unfolding kahn_def by force

text \<open>A topological order: every step after all steps it needs.\<close>

definition topological :: "graph \<Rightarrow> string list \<Rightarrow> bool" where
  "topological g P \<longleftrightarrow> distinct P \<and> set P = fst ` set g \<and>
     (\<forall>i < length P. \<forall>ns. (P ! i, ns) \<in> set g \<longrightarrow> set ns \<subseteq> set (take i P))"

lemma topological_acyclic:
  assumes "topological g P"
  shows "acyclic (edges g)"
proof -
  define idx where "idx s = (LEAST i. i < length P \<and> P ! i = s)" for s
  have idx: "idx s < length P \<and> P ! idx s = s" if "s \<in> set P" for s
    unfolding idx_def by (rule LeastI_ex) (use that in \<open>auto simp: in_set_conv_nth\<close>)
  have lt: "idx d < idx s" if "(d, s) \<in> edges g" for d s
  proof -
    from that obtain ns where ns: "(s, ns) \<in> set g" "d \<in> set ns" by (auto simp: edges_def)
    from ns(1) have "s \<in> fst ` set g" by force
    then have "s \<in> set P" using assms unfolding topological_def by blast
    then have "idx s < length P" and "P ! idx s = s" using idx by auto
    with ns assms have "d \<in> set (take (idx s) P)" unfolding topological_def by (metis subsetD)
    then obtain j where "j < idx s" "j < length P" "P ! j = d" by (auto simp: in_set_conv_nth)
    then have "idx d \<le> j" unfolding idx_def by (intro Least_le) auto
    with \<open>j < idx s\<close> show ?thesis by simp
  qed
  have "edges g \<subseteq> measure idx" using lt by auto
  then have "wf (edges g)" by (rule wf_subset [OF wf_measure])
  then show ?thesis by (rule wf_acyclic)
qed

theorem kahn_correct:
  assumes wf: "graph_wf g"
  shows "kahn g = length g \<longleftrightarrow> acyclic (edges g)"
    and "kahn g = length g \<Longrightarrow> \<exists>P. topological g P"
proof -
  obtain P inbound where inv: "kahn_inv g P inbound []" and k: "kahn g = length P"
    using wf by (rule kahn_order)
  have P: "set P = {s \<in> fst ` set g. inbound s = 0}" and dP: "distinct P"
    using inv by (auto simp: kahn_inv_def)
  have card: "card (fst ` set g) = length g"
    using wf by (metis distinct_card graph_wf_def length_map set_map)
  have topo: "topological g P" if "kahn g = length g"
  proof -
    from that k dP card have "card (set P) = card (fst ` set g)" by (simp add: distinct_card)
    moreover have "set P \<subseteq> fst ` set g" using P by auto
    ultimately have "set P = fst ` set g" by (simp add: card_subset_eq)
    with dP kahn_invD(4) [OF inv] show ?thesis unfolding topological_def by blast
  qed
  then show "kahn g = length g \<Longrightarrow> \<exists>P. topological g P" by blast
  have "kahn g = length g" if ac: "acyclic (edges g)"
  proof -
    have "finite (edges g)"
      by (rule finite_subset [of _ "(\<Union>(s, ns) \<in> set g. set ns \<times> {s})"]) (auto simp: edges_def)
    with ac have wfe: "wf (edges g)" by (simp add: finite_acyclic_wf)
    have "fst ` set g \<subseteq> set P"
    proof
      fix s
      show "s \<in> fst ` set g \<Longrightarrow> s \<in> set P"
      proof (induction s rule: wf_induct_rule [OF wfe])
        case (1 s)
        from 1(2) obtain ns where sn: "(s, ns) \<in> set g" by auto
        have "d \<in> set P" if "d \<in> set ns" for d
        proof -
          have "(d, s) \<in> edges g" using sn that by (auto simp: edges_def)
          moreover have "d \<in> fst ` set g" using wf sn that by (fastforce simp: graph_wf_def)
          ultimately show ?thesis by (rule "1.IH")
        qed
        then have "filter (\<lambda>d. d \<notin> set P) ns = []" by (auto simp: filter_empty_conv)
        with inv sn have "inbound s = 0" by (fastforce simp: kahn_inv_def)
        with 1(2) P show "s \<in> set P" by simp
      qed
    qed
    with P have "set P = fst ` set g" by auto
    with dP card k show ?thesis by (metis distinct_card)
  qed
  moreover have "acyclic (edges g)" if "kahn g = length g"
    using topo [OF that] by (rule topological_acyclic)
  ultimately show "kahn g = length g \<longleftrightarrow> acyclic (edges g)" by blast
qed

section \<open>Ancestors\<close>

text \<open>
  \<open>InputReferenceResolver.ancestors_of\<close>: the stack of pending steps with its top in
  front (\<open>pending.pop()\<close> takes the end of the Python list), and the ancestors found so far.
\<close>

function ancestors_loop :: "graph \<Rightarrow> string \<Rightarrow> string list \<Rightarrow> string list \<Rightarrow> string list res" where
  "ancestors_loop g step_id [] ancestors = Inr ancestors"
| "ancestors_loop g step_id (a # pending) ancestors =
     (if a \<in> set ancestors then ancestors_loop g step_id pending ancestors
      else (case map_of (rev g) a of
          None \<Rightarrow> Inl (InvalidReferenceError
                    (''Step '' @ step_id @ '' has missing dependency '' @ a))
        | Some needs \<Rightarrow> ancestors_loop g step_id (rev needs @ pending) (a # ancestors)))"
  by pat_completeness auto
termination
proof (relation "inv_image (finite_psubset <*lex*> less_than)
    (\<lambda>(g, step_id, pending, ancestors). (fst ` set g - set ancestors, length pending))")
  fix g :: graph and step_id a pending ancestors needs
  assume "a \<notin> set ancestors" and "map_of (rev g) a = Some needs"
  then have "(a, needs) \<in> set g" by (auto dest: map_of_SomeD)
  then have "a \<in> fst ` set g" by force
  with \<open>a \<notin> set ancestors\<close> show "((g, step_id, rev needs @ pending, a # ancestors),
      g, step_id, a # pending, ancestors) \<in> inv_image (finite_psubset <*lex*> less_than)
    (\<lambda>(g, step_id, pending, ancestors). (fst ` set g - set ancestors, length pending))"
    by (auto simp: finite_psubset_def)
qed auto

definition graph_ancestors :: "graph \<Rightarrow> string \<Rightarrow> string list res" where
  "graph_ancestors g step_id =
     (case map_of (rev g) step_id of
        None \<Rightarrow> Inl (InvalidReferenceError (''Unknown step '' @ step_id))
      | Some needs \<Rightarrow> ancestors_loop g step_id (rev needs) [])"

lemma graph_wf_lookup:
  "graph_wf g \<Longrightarrow> map_of (rev g) s = Some ns \<longleftrightarrow> (s, ns) \<in> set g"
  by (simp add: graph_wf_def map_of_rev)

lemma graph_wf_needs: "graph_wf g \<Longrightarrow> (s, ns) \<in> set g \<Longrightarrow> d \<in> set ns \<Longrightarrow> d \<in> fst ` set g"
  unfolding graph_wf_def by blast

text \<open>
  Everything collected is an ancestor, and what is collected or pending is closed under
  dependencies.
\<close>

lemma ancestors_loop_correct:
  assumes "graph_wf g"
    and "set pending \<subseteq> fst ` set g"
    and "\<And>a. a \<in> set pending \<union> set anc \<Longrightarrow> (a, s) \<in> (edges g)\<^sup>+"
    and "\<And>a d. a \<in> set anc \<Longrightarrow> (d, a) \<in> edges g \<Longrightarrow> d \<in> set pending \<union> set anc"
  shows "\<exists>r. ancestors_loop g s pending anc = Inr r \<and> set pending \<union> set anc \<subseteq> set r \<and>
    (\<forall>a \<in> set r. (a, s) \<in> (edges g)\<^sup>+) \<and> (\<forall>a \<in> set r. \<forall>d. (d, a) \<in> edges g \<longrightarrow> d \<in> set r)"
  using assms
proof (induction g s pending anc rule: ancestors_loop.induct)
  case (1 g s anc)
  then show ?case by auto
next
  case (2 g s a pending anc)
  show ?case
  proof (cases "a \<in> set anc")
    case True
    then have sub: "set (a # pending) \<union> set anc = set pending \<union> set anc" by auto
    have "\<exists>r. ancestors_loop g s pending anc = Inr r \<and> set pending \<union> set anc \<subseteq> set r \<and>
        (\<forall>a \<in> set r. (a, s) \<in> (edges g)\<^sup>+) \<and> (\<forall>a \<in> set r. \<forall>d. (d, a) \<in> edges g \<longrightarrow> d \<in> set r)"
      by (rule "2.IH"(1) [OF True]) (use 2(3-6) sub in auto)
    with True sub show ?thesis by simp
  next
    case False
    from 2(4) have "a \<in> fst ` set g" by simp
    then obtain ns where ns: "(a, ns) \<in> set g" by auto
    with 2(3) have lk: "map_of (rev g) a = Some ns" by (simp add: graph_wf_lookup)
    have nsg: "set ns \<subseteq> fst ` set g" using graph_wf_needs [OF 2(3) ns] by blast
    have ed: "(d, a) \<in> edges g \<longleftrightarrow> d \<in> set ns" for d
      using 2(3) ns by (auto simp: edges_def graph_wf_def dest: eq_key_imp_eq_value)
    have as: "(a, s) \<in> (edges g)\<^sup>+" using 2(5) by simp
    have "\<exists>r. ancestors_loop g s (rev ns @ pending) (a # anc) = Inr r \<and>
        set (rev ns @ pending) \<union> set (a # anc) \<subseteq> set r \<and>
        (\<forall>a \<in> set r. (a, s) \<in> (edges g)\<^sup>+) \<and> (\<forall>a \<in> set r. \<forall>d. (d, a) \<in> edges g \<longrightarrow> d \<in> set r)"
    proof (rule "2.IH"(2) [OF False lk 2(3)])
      show "set (rev ns @ pending) \<subseteq> fst ` set g" using 2(4) nsg by auto
      show "(b, s) \<in> (edges g)\<^sup>+" if "b \<in> set (rev ns @ pending) \<union> set (a # anc)" for b
        using that 2(5) as ed trancl_into_trancl2 [of b a "edges g" s] by auto
      show "d \<in> set (rev ns @ pending) \<union> set (a # anc)"
        if "b \<in> set (a # anc)" "(d, b) \<in> edges g" for b d
        using that 2(6) [of b d] ed by auto
    qed
    then show ?thesis using False lk by auto
  qed
qed

theorem graph_ancestors_correct:
  assumes "graph_wf g" and "s \<in> fst ` set g"
  shows "\<exists>r. graph_ancestors g s = Inr r \<and> set r = {a. (a, s) \<in> (edges g)\<^sup>+}"
proof -
  from assms(2) obtain ns where ns: "(s, ns) \<in> set g" by auto
  with assms(1) have lk: "map_of (rev g) s = Some ns" by (simp add: graph_wf_lookup)
  have ed: "(d, s) \<in> edges g \<longleftrightarrow> d \<in> set ns" for d
    using assms(1) ns by (auto simp: edges_def graph_wf_def dest: eq_key_imp_eq_value)
  have nsg: "set (rev ns) \<subseteq> fst ` set g" using graph_wf_needs [OF assms(1) ns] by auto
  obtain r where r: "ancestors_loop g s (rev ns) [] = Inr r" "set ns \<subseteq> set r"
    and sound: "\<forall>a \<in> set r. (a, s) \<in> (edges g)\<^sup>+"
    and closed: "\<forall>a \<in> set r. \<forall>d. (d, a) \<in> edges g \<longrightarrow> d \<in> set r"
  proof -
    have "(a, s) \<in> (edges g)\<^sup>+" if "a \<in> set (rev ns) \<union> set ([] :: string list)" for a
      using that ed by auto
    from ancestors_loop_correct [OF assms(1) nsg this, of "[]"] that show thesis by auto
  qed
  have "a \<in> set r" if "(a, s) \<in> (edges g)\<^sup>+" for a
    using that
  proof (induction rule: converse_trancl_induct)
    case (base y)
    with ed r(2) show ?case by blast
  next
    case (step y z)
    with closed show ?case by blast
  qed
  with sound have "set r = {a. (a, s) \<in> (edges g)\<^sup>+}" by auto
  with r lk show ?thesis by (simp add: graph_ancestors_def)
qed

section \<open>What an acyclicity check promises\<close>

locale dag_checker =
  fixes graph_of :: "'w \<Rightarrow> graph"
    and well_formed :: "'w \<Rightarrow> bool"
    and check :: "'w \<Rightarrow> unit res"
  assumes graph_ok: "well_formed w \<Longrightarrow> graph_wf (graph_of w)"
    and check_iff: "well_formed w \<Longrightarrow>
      check w = Inr () \<longleftrightarrow> kahn (graph_of w) = length (graph_of w)"
begin

lemma accepts_iff_acyclic:
  "well_formed w \<Longrightarrow> check w = Inr () \<longleftrightarrow> acyclic (edges (graph_of w))"
  using check_iff kahn_correct(1) [OF graph_ok] by simp

lemma accepted_order: "well_formed w \<Longrightarrow> check w = Inr () \<Longrightarrow> \<exists>P. topological (graph_of w) P"
  using check_iff kahn_correct(2) [OF graph_ok] by simp

text \<open>A nonempty set of steps of an accepted workflow has one whose needs lie outside it.\<close>

lemma accepted_minimal:
  assumes "well_formed w" and "check w = Inr ()" and "s \<in> A"
  shows "\<exists>m \<in> A. \<forall>d. (d, m) \<in> edges (graph_of w) \<longrightarrow> d \<notin> A"
proof -
  let ?g = "graph_of w"
  have "finite (edges ?g)"
    by (rule finite_subset [of _ "(\<Union>(s, ns) \<in> set ?g. set ns \<times> {s})"]) (auto simp: edges_def)
  with assms have "wf (edges ?g)" by (simp add: accepts_iff_acyclic finite_acyclic_wf)
  then show ?thesis using assms(3) by (metis wfE_min)
qed

end

end
