(* ===== verification/Workflow_Model.thy ===== *)
theory Workflow_Model
  imports Entities Graph
begin

text \<open>
  The immutable workflow of the domain: \<open>WorkflowStep\<close>
  (\<^verbatim>\<open>backend/domain/models/workflow_step.py\<close>) and \<open>Workflow\<close>
  (\<^verbatim>\<open>backend/domain/models/workflow.py\<close>) with the validation their constructors
  perform, and the reference syntax they share with the Engine. Retry delays are
  rational numbers, floats without rounding and without infinities.
\<close>

section \<open>Names and references\<close>

text \<open>\<open>[A-Za-z][A-Za-z0-9_-]*\<close>\<close>

definition ident_start :: "char \<Rightarrow> bool" where
  "ident_start c \<longleftrightarrow>
     (let n = of_char c :: nat in (65 \<le> n \<and> n \<le> 90) \<or> (97 \<le> n \<and> n \<le> 122))"

definition ident_char :: "char \<Rightarrow> bool" where
  "ident_char c \<longleftrightarrow> ident_start c \<or>
     (let n = of_char c :: nat in (48 \<le> n \<and> n \<le> 57) \<or> n = 95 \<or> n = 45)"

definition is_ident :: "string \<Rightarrow> bool" where
  "is_ident s \<longleftrightarrow> (case s of [] \<Rightarrow> False | c # r \<Rightarrow> ident_start c \<and> list_all ident_char r)"

text \<open>\<open>${inputs.NAME}\<close>, matched against the whole string.\<close>

definition match_input_reference :: "string \<Rightarrow> string option" where
  "match_input_reference s =
     (if startswith s ''${inputs.'' then
        (let r = removeprefix s ''${inputs.''; name = takeWhile ident_char r in
         if is_ident name \<and> dropWhile ident_char r = ''}'' then Some name else None)
      else None)"

text \<open>\<open>${nodes.STEP.outputs.NAME}\<close>, matched against the whole string.\<close>

definition match_node_reference :: "string \<Rightarrow> (string \<times> string) option" where
  "match_node_reference s =
     (if startswith s ''${nodes.'' then
        (let r = removeprefix s ''${nodes.''; step = takeWhile ident_char r;
             r1 = dropWhile ident_char r in
         if is_ident step \<and> startswith r1 ''.outputs.'' then
           (let r2 = removeprefix r1 ''.outputs.''; name = takeWhile ident_char r2 in
            if is_ident name \<and> dropWhile ident_char r2 = ''}'' then Some (step, name) else None)
         else None)
      else None)"

lemma is_ident_chars: "is_ident s \<Longrightarrow> list_all ident_char s"
  by (auto simp: is_ident_def ident_char_def split: list.splits)

lemma is_ident_nonblank: "is_ident s \<Longrightarrow> nonblank s"
  by (auto simp: is_ident_def ident_start_def py_isspace_def Let_def split: list.splits)

lemma ident_span:
  assumes "list_all ident_char s" and "\<not> ident_char c"
  shows "takeWhile ident_char (s @ c # r) = s" and "dropWhile ident_char (s @ c # r) = c # r"
  using assms by (induction s) auto

lemma startswith_split: "startswith s p \<Longrightarrow> s = p @ removeprefix s p"
  by (auto simp: startswith_iff)

lemma match_input_reference_iff:
  "match_input_reference s = Some n \<longleftrightarrow> s = ''${inputs.'' @ n @ ''}'' \<and> is_ident n"
proof
  assume m: "match_input_reference s = Some n"
  let ?r = "removeprefix s ''${inputs.''"
  from m have "startswith s ''${inputs.''" and n: "n = takeWhile ident_char ?r" "is_ident n"
    and "dropWhile ident_char ?r = ''}''"
    by (auto simp: match_input_reference_def Let_def split: if_splits)
  moreover from this have "?r = n @ ''}''" by (metis takeWhile_dropWhile_id)
  ultimately show "s = ''${inputs.'' @ n @ ''}'' \<and> is_ident n" using startswith_split by metis
next
  assume "s = ''${inputs.'' @ n @ ''}'' \<and> is_ident n"
  moreover from this have "takeWhile ident_char (n @ ''}'') = n" "dropWhile ident_char (n @ ''}'') = ''}''"
    using ident_span [OF is_ident_chars, of n "CHR ''}''"] by (auto simp: ident_char_def ident_start_def)
  ultimately show "match_input_reference s = Some n"
    unfolding match_input_reference_def
    by (simp only: startswith_append removeprefix_append if_True Let_def conj_absorb simp_thms)
qed

lemma match_node_reference_iff:
  "match_node_reference s = Some (a, b) \<longleftrightarrow>
     s = ''${nodes.'' @ a @ ''.outputs.'' @ b @ ''}'' \<and> is_ident a \<and> is_ident b"
proof
  assume m: "match_node_reference s = Some (a, b)"
  let ?r = "removeprefix s ''${nodes.''"
  let ?q = "removeprefix (dropWhile ident_char ?r) ''.outputs.''"
  from m have s: "startswith s ''${nodes.''" and a: "a = takeWhile ident_char ?r" "is_ident a"
    and r: "startswith (dropWhile ident_char ?r) ''.outputs.''"
    and b: "b = takeWhile ident_char ?q" "is_ident b" and q: "dropWhile ident_char ?q = ''}''"
    by (auto simp: match_node_reference_def Let_def split: if_splits)
  from b q have "?q = b @ ''}''" by (metis takeWhile_dropWhile_id)
  then have "dropWhile ident_char ?r = ''.outputs.'' @ b @ ''}''" using startswith_split [OF r] by metis
  then have "?r = a @ ''.outputs.'' @ b @ ''}''" using a(1) by (metis takeWhile_dropWhile_id)
  with startswith_split [OF s] a(2) b(2)
  show "s = ''${nodes.'' @ a @ ''.outputs.'' @ b @ ''}'' \<and> is_ident a \<and> is_ident b" by metis
next
  assume s: "s = ''${nodes.'' @ a @ ''.outputs.'' @ b @ ''}'' \<and> is_ident a \<and> is_ident b"
  have nc: "\<not> ident_char (CHR ''.'')" "\<not> ident_char (CHR ''}'')"
    by (auto simp: ident_char_def ident_start_def)
  have "takeWhile ident_char (a @ ''.outputs.'' @ b @ ''}'') = a"
    "dropWhile ident_char (a @ ''.outputs.'' @ b @ ''}'') = ''.outputs.'' @ b @ ''}''"
    using ident_span [OF is_ident_chars nc(1), of a "''outputs.'' @ b @ ''}''"] s by auto
  moreover have "takeWhile ident_char (b @ ''}'') = b" "dropWhile ident_char (b @ ''}'') = ''}''"
    using ident_span [OF is_ident_chars nc(2), of b "[]"] s by auto
  ultimately show "match_node_reference s = Some (a, b)"
    using s unfolding match_node_reference_def
    by (simp only: startswith_append removeprefix_append if_True Let_def conj_absorb simp_thms)
qed

section \<open>WorkflowStep\<close>

record WorkflowStep =
  ws_id :: string
  ws_kind :: WorkflowStepKind
  ws_needs :: "string list"
  ws_uses :: "string option"
  ws_input_mapping :: pymap
  ws_timeout_seconds :: int
  ws_max_attempts :: int
  ws_retry_backoff :: string
  ws_retry_initial_seconds :: rat
  ws_retry_max_seconds :: rat
  ws_checkpoint_policy :: string
  ws_approval_policy :: "string option"

definition backoff_names :: "string list" where
  "backoff_names = [''fixed'', ''linear'', ''exponential'']"

definition workflow_step_kind_checks :: "WorkflowStep \<Rightarrow> unit res" where
  "workflow_step_kind_checks s =
     (case ws_kind s of
        Kind_SKILL \<Rightarrow>
          bindR (guardR (case ws_uses s of None \<Rightarrow> True | Some u \<Rightarrow> u = [] \<or> CHR 0x40 \<notin> set u)
                   (DomainValidationError
                      (''Skill step '' @ ws_id s @ '' must pin a skill as skill_id@version'')))
            (\<lambda>_. guardR (ws_approval_policy s \<noteq> None)
                   (DomainValidationError
                      (''Skill step '' @ ws_id s @ '' cannot define approval_policy directly'')))
      | Kind_APPROVAL \<Rightarrow>
          bindR (guardR (ws_uses s \<noteq> None)
                   (DomainValidationError (''Approval step '' @ ws_id s @ '' cannot define uses'')))
            (\<lambda>_. require_non_empty (case ws_approval_policy s of None \<Rightarrow> '''' | Some p \<Rightarrow> p)
                   ''WorkflowStep.approval_policy''))"

definition workflow_step_post_init :: "WorkflowStep \<Rightarrow> WorkflowStep res" where
  "workflow_step_post_init s =
     bindR (require_non_empty (ws_id s) ''WorkflowStep.id'')
     (\<lambda>_. bindR (guardR (\<not> is_ident (ws_id s)) (DomainValidationError
        ''WorkflowStep.id must start with a letter and contain only letters, digits, underscores, or hyphens''))
     (\<lambda>_. bindR (guardR (\<not> distinct (ws_needs s)) (DomainValidationError
        (''WorkflowStep '' @ ws_id s @ '' has duplicate dependencies'')))
     (\<lambda>_. bindR (guardR (ws_id s \<in> set (ws_needs s)) (DomainValidationError
        (''WorkflowStep '' @ ws_id s @ '' cannot depend on itself'')))
     (\<lambda>_. bindR (workflow_step_kind_checks s)
     (\<lambda>_. bindR (guardR (ws_timeout_seconds s \<le> 0)
        (DomainValidationError ''WorkflowStep.timeout_seconds must be positive''))
     (\<lambda>_. bindR (guardR (ws_max_attempts s \<le> 0)
        (DomainValidationError ''WorkflowStep.max_attempts must be positive''))
     (\<lambda>_. bindR (guardR (ws_retry_backoff s \<notin> set backoff_names)
        (DomainValidationError ''WorkflowStep.retry_backoff must be fixed, linear, or exponential''))
     (\<lambda>_. bindR (guardR (ws_retry_initial_seconds s < 0)
        (DomainValidationError ''WorkflowStep.retry_initial_seconds cannot be negative''))
     (\<lambda>_. bindR (guardR (ws_retry_max_seconds s < ws_retry_initial_seconds s)
        (DomainValidationError
           ''WorkflowStep.retry_max_seconds cannot be smaller than retry_initial_seconds''))
     (\<lambda>_. bindR (guardR (ws_checkpoint_policy s \<noteq> ''after_success'')
        (DomainValidationError ''V1 supports only the after_success checkpoint policy''))
     (\<lambda>_. Inr (s\<lparr>ws_input_mapping := freeze_map (ws_input_mapping s)\<rparr>))))))))))))"

definition workflow_step_ok :: "WorkflowStep \<Rightarrow> bool" where
  "workflow_step_ok s \<longleftrightarrow>
     is_ident (ws_id s) \<and> distinct (ws_needs s) \<and> ws_id s \<notin> set (ws_needs s) \<and>
     (ws_kind s = Kind_SKILL \<longrightarrow>
        (\<exists>u. ws_uses s = Some u \<and> CHR 0x40 \<in> set u) \<and> ws_approval_policy s = None) \<and>
     (ws_kind s = Kind_APPROVAL \<longrightarrow>
        ws_uses s = None \<and> (\<exists>p. ws_approval_policy s = Some p \<and> nonblank p)) \<and>
     0 < ws_timeout_seconds s \<and> 0 < ws_max_attempts s \<and>
     ws_retry_backoff s \<in> set backoff_names \<and> 0 \<le> ws_retry_initial_seconds s \<and>
     ws_retry_initial_seconds s \<le> ws_retry_max_seconds s \<and>
     ws_checkpoint_policy s = ''after_success''"

lemma workflow_step_kind_checks_ok:
  "workflow_step_kind_checks s = Inr () \<longleftrightarrow>
     (ws_kind s = Kind_SKILL \<longrightarrow>
        (\<exists>u. ws_uses s = Some u \<and> CHR 0x40 \<in> set u) \<and> ws_approval_policy s = None) \<and>
     (ws_kind s = Kind_APPROVAL \<longrightarrow>
        ws_uses s = None \<and> (\<exists>p. ws_approval_policy s = Some p \<and> nonblank p))"
  by (cases "ws_kind s"; cases "ws_uses s"; cases "ws_approval_policy s")
     (auto simp: workflow_step_kind_checks_def bindR_Inr_iff)

lemma workflow_step_post_init_ok:
  "workflow_step_post_init s = Inr s' \<longleftrightarrow>
     workflow_step_ok s \<and> s' = s\<lparr>ws_input_mapping := freeze_map (ws_input_mapping s)\<rparr>"
  unfolding workflow_step_post_init_def workflow_step_ok_def
  by (auto simp: bindR_Inr_iff workflow_step_kind_checks_ok is_ident_nonblank not_le not_less)

section \<open>Workflow\<close>

record Workflow =
  wf_id :: string
  wf_version :: string
  wf_name :: string
  wf_steps :: "WorkflowStep list"
  wf_schema_version :: string
  wf_input_schema :: pymap
  wf_outputs :: pymap

definition workflow_graph :: "Workflow \<Rightarrow> graph" where
  "workflow_graph w = map (\<lambda>s. (ws_id s, ws_needs s)) (wf_steps w)"

definition workflow_step_ids :: "Workflow \<Rightarrow> string list" where
  "workflow_step_ids w = map ws_id (wf_steps w)"

definition workflow_validate_acyclic :: "Workflow \<Rightarrow> unit res" where
  "workflow_validate_acyclic w =
     (let g = workflow_graph w;
          inbound = inbound_count g;
          ready = filter (\<lambda>i. inbound i = 0) (workflow_step_ids w);
          visited = kahn_loop g inbound ready 0
      in guardR (visited \<noteq> length (wf_steps w))
           (DomainValidationError ''Workflow dependencies must form an acyclic graph''))"

definition missing_needs :: "string list \<Rightarrow> string list \<Rightarrow> string list" where
  "missing_needs known needs = sort (remdups (filter (\<lambda>d. d \<notin> set known) needs))"

definition workflow_output_check :: "string list \<Rightarrow> string \<times> pyval \<Rightarrow> unit res" where
  "workflow_output_check known item =
     (case item of (output_name, reference) \<Rightarrow>
        bindR (require_non_empty output_name ''Workflow output name'')
        (\<lambda>_. case reference of
              VStr ref \<Rightarrow>
                (case match_node_reference ref of
                   None \<Rightarrow> Inl (DomainValidationError
                     (''Workflow output '' @ output_name @ '' has an unsupported reference''))
                 | Some (step, _) \<Rightarrow>
                     guardR (step \<notin> set known) (DomainValidationError
                       (''Workflow output '' @ output_name @ '' references missing step '' @ step)))
            | _ \<Rightarrow> Inl (DomainValidationError
                 (''Workflow output '' @ output_name @ '' must be a string reference''))))"

definition workflow_post_init :: "Workflow \<Rightarrow> Workflow res" where
  "workflow_post_init w =
     bindR (require_non_empty (wf_id w) ''Workflow.id'')
     (\<lambda>_. bindR (require_non_empty (wf_version w) ''Workflow.version'')
     (\<lambda>_. bindR (require_non_empty (wf_name w) ''Workflow.name'')
     (\<lambda>_. bindR (guardR (wf_schema_version w \<noteq> ''reagent/v1alpha1'') (DomainValidationError
        (''Unsupported workflow schema version: '' @ wf_schema_version w)))
     (\<lambda>_. bindR (guardR (wf_steps w = [])
        (DomainValidationError ''Workflow must contain at least one step''))
     (\<lambda>_. bindR (guardR (\<not> distinct (workflow_step_ids w))
        (DomainValidationError ''Workflow step IDs must be unique''))
     (\<lambda>_. bindR (forR (wf_steps w)
        (\<lambda>s. let missing = missing_needs (workflow_step_ids w) (ws_needs s) in
          guardR (missing \<noteq> []) (DomainValidationError
            (''WorkflowStep '' @ ws_id s @ '' has missing dependencies: '' @ join '', '' missing))))
     (\<lambda>_. bindR (workflow_validate_acyclic w)
     (\<lambda>_. bindR (forR (wf_outputs w) (workflow_output_check (workflow_step_ids w)))
     (\<lambda>_. Inr (w\<lparr>wf_input_schema := freeze_map (wf_input_schema w),
                wf_outputs := freeze_map (wf_outputs w)\<rparr>))))))))))"

definition workflow_roots :: "Workflow \<Rightarrow> WorkflowStep list" where
  "workflow_roots w = filter (\<lambda>s. ws_needs s = []) (wf_steps w)"

definition workflow_get_step :: "Workflow \<Rightarrow> string \<Rightarrow> WorkflowStep res" where
  "workflow_get_step w step_id =
     (case find (\<lambda>s. ws_id s = step_id) (wf_steps w) of
        Some s \<Rightarrow> Inr s
      | None \<Rightarrow> Inl (DomainValidationError (''Workflow has no step named '' @ step_id)))"

definition workflow_dependents_of :: "Workflow \<Rightarrow> string \<Rightarrow> WorkflowStep list" where
  "workflow_dependents_of w step_id = filter (\<lambda>s. step_id \<in> set (ws_needs s)) (wf_steps w)"

subsection \<open>Lemmas\<close>

definition workflow_closed :: "Workflow \<Rightarrow> bool" where
  "workflow_closed w \<longleftrightarrow> distinct (workflow_step_ids w) \<and>
     (\<forall>s \<in> set (wf_steps w). set (ws_needs s) \<subseteq> set (workflow_step_ids w))"

definition workflow_output_ok :: "string list \<Rightarrow> string \<times> pyval \<Rightarrow> bool" where
  "workflow_output_ok known item \<longleftrightarrow>
     nonblank (fst item) \<and>
     (\<exists>ref step field. snd item = VStr ref \<and> match_node_reference ref = Some (step, field) \<and>
        step \<in> set known)"

definition workflow_ok :: "Workflow \<Rightarrow> bool" where
  "workflow_ok w \<longleftrightarrow>
     nonblank (wf_id w) \<and> nonblank (wf_version w) \<and> nonblank (wf_name w) \<and>
     wf_schema_version w = ''reagent/v1alpha1'' \<and> wf_steps w \<noteq> [] \<and> workflow_closed w \<and>
     workflow_validate_acyclic w = Inr () \<and>
     (\<forall>out \<in> set (wf_outputs w). workflow_output_ok (workflow_step_ids w) out)"

lemma missing_needs_Nil [simp]: "missing_needs known needs = [] \<longleftrightarrow> set needs \<subseteq> set known"
proof -
  have "set (missing_needs known needs) = set needs - set known"
    by (auto simp: missing_needs_def)
  then show ?thesis by (metis Diff_eq_empty_iff set_empty)
qed

lemma workflow_graph_ids [simp]: "map fst (workflow_graph w) = workflow_step_ids w"
  by (simp add: workflow_graph_def workflow_step_ids_def)

lemma workflow_graph_wf: "workflow_closed w \<Longrightarrow> graph_wf (workflow_graph w)"
  unfolding graph_wf_def
  by (auto simp: workflow_closed_def workflow_graph_def workflow_step_ids_def o_def image_image)

interpretation workflow_dag: dag_checker workflow_graph workflow_closed workflow_validate_acyclic
proof unfold_locales
  fix w
  show "workflow_closed w \<Longrightarrow> graph_wf (workflow_graph w)" by (rule workflow_graph_wf)
  have "length (workflow_graph w) = length (wf_steps w)" by (simp add: workflow_graph_def)
  then show "workflow_validate_acyclic w = Inr () \<longleftrightarrow>
      kahn (workflow_graph w) = length (workflow_graph w)"
    by (simp add: workflow_validate_acyclic_def kahn_def Let_def)
qed

lemma workflow_output_check_ok:
  "workflow_output_check known item = Inr () \<longleftrightarrow> workflow_output_ok known item"
  by (cases item; cases "snd item")
     (auto simp: workflow_output_check_def workflow_output_ok_def bindR_Inr_iff
           split: option.splits)

lemma workflow_post_init_ok:
  "workflow_post_init w = Inr w' \<longleftrightarrow>
     workflow_ok w \<and> w' = w\<lparr>wf_input_schema := freeze_map (wf_input_schema w),
                            wf_outputs := freeze_map (wf_outputs w)\<rparr>"
  unfolding workflow_post_init_def workflow_ok_def workflow_closed_def
  by (auto simp: bindR_Inr_iff forR_Inr_iff Let_def workflow_output_check_ok)

lemma workflow_get_step_ok:
  "workflow_get_step w i = Inr s \<Longrightarrow> s \<in> set (wf_steps w) \<and> ws_id s = i"
  by (auto simp: workflow_get_step_def find_Some_iff split: option.splits)

lemma workflow_get_step_in:
  assumes "distinct (workflow_step_ids w)" and "s \<in> set (wf_steps w)"
  shows "workflow_get_step w (ws_id s) = Inr s"
proof (cases "find (\<lambda>x. ws_id x = ws_id s) (wf_steps w)")
  case None
  with assms(2) show ?thesis by (auto simp: find_None_iff)
next
  case (Some x)
  then have "x \<in> set (wf_steps w)" "ws_id x = ws_id s" by (auto simp: find_Some_iff)
  with assms have "x = s" by (auto simp: workflow_step_ids_def distinct_map dest: inj_onD)
  with Some show ?thesis by (simp add: workflow_get_step_def)
qed

text \<open>A workflow as its constructor leaves it, made of steps as theirs leave them.\<close>

definition workflow_valid :: "Workflow \<Rightarrow> bool" where
  "workflow_valid w \<longleftrightarrow> workflow_ok w \<and> (\<forall>s \<in> set (wf_steps w). workflow_step_ok s)"

end
