(* ===== verification/Execution.thy ===== *)
theory Execution
  imports Workflow_Model
begin

text \<open>
  The execution aggregate and its coordinator,
  \<^verbatim>\<open>backend/domain/services/execution_coordinator.py\<close>.

  \<open>ExecutionState\<close> holds the entities by value; a reference to a \<open>StepRun\<close> is its
  position in \<open>step_runs\<close>, which only grows. The coordinator's injected clock and
  identifier factory, and SHA-256, are the parameters of \<open>coordinator_env\<close>: the clock and
  the factory are functions of the number of the call, and \<open>world\<close> counts the calls.
  Every method is an effect on the \<open>world\<close>; when it raises, the mutations made before the
  exception stay, as they do in Python.
\<close>

section \<open>State\<close>

record ExecutionState =
  ex_workflow :: Workflow
  ex_workflow_run :: WorkflowRun
  ex_agent_session :: AgentSession
  ex_step_runs :: "StepRun list"
  ex_checkpoints :: "Checkpoint list"

record coordinator_env =
  ce_clock :: "nat \<Rightarrow> datetime"
  ce_id_factory :: "string \<Rightarrow> nat \<Rightarrow> string"
  ce_sha256 :: "string \<Rightarrow> string"

record world =
  w_exec :: ExecutionState
  w_ticks :: nat
  w_ids :: nat

definition latest_index :: "StepRun list \<Rightarrow> string \<Rightarrow> nat option" where
  "latest_index srs step_id =
     first_max (\<lambda>i. sr_attempt (srs ! i))
       (filter (\<lambda>i. sr_step_id (srs ! i) = step_id) [0..<length srs])"

definition latest_step_run :: "string \<Rightarrow> ExecutionState \<Rightarrow> nat res" where
  "latest_step_run step_id x =
     (case latest_index (ex_step_runs x) step_id of
        None \<Rightarrow> Inl (StepRunNotFoundError (''No StepRun exists for workflow step '' @ step_id))
      | Some i \<Rightarrow> Inr i)"

definition current_step_runs :: "ExecutionState \<Rightarrow> nat list res" where
  "current_step_runs x = mapR (\<lambda>s. latest_step_run (ws_id s) x) (wf_steps (ex_workflow x))"

definition latest_checkpoint :: "ExecutionState \<Rightarrow> Checkpoint res" where
  "latest_checkpoint x =
     (if ex_checkpoints x = [] then Inl (CheckpointMismatchError ''Execution has no checkpoint'')
      else Inr (last (ex_checkpoints x)))"

section \<open>Clock, identifiers, and calls on the parts\<close>

definition read_clock :: "coordinator_env \<Rightarrow> (world, datetime) op" where
  "read_clock env = (\<lambda>w. (Inr (ce_clock env (w_ticks w)), w\<lparr>w_ticks := Suc (w_ticks w)\<rparr>))"

definition new_id :: "coordinator_env \<Rightarrow> string \<Rightarrow> (world, string) op" where
  "new_id env prefix =
     (\<lambda>w. (Inr (ce_id_factory env prefix (w_ids w)), w\<lparr>w_ids := Suc (w_ids w)\<rparr>))"

definition set_run :: "WorkflowRun \<Rightarrow> world \<Rightarrow> world" where
  "set_run r w = w\<lparr>w_exec := (w_exec w)\<lparr>ex_workflow_run := r\<rparr>\<rparr>"

definition set_agent :: "AgentSession \<Rightarrow> world \<Rightarrow> world" where
  "set_agent a w = w\<lparr>w_exec := (w_exec w)\<lparr>ex_agent_session := a\<rparr>\<rparr>"

definition set_step :: "nat \<Rightarrow> StepRun \<Rightarrow> world \<Rightarrow> world" where
  "set_step i s w =
     w\<lparr>w_exec := (w_exec w)\<lparr>ex_step_runs := (ex_step_runs (w_exec w))[i := s]\<rparr>\<rparr>"

definition add_step :: "StepRun \<Rightarrow> world \<Rightarrow> world" where
  "add_step s w =
     w\<lparr>w_exec := (w_exec w)\<lparr>ex_step_runs := ex_step_runs (w_exec w) @ [s]\<rparr>\<rparr>"

definition add_checkpoint :: "Checkpoint \<Rightarrow> world \<Rightarrow> world" where
  "add_checkpoint p w =
     w\<lparr>w_exec := (w_exec w)\<lparr>ex_checkpoints := ex_checkpoints (w_exec w) @ [p]\<rparr>\<rparr>"

text \<open>\<open>execution.workflow_run.transition_to(target, at=timestamp, ...)\<close> and its siblings.\<close>

definition run_to ::
  "WorkflowRunStatus \<Rightarrow> datetime \<Rightarrow> string option \<Rightarrow> string option \<Rightarrow> (world, unit) op" where
  "run_to target timestamp wait_reason error_code =
     updE (\<lambda>w. bindR (workflow_run_transition_to target
                  \<lparr>rc_utc = timestamp, rc_at = Some timestamp, rc_wait_reason = wait_reason,
                   rc_error_code = error_code\<rparr>
                  (ex_workflow_run (w_exec w)))
                (\<lambda>r. Inr (set_run r w)))"

definition agent_to :: "AgentSessionStatus \<Rightarrow> datetime \<Rightarrow> (world, unit) op" where
  "agent_to target timestamp =
     updE (\<lambda>w. bindR (agent_session_transition_to target
                  \<lparr>ac_utc = timestamp, ac_at = Some timestamp\<rparr> (ex_agent_session (w_exec w)))
                (\<lambda>a. Inr (set_agent a w)))"

definition step_call_at ::
  "datetime \<Rightarrow> pymap option \<Rightarrow> pymap option \<Rightarrow> string option \<Rightarrow> step_call" where
  "step_call_at timestamp inputs outputs error_code =
     \<lparr>sc_utc = timestamp, sc_at = Some timestamp, sc_inputs = inputs, sc_outputs = outputs,
      sc_error_code = error_code\<rparr>"

definition step_to :: "nat \<Rightarrow> StepRunStatus \<Rightarrow> step_call \<Rightarrow> (world, unit) op" where
  "step_to i target c =
     updE (\<lambda>w. bindR (step_run_transition_to target c (ex_step_runs (w_exec w) ! i))
                (\<lambda>s. Inr (set_step i s w)))"

section \<open>Snapshots and checkpoints\<close>

definition opt_str :: "string option \<Rightarrow> pyval" where
  "opt_str s = (case s of None \<Rightarrow> VNone | Some t \<Rightarrow> VStr t)"

definition step_snapshot :: "StepRun \<Rightarrow> pyval" where
  "step_snapshot s = VDict
     [(''id'', VStr (sr_id s)),
      (''step_id'', VStr (sr_step_id s)),
      (''attempt'', VInt (sr_attempt s)),
      (''status'', VStr (step_status_value (sr_status s))),
      (''row_version'', VInt (sr_row_version s)),
      (''outputs'', VDict (thaw_map (sr_outputs s))),
      (''error_code'', opt_str (sr_error_code s))]"

definition snapshot :: "ExecutionState \<Rightarrow> pymap" where
  "snapshot x =
     (let w = ex_workflow x; r = ex_workflow_run x; a = ex_agent_session x in
     [(''contract_version'', VInt 1),
      (''workflow'', VDict
         [(''id'', VStr (wf_id w)),
          (''version'', VStr (wf_version w)),
          (''schema_version'', VStr (wf_schema_version w))]),
      (''workflow_run'', VDict
         [(''id'', VStr (wr_id r)),
          (''project_id'', VStr (wr_project_id r)),
          (''status'', VStr (run_status_value (wr_status r))),
          (''row_version'', VInt (wr_row_version r)),
          (''wait_reason'', opt_str (wr_wait_reason r)),
          (''error_code'', opt_str (wr_error_code r)),
          (''outputs'', VDict (thaw_map (wr_outputs r)))]),
      (''agent_session'', VDict
         [(''id'', VStr (as_id a)),
          (''status'', VStr (agent_status_value (as_status a))),
          (''row_version'', VInt (as_row_version a))]),
      (''step_runs'', VList (map step_snapshot (ex_step_runs x)))])"

definition create_checkpoint :: "coordinator_env \<Rightarrow> (world, Checkpoint) op" where
  "create_checkpoint env =
     bindE (new_id env ''checkpoint'')
     (\<lambda>cid. bindE (getsE w_exec)
     (\<lambda>x. bindE (read_clock env)
     (\<lambda>now. bindE (readE (\<lambda>_. checkpoint_create (ce_sha256 env) cid (wr_id (ex_workflow_run x))
              (as_id (ex_agent_session x)) (int (length (ex_checkpoints x)) + 1)
              (VDict (snapshot x)) now
              (if ex_checkpoints x = [] then None else Some (cp_id (last (ex_checkpoints x))))))
     (\<lambda>p. thenE (modifyE (add_checkpoint p)) (returnE p)))))"

section \<open>Creating a run\<close>

definition isinstance_of :: "string \<Rightarrow> pyval \<Rightarrow> bool option" where
  "isinstance_of type_name v =
     (if type_name = ''string'' then Some (case v of VStr _ \<Rightarrow> True | _ \<Rightarrow> False)
      else if type_name = ''integer'' then Some (case v of VInt _ \<Rightarrow> True | VBool _ \<Rightarrow> True | _ \<Rightarrow> False)
      else if type_name = ''number'' then
        Some (case v of VInt _ \<Rightarrow> True | VBool _ \<Rightarrow> True | VFloat _ \<Rightarrow> True | _ \<Rightarrow> False)
      else if type_name = ''boolean'' then Some (case v of VBool _ \<Rightarrow> True | _ \<Rightarrow> False)
      else if type_name = ''array'' then Some (case v of VList _ \<Rightarrow> True | VTuple _ \<Rightarrow> True | _ \<Rightarrow> False)
      else if type_name = ''object'' then Some (as_mapping v \<noteq> None)
      else None)"

fun is_bool :: "pyval \<Rightarrow> bool" where
  "is_bool (VBool _) = True"
| "is_bool _ = False"

definition validate_input_type :: "string \<Rightarrow> pyval \<Rightarrow> string \<Rightarrow> unit res" where
  "validate_input_type name v expected_type =
     (case isinstance_of expected_type v of
        None \<Rightarrow> Inl (DomainValidationError
                  (''Unsupported input type '' @ py_repr expected_type @ '' for '' @ name))
      | Some ok \<Rightarrow>
          if expected_type \<in> {''integer'', ''number''} \<and> is_bool v then
            Inl (DomainValidationError
              (''Workflow input '' @ name @ '' must be '' @ expected_type @ '', not boolean''))
          else guardR (\<not> ok) (DomainValidationError
              (''Workflow input '' @ name @ '' must be of type '' @ expected_type)))"

text \<open>The requirement flag and the type name of one entry of the input schema.\<close>

definition input_specification :: "pyval \<Rightarrow> bool \<times> string option" where
  "input_specification specification =
     (case as_mapping specification of
        None \<Rightarrow> (True, None)
      | Some m \<Rightarrow>
          (map_of m ''required'' \<noteq> Some (VBool False),
           (case map_of m ''type'' of Some (VStr t) \<Rightarrow> Some t | _ \<Rightarrow> None)))"

definition validate_inputs :: "Workflow \<Rightarrow> pyval \<Rightarrow> pymap res" where
  "validate_inputs w inputs =
     (case as_mapping inputs of
        None \<Rightarrow> Inl (DomainValidationError ''Workflow inputs must be a mapping'')
      | Some m \<Rightarrow>
          bindR (forR (wf_input_schema w) (\<lambda>(input_name, specification).
            (case input_specification specification of (is_required, expected_type) \<Rightarrow>
              (case map_of m input_name of
                 None \<Rightarrow> guardR is_required (DomainValidationError
                            (''Missing required workflow input: '' @ input_name))
               | Some v \<Rightarrow>
                   (case expected_type of
                      None \<Rightarrow> Inr ()
                    | Some t \<Rightarrow> validate_input_type input_name v t)))))
          (\<lambda>_. Inr m))"

definition new_step_run ::
  "string \<Rightarrow> WorkflowRun \<Rightarrow> string \<Rightarrow> int \<Rightarrow> pymap \<Rightarrow> datetime \<Rightarrow> StepRun res" where
  "new_step_run sid r step_id attempt inputs timestamp =
     step_run_post_init
       \<lparr>sr_id = sid, sr_workflow_run_id = wr_id r, sr_step_id = step_id, sr_attempt = attempt,
        sr_idempotency_key = wr_id r @ '':'' @ step_id @ '':'' @ int_str attempt,
        sr_inputs = inputs, sr_status = Step_CREATED, sr_outputs = [], sr_error_code = None,
        sr_row_version = 0, sr_created_at = timestamp, sr_updated_at = timestamp,
        sr_started_at = None, sr_finished_at = None\<rparr>"

definition create_workflow_run ::
  "coordinator_env \<Rightarrow> Workflow \<Rightarrow> string \<Rightarrow> string \<Rightarrow> string \<Rightarrow> pyval \<Rightarrow> string \<Rightarrow> nat \<Rightarrow> nat \<Rightarrow>
   world res" where
  "create_workflow_run env w project_id actor_user_id idempotency_key inputs agent_profile_ref
     ticks ids =
     bindR (validate_inputs w inputs)
     (\<lambda>m. let timestamp = ce_clock env ticks in
       bindR (workflow_run_post_init
         \<lparr>wr_id = ce_id_factory env ''run'' ids, wr_project_id = project_id,
          wr_workflow_id = wf_id w, wr_workflow_version = wf_version w,
          wr_actor_user_id = actor_user_id, wr_idempotency_key = idempotency_key,
          wr_inputs = m, wr_status = Run_CREATED, wr_outputs = [], wr_wait_reason = None,
          wr_error_code = None, wr_row_version = 0, wr_created_at = timestamp,
          wr_updated_at = timestamp\<rparr>)
     (\<lambda>r. bindR (agent_session_post_init
         \<lparr>as_id = ce_id_factory env ''agent'' (ids + 1), as_project_id = project_id,
          as_workflow_run_id = wr_id r, as_agent_profile_ref = agent_profile_ref,
          as_role = ''primary'', as_status = Agent_CREATED, as_state = [], as_row_version = 0,
          as_created_at = timestamp, as_updated_at = timestamp\<rparr>)
     (\<lambda>a. bindR (mapR (\<lambda>(i, s). new_step_run (ce_id_factory env ''step_run'' i) r (ws_id s) 1 []
                   timestamp) (enumerate (ids + 2) (wf_steps w)))
     (\<lambda>srs. (case create_checkpoint env
              \<lparr>w_exec = \<lparr>ex_workflow = w, ex_workflow_run = r, ex_agent_session = a,
                         ex_step_runs = srs, ex_checkpoints = []\<rparr>,
               w_ticks = ticks + 1, w_ids = ids + 2 + length srs\<rparr> of
            (Inl e, _) \<Rightarrow> Inl e
          | (Inr _, world) \<Rightarrow> Inr world)))))"

section \<open>Transitions of the aggregate\<close>

definition start_execution :: "coordinator_env \<Rightarrow> (world, Checkpoint) op" where
  "start_execution env =
     bindE (read_clock env)
     (\<lambda>timestamp. thenE (run_to Run_INITIALIZING timestamp None None)
       (thenE (agent_to Agent_INITIALIZING timestamp)
       (thenE (run_to Run_RUNNING timestamp None None)
       (thenE (agent_to Agent_ACTIVE timestamp)
       (create_checkpoint env)))))"

definition require_running :: "string \<Rightarrow> (world, unit) op" where
  "require_running action =
     guardE (\<lambda>w. wr_status (ex_workflow_run (w_exec w)) \<noteq> Run_RUNNING)
       (\<lambda>w. InvalidStateTransition ''WorkflowRun'' (wr_id (ex_workflow_run (w_exec w)))
              (run_status_value (wr_status (ex_workflow_run (w_exec w)))) action)"

definition after_waiting :: "coordinator_env \<Rightarrow> string \<Rightarrow> datetime \<Rightarrow> (world, Checkpoint option) op" where
  "after_waiting env step_id timestamp =
     thenE (run_to Run_WAITING_FOR_APPROVAL timestamp (Some (''approval:'' @ step_id)) None)
     (thenE (agent_to Agent_WAITING timestamp)
     (bindE (create_checkpoint env) (\<lambda>p. returnE (Some p))))"

definition after_failed ::
  "coordinator_env \<Rightarrow> string \<Rightarrow> nat \<Rightarrow> datetime \<Rightarrow> string option \<Rightarrow> bool \<Rightarrow>
   (world, Checkpoint option) op" where
  "after_failed env step_id i timestamp error_code retryable =
     bindE (readE (\<lambda>w. workflow_get_step (ex_workflow (w_exec w)) step_id))
     (\<lambda>workflow_step. bindE (getsE (\<lambda>w. sr_attempt (ex_step_runs (w_exec w) ! i)))
     (\<lambda>attempt. thenE
        (if retryable \<and> attempt < ws_max_attempts workflow_step then
           thenE (run_to Run_RETRY_SCHEDULED timestamp (Some (''retry:'' @ step_id)) None)
             (agent_to Agent_WAITING timestamp)
         else
           thenE (run_to Run_FAILED timestamp None
                    (Some (case error_code of
                       None \<Rightarrow> ''STEP_FAILED''
                     | Some c \<Rightarrow> if c = [] then ''STEP_FAILED'' else c)))
             (agent_to Agent_FAILED timestamp))
        (bindE (create_checkpoint env) (\<lambda>p. returnE (Some p)))))"

definition after_cancelled :: "coordinator_env \<Rightarrow> datetime \<Rightarrow> (world, Checkpoint option) op" where
  "after_cancelled env timestamp =
     thenE (run_to Run_CANCELLING timestamp None None)
     (thenE (agent_to Agent_CANCELLING timestamp)
     (thenE (run_to Run_CANCELLED timestamp None None)
     (thenE (agent_to Agent_CANCELLED timestamp)
     (bindE (create_checkpoint env) (\<lambda>p. returnE (Some p))))))"

definition update_step_state ::
  "coordinator_env \<Rightarrow> string \<Rightarrow> StepRunStatus \<Rightarrow> pymap option \<Rightarrow> string option \<Rightarrow> bool \<Rightarrow>
   (world, Checkpoint option) op" where
  "update_step_state env step_id target_status outputs error_code retryable =
     thenE (require_running (''UPDATE_STEP_'' @ step_status_value target_status))
     (bindE (read_clock env)
     (\<lambda>timestamp. bindE (readE (\<lambda>w. latest_step_run step_id (w_exec w)))
     (\<lambda>i. thenE (step_to i target_status (step_call_at timestamp None outputs error_code))
       (if target_status = Step_WAITING_APPROVAL then after_waiting env step_id timestamp
        else if target_status = Step_FAILED then
          after_failed env step_id i timestamp error_code retryable
        else if target_status = Step_CANCELLED then after_cancelled env timestamp
        else if target_status = Step_COMPLETED then
          bindE (create_checkpoint env) (\<lambda>p. returnE (Some p))
        else returnE None))))"

definition mark_step_ready ::
  "coordinator_env \<Rightarrow> string \<Rightarrow> pymap option \<Rightarrow> bool \<Rightarrow> (world, Checkpoint option) op" where
  "mark_step_ready env step_id inputs checkpoint =
     thenE (require_running ''MARK_STEP_READY'')
     (bindE (readE (\<lambda>w. latest_step_run step_id (w_exec w)))
     (\<lambda>i. bindE (read_clock env)
     (\<lambda>timestamp. thenE (step_to i Step_READY (step_call_at timestamp inputs None None))
       (if checkpoint then bindE (create_checkpoint env) (\<lambda>p. returnE (Some p))
        else returnE None))))"

definition complete_workflow :: "coordinator_env \<Rightarrow> pymap \<Rightarrow> (world, Checkpoint) op" where
  "complete_workflow env outputs =
     bindE (readE (\<lambda>w. current_step_runs (w_exec w)))
     (\<lambda>cur. thenE (guardE (\<lambda>w. \<not> list_all (\<lambda>i. sr_status (ex_step_runs (w_exec w) ! i)
                               \<in> {Step_COMPLETED, Step_SKIPPED}) cur)
        (\<lambda>_. DomainValidationError ''Workflow cannot complete while a current step is non-successful''))
     (bindE (read_clock env)
     (\<lambda>timestamp. thenE (modifyE (\<lambda>w. set_run (workflow_run_set_outputs outputs
                                            (ex_workflow_run (w_exec w))) w))
       (thenE (run_to Run_COMPLETED timestamp None None)
       (thenE (agent_to Agent_COMPLETED timestamp)
       (create_checkpoint env))))))"

text \<open>\<open>for step_run in current_step_runs(): if not terminal: transition_to(CANCELLED)\<close>\<close>

definition cancel_open_steps :: "datetime \<Rightarrow> nat list \<Rightarrow> (world, unit) op" where
  "cancel_open_steps timestamp cur =
     forE cur (\<lambda>i. bindE (getsE (\<lambda>w. sr_status (ex_step_runs (w_exec w) ! i)))
       (\<lambda>st. if step_is_terminal st then returnE ()
             else step_to i Step_CANCELLED (step_call_at timestamp None None None)))"

definition fail_execution :: "coordinator_env \<Rightarrow> string \<Rightarrow> (world, Checkpoint) op" where
  "fail_execution env error_code =
     bindE (read_clock env)
     (\<lambda>timestamp. bindE (readE (\<lambda>w. current_step_runs (w_exec w)))
     (\<lambda>cur. thenE (cancel_open_steps timestamp cur)
       (thenE (run_to Run_FAILED timestamp None (Some error_code))
       (thenE (agent_to Agent_FAILED timestamp)
       (create_checkpoint env)))))"

definition cancel_execution :: "coordinator_env \<Rightarrow> (world, Checkpoint) op" where
  "cancel_execution env =
     thenE (guardE (\<lambda>w. run_is_terminal (wr_status (ex_workflow_run (w_exec w))))
       (\<lambda>w. ExecutionNotResumableError
          (''Terminal WorkflowRun '' @ wr_id (ex_workflow_run (w_exec w)) @ '' cannot be cancelled'')))
     (bindE (read_clock env)
     (\<lambda>timestamp. bindE (readE (\<lambda>w. current_step_runs (w_exec w)))
     (\<lambda>cur. thenE (cancel_open_steps timestamp cur)
       (thenE (run_to Run_CANCELLING timestamp None None)
       (thenE (agent_to Agent_CANCELLING timestamp)
       (thenE (run_to Run_CANCELLED timestamp None None)
       (thenE (agent_to Agent_CANCELLED timestamp)
       (create_checkpoint env))))))))"

section \<open>Resuming\<close>

text \<open>\<open>value.get(key)\<close> on a decoded JSON value.\<close>

fun py_get :: "pyval \<Rightarrow> string \<Rightarrow> pyval res" where
  "py_get (VDict m) k = Inr (case map_of m k of None \<Rightarrow> VNone | Some v \<Rightarrow> v)"
| "py_get (VProxy m) k = Inr (case map_of m k of None \<Rightarrow> VNone | Some v \<Rightarrow> v)"
| "py_get _ k = Inl PyAttributeError"

text \<open>\<open>state.get(key, {})\<close>\<close>

definition get_or_empty :: "pymap \<Rightarrow> string \<Rightarrow> pyval" where
  "get_or_empty state k = (case map_of state k of None \<Rightarrow> VDict [] | Some v \<Rightarrow> v)"

text \<open>\<open>value == n\<close> for an integer \<open>n\<close>; \<open>True\<close> and \<open>False\<close> equal 1 and 0.\<close>

fun py_eq_int :: "pyval \<Rightarrow> int \<Rightarrow> bool" where
  "py_eq_int (VInt i) n \<longleftrightarrow> i = n"
| "py_eq_int (VBool b) n \<longleftrightarrow> (if b then 1 else 0) = n"
| "py_eq_int _ n \<longleftrightarrow> False"

text \<open>\<open>if value.get(key) != expected: raise\<close>\<close>

definition require_str :: "pyval \<Rightarrow> string \<Rightarrow> string \<Rightarrow> string \<Rightarrow> unit res" where
  "require_str v k expected message =
     bindR (py_get v k) (\<lambda>u. guardR (u \<noteq> VStr expected) (CheckpointMismatchError message))"

definition require_int :: "pyval \<Rightarrow> string \<Rightarrow> int \<Rightarrow> string \<Rightarrow> unit res" where
  "require_int v k expected message =
     bindR (py_get v k) (\<lambda>u. guardR (\<not> py_eq_int u expected) (CheckpointMismatchError message))"

text \<open>The dictionary \<open>{item["id"]: item}\<close> over the dictionary items with a string id.\<close>

definition steps_by_id :: "pyval list \<Rightarrow> (string \<times> pymap) list" where
  "steps_by_id items =
     fold (\<lambda>item d. case item of
             VDict m \<Rightarrow> (case map_of m ''id'' of Some (VStr i) \<Rightarrow> dict_set i m d | _ \<Rightarrow> d)
           | _ \<Rightarrow> d) items []"

definition check_step_state :: "(string \<times> pymap) list \<Rightarrow> StepRun \<Rightarrow> unit res" where
  "check_step_state by_id s =
     (case map_of by_id (sr_id s) of
        None \<Rightarrow> Inl (CheckpointMismatchError (''Checkpoint is missing StepRun '' @ sr_id s))
      | Some m \<Rightarrow>
          bindR (require_str (VDict m) ''status'' (step_status_value (sr_status s))
                   (''Checkpoint StepRun '' @ sr_id s @ '' state is stale''))
            (\<lambda>_. require_int (VDict m) ''row_version'' (sr_row_version s)
                   (''Checkpoint StepRun '' @ sr_id s @ '' state is stale'')))"

definition check_step_states :: "ExecutionState \<Rightarrow> pymap \<Rightarrow> unit res" where
  "check_step_states x state =
     (case map_of state ''step_runs'' of
        Some (VList items) \<Rightarrow>
          (let by_id = steps_by_id items in
           if length by_id \<noteq> length (ex_step_runs x) then
             Inl (CheckpointMismatchError ''Checkpoint StepRun collection is stale'')
           else forR (ex_step_runs x) (check_step_state by_id))
      | _ \<Rightarrow> Inl (CheckpointMismatchError ''Checkpoint has no valid StepRun state list''))"

definition check_aggregate_state :: "ExecutionState \<Rightarrow> pymap \<Rightarrow> unit res" where
  "check_aggregate_state x state =
     (let workflow_state = get_or_empty state ''workflow'';
          run_state = get_or_empty state ''workflow_run'';
          session_state = get_or_empty state ''agent_session'';
          w = ex_workflow x; r = ex_workflow_run x; a = ex_agent_session x in
      bindR (require_str workflow_state ''id'' (wf_id w) ''Checkpoint pins another Workflow version'')
      (\<lambda>_. bindR (require_str workflow_state ''version'' (wf_version w)
                    ''Checkpoint pins another Workflow version'')
      (\<lambda>_. bindR (require_str run_state ''id'' (wr_id r) ''Checkpoint WorkflowRun state is stale'')
      (\<lambda>_. bindR (require_str run_state ''status'' (run_status_value (wr_status r))
                    ''Checkpoint WorkflowRun state is stale'')
      (\<lambda>_. bindR (require_int run_state ''row_version'' (wr_row_version r)
                    ''Checkpoint WorkflowRun version is stale'')
      (\<lambda>_. bindR (require_str session_state ''id'' (as_id a) ''Checkpoint AgentSession state is stale'')
      (\<lambda>_. bindR (require_str session_state ''status'' (agent_status_value (as_status a))
                    ''Checkpoint AgentSession state is stale'')
      (\<lambda>_. require_int session_state ''row_version'' (as_row_version a)
              ''Checkpoint AgentSession version is stale''))))))))"

definition validate_checkpoint ::
  "coordinator_env \<Rightarrow> Checkpoint \<Rightarrow> ExecutionState \<Rightarrow> pymap res" where
  "validate_checkpoint env p x =
     bindR (latest_checkpoint x)
     (\<lambda>latest. bindR (guardR (cp_id p \<noteq> cp_id latest)
                 (CheckpointMismatchError ''Only the latest checkpoint may be resumed''))
     (\<lambda>_. bindR (guardR (cp_workflow_run_id p \<noteq> wr_id (ex_workflow_run x))
            (CheckpointMismatchError ''Checkpoint belongs to another WorkflowRun''))
     (\<lambda>_. bindR (guardR (cp_agent_session_id p \<noteq> as_id (ex_agent_session x))
            (CheckpointMismatchError ''Checkpoint belongs to another AgentSession''))
     (\<lambda>_. bindR (restore_state (ce_sha256 env) p)
     (\<lambda>state. bindR (check_aggregate_state x state)
     (\<lambda>_. bindR (check_step_states x state) (\<lambda>_. Inr state)))))))"

definition step_with_status :: "StepRunStatus \<Rightarrow> ExecutionState \<Rightarrow> nat res" where
  "step_with_status status x =
     bindR (current_step_runs x)
     (\<lambda>cur. (case filter (\<lambda>i. sr_status (ex_step_runs x ! i) = status) cur of
        [i] \<Rightarrow> Inr i
      | matches \<Rightarrow> Inl (CheckpointMismatchError
          (''Expected one current step in '' @ step_status_value status @ ''; found '' @
           nat_str (length matches)))))"

definition back_to_running :: "datetime \<Rightarrow> (world, unit) op" where
  "back_to_running timestamp =
     thenE (run_to Run_RUNNING timestamp None None) (agent_to Agent_ACTIVE timestamp)"

text \<open>A further attempt of the step run at position \<open>i\<close>, created and made ready.\<close>

definition add_retry_attempt :: "coordinator_env \<Rightarrow> nat \<Rightarrow> datetime \<Rightarrow> (world, nat) op" where
  "add_retry_attempt env i timestamp =
     bindE (new_id env ''step_run'')
     (\<lambda>sid. bindE (getsE w_exec)
     (\<lambda>x. let old = ex_step_runs x ! i in
       bindE (readE (\<lambda>_. bindR (new_step_run sid (ex_workflow_run x) (sr_step_id old)
                 (sr_attempt old + 1) (thaw_map (sr_inputs old)) timestamp)
               (step_run_transition_to Step_READY (step_call_at timestamp None None None))))
       (\<lambda>s. thenE (modifyE (add_step s))
         (bindE (create_checkpoint env) (\<lambda>_. returnE (length (ex_step_runs x)))))))"

definition resume_waiting_approval :: "coordinator_env \<Rightarrow> datetime \<Rightarrow> (world, nat option) op" where
  "resume_waiting_approval env timestamp =
     bindE (readE (\<lambda>w. step_with_status Step_WAITING_APPROVAL (w_exec w)))
     (\<lambda>i. thenE (back_to_running timestamp)
       (thenE (step_to i Step_RUNNING (step_call_at timestamp None None None))
       (thenE (create_checkpoint env) (returnE (Some i)))))"

definition resume_waiting_input :: "coordinator_env \<Rightarrow> datetime \<Rightarrow> (world, nat option) op" where
  "resume_waiting_input env timestamp =
     thenE (back_to_running timestamp) (thenE (create_checkpoint env) (returnE None))"

text \<open>\<open>wait_reason = state["workflow_run"].get("wait_reason")\<close> of a retry checkpoint.\<close>

definition retry_step_id :: "pymap \<Rightarrow> string res" where
  "retry_step_id state =
     bindR (case map_of state ''workflow_run'' of
              None \<Rightarrow> Inl (PyKeyError ''workflow_run'')
            | Some v \<Rightarrow> py_get v ''wait_reason'')
     (\<lambda>reason. case reason of
          VStr t \<Rightarrow>
            if startswith t ''retry:'' then Inr (removeprefix t ''retry:'')
            else Inl (CheckpointMismatchError
                   ''Retry checkpoint does not identify the failed workflow step'')
        | _ \<Rightarrow> Inl (CheckpointMismatchError
                   ''Retry checkpoint does not identify the failed workflow step''))"

definition resume_retry :: "coordinator_env \<Rightarrow> pymap \<Rightarrow> datetime \<Rightarrow> (world, nat option) op" where
  "resume_retry env state timestamp =
     bindE (readE (\<lambda>_. retry_step_id state))
     (\<lambda>step_id. bindE (readE (\<lambda>w. latest_step_run step_id (w_exec w)))
     (\<lambda>i. thenE (guardE (\<lambda>w. sr_status (ex_step_runs (w_exec w) ! i) \<noteq> Step_FAILED)
              (\<lambda>_. CheckpointMismatchError
                 (''Retry checkpoint step '' @ step_id @ '' is not in FAILED state'')))
       (bindE (readE (\<lambda>w. workflow_get_step (ex_workflow (w_exec w)) step_id))
       (\<lambda>ws. thenE (guardE (\<lambda>w. ws_max_attempts ws \<le> sr_attempt (ex_step_runs (w_exec w) ! i))
              (\<lambda>_. ExecutionNotResumableError
                 (''Step '' @ step_id @ '' has exhausted its retry attempts'')))
         (thenE (back_to_running timestamp)
         (bindE (add_retry_attempt env i timestamp) (\<lambda>j. returnE (Some j))))))))"

definition resume_interrupted :: "coordinator_env \<Rightarrow> datetime \<Rightarrow> (world, nat option) op" where
  "resume_interrupted env timestamp =
     bindE (readE (\<lambda>w. current_step_runs (w_exec w)))
     (\<lambda>cur. bindE (getsE (\<lambda>w. filter (\<lambda>i. sr_status (ex_step_runs (w_exec w) ! i) = Step_RUNNING) cur))
     (\<lambda>active. case active of
          [] \<Rightarrow> returnE None
        | _ # _ # _ \<Rightarrow> raiseE (CheckpointMismatchError ''V1 checkpoint contains more than one active step'')
        | [i] \<Rightarrow>
            bindE (getsE (\<lambda>w. ex_step_runs (w_exec w) ! i))
            (\<lambda>interrupted. bindE (readE (\<lambda>w. workflow_get_step (ex_workflow (w_exec w))
                                            (sr_step_id interrupted)))
            (\<lambda>ws. thenE (step_to i Step_FAILED (step_call_at timestamp None None (Some ''INTERRUPTED'')))
              (if ws_max_attempts ws \<le> sr_attempt interrupted then
                 thenE (run_to Run_FAILED timestamp None (Some ''INTERRUPTED_RETRY_EXHAUSTED''))
                 (thenE (agent_to Agent_FAILED timestamp)
                 (thenE (create_checkpoint env)
                 (raiseE (ExecutionNotResumableError
                    (''Interrupted step '' @ sr_step_id interrupted @ '' has no retry remaining'')))))
               else bindE (add_retry_attempt env i timestamp) (\<lambda>j. returnE (Some j)))))))"

definition resume_from_checkpoint :: "coordinator_env \<Rightarrow> Checkpoint \<Rightarrow> (world, nat option) op" where
  "resume_from_checkpoint env p =
     bindE (readE (\<lambda>w. validate_checkpoint env p (w_exec w)))
     (\<lambda>state. bindE (read_clock env)
     (\<lambda>timestamp. bindE (getsE (\<lambda>w. wr_status (ex_workflow_run (w_exec w))))
     (\<lambda>run_status.
        if run_status = Run_WAITING_FOR_APPROVAL then resume_waiting_approval env timestamp
        else if run_status = Run_WAITING_FOR_INPUT then resume_waiting_input env timestamp
        else if run_status = Run_RETRY_SCHEDULED then resume_retry env state timestamp
        else if run_status = Run_RUNNING then resume_interrupted env timestamp
        else raiseE (ExecutionNotResumableError
               (''WorkflowRun in '' @ run_status_value run_status @ '' cannot resume from a checkpoint'')))))"

end
