(* ===== verification/Execution_Inv.thy ===== *)
theory Execution_Inv
  imports Execution
begin

text \<open>
  What the coordinator keeps of an execution aggregate. The commands of the coordinator form
  one type, a history is a sequence of them, and \<open>coord_reach\<close> holds of every aggregate a
  history leads to, through the commands that return and those that raise. The locale
  \<open>coord_invariant\<close> is the contract between the coordinator and an invariant of the
  aggregate: closed under the few ways in which the coordinator changes its parts, a
  predicate holds of every reachable aggregate. It is interpreted for the lockstep of run and
  agent session, for the attempts of the steps and for the chain of checkpoints.
\<close>

section \<open>Commands and reachable aggregates\<close>

datatype coord_cmd =
  Cmd_start
| Cmd_update string StepRunStatus "pymap option" "string option" bool
| Cmd_ready string "pymap option" bool
| Cmd_complete pymap
| Cmd_fail string
| Cmd_cancel
| Cmd_checkpoint
| Cmd_resume Checkpoint

fun coord_do :: "coordinator_env \<Rightarrow> coord_cmd \<Rightarrow> (world, unit) op" where
  "coord_do env Cmd_start = thenE (start_execution env) (returnE ())"
| "coord_do env (Cmd_update s t out err retryable) =
     thenE (update_step_state env s t out err retryable) (returnE ())"
| "coord_do env (Cmd_ready s inp chk) = thenE (mark_step_ready env s inp chk) (returnE ())"
| "coord_do env (Cmd_complete out) = thenE (complete_workflow env out) (returnE ())"
| "coord_do env (Cmd_fail err) = thenE (fail_execution env err) (returnE ())"
| "coord_do env Cmd_cancel = thenE (cancel_execution env) (returnE ())"
| "coord_do env Cmd_checkpoint = thenE (create_checkpoint env) (returnE ())"
| "coord_do env (Cmd_resume p) = thenE (resume_from_checkpoint env p) (returnE ())"

inductive coord_reach :: "coordinator_env \<Rightarrow> world \<Rightarrow> bool" for env where
  reach_new: "workflow_valid w0 \<Longrightarrow>
    create_workflow_run env w0 project actor key inputs profile ticks ids = Inr w \<Longrightarrow>
    coord_reach env w"
| reach_call: "coord_reach env w \<Longrightarrow> coord_do env cmd w = (r, w') \<Longrightarrow> coord_reach env w'"

section \<open>The latest attempt of a step\<close>

lemma latest_index_Some:
  assumes "latest_index srs s = Some i"
  shows "i < length srs" and "sr_step_id (srs ! i) = s"
    and "\<And>j. j < length srs \<Longrightarrow> sr_step_id (srs ! j) = s \<Longrightarrow> sr_attempt (srs ! j) \<le> sr_attempt (srs ! i)"
proof -
  note a = assms [unfolded latest_index_def]
  from first_max_in [OF a] show "i < length srs" and "sr_step_id (srs ! i) = s" by auto
  fix j assume "j < length srs" and "sr_step_id (srs ! j) = s"
  with first_max_ge [OF a, of j] show "sr_attempt (srs ! j) \<le> sr_attempt (srs ! i)" by simp
qed

lemma latest_index_None: "latest_index srs s = None \<longleftrightarrow> s \<notin> sr_step_id ` set srs"
proof -
  have "latest_index srs s = None \<longleftrightarrow> (\<forall>r \<in> set srs. sr_step_id r \<noteq> s)"
    unfolding latest_index_def first_max_None filter_empty_conv all_set_conv_all_nth by auto
  then show ?thesis by auto
qed

text \<open>A step run that keeps its step and attempt leaves every latest position where it was.\<close>

lemma latest_index_update:
  assumes "sr_step_id s' = sr_step_id (srs ! i)" and "sr_attempt s' = sr_attempt (srs ! i)"
  shows "latest_index (srs[i := s']) s = latest_index srs s"
proof -
  have same: "sr_step_id (srs[i := s'] ! j) = sr_step_id (srs ! j) \<and>
      sr_attempt (srs[i := s'] ! j) = sr_attempt (srs ! j)" for j
    using assms by (cases "i < length srs"; cases "j = i") (simp_all add: list_update_beyond)
  have "filter (\<lambda>j. sr_step_id (srs[i := s'] ! j) = s) [0..<length srs] =
        filter (\<lambda>j. sr_step_id (srs ! j) = s) [0..<length srs]" by (simp add: same)
  moreover have "first_max (\<lambda>j. sr_attempt (srs[i := s'] ! j)) js =
      first_max (\<lambda>j. sr_attempt (srs ! j)) js" for js by (simp add: same)
  ultimately show ?thesis unfolding latest_index_def by auto
qed

lemma latest_step_run_Inr: "latest_step_run s x = Inr i \<longleftrightarrow> latest_index (ex_step_runs x) s = Some i"
  by (auto simp: latest_step_run_def split: option.splits)

lemma current_step_runs_Inr:
  "current_step_runs x = Inr cur \<longleftrightarrow>
     map (\<lambda>s. latest_index (ex_step_runs x) (ws_id s)) (wf_steps (ex_workflow x)) = map Some cur"
  unfolding current_step_runs_def mapR_Inr_iff latest_step_run_Inr
  by (auto simp: list_eq_iff_nth_eq list_all2_conv_all_nth)

lemma current_step_runs_latest:
  "current_step_runs x = Inr cur \<Longrightarrow> i \<in> set cur \<Longrightarrow>
     latest_index (ex_step_runs x) (sr_step_id (ex_step_runs x ! i)) = Some i"
proof -
  assume "current_step_runs x = Inr cur" and "i \<in> set cur"
  then obtain k where "latest_index (ex_step_runs x) (ws_id (wf_steps (ex_workflow x) ! k)) = Some i"
    unfolding current_step_runs_def mapR_Inr_iff latest_step_run_Inr list_all2_conv_all_nth
      in_set_conv_nth by auto
  with latest_index_Some(2) [OF this] show ?thesis by simp
qed

lemma step_with_status_Inr:
  assumes "step_with_status st x = Inr i"
  shows "latest_index (ex_step_runs x) (sr_step_id (ex_step_runs x ! i)) = Some i"
    and "sr_status (ex_step_runs x ! i) = st"
proof -
  from assms obtain cur where cur: "current_step_runs x = Inr cur"
    and "(case filter (\<lambda>i. sr_status (ex_step_runs x ! i) = st) cur of [i] \<Rightarrow> Inr i
      | matches \<Rightarrow> Inl (CheckpointMismatchError
          (''Expected one current step in '' @ step_status_value st @ ''; found '' @
           nat_str (length matches)))) = Inr i"
    unfolding step_with_status_def bindR_Inr_iff by blast
  then have "filter (\<lambda>i. sr_status (ex_step_runs x ! i) = st) cur = [i]"
    by (cases "filter (\<lambda>i. sr_status (ex_step_runs x ! i) = st) cur";
        cases "tl (filter (\<lambda>i. sr_status (ex_step_runs x ! i) = st) cur)") simp_all
  then have "i \<in> set (filter (\<lambda>i. sr_status (ex_step_runs x ! i) = st) cur)" by simp
  then have "i \<in> set cur" and "sr_status (ex_step_runs x ! i) = st" by auto
  with current_step_runs_latest [OF cur]
  show "latest_index (ex_step_runs x) (sr_step_id (ex_step_runs x ! i)) = Some i"
    and "sr_status (ex_step_runs x ! i) = st" by auto
qed

section \<open>The contract of an invariant\<close>

text \<open>The session status that goes with a status of the run.\<close>

fun agent_for :: "WorkflowRunStatus \<Rightarrow> AgentSessionStatus" where
  "agent_for Run_CREATED = Agent_CREATED"
| "agent_for Run_INITIALIZING = Agent_INITIALIZING"
| "agent_for Run_RUNNING = Agent_ACTIVE"
| "agent_for Run_WAITING_FOR_APPROVAL = Agent_WAITING"
| "agent_for Run_WAITING_FOR_INPUT = Agent_WAITING"
| "agent_for Run_RETRY_SCHEDULED = Agent_WAITING"
| "agent_for Run_COMPLETED = Agent_COMPLETED"
| "agent_for Run_FAILED = Agent_FAILED"
| "agent_for Run_CANCELLING = Agent_CANCELLING"
| "agent_for Run_CANCELLED = Agent_CANCELLED"

definition run_call_at :: "datetime \<Rightarrow> string option \<Rightarrow> string option \<Rightarrow> run_call" where
  "run_call_at ts reason code =
     \<lparr>rc_utc = ts, rc_at = Some ts, rc_wait_reason = reason, rc_error_code = code\<rparr>"

definition agent_call_at :: "datetime \<Rightarrow> agent_call" where
  "agent_call_at ts = \<lparr>ac_utc = ts, ac_at = Some ts\<rparr>"

definition retry_step_run ::
  "string \<Rightarrow> WorkflowRun \<Rightarrow> StepRun \<Rightarrow> datetime \<Rightarrow> StepRun res" where
  "retry_step_run sid r old ts =
     bindR (new_step_run sid r (sr_step_id old) (sr_attempt old + 1) (thaw_map (sr_inputs old)) ts)
       (step_run_transition_to Step_READY (step_call_at ts None None None))"

lemmas world_defs = set_run_def set_agent_def set_step_def add_step_def add_checkpoint_def

text \<open>The checkpoint the aggregate would record now, and the effect of recording it.\<close>

definition next_checkpoint :: "coordinator_env \<Rightarrow> string \<Rightarrow> datetime \<Rightarrow> ExecutionState \<Rightarrow> Checkpoint res" where
  "next_checkpoint env cid now x =
     checkpoint_create (ce_sha256 env) cid (wr_id (ex_workflow_run x)) (as_id (ex_agent_session x))
       (int (length (ex_checkpoints x)) + 1) (VDict (snapshot x)) now
       (if ex_checkpoints x = [] then None else Some (cp_id (last (ex_checkpoints x))))"

lemma create_checkpoint_apply:
  "create_checkpoint env w =
     (let w1 = w\<lparr>w_ticks := Suc (w_ticks w), w_ids := Suc (w_ids w)\<rparr> in
      (case next_checkpoint env (ce_id_factory env ''checkpoint'' (w_ids w))
              (ce_clock env (w_ticks w)) (w_exec w) of
         Inl e \<Rightarrow> (Inl e, w1)
       | Inr p \<Rightarrow> (Inr p, add_checkpoint p w1)))"
  by (simp add: create_checkpoint_def next_checkpoint_def op_simps new_id_def read_clock_def
      add_checkpoint_def Let_def split: sum.splits)

locale coord_invariant =
  fixes env :: coordinator_env and I :: "ExecutionState \<Rightarrow> bool"
  assumes created: "workflow_valid w0 \<Longrightarrow>
      create_workflow_run env w0 project actor key inputs profile ticks ids = Inr w \<Longrightarrow> I (w_exec w)"
    and moved: "I x \<Longrightarrow>
      workflow_run_transition_to t (run_call_at ts reason code) (ex_workflow_run x) = Inr r \<Longrightarrow>
      agent_session_transition_to (agent_for t) (agent_call_at ts) (ex_agent_session x) = Inr a \<Longrightarrow>
      I (x\<lparr>ex_workflow_run := r, ex_agent_session := a\<rparr>)"
    and half_moved: "I x \<Longrightarrow>
      workflow_run_transition_to t (run_call_at ts reason code) (ex_workflow_run x) = Inr r \<Longrightarrow>
      agent_session_transition_to (agent_for t) (agent_call_at ts) (ex_agent_session x) = Inl e \<Longrightarrow>
      I (x\<lparr>ex_workflow_run := r\<rparr>)"
    and outputs_set: "I x \<Longrightarrow>
      I (x\<lparr>ex_workflow_run := workflow_run_set_outputs result (ex_workflow_run x)\<rparr>)"
    and step_moved: "I x \<Longrightarrow> latest_index (ex_step_runs x) s = Some i \<Longrightarrow>
      step_run_transition_to st (step_call_at ts inp out err) (ex_step_runs x ! i) = Inr r' \<Longrightarrow>
      I (x\<lparr>ex_step_runs := (ex_step_runs x)[i := r']\<rparr>)"
    and attempt_added: "I x \<Longrightarrow> latest_index (ex_step_runs x) s = Some i \<Longrightarrow>
      sr_status (ex_step_runs x ! i) = Step_FAILED \<Longrightarrow>
      workflow_get_step (ex_workflow x) s = Inr ws \<Longrightarrow>
      sr_attempt (ex_step_runs x ! i) < ws_max_attempts ws \<Longrightarrow>
      retry_step_run sid (ex_workflow_run x) (ex_step_runs x ! i) ts = Inr r' \<Longrightarrow>
      I (x\<lparr>ex_step_runs := ex_step_runs x @ [r']\<rparr>)"
    and checkpointed: "I x \<Longrightarrow> next_checkpoint env cid now x = Inr p \<Longrightarrow>
      I (x\<lparr>ex_checkpoints := ex_checkpoints x @ [p]\<rparr>)"
begin

text \<open>The invariant with a fact about the workflow and the step runs.\<close>

definition keep :: "(Workflow \<Rightarrow> StepRun list \<Rightarrow> bool) \<Rightarrow> world \<Rightarrow> bool" where
  "keep F w \<longleftrightarrow> I (w_exec w) \<and> F (ex_workflow (w_exec w)) (ex_step_runs (w_exec w))"

abbreviation inv :: "world \<Rightarrow> bool" where
  "inv w \<equiv> I (w_exec w)"

lemma keep_True: "keep (\<lambda>_ _. True) = inv"
  by (auto simp: keep_def fun_eq_iff)

lemma read_clock_keeps: "hoareE (keep F) (read_clock env) (\<lambda>_. keep F) (\<lambda>_. inv)"
  by (auto simp: hoareE_def read_clock_def keep_def)

lemma new_id_keeps: "hoareE (keep F) (new_id env s) (\<lambda>_. keep F) (\<lambda>_. inv)"
  by (auto simp: hoareE_def new_id_def keep_def)

lemma pair_keeps:
  assumes "a = agent_for t"
  shows "hoareE (keep F) (thenE (run_to t ts reason code) (agent_to a ts)) (\<lambda>_. keep F) (\<lambda>_. inv)"
proof (rule hoareE_I)
  fix w res w'
  assume P: "keep F w" and "thenE (run_to t ts reason code) (agent_to a ts) w = (Inr res, w')"
  then obtain r ag where r: "workflow_run_transition_to t (run_call_at ts reason code)
      (ex_workflow_run (w_exec w)) = Inr r"
    and ag: "agent_session_transition_to (agent_for t) (agent_call_at ts)
      (ex_agent_session (w_exec w)) = Inr ag"
    and w': "w' = set_agent ag (set_run r w)"
    by (auto simp: thenE_returned run_to_def agent_to_def updE_apply bindR_Inr_iff assms
        run_call_at_def agent_call_at_def set_run_def split: sum.splits)
  from moved [OF _ r ag] P show "keep F w'" by (auto simp: keep_def w' world_defs)
next
  fix w e w'
  assume P: "keep F w" and "thenE (run_to t ts reason code) (agent_to a ts) w = (Inl e, w')"
  then consider "w' = w"
    | r e' where "workflow_run_transition_to t (run_call_at ts reason code)
      (ex_workflow_run (w_exec w)) = Inr r"
      "agent_session_transition_to (agent_for t) (agent_call_at ts)
      (ex_agent_session (w_exec w)) = Inl e'" "w' = set_run r w"
    by (fastforce simp: op_simps run_to_def agent_to_def bindR_Inr_iff bindR_Inl_iff assms
        run_call_at_def agent_call_at_def set_run_def split: sum.splits prod.splits)
  then show "inv w'"
  proof cases
    case 1 with P show ?thesis by (simp add: keep_def)
  next
    case 2 with half_moved [OF _ 2(1,2)] P show ?thesis by (simp add: keep_def world_defs)
  qed
qed

lemma pair_then:
  assumes "a = agent_for t" and "hoareE (keep F) n Q (\<lambda>_. inv)"
  shows "hoareE (keep F) (thenE (run_to t ts reason code) (thenE (agent_to a ts) n)) Q (\<lambda>_. inv)"
proof -
  have "thenE (run_to t ts reason code) (thenE (agent_to a ts) n) =
      thenE (thenE (run_to t ts reason code) (agent_to a ts)) n"
    by (rule ext) (simp add: op_simps split: prod.splits sum.splits)
  with hoareE_then [OF pair_keeps [OF assms(1)] assms(2)] show ?thesis by simp
qed

text \<open>A transition of a latest attempt keeps the latest positions.\<close>

definition latest_at :: "nat \<Rightarrow> Workflow \<Rightarrow> StepRun list \<Rightarrow> bool" where
  "latest_at i w srs \<longleftrightarrow> (\<exists>s. latest_index srs s = Some i)"

lemma step_to_keeps:
  assumes "\<And>w srs. F w srs \<Longrightarrow> latest_at i w srs"
    and "\<And>w srs r. F w srs \<Longrightarrow> step_run_transition_to t (step_call_at ts inp out err) (srs ! i) = Inr r \<Longrightarrow>
           G w (srs[i := r])"
  shows "hoareE (keep F) (step_to i t (step_call_at ts inp out err)) (\<lambda>_. keep G) (\<lambda>_. inv)"
proof (rule hoareE_I)
  fix w res w'
  assume P: "keep F w" and "step_to i t (step_call_at ts inp out err) w = (Inr res, w')"
  then obtain r where r: "step_run_transition_to t (step_call_at ts inp out err)
      (ex_step_runs (w_exec w) ! i) = Inr r" and w': "w' = set_step i r w"
    by (auto simp: step_to_def updE_apply bindR_Inr_iff split: sum.splits)
  from P assms(1) obtain s where s: "latest_index (ex_step_runs (w_exec w)) s = Some i"
    unfolding keep_def latest_at_def by blast
  from step_moved [OF _ s r] assms(2) [OF _ r] P show "keep G w'"
    by (simp add: keep_def w' world_defs)
next
  fix w e w'
  assume "keep F w" and "step_to i t (step_call_at ts inp out err) w = (Inl e, w')"
  then show "inv w'" by (auto simp: step_to_def updE_apply keep_def split: sum.splits)
qed

lemma create_checkpoint_keeps: "hoareE (keep F) (create_checkpoint env) (\<lambda>_. keep F) (\<lambda>_. inv)"
  by (auto simp: hoareE_def create_checkpoint_apply keep_def Let_def add_checkpoint_def
      intro: checkpointed split: sum.splits)

lemma keep_weaken: "(\<And>w srs. F w srs \<Longrightarrow> G w srs) \<Longrightarrow> keep F w \<Longrightarrow> keep G w"
  by (auto simp: keep_def)

lemma hoare_weaken:
  assumes "hoareE (keep G) m Q E" and "\<And>w srs. F w srs \<Longrightarrow> G w srs"
  shows "hoareE (keep F) m Q E"
  using assms(1) by (rule hoareE_conseq) (simp_all add: keep_def assms(2))

lemma read_then:
  "(\<And>a. hoareE (keep F) (f a) Q (\<lambda>_. inv)) \<Longrightarrow> hoareE (keep F) (bindE (readE g) f) Q (\<lambda>_. inv)"
  by (rule hoareE_bind [where R = "\<lambda>_. keep F"]) (auto intro: hoareE_read simp: keep_def)

lemma gets_then:
  "(\<And>a. hoareE (keep F) (f a) Q (\<lambda>_. inv)) \<Longrightarrow> hoareE (keep F) (bindE (getsE g) f) Q (\<lambda>_. inv)"
  by (rule hoareE_bind [where R = "\<lambda>_. keep F"]) (auto intro: hoareE_gets)

lemma guard_then:
  "hoareE (keep F) n Q (\<lambda>_. inv) \<Longrightarrow> hoareE (keep F) (thenE (guardE bad ex) n) Q (\<lambda>_. inv)"
  by (rule hoareE_then [where R = "keep F"]) (auto intro: hoareE_guard simp: keep_def)

lemma create_checkpoint_done:
  "hoareE (keep F) (create_checkpoint env) (\<lambda>_. keep (\<lambda>_ _. True)) (\<lambda>_. inv)"
  by (rule hoareE_conseq [OF create_checkpoint_keeps [of F]]) (simp_all add: keep_def)

abbreviation preserves :: "(world, 'a) op \<Rightarrow> bool" where
  "preserves m \<equiv> hoareE (keep (\<lambda>_ _. True)) m (\<lambda>_. keep (\<lambda>_ _. True)) (\<lambda>_. inv)"

lemma finish_some:
  "hoareE (keep F) (bindE (create_checkpoint env) (\<lambda>p. returnE (g p))) (\<lambda>_. keep F) (\<lambda>_. inv)"
  by (rule hoareE_bind [OF create_checkpoint_keeps]) (simp add: hoareE_return)

lemma finish_const:
  "hoareE (keep F) (thenE (create_checkpoint env) (returnE c)) (\<lambda>_. keep F) (\<lambda>_. inv)"
  by (rule hoareE_then [OF create_checkpoint_keeps]) (simp add: hoareE_return)

lemma inv_of_keep: "keep F w \<Longrightarrow> inv w"
  by (simp add: keep_def)

lemma read_latest:
  "hoareE (keep (\<lambda>_ _. True)) (readE (\<lambda>w. latest_step_run s (w_exec w)))
     (\<lambda>i. keep (\<lambda>_ srs. latest_index srs s = Some i)) (\<lambda>_. inv)"
  by (auto simp: hoareE_def op_simps keep_def latest_step_run_Inr split: sum.splits)

lemma step_to_any:
  "hoareE (keep (\<lambda>_ srs. latest_index srs s = Some i))
     (step_to i t (step_call_at ts inp out err)) (\<lambda>_. keep (\<lambda>_ _. True)) (\<lambda>_. inv)"
  by (rule step_to_keeps) (auto simp: latest_at_def)

lemma start_preserves: "preserves (start_execution env)"
  unfolding start_execution_def
  by (intro hoareE_bind [OF read_clock_keeps] pair_then create_checkpoint_keeps) simp_all

lemma after_waiting_preserves: "preserves (after_waiting env s ts)"
  unfolding after_waiting_def by (intro pair_then finish_some) simp_all

lemma after_cancelled_preserves: "preserves (after_cancelled env ts)"
  unfolding after_cancelled_def by (intro pair_then finish_some) simp_all

lemma after_failed_preserves: "preserves (after_failed env s i ts err retryable)"
  unfolding after_failed_def
  by (intro read_then gets_then hoareE_then [where R = "keep (\<lambda>_ _. True)"] finish_some hoareE_if
      pair_keeps) simp_all

lemma require_running_keeps: "hoareE (keep F) (require_running a) (\<lambda>_. keep F) (\<lambda>_. inv)"
  unfolding require_running_def by (rule hoareE_guard) (auto intro: inv_of_keep)

lemma update_preserves: "preserves (update_step_state env s t out err retryable)"
  unfolding update_step_state_def
  by (intro hoareE_then [OF require_running_keeps] hoareE_bind [OF read_clock_keeps]
      hoareE_bind [OF read_latest] hoareE_then [OF step_to_any] hoareE_if after_waiting_preserves
      after_failed_preserves after_cancelled_preserves finish_some hoareE_return)

lemma mark_ready_preserves: "preserves (mark_step_ready env s inp chk)"
  unfolding mark_step_ready_def
  by (intro hoareE_then [OF require_running_keeps] hoareE_bind [OF read_clock_keeps]
      hoareE_bind [OF read_latest] hoareE_then [OF step_to_any] hoareE_if finish_some hoareE_return)

lemma complete_preserves: "preserves (complete_workflow env out)"
proof -
  have set: "hoareE (keep F) (modifyE (\<lambda>w. set_run (workflow_run_set_outputs out
      (ex_workflow_run (w_exec w))) w)) (\<lambda>_. keep F) (\<lambda>_. inv)" for F
    by (rule hoareE_modify) (auto simp: keep_def set_run_def intro: outputs_set)
  show ?thesis unfolding complete_workflow_def
    by (intro read_then guard_then hoareE_bind [OF read_clock_keeps] hoareE_then [OF set] pair_then
        create_checkpoint_done) simp_all
qed

text \<open>The loop that cancels the open steps keeps every position of the loop a latest one.\<close>

definition all_latest :: "nat list \<Rightarrow> Workflow \<Rightarrow> StepRun list \<Rightarrow> bool" where
  "all_latest cur w srs \<longleftrightarrow> (\<forall>i \<in> set cur. latest_at i w srs)"

lemma cancel_open_preserves:
  "hoareE (keep (all_latest cur)) (cancel_open_steps ts cur) (\<lambda>_. keep (all_latest cur)) (\<lambda>_. inv)"
  (is "hoareE (keep ?F) _ _ _")
  unfolding cancel_open_steps_def
proof (rule hoareE_for)
  fix i assume i: "i \<in> set cur"
  have "hoareE (keep ?F) (step_to i Step_CANCELLED (step_call_at ts None None None))
      (\<lambda>_. keep ?F) (\<lambda>_. inv)"
  proof (rule step_to_keeps)
    fix w srs assume "?F w srs" with i show "latest_at i w srs" by (auto simp: all_latest_def)
  next
    fix w srs r
    assume "?F w srs" and "step_run_transition_to Step_CANCELLED (step_call_at ts None None None)
      (srs ! i) = Inr r"
    then show "?F w (srs[i := r])"
      by (auto simp: all_latest_def latest_at_def step_run_transition_ok latest_index_update)
  qed
  then show "hoareE (keep ?F) (bindE (getsE (\<lambda>w. sr_status (ex_step_runs (w_exec w) ! i)))
      (\<lambda>st. if step_is_terminal st then returnE ()
            else step_to i Step_CANCELLED (step_call_at ts None None None))) (\<lambda>_. keep ?F) (\<lambda>_. inv)"
    by (intro hoareE_bind [OF hoareE_gets [where Q = "\<lambda>_. keep ?F"]] hoareE_if hoareE_return)
qed

lemma read_current_at:
  "hoareE (keep (\<lambda>_ _. True)) (readE (\<lambda>w. current_step_runs (w_exec w)))
     (\<lambda>cur. keep (all_latest cur)) (\<lambda>_. inv)"
  by (auto simp: hoareE_def op_simps keep_def all_latest_def latest_at_def
      dest: current_step_runs_latest split: sum.splits)

lemma fail_preserves: "preserves (fail_execution env err)"
  unfolding fail_execution_def
  by (intro hoareE_bind [OF read_clock_keeps] hoareE_bind [OF read_current_at]
      hoareE_then [OF cancel_open_preserves] pair_then create_checkpoint_done) simp_all

lemma cancel_preserves: "preserves (cancel_execution env)"
  unfolding cancel_execution_def
  by (intro guard_then hoareE_bind [OF read_clock_keeps] hoareE_bind [OF read_current_at]
      hoareE_then [OF cancel_open_preserves] pair_then create_checkpoint_done) simp_all

subsection \<open>Resuming\<close>

definition retry_ready :: "nat \<Rightarrow> Workflow \<Rightarrow> StepRun list \<Rightarrow> bool" where
  "retry_ready i w srs \<longleftrightarrow> (\<exists>s ws. latest_index srs s = Some i \<and>
     sr_status (srs ! i) = Step_FAILED \<and> workflow_get_step w s = Inr ws \<and>
     sr_attempt (srs ! i) < ws_max_attempts ws)"

lemma add_retry_preserves:
  "hoareE (keep (retry_ready i)) (add_retry_attempt env i ts) (\<lambda>_. keep (\<lambda>_ _. True)) (\<lambda>_. inv)"
proof -
  have added: "I (x\<lparr>ex_step_runs := ex_step_runs x @ [r]\<rparr>)"
    if "I x" and "retry_ready i (ex_workflow x) (ex_step_runs x)"
      and "retry_step_run sid (ex_workflow_run x) (ex_step_runs x ! i) ts = Inr r" for x sid r
    using that attempt_added unfolding retry_ready_def by blast
  show ?thesis unfolding add_retry_attempt_def
  proof (rule hoareE_bind [OF new_id_keeps], rule hoareE_bind)
    fix sid
    show "hoareE (keep (retry_ready i)) (getsE w_exec) (\<lambda>x w. keep (retry_ready i) w \<and> x = w_exec w)
        (\<lambda>_. inv)" by (simp add: hoareE_gets)
    fix x
    show "hoareE (\<lambda>w. keep (retry_ready i) w \<and> x = w_exec w)
       (let old = ex_step_runs x ! i
        in bindE (readE (\<lambda>_. bindR (new_step_run sid (ex_workflow_run x) (sr_step_id old)
                (sr_attempt old + 1) (thaw_map (sr_inputs old)) ts)
              (step_run_transition_to Step_READY (step_call_at ts None None None))))
            (\<lambda>s. thenE (modifyE (add_step s))
               (bindE (create_checkpoint env) (\<lambda>_. returnE (length (ex_step_runs x))))))
       (\<lambda>_. keep (\<lambda>_ _. True)) (\<lambda>_. inv)"
      unfolding Let_def retry_step_run_def [symmetric]
      by (rule hoareE_bind [where R = "\<lambda>r w. inv w \<and> inv (add_step r w)"], rule hoareE_read)
         (auto simp: keep_def add_step_def intro: added intro!: hoareE_then [OF hoareE_modify
            [where Q = "\<lambda>_. keep (\<lambda>_ _. True)"]] finish_some)
  qed
qed

lemma back_to_running_keeps: "hoareE (keep F) (back_to_running ts) (\<lambda>_. keep F) (\<lambda>_. inv)"
  unfolding back_to_running_def by (rule pair_keeps) simp

lemma read_waiting:
  "hoareE (keep (\<lambda>_ _. True)) (readE (\<lambda>w. step_with_status st (w_exec w)))
     (\<lambda>i. keep (\<lambda>_ srs. latest_index srs (sr_step_id (srs ! i)) = Some i)) (\<lambda>_. inv)"
  by (auto simp: hoareE_def op_simps keep_def step_with_status_Inr split: sum.splits)

lemma resume_approval_preserves: "preserves (resume_waiting_approval env ts)"
  unfolding resume_waiting_approval_def
proof (intro hoareE_bind [OF read_waiting] hoareE_then [OF back_to_running_keeps])
  fix i
  have "hoareE (keep (\<lambda>_ srs. latest_index srs (sr_step_id (srs ! i)) = Some i))
      (step_to i Step_RUNNING (step_call_at ts None None None)) (\<lambda>_. keep (\<lambda>_ _. True)) (\<lambda>_. inv)"
    by (rule step_to_keeps) (auto simp: latest_at_def)
  then show "hoareE (keep (\<lambda>_ srs. latest_index srs (sr_step_id (srs ! i)) = Some i))
     (thenE (step_to i Step_RUNNING (step_call_at ts None None None))
       (thenE (create_checkpoint env) (returnE (Some i)))) (\<lambda>_. keep (\<lambda>_ _. True)) (\<lambda>_. inv)"
    by (rule hoareE_then) (rule finish_const)
qed

lemma resume_input_preserves: "preserves (resume_waiting_input env ts)"
  unfolding resume_waiting_input_def
  by (intro hoareE_then [OF back_to_running_keeps] finish_const)

lemma resume_retry_preserves: "preserves (resume_retry env state ts)"
proof -
  let ?F = "\<lambda>s i (w :: Workflow) srs. latest_index srs s = Some i \<and> sr_status (srs ! i) = Step_FAILED"
  let ?G = "\<lambda>s i ws w srs. ?F s i w srs \<and> workflow_get_step w s = Inr ws"
  have guard: "hoareE (keep (\<lambda>_ srs. latest_index srs s = Some i))
      (guardE (\<lambda>w. sr_status (ex_step_runs (w_exec w) ! i) \<noteq> Step_FAILED) ex)
      (\<lambda>_. keep (?F s i)) (\<lambda>_. inv)" for s i ex
    by (rule hoareE_guard) (auto simp: keep_def)
  have read: "hoareE (keep (?F s i)) (readE (\<lambda>w. workflow_get_step (ex_workflow (w_exec w)) s))
      (\<lambda>ws. keep (?G s i ws)) (\<lambda>_. inv)" for s i
    by (rule hoareE_read) (auto simp: keep_def)
  have guard2: "hoareE (keep (?G s i ws))
      (guardE (\<lambda>w. ws_max_attempts ws \<le> sr_attempt (ex_step_runs (w_exec w) ! i)) ex)
      (\<lambda>_. keep (retry_ready i)) (\<lambda>_. inv)" for s i ws ex
    by (rule hoareE_guard) (auto simp: keep_def retry_ready_def)
  show ?thesis unfolding resume_retry_def
    by (intro read_then hoareE_bind [OF read_latest] hoareE_then [OF guard] hoareE_bind [OF read]
        hoareE_then [OF guard2] hoareE_then [OF back_to_running_keeps]
        hoareE_bind [OF add_retry_preserves] hoareE_return)
qed

lemma resume_interrupted_preserves: "preserves (resume_interrupted env ts)"
proof -
  let ?F = "\<lambda>i old (w :: Workflow) srs. latest_index srs (sr_step_id old) = Some i \<and> srs ! i = old"
  let ?G = "\<lambda>i old ws w srs. ?F i old w srs \<and> workflow_get_step w (sr_step_id old) = Inr ws"
  let ?H = "\<lambda>i old ws w srs. latest_index srs (sr_step_id old) = Some i \<and>
      workflow_get_step w (sr_step_id old) = Inr ws \<and> sr_status (srs ! i) = Step_FAILED \<and>
      sr_attempt (srs ! i) = sr_attempt old"
  have cur: "hoareE (keep (\<lambda>_ _. True)) (readE (\<lambda>w. current_step_runs (w_exec w)))
     (\<lambda>cur. keep (\<lambda>_ srs. \<forall>i \<in> set cur. latest_index srs (sr_step_id (srs ! i)) = Some i)) (\<lambda>_. inv)"
    by (auto simp: hoareE_def op_simps keep_def intro: current_step_runs_latest split: sum.splits)
  have active: "hoareE (keep (\<lambda>_ srs. \<forall>i \<in> set cur. latest_index srs (sr_step_id (srs ! i)) = Some i))
     (getsE (\<lambda>w. filter (\<lambda>i. sr_status (ex_step_runs (w_exec w) ! i) = Step_RUNNING) cur))
     (\<lambda>act. keep (\<lambda>_ srs. \<forall>i \<in> set act. latest_index srs (sr_step_id (srs ! i)) = Some i)) (\<lambda>_. inv)" for cur
    by (rule hoareE_gets) (simp add: keep_def)
  have old: "hoareE (keep (\<lambda>_ srs. \<forall>j \<in> set [i]. latest_index srs (sr_step_id (srs ! j)) = Some j))
     (getsE (\<lambda>w. ex_step_runs (w_exec w) ! i)) (\<lambda>old. keep (?F i old)) (\<lambda>_. inv)" for i
    by (rule hoareE_gets) (auto simp: keep_def)
  have read: "hoareE (keep (?F i old))
     (readE (\<lambda>w. workflow_get_step (ex_workflow (w_exec w)) (sr_step_id old)))
     (\<lambda>ws. keep (?G i old ws)) (\<lambda>_. inv)" for i old
    by (rule hoareE_read) (auto simp: keep_def)
  have failed: "hoareE (keep (?G i old ws)) (step_to i Step_FAILED (step_call_at ts None None err))
     (\<lambda>_. keep (?H i old ws)) (\<lambda>_. inv)" for i old ws err
    by (rule step_to_keeps)
       (auto simp: latest_at_def step_run_transition_ok latest_index_update dest: latest_index_Some(1))
  have retry: "hoareE (keep (?H i old ws)) (add_retry_attempt env i ts) (\<lambda>_. keep (\<lambda>_ _. True)) (\<lambda>_. inv)"
    if "\<not> ws_max_attempts ws \<le> sr_attempt old" for i old ws
    using that by (intro hoare_weaken [OF add_retry_preserves]) (auto simp: retry_ready_def)
  have exhausted: "hoareE (keep (?H i old ws)) (thenE (create_checkpoint env) (raiseE ex))
     (\<lambda>_. keep (\<lambda>_ _. True)) (\<lambda>_. inv)" for i old ws ex
    by (rule hoareE_then [OF create_checkpoint_done]) (auto intro: hoareE_raise simp: keep_def)
  have body: "hoareE (keep (\<lambda>_ srs. \<forall>i \<in> set act. latest_index srs (sr_step_id (srs ! i)) = Some i))
     (case act of [] \<Rightarrow> returnE None
        | [i] \<Rightarrow> bindE (getsE (\<lambda>w. ex_step_runs (w_exec w) ! i))
            (\<lambda>interrupted. bindE (readE (\<lambda>w. workflow_get_step (ex_workflow (w_exec w))
                                            (sr_step_id interrupted)))
            (\<lambda>ws. thenE (step_to i Step_FAILED (step_call_at ts None None (Some ''INTERRUPTED'')))
              (if ws_max_attempts ws \<le> sr_attempt interrupted then
                 thenE (run_to Run_FAILED ts None (Some ''INTERRUPTED_RETRY_EXHAUSTED''))
                 (thenE (agent_to Agent_FAILED ts)
                 (thenE (create_checkpoint env)
                 (raiseE (ExecutionNotResumableError
                    (''Interrupted step '' @ sr_step_id interrupted @ '' has no retry remaining'')))))
               else bindE (add_retry_attempt env i ts) (\<lambda>j. returnE (Some j)))))
        | _ # _ # _ \<Rightarrow> raiseE (CheckpointMismatchError ''V1 checkpoint contains more than one active step''))
     (\<lambda>_. keep (\<lambda>_ _. True)) (\<lambda>_. inv)" for act
  proof (cases act)
    case Nil
    then show ?thesis by (auto intro!: hoareE_return simp: keep_def)
  next
    case (Cons i more)
    show ?thesis
    proof (cases more)
      case Nil
      with Cons show ?thesis
        by (simp only: list.case)
           (intro hoareE_bind [OF old] hoareE_bind [OF read] hoareE_then [OF failed] hoareE_if
            pair_then exhausted hoareE_bind [OF retry] hoareE_return, simp_all)
    next
      case (Cons j rest)
      with \<open>act = i # more\<close> show ?thesis by (auto intro!: hoareE_raise simp: keep_def)
    qed
  qed
  show ?thesis unfolding resume_interrupted_def
    by (intro hoareE_bind [OF cur] hoareE_bind [OF active] body)
qed

lemma resume_preserves: "preserves (resume_from_checkpoint env p)"
  unfolding resume_from_checkpoint_def
  by (intro read_then gets_then hoareE_bind [OF read_clock_keeps] hoareE_if resume_approval_preserves
      resume_input_preserves resume_retry_preserves resume_interrupted_preserves hoareE_raise inv_of_keep)

text \<open>The invariant holds after every command, whether it returns or raises.\<close>

lemma coord_do_preserves: "preserves (coord_do env cmd)"
  by (cases cmd) (auto intro!: hoareE_then hoareE_return start_preserves update_preserves
      mark_ready_preserves complete_preserves fail_preserves cancel_preserves resume_preserves
      create_checkpoint_done)

theorem reach_inv: "coord_reach env w \<Longrightarrow> I (w_exec w)"
proof (induction rule: coord_reach.induct)
  case (reach_new w0 project actor key inputs profile ticks ids w)
  then show ?case by (rule created)
next
  case (reach_call w cmd r w')
  then have "keep (\<lambda>_ _. True) w" by (simp add: keep_def)
  with coord_do_preserves reach_call(2) show ?case
    by (cases r) (auto dest: hoareE_D_ok hoareE_D_err inv_of_keep)
qed

end

section \<open>What creating a run establishes\<close>

definition fresh_step_run :: "WorkflowRun \<Rightarrow> WorkflowStep \<Rightarrow> StepRun \<Rightarrow> bool" where
  "fresh_step_run r s sr \<longleftrightarrow> sr_step_id sr = ws_id s \<and> sr_attempt sr = 1 \<and>
     sr_status sr = Step_CREATED \<and> sr_workflow_run_id sr = wr_id r \<and> sr_error_code sr = None \<and>
     sr_started_at sr = None \<and> sr_finished_at sr = None \<and> sr_outputs sr = []"

definition fresh_execution :: "Workflow \<Rightarrow> ExecutionState \<Rightarrow> bool" where
  "fresh_execution w0 x \<longleftrightarrow> ex_workflow x = w0 \<and> wr_status (ex_workflow_run x) = Run_CREATED \<and>
     wr_wait_reason (ex_workflow_run x) = None \<and> workflow_run_ok (ex_workflow_run x) \<and>
     as_status (ex_agent_session x) = Agent_CREATED \<and> ex_checkpoints x = [] \<and>
     list_all2 (fresh_step_run (ex_workflow_run x)) (wf_steps w0) (ex_step_runs x)"

lemma new_step_run_fresh:
  "new_step_run sid r (ws_id s) 1 [] ts = Inr sr \<Longrightarrow> fresh_step_run r s sr"
  by (auto simp: new_step_run_def step_run_post_init_def bindR_Inr_iff fresh_step_run_def)

lemma create_workflow_run_fresh:
  assumes "create_workflow_run env w0 project actor key inputs profile ticks ids = Inr w"
  obtains x p cid now where "fresh_execution w0 x" and "next_checkpoint env cid now x = Inr p"
    and "w_exec w = x\<lparr>ex_checkpoints := [p]\<rparr>"
proof -
  note d = assms [unfolded create_workflow_run_def Let_def bindR_Inr_iff]
  then obtain m r a srs where r0: "workflow_run_post_init
         \<lparr>wr_id = ce_id_factory env ''run'' ids, wr_project_id = project,
          wr_workflow_id = wf_id w0, wr_workflow_version = wf_version w0,
          wr_actor_user_id = actor, wr_idempotency_key = key,
          wr_inputs = m, wr_status = Run_CREATED, wr_outputs = [], wr_wait_reason = None,
          wr_error_code = None, wr_row_version = 0, wr_created_at = ce_clock env ticks,
          wr_updated_at = ce_clock env ticks\<rparr> = Inr r"
    and a0: "agent_session_post_init
         \<lparr>as_id = ce_id_factory env ''agent'' (ids + 1), as_project_id = project,
          as_workflow_run_id = wr_id r, as_agent_profile_ref = profile,
          as_role = ''primary'', as_status = Agent_CREATED, as_state = [], as_row_version = 0,
          as_created_at = ce_clock env ticks, as_updated_at = ce_clock env ticks\<rparr> = Inr a"
    and srs: "mapR (\<lambda>(i, s). new_step_run (ce_id_factory env ''step_run'' i) r (ws_id s) 1 []
                   (ce_clock env ticks)) (enumerate (ids + 2) (wf_steps w0)) = Inr srs"
    and c: "(case create_checkpoint env
              \<lparr>w_exec = \<lparr>ex_workflow = w0, ex_workflow_run = r, ex_agent_session = a,
                         ex_step_runs = srs, ex_checkpoints = []\<rparr>,
               w_ticks = ticks + 1, w_ids = ids + 2 + length srs\<rparr> of
            (Inl e, _) \<Rightarrow> Inl e | (Inr _, world) \<Rightarrow> Inr world) = Inr w"
    by blast
  from r0 have r: "wr_status r = Run_CREATED" "wr_wait_reason r = None" "workflow_run_ok r"
    by (auto simp: bindR_Inr_iff workflow_run_post_init_def workflow_run_ok_def)
  from a0 have a: "as_status a = Agent_CREATED"
    by (auto simp: bindR_Inr_iff agent_session_post_init_def)
  from c obtain cp where cp: "create_checkpoint env
              \<lparr>w_exec = \<lparr>ex_workflow = w0, ex_workflow_run = r, ex_agent_session = a,
                         ex_step_runs = srs, ex_checkpoints = []\<rparr>,
               w_ticks = ticks + 1, w_ids = ids + 2 + length srs\<rparr> = (Inr cp, w)"
    by (auto split: sum.splits prod.splits)
  have "list_all2 (fresh_step_run r) (wf_steps w0) srs"
    using srs unfolding mapR_Inr_iff list_all2_conv_all_nth
    by (auto simp: nth_enumerate_eq intro: new_step_run_fresh)
  with r a cp show thesis
    by (intro that [of "\<lparr>ex_workflow = w0, ex_workflow_run = r, ex_agent_session = a,
                         ex_step_runs = srs, ex_checkpoints = []\<rparr>"])
       (auto simp: fresh_execution_def create_checkpoint_apply Let_def add_checkpoint_def
         split: sum.splits)
qed

section \<open>Run and session in lockstep\<close>

definition lockstep :: "ExecutionState \<Rightarrow> bool" where
  "lockstep x \<longleftrightarrow> as_status (ex_agent_session x) = agent_for (wr_status (ex_workflow_run x))"

lemma agent_follows_run:
  "t \<in> set (workflow_run_transitions s) \<Longrightarrow>
   agent_for t \<in> set (agent_session_transitions (agent_for s))"
  by (cases s; cases t) auto

lemma agent_never_stuck:
  assumes "lockstep x"
    and "workflow_run_transition_to t (run_call_at ts reason code) (ex_workflow_run x) = Inr r"
  shows "agent_session_transition_to (agent_for t) (agent_call_at ts) (ex_agent_session x) \<noteq> Inl e"
proof -
  from assms agent_follows_run have "\<exists>a. agent_session_transition_to (agent_for t) (agent_call_at ts)
      (ex_agent_session x) = Inr a"
    by (auto simp: agent_session_transition_ok workflow_run_transition_ok lockstep_def
        run_call_at_def agent_call_at_def at_or_now_def)
  then show ?thesis by auto
qed

interpretation lockstep: coord_invariant env lockstep for env
proof unfold_locales
  fix w0 project actor key inputs profile ticks ids w
  assume "create_workflow_run env w0 project actor key inputs profile ticks ids = Inr w"
  then show "lockstep (w_exec w)"
    by (rule create_workflow_run_fresh) (simp add: fresh_execution_def lockstep_def)
next
  fix x t ts reason code r e
  assume "lockstep x"
    and "workflow_run_transition_to t (run_call_at ts reason code) (ex_workflow_run x) = Inr r"
    and "agent_session_transition_to (agent_for t) (agent_call_at ts) (ex_agent_session x) = Inl e"
  then show "lockstep (x\<lparr>ex_workflow_run := r\<rparr>)" using agent_never_stuck by blast
qed (auto simp: lockstep_def workflow_run_transition_ok agent_session_transition_ok
      workflow_run_set_outputs_def)

section \<open>The chain of checkpoints\<close>

definition chain_ok :: "coordinator_env \<Rightarrow> ExecutionState \<Rightarrow> bool" where
  "chain_ok env x \<longleftrightarrow> ex_checkpoints x \<noteq> [] \<and>
     (\<forall>k < length (ex_checkpoints x). let p = ex_checkpoints x ! k in
        cp_sequence p = int k + 1 \<and>
        cp_parent_id p = (if k = 0 then None else Some (cp_id (ex_checkpoints x ! (k - 1)))) \<and>
        cp_workflow_run_id p = wr_id (ex_workflow_run x) \<and>
        cp_agent_session_id p = as_id (ex_agent_session x) \<and>
        verify_integrity (ce_sha256 env) p = Inr ())"

lemma next_checkpoint_ok:
  assumes "next_checkpoint env cid now x = Inr p"
  shows "cp_id p = cid" "cp_workflow_run_id p = wr_id (ex_workflow_run x)"
    "cp_agent_session_id p = as_id (ex_agent_session x)"
    "cp_sequence p = int (length (ex_checkpoints x)) + 1"
    "cp_parent_id p = (if ex_checkpoints x = [] then None else Some (cp_id (last (ex_checkpoints x))))"
    "verify_integrity (ce_sha256 env) p = Inr ()"
  using checkpoint_create_ok [OF assms [unfolded next_checkpoint_def]]
  by (simp_all add: verify_integrity_def)

lemma chain_append:
  assumes "ex_checkpoints x = [] \<or> chain_ok env x" and "next_checkpoint env cid now x = Inr p"
  shows "chain_ok env (x\<lparr>ex_checkpoints := ex_checkpoints x @ [p]\<rparr>)"
  using assms(1) next_checkpoint_ok [OF assms(2)]
  by (auto simp: chain_ok_def Let_def nth_append last_conv_nth less_Suc_eq)

interpretation chain: coord_invariant env "chain_ok env" for env
proof unfold_locales
  fix w0 project actor key inputs profile ticks ids w
  assume "create_workflow_run env w0 project actor key inputs profile ticks ids = Inr w"
  then show "chain_ok env (w_exec w)"
    by (rule create_workflow_run_fresh)
       (use chain_append [of _ env] in \<open>fastforce simp: fresh_execution_def\<close>)
next
  fix x cid now p
  assume "chain_ok env x" and "next_checkpoint env cid now x = Inr p"
  then show "chain_ok env (x\<lparr>ex_checkpoints := ex_checkpoints x @ [p]\<rparr>)"
    by (intro chain_append) simp_all
qed (simp_all add: chain_ok_def workflow_run_transition_ok agent_session_transition_ok
      workflow_run_set_outputs_def, auto)

section \<open>The attempts of the steps\<close>

text \<open>
  Every step of the workflow has at least one attempt and no attempt belongs to another
  workflow; the attempts of a step grow along the list, every attempt but the last one of a
  step has FAILED, and none exceeds the step's budget.
\<close>

definition step_attempt_ok :: "Workflow \<Rightarrow> WorkflowRun \<Rightarrow> StepRun \<Rightarrow> bool" where
  "step_attempt_ok w r s \<longleftrightarrow> step_run_ok s \<and> sr_workflow_run_id s = wr_id r \<and>
     (\<exists>ws. workflow_get_step w (sr_step_id s) = Inr ws \<and> sr_attempt s \<le> ws_max_attempts ws)"

definition attempts_ordered :: "StepRun list \<Rightarrow> bool" where
  "attempts_ordered srs \<longleftrightarrow>
     (\<forall>i j. i < j \<longrightarrow> j < length srs \<longrightarrow> sr_step_id (srs ! i) = sr_step_id (srs ! j) \<longrightarrow>
        sr_attempt (srs ! i) < sr_attempt (srs ! j) \<and> sr_status (srs ! i) = Step_FAILED)"

definition attempts_ok :: "ExecutionState \<Rightarrow> bool" where
  "attempts_ok x \<longleftrightarrow> workflow_valid (ex_workflow x) \<and>
     sr_step_id ` set (ex_step_runs x) = set (workflow_step_ids (ex_workflow x)) \<and>
     (\<forall>s \<in> set (ex_step_runs x). step_attempt_ok (ex_workflow x) (ex_workflow_run x) s) \<and>
     attempts_ordered (ex_step_runs x)"

lemma latest_is_last:
  assumes "attempts_ordered srs" and "latest_index srs s = Some i"
    and "j < length srs" and "sr_step_id (srs ! j) = s"
  shows "j \<le> i"
proof (rule ccontr)
  assume "\<not> j \<le> i"
  then have "sr_attempt (srs ! i) < sr_attempt (srs ! j)"
    using assms latest_index_Some(2) [OF assms(2)] by (simp add: attempts_ordered_def)
  with latest_index_Some(3) [OF assms(2-)] show False by (simp add: assms)
qed

lemma attempts_ordered_update:
  assumes "attempts_ordered srs" and i: "latest_index srs s = Some i"
    and "sr_step_id r = sr_step_id (srs ! i)" and "sr_attempt r = sr_attempt (srs ! i)"
  shows "attempts_ordered (srs[i := r])"
  unfolding attempts_ordered_def length_list_update
proof (intro allI impI)
  fix j k
  assume jk: "j < k" "k < length srs" and same: "sr_step_id (srs[i := r] ! j) = sr_step_id (srs[i := r] ! k)"
  have ids: "sr_step_id (srs[i := r] ! l) = sr_step_id (srs ! l)" if "l < length srs" for l
    using that assms(3) by (cases "l = i") simp_all
  have att: "sr_attempt (srs[i := r] ! l) = sr_attempt (srs ! l)" if "l < length srs" for l
    using that assms(4) by (cases "l = i") simp_all
  from jk same ids have "sr_step_id (srs ! j) = sr_step_id (srs ! k)" by simp
  with assms(1) jk have old: "sr_attempt (srs ! j) < sr_attempt (srs ! k)" "sr_status (srs ! j) = Step_FAILED"
    unfolding attempts_ordered_def by auto
  have "j \<noteq> i"
  proof
    assume "j = i"
    with \<open>sr_step_id (srs ! j) = sr_step_id (srs ! k)\<close> latest_index_Some(2) [OF i]
    have "sr_step_id (srs ! k) = s" by simp
    with latest_is_last [OF assms(1) i jk(2)] jk(1) \<open>j = i\<close> show False by simp
  qed
  with old jk att show "sr_attempt (srs[i := r] ! j) < sr_attempt (srs[i := r] ! k) \<and>
      sr_status (srs[i := r] ! j) = Step_FAILED" by simp
qed

lemma attempts_ordered_append:
  assumes "attempts_ordered srs" and i: "latest_index srs s = Some i"
    and "sr_status (srs ! i) = Step_FAILED"
    and "sr_step_id r = s" and "sr_attempt r = sr_attempt (srs ! i) + 1"
  shows "attempts_ordered (srs @ [r])"
  unfolding attempts_ordered_def
proof (intro allI impI)
  fix j k
  assume jk: "j < k" "k < length (srs @ [r])"
    and same: "sr_step_id ((srs @ [r]) ! j) = sr_step_id ((srs @ [r]) ! k)"
  show "sr_attempt ((srs @ [r]) ! j) < sr_attempt ((srs @ [r]) ! k) \<and>
      sr_status ((srs @ [r]) ! j) = Step_FAILED"
  proof (cases "k < length srs")
    case True
    with assms(1) jk same show ?thesis by (simp add: attempts_ordered_def nth_append)
  next
    case False
    with jk have k: "k = length srs" "j < length srs" by auto
    with same assms(4) have js: "sr_step_id (srs ! j) = s" by (simp add: nth_append)
    have "sr_status (srs ! j) = Step_FAILED"
    proof (cases "j = i")
      case False
      with latest_is_last [OF assms(1) i k(2) js] have "j < i" by simp
      with assms(1) latest_index_Some [OF i] js show ?thesis unfolding attempts_ordered_def by auto
    qed (simp add: assms(3))
    moreover from latest_index_Some(3) [OF i k(2) js] assms(5) k
    have "sr_attempt (srs ! j) < sr_attempt r" by simp
    ultimately show ?thesis using k by (simp add: nth_append)
  qed
qed

lemma retry_step_run_ok:
  assumes "retry_step_run sid r old ts = Inr r'"
  shows "sr_step_id r' = sr_step_id old" "sr_attempt r' = sr_attempt old + 1"
    "sr_status r' = Step_READY" "sr_workflow_run_id r' = wr_id r" "step_run_ok r'"
    "sr_id r' = sid"
proof -
  from assms obtain s0 where new: "new_step_run sid r (sr_step_id old) (sr_attempt old + 1)
      (thaw_map (sr_inputs old)) ts = Inr s0"
    and t: "step_run_transition_to Step_READY (step_call_at ts None None None) s0 = Inr r'"
    unfolding retry_step_run_def bindR_Inr_iff by blast
  from new have s0: "step_run_ok s0" "sr_step_id s0 = sr_step_id old"
    "sr_attempt s0 = sr_attempt old + 1" "sr_workflow_run_id s0 = wr_id r" "sr_id s0 = sid"
    by (auto simp: new_step_run_def step_run_post_init_def bindR_Inr_iff step_run_ok_def)
  with t show "sr_step_id r' = sr_step_id old" "sr_attempt r' = sr_attempt old + 1"
    "sr_status r' = Step_READY" "sr_workflow_run_id r' = wr_id r" "sr_id r' = sid"
    by (auto simp: step_run_transition_ok)
  show "step_run_ok r'" by (rule step_run_transition_keeps [OF s0(1) t])
qed

lemma get_step_valid:
  assumes "workflow_valid w" and "s \<in> set (wf_steps w)"
  shows "workflow_get_step w (ws_id s) = Inr s" and "0 < ws_max_attempts s"
  using assms workflow_get_step_in
  by (auto simp: workflow_valid_def workflow_ok_def workflow_closed_def workflow_step_ok_def)

lemma fresh_attempts_ok:
  assumes "workflow_valid w0" and "fresh_execution w0 x"
  shows "attempts_ok x"
proof -
  let ?srs = "ex_step_runs x" and ?ss = "wf_steps w0"
  from assms(2) have w: "ex_workflow x = w0" and len: "length ?srs = length ?ss"
    and fresh: "\<And>k. k < length ?ss \<Longrightarrow> fresh_step_run (ex_workflow_run x) (?ss ! k) (?srs ! k)"
    by (simp_all add: fresh_execution_def list_all2_conv_all_nth)
  from fresh have "sr_step_id (?srs ! k) = ws_id (?ss ! k)" if "k < length ?ss" for k
    using that by (simp add: fresh_step_run_def)
  with len have ids: "map sr_step_id ?srs = workflow_step_ids w0"
    by (simp add: list_eq_iff_nth_eq workflow_step_ids_def)
  have "attempts_ordered ?srs"
  proof -
    have "distinct (map sr_step_id ?srs)"
      using assms(1) by (simp add: ids workflow_valid_def workflow_ok_def workflow_closed_def)
    then have "i = j" if "i < j" "j < length ?srs" "sr_step_id (?srs ! i) = sr_step_id (?srs ! j)" for i j
      using that nth_eq_iff_index_eq [of "map sr_step_id ?srs" i j] by simp
    then show ?thesis unfolding attempts_ordered_def by blast
  qed
  moreover have "step_attempt_ok w0 (ex_workflow_run x) s" if "s \<in> set ?srs" for s
  proof -
    from that obtain k where k: "k < length ?ss" "s = ?srs ! k" using len by (auto simp: in_set_conv_nth)
    with fresh [OF k(1)] have f: "fresh_step_run (ex_workflow_run x) (?ss ! k) s" by simp
    from k have "workflow_get_step w0 (ws_id (?ss ! k)) = Inr (?ss ! k)" "0 < ws_max_attempts (?ss ! k)"
      by (simp_all add: get_step_valid [OF assms(1)])
    with f have "\<exists>ws. workflow_get_step w0 (sr_step_id s) = Inr ws \<and> sr_attempt s \<le> ws_max_attempts ws"
      by (simp add: fresh_step_run_def)
    with f show ?thesis by (simp add: step_attempt_ok_def fresh_step_run_def step_run_ok_def)
  qed
  moreover have "sr_step_id ` set ?srs = set (workflow_step_ids w0)" by (metis ids set_map)
  ultimately show ?thesis using assms(1) w by (simp add: attempts_ok_def)
qed

lemma attempts_ok_cong:
  "ex_workflow x' = ex_workflow x \<Longrightarrow> ex_step_runs x' = ex_step_runs x \<Longrightarrow>
   wr_id (ex_workflow_run x') = wr_id (ex_workflow_run x) \<Longrightarrow> attempts_ok x \<Longrightarrow> attempts_ok x'"
  by (simp add: attempts_ok_def step_attempt_ok_def)

interpretation attempts: coord_invariant env attempts_ok for env
proof unfold_locales
  fix w0 project actor key inputs profile ticks ids w
  assume w0: "workflow_valid w0"
    and "create_workflow_run env w0 project actor key inputs profile ticks ids = Inr w"
  from this(2) show "attempts_ok (w_exec w)"
    by (rule create_workflow_run_fresh) (auto intro: attempts_ok_cong [OF _ _ _ fresh_attempts_ok [OF w0]])
next
  fix x s i st ts inp out err r'
  assume x: "attempts_ok x" and i: "latest_index (ex_step_runs x) s = Some i"
    and r': "step_run_transition_to st (step_call_at ts inp out err) (ex_step_runs x ! i) = Inr r'"
  let ?srs = "ex_step_runs x"
  have il: "i < length ?srs" by (rule latest_index_Some(1) [OF i])
  from r' have eq: "sr_step_id r' = sr_step_id (?srs ! i)" "sr_attempt r' = sr_attempt (?srs ! i)"
    "sr_workflow_run_id r' = sr_workflow_run_id (?srs ! i)" by (auto simp: step_run_transition_ok)
  from x il have ok: "step_attempt_ok (ex_workflow x) (ex_workflow_run x) (?srs ! i)"
    by (simp add: attempts_ok_def)
  with eq r' have "step_attempt_ok (ex_workflow x) (ex_workflow_run x) r'"
    by (auto simp: step_attempt_ok_def intro: step_run_transition_keeps)
  moreover have "map sr_step_id (?srs[i := r']) = map sr_step_id ?srs"
    using eq(1) by (metis list_update_id map_update)
  then have "sr_step_id ` set (?srs[i := r']) = sr_step_id ` set ?srs" by (metis set_map)
  moreover have "attempts_ordered (?srs[i := r'])"
    using x i eq by (intro attempts_ordered_update) (simp_all add: attempts_ok_def)
  ultimately show "attempts_ok (x\<lparr>ex_step_runs := ?srs[i := r']\<rparr>)"
    using x set_update_subset_insert [of ?srs i r'] by (auto simp: attempts_ok_def)
next
  fix x s i ws sid ts r'
  assume x: "attempts_ok x" and i: "latest_index (ex_step_runs x) s = Some i"
    and "sr_status (ex_step_runs x ! i) = Step_FAILED"
    and "workflow_get_step (ex_workflow x) s = Inr ws"
    and "sr_attempt (ex_step_runs x ! i) < ws_max_attempts ws"
    and r': "retry_step_run sid (ex_workflow_run x) (ex_step_runs x ! i) ts = Inr r'"
  moreover from x have "attempts_ordered (ex_step_runs x)" by (simp add: attempts_ok_def)
  moreover note n = retry_step_run_ok [OF r'] and l = latest_index_Some(1,2) [OF i]
  ultimately have "attempts_ordered (ex_step_runs x @ [r'])"
    and "step_attempt_ok (ex_workflow x) (ex_workflow_run x) r'"
    by (auto intro!: attempts_ordered_append [OF _ i] simp: step_attempt_ok_def)
  moreover from l have "sr_step_id r' \<in> sr_step_id ` set (ex_step_runs x)"
    unfolding n(1) by (intro imageI nth_mem)
  then have "sr_step_id ` set (ex_step_runs x @ [r']) = sr_step_id ` set (ex_step_runs x)" by auto
  ultimately show "attempts_ok (x\<lparr>ex_step_runs := ex_step_runs x @ [r']\<rparr>)"
    using x by (simp add: attempts_ok_def)
qed (auto simp: workflow_run_transition_ok workflow_run_set_outputs_def elim!: attempts_ok_cong [rotated -1])

end
