(* ===== verification/Execution_Proto.thy ===== *)
theory Execution_Proto
  imports Execution_Inv
begin

text \<open>
  The protocol an execution follows, as an abstract machine: the status of the run, the reason
  it waits for, and for every step its latest attempt with its status. Every command of the
  coordinator that returns is one step of this machine (a simulation), and the machine keeps
  an invariant that ties the status of the run to the statuses of the steps.
\<close>

section \<open>The abstract machine\<close>

record proto =
  p_workflow :: Workflow
  p_run :: WorkflowRunStatus
  p_reason :: "string option"
  p_now :: "string \<Rightarrow> (int \<times> StepRunStatus) option"

definition cancel_now ::
  "(string \<Rightarrow> (int \<times> StepRunStatus) option) \<Rightarrow> string \<Rightarrow> (int \<times> StepRunStatus) option" where
  "cancel_now m = (\<lambda>s. map_option (\<lambda>(a, u). (a, if step_is_terminal u then u else Step_CANCELLED)) (m s))"

definition successful :: "StepRunStatus \<Rightarrow> bool" where
  "successful u \<longleftrightarrow> u \<in> {Step_COMPLETED, Step_SKIPPED}"

inductive proto_step :: "proto \<Rightarrow> proto \<Rightarrow> bool" where
  P_skip: "proto_step p p"
| P_start: "p_run p = Run_CREATED \<Longrightarrow> proto_step p (p\<lparr>p_run := Run_RUNNING, p_reason := None\<rparr>)"
| P_move: "p_run p = Run_RUNNING \<Longrightarrow> p_now p s = Some (a, u) \<Longrightarrow> t \<in> set (step_run_transitions u) \<Longrightarrow>
    t \<in> {Step_READY, Step_RUNNING, Step_COMPLETED, Step_SKIPPED} \<Longrightarrow>
    proto_step p (p\<lparr>p_now := (p_now p)(s \<mapsto> (a, t))\<rparr>)"
| P_wait: "p_run p = Run_RUNNING \<Longrightarrow> p_now p s = Some (a, Step_RUNNING) \<Longrightarrow>
    proto_step p (p\<lparr>p_run := Run_WAITING_FOR_APPROVAL, p_reason := Some (''approval:'' @ s),
                    p_now := (p_now p)(s \<mapsto> (a, Step_WAITING_APPROVAL))\<rparr>)"
| P_retry: "p_run p = Run_RUNNING \<Longrightarrow> p_now p s = Some (a, Step_RUNNING) \<Longrightarrow>
    workflow_get_step (p_workflow p) s = Inr ws \<Longrightarrow> a < ws_max_attempts ws \<Longrightarrow>
    proto_step p (p\<lparr>p_run := Run_RETRY_SCHEDULED, p_reason := Some (''retry:'' @ s),
                    p_now := (p_now p)(s \<mapsto> (a, Step_FAILED))\<rparr>)"
| P_step_failed: "p_run p = Run_RUNNING \<Longrightarrow> p_now p s = Some (a, Step_RUNNING) \<Longrightarrow>
    proto_step p (p\<lparr>p_run := Run_FAILED, p_reason := None,
                    p_now := (p_now p)(s \<mapsto> (a, Step_FAILED))\<rparr>)"
| P_step_cancelled: "p_run p = Run_RUNNING \<Longrightarrow> p_now p s = Some (a, u) \<Longrightarrow> \<not> step_is_terminal u \<Longrightarrow>
    proto_step p (p\<lparr>p_run := Run_CANCELLED, p_reason := None,
                    p_now := (p_now p)(s \<mapsto> (a, Step_CANCELLED))\<rparr>)"
| P_complete: "p_run p = Run_RUNNING \<Longrightarrow>
    \<forall>s \<in> set (workflow_step_ids (p_workflow p)). \<exists>a u. p_now p s = Some (a, u) \<and> successful u \<Longrightarrow>
    proto_step p (p\<lparr>p_run := Run_COMPLETED, p_reason := None\<rparr>)"
| P_fail: "p_run p \<in> {Run_INITIALIZING, Run_RUNNING} \<Longrightarrow>
    proto_step p (p\<lparr>p_run := Run_FAILED, p_reason := None, p_now := cancel_now (p_now p)\<rparr>)"
| P_cancel: "\<not> run_is_terminal (p_run p) \<Longrightarrow> p_run p \<noteq> Run_CANCELLING \<Longrightarrow>
    proto_step p (p\<lparr>p_run := Run_CANCELLED, p_reason := None, p_now := cancel_now (p_now p)\<rparr>)"
| P_approved: "p_run p = Run_WAITING_FOR_APPROVAL \<Longrightarrow> p_now p s = Some (a, Step_WAITING_APPROVAL) \<Longrightarrow>
    proto_step p (p\<lparr>p_run := Run_RUNNING, p_reason := None,
                    p_now := (p_now p)(s \<mapsto> (a, Step_RUNNING))\<rparr>)"
| P_input: "p_run p = Run_WAITING_FOR_INPUT \<Longrightarrow> proto_step p (p\<lparr>p_run := Run_RUNNING, p_reason := None\<rparr>)"
| P_retried: "p_run p = Run_RETRY_SCHEDULED \<Longrightarrow> p_now p s = Some (a, Step_FAILED) \<Longrightarrow>
    workflow_get_step (p_workflow p) s = Inr ws \<Longrightarrow> a < ws_max_attempts ws \<Longrightarrow>
    proto_step p (p\<lparr>p_run := Run_RUNNING, p_reason := None,
                    p_now := (p_now p)(s \<mapsto> (a + 1, Step_READY))\<rparr>)"
| P_interrupted: "p_run p = Run_RUNNING \<Longrightarrow> p_now p s = Some (a, Step_RUNNING) \<Longrightarrow>
    workflow_get_step (p_workflow p) s = Inr ws \<Longrightarrow> a < ws_max_attempts ws \<Longrightarrow>
    proto_step p (p\<lparr>p_now := (p_now p)(s \<mapsto> (a + 1, Step_READY))\<rparr>)"

section \<open>The invariant of the protocol\<close>

text \<open>The statuses a step may have while the run is making progress.\<close>

definition live :: "StepRunStatus \<Rightarrow> bool" where
  "live u \<longleftrightarrow> u \<in> {Step_CREATED, Step_READY, Step_RUNNING, Step_COMPLETED, Step_SKIPPED}"

definition all_live_but :: "string set \<Rightarrow> (string \<Rightarrow> (int \<times> StepRunStatus) option) \<Rightarrow> bool" where
  "all_live_but S m \<longleftrightarrow> (\<forall>s a u. m s = Some (a, u) \<longrightarrow> s \<in> S \<or> live u)"

fun proto_status_ok :: "WorkflowRunStatus \<Rightarrow> proto \<Rightarrow> bool" where
  "proto_status_ok Run_WAITING_FOR_APPROVAL p \<longleftrightarrow>
     (\<exists>s a. p_reason p = Some (''approval:'' @ s) \<and> p_now p s = Some (a, Step_WAITING_APPROVAL) \<and>
        all_live_but {s} (p_now p))"
| "proto_status_ok Run_RETRY_SCHEDULED p \<longleftrightarrow>
     (\<exists>s a ws. p_reason p = Some (''retry:'' @ s) \<and> p_now p s = Some (a, Step_FAILED) \<and>
        workflow_get_step (p_workflow p) s = Inr ws \<and> a < ws_max_attempts ws \<and> all_live_but {s} (p_now p))"
| "proto_status_ok Run_COMPLETED p \<longleftrightarrow>
     (\<forall>s \<in> set (workflow_step_ids (p_workflow p)). \<exists>a u. p_now p s = Some (a, u) \<and> successful u)"
| "proto_status_ok Run_FAILED p \<longleftrightarrow> True"
| "proto_status_ok Run_CANCELLED p \<longleftrightarrow> True"
| "proto_status_ok _ p \<longleftrightarrow> all_live_but {} (p_now p)"

definition proto_ok :: "proto \<Rightarrow> bool" where
  "proto_ok p \<longleftrightarrow> proto_status_ok (p_run p) p"

lemma all_live_but_upd:
  "all_live_but S m \<Longrightarrow> live u \<Longrightarrow> all_live_but (S - {s}) (m(s \<mapsto> (a, u)))"
  "all_live_but S m \<Longrightarrow> all_live_but (insert s S) (m(s \<mapsto> (a, u)))"
  by (auto simp: all_live_but_def)

lemma proto_step_ok: "proto_step p q \<Longrightarrow> proto_ok p \<Longrightarrow> proto_ok q"
proof (induction rule: proto_step.induct)
  case (P_move p s a u t)
  then show ?case using all_live_but_upd(1) [of "{}" "p_now p" t s a] by (auto simp: proto_ok_def live_def)
next
  case (P_approved p s a)
  then obtain s' where s': "all_live_but {s'} (p_now p)" by (auto simp: proto_ok_def)
  with P_approved have "s' = s" by (auto simp: all_live_but_def live_def)
  with all_live_but_upd(1) [OF s', of Step_RUNNING s a] show ?case by (simp add: proto_ok_def live_def)
next
  case (P_retried p s a ws)
  then obtain s' where s': "all_live_but {s'} (p_now p)" by (auto simp: proto_ok_def)
  with P_retried have "s' = s" by (auto simp: all_live_but_def live_def)
  with all_live_but_upd(1) [OF s', of Step_READY s "a + 1"] show ?case by (simp add: proto_ok_def live_def)
next
  case (P_interrupted p s a ws)
  then show ?case using all_live_but_upd(1) [of "{}" "p_now p" Step_READY s "a + 1"]
    by (simp add: proto_ok_def live_def)
next
  case (P_wait p s a)
  then show ?case using all_live_but_upd(2) [of "{}" "p_now p" s a] by (simp add: proto_ok_def)
next
  case (P_retry p s a ws)
  then show ?case using all_live_but_upd(2) [of "{}" "p_now p" s a] by (auto simp: proto_ok_def)
qed (auto simp: proto_ok_def)

section \<open>The abstraction and its primitive effects\<close>

definition now_of :: "StepRun list \<Rightarrow> string \<Rightarrow> (int \<times> StepRunStatus) option" where
  "now_of srs s = map_option (\<lambda>i. (sr_attempt (srs ! i), sr_status (srs ! i))) (latest_index srs s)"

definition proto_of :: "ExecutionState \<Rightarrow> proto" where
  "proto_of x = \<lparr>p_workflow = ex_workflow x, p_run = wr_status (ex_workflow_run x),
     p_reason = wr_wait_reason (ex_workflow_run x), p_now = now_of (ex_step_runs x)\<rparr>"

abbreviation view :: "world \<Rightarrow> proto" where
  "view w \<equiv> proto_of (w_exec w)"

abbreviation srs_of :: "world \<Rightarrow> StepRun list" where
  "srs_of w \<equiv> ex_step_runs (w_exec w)"

lemma proto_of_sel [simp]:
  "p_workflow (proto_of x) = ex_workflow x"
  "p_run (proto_of x) = wr_status (ex_workflow_run x)"
  "p_reason (proto_of x) = wr_wait_reason (ex_workflow_run x)"
  "p_now (proto_of x) = now_of (ex_step_runs x)"
  by (simp_all add: proto_of_def)

lemma now_of_update:
  assumes "latest_index srs s = Some i" and "sr_step_id r = sr_step_id (srs ! i)"
    and "sr_attempt r = sr_attempt (srs ! i)"
  shows "now_of (srs[i := r]) = (now_of srs)(s \<mapsto> (sr_attempt (srs ! i), sr_status r))"
proof
  fix s'
  have "latest_index srs s' \<noteq> Some i" if "s' \<noteq> s"
    using that assms(1) by (metis latest_index_Some(2))
  then show "now_of (srs[i := r]) s' = ((now_of srs)(s \<mapsto> (sr_attempt (srs ! i), sr_status r))) s'"
    using assms latest_index_Some(1) [OF assms(1)]
    by (cases "latest_index srs s'") (auto simp: now_of_def latest_index_update nth_list_update)
qed

lemma latest_index_append:
  assumes "latest_index srs s = Some i" and "sr_step_id r = s"
    and "sr_attempt (srs ! i) < sr_attempt r"
  shows "latest_index (srs @ [r]) s' = (if s' = s then Some (length srs) else latest_index srs s')"
proof (cases "s' = s")
  case True
  then show ?thesis
  proof -
    obtain k where k: "latest_index (srs @ [r]) s = Some k"
      using latest_index_None [of "srs @ [r]" s] assms(2) by (cases "latest_index (srs @ [r]) s") auto
    have ge: "sr_attempt r \<le> sr_attempt ((srs @ [r]) ! k)"
      using latest_index_Some(3) [OF k, of "length srs"] assms(2) by (simp add: nth_append)
    have "k = length srs"
    proof (rule ccontr)
      assume "k \<noteq> length srs"
      with latest_index_Some(1,2) [OF k] have "k < length srs" "sr_step_id (srs ! k) = s"
        by (auto simp: nth_append)
      with latest_index_Some(3) [OF assms(1) this] ge assms(3) show False by (simp add: nth_append)
    qed
    with k True show ?thesis by simp
  qed
next
  case False
  have "filter (\<lambda>j. sr_step_id ((srs @ [r]) ! j) = s') [0..<length (srs @ [r])] =
      filter (\<lambda>j. sr_step_id (srs ! j) = s') [0..<length srs]"
    using False assms(2) by (auto simp: nth_append intro: filter_cong)
  moreover have "first_max (\<lambda>j. sr_attempt ((srs @ [r]) ! j)) (filter (\<lambda>j. sr_step_id (srs ! j) = s') [0..<length srs])
     = first_max (\<lambda>j. sr_attempt (srs ! j)) (filter (\<lambda>j. sr_step_id (srs ! j) = s') [0..<length srs])"
    by (intro first_max_cong) (auto simp: nth_append)
  ultimately show ?thesis using False by (simp add: latest_index_def)
qed

lemma now_of_append:
  assumes "latest_index srs s = Some i" and "sr_step_id r = s"
    and "sr_attempt (srs ! i) < sr_attempt r"
  shows "now_of (srs @ [r]) = (now_of srs)(s \<mapsto> (sr_attempt r, sr_status r))"
proof
  fix s' show "now_of (srs @ [r]) s' = ((now_of srs)(s \<mapsto> (sr_attempt r, sr_status r))) s'"
    using latest_index_append [OF assms, of s'] latest_index_Some(1) [of srs s']
    by (cases "latest_index srs s'") (auto simp: now_of_def nth_append)
qed

lemma run_to_view:
  assumes "run_to t ts reason code w = (Inr u, w')"
  shows "t \<in> set (workflow_run_transitions (p_run (view w)))"
    and "view w' = (view w)\<lparr>p_run := t, p_reason :=
      (if t \<in> {Run_WAITING_FOR_APPROVAL, Run_WAITING_FOR_INPUT, Run_RETRY_SCHEDULED} then reason else None)\<rparr>"
    and "srs_of w' = srs_of w"
  using assms
  by (auto simp: run_to_def updE_apply bindR_Inr_iff set_run_def workflow_run_transition_ok proto_of_def
      split: sum.splits)

lemma agent_to_view:
  assumes "agent_to t ts w = (Inr u, w')"
  shows "view w' = view w" and "srs_of w' = srs_of w"
  using assms by (auto simp: agent_to_def updE_apply bindR_Inr_iff set_agent_def proto_of_def split: sum.splits)

lemma create_checkpoint_view:
  assumes "create_checkpoint env w = (Inr p, w')"
  shows "view w' = view w" and "srs_of w' = srs_of w"
  using assms by (auto simp: create_checkpoint_apply add_checkpoint_def Let_def proto_of_def split: sum.splits)

lemma read_clock_view:
  assumes "read_clock env w = (Inr t, w')"
  shows "w_exec w' = w_exec w"
  using assms by (auto simp: read_clock_def)

lemma step_to_view:
  assumes "step_to i t c w = (Inr u, w')" and "latest_index (srs_of w) s = Some i"
  shows "t \<in> set (step_run_transitions (sr_status (srs_of w ! i)))"
    and "view w' = (view w)\<lparr>p_now := (p_now (view w))(s \<mapsto> (sr_attempt (srs_of w ! i), t))\<rparr>"
    and "latest_index (srs_of w') s' = latest_index (srs_of w) s'"
    and "sr_status (srs_of w' ! i) = t" and "sr_attempt (srs_of w' ! i) = sr_attempt (srs_of w ! i)"
proof -
  from assms(1) obtain r where r: "step_run_transition_to t c (srs_of w ! i) = Inr r" "w' = set_step i r w"
    by (auto simp: step_to_def updE_apply bindR_Inr_iff split: sum.splits)
  then have f: "sr_step_id r = sr_step_id (srs_of w ! i)" "sr_attempt r = sr_attempt (srs_of w ! i)"
    "sr_status r = t" and t: "t \<in> set (step_run_transitions (sr_status (srs_of w ! i)))"
    by (auto simp: step_run_transition_ok)
  show "t \<in> set (step_run_transitions (sr_status (srs_of w ! i)))" by (rule t)
  show "view w' = (view w)\<lparr>p_now := (p_now (view w))(s \<mapsto> (sr_attempt (srs_of w ! i), t))\<rparr>"
    using now_of_update [OF assms(2) f(1,2)] f(3) r(2) by (simp add: proto_of_def set_step_def)
  show "latest_index (srs_of w') s' = latest_index (srs_of w) s'"
    using latest_index_update [OF f(1,2)] r(2) by (simp add: set_step_def)
  show "sr_status (srs_of w' ! i) = t" "sr_attempt (srs_of w' ! i) = sr_attempt (srs_of w ! i)"
    using f r(2) latest_index_Some(1) [OF assms(2)] by (simp_all add: set_step_def)
qed

lemma now_of_latest:
  "latest_index srs s = Some i \<Longrightarrow> now_of srs s = Some (sr_attempt (srs ! i), sr_status (srs ! i))"
  by (simp add: now_of_def)

text \<open>A pair of calls on the run and the session, before what follows it.\<close>

definition waiting_reason :: "WorkflowRunStatus \<Rightarrow> string option \<Rightarrow> string option" where
  "waiting_reason t reason =
     (if t \<in> {Run_WAITING_FOR_APPROVAL, Run_WAITING_FOR_INPUT, Run_RETRY_SCHEDULED} then reason else None)"

lemma pair_last:
  assumes "thenE (run_to t ts reason code) (agent_to a ts) w = (Inr r, w')"
  shows "t \<in> set (workflow_run_transitions (p_run (view w)))"
    and "view w' = (view w)\<lparr>p_run := t, p_reason := waiting_reason t reason\<rparr>"
    and "srs_of w' = srs_of w"
proof -
  from assms obtain u w1 where 1: "run_to t ts reason code w = (Inr u, w1)"
    and 2: "agent_to a ts w1 = (Inr r, w')" unfolding thenE_returned by blast
  show "t \<in> set (workflow_run_transitions (p_run (view w)))" by (rule run_to_view(1) [OF 1])
  show "view w' = (view w)\<lparr>p_run := t, p_reason := waiting_reason t reason\<rparr>"
    unfolding agent_to_view(1) [OF 2] run_to_view(2) [OF 1] waiting_reason_def ..
  show "srs_of w' = srs_of w" using agent_to_view(2) [OF 2] run_to_view(3) [OF 1] by simp
qed

lemma pair_returned:
  assumes "thenE (run_to t ts reason code) (thenE (agent_to a ts) n) w = (Inr r, w')"
  obtains w1 where "t \<in> set (workflow_run_transitions (p_run (view w)))"
    and "view w1 = (view w)\<lparr>p_run := t, p_reason := waiting_reason t reason\<rparr>"
    and "srs_of w1 = srs_of w" and "n w1 = (Inr r, w')"
proof -
  from assms obtain u1 w1 u2 w2 where "run_to t ts reason code w = (Inr u1, w1)"
    and "agent_to a ts w1 = (Inr u2, w2)" and "n w2 = (Inr r, w')"
    unfolding thenE_returned by blast
  moreover from this(1,2) have p: "thenE (run_to t ts reason code) (agent_to a ts) w = (Inr u2, w2)"
    by (simp add: thenE_ok)
  ultimately show thesis using that [of w2] pair_last [OF p] by simp
qed

lemma finish_view:
  assumes "bindE (create_checkpoint env) (\<lambda>p. returnE (g p)) w = (Inr r, w')"
  shows "view w' = view w"
  using assms by (auto simp: bindE_returned op_apply dest: create_checkpoint_view)

lemma finish_const_view:
  assumes "thenE (create_checkpoint env) (returnE c) w = (Inr r, w')"
  shows "view w' = view w"
  using assms by (auto simp: thenE_returned op_apply dest: create_checkpoint_view)

lemma clock_returned:
  assumes "bindE (read_clock env) f w = (Inr r, w')"
  obtains ts w1 where "w_exec w1 = w_exec w" and "f ts w1 = (Inr r, w')"
  using assms by (auto simp: bindE_returned dest: read_clock_view)

lemma read_returned:
  "bindE (readE g) f w = (Inr r, w') \<longleftrightarrow> (\<exists>a. g w = Inr a \<and> f a w = (Inr r, w'))"
  by (auto simp: bindE_returned op_apply)

lemma gets_returned: "bindE (getsE g) f w = (Inr r, w') \<longleftrightarrow> f (g w) w = (Inr r, w')"
  by (auto simp: bindE_returned op_apply)

lemma guard_returned: "thenE (guardE bad ex) n w = (Inr r, w') \<longleftrightarrow> \<not> bad w \<and> n w = (Inr r, w')"
  by (auto simp: thenE_returned op_apply)

section \<open>Every returning command is a step of the protocol\<close>

lemma start_sim:
  assumes "start_execution env w = (Inr r, w')"
  shows "proto_step (view w) (view w')"
proof -
  from assms [unfolded start_execution_def] show ?thesis
  proof (elim clock_returned pair_returned)
    fix ts w1 w2 w3
    assume e: "w_exec w1 = w_exec w" "create_checkpoint env w3 = (Inr r, w')"
      and c: "Run_INITIALIZING \<in> set (workflow_run_transitions (p_run (view w1)))"
      and v: "view w2 = (view w1)\<lparr>p_run := Run_INITIALIZING, p_reason := waiting_reason Run_INITIALIZING None\<rparr>"
        "view w3 = (view w2)\<lparr>p_run := Run_RUNNING, p_reason := waiting_reason Run_RUNNING None\<rparr>"
    from c e have "p_run (view w) = Run_CREATED" by (cases "p_run (view w)") auto
    moreover have "view w' = (view w)\<lparr>p_run := Run_RUNNING, p_reason := None\<rparr>"
      using v e create_checkpoint_view [OF e(2)] by (simp add: waiting_reason_def)
    ultimately show ?thesis using P_start by simp
  qed
qed

lemma cancelled_sim:
  assumes "thenE (run_to Run_CANCELLING ts None None) (thenE (agent_to Agent_CANCELLING ts)
      (thenE (run_to Run_CANCELLED ts None None) (thenE (agent_to Agent_CANCELLED ts) n))) w = (Inr r, w')"
  obtains w1 where "Run_CANCELLING \<in> set (workflow_run_transitions (p_run (view w)))"
    and "view w1 = (view w)\<lparr>p_run := Run_CANCELLED, p_reason := None\<rparr>" and "n w1 = (Inr r, w')"
  using assms that by (elim pair_returned) (simp add: waiting_reason_def)

text \<open>What a step that after_move to a status leaves, as one step of the machine.\<close>

definition retry_left :: "proto \<Rightarrow> string \<Rightarrow> int \<Rightarrow> bool" where
  "retry_left p s a \<longleftrightarrow> (case workflow_get_step (p_workflow p) s of Inl _ \<Rightarrow> False | Inr ws \<Rightarrow> a < ws_max_attempts ws)"

definition run_with :: "WorkflowRunStatus \<Rightarrow> string option \<Rightarrow> string \<Rightarrow> int \<Rightarrow> StepRunStatus \<Rightarrow> proto \<Rightarrow> proto" where
  "run_with st reason s a t p = p\<lparr>p_run := st, p_reason := reason, p_now := (p_now p)(s \<mapsto> (a, t))\<rparr>"

definition after_move :: "StepRunStatus \<Rightarrow> bool \<Rightarrow> string \<Rightarrow> int \<Rightarrow> proto \<Rightarrow> proto" where
  "after_move t retryable s a p =
     (if t = Step_WAITING_APPROVAL then run_with Run_WAITING_FOR_APPROVAL (Some (''approval:'' @ s)) s a t p
      else if t = Step_FAILED then
        (if retryable \<and> retry_left p s a then run_with Run_RETRY_SCHEDULED (Some (''retry:'' @ s)) s a t p
         else run_with Run_FAILED None s a t p)
      else if t = Step_CANCELLED then run_with Run_CANCELLED None s a t p
      else p\<lparr>p_now := (p_now p)(s \<mapsto> (a, t))\<rparr>)"

lemma update_step_view:
  assumes "update_step_state env s t out err retryable w = (Inr r, w')"
  obtains a u where "p_run (view w) = Run_RUNNING" and "p_now (view w) s = Some (a, u)"
    and "t \<in> set (step_run_transitions u)" and "view w' = after_move t retryable s a (view w)"
proof -
  from assms [unfolded update_step_state_def require_running_def guard_returned]
  have run: "p_run (view w) = Run_RUNNING" by simp
  from assms [unfolded update_step_state_def require_running_def guard_returned]
  obtain ts w0 i u w1 where e: "w_exec w0 = w_exec w" and i: "latest_index (srs_of w) s = Some i"
    and st: "step_to i t (step_call_at ts None out err) w0 = (Inr u, w1)"
    and rest: "(if t = Step_WAITING_APPROVAL then after_waiting env s ts
        else if t = Step_FAILED then after_failed env s i ts err retryable
        else if t = Step_CANCELLED then after_cancelled env ts
        else if t = Step_COMPLETED then bindE (create_checkpoint env) (\<lambda>p. returnE (Some p))
        else returnE None) w1 = (Inr r, w')"
    by (auto elim!: clock_returned simp: read_returned thenE_returned latest_step_run_Inr)
  let ?a = "sr_attempt (srs_of w ! i)" and ?u = "sr_status (srs_of w ! i)"
  note v = step_to_view [OF st, unfolded e, OF i]
  have v1: "view w1 = (view w)\<lparr>p_now := (p_now (view w))(s \<mapsto> (?a, t))\<rparr>" by (rule v(2))
  consider "t = Step_WAITING_APPROVAL" | "t = Step_FAILED" | "t = Step_CANCELLED"
    | "t \<notin> {Step_WAITING_APPROVAL, Step_FAILED, Step_CANCELLED}" by blast
  then have "view w' = after_move t retryable s ?a (view w)"
  proof cases
    case 1
    with rest have "after_waiting env s ts w1 = (Inr r, w')" by simp
    then have "view w' = (view w1)\<lparr>p_run := Run_WAITING_FOR_APPROVAL, p_reason := Some (''approval:'' @ s)\<rparr>"
      unfolding after_waiting_def by (elim pair_returned) (simp add: waiting_reason_def finish_view)
    then show ?thesis by (simp add: v1 1 after_move_def run_with_def)
  next
    case 2
    with rest have "after_failed env s i ts err retryable w1 = (Inr r, w')" by simp
    then obtain ws w2 u2 where ws: "workflow_get_step (ex_workflow (w_exec w1)) s = Inr ws"
      and br: "(if retryable \<and> sr_attempt (srs_of w1 ! i) < ws_max_attempts ws then
           thenE (run_to Run_RETRY_SCHEDULED ts (Some (''retry:'' @ s)) None) (agent_to Agent_WAITING ts)
         else thenE (run_to Run_FAILED ts None
                    (Some (case err of None \<Rightarrow> ''STEP_FAILED''
                     | Some c \<Rightarrow> if c = [] then ''STEP_FAILED'' else c))) (agent_to Agent_FAILED ts)) w1
          = (Inr u2, w2)"
      and w': "view w' = view w2"
      unfolding after_failed_def read_returned gets_returned thenE_returned
      by (auto dest: finish_view simp: read_returned gets_returned thenE_returned)
    have "retry_left (view w) s ?a \<longleftrightarrow> ?a < ws_max_attempts ws"
      using ws arg_cong [OF v1, of p_workflow] by (simp add: retry_left_def)
    moreover have "view w2 = (if retryable \<and> ?a < ws_max_attempts ws
        then (view w1)\<lparr>p_run := Run_RETRY_SCHEDULED, p_reason := Some (''retry:'' @ s)\<rparr>
        else (view w1)\<lparr>p_run := Run_FAILED, p_reason := None\<rparr>)"
      using br v(5) by (auto dest: pair_last simp: waiting_reason_def split: if_splits)
    ultimately show ?thesis by (simp add: v1 2 w' after_move_def run_with_def)
  next
    case 3
    with rest have "after_cancelled env ts w1 = (Inr r, w')" by simp
    then have "view w' = (view w1)\<lparr>p_run := Run_CANCELLED, p_reason := None\<rparr>"
      unfolding after_cancelled_def by (elim cancelled_sim) (simp add: finish_view)
    then show ?thesis by (simp add: v1 3 after_move_def run_with_def)
  next
    case 4
    with rest have "view w' = view w1" by (auto dest: finish_view simp: op_apply split: if_splits)
    with v1 4 show ?thesis by (simp add: after_move_def)
  qed
  with that [of ?a ?u] run now_of_latest [OF i] v(1) show thesis by simp
qed

lemma update_sim:
  assumes "update_step_state env s t out err retryable w = (Inr r, w')"
  shows "proto_step (view w) (view w')"
proof -
  obtain a u where run: "p_run (view w) = Run_RUNNING" and now: "p_now (view w) s = Some (a, u)"
    and t: "t \<in> set (step_run_transitions u)" and v: "view w' = after_move t retryable s a (view w)"
    by (rule update_step_view [OF assms])
  have running: "u = Step_RUNNING" if "t = Step_WAITING_APPROVAL \<or> t = Step_FAILED"
    using t that by (cases u) auto
  have "t \<noteq> Step_CREATED" using t by (cases u) auto
  then consider "t = Step_WAITING_APPROVAL" | "t = Step_FAILED" | "t = Step_CANCELLED"
    | "t \<in> {Step_READY, Step_RUNNING, Step_COMPLETED, Step_SKIPPED}"
    by (cases t) auto
  then show ?thesis
  proof cases
    case 1
    with P_wait [OF run, of s a] now running v show ?thesis by (simp add: after_move_def run_with_def)
  next
    case 2
    show ?thesis
    proof (cases "retryable \<and> retry_left (view w) s a")
      case True
      then obtain ws where "workflow_get_step (p_workflow (view w)) s = Inr ws" "a < ws_max_attempts ws"
        by (auto simp: retry_left_def split: sum.splits)
      with P_retry [OF run, of s a ws] now running v 2 True show ?thesis by (simp add: after_move_def run_with_def)
    next
      case False
      with P_step_failed [OF run, of s a] now running v 2 show ?thesis by (simp add: after_move_def run_with_def)
    qed
  next
    case 3
    moreover have "\<not> step_is_terminal u" using t 3 by (cases u) auto
    ultimately show ?thesis using P_step_cancelled [OF run now] v by (simp add: after_move_def run_with_def)
  next
    case 4
    with P_move [OF run now t] v show ?thesis by (auto simp: after_move_def)
  qed
qed

lemma mark_ready_view:
  assumes "mark_step_ready env s inp chk w = (Inr r, w')"
  obtains a u where "p_run (view w) = Run_RUNNING" and "p_now (view w) s = Some (a, u)"
    and "Step_READY \<in> set (step_run_transitions u)" and "view w' = after_move Step_READY False s a (view w)"
proof -
  from assms [unfolded mark_step_ready_def require_running_def guard_returned]
  have run: "p_run (view w) = Run_RUNNING" by simp
  from assms [unfolded mark_step_ready_def require_running_def guard_returned]
  obtain ts w0 i u w1 where e: "w_exec w0 = w_exec w" and i: "latest_index (srs_of w) s = Some i"
    and st: "step_to i Step_READY (step_call_at ts inp None None) w0 = (Inr u, w1)"
    and rest: "(if chk then bindE (create_checkpoint env) (\<lambda>p. returnE (Some p))
        else returnE None) w1 = (Inr r, w')"
    by (auto elim!: clock_returned simp: read_returned thenE_returned latest_step_run_Inr)
  note v = step_to_view [OF st, unfolded e, OF i]
  from rest have "view w' = view w1" by (auto dest: finish_view simp: op_apply split: if_splits)
  with that [OF run now_of_latest [OF i, folded proto_of_sel(4)] v(1)] v(2) show thesis by (simp add: after_move_def)
qed

lemma mark_ready_sim:
  assumes "mark_step_ready env s inp chk w = (Inr r, w')"
  shows "proto_step (view w) (view w')"
proof -
  obtain a u where "p_run (view w) = Run_RUNNING" "p_now (view w) s = Some (a, u)"
    "Step_READY \<in> set (step_run_transitions u)" and v: "view w' = after_move Step_READY False s a (view w)"
    by (rule mark_ready_view [OF assms])
  from P_move [OF this(1-3)] v show ?thesis by (simp add: after_move_def)
qed

lemma complete_view:
  assumes "complete_workflow env out w = (Inr r, w')"
  shows "p_run (view w) = Run_RUNNING"
    and "\<forall>s \<in> set (workflow_step_ids (p_workflow (view w))). \<exists>a u. p_now (view w) s = Some (a, u) \<and> successful u"
    and "view w' = (view w)\<lparr>p_run := Run_COMPLETED, p_reason := None\<rparr>"
proof -
  let ?finish = "\<lambda>ts. thenE (modifyE (\<lambda>w. set_run (workflow_run_set_outputs out (ex_workflow_run (w_exec w))) w))
      (thenE (run_to Run_COMPLETED ts None None) (thenE (agent_to Agent_COMPLETED ts)
      (create_checkpoint env)))"
  from assms [unfolded complete_workflow_def read_returned guard_returned]
  obtain cur where cur: "current_step_runs (w_exec w) = Inr cur"
    and "\<not> \<not> list_all (\<lambda>i. sr_status (srs_of w ! i) \<in> {Step_COMPLETED, Step_SKIPPED}) cur"
    and c: "bindE (read_clock env) ?finish w = (Inr r, w')" by blast
  then have ok: "\<forall>i \<in> set cur. successful (sr_status (srs_of w ! i))"
    by (simp add: list_all_iff successful_def)
  from c obtain ts w0 where e: "w_exec w0 = w_exec w" and rest: "?finish ts w0 = (Inr r, w')"
    by (rule clock_returned)
  have v0: "view (set_run (workflow_run_set_outputs out (ex_workflow_run (w_exec w0))) w0) = view w"
    by (simp add: proto_of_def set_run_def workflow_run_set_outputs_def e)
  from rest have "thenE (run_to Run_COMPLETED ts None None) (thenE (agent_to Agent_COMPLETED ts)
      (create_checkpoint env)) (set_run (workflow_run_set_outputs out (ex_workflow_run (w_exec w0))) w0)
      = (Inr r, w')" by (simp only: thenE_returned [of "modifyE _"] op_apply prod.inject) blast
  then have run: "Run_COMPLETED \<in> set (workflow_run_transitions (p_run (view w)))"
    and v: "view w' = (view w)\<lparr>p_run := Run_COMPLETED, p_reason := None\<rparr>"
    by (elim pair_returned; simp add: v0 waiting_reason_def create_checkpoint_view del: proto_of_sel)+
  from run show "p_run (view w) = Run_RUNNING" by (cases "p_run (view w)") auto
  show "view w' = (view w)\<lparr>p_run := Run_COMPLETED, p_reason := None\<rparr>" by (rule v)
  have "\<exists>a u. p_now (view w) s = Some (a, u) \<and> successful u"
    if "s \<in> set (workflow_step_ids (p_workflow (view w)))" for s
  proof -
    from that obtain ws where "ws \<in> set (wf_steps (ex_workflow (w_exec w)))" "ws_id ws = s"
      by (auto simp: workflow_step_ids_def)
    then have "latest_index (srs_of w) s \<in>
        set (map (\<lambda>s. latest_index (srs_of w) (ws_id s)) (wf_steps (ex_workflow (w_exec w))))" by auto
    then have "latest_index (srs_of w) s \<in> Some ` set cur"
      unfolding current_step_runs_Inr [THEN iffD1, OF cur] by simp
    then obtain i where "i \<in> set cur" "latest_index (srs_of w) s = Some i" by auto
    with ok show ?thesis by (auto simp: now_of_latest)
  qed
  then show "\<forall>s \<in> set (workflow_step_ids (p_workflow (view w))). \<exists>a u. p_now (view w) s = Some (a, u) \<and> successful u"
    by blast
qed

lemma complete_sim: "complete_workflow env out w = (Inr r, w') \<Longrightarrow> proto_step (view w) (view w')"
  using P_complete [OF complete_view(1,2)] complete_view(3) by metis

text \<open>The loop over the current step runs cancels every open step.\<close>

definition cancel_at :: "string set \<Rightarrow> (string \<Rightarrow> (int \<times> StepRunStatus) option) \<Rightarrow> string \<Rightarrow> (int \<times> StepRunStatus) option" where
  "cancel_at S m = (\<lambda>s. if s \<in> S then cancel_now m s else m s)"

lemma cancel_now_same: "m s = m' s \<Longrightarrow> cancel_now m s = cancel_now m' s"
  by (simp add: cancel_now_def)

lemma cancel_now_twice: "cancel_now (cancel_now m) s = cancel_now m s"
proof (cases "m s")
  case (Some au)
  then obtain a u where "m s = Some (a, u)" by (cases au) simp
  then show ?thesis by (simp add: cancel_now_def)
qed (simp add: cancel_now_def)

lemma cancel_at_twice: "cancel_at A (cancel_at {s} m) = cancel_at ({s} \<union> A) m"
proof
  fix s'
  have "cancel_now (cancel_at {s} m) s' = cancel_now m s'"
    using cancel_now_twice [of m s'] cancel_now_same [of "cancel_at {s} m" s']
    by (cases "s' = s") (simp_all add: cancel_at_def cancel_now_def)
  then show "cancel_at A (cancel_at {s} m) s' = cancel_at ({s} \<union> A) m s'"
    by (cases "s' = s") (simp_all add: cancel_at_def)
qed

lemma cancel_open_view:
  assumes "cancel_open_steps ts js w = (Inr r, w')"
    and "map (latest_index (srs_of w)) ids = map Some js"
  shows "view w' = (view w)\<lparr>p_now := cancel_at (set ids) (p_now (view w))\<rparr>"
  using assms
proof (induction js arbitrary: w ids)
  case Nil
  then show ?case by (simp add: cancel_open_steps_def op_apply cancel_at_def proto_of_def)
next
  case (Cons j js)
  then obtain s ids' where ids: "ids = s # ids'" and s: "latest_index (srs_of w) s = Some j"
    and rest: "map (latest_index (srs_of w)) ids' = map Some js" by (cases ids) auto
  let ?m = "p_now (view w)" and ?a = "sr_attempt (srs_of w ! j)" and ?u = "sr_status (srs_of w ! j)"
  have now: "?m s = Some (?a, ?u)" using s by (simp add: now_of_latest)
  from Cons.prems(1) obtain u w1 where
    1: "(if step_is_terminal ?u then returnE ()
         else step_to j Step_CANCELLED (step_call_at ts None None None)) w = (Inr u, w1)"
    and 2: "cancel_open_steps ts js w1 = (Inr r, w')"
    unfolding cancel_open_steps_def forE.simps thenE_returned gets_returned by blast
  have v1: "view w1 = (view w)\<lparr>p_now := cancel_at {s} ?m\<rparr> \<and>
      (\<forall>s'. latest_index (srs_of w1) s' = latest_index (srs_of w) s')"
  proof (cases "step_is_terminal ?u")
    case True
    then have "cancel_at {s} ?m = ?m" using now by (auto simp: cancel_at_def cancel_now_def)
    with 1 True show ?thesis by (simp add: op_apply proto_of_def del: step_is_terminal.simps)
  next
    case False
    then have "cancel_at {s} ?m = ?m(s \<mapsto> (?a, Step_CANCELLED))"
      using now by (auto simp: cancel_at_def cancel_now_def)
    with 1 False step_to_view(2,3) [of j Step_CANCELLED _ w _ w1, OF _ s] show ?thesis by simp
  qed
  with Cons.IH [OF 2, of ids'] rest
  have "view w' = (view w)\<lparr>p_now := cancel_at (set ids') (cancel_at {s} ?m)\<rparr>" by simp
  moreover have "cancel_at (set ids') (cancel_at {s} ?m) = cancel_at (set ids) ?m"
    by (simp only: ids cancel_at_twice list.set insert_is_Un [symmetric])
  ultimately show ?case by simp
qed

lemma cancel_open_all:
  assumes "cancel_open_steps ts cur w = (Inr r, w')" and "current_step_runs (w_exec w) = Inr cur"
    and "attempts_ok (w_exec w)"
  shows "view w' = (view w)\<lparr>p_now := cancel_now (p_now (view w))\<rparr>"
proof -
  let ?ids = "workflow_step_ids (ex_workflow (w_exec w))"
  have "map (latest_index (srs_of w)) ?ids = map Some cur"
    using current_step_runs_Inr [THEN iffD1, OF assms(2)] by (simp add: workflow_step_ids_def o_def)
  note v = cancel_open_view [OF assms(1) this]
  have "p_now (view w) s = None" if "s \<notin> set ?ids" for s
    using that assms(3) latest_index_None [of "srs_of w" s] by (simp add: attempts_ok_def now_of_def)
  then have "cancel_at (set ?ids) (p_now (view w)) = cancel_now (p_now (view w))"
    by (auto simp: cancel_at_def cancel_now_def fun_eq_iff)
  with v show ?thesis by simp
qed

lemma fail_view:
  assumes "fail_execution env err w = (Inr r, w')" and "attempts_ok (w_exec w)"
  shows "p_run (view w) \<in> {Run_INITIALIZING, Run_RUNNING}"
    and "view w' = (view w)\<lparr>p_run := Run_FAILED, p_reason := None, p_now := cancel_now (p_now (view w))\<rparr>"
proof -
  from assms(1) obtain ts w0 cur u w1 where e: "w_exec w0 = w_exec w"
    and cur: "current_step_runs (w_exec w) = Inr cur"
    and c: "cancel_open_steps ts cur w0 = (Inr u, w1)"
    and rest: "thenE (run_to Run_FAILED ts None (Some err)) (thenE (agent_to Agent_FAILED ts)
       (create_checkpoint env)) w1 = (Inr r, w')"
    unfolding fail_execution_def
    by (auto elim!: clock_returned simp: read_returned thenE_returned [of "cancel_open_steps _ _"])
  from cancel_open_all [OF c] e cur assms(2)
  have v1: "view w1 = (view w)\<lparr>p_now := cancel_now (p_now (view w))\<rparr>" by simp
  from rest have run: "Run_FAILED \<in> set (workflow_run_transitions (p_run (view w1)))"
    and v: "view w' = (view w1)\<lparr>p_run := Run_FAILED, p_reason := None\<rparr>"
    by (elim pair_returned; simp add: waiting_reason_def create_checkpoint_view del: proto_of_sel)+
  from run show "p_run (view w) \<in> {Run_INITIALIZING, Run_RUNNING}"
    unfolding v1 by (cases "p_run (view w)") auto
  show "view w' = (view w)\<lparr>p_run := Run_FAILED, p_reason := None, p_now := cancel_now (p_now (view w))\<rparr>"
    by (simp add: v v1)
qed

lemma fail_sim:
  "fail_execution env err w = (Inr r, w') \<Longrightarrow> attempts_ok (w_exec w) \<Longrightarrow> proto_step (view w) (view w')"
  using P_fail [OF fail_view(1)] fail_view(2) by metis

lemma cancel_view:
  assumes "cancel_execution env w = (Inr r, w')" and "attempts_ok (w_exec w)"
  shows "\<not> run_is_terminal (p_run (view w))" and "p_run (view w) \<noteq> Run_CANCELLING"
    and "view w' = (view w)\<lparr>p_run := Run_CANCELLED, p_reason := None, p_now := cancel_now (p_now (view w))\<rparr>"
proof -
  from assms(1) obtain ts w0 cur u w1 where e: "w_exec w0 = w_exec w"
    and nt: "\<not> run_is_terminal (p_run (view w))"
    and cur: "current_step_runs (w_exec w) = Inr cur"
    and c: "cancel_open_steps ts cur w0 = (Inr u, w1)"
    and rest: "thenE (run_to Run_CANCELLING ts None None) (thenE (agent_to Agent_CANCELLING ts)
       (thenE (run_to Run_CANCELLED ts None None) (thenE (agent_to Agent_CANCELLED ts)
       (create_checkpoint env)))) w1 = (Inr r, w')"
    unfolding cancel_execution_def guard_returned
    by (auto elim!: clock_returned simp: read_returned thenE_returned [of "cancel_open_steps _ _"])
  from cancel_open_all [OF c] e cur assms(2)
  have v1: "view w1 = (view w)\<lparr>p_now := cancel_now (p_now (view w))\<rparr>" by simp
  from rest have run: "Run_CANCELLING \<in> set (workflow_run_transitions (p_run (view w1)))"
    and v: "view w' = (view w1)\<lparr>p_run := Run_CANCELLED, p_reason := None\<rparr>"
    by (elim cancelled_sim; simp add: create_checkpoint_view del: proto_of_sel)+
  show "\<not> run_is_terminal (p_run (view w))" by (rule nt)
  show "p_run (view w) \<noteq> Run_CANCELLING" using run unfolding v1 by auto
  show "view w' = (view w)\<lparr>p_run := Run_CANCELLED, p_reason := None, p_now := cancel_now (p_now (view w))\<rparr>"
    by (simp add: v v1)
qed

lemma cancel_sim:
  "cancel_execution env w = (Inr r, w') \<Longrightarrow> attempts_ok (w_exec w) \<Longrightarrow> proto_step (view w) (view w')"
  using P_cancel [OF cancel_view(1,2)] cancel_view(3) by metis

lemma back_to_running_view:
  assumes "back_to_running ts w = (Inr r, w')"
  shows "Run_RUNNING \<in> set (workflow_run_transitions (p_run (view w)))"
    and "view w' = (view w)\<lparr>p_run := Run_RUNNING, p_reason := None\<rparr>" and "srs_of w' = srs_of w"
  using assms pair_last [of Run_RUNNING ts None None Agent_ACTIVE w r w']
  unfolding back_to_running_def by (simp_all add: waiting_reason_def)

lemma add_retry_view:
  assumes "add_retry_attempt env i ts w = (Inr r, w')" and "latest_index (srs_of w) s = Some i"
  shows "view w' = (view w)\<lparr>p_now := (p_now (view w))(s \<mapsto> (sr_attempt (srs_of w ! i) + 1, Step_READY))\<rparr>"
proof -
  define w0 where "w0 = w\<lparr>w_ids := Suc (w_ids w)\<rparr>"
  then have e: "w_exec w0 = w_exec w" by simp
  from assms(1) obtain sid r' where r': "retry_step_run sid (ex_workflow_run (w_exec w)) (srs_of w ! i) ts = Inr r'"
    and rest: "bindE (create_checkpoint env) (\<lambda>_. returnE (length (srs_of w))) (add_step r' w0) = (Inr r, w')"
    unfolding add_retry_attempt_def Let_def retry_step_run_def [symmetric] bindE_returned [of "new_id _ _"]
    by (auto simp: new_id_def gets_returned read_returned thenE_returned op_apply w0_def)
  note n = retry_step_run_ok [OF r'] and l = latest_index_Some(2) [OF assms(2)]
  have 1: "view w' = view (add_step r' w0)" using rest by (rule finish_view)
  have 2: "view (add_step r' w0) = (view w)\<lparr>p_now := now_of (srs_of w @ [r'])\<rparr>"
    by (simp add: proto_of_def add_step_def e)
  have 3: "now_of (srs_of w @ [r']) =
      (now_of (srs_of w))(s \<mapsto> (sr_attempt (srs_of w ! i) + 1, Step_READY))"
    using now_of_append [OF assms(2), of r'] n l by simp
  show ?thesis by (simp only: 1 2 3 proto_of_sel)
qed

lemma resume_approval_sim:
  assumes "resume_waiting_approval env ts w = (Inr r, w')" and "p_run (view w) = Run_WAITING_FOR_APPROVAL"
  shows "proto_step (view w) (view w')"
proof -
  from assms(1) obtain i u1 w1 u2 w2 where i: "step_with_status Step_WAITING_APPROVAL (w_exec w) = Inr i"
    and 1: "back_to_running ts w = (Inr u1, w1)"
    and 2: "step_to i Step_RUNNING (step_call_at ts None None None) w1 = (Inr u2, w2)"
    and 3: "thenE (create_checkpoint env) (returnE (Some i)) w2 = (Inr r, w')"
    unfolding resume_waiting_approval_def read_returned thenE_returned [of "back_to_running _"]
      thenE_returned [of "step_to _ _ _"] by blast
  let ?s = "sr_step_id (srs_of w ! i)" and ?a = "sr_attempt (srs_of w ! i)"
  note l = step_with_status_Inr [OF i] and b = back_to_running_view [OF 1]
  have "view w' = (view w)\<lparr>p_run := Run_RUNNING, p_reason := None,
      p_now := (p_now (view w))(?s \<mapsto> (?a, Step_RUNNING))\<rparr>"
    unfolding finish_const_view [OF 3] step_to_view(2) [OF 2, unfolded b(3), OF l(1)] b(2) by simp
  moreover have "p_now (view w) ?s = Some (?a, Step_WAITING_APPROVAL)"
    using now_of_latest [OF l(1)] l(2) by simp
  ultimately show ?thesis using P_approved [OF assms(2)] by simp
qed

lemma resume_input_sim:
  assumes "resume_waiting_input env ts w = (Inr r, w')" and "p_run (view w) = Run_WAITING_FOR_INPUT"
  shows "proto_step (view w) (view w')"
proof -
  from assms(1) obtain u1 w1 where 1: "back_to_running ts w = (Inr u1, w1)"
    and 2: "thenE (create_checkpoint env) (returnE None) w1 = (Inr r, w')"
    unfolding resume_waiting_input_def thenE_returned [of "back_to_running _"] by blast
  from P_input [OF assms(2)] show ?thesis
    unfolding finish_const_view [OF 2] back_to_running_view(2) [OF 1] by simp
qed

lemma resume_retry_sim:
  assumes "resume_retry env state ts w = (Inr r, w')" and "p_run (view w) = Run_RETRY_SCHEDULED"
  shows "proto_step (view w) (view w')"
proof -
  from assms(1) obtain s i ws u1 w1 j where i: "latest_index (srs_of w) s = Some i"
    and f: "sr_status (srs_of w ! i) = Step_FAILED"
    and ws: "workflow_get_step (ex_workflow (w_exec w)) s = Inr ws"
    and a: "sr_attempt (srs_of w ! i) < ws_max_attempts ws"
    and 1: "back_to_running ts w = (Inr u1, w1)" and 2: "add_retry_attempt env i ts w1 = (Inr j, w')"
    unfolding resume_retry_def read_returned guard_returned thenE_returned [of "back_to_running _"]
      latest_step_run_Inr not_le by (auto simp: bindE_returned op_apply)
  note b = back_to_running_view [OF 1]
  have "view w' = (view w)\<lparr>p_run := Run_RUNNING, p_reason := None,
      p_now := (p_now (view w))(s \<mapsto> (sr_attempt (srs_of w ! i) + 1, Step_READY))\<rparr>"
    unfolding add_retry_view [OF 2, unfolded b(3), OF i] b(2) by simp
  moreover have "p_now (view w) s = Some (sr_attempt (srs_of w ! i), Step_FAILED)"
    using now_of_latest [OF i] f by simp
  ultimately show ?thesis using P_retried [OF assms(2), of s _ ws] ws a by simp
qed

lemma resume_interrupted_sim:
  assumes "resume_interrupted env ts w = (Inr r, w')" and "p_run (view w) = Run_RUNNING"
  shows "proto_step (view w) (view w')"
proof -
  from assms(1) obtain cur where cur: "current_step_runs (w_exec w) = Inr cur"
    and act: "(case filter (\<lambda>i. sr_status (srs_of w ! i) = Step_RUNNING) cur of
          [] \<Rightarrow> returnE None
        | [i] \<Rightarrow>
            bindE (getsE (\<lambda>w. ex_step_runs (w_exec w) ! i))
            (\<lambda>interrupted. bindE (readE (\<lambda>w. workflow_get_step (ex_workflow (w_exec w))
                                            (sr_step_id interrupted)))
            (\<lambda>ws. thenE (step_to i Step_FAILED (step_call_at ts None None (Some ''INTERRUPTED'')))
              (if ws_max_attempts ws \<le> sr_attempt interrupted then
                 thenE (run_to Run_FAILED ts None (Some ''INTERRUPTED_RETRY_EXHAUSTED''))
                 (thenE (agent_to Agent_FAILED ts)
                 (thenE (create_checkpoint env)
                 (raiseE (ExecutionNotResumableError
                    (''Interrupted step '' @ sr_step_id interrupted @ '' has no retry remaining'')))))
               else bindE (add_retry_attempt env i ts) (\<lambda>j. returnE (Some j)))))
        | _ # _ # _ \<Rightarrow> raiseE (CheckpointMismatchError ''V1 checkpoint contains more than one active step''))
       w = (Inr r, w')"
    unfolding resume_interrupted_def read_returned gets_returned by blast
  show ?thesis
  proof (cases "filter (\<lambda>i. sr_status (srs_of w ! i) = Step_RUNNING) cur")
    case Nil
    with act show ?thesis by (simp add: op_apply P_skip)
  next
    case (Cons i more)
    with act have more: "more = []" by (cases more) (simp_all add: op_apply)
    from Cons have "i \<in> set cur" and st: "sr_status (srs_of w ! i) = Step_RUNNING"
      by (auto simp: filter_eq_Cons_iff)
    let ?s = "sr_step_id (srs_of w ! i)" and ?a = "sr_attempt (srs_of w ! i)"
    have i: "latest_index (srs_of w) ?s = Some i"
      by (rule current_step_runs_latest [OF cur \<open>i \<in> set cur\<close>])
    from act [unfolded Cons more list.case gets_returned read_returned thenE_returned [of "step_to _ _ _"]]
    obtain ws u1 w1 where ws: "workflow_get_step (ex_workflow (w_exec w)) ?s = Inr ws"
      and 1: "step_to i Step_FAILED (step_call_at ts None None (Some ''INTERRUPTED'')) w = (Inr u1, w1)"
      and a: "\<not> ws_max_attempts ws \<le> ?a"
      and 2: "bindE (add_retry_attempt env i ts) (\<lambda>j. returnE (Some j)) w1 = (Inr r, w')"
      by (auto split: if_splits simp: thenE_returned op_apply)
    from 2 obtain j where j: "add_retry_attempt env i ts w1 = (Inr j, w')"
      by (auto simp: bindE_returned op_apply)
    note v = step_to_view [OF 1 i]
    have "view w' = (view w)\<lparr>p_now := (p_now (view w))(?s \<mapsto> (?a + 1, Step_READY))\<rparr>"
      unfolding add_retry_view [OF j v(3) [THEN trans, OF i]] v(5) v(2) by simp
    moreover have "p_now (view w) ?s = Some (?a, Step_RUNNING)" using now_of_latest [OF i] st by simp
    ultimately show ?thesis using P_interrupted [OF assms(2), of ?s ?a ws] ws a by simp
  qed
qed

lemma resume_sim:
  assumes "resume_from_checkpoint env p w = (Inr r, w')"
  shows "proto_step (view w) (view w')"
proof -
  let ?body = "\<lambda>state timestamp run_status.
        if run_status = Run_WAITING_FOR_APPROVAL then resume_waiting_approval env timestamp
        else if run_status = Run_WAITING_FOR_INPUT then resume_waiting_input env timestamp
        else if run_status = Run_RETRY_SCHEDULED then resume_retry env state timestamp
        else if run_status = Run_RUNNING then resume_interrupted env timestamp
        else raiseE (ExecutionNotResumableError
               (''WorkflowRun in '' @ run_status_value run_status @ '' cannot resume from a checkpoint''))"
  from assms [unfolded resume_from_checkpoint_def read_returned] obtain state where
    "bindE (read_clock env) (\<lambda>ts. bindE (getsE (\<lambda>w. wr_status (ex_workflow_run (w_exec w))))
       (?body state ts)) w = (Inr r, w')" by blast
  then show ?thesis
  proof (rule clock_returned)
    fix ts w0
    assume e: "w_exec w0 = w_exec w"
      and "bindE (getsE (\<lambda>w. wr_status (ex_workflow_run (w_exec w)))) (?body state ts) w0 = (Inr r, w')"
    from this(2) have "?body state ts (wr_status (ex_workflow_run (w_exec w0))) w0 = (Inr r, w')"
      unfolding gets_returned .
    then have "proto_step (view w0) (view w')"
      using resume_approval_sim [of env ts w0 r w'] resume_input_sim [of env ts w0 r w']
        resume_retry_sim [of env state ts w0 r w'] resume_interrupted_sim [of env ts w0 r w']
      by (simp add: op_apply split: if_splits)
    with e show "proto_step (view w) (view w')" by simp
  qed
qed

lemma coord_do_sim:
  assumes "coord_do env cmd w = (Inr (), w')" and "attempts_ok (w_exec w)"
  shows "proto_step (view w) (view w')"
proof -
  have drop: "\<exists>a. m w = (Inr a, w')" if "thenE m (returnE ()) w = (Inr (), w')" for m :: "(world, 'a) op"
    using that by (auto simp: thenE_returned op_apply)
  show ?thesis
  proof (cases cmd)
    case Cmd_checkpoint
    with assms have "view w' = view w" by (auto dest!: drop dest: create_checkpoint_view(1))
    then show ?thesis by (simp add: P_skip)
  qed (use assms in \<open>auto dest!: drop intro: start_sim update_sim mark_ready_sim complete_sim fail_sim
      cancel_sim resume_sim\<close>)
qed

section \<open>Histories of commands that return\<close>

inductive coord_runs :: "coordinator_env \<Rightarrow> world \<Rightarrow> bool" for env where
  run_new: "workflow_valid w0 \<Longrightarrow>
    create_workflow_run env w0 project actor key inputs profile ticks ids = Inr w \<Longrightarrow>
    coord_runs env w"
| run_call: "coord_runs env w \<Longrightarrow> coord_do env cmd w = (Inr (), w') \<Longrightarrow> coord_runs env w'"

lemma coord_runs_reach: "coord_runs env w \<Longrightarrow> coord_reach env w"
  by (induction rule: coord_runs.induct) (auto intro: coord_reach.intros)

lemma coord_runs_attempts: "coord_runs env w \<Longrightarrow> attempts_ok (w_exec w)"
  by (rule attempts.reach_inv [OF coord_runs_reach])

lemma fresh_proto_ok:
  assumes "fresh_execution w0 x"
  shows "proto_ok (proto_of x)"
proof -
  have "sr_status (ex_step_runs x ! i) = Step_CREATED" if "i < length (ex_step_runs x)" for i
    using assms that by (auto simp: fresh_execution_def list_all2_conv_all_nth fresh_step_run_def)
  then have "all_live_but {} (now_of (ex_step_runs x))"
    by (auto simp: all_live_but_def now_of_def live_def dest: latest_index_Some(1))
  with assms show ?thesis by (simp add: proto_ok_def fresh_execution_def)
qed

lemma coord_runs_ok: "coord_runs env w \<Longrightarrow> proto_ok (view w)"
proof (induction rule: coord_runs.induct)
  case (run_new w0 project actor key inputs profile ticks ids w)
  from create_workflow_run_fresh [OF run_new(2)] obtain x p where x: "fresh_execution w0 x"
    and w: "w_exec w = x\<lparr>ex_checkpoints := [p]\<rparr>" by blast
  have "view w = proto_of x" by (simp add: w proto_of_def)
  with fresh_proto_ok [OF x] show ?case by simp
next
  case (run_call w cmd w')
  with coord_do_sim [OF run_call(2)] coord_runs_attempts show ?case by (auto intro: proto_step_ok)
qed

end
