(* ===== verification/Execution_Resume.thy ===== *)
theory Execution_Resume
  imports Execution_Proto
begin

text \<open>
  A checkpoint that was just created describes the aggregate: validating it succeeds. With
  the invariants of the aggregate this makes resuming a scheduled retry succeed whenever the
  environment supplies aware timestamps, non-blank identifiers and non-blank hashes.
\<close>

section \<open>Reading a canonical dictionary\<close>

definition canon_map :: "pymap \<Rightarrow> pymap" where
  "canon_map m = map (\<lambda>(k, v). (k, json_canon v)) (sort_key fst m)"

lemma json_canon_dict: "json_canon (VDict m) = VDict (canon_map m)"
  by (simp add: canon_map_def)

lemma canon_map_lookup:
  "distinct (map fst m) \<Longrightarrow> map_of (canon_map m) k = map_option json_canon (map_of m k)"
  unfolding canon_map_def by (rule json_canon_lookup)

lemma py_get_canon:
  "distinct (map fst m) \<Longrightarrow>
   py_get (json_canon (VDict m)) k = Inr (case map_of m k of None \<Rightarrow> VNone | Some v \<Rightarrow> json_canon v)"
  unfolding json_canon_dict by (simp add: canon_map_lookup split: option.splits)

section \<open>A fresh checkpoint is accepted\<close>

lemma check_aggregate_fresh:
  "check_aggregate_state x (canon_map (snapshot x)) = Inr ()"
proof -
  have d: "distinct (map fst (snapshot x))" by (simp add: snapshot_def Let_def)
  have r: "require_str (json_canon (VDict m)) k s msg = Inr ()"
    if "distinct (map fst m)" "map_of m k = Some (VStr s)" for m k s msg
    unfolding require_str_def py_get_canon [OF that(1)] that(2) by simp
  have n: "require_int (json_canon (VDict m)) k i msg = Inr ()"
    if "distinct (map fst m)" "map_of m k = Some (VInt i)" for m k i msg
    unfolding require_int_def py_get_canon [OF that(1)] that(2) by simp
  have parts: "get_or_empty (canon_map (snapshot x)) ''workflow'' = json_canon (VDict
         [(''id'', VStr (wf_id (ex_workflow x))), (''version'', VStr (wf_version (ex_workflow x))),
          (''schema_version'', VStr (wf_schema_version (ex_workflow x)))])"
    "get_or_empty (canon_map (snapshot x)) ''workflow_run'' = json_canon (VDict
         [(''id'', VStr (wr_id (ex_workflow_run x))),
          (''project_id'', VStr (wr_project_id (ex_workflow_run x))),
          (''status'', VStr (run_status_value (wr_status (ex_workflow_run x)))),
          (''row_version'', VInt (wr_row_version (ex_workflow_run x))),
          (''wait_reason'', opt_str (wr_wait_reason (ex_workflow_run x))),
          (''error_code'', opt_str (wr_error_code (ex_workflow_run x))),
          (''outputs'', VDict (thaw_map (wr_outputs (ex_workflow_run x))))])"
    "get_or_empty (canon_map (snapshot x)) ''agent_session'' = json_canon (VDict
         [(''id'', VStr (as_id (ex_agent_session x))),
          (''status'', VStr (agent_status_value (as_status (ex_agent_session x)))),
          (''row_version'', VInt (as_row_version (ex_agent_session x)))])"
    unfolding get_or_empty_def canon_map_lookup [OF d] by (simp_all add: snapshot_def Let_def)
  show ?thesis unfolding check_aggregate_state_def parts Let_def
    by (simp add: r n del: json_canon.simps)
qed

lemma steps_by_id_snoc:
  "steps_by_id (items @ [VDict m]) =
     (case map_of m ''id'' of Some (VStr i) \<Rightarrow> dict_set i m (steps_by_id items) | _ \<Rightarrow> steps_by_id items)"
  by (simp add: steps_by_id_def split: option.splits pyval.splits)

lemma steps_by_id_fresh:
  assumes "distinct (map sr_id srs)"
  shows "steps_by_id (map (json_canon \<circ> step_snapshot) srs) =
    map (\<lambda>s. (sr_id s, canon_map (case step_snapshot s of VDict m \<Rightarrow> m | _ \<Rightarrow> []))) srs"
  using assms
proof (induction srs rule: rev_induct)
  case Nil
  then show ?case by (simp add: steps_by_id_def)
next
  case (snoc s srs)
  define m where "m = (case step_snapshot s of VDict m \<Rightarrow> m | _ \<Rightarrow> [])"
  have m: "step_snapshot s = VDict m" and d: "distinct (map fst m)"
    and i: "map_of m ''id'' = Some (VStr (sr_id s))"
    by (simp_all add: m_def step_snapshot_def)
  have "dict_set (sr_id s) (canon_map m) d = d @ [(sr_id s, canon_map m)]"
    if "sr_id s \<notin> fst ` set d" for d
    using that by (rule dict_set_new)
  moreover have "map_of (canon_map m) ''id'' = Some (VStr (sr_id s))"
    by (simp add: canon_map_lookup [OF d] i)
  ultimately show ?case using snoc m
    by (simp add: steps_by_id_snoc json_canon_dict image_image o_def del: json_canon.simps)
qed

lemma check_steps_fresh:
  assumes "distinct (map sr_id (ex_step_runs x))"
  shows "check_step_states x (canon_map (snapshot x)) = Inr ()"
proof -
  let ?items = "map (json_canon \<circ> step_snapshot) (ex_step_runs x)"
  have d: "distinct (map fst (snapshot x))" by (simp add: snapshot_def Let_def)
  have s: "map_of (canon_map (snapshot x)) ''step_runs'' = Some (VList ?items)"
    unfolding canon_map_lookup [OF d] by (simp add: snapshot_def Let_def)
  have ok: "check_step_state (steps_by_id ?items) s = Inr ()" if "s \<in> set (ex_step_runs x)" for s
  proof -
    define m where "m = (case step_snapshot s of VDict m \<Rightarrow> m | _ \<Rightarrow> [])"
    have d: "distinct (map fst m)" by (simp add: m_def step_snapshot_def)
    have "map_of (steps_by_id ?items) (sr_id s) = Some (canon_map m)"
      unfolding steps_by_id_fresh [OF assms] m_def
      using assms that by (intro map_of_is_SomeI) (auto simp: o_def)
    moreover have "map_of (canon_map m) ''status'' = Some (VStr (step_status_value (sr_status s)))"
      "map_of (canon_map m) ''row_version'' = Some (VInt (sr_row_version s))"
      unfolding canon_map_lookup [OF d] by (simp_all add: m_def step_snapshot_def)
    ultimately show ?thesis by (simp add: check_step_state_def require_str_def require_int_def guardR_def)
  qed
  show ?thesis unfolding check_step_states_def s
    using ok by (simp add: steps_by_id_fresh [OF assms] forR_Inr_iff Let_def)
qed

lemma fresh_checkpoint_accepted:
  assumes "create_checkpoint env w = (Inr p, w')"
    and "json_wf (VDict (snapshot (w_exec w)))" and "distinct (map sr_id (ex_step_runs (w_exec w)))"
  shows "validate_checkpoint env p (w_exec w') = Inr (canon_map (snapshot (w_exec w)))"
proof -
  let ?x = "w_exec w"
  from assms(1) obtain cid now where n: "next_checkpoint env cid now ?x = Inr p"
    and w': "w_exec w' = ?x\<lparr>ex_checkpoints := ex_checkpoints ?x @ [p]\<rparr>"
    by (auto simp: create_checkpoint_apply Let_def add_checkpoint_def split: sum.splits)
  have snap: "snapshot (w_exec w') = snapshot ?x" by (simp add: w' snapshot_def Let_def)
  have "restore_state (ce_sha256 env) p = Inr (canon_map (snapshot ?x))"
    using restore_created [OF n [unfolded next_checkpoint_def] assms(2)] by (simp add: canon_map_def)
  moreover have "check_aggregate_state (w_exec w') (canon_map (snapshot ?x)) = Inr ()"
    using check_aggregate_fresh [of "w_exec w'"] unfolding snap .
  moreover have "check_step_states (w_exec w') (canon_map (snapshot ?x)) = Inr ()"
    using check_steps_fresh [of "w_exec w'"] assms(3) unfolding snap by (simp add: w')
  ultimately show ?thesis using next_checkpoint_ok [OF n]
    by (simp add: validate_checkpoint_def latest_checkpoint_def w' guardR_def)
qed

section \<open>Creating a checkpoint succeeds\<close>

text \<open>What the coordinator relies on of its clock, identifier factory and hash.\<close>

definition env_ok :: "coordinator_env \<Rightarrow> bool" where
  "env_ok env \<longleftrightarrow> (\<forall>n. \<exists>i. ce_clock env n = Aware i) \<and> (\<forall>s n. nonblank (ce_id_factory env s n)) \<and>
     (\<forall>t. nonblank (ce_sha256 env t))"

definition outputs_json :: "ExecutionState \<Rightarrow> bool" where
  "outputs_json x \<longleftrightarrow> is_json_shape (VDict (thaw_map (wr_outputs (ex_workflow_run x)))) \<and>
     (\<forall>s \<in> set (ex_step_runs x). is_json_shape (VDict (thaw_map (sr_outputs s))))"

definition ids_ok :: "ExecutionState \<Rightarrow> bool" where
  "ids_ok x \<longleftrightarrow> nonblank (wr_id (ex_workflow_run x)) \<and> nonblank (as_id (ex_agent_session x))"

interpretation ids: coord_invariant env ids_ok for env
proof unfold_locales
  fix w0 project actor key inputs profile ticks ids w
  assume "create_workflow_run env w0 project actor key inputs profile ticks ids = Inr w"
  then obtain x p cid now where n: "next_checkpoint env cid now x = Inr p"
    and w: "w_exec w = x\<lparr>ex_checkpoints := [p]\<rparr>"
    by (rule create_workflow_run_fresh)
  from n have "nonblank (wr_id (ex_workflow_run x))" "nonblank (as_id (ex_agent_session x))"
    by (auto simp: next_checkpoint_def checkpoint_create_def checkpoint_post_init_def bindR_Inr_iff)
  then show "ids_ok (w_exec w)" by (simp add: ids_ok_def w)
qed (auto simp: ids_ok_def workflow_run_transition_ok agent_session_transition_ok workflow_run_set_outputs_def)

lemma snapshot_shape: "outputs_json x \<Longrightarrow> is_json_shape (VDict (snapshot x))"
  by (auto simp: outputs_json_def snapshot_def Let_def step_snapshot_def opt_str_def split: option.splits)

lemma dumps_dict_nonblank: "json_dumps nan (VDict m) = Inr t \<Longrightarrow> nonblank t"
  by (auto simp: bindR_Inr_iff py_isspace_def)

lemma create_checkpoint_total:
  assumes env: "env_ok env" and "ids_ok (w_exec w)" and "outputs_json (w_exec w)"
  obtains p w' where "create_checkpoint env w = (Inr p, w')" and "view w' = view w"
    and "srs_of w' = srs_of w"
proof -
  let ?x = "w_exec w"
  obtain t where t: "json_dumps True (VDict (snapshot ?x)) = Inr t"
    using json_dumps_total [OF snapshot_shape [OF assms(3)]] by blast
  have "\<exists>p. next_checkpoint env cid now ?x = Inr p" if "nonblank cid" "\<exists>i. now = Aware i" for cid now
    using that t dumps_dict_nonblank [OF t] assms(2) env
    by (auto simp: next_checkpoint_def checkpoint_create_def checkpoint_post_init_def bindR_Inr_iff
        ids_ok_def env_ok_def)
  with env obtain p where "next_checkpoint env (ce_id_factory env ''checkpoint'' (w_ids w))
      (ce_clock env (w_ticks w)) ?x = Inr p" unfolding env_ok_def by meson
  then have c: "create_checkpoint env w =
      (Inr p, add_checkpoint p (w\<lparr>w_ticks := Suc (w_ticks w), w_ids := Suc (w_ids w)\<rparr>))"
    by (simp add: create_checkpoint_apply Let_def)
  then show thesis using that create_checkpoint_view [OF c] by blast
qed

section \<open>Resuming a scheduled retry\<close>

lemma retry_step_id_fresh:
  assumes "wr_wait_reason (ex_workflow_run x) = Some (''retry:'' @ s)"
  shows "retry_step_id (canon_map (snapshot x)) = Inr s"
proof -
  have d: "distinct (map fst (snapshot x))" by (simp add: snapshot_def Let_def)
  let ?m = "[(''id'', VStr (wr_id (ex_workflow_run x))),
          (''project_id'', VStr (wr_project_id (ex_workflow_run x))),
          (''status'', VStr (run_status_value (wr_status (ex_workflow_run x)))),
          (''row_version'', VInt (wr_row_version (ex_workflow_run x))),
          (''wait_reason'', opt_str (wr_wait_reason (ex_workflow_run x))),
          (''error_code'', opt_str (wr_error_code (ex_workflow_run x))),
          (''outputs'', VDict (thaw_map (wr_outputs (ex_workflow_run x))))]"
  have r: "map_of (canon_map (snapshot x)) ''workflow_run'' = Some (json_canon (VDict ?m))"
    unfolding canon_map_lookup [OF d] by (simp add: snapshot_def Let_def)
  have "distinct (map fst ?m)" by simp
  then have "py_get (json_canon (VDict ?m)) ''wait_reason'' = Inr (VStr (''retry:'' @ s))"
    unfolding py_get_canon by (simp add: assms opt_str_def)
  then show ?thesis unfolding retry_step_id_def r
    by (simp add: startswith_append [of "''retry:''" s, simplified]
        removeprefix_append [of "''retry:''" s, simplified] del: json_canon.simps)
qed

lemma back_to_running_total:
  assumes "ts = Aware i" and "Run_RUNNING \<in> set (workflow_run_transitions (p_run (view w)))"
    and "lockstep (w_exec w)"
  obtains w' where "back_to_running ts w = (Inr (), w')"
    and "w_exec w' = (w_exec w)\<lparr>ex_workflow_run := ex_workflow_run (w_exec w'),
           ex_agent_session := ex_agent_session (w_exec w')\<rparr>"
    and "wr_id (ex_workflow_run (w_exec w')) = wr_id (ex_workflow_run (w_exec w))"
    and "wr_outputs (ex_workflow_run (w_exec w')) = wr_outputs (ex_workflow_run (w_exec w))"
    and "as_id (ex_agent_session (w_exec w')) = as_id (ex_agent_session (w_exec w))"
proof -
  let ?c = "\<lparr>rc_utc = ts, rc_at = Some ts, rc_wait_reason = None, rc_error_code = None\<rparr>"
  define r where "r = workflow_run_moved Run_RUNNING ts ?c (ex_workflow_run (w_exec w))"
  define a where "a = agent_session_moved Agent_ACTIVE ts (ex_agent_session (w_exec w))"
  have 1: "workflow_run_transition_to Run_RUNNING ?c (ex_workflow_run (w_exec w)) = Inr r"
    using assms(1,2) by (auto simp: workflow_run_transition_ok at_or_now_def r_def)
  have "Agent_ACTIVE \<in> set (agent_session_transitions (as_status (ex_agent_session (w_exec w))))"
    using agent_follows_run [OF assms(2)] assms(3) by (simp add: lockstep_def)
  then have 2: "agent_session_transition_to Agent_ACTIVE \<lparr>ac_utc = ts, ac_at = Some ts\<rparr>
      (ex_agent_session (w_exec w)) = Inr a"
    using assms(1) by (auto simp: agent_session_transition_ok at_or_now_def a_def)
  have "back_to_running ts w = (Inr (), set_agent a (set_run r w))"
    using 1 2 by (simp add: back_to_running_def run_to_def agent_to_def op_simps set_run_def)
  then show thesis by (rule that) (simp_all add: world_defs r_def a_def)
qed

lemma add_retry_total:
  assumes env: "env_ok env" and x: "ids_ok (w_exec w)" "outputs_json (w_exec w)"
    and s: "latest_index (srs_of w) s = Some i" and ts: "ts = Aware k"
    and ok: "nonblank s" "0 < sr_attempt (srs_of w ! i)"
  obtains w' where "add_retry_attempt env i ts w = (Inr (length (srs_of w)), w')"
proof -
  define sid where "sid = ce_id_factory env ''step_run'' (w_ids w)"
  define w0 where "w0 = w\<lparr>w_ids := Suc (w_ids w)\<rparr>"
  have e: "w_exec w0 = w_exec w" by (simp add: w0_def)
  have sid: "nonblank sid" using env by (simp add: env_ok_def sid_def)
  from latest_index_Some(2) [OF s] ok sid x(1) obtain r where
    r: "new_step_run sid (ex_workflow_run (w_exec w)) (sr_step_id (srs_of w ! i))
        (sr_attempt (srs_of w ! i) + 1) (thaw_map (sr_inputs (srs_of w ! i))) ts = Inr r"
    by (auto simp: new_step_run_def step_run_post_init_def bindR_Inr_iff ts ids_ok_def)
  then have new: "sr_status r = Step_CREATED" "sr_outputs r = []"
    by (auto simp: new_step_run_def step_run_post_init_def bindR_Inr_iff)
  then obtain r' where r': "step_run_transition_to Step_READY (step_call_at ts None None None) r = Inr r'"
    by (auto simp: step_run_transition_ok step_call_at_def at_or_now_def ts)
  with new have out: "sr_outputs r' = []" by (auto simp: step_run_transition_ok step_call_at_def)
  have x': "ids_ok (w_exec (add_step r' w0))" "outputs_json (w_exec (add_step r' w0))"
    using x out by (auto simp: ids_ok_def outputs_json_def add_step_def w0_def thaw_map_def)
  obtain p w' where "create_checkpoint env (add_step r' w0) = (Inr p, w')"
    using create_checkpoint_total [OF env x'] by blast
  with r r' have "add_retry_attempt env i ts w = (Inr (length (srs_of w)), w')"
    by (simp add: add_retry_attempt_def Let_def op_simps new_id_def sid_def [symmetric]
        w0_def [symmetric] e)
  then show thesis by (rule that)
qed

lemma resume_retry_total:
  assumes runs: "coord_runs env w" and st: "wr_status (ex_workflow_run (w_exec w)) = Run_RETRY_SCHEDULED"
    and env: "env_ok env" and out: "outputs_json (w_exec w)"
    and v: "validate_checkpoint env p (w_exec w) = Inr (canon_map (snapshot (w_exec w)))"
  obtains i s w' where "latest_index (srs_of w) s = Some i"
    and "resume_from_checkpoint env p w = (Inr (Some (length (srs_of w))), w')"
    and "p_run (view w') = Run_RUNNING"
    and "now_of (srs_of w') s = Some (sr_attempt (srs_of w ! i) + 1, Step_READY)"
proof -
  from coord_runs_ok [OF runs] st obtain s a ws where reason: "p_reason (view w) = Some (''retry:'' @ s)"
    and now: "now_of (srs_of w) s = Some (a, Step_FAILED)"
    and ws: "workflow_get_step (ex_workflow (w_exec w)) s = Inr ws" and a: "a < ws_max_attempts ws"
    by (auto simp: proto_ok_def)
  from now obtain i where i: "latest_index (srs_of w) s = Some i" and ai: "a = sr_attempt (srs_of w ! i)"
    and f: "sr_status (srs_of w ! i) = Step_FAILED"
    by (auto simp: now_of_def)
  have "attempts_ok (w_exec w)" by (rule coord_runs_attempts [OF runs])
  then have "step_run_ok (srs_of w ! i)" and wv: "workflow_valid (ex_workflow (w_exec w))"
    using latest_index_Some(1) [OF i] by (auto simp: attempts_ok_def step_attempt_ok_def)
  then have pos: "0 < sr_attempt (srs_of w ! i)" by (simp add: step_run_ok_def)
  from workflow_get_step_ok [OF ws] wv have nb: "nonblank s"
    by (auto simp: workflow_valid_def workflow_step_ok_def is_ident_nonblank)
  define ts where "ts = ce_clock env (w_ticks w)"
  define w0 where "w0 = w\<lparr>w_ticks := Suc (w_ticks w)\<rparr>"
  have e: "w_exec w0 = w_exec w" by (simp add: w0_def)
  from env obtain k where k: "ts = Aware k" unfolding env_ok_def ts_def by blast
  have "lockstep (w_exec w0)" using lockstep.reach_inv [OF coord_runs_reach [OF runs]] by (simp add: e)
  then obtain w1 where b: "back_to_running ts w0 = (Inr (), w1)"
    and w1: "w_exec w1 = (w_exec w0)\<lparr>ex_workflow_run := ex_workflow_run (w_exec w1),
           ex_agent_session := ex_agent_session (w_exec w1)\<rparr>"
    and same: "wr_id (ex_workflow_run (w_exec w1)) = wr_id (ex_workflow_run (w_exec w0))"
      "wr_outputs (ex_workflow_run (w_exec w1)) = wr_outputs (ex_workflow_run (w_exec w0))"
      "as_id (ex_agent_session (w_exec w1)) = as_id (ex_agent_session (w_exec w0))"
    using st by (elim back_to_running_total [OF k, rotated]) (simp_all add: e)
  from back_to_running_view(2,3) [OF b] e have b': "view w1 = (view w)\<lparr>p_run := Run_RUNNING, p_reason := None\<rparr>"
    "srs_of w1 = srs_of w" by simp_all
  have x1: "ids_ok (w_exec w1)" "outputs_json (w_exec w1)"
    using ids.reach_inv [OF coord_runs_reach [OF runs]] out same b'(2) e
    by (simp_all add: ids_ok_def outputs_json_def)
  obtain w' where r: "add_retry_attempt env i ts w1 = (Inr (length (srs_of w1)), w')"
    using add_retry_total [OF env x1 _ k nb] i pos b'(2) by metis
  have "retry_step_id (canon_map (snapshot (w_exec w))) = Inr s"
    using reason by (intro retry_step_id_fresh) simp
  moreover have "latest_step_run s (w_exec w) = Inr i" using i by (simp add: latest_step_run_Inr)
  ultimately have "resume_retry env (canon_map (snapshot (w_exec w))) ts w0 =
      (Inr (Some (length (srs_of w))), w')"
    using b r f ws a ai b'(2) unfolding resume_retry_def
    by (simp add: op_simps e)
  then have "resume_from_checkpoint env p w = (Inr (Some (length (srs_of w))), w')"
    using v st by (simp add: resume_from_checkpoint_def op_simps read_clock_def ts_def w0_def)
  moreover have v': "view w' = (view w1)\<lparr>p_now := (p_now (view w1))(s \<mapsto> (sr_attempt (srs_of w ! i) + 1, Step_READY))\<rparr>"
    using add_retry_view [OF r] i b'(2) by simp
  moreover from arg_cong [OF v', of p_run] arg_cong [OF b'(1), of p_run]
  have "p_run (view w') = Run_RUNNING" by simp
  moreover from arg_cong [OF v', of p_now]
  have "now_of (srs_of w') s = Some (sr_attempt (srs_of w ! i) + 1, Step_READY)" by simp
  ultimately show thesis using that i by blast
qed

section \<open>Failing a run that waits\<close>

lemma current_step_runs_total:
  assumes "attempts_ok x"
  obtains cur where "current_step_runs x = Inr cur"
proof -
  have "\<exists>i. latest_step_run (ws_id s) x = Inr i" if "s \<in> set (wf_steps (ex_workflow x))" for s
  proof -
    from that have "ws_id s \<in> set (workflow_step_ids (ex_workflow x))" by (simp add: workflow_step_ids_def)
    with assms have "ws_id s \<in> sr_step_id ` set (ex_step_runs x)" by (simp add: attempts_ok_def)
    then obtain i where "latest_index (ex_step_runs x) (ws_id s) = Some i"
      using latest_index_None [of "ex_step_runs x" "ws_id s"]
      by (cases "latest_index (ex_step_runs x) (ws_id s)") auto
    then show ?thesis by (auto simp: latest_step_run_Inr)
  qed
  with that show thesis unfolding current_step_runs_def by (metis mapR_total)
qed

lemma cancel_open_total:
  assumes "ts = Aware k" and "map (latest_index (srs_of w)) ids = map Some js"
  shows "\<exists>w'. cancel_open_steps ts js w = (Inr (), w')"
  using assms(2)
proof (induction js arbitrary: w ids)
  case Nil
  then show ?case by (simp add: cancel_open_steps_def op_apply)
next
  case (Cons j js)
  then obtain s ids' where ids: "ids = s # ids'" and s: "latest_index (srs_of w) s = Some j"
    and rest: "map (latest_index (srs_of w)) ids' = map Some js" by (cases ids) auto
  let ?u = "sr_status (srs_of w ! j)"
  let ?first = "if step_is_terminal ?u then returnE ()
         else step_to j Step_CANCELLED (step_call_at ts None None None)"
  have "\<exists>w1. ?first w = (Inr (), w1) \<and> (\<forall>s'. latest_index (srs_of w1) s' = latest_index (srs_of w) s')"
  proof (cases "step_is_terminal ?u")
    case True
    then show ?thesis by (auto simp: op_apply)
  next
    case False
    then have "Step_CANCELLED \<in> set (step_run_transitions ?u)" by (cases ?u) auto
    then have "\<exists>w1. step_to j Step_CANCELLED (step_call_at ts None None None) w = (Inr (), w1)"
      using assms(1) by (auto simp: step_to_def updE_apply step_run_transition_to_def step_call_at_def
          at_or_now_def require_aware_def bindR_Inr_iff Let_def)
    with False show ?thesis using step_to_view(3) [OF _ s] by (simp del: step_is_terminal.simps) metis
  qed
  then obtain w1 where 1: "?first w = (Inr (), w1)"
    and same: "\<And>s'. latest_index (srs_of w1) s' = latest_index (srs_of w) s'" by blast
  have "map (latest_index (srs_of w1)) ids' = map Some js"
    using rest by (simp add: ext [of "latest_index (srs_of w1)", OF same])
  then obtain w' where "cancel_open_steps ts js w1 = (Inr (), w')" using Cons.IH by blast
  with 1 have "cancel_open_steps ts (j # js) w = (Inr (), w')"
    unfolding cancel_open_steps_def forE.simps thenE_returned gets_returned by blast
  then show ?case by blast
qed

lemma no_waiting_no_resume:
  assumes "wr_status (ex_workflow_run (w_exec w)) = Run_WAITING_FOR_APPROVAL"
    and "\<And>s a. now_of (srs_of w) s \<noteq> Some (a, Step_WAITING_APPROVAL)"
  shows "\<exists>e. fst (resume_from_checkpoint env p w) = Inl e"
proof (cases "resume_from_checkpoint env p w")
  case (Pair r w')
  show ?thesis
  proof (cases r)
    case (Inr q)
    have none: "step_with_status Step_WAITING_APPROVAL (w_exec w) \<noteq> Inr i" for i
      using assms(2) step_with_status_Inr [of Step_WAITING_APPROVAL "w_exec w" i]
      by (auto simp: now_of_def)
    from Pair Inr have "resume_from_checkpoint env p w = (Inr q, w')" by simp
    then obtain ts w0 where "w_exec w0 = w_exec w" and "resume_waiting_approval env ts w0 = (Inr q, w')"
      unfolding resume_from_checkpoint_def read_returned using assms(1)
      by (auto elim!: clock_returned simp: gets_returned)
    with none show ?thesis unfolding resume_waiting_approval_def read_returned by auto
  qed (simp add: Pair)
qed

lemma fail_waiting:
  assumes ok: "attempts_ok (w_exec w)" and env: "env_ok env"
    and st: "wr_status (ex_workflow_run (w_exec w)) = Run_WAITING_FOR_APPROVAL"
  obtains e w' where "fail_execution env err w = (Inl e, w')"
    and "view w' = (view w)\<lparr>p_now := cancel_now (p_now (view w))\<rparr>"
proof -
  define ts where "ts = ce_clock env (w_ticks w)"
  define w0 where "w0 = w\<lparr>w_ticks := Suc (w_ticks w)\<rparr>"
  have e0: "w_exec w0 = w_exec w" by (simp add: w0_def)
  from env obtain k where k: "ts = Aware k" unfolding env_ok_def ts_def by blast
  obtain cur where cur: "current_step_runs (w_exec w) = Inr cur" by (rule current_step_runs_total [OF ok])
  have "map (latest_index (srs_of w0)) (workflow_step_ids (ex_workflow (w_exec w))) = map Some cur"
    using current_step_runs_Inr [THEN iffD1, OF cur] by (simp add: workflow_step_ids_def o_def e0)
  then obtain w1 where c: "cancel_open_steps ts cur w0 = (Inr (), w1)" using cancel_open_total [OF k] by blast
  have v: "view w1 = (view w)\<lparr>p_now := cancel_now (p_now (view w))\<rparr>"
    using cancel_open_all [OF c] cur ok by (simp add: e0)
  have "p_run (view w1) = Run_WAITING_FOR_APPROVAL" unfolding v using st by simp
  then obtain e where "run_to Run_FAILED ts None (Some err) w1 = (Inl e, w1)"
    by (auto simp: run_to_def updE_apply workflow_run_transition_to_def)
  then have "fail_execution env err w = (Inl e, w1)"
    using c cur by (simp add: fail_execution_def op_simps read_clock_def ts_def w0_def)
  then show thesis using v by (rule that)
qed

lemma cancel_now_not_waiting: "cancel_now m s \<noteq> Some (a, Step_WAITING_APPROVAL)"
  by (cases "m s") (auto simp: cancel_now_def split: if_splits)

end
