(* ===== verification/Execution_Claims.thy ===== *)
theory Execution_Claims
  imports Execution_Resume
begin

text \<open>
  The properties of the execution aggregate and its coordinator, with a sample execution on
  which they are instantiated.
\<close>

section \<open>A sample execution\<close>

definition sample_env :: coordinator_env where
  "sample_env = \<lparr>ce_clock = (\<lambda>n. Aware (int n)),
     ce_id_factory = (\<lambda>prefix n. take 1 prefix @ nat_str n), ce_sha256 = (\<lambda>t. nat_str (length t))\<rparr>"

definition sample_step :: "string \<Rightarrow> string list \<Rightarrow> int \<Rightarrow> WorkflowStep" where
  "sample_step i needs attempts =
     \<lparr>ws_id = i, ws_kind = Kind_SKILL, ws_needs = needs, ws_uses = Some ''search@1'',
      ws_input_mapping = [], ws_timeout_seconds = 300, ws_max_attempts = attempts,
      ws_retry_backoff = ''exponential'', ws_retry_initial_seconds = 1, ws_retry_max_seconds = 30,
      ws_checkpoint_policy = ''after_success'', ws_approval_policy = None\<rparr>"

definition sample_workflow :: Workflow where
  "sample_workflow =
     \<lparr>wf_id = ''w1'', wf_version = ''1'', wf_name = ''survey'',
      wf_steps = [sample_step ''a'' [] 2],
      wf_schema_version = ''reagent/v1alpha1'', wf_input_schema = [], wf_outputs = []\<rparr>"

definition sample_start :: "world res" where
  "sample_start = create_workflow_run sample_env sample_workflow ''p1'' ''u1'' ''k1''
     (VDict [(''topic'', VStr ''x'')]) ''profile'' 0 0"

fun do_all :: "coordinator_env \<Rightarrow> coord_cmd list \<Rightarrow> world \<Rightarrow> world res" where
  "do_all env [] w = Inr w"
| "do_all env (c # cs) w = (case coord_do env c w of (Inl e, _) \<Rightarrow> Inl e | (Inr _, w') \<Rightarrow> do_all env cs w')"

definition sample_after :: "coord_cmd list \<Rightarrow> world res" where
  "sample_after cs = bindR sample_start (do_all sample_env cs)"

lemma do_all_runs: "do_all env cs w = Inr w' \<Longrightarrow> coord_runs env w \<Longrightarrow> coord_runs env w'"
  by (induction cs arbitrary: w) (auto split: prod.splits sum.splits intro: run_call)

lemma sample_valid: "workflow_valid sample_workflow"
proof -
  have "workflow_post_init sample_workflow = Inr sample_workflow" by code_simp
  then have "workflow_ok sample_workflow" by (simp add: workflow_post_init_ok)
  moreover have "forR (wf_steps sample_workflow)
      (\<lambda>s. bindR (workflow_step_post_init s) (\<lambda>_. Inr ())) = Inr ()" by code_simp
  then have "\<forall>s \<in> set (wf_steps sample_workflow). workflow_step_ok s"
    by (auto simp: forR_Inr_iff bindR_Inr_iff workflow_step_post_init_ok)
  ultimately show ?thesis by (simp add: workflow_valid_def)
qed

lemma sample_runs: "sample_after cs = Inr w \<Longrightarrow> coord_runs sample_env w"
  unfolding sample_after_def bindR_Inr_iff sample_start_def
  by (auto intro: do_all_runs run_new [OF sample_valid])

definition sample_finished :: "coord_cmd list" where
  "sample_finished =
     [Cmd_start, Cmd_ready ''a'' None False, Cmd_update ''a'' Step_RUNNING None None False,
      Cmd_update ''a'' Step_COMPLETED None None False, Cmd_complete [(''n'', VInt 1)]]"

definition sample_failing :: "coord_cmd list" where
  "sample_failing =
     [Cmd_start, Cmd_ready ''a'' None False, Cmd_update ''a'' Step_RUNNING None None False,
      Cmd_update ''a'' Step_FAILED None (Some ''T'') True]"

lemma sample_fresh_eval:
  "(case sample_after [] of Inl _ \<Rightarrow> False | Inr w \<Rightarrow> wr_status (ex_workflow_run (w_exec w)) = Run_CREATED)"
  by code_simp

lemma sample_failing_eval:
  "(case sample_after sample_failing of Inl _ \<Rightarrow> False | Inr w \<Rightarrow>
      wr_status (ex_workflow_run (w_exec w)) = Run_RETRY_SCHEDULED \<and> length (srs_of w) = 1 \<and>
      map sr_outputs (srs_of w) = [[]] \<and> wr_outputs (ex_workflow_run (w_exec w)) = [] \<and>
      latest_index (srs_of w) ''a'' = Some 0 \<and> length (ex_checkpoints (w_exec w)) = 3)"
  by code_simp

lemma sample_finished_eval:
  "(case sample_after sample_finished of Inl _ \<Rightarrow> False | Inr w \<Rightarrow>
      wr_status (ex_workflow_run (w_exec w)) = Run_COMPLETED \<and> latest_index (srs_of w) ''a'' = Some 0)"
  by code_simp

lemma sample_fresh: obtains w where "sample_start = Inr w" and "coord_runs sample_env w"
proof -
  obtain w where "sample_after [] = Inr w" using sample_fresh_eval by (auto split: sum.splits)
  moreover from this have "sample_start = Inr w" by (auto simp: sample_after_def bindR_Inr_iff)
  ultimately show thesis using that sample_runs by blast
qed

lemma sample_failing_world:
  obtains w where "coord_runs sample_env w"
    and "wr_status (ex_workflow_run (w_exec w)) = Run_RETRY_SCHEDULED" and "outputs_json (w_exec w)"
    and "latest_index (srs_of w) ''a'' = Some 0" and "length (srs_of w) = 1"
proof -
  obtain w where w: "sample_after sample_failing = Inr w" and
    f: "wr_status (ex_workflow_run (w_exec w)) = Run_RETRY_SCHEDULED" "length (srs_of w) = 1"
      "map sr_outputs (srs_of w) = [[]]" "wr_outputs (ex_workflow_run (w_exec w)) = []"
      "latest_index (srs_of w) ''a'' = Some 0"
    using sample_failing_eval by (auto split: sum.splits)
  then have "outputs_json (w_exec w)" by (auto simp: outputs_json_def thaw_map_def)
  with w f show thesis using that sample_runs by blast
qed

lemma sample_finished_world:
  obtains w where "coord_runs sample_env w"
    and "wr_status (ex_workflow_run (w_exec w)) = Run_COMPLETED"
    and "latest_index (srs_of w) ''a'' = Some 0"
  using sample_finished_eval sample_runs by (auto split: sum.splits)

lemma sample_env_ok: "env_ok sample_env"
proof -
  have digit: "nonblank [digit_char d]" if "d < 10" for d
  proof -
    have "\<forall>d \<in> set [0..<10]. nonblank [digit_char d]" by code_simp
    with that show ?thesis by simp
  qed
  have "nonblank (nat_str n)" for n
    using digit [of n] digit [of "n mod 10"] by (subst nat_str.simps) auto
  then show ?thesis by (auto simp: env_ok_def sample_env_def)
qed

section \<open>Properties\<close>

text \<open>
  C17: refinement. Every command of the coordinator that returns, after any history of commands
  that returned, is one step of the abstract protocol, and the protocol's invariant holds
  before and after it.
\<close>

theorem commands_follow_protocol:
  assumes "coord_runs env w" and "coord_do env cmd w = (Inr (), w')"
  shows "proto_step (view w) (view w') \<and> proto_ok (view w) \<and> proto_ok (view w')"
  using coord_do_sim [OF assms(2) coord_runs_attempts [OF assms(1)]] coord_runs_ok [OF assms(1)]
    proto_step_ok by blast

theorem commands_follow_protocol_witness:
  "\<exists>w w'. coord_do sample_env Cmd_checkpoint w = (Inr (), w') \<and> proto_step (view w) (view w')"
proof -
  obtain w where w: "coord_runs sample_env w" "outputs_json (w_exec w)" by (rule sample_failing_world)
  obtain p w' where "create_checkpoint sample_env w = (Inr p, w')"
    by (rule create_checkpoint_total [OF sample_env_ok ids.reach_inv [OF coord_runs_reach [OF w(1)]] w(2)])
  then have "coord_do sample_env Cmd_checkpoint w = (Inr (), w')" by (simp add: thenE_returned op_apply)
  with commands_follow_protocol [OF w(1) this] show ?thesis by blast
qed

text \<open>
  C18: safety. A run that has reached COMPLETED through commands that returned has, for every
  step of its workflow, a latest attempt that COMPLETED or was SKIPPED.
\<close>

theorem completed_run_succeeded:
  assumes "coord_runs env w" and "wr_status (ex_workflow_run (w_exec w)) = Run_COMPLETED"
    and "s \<in> set (workflow_step_ids (ex_workflow (w_exec w)))"
  shows "\<exists>i. latest_index (ex_step_runs (w_exec w)) s = Some i \<and>
    sr_status (ex_step_runs (w_exec w) ! i) \<in> {Step_COMPLETED, Step_SKIPPED}"
proof -
  from coord_runs_ok [OF assms(1)] assms(2,3) obtain a u where "now_of (srs_of w) s = Some (a, u)"
    and "successful u" by (auto simp: proto_ok_def)
  then show ?thesis by (auto simp: now_of_def successful_def)
qed

theorem completed_run_succeeded_witness:
  "\<exists>w :: world. wr_status (ex_workflow_run (w_exec w)) = Run_COMPLETED \<and>
     latest_index (ex_step_runs (w_exec w)) ''a'' = Some 0 \<and>
     sr_status (ex_step_runs (w_exec w) ! 0) \<in> {Step_COMPLETED, Step_SKIPPED}"
proof -
  obtain w where w: "coord_runs sample_env w" "wr_status (ex_workflow_run (w_exec w)) = Run_COMPLETED"
    and i: "latest_index (srs_of w) ''a'' = Some 0" by (rule sample_finished_world)
  have "attempts_ok (w_exec w)" by (rule coord_runs_attempts [OF w(1)])
  then have "''a'' \<in> set (workflow_step_ids (ex_workflow (w_exec w)))"
    using latest_index_Some(1,2) [OF i] by (metis attempts_ok_def imageI nth_mem)
  from completed_run_succeeded [OF w this] i have "sr_status (srs_of w ! 0) \<in> {Step_COMPLETED, Step_SKIPPED}"
    by simp
  with w(2) i show ?thesis by blast
qed

text \<open>
  C19: liveness. When a retry is scheduled, resuming with a checkpoint that describes the
  aggregate always returns: the run is RUNNING again, and the step the run waited for has a
  new attempt, numbered one higher than the failed one, that is READY.
\<close>

theorem scheduled_retry_resumes:
  assumes "coord_runs env w" and "wr_status (ex_workflow_run (w_exec w)) = Run_RETRY_SCHEDULED"
    and "env_ok env" and "outputs_json (w_exec w)"
    and "validate_checkpoint env p (w_exec w) = Inr (canon_map (snapshot (w_exec w)))"
  shows "\<exists>i s w'. latest_index (ex_step_runs (w_exec w)) s = Some i \<and>
    resume_from_checkpoint env p w = (Inr (Some (length (ex_step_runs (w_exec w)))), w') \<and>
    wr_status (ex_workflow_run (w_exec w')) = Run_RUNNING \<and>
    now_of (ex_step_runs (w_exec w')) s =
      Some (sr_attempt (ex_step_runs (w_exec w) ! i) + 1, Step_READY)"
  by (rule resume_retry_total [OF assms]) auto

text \<open>
  A checkpoint that was just created is accepted, and restores the canonical
  form of the snapshot it was made from, whatever SHA-256 is, as long as outputs are JSON and
  the step runs have distinct identifiers.
\<close>

theorem created_checkpoint_restores:
  assumes "create_checkpoint env w = (Inr p, w')"
    and "json_wf (VDict (snapshot (w_exec w)))" and "distinct (map sr_id (ex_step_runs (w_exec w)))"
  shows "validate_checkpoint env p (w_exec w') = Inr (canon_map (snapshot (w_exec w))) \<and>
    restore_state (ce_sha256 env) p = Inr (canon_map (snapshot (w_exec w)))"
proof
  show v: "validate_checkpoint env p (w_exec w') = Inr (canon_map (snapshot (w_exec w)))"
    by (rule fresh_checkpoint_accepted [OF assms])
  then show "restore_state (ce_sha256 env) p = Inr (canon_map (snapshot (w_exec w)))"
    by (auto simp: validate_checkpoint_def bindR_Inr_iff)
qed

lemma sample_failing_checkpoint:
  obtains w p w' where "coord_runs sample_env w" and "create_checkpoint sample_env w = (Inr p, w')"
    and "wr_status (ex_workflow_run (w_exec w)) = Run_RETRY_SCHEDULED" and "outputs_json (w_exec w)"
    and "json_wf (VDict (snapshot (w_exec w)))" and "distinct (map sr_id (srs_of w))"
    and "w_exec w' = (w_exec w)\<lparr>ex_checkpoints := ex_checkpoints (w_exec w) @ [p]\<rparr>"
proof -
  obtain w where w: "coord_runs sample_env w" "wr_status (ex_workflow_run (w_exec w)) = Run_RETRY_SCHEDULED"
      "outputs_json (w_exec w)" and len: "length (srs_of w) = 1"
    and out: "map sr_outputs (srs_of w) = [[]]" "wr_outputs (ex_workflow_run (w_exec w)) = []"
    using sample_failing_eval sample_runs [of sample_failing]
    by (auto split: sum.splits simp: outputs_json_def thaw_map_def)
  obtain p w' where c: "create_checkpoint sample_env w = (Inr p, w')"
    by (rule create_checkpoint_total [OF sample_env_ok ids.reach_inv [OF coord_runs_reach [OF w(1)]] w(3)])
  have "json_wf (VDict (snapshot (w_exec w)))"
    using out by (auto simp: snapshot_def Let_def step_snapshot_def opt_str_def thaw_map_def split: option.splits)
  moreover have "distinct (map sr_id (srs_of w))" using len by (cases "srs_of w") auto
  moreover have "w_exec w' = (w_exec w)\<lparr>ex_checkpoints := ex_checkpoints (w_exec w) @ [p]\<rparr>"
    using c by (auto simp: create_checkpoint_apply Let_def add_checkpoint_def split: sum.splits)
  ultimately show thesis using that w c by blast
qed

theorem created_checkpoint_restores_witness:
  "\<exists>w p w'. create_checkpoint sample_env w = (Inr p, w') \<and>
     validate_checkpoint sample_env p (w_exec w') = Inr (canon_map (snapshot (w_exec w)))"
proof -
  obtain w p w' where "create_checkpoint sample_env w = (Inr p, w')"
    and "json_wf (VDict (snapshot (w_exec w)))" and "distinct (map sr_id (srs_of w))"
    by (rule sample_failing_checkpoint)
  with created_checkpoint_restores [of sample_env w p w'] show ?thesis by blast
qed

theorem scheduled_retry_resumes_witness:
  "\<exists>p (w :: world) j w'. wr_status (ex_workflow_run (w_exec w)) = Run_RETRY_SCHEDULED \<and>
     resume_from_checkpoint sample_env p w = (Inr (Some j), w') \<and>
     wr_status (ex_workflow_run (w_exec w')) = Run_RUNNING"
proof -
  obtain w p w' where w: "coord_runs sample_env w" "create_checkpoint sample_env w = (Inr p, w')"
      "wr_status (ex_workflow_run (w_exec w)) = Run_RETRY_SCHEDULED" "outputs_json (w_exec w)"
    and j: "json_wf (VDict (snapshot (w_exec w)))" "distinct (map sr_id (srs_of w))"
    and w': "w_exec w' = (w_exec w)\<lparr>ex_checkpoints := ex_checkpoints (w_exec w) @ [p]\<rparr>"
    by (rule sample_failing_checkpoint)
  have "coord_do sample_env Cmd_checkpoint w = (Inr (), w')" using w(2) by (simp add: thenE_returned op_apply)
  with w(1) have "coord_runs sample_env w'" by (rule run_call)
  moreover have "validate_checkpoint sample_env p (w_exec w') = Inr (canon_map (snapshot (w_exec w')))"
    using fresh_checkpoint_accepted [OF w(2) j] by (simp add: w' snapshot_def Let_def)
  moreover have "wr_status (ex_workflow_run (w_exec w')) = Run_RETRY_SCHEDULED" "outputs_json (w_exec w')"
    using w(3,4) by (simp_all add: w' outputs_json_def)
  ultimately show ?thesis using scheduled_retry_resumes [OF _ _ sample_env_ok] by blast
qed

text \<open>
  C20: safety on every path. After any sequence of commands, those that raised included, the
  agent session's status is the one that goes with the status of the run: no exception
  between the two transitions ever separates them.
\<close>

theorem run_and_session_lockstep:
  assumes "coord_reach env w"
  shows "as_status (ex_agent_session (w_exec w)) = agent_for (wr_status (ex_workflow_run (w_exec w)))"
  using lockstep.reach_inv [OF assms] by (simp add: lockstep_def)

theorem run_and_session_lockstep_witness:
  "\<exists>w :: world. wr_status (ex_workflow_run (w_exec w)) = Run_RETRY_SCHEDULED \<and>
     as_status (ex_agent_session (w_exec w)) = Agent_WAITING"
proof -
  obtain w where "coord_runs sample_env w" "wr_status (ex_workflow_run (w_exec w)) = Run_RETRY_SCHEDULED"
    by (rule sample_failing_world)
  moreover from run_and_session_lockstep [OF coord_runs_reach [OF this(1)]] this(2)
  have "as_status (ex_agent_session (w_exec w)) = Agent_WAITING" by simp
  ultimately show ?thesis by blast
qed

text \<open>
  C21: bounds on every path. After any sequence of commands, those that raised included, each
  step of the workflow has an attempt, attempts are numbered from 1 up to the step's
  max_attempts, the attempts of a step strictly grow, and all but the last of them FAILED.
\<close>

theorem attempts_within_budget:
  assumes "coord_reach env w"
  defines "srs \<equiv> ex_step_runs (w_exec w)" and "wfl \<equiv> ex_workflow (w_exec w)"
  shows "sr_step_id ` set srs = set (workflow_step_ids wfl) \<and>
    (\<forall>r \<in> set srs. \<exists>ws. workflow_get_step wfl (sr_step_id r) = Inr ws \<and>
       1 \<le> sr_attempt r \<and> sr_attempt r \<le> ws_max_attempts ws) \<and>
    (\<forall>i j. i < j \<and> j < length srs \<and> sr_step_id (srs ! i) = sr_step_id (srs ! j) \<longrightarrow>
       sr_attempt (srs ! i) < sr_attempt (srs ! j) \<and> sr_status (srs ! i) = Step_FAILED)"
proof -
  have ok: "attempts_ok (w_exec w)" by (rule attempts.reach_inv [OF assms(1)])
  then have "\<forall>r \<in> set srs. step_attempt_ok wfl (ex_workflow_run (w_exec w)) r"
    by (simp add: attempts_ok_def srs_def wfl_def)
  then have "\<forall>r \<in> set srs. \<exists>ws. workflow_get_step wfl (sr_step_id r) = Inr ws \<and>
       1 \<le> sr_attempt r \<and> sr_attempt r \<le> ws_max_attempts ws"
    by (fastforce simp: step_attempt_ok_def step_run_ok_def)
  moreover have "\<forall>i j. i < j \<and> j < length srs \<and> sr_step_id (srs ! i) = sr_step_id (srs ! j) \<longrightarrow>
       sr_attempt (srs ! i) < sr_attempt (srs ! j) \<and> sr_status (srs ! i) = Step_FAILED"
    using ok by (auto simp: attempts_ok_def attempts_ordered_def srs_def)
  moreover have "sr_step_id ` set srs = set (workflow_step_ids wfl)"
    using ok by (simp add: attempts_ok_def srs_def wfl_def)
  ultimately show ?thesis by blast
qed

theorem attempts_within_budget_witness:
  "\<exists>w :: world. wr_status (ex_workflow_run (w_exec w)) = Run_RETRY_SCHEDULED \<and>
     sr_step_id ` set (ex_step_runs (w_exec w)) = set (workflow_step_ids (ex_workflow (w_exec w)))"
proof -
  obtain w where "coord_runs sample_env w" "wr_status (ex_workflow_run (w_exec w)) = Run_RETRY_SCHEDULED"
    by (rule sample_failing_world)
  moreover from attempts_within_budget [OF coord_runs_reach [OF this(1)]]
  have "sr_step_id ` set (ex_step_runs (w_exec w)) = set (workflow_step_ids (ex_workflow (w_exec w)))"
    by blast
  ultimately show ?thesis by blast
qed

text \<open>
  C22: invariant on every path. After any sequence of commands the checkpoints form one chain:
  numbered from 1 without gaps, each naming its predecessor, all of this run and this session,
  and each passing its integrity check.
\<close>

theorem checkpoints_form_chain:
  assumes "coord_reach env w" and "k < length (ex_checkpoints (w_exec w))"
  defines "p \<equiv> ex_checkpoints (w_exec w) ! k"
  shows "cp_sequence p = int k + 1 \<and>
    cp_parent_id p = (if k = 0 then None else Some (cp_id (ex_checkpoints (w_exec w) ! (k - 1)))) \<and>
    cp_workflow_run_id p = wr_id (ex_workflow_run (w_exec w)) \<and>
    cp_agent_session_id p = as_id (ex_agent_session (w_exec w)) \<and>
    verify_integrity (ce_sha256 env) p = Inr ()"
  using chain.reach_inv [OF assms(1)] assms(2) by (simp add: chain_ok_def Let_def p_def)

theorem checkpoints_form_chain_witness:
  "\<exists>w :: world. length (ex_checkpoints (w_exec w)) = 3 \<and> cp_sequence (ex_checkpoints (w_exec w) ! 2) = 3 \<and>
     cp_parent_id (ex_checkpoints (w_exec w) ! 2) = Some (cp_id (ex_checkpoints (w_exec w) ! 1))"
proof -
  obtain w where w: "sample_after sample_failing = Inr w" "length (ex_checkpoints (w_exec w)) = 3"
    using sample_failing_eval by (auto split: sum.splits)
  have "coord_reach sample_env w" by (rule coord_runs_reach [OF sample_runs [OF w(1)]])
  from checkpoints_form_chain [OF this, of 2] w(2)
  have "cp_sequence (ex_checkpoints (w_exec w) ! 2) = 3"
    "cp_parent_id (ex_checkpoints (w_exec w) ! 2) = Some (cp_id (ex_checkpoints (w_exec w) ! 1))"
    by simp_all
  with w(2) show ?thesis by blast
qed

text \<open>
  C23: error behaviour. Failing a run that waits for an approval raises, but only after the
  waiting step was cancelled: the run still waits, no step waits for it any more, and every
  later resumption is refused.
\<close>

theorem failing_a_waiting_run_strands_it:
  assumes "coord_runs env w" and "env_ok env"
    and "wr_status (ex_workflow_run (w_exec w)) = Run_WAITING_FOR_APPROVAL"
  shows "\<exists>e w'. fail_execution env err w = (Inl e, w') \<and>
    wr_status (ex_workflow_run (w_exec w')) = Run_WAITING_FOR_APPROVAL \<and>
    (\<forall>s a. now_of (ex_step_runs (w_exec w')) s \<noteq> Some (a, Step_WAITING_APPROVAL)) \<and>
    (\<forall>p. \<exists>e'. fst (resume_from_checkpoint env p w') = Inl e')"
proof -
  obtain e w' where f: "fail_execution env err w = (Inl e, w')"
    and v: "view w' = (view w)\<lparr>p_now := cancel_now (p_now (view w))\<rparr>"
    by (rule fail_waiting [OF coord_runs_attempts [OF assms(1)] assms(2,3)])
  from arg_cong [OF v, of p_run] assms(3)
  have st: "wr_status (ex_workflow_run (w_exec w')) = Run_WAITING_FOR_APPROVAL" by simp
  from arg_cong [OF v, of p_now]
  have none: "now_of (srs_of w') s \<noteq> Some (a, Step_WAITING_APPROVAL)" for s a
    by (simp add: cancel_now_not_waiting)
  from f st none no_waiting_no_resume [OF st none] show ?thesis by blast
qed

definition sample_waiting :: "coord_cmd list" where
  "sample_waiting =
     [Cmd_start, Cmd_ready ''a'' None False, Cmd_update ''a'' Step_RUNNING None None False,
      Cmd_update ''a'' Step_WAITING_APPROVAL None None False]"

lemma sample_waiting_eval:
  "(case sample_after sample_waiting of Inl _ \<Rightarrow> False | Inr w \<Rightarrow>
      wr_status (ex_workflow_run (w_exec w)) = Run_WAITING_FOR_APPROVAL)"
  by code_simp

theorem failing_a_waiting_run_strands_it_witness:
  "\<exists>w e w'. fail_execution sample_env ''X'' w = (Inl e, w') \<and>
    wr_status (ex_workflow_run (w_exec w')) = Run_WAITING_FOR_APPROVAL \<and>
    (\<forall>p. \<exists>e'. fst (resume_from_checkpoint sample_env p w') = Inl e')"
proof -
  obtain w where w: "sample_after sample_waiting = Inr w"
    and st: "wr_status (ex_workflow_run (w_exec w)) = Run_WAITING_FOR_APPROVAL"
    using sample_waiting_eval by (auto split: sum.splits)
  from failing_a_waiting_run_strands_it [OF sample_runs [OF w] sample_env_ok st, of "''X''"]
  show ?thesis by blast
qed

end
