(* ===== verification/Approval.thy ===== *)
theory Approval
  imports Entities
begin

text \<open>
  The durable approval gate, \<^verbatim>\<open>backend/domain/models/approval_request.py\<close>. Its
  methods assign fields before the last check has passed (the metadata is validated after
  the status was set), so they are modelled as effects on the request: both exits return
  the request as the method left it.
\<close>

section \<open>Comparison of timestamps\<close>

text \<open>Comparing an aware with a naive \<open>datetime\<close> raises \<open>TypeError\<close>.\<close>

fun dt_less :: "datetime \<Rightarrow> datetime \<Rightarrow> bool res" where
  "dt_less (Aware a) (Aware b) = Inr (a < b)"
| "dt_less (Naive a) (Naive b) = Inr (a < b)"
| "dt_less _ _ = Inl PyTypeError"

fun dt_le :: "datetime \<Rightarrow> datetime \<Rightarrow> bool res" where
  "dt_le (Aware a) (Aware b) = Inr (a \<le> b)"
| "dt_le (Naive a) (Naive b) = Inr (a \<le> b)"
| "dt_le _ _ = Inl PyTypeError"

section \<open>The request\<close>

record ApprovalRequest =
  ar_id :: string
  ar_project_id :: string
  ar_workflow_run_id :: string
  ar_step_run_id :: string
  ar_policy_key :: string
  ar_request_fingerprint :: string
  ar_prompt :: string
  ar_requested_action :: pymap
  ar_requested_by :: string
  ar_permitted_approver_role :: string
  ar_requested_at :: datetime
  ar_expires_at :: "datetime option"
  ar_status :: ApprovalRequestStatus
  ar_resolved_by :: "string option"
  ar_resolved_at :: "datetime option"
  ar_decision_reason :: "string option"
  ar_decision_idempotency_key :: "string option"
  ar_decision_metadata :: pymap
  ar_row_version :: int

definition freeze_json_object :: "pymap \<Rightarrow> string \<Rightarrow> pymap res" where
  "freeze_json_object value field_name =
     (case json_dumps False (VDict (thaw_map (freeze_map value))) of
        Inl _ \<Rightarrow> Inl (DomainValidationError
                    (field_name @ '' must contain only JSON-compatible values''))
      | Inr _ \<Rightarrow> Inr (freeze_map value))"

definition is_json_object :: "pymap \<Rightarrow> bool" where
  "is_json_object value \<longleftrightarrow> (\<exists>t. json_dumps False (VDict (thaw_map value)) = Inr t)"

lemma freeze_json_object_ok:
  "freeze_json_object m n = Inr m' \<longleftrightarrow> is_json_object m \<and> m' = freeze_map m"
  by (auto simp: freeze_json_object_def is_json_object_def split: sum.splits)

lemma freeze_json_object_Inl:
  "freeze_json_object m n = Inl e \<Longrightarrow> \<not> is_json_object m"
  by (auto simp: freeze_json_object_def is_json_object_def split: sum.splits)

definition validate_resolution_fields :: "ApprovalRequest \<Rightarrow> unit res" where
  "validate_resolution_fields a =
     (if ar_status a = Approval_PENDING then
        guardR (ar_resolved_by a \<noteq> None \<or> ar_resolved_at a \<noteq> None \<or> ar_decision_reason a \<noteq> None \<or>
                ar_decision_idempotency_key a \<noteq> None \<or> ar_decision_metadata a \<noteq> [])
          (DomainValidationError ''Pending ApprovalRequest cannot contain decision metadata'')
      else
        (case ar_resolved_at a of
           None \<Rightarrow> Inl (DomainValidationError ''Resolved ApprovalRequest requires resolved_at'')
         | Some resolved_at \<Rightarrow>
             bindR (require_aware resolved_at ''ApprovalRequest.resolved_at'')
             (\<lambda>_. if ar_status a \<in> {Approval_APPROVED, Approval_REJECTED} then
                    (case (ar_resolved_by a, ar_decision_idempotency_key a) of
                       (Some by, Some key) \<Rightarrow>
                         bindR (require_non_empty by ''ApprovalRequest.resolved_by'')
                           (\<lambda>_. require_non_empty key ''ApprovalRequest.decision_idempotency_key'')
                     | _ \<Rightarrow> Inl (DomainValidationError
                         ''Approved or rejected request requires resolver and idempotency key''))
                  else
                    guardR (ar_status a = Approval_EXPIRED \<and>
                            (ar_resolved_by a \<noteq> None \<or> ar_decision_idempotency_key a \<noteq> None))
                      (DomainValidationError
                         ''Expired ApprovalRequest cannot contain a human resolver''))))"

definition approval_request_post_init :: "ApprovalRequest \<Rightarrow> ApprovalRequest res" where
  "approval_request_post_init a =
     bindR (require_all_non_empty
       [(ar_id a, ''ApprovalRequest.id''), (ar_project_id a, ''ApprovalRequest.project_id''),
        (ar_workflow_run_id a, ''ApprovalRequest.workflow_run_id''),
        (ar_step_run_id a, ''ApprovalRequest.step_run_id''),
        (ar_policy_key a, ''ApprovalRequest.policy_key''),
        (ar_request_fingerprint a, ''ApprovalRequest.request_fingerprint''),
        (ar_prompt a, ''ApprovalRequest.prompt''),
        (ar_requested_by a, ''ApprovalRequest.requested_by''),
        (ar_permitted_approver_role a, ''ApprovalRequest.permitted_approver_role'')])
     (\<lambda>_. bindR (require_aware (ar_requested_at a) ''ApprovalRequest.requested_at'')
     (\<lambda>_. bindR (case ar_expires_at a of
                   None \<Rightarrow> Inr ()
                 | Some x \<Rightarrow> bindR (require_aware x ''ApprovalRequest.expires_at'')
                     (\<lambda>_. bindR (dt_le x (ar_requested_at a))
                       (\<lambda>b. guardR b (DomainValidationError
                          ''ApprovalRequest.expires_at must be after requested_at''))))
     (\<lambda>_. bindR (guardR (ar_row_version a < 0)
                   (DomainValidationError ''ApprovalRequest.row_version cannot be negative''))
     (\<lambda>_. bindR (freeze_json_object (ar_requested_action a) ''ApprovalRequest.requested_action'')
     (\<lambda>action. bindR (freeze_json_object (ar_decision_metadata a) ''ApprovalRequest.decision_metadata'')
     (\<lambda>md. (let a' = a\<lparr>ar_requested_action := action, ar_decision_metadata := md\<rparr> in
             bindR (validate_resolution_fields a') (\<lambda>_. Inr a'))))))))"

section \<open>Resolution\<close>

definition ensure_pending :: "ApprovalRequestStatus \<Rightarrow> (ApprovalRequest, unit) op" where
  "ensure_pending target =
     guardE (\<lambda>a. ar_status a \<noteq> Approval_PENDING)
       (\<lambda>a. InvalidStateTransition ''ApprovalRequest'' (ar_id a)
              (approval_status_value (ar_status a)) (approval_status_value target))"

record decision_args =
  da_utc :: datetime
  da_at :: "datetime option"
  da_reason :: "string option"
  da_metadata :: "pymap option"

text \<open>\<open>metadata or {}\<close>\<close>

definition metadata_or_empty :: "pymap option \<Rightarrow> pymap" where
  "metadata_or_empty m = (case m of None \<Rightarrow> [] | Some d \<Rightarrow> d)"

text \<open>The checks of \<open>_resolve\<close> after \<open>_ensure_pending\<close>, in the order of the source.\<close>

definition resolve_checks ::
  "ApprovalRequestStatus \<Rightarrow> string \<Rightarrow> string \<Rightarrow> string option \<Rightarrow> datetime \<Rightarrow> ApprovalRequest \<Rightarrow> unit res"
  where
  "resolve_checks target resolved_by key current_fingerprint timestamp a =
     bindR (require_non_empty resolved_by ''ApprovalRequest.resolved_by'')
     (\<lambda>_. bindR (require_non_empty key ''ApprovalRequest.decision_idempotency_key'')
     (\<lambda>_. bindR (require_aware timestamp ''ApprovalRequest decision timestamp'')
     (\<lambda>_. bindR (case ar_expires_at a of
                   None \<Rightarrow> Inr ()
                 | Some x \<Rightarrow> bindR (dt_le x timestamp)
                     (\<lambda>b. guardR b (DomainValidationError
                        ''Expired ApprovalRequest must be marked EXPIRED before resolution'')))
     (\<lambda>_. guardR (target = Approval_APPROVED \<and>
                  current_fingerprint \<noteq> Some (ar_request_fingerprint a))
            (DomainValidationError
               ''ApprovalRequest fingerprint no longer matches the planned action'')))))"

text \<open>The assignments of \<open>_resolve\<close> before and after the metadata is validated.\<close>

definition resolve_assign ::
  "ApprovalRequestStatus \<Rightarrow> string \<Rightarrow> string \<Rightarrow> datetime \<Rightarrow> string option \<Rightarrow> ApprovalRequest \<Rightarrow>
   ApprovalRequest" where
  "resolve_assign target resolved_by key timestamp reason a =
     a\<lparr>ar_status := target,
       ar_resolved_by := Some resolved_by,
       ar_resolved_at := Some timestamp,
       ar_decision_reason := reason,
       ar_decision_idempotency_key := Some key\<rparr>"

definition finish_decision :: "pymap \<Rightarrow> (ApprovalRequest, unit) op" where
  "finish_decision metadata =
     bindE (readE (\<lambda>_. freeze_json_object metadata ''ApprovalRequest.decision_metadata''))
       (\<lambda>md. modifyE (\<lambda>a. a\<lparr>ar_decision_metadata := md, ar_row_version := ar_row_version a + 1\<rparr>))"

definition approval_resolve ::
  "ApprovalRequestStatus \<Rightarrow> string \<Rightarrow> string \<Rightarrow> string option \<Rightarrow> decision_args \<Rightarrow>
   (ApprovalRequest, unit) op" where
  "approval_resolve target resolved_by key current_fingerprint d =
     (let timestamp = at_or_now (da_at d) (da_utc d) in
      thenE (ensure_pending target)
      (thenE (readE (resolve_checks target resolved_by key current_fingerprint timestamp))
      (thenE (modifyE (resolve_assign target resolved_by key timestamp (da_reason d)))
      (finish_decision (metadata_or_empty (da_metadata d))))))"

definition approve ::
  "string \<Rightarrow> string \<Rightarrow> string \<Rightarrow> decision_args \<Rightarrow> (ApprovalRequest, unit) op" where
  "approve resolved_by key current_fingerprint d =
     approval_resolve Approval_APPROVED resolved_by key (Some current_fingerprint) d"

definition reject :: "string \<Rightarrow> string \<Rightarrow> decision_args \<Rightarrow> (ApprovalRequest, unit) op" where
  "reject resolved_by key d = approval_resolve Approval_REJECTED resolved_by key None d"

definition expire_checks :: "datetime \<Rightarrow> ApprovalRequest \<Rightarrow> unit res" where
  "expire_checks timestamp a =
     bindR (require_aware timestamp ''ApprovalRequest expiry timestamp'')
     (\<lambda>_. case ar_expires_at a of
            None \<Rightarrow> Inl (DomainValidationError ''ApprovalRequest cannot expire without expires_at'')
          | Some x \<Rightarrow> bindR (dt_less timestamp x)
              (\<lambda>b. guardR b (DomainValidationError
                 ''ApprovalRequest cannot expire before expires_at'')))"

definition expire_assign :: "datetime \<Rightarrow> string option \<Rightarrow> ApprovalRequest \<Rightarrow> ApprovalRequest" where
  "expire_assign timestamp reason a =
     a\<lparr>ar_status := Approval_EXPIRED,
       ar_resolved_at := Some timestamp,
       ar_decision_reason := reason\<rparr>"

definition expire :: "decision_args \<Rightarrow> (ApprovalRequest, unit) op" where
  "expire d =
     (let timestamp = at_or_now (da_at d) (da_utc d) in
      thenE (readE (expire_checks timestamp))
      (thenE (ensure_pending Approval_EXPIRED)
      (thenE (modifyE (expire_assign timestamp (da_reason d)))
      (finish_decision (metadata_or_empty (da_metadata d))))))"

section \<open>Lemmas\<close>

text \<open>What the constructor establishes.\<close>

definition approval_ok :: "ApprovalRequest \<Rightarrow> bool" where
  "approval_ok a \<longleftrightarrow>
     nonblank (ar_request_fingerprint a) \<and> 0 \<le> ar_row_version a \<and>
     (\<exists>i. ar_requested_at a = Aware i \<and>
       (\<forall>x. ar_expires_at a = Some x \<longrightarrow> (\<exists>j. x = Aware j \<and> i < j))) \<and>
     validate_resolution_fields a = Inr ()"

lemma approval_post_init_ok:
  assumes "approval_request_post_init a = Inr a'"
  shows "approval_ok a'"
proof -
  from assms obtain i where i: "ar_requested_at a = Aware i"
    by (auto simp: approval_request_post_init_def bindR_Inr_iff)
  have x: "\<exists>j. y = Aware j \<and> i < j" if "ar_expires_at a = Some y" for y
    using assms i that
    by (auto simp: approval_request_post_init_def bindR_Inr_iff dt_le.simps not_le)
  from assms obtain p q where a': "a' = a\<lparr>ar_requested_action := p, ar_decision_metadata := q\<rparr>"
    and v: "validate_resolution_fields a' = Inr ()"
    by (auto simp: approval_request_post_init_def bindR_Inr_iff Let_def)
  from assms have "nonblank (ar_request_fingerprint a)" and "0 \<le> ar_row_version a"
    by (auto simp: approval_request_post_init_def bindR_Inr_iff)
  with a' v i x show ?thesis by (simp add: approval_ok_def)
qed

lemma finish_decision_apply:
  "finish_decision m a =
     (case freeze_json_object m ''ApprovalRequest.decision_metadata'' of
        Inl e \<Rightarrow> (Inl e, a)
      | Inr md \<Rightarrow> (Inr (), a\<lparr>ar_decision_metadata := md, ar_row_version := ar_row_version a + 1\<rparr>))"
  by (cases "freeze_json_object m ''ApprovalRequest.decision_metadata''")
     (simp_all add: finish_decision_def op_simps)

lemma resolve_checks_ok:
  "resolve_checks target by key fp ts a = Inr () \<longleftrightarrow>
     nonblank by \<and> nonblank key \<and> (\<exists>i. ts = Aware i) \<and>
     (\<forall>x. ar_expires_at a = Some x \<longrightarrow> dt_le x ts = Inr False) \<and>
     (target = Approval_APPROVED \<longrightarrow> fp = Some (ar_request_fingerprint a))"
  by (auto simp: resolve_checks_def bindR_Inr_iff split: option.splits)

lemma approval_resolve_cases:
  assumes "approval_resolve target by key fp d a = (res, a')"
  defines "ts \<equiv> at_or_now (da_at d) (da_utc d)"
  obtains
    (refused) e where "res = Inl e" and "a' = a"
      and "ar_status a \<noteq> Approval_PENDING \<or> resolve_checks target by key fp ts a \<noteq> Inr ()"
  | (half) e where "res = Inl e" and "a' = resolve_assign target by key ts (da_reason d) a"
      and "ar_status a = Approval_PENDING" and "resolve_checks target by key fp ts a = Inr ()"
      and "\<not> is_json_object (metadata_or_empty (da_metadata d))"
  | (resolved) "res = Inr ()" and "ar_status a = Approval_PENDING"
      and "resolve_checks target by key fp ts a = Inr ()"
      and "is_json_object (metadata_or_empty (da_metadata d))"
      and "a' = (resolve_assign target by key ts (da_reason d) a)
              \<lparr>ar_decision_metadata := freeze_map (metadata_or_empty (da_metadata d)),
               ar_row_version := ar_row_version a + 1\<rparr>"
proof (cases "ar_status a = Approval_PENDING \<and> resolve_checks target by key fp ts a = Inr ()")
  case False
  then show thesis
    using assms(1) refused [OF _ _] unfolding ts_def approval_resolve_def ensure_pending_def
    by (cases "resolve_checks target by key fp (at_or_now (da_at d) (da_utc d)) a")
       (auto simp: op_simps Let_def split: if_splits dest: sym)
next
  case True
  then have eq: "approval_resolve target by key fp d a =
      finish_decision (metadata_or_empty (da_metadata d))
        (resolve_assign target by key ts (da_reason d) a)"
    unfolding ts_def approval_resolve_def ensure_pending_def by (simp add: op_simps Let_def)
  show thesis
  proof (cases "freeze_json_object (metadata_or_empty (da_metadata d))
                  ''ApprovalRequest.decision_metadata''")
    case (Inl e)
    with True assms(1) eq show thesis
      by (intro half) (auto simp: finish_decision_apply dest: freeze_json_object_Inl)
  next
    case (Inr md)
    moreover from Inr have "is_json_object (metadata_or_empty (da_metadata d))"
      and "md = freeze_map (metadata_or_empty (da_metadata d))"
      by (simp_all add: freeze_json_object_ok)
    ultimately show thesis using True assms(1) eq
      by (intro resolved) (simp_all add: finish_decision_apply resolve_assign_def)
  qed
qed

lemma expire_cases:
  assumes "expire d a = (res, a')"
  defines "ts \<equiv> at_or_now (da_at d) (da_utc d)"
  obtains
    (refused) e where "res = Inl e" and "a' = a"
      and "ar_status a \<noteq> Approval_PENDING \<or> expire_checks ts a \<noteq> Inr ()"
  | (half) e where "res = Inl e" and "a' = expire_assign ts (da_reason d) a"
      and "ar_status a = Approval_PENDING" and "expire_checks ts a = Inr ()"
      and "\<not> is_json_object (metadata_or_empty (da_metadata d))"
  | (resolved) "res = Inr ()" and "ar_status a = Approval_PENDING" and "expire_checks ts a = Inr ()"
      and "a' = (expire_assign ts (da_reason d) a)
              \<lparr>ar_decision_metadata := freeze_map (metadata_or_empty (da_metadata d)),
               ar_row_version := ar_row_version a + 1\<rparr>"
proof (cases "ar_status a = Approval_PENDING \<and> expire_checks ts a = Inr ()")
  case False
  then show thesis
    using assms(1) refused unfolding ts_def expire_def ensure_pending_def
    by (cases "expire_checks (at_or_now (da_at d) (da_utc d)) a")
       (auto simp: op_simps Let_def split: if_splits dest: sym)
next
  case True
  then have eq: "expire d a =
      finish_decision (metadata_or_empty (da_metadata d)) (expire_assign ts (da_reason d) a)"
    unfolding ts_def expire_def ensure_pending_def by (simp add: op_simps Let_def)
  show thesis
  proof (cases "freeze_json_object (metadata_or_empty (da_metadata d))
                  ''ApprovalRequest.decision_metadata''")
    case (Inl e)
    with True assms(1) eq show thesis
      by (intro half) (auto simp: finish_decision_apply dest: freeze_json_object_Inl)
  next
    case (Inr md)
    then have "md = freeze_map (metadata_or_empty (da_metadata d))"
      by (simp add: freeze_json_object_ok)
    with Inr True assms(1) eq show thesis
      by (intro resolved) (simp_all add: finish_decision_apply expire_assign_def)
  qed
qed

section \<open>Histories of a request\<close>

text \<open>The three methods that decide a request, as the steps of a history.\<close>

datatype approval_act =
  Act_approve string string string decision_args
| Act_reject string string decision_args
| Act_expire decision_args

fun approval_do :: "approval_act \<Rightarrow> (ApprovalRequest, unit) op" where
  "approval_do (Act_approve who key fingerprint d) = approve who key fingerprint d"
| "approval_do (Act_reject who key d) = reject who key d"
| "approval_do (Act_expire d) = expire d"

fun approval_history :: "approval_act list \<Rightarrow> ApprovalRequest \<Rightarrow> unit res list \<times> ApprovalRequest" where
  "approval_history [] a = ([], a)"
| "approval_history (act # acts) a =
     (case approval_do act a of (r, a1) \<Rightarrow>
        (case approval_history acts a1 of (rs, a2) \<Rightarrow> (r # rs, a2)))"

lemma approval_do_decided:
  assumes "ar_status a \<noteq> Approval_PENDING" and "approval_do act a = (r, a')"
  shows "(\<exists>e. r = Inl e) \<and> a' = a"
proof (cases act)
  case (Act_approve who key fp d)
  with assms(2) have "approval_resolve Approval_APPROVED who key (Some fp) d a = (r, a')"
    by (simp add: approve_def)
  then show ?thesis using assms(1) by (cases rule: approval_resolve_cases) auto
next
  case (Act_reject who key d)
  with assms(2) have "approval_resolve Approval_REJECTED who key None d a = (r, a')"
    by (simp add: reject_def)
  then show ?thesis using assms(1) by (cases rule: approval_resolve_cases) auto
next
  case (Act_expire d)
  with assms(2) have "expire d a = (r, a')" by simp
  then show ?thesis using assms(1) by (cases rule: expire_cases) auto
qed

lemma approval_do_cases:
  assumes "approval_do act a = (r, a')"
  shows "(\<exists>e. r = Inl e) \<and> ar_row_version a' = ar_row_version a \<and>
           (ar_status a' = Approval_PENDING \<longrightarrow> a' = a) \<or>
         r = Inr () \<and> ar_status a' \<noteq> Approval_PENDING \<and> ar_row_version a' = ar_row_version a + 1"
proof (cases act)
  case (Act_approve who key fp d)
  with assms have "approval_resolve Approval_APPROVED who key (Some fp) d a = (r, a')"
    by (simp add: approve_def)
  then show ?thesis by (cases rule: approval_resolve_cases) (auto simp: resolve_assign_def)
next
  case (Act_reject who key d)
  with assms have "approval_resolve Approval_REJECTED who key None d a = (r, a')"
    by (simp add: reject_def)
  then show ?thesis by (cases rule: approval_resolve_cases) (auto simp: resolve_assign_def)
next
  case (Act_expire d)
  with assms have "expire d a = (r, a')" by simp
  then show ?thesis by (cases rule: expire_cases) (auto simp: expire_assign_def)
qed

lemma approval_history_decided:
  assumes "ar_status a \<noteq> Approval_PENDING" and "approval_history acts a = (rs, a')"
  shows "filter (\<lambda>r. r = Inr ()) rs = [] \<and> a' = a"
  using assms
proof (induction acts arbitrary: rs)
  case Nil
  then show ?case by simp
next
  case (Cons act acts)
  obtain r a1 where 1: "approval_do act a = (r, a1)" by force
  with approval_do_decided [OF Cons.prems(1)] have a1: "a1 = a" and r: "r \<noteq> Inr ()" by fastforce+
  from a1 1 Cons.prems obtain rs1 where 2: "approval_history acts a = (rs1, a')" and "rs = r # rs1"
    by (auto split: prod.splits)
  with Cons.IH [OF Cons.prems(1) 2] r show ?case by simp
qed

lemma approval_history_once:
  assumes "approval_history acts a = (rs, a')"
  shows "length (filter (\<lambda>r. r = Inr ()) rs) \<le> 1 \<and>
    ar_row_version a' = ar_row_version a + int (length (filter (\<lambda>r. r = Inr ()) rs))"
  using assms
proof (induction acts arbitrary: a rs)
  case Nil
  then show ?case by simp
next
  case (Cons act acts)
  obtain r a1 where 1: "approval_do act a = (r, a1)" by force
  with Cons.prems obtain rs1 where 2: "approval_history acts a1 = (rs1, a')" and rs: "rs = r # rs1"
    by (auto split: prod.splits)
  from approval_do_cases [OF 1] show ?case
  proof (elim disjE conjE)
    assume "r = Inr ()" and "ar_status a1 \<noteq> Approval_PENDING"
      and "ar_row_version a1 = ar_row_version a + 1"
    with approval_history_decided [OF _ 2] rs show ?thesis by simp
  next
    assume "\<exists>e. r = Inl e" and "ar_row_version a1 = ar_row_version a"
    with Cons.IH [OF 2] rs show ?thesis by auto
  qed
qed

section \<open>Properties\<close>

text \<open>A request the witnesses below use: it asks for a budget and expires at time 10.\<close>

definition sample_request :: ApprovalRequest where
  "sample_request =
     \<lparr>ar_id = ''a1'', ar_project_id = ''p1'', ar_workflow_run_id = ''r1'', ar_step_run_id = ''s1'',
      ar_policy_key = ''publish'', ar_request_fingerprint = ''f1'', ar_prompt = ''ok?'',
      ar_requested_action = [(''cost'', VInt 3)], ar_requested_by = ''agent'',
      ar_permitted_approver_role = ''owner'', ar_requested_at = Aware 1,
      ar_expires_at = Some (Aware 10), ar_status = Approval_PENDING, ar_resolved_by = None,
      ar_resolved_at = None, ar_decision_reason = None, ar_decision_idempotency_key = None,
      ar_decision_metadata = [], ar_row_version = 0\<rparr>"

definition sample_decision :: "pyval \<Rightarrow> decision_args" where
  "sample_decision v =
     \<lparr>da_utc = Aware 4, da_at = None, da_reason = None, da_metadata = Some [(''note'', v)]\<rparr>"

lemma sample_metadata_json:
  "is_json_object (metadata_or_empty (da_metadata (sample_decision (VInt 1))))"
proof -
  have "json_dumps False (VDict (thaw_map (metadata_or_empty (da_metadata (sample_decision (VInt 1))))))
      = Inr ''{\"note\":1}''" by code_simp
  then show ?thesis unfolding is_json_object_def by blast
qed

lemma sample_metadata_not_json:
  "\<not> is_json_object (metadata_or_empty (da_metadata (sample_decision (VObj 1))))"
proof -
  have "json_dumps False (VDict (thaw_map (metadata_or_empty (da_metadata (sample_decision (VObj 1))))))
      = Inl PyTypeError" by code_simp
  then show ?thesis unfolding is_json_object_def by simp
qed

lemma sample_request_ok: "approval_ok sample_request"
  by (rule approval_post_init_ok [of sample_request]) code_simp

lemma sample_approve: "fst (approve ''u1'' ''k1'' ''f1'' (sample_decision (VInt 1)) sample_request) = Inr ()"
  by code_simp

text \<open>
  C40: over any sequence of \<open>approve\<close>, \<open>reject\<close> and \<open>expire\<close> calls, in any order and with any
  arguments, at most one call on a request succeeds, and \<open>row_version\<close> grows by exactly the
  number of calls that succeeded; once decided, every further call raises and changes nothing.
\<close>

theorem approval_decided_once:
  assumes "approval_history acts a = (rs, a')"
  shows "length (filter (\<lambda>r. r = Inr ()) rs) \<le> 1 \<and>
    ar_row_version a' = ar_row_version a + int (length (filter (\<lambda>r. r = Inr ()) rs)) \<and>
    (ar_status a \<noteq> Approval_PENDING \<longrightarrow> filter (\<lambda>r. r = Inr ()) rs = [] \<and> a' = a)"
  using approval_history_once [OF assms] approval_history_decided [OF _ assms] by blast

theorem approval_decided_once_witness:
  "\<exists>rs a'. approval_history
     [Act_approve ''u1'' ''k1'' ''stale'' (sample_decision (VInt 1)),
      Act_approve ''u1'' ''k1'' ''f1'' (sample_decision (VInt 1)),
      Act_reject ''u2'' ''k2'' (sample_decision (VInt 1))] sample_request = (rs, a') \<and>
   rs = [Inl (DomainValidationError ''ApprovalRequest fingerprint no longer matches the planned action''),
     Inr (), Inl (InvalidStateTransition ''ApprovalRequest'' ''a1'' ''APPROVED'' ''REJECTED'')] \<and>
   ar_row_version a' = 1"
  (is "\<exists>rs a'. approval_history ?acts _ = _ \<and> rs = ?rs \<and> _")
proof -
  have rs: "fst (approval_history ?acts sample_request) = ?rs" by code_simp
  then obtain a' where h: "approval_history ?acts sample_request = (?rs, a')"
    by (metis prod.collapse)
  from approval_decided_once [OF h] have "ar_row_version a' = 1" by (simp add: sample_request_def)
  with h show ?thesis by blast
qed

text \<open>
  An approval succeeds exactly when the request is pending, the resolver and the key are
  not blank, the decision time is aware and before the deadline, the caller's fingerprint is
  the one of the request, and the metadata is JSON; then the request records precisely this
  decision and its version grows by one.
\<close>

theorem approve_succeeds_iff:
  "approve who key fp d a = (Inr (), a') \<longleftrightarrow>
     ar_status a = Approval_PENDING \<and> nonblank who \<and> nonblank key \<and>
     (\<exists>i. at_or_now (da_at d) (da_utc d) = Aware i) \<and>
     (\<forall>x. ar_expires_at a = Some x \<longrightarrow> dt_le x (at_or_now (da_at d) (da_utc d)) = Inr False) \<and>
     fp = ar_request_fingerprint a \<and>
     is_json_object (metadata_or_empty (da_metadata d)) \<and>
     a' = a\<lparr>ar_status := Approval_APPROVED, ar_resolved_by := Some who,
            ar_resolved_at := Some (at_or_now (da_at d) (da_utc d)),
            ar_decision_reason := da_reason d, ar_decision_idempotency_key := Some key,
            ar_decision_metadata := freeze_map (metadata_or_empty (da_metadata d)),
            ar_row_version := ar_row_version a + 1\<rparr>"
  (is "?call \<longleftrightarrow> ?cond")
proof
  assume ?call
  then have "approval_resolve Approval_APPROVED who key (Some fp) d a = (Inr (), a')"
    by (simp add: approve_def)
  then show ?cond
    by (cases rule: approval_resolve_cases) (simp_all add: resolve_checks_ok resolve_assign_def)
next
  assume c: ?cond
  obtain r b where rb: "approval_resolve Approval_APPROVED who key (Some fp) d a = (r, b)" by force
  then have "r = Inr () \<and> b = a'"
    using c by (cases rule: approval_resolve_cases) (simp_all add: resolve_checks_ok resolve_assign_def)
  with rb show ?call by (simp add: approve_def)
qed

theorem approve_succeeds_iff_witness:
  "\<exists>a'. approve ''u1'' ''k1'' ''f1'' (sample_decision (VInt 1)) sample_request = (Inr (), a') \<and>
     ar_status a' = Approval_APPROVED \<and> ar_resolved_at a' = Some (Aware 4)"
proof -
  obtain a' where a': "approve ''u1'' ''k1'' ''f1'' (sample_decision (VInt 1)) sample_request = (Inr (), a')"
    using sample_approve by (metis prod.collapse)
  from this [unfolded approve_succeeds_iff]
  have "ar_status a' = Approval_APPROVED" and "ar_resolved_at a' = Some (Aware 4)"
    by (simp_all add: sample_decision_def at_or_now_def)
  with a' show ?thesis by blast
qed

text \<open>
  Every decision that succeeds keeps the invariant the constructor establishes: a decided
  request names its time, an approved or rejected one its resolver and key, an expired one
  neither.
\<close>

theorem decision_keeps_request_ok:
  assumes "approval_ok a" and "approval_do act a = (Inr (), a')"
  shows "approval_ok a' \<and> ar_status a' \<noteq> Approval_PENDING"
proof (cases act)
  case (Act_approve who key fp d)
  with assms(2) have "approval_resolve Approval_APPROVED who key (Some fp) d a = (Inr (), a')"
    by (simp add: approve_def)
  then show ?thesis using assms(1)
    by (cases rule: approval_resolve_cases)
       (auto simp: approval_ok_def resolve_assign_def resolve_checks_ok
          validate_resolution_fields_def bindR_Inr_iff)
next
  case (Act_reject who key d)
  with assms(2) have "approval_resolve Approval_REJECTED who key None d a = (Inr (), a')"
    by (simp add: reject_def)
  then show ?thesis using assms(1)
    by (cases rule: approval_resolve_cases)
       (auto simp: approval_ok_def resolve_assign_def resolve_checks_ok
          validate_resolution_fields_def bindR_Inr_iff)
next
  case (Act_expire d)
  with assms(2) have "expire d a = (Inr (), a')" by simp
  then show ?thesis using assms(1)
    by (cases rule: expire_cases)
       (auto simp: approval_ok_def expire_assign_def expire_checks_def
          validate_resolution_fields_def bindR_Inr_iff split: option.splits if_splits)
qed

theorem decision_keeps_request_ok_witness:
  "approval_ok (snd (approval_do (Act_approve ''u1'' ''k1'' ''f1'' (sample_decision (VInt 1))) sample_request))"
proof -
  have "approval_do (Act_approve ''u1'' ''k1'' ''f1'' (sample_decision (VInt 1))) sample_request
      = (Inr (), snd (approval_do (Act_approve ''u1'' ''k1'' ''f1'' (sample_decision (VInt 1))) sample_request))"
    using sample_approve by (simp add: prod_eq_iff)
  from decision_keeps_request_ok [OF sample_request_ok this] show ?thesis by simp
qed

text \<open>
  No request is ever expired before its deadline, and after the deadline it can be neither
  approved nor rejected: the two ways of deciding a request with a deadline exclude each other
  in time.
\<close>

theorem deadline_separates_decisions:
  assumes "ar_expires_at a = Some (Aware x)" and "at_or_now (da_at d) (da_utc d) = Aware t"
  shows "(expire d a = (Inr (), a') \<longrightarrow> x \<le> t) \<and>
    (approve who key fp d a = (Inr (), a') \<longrightarrow> t < x) \<and>
    (reject who key d a = (Inr (), a') \<longrightarrow> t < x)"
proof (intro conjI impI)
  assume "expire d a = (Inr (), a')"
  then show "x \<le> t" using assms
    by (cases rule: expire_cases) (auto simp: expire_checks_def bindR_Inr_iff)
next
  assume "approve who key fp d a = (Inr (), a')"
  then have "approval_resolve Approval_APPROVED who key (Some fp) d a = (Inr (), a')"
    by (simp add: approve_def)
  then show "t < x" using assms by (cases rule: approval_resolve_cases) (auto simp: resolve_checks_ok)
next
  assume "reject who key d a = (Inr (), a')"
  then have "approval_resolve Approval_REJECTED who key None d a = (Inr (), a')"
    by (simp add: reject_def)
  then show "t < x" using assms by (cases rule: approval_resolve_cases) (auto simp: resolve_checks_ok)
qed

theorem deadline_separates_decisions_witness:
  "fst (approve ''u1'' ''k1'' ''f1'' (sample_decision (VInt 1)) sample_request) = Inr () \<and>
   fst (expire (sample_decision (VInt 1)) sample_request) \<noteq> Inr ()"
proof -
  have h: "ar_expires_at sample_request = Some (Aware 10)"
    "at_or_now (da_at (sample_decision (VInt 1))) (da_utc (sample_decision (VInt 1))) = Aware 4"
    by (simp_all add: sample_request_def sample_decision_def at_or_now_def)
  have "expire (sample_decision (VInt 1)) sample_request \<noteq> (Inr (), a')" for a'
    using deadline_separates_decisions [OF h] by fastforce
  then have "fst (expire (sample_decision (VInt 1)) sample_request) \<noteq> Inr ()" by (metis prod.collapse)
  with sample_approve show ?thesis by simp
qed

text \<open>
  An approval whose metadata is not JSON raises, and yet the request is left APPROVED with
  its resolver set and its version unchanged: the status is assigned before the metadata is
  validated.
\<close>

theorem failed_approval_sticks:
  assumes "ar_status a = Approval_PENDING" and "nonblank who" and "nonblank key"
    and "at_or_now (da_at d) (da_utc d) = Aware t"
    and "\<forall>x. ar_expires_at a = Some x \<longrightarrow> dt_le x (Aware t) = Inr False"
    and "\<not> is_json_object (metadata_or_empty (da_metadata d))"
  shows "\<exists>e a'. approve who key (ar_request_fingerprint a) d a = (Inl e, a') \<and>
    ar_status a' = Approval_APPROVED \<and> ar_resolved_by a' = Some who \<and>
    ar_row_version a' = ar_row_version a"
proof -
  obtain r b where rb: "approval_resolve Approval_APPROVED who key (Some (ar_request_fingerprint a)) d a
      = (r, b)" by force
  have "resolve_checks Approval_APPROVED who key (Some (ar_request_fingerprint a)) (Aware t) a = Inr ()"
    unfolding resolve_checks_ok using assms by simp
  with rb obtain e where e: "r = Inl e"
    and b: "b = resolve_assign Approval_APPROVED who key (Aware t) (da_reason d) a"
    using assms(1,4,6) by (cases rule: approval_resolve_cases) simp_all
  have "approve who key (ar_request_fingerprint a) d a = (Inl e, b)" using rb e by (simp add: approve_def)
  moreover have "ar_status b = Approval_APPROVED" "ar_resolved_by b = Some who"
    "ar_row_version b = ar_row_version a" by (simp_all add: b resolve_assign_def)
  ultimately show ?thesis by blast
qed

theorem failed_approval_sticks_witness:
  "\<exists>e a'. approve ''u1'' ''k1'' ''f1'' (sample_decision (VObj 1)) sample_request = (Inl e, a') \<and>
     ar_status a' = Approval_APPROVED \<and> ar_resolved_by a' = Some ''u1'' \<and> ar_row_version a' = 0"
proof -
  have "nonblank ''u1''" "nonblank ''k1''" by code_simp+
  moreover have "ar_status sample_request = Approval_PENDING" "ar_row_version sample_request = 0"
    "ar_request_fingerprint sample_request = ''f1''"
    "\<forall>x. ar_expires_at sample_request = Some x \<longrightarrow> dt_le x (Aware 4) = Inr False"
    "at_or_now (da_at (sample_decision (VObj 1))) (da_utc (sample_decision (VObj 1))) = Aware 4"
    by (simp_all add: sample_request_def sample_decision_def at_or_now_def)
  ultimately show ?thesis
    using failed_approval_sticks [of sample_request "''u1''" "''k1''" "sample_decision (VObj 1)" 4]
      sample_metadata_not_json by simp
qed

end
