(* ===== verification/Engine_Models.thy ===== *)
theory Engine_Models
  imports Execution_Inv
begin

text \<open>
  The immutable values the Workflow Engine works on,
  \<^verbatim>\<open>backend/workflow_engine/models\<close>: retry policies, versioned definitions built
  from the domain workflow, snapshots of an execution, and decisions. Retry delays are
  rationals: a float without rounding, with the conversion of a too large integer written out.
\<close>

section \<open>Retry policy\<close>

record RetryPolicy =
  rp_max_attempts :: int
  rp_backoff :: string
  rp_initial_seconds :: rat
  rp_max_seconds :: rat

definition retry_policy_post_init :: "RetryPolicy \<Rightarrow> RetryPolicy res" where
  "retry_policy_post_init p =
     bindR (guardR (rp_max_attempts p \<le> 0)
       (InvalidRetryPolicyError ''RetryPolicy.max_attempts must be positive''))
     (\<lambda>_. bindR (guardR (rp_backoff p \<notin> set backoff_names)
       (InvalidRetryPolicyError ''RetryPolicy.backoff must be fixed, linear, or exponential''))
     (\<lambda>_. bindR (guardR (rp_initial_seconds p < 0)
       (InvalidRetryPolicyError ''RetryPolicy.initial_seconds cannot be negative''))
     (\<lambda>_. bindR (guardR (rp_max_seconds p < rp_initial_seconds p)
       (InvalidRetryPolicyError ''RetryPolicy.max_seconds cannot be smaller than initial_seconds''))
     (\<lambda>_. Inr p))))"

definition permits_retry :: "RetryPolicy \<Rightarrow> int \<Rightarrow> bool res" where
  "permits_retry p current_attempt =
     (if current_attempt \<le> 0 then Inl (InvalidRetryPolicyError ''Current attempt must be positive'')
      else Inr (current_attempt < rp_max_attempts p))"

text \<open>An integer operand of a float product is converted first; the conversion overflows here.\<close>

definition int_overflows_float :: "int \<Rightarrow> bool" where
  "int_overflows_float n \<longleftrightarrow> 2 ^ 1024 - 2 ^ 970 \<le> n"

definition delay_for_next_attempt :: "RetryPolicy \<Rightarrow> int \<Rightarrow> rat res" where
  "delay_for_next_attempt p next_attempt =
     (if next_attempt < 2 then Inl (InvalidRetryPolicyError ''Retry attempt must be at least 2'')
      else
        (let retry_index = next_attempt - 1;
             factor = (if rp_backoff p = ''fixed'' then 1
                       else if rp_backoff p = ''linear'' then retry_index
                       else 2 ^ nat (retry_index - 1))
         in if int_overflows_float factor then Inl PyOverflowError
            else Inr (min (rp_initial_seconds p * of_int factor) (rp_max_seconds p))))"

section \<open>Definitions\<close>

record StepDefinition =
  sd_id :: string
  sd_kind :: WorkflowStepKind
  sd_needs :: "string list"
  sd_uses :: "string option"
  sd_input_mapping :: pymap
  sd_timeout_seconds :: int
  sd_retry_policy :: RetryPolicy
  sd_checkpoint_policy :: string
  sd_approval_policy :: "string option"

definition step_from_domain :: "WorkflowStep \<Rightarrow> StepDefinition res" where
  "step_from_domain s =
     bindR (retry_policy_post_init
       \<lparr>rp_max_attempts = ws_max_attempts s, rp_backoff = ws_retry_backoff s,
        rp_initial_seconds = ws_retry_initial_seconds s, rp_max_seconds = ws_retry_max_seconds s\<rparr>)
     (\<lambda>p. Inr \<lparr>sd_id = ws_id s, sd_kind = ws_kind s, sd_needs = ws_needs s, sd_uses = ws_uses s,
        sd_input_mapping = freeze_map (ws_input_mapping s),
        sd_timeout_seconds = ws_timeout_seconds s, sd_retry_policy = p,
        sd_checkpoint_policy = ws_checkpoint_policy s,
        sd_approval_policy = ws_approval_policy s\<rparr>)"

record WorkflowDefinition =
  wd_id :: string
  wd_version :: string
  wd_name :: string
  wd_steps :: "StepDefinition list"
  wd_schema_version :: string
  wd_input_schema :: pymap
  wd_outputs :: pymap

definition workflow_from_domain :: "Workflow \<Rightarrow> WorkflowDefinition res" where
  "workflow_from_domain w =
     bindR (mapR step_from_domain (wf_steps w))
     (\<lambda>steps. Inr \<lparr>wd_id = wf_id w, wd_version = wf_version w, wd_name = wf_name w,
        wd_steps = steps, wd_schema_version = wf_schema_version w,
        wd_input_schema = freeze_map (wf_input_schema w), wd_outputs = freeze_map (wf_outputs w)\<rparr>)"

definition definition_get_step :: "WorkflowDefinition \<Rightarrow> string \<Rightarrow> StepDefinition res" where
  "definition_get_step d step_id =
     (case find (\<lambda>s. sd_id s = step_id) (wd_steps d) of
        Some s \<Rightarrow> Inr s | None \<Rightarrow> Inl (PyKeyError step_id))"

definition order_of :: "WorkflowDefinition \<Rightarrow> string \<Rightarrow> nat res" where
  "order_of d step_id =
     (case find (\<lambda>i. sd_id (wd_steps d ! i) = step_id) [0..<length (wd_steps d)] of
        Some i \<Rightarrow> Inr i | None \<Rightarrow> Inl (PyKeyError step_id))"

definition definition_graph :: "WorkflowDefinition \<Rightarrow> graph" where
  "definition_graph d = map (\<lambda>s. (sd_id s, sd_needs s)) (wd_steps d)"

definition definition_ids :: "WorkflowDefinition \<Rightarrow> string list" where
  "definition_ids d = map sd_id (wd_steps d)"

section \<open>Snapshots\<close>

record StepRunSnapshot =
  ss_id :: string
  ss_step_id :: string
  ss_attempt :: int
  ss_status :: StepRunStatus
  ss_row_version :: int
  ss_inputs :: pymap
  ss_outputs :: pymap
  ss_error_code :: "string option"

record ExecutionSnapshot =
  es_workflow_run_id :: string
  es_workflow_id :: string
  es_workflow_version :: string
  es_run_status :: WorkflowRunStatus
  es_run_row_version :: int
  es_workflow_inputs :: pymap
  es_agent_session_id :: string
  es_agent_status :: AgentSessionStatus
  es_agent_row_version :: int
  es_step_runs :: "StepRunSnapshot list"

definition step_run_snapshot :: "StepRun \<Rightarrow> StepRunSnapshot" where
  "step_run_snapshot s =
     \<lparr>ss_id = sr_id s, ss_step_id = sr_step_id s, ss_attempt = sr_attempt s,
      ss_status = sr_status s, ss_row_version = sr_row_version s,
      ss_inputs = freeze_map (sr_inputs s), ss_outputs = freeze_map (sr_outputs s),
      ss_error_code = sr_error_code s\<rparr>"

definition snapshot_of :: "ExecutionState \<Rightarrow> ExecutionSnapshot" where
  "snapshot_of x =
     (let r = ex_workflow_run x; a = ex_agent_session x in
      \<lparr>es_workflow_run_id = wr_id r, es_workflow_id = wr_workflow_id r,
       es_workflow_version = wr_workflow_version r, es_run_status = wr_status r,
       es_run_row_version = wr_row_version r, es_workflow_inputs = freeze_map (wr_inputs r),
       es_agent_session_id = as_id a, es_agent_status = as_status a,
       es_agent_row_version = as_row_version a,
       es_step_runs = map step_run_snapshot (ex_step_runs x)\<rparr>)"

text \<open>The loop of \<open>latest_attempts\<close>: the attempts seen so far and the dictionary \<open>latest\<close>.\<close>

fun latest_attempts_loop ::
  "StepRunSnapshot list \<Rightarrow> (string \<times> int) list \<Rightarrow> (string \<times> StepRunSnapshot) list \<Rightarrow>
   (string \<times> StepRunSnapshot) list res" where
  "latest_attempts_loop [] seen latest = Inr latest"
| "latest_attempts_loop (r # rs) seen latest =
     (if (ss_step_id r, ss_attempt r) \<in> set seen then
        Inl (WorkflowStateError
          (''Duplicate attempt '' @ int_str (ss_attempt r) @ '' for step '' @ ss_step_id r))
      else latest_attempts_loop rs ((ss_step_id r, ss_attempt r) # seen)
        (case map_of latest (ss_step_id r) of
           None \<Rightarrow> dict_set (ss_step_id r) r latest
         | Some previous \<Rightarrow>
             if ss_attempt r > ss_attempt previous then dict_set (ss_step_id r) r latest
             else latest))"

definition latest_attempts :: "ExecutionSnapshot \<Rightarrow> (string \<times> StepRunSnapshot) list res" where
  "latest_attempts s = latest_attempts_loop (es_step_runs s) [] []"

section \<open>Decisions\<close>

record decision_base =
  db_workflow_run_id :: string
  db_workflow_id :: string
  db_workflow_version :: string
  db_expected_run_version :: int
  db_checkpoint_required :: bool
  db_reason :: string

record step_ready =
  sy_step_id :: string
  sy_step_run_id :: string
  sy_attempt :: int
  sy_expected_step_version :: int
  sy_skill_ref :: string
  sy_resolved_inputs :: pymap
  sy_requires_ready_transition :: bool

record waiting_approval =
  wa_step_id :: string
  wa_step_run_id :: string
  wa_attempt :: int
  wa_expected_step_version :: int
  wa_approval_policy :: string
  wa_resolved_inputs :: pymap
  wa_requires_ready_transition :: bool

record retry_scheduled =
  rs_step_id :: string
  rs_step_run_id :: string
  rs_current_attempt :: int
  rs_next_attempt :: int
  rs_expected_step_version :: int
  rs_delay_seconds :: rat
  rs_backoff :: string
  rs_error_code :: string

record workflow_failed =
  wx_error_code :: string
  wx_message :: string
  wx_failed_step_id :: "string option"
  wx_expected_step_version :: "int option"
  wx_retry_exhausted :: bool

record approval_completed =
  ac_step_id :: string
  ac_step_run_id :: string
  ac_expected_step_version :: int
  ac_outputs :: pymap

record workflow_cancelled =
  wc_error_code :: string
  wc_step_id :: "string option"

datatype decision =
  StepReady decision_base step_ready
| WorkflowCompleted decision_base pymap
| WaitingApproval decision_base waiting_approval
| RetryScheduled decision_base retry_scheduled
| WorkflowFailed decision_base workflow_failed
| ApprovalCompleted decision_base approval_completed
| WorkflowCancelled decision_base workflow_cancelled
| NoAction decision_base

text \<open>The constructors that freeze a mapping field, \<open>__post_init__\<close>.\<close>

definition step_ready_post_init :: "decision_base \<Rightarrow> step_ready \<Rightarrow> decision" where
  "step_ready_post_init b y =
     StepReady b (y\<lparr>sy_resolved_inputs := freeze_map (sy_resolved_inputs y)\<rparr>)"

definition workflow_completed_post_init :: "decision_base \<Rightarrow> pymap \<Rightarrow> decision" where
  "workflow_completed_post_init b outputs = WorkflowCompleted b (freeze_map outputs)"

definition waiting_approval_post_init :: "decision_base \<Rightarrow> waiting_approval \<Rightarrow> decision" where
  "waiting_approval_post_init b y =
     WaitingApproval b (y\<lparr>wa_resolved_inputs := freeze_map (wa_resolved_inputs y)\<rparr>)"

definition approval_completed_post_init :: "decision_base \<Rightarrow> approval_completed \<Rightarrow> decision" where
  "approval_completed_post_init b y =
     ApprovalCompleted b (y\<lparr>ac_outputs := freeze_map (ac_outputs y)\<rparr>)"

fun decision_base_of :: "decision \<Rightarrow> decision_base" where
  "decision_base_of (StepReady b _) = b"
| "decision_base_of (WorkflowCompleted b _) = b"
| "decision_base_of (WaitingApproval b _) = b"
| "decision_base_of (RetryScheduled b _) = b"
| "decision_base_of (WorkflowFailed b _) = b"
| "decision_base_of (ApprovalCompleted b _) = b"
| "decision_base_of (WorkflowCancelled b _) = b"
| "decision_base_of (NoAction b) = b"

text \<open>
  \<open>getattr(decision, "step_id", None)\<close> and \<open>getattr(decision, "expected_step_version", None)\<close>:
  a \<open>WorkflowFailed\<close> has the second attribute but names its step \<open>failed_step_id\<close>.
\<close>

fun decision_step_id :: "decision \<Rightarrow> string option" where
  "decision_step_id (StepReady _ y) = Some (sy_step_id y)"
| "decision_step_id (WaitingApproval _ y) = Some (wa_step_id y)"
| "decision_step_id (RetryScheduled _ y) = Some (rs_step_id y)"
| "decision_step_id (ApprovalCompleted _ y) = Some (ac_step_id y)"
| "decision_step_id (WorkflowCancelled _ y) = wc_step_id y"
| "decision_step_id _ = None"

fun decision_step_version :: "decision \<Rightarrow> int option" where
  "decision_step_version (StepReady _ y) = Some (sy_expected_step_version y)"
| "decision_step_version (WaitingApproval _ y) = Some (wa_expected_step_version y)"
| "decision_step_version (RetryScheduled _ y) = Some (rs_expected_step_version y)"
| "decision_step_version (ApprovalCompleted _ y) = Some (ac_expected_step_version y)"
| "decision_step_version (WorkflowFailed _ y) = wx_expected_step_version y"
| "decision_step_version _ = None"

datatype ApprovalOutcome = Outcome_APPROVED | Outcome_REJECTED | Outcome_EXPIRED

fun outcome_value :: "ApprovalOutcome \<Rightarrow> string" where
  "outcome_value Outcome_APPROVED = ''APPROVED''"
| "outcome_value Outcome_REJECTED = ''REJECTED''"
| "outcome_value Outcome_EXPIRED = ''EXPIRED''"

section \<open>Lemmas\<close>

lemma step_from_domain_valid:
  assumes "workflow_step_ok s"
  shows "\<exists>d. step_from_domain s = Inr d"
  using assms
  by (auto simp: step_from_domain_def retry_policy_post_init_def bindR_Inr_iff workflow_step_ok_def
      guardR_def)

lemma step_from_domain_sel:
  assumes "step_from_domain s = Inr d"
  shows "sd_id d = ws_id s" "sd_needs d = ws_needs s" "sd_kind d = ws_kind s" "sd_uses d = ws_uses s"
    "sd_approval_policy d = ws_approval_policy s" "sd_timeout_seconds d = ws_timeout_seconds s"
    "sd_checkpoint_policy d = ws_checkpoint_policy s"
    "rp_max_attempts (sd_retry_policy d) = ws_max_attempts s"
  using assms by (auto simp: step_from_domain_def retry_policy_post_init_def bindR_Inr_iff)

lemma workflow_from_domain_valid:
  assumes "workflow_valid w"
  obtains d where "workflow_from_domain w = Inr d"
proof -
  have "\<exists>ys. mapR step_from_domain (wf_steps w) = Inr ys"
    using assms step_from_domain_valid by (intro mapR_total) (auto simp: workflow_valid_def)
  with that show thesis by (auto simp: workflow_from_domain_def)
qed

lemma workflow_from_domain_steps:
  assumes "workflow_from_domain w = Inr d"
  shows "list_all2 (\<lambda>s e. step_from_domain s = Inr e) (wf_steps w) (wd_steps d)"
  using assms by (auto simp: workflow_from_domain_def bindR_Inr_iff mapR_Inr_iff)

lemma workflow_from_domain_graph:
  assumes "workflow_from_domain w = Inr d"
  shows "definition_graph d = workflow_graph w" and "definition_ids d = workflow_step_ids w"
    and "wd_id d = wf_id w" and "wd_version d = wf_version w"
proof -
  have "list_all2 (\<lambda>s e. sd_id e = ws_id s \<and> sd_needs e = ws_needs s) (wf_steps w) (wd_steps d)"
    using workflow_from_domain_steps [OF assms] by (rule list_all2_mono) (simp add: step_from_domain_sel)
  then show "definition_graph d = workflow_graph w" and "definition_ids d = workflow_step_ids w"
    by (auto simp: definition_graph_def workflow_graph_def definition_ids_def workflow_step_ids_def
        list_all2_conv_all_nth list_eq_iff_nth_eq)
  show "wd_id d = wf_id w" "wd_version d = wf_version w"
    using assms by (auto simp: workflow_from_domain_def bindR_Inr_iff)
qed

end
