(* ===== verification/Engine_References.thy ===== *)
theory Engine_References
  imports Engine_Models
begin

text \<open>
  The Engine's reference resolver
  (\<^verbatim>\<open>backend/workflow_engine/services/reference_resolver.py\<close>) and its static validator
  (\<^verbatim>\<open>backend/workflow_engine/services/validator.py\<close>).
\<close>

section \<open>Reference strings\<close>

fun iter_reference_strings :: "pyval \<Rightarrow> string list" where
  "iter_reference_strings (VStr s) = (if contains ''${'' s then [s] else [])"
| "iter_reference_strings (VDict kvs) = concat (map (\<lambda>(k, v). iter_reference_strings v) kvs)"
| "iter_reference_strings (VProxy kvs) = concat (map (\<lambda>(k, v). iter_reference_strings v) kvs)"
| "iter_reference_strings (VTuple xs) = concat (map iter_reference_strings xs)"
| "iter_reference_strings (VList xs) = concat (map iter_reference_strings xs)"
| "iter_reference_strings _ = []"

definition step_references :: "StepDefinition \<Rightarrow> string list" where
  "step_references s = iter_reference_strings (VProxy (sd_input_mapping s))"

definition successful_states :: "StepRunStatus list" where
  "successful_states = [Step_COMPLETED, Step_SKIPPED]"

section \<open>Resolution\<close>

definition ancestors_of :: "WorkflowDefinition \<Rightarrow> string \<Rightarrow> string list res" where
  "ancestors_of d step_id = graph_ancestors (definition_graph d) step_id"

text \<open>The names the nested function \<open>resolve\<close> closes over.\<close>

record resolve_scope =
  rv_step_id :: string
  rv_ancestors :: "string list"
  rv_latest :: "(string \<times> StepRunSnapshot) list"
  rv_inputs :: pymap

definition resolve_string :: "resolve_scope \<Rightarrow> string \<Rightarrow> pyval res" where
  "resolve_string c s =
     (case match_input_reference s of
        Some input_name \<Rightarrow>
          (case map_of (rv_inputs c) input_name of
             None \<Rightarrow> Inl (InvalidReferenceError (''Step '' @ rv_step_id c @
                       '' references missing workflow input '' @ input_name))
           | Some v \<Rightarrow> Inr (freeze v))
      | None \<Rightarrow>
      (case match_node_reference s of
        Some (source, output_name) \<Rightarrow>
          if source \<notin> set (rv_ancestors c) then
            Inl (InvalidReferenceError (''Step '' @ rv_step_id c @
              '' references non-ancestor step '' @ source))
          else
          (case map_of (rv_latest c) source of
             None \<Rightarrow> Inl (InvalidReferenceError (''Step '' @ rv_step_id c @
                       '' references missing state for '' @ source))
           | Some r \<Rightarrow>
             if ss_status r \<notin> set successful_states then
               Inl (InvalidReferenceError (''Step '' @ rv_step_id c @
                 '' references incomplete step '' @ source))
             else
             (case map_of (ss_outputs r) output_name of
                None \<Rightarrow> Inl (InvalidReferenceError (''Step '' @ rv_step_id c @
                          '' references missing output '' @ source @ ''.'' @ output_name))
              | Some v \<Rightarrow> Inr (freeze v)))
      | None \<Rightarrow>
          if contains ''${'' s then
            Inl (InvalidReferenceError (''Step '' @ rv_step_id c @
              '' contains unsupported reference '' @ py_repr s))
          else Inr (VStr s)))"

fun resolve_value :: "resolve_scope \<Rightarrow> pyval \<Rightarrow> pyval res" where
  "resolve_value c (VStr s) = resolve_string c s"
| "resolve_value c (VDict kvs) =
     bindR (mapR (\<lambda>(k, v). bindR (resolve_value c v) (\<lambda>v'. Inr (k, v'))) kvs)
       (\<lambda>items. Inr (freeze (VDict items)))"
| "resolve_value c (VProxy kvs) =
     bindR (mapR (\<lambda>(k, v). bindR (resolve_value c v) (\<lambda>v'. Inr (k, v'))) kvs)
       (\<lambda>items. Inr (freeze (VDict items)))"
| "resolve_value c (VTuple xs) = bindR (mapR (resolve_value c) xs) (\<lambda>ys. Inr (VTuple ys))"
| "resolve_value c (VList xs) = bindR (mapR (resolve_value c) xs) (\<lambda>ys. Inr (VTuple ys))"
| "resolve_value c v = Inr v"

definition resolve_step_inputs ::
  "WorkflowDefinition \<Rightarrow> StepDefinition \<Rightarrow> ExecutionSnapshot \<Rightarrow> pymap res" where
  "resolve_step_inputs d step snap =
     bindR (ancestors_of d (sd_id step))
     (\<lambda>ancestors. bindR (latest_attempts snap)
     (\<lambda>latest.
       let c = \<lparr>rv_step_id = sd_id step, rv_ancestors = ancestors, rv_latest = latest,
                rv_inputs = es_workflow_inputs snap\<rparr>
       in bindR (mapR (\<lambda>(k, v). bindR (resolve_value c v) (\<lambda>v'. Inr (k, v')))
                  (sd_input_mapping step))
            (\<lambda>items. Inr (freeze_map items))))"

text \<open>One turn of the loop over \<open>definition.outputs\<close>; a reference that is no string is a
  \<open>TypeError\<close> of \<open>fullmatch\<close>.\<close>

definition resolve_output ::
  "(string \<times> StepRunSnapshot) list \<Rightarrow> string \<times> pyval \<Rightarrow> (string \<times> pyval) res" where
  "resolve_output latest item =
     (case item of (output_name, reference) \<Rightarrow>
        (case reference of
           VStr ref \<Rightarrow>
             (case match_node_reference ref of
                None \<Rightarrow> Inl (InvalidReferenceError (''Workflow output '' @ output_name @
                          '' has invalid reference '' @ py_repr ref))
              | Some (step_id, field_name) \<Rightarrow>
                (case map_of latest step_id of
                   None \<Rightarrow> Inl (InvalidReferenceError (''Workflow output '' @ output_name @
                             '' references incomplete step '' @ step_id))
                 | Some r \<Rightarrow>
                   if ss_status r \<notin> set successful_states then
                     Inl (InvalidReferenceError (''Workflow output '' @ output_name @
                       '' references incomplete step '' @ step_id))
                   else
                   (case map_of (ss_outputs r) field_name of
                      None \<Rightarrow> Inl (InvalidReferenceError (''Workflow output '' @ output_name @
                                '' references missing '' @ step_id @ ''.'' @ field_name))
                    | Some v \<Rightarrow> Inr (output_name, freeze v))))
         | _ \<Rightarrow> Inl PyTypeError))"

definition resolve_workflow_outputs :: "WorkflowDefinition \<Rightarrow> ExecutionSnapshot \<Rightarrow> pymap res" where
  "resolve_workflow_outputs d snap =
     bindR (latest_attempts snap)
     (\<lambda>latest. bindR (mapR (resolve_output latest) (wd_outputs d))
     (\<lambda>resolved. Inr (freeze_map resolved)))"

section \<open>Validation\<close>

definition definition_error :: "string \<Rightarrow> py_exc" where
  "definition_error m = InvalidWorkflowDefinitionError m"

definition validate_kind :: "StepDefinition \<Rightarrow> unit res" where
  "validate_kind s =
     (case sd_kind s of
        Kind_SKILL \<Rightarrow>
          guardR (case sd_uses s of None \<Rightarrow> True | Some u \<Rightarrow> u = [] \<or> CHR 0x40 \<notin> set u)
            (definition_error (''Skill step '' @ sd_id s @ '' must pin skill_id@version''))
      | Kind_APPROVAL \<Rightarrow>
          guardR (sd_uses s \<noteq> None \<or>
              (case sd_approval_policy s of None \<Rightarrow> True | Some p \<Rightarrow> p = []))
            (definition_error (''Approval step '' @ sd_id s @ '' requires only an approval policy'')))"

definition validate_step :: "string list \<Rightarrow> StepDefinition \<Rightarrow> unit res" where
  "validate_step known s =
     bindR (guardR (\<not> is_ident (sd_id s))
       (definition_error (''Invalid workflow step id '' @ py_repr (sd_id s))))
     (\<lambda>_. bindR (guardR (\<not> distinct (sd_needs s))
       (definition_error (''Step '' @ sd_id s @ '' contains duplicate dependencies'')))
     (\<lambda>_. bindR (guardR (sd_id s \<in> set (sd_needs s))
       (definition_error (''Step '' @ sd_id s @ '' cannot depend on itself'')))
     (\<lambda>_. bindR (guardR (missing_needs known (sd_needs s) \<noteq> [])
       (definition_error (''Step '' @ sd_id s @ '' has missing dependencies: '' @
          join '', '' (missing_needs known (sd_needs s)))))
     (\<lambda>_. bindR (guardR (sd_timeout_seconds s \<le> 0)
       (definition_error (''Step '' @ sd_id s @ '' timeout must be positive'')))
     (\<lambda>_. bindR (guardR (sd_checkpoint_policy s \<noteq> ''after_success'')
       (definition_error (''Step '' @ sd_id s @ '' uses an unsupported checkpoint policy'')))
     (\<lambda>_. validate_kind s))))))"

text \<open>The steps without needs start the queue here, not those with a zero count.\<close>

definition engine_validate_acyclic :: "WorkflowDefinition \<Rightarrow> unit res" where
  "engine_validate_acyclic d =
     (let g = definition_graph d;
          ready = map sd_id (filter (\<lambda>s. sd_needs s = []) (wd_steps d));
          visited = kahn_loop g (inbound_count g) ready 0
      in guardR (visited \<noteq> length (wd_steps d))
           (definition_error ''Workflow dependencies contain a cycle''))"

definition validate_step_reference ::
  "WorkflowDefinition \<Rightarrow> string \<Rightarrow> string list \<Rightarrow> string \<Rightarrow> unit res" where
  "validate_step_reference d step_id ancestors reference =
     (case match_input_reference reference of
        Some input_name \<Rightarrow>
          guardR (map_of (wd_input_schema d) input_name = None)
            (InvalidReferenceError (''Step '' @ step_id @ '' references undefined input '' @ input_name))
      | None \<Rightarrow>
      (case match_node_reference reference of
        Some (referenced_step, _) \<Rightarrow>
          guardR (referenced_step \<notin> set ancestors)
            (InvalidReferenceError (''Step '' @ step_id @ '' references non-ancestor step '' @
               referenced_step))
      | None \<Rightarrow> Inl (InvalidReferenceError (''Step '' @ step_id @
                  '' contains unsupported reference '' @ py_repr reference))))"

definition validate_references :: "WorkflowDefinition \<Rightarrow> StepDefinition \<Rightarrow> unit res" where
  "validate_references d s =
     bindR (ancestors_of d (sd_id s))
     (\<lambda>ancestors. forR (step_references s) (validate_step_reference d (sd_id s) ancestors))"

definition validate_output :: "string list \<Rightarrow> string \<times> pyval \<Rightarrow> unit res" where
  "validate_output known item =
     (case item of (output_name, reference) \<Rightarrow>
        bindR (guardR (py_strip output_name = [])
          (InvalidReferenceError ''Workflow output name cannot be empty''))
        (\<lambda>_. case reference of
           VStr ref \<Rightarrow>
             (case match_node_reference ref of
                None \<Rightarrow> Inl (InvalidReferenceError (''Workflow output '' @ output_name @
                          '' has invalid reference '' @ py_repr ref))
              | Some (step, _) \<Rightarrow>
                  guardR (step \<notin> set known) (InvalidReferenceError (''Workflow output '' @
                    output_name @ '' references missing step '' @ step)))
         | _ \<Rightarrow> Inl PyTypeError))"

definition validate :: "WorkflowDefinition \<Rightarrow> unit res" where
  "validate d =
     bindR (guardR (py_strip (wd_id d) = [] \<or> py_strip (wd_version d) = [])
       (definition_error ''Workflow id and version must be non-empty''))
     (\<lambda>_. bindR (guardR (py_strip (wd_name d) = [])
       (definition_error ''Workflow name must be non-empty''))
     (\<lambda>_. bindR (guardR (wd_schema_version d \<noteq> ''reagent/v1alpha1'')
       (definition_error (''Unsupported schema version '' @ wd_schema_version d)))
     (\<lambda>_. bindR (guardR (wd_steps d = []) (definition_error ''Workflow must contain a step''))
     (\<lambda>_. bindR (guardR (\<not> distinct (definition_ids d))
       (definition_error ''Workflow contains duplicate step ids''))
     (\<lambda>_. bindR (forR (wd_steps d) (validate_step (definition_ids d)))
     (\<lambda>_. bindR (engine_validate_acyclic d)
     (\<lambda>_. bindR (forR (wd_steps d) (validate_references d))
     (\<lambda>_. forR (wd_outputs d) (validate_output (definition_ids d))))))))))"

section \<open>What validation accepts\<close>

definition definition_closed :: "WorkflowDefinition \<Rightarrow> bool" where
  "definition_closed d \<longleftrightarrow> distinct (definition_ids d) \<and>
     (\<forall>s \<in> set (wd_steps d). set (sd_needs s) \<subseteq> set (definition_ids d))"

lemma definition_graph_ids [simp]: "map fst (definition_graph d) = definition_ids d"
  by (simp add: definition_graph_def definition_ids_def)

lemma definition_graph_fst [simp]: "fst ` set (definition_graph d) = set (definition_ids d)"
  by (metis definition_graph_ids list.set_map)

lemma definition_graph_wf: "definition_closed d \<Longrightarrow> graph_wf (definition_graph d)"
  unfolding graph_wf_def definition_closed_def
  by (auto simp: definition_graph_def definition_ids_def o_def image_image)

lemma engine_ready_steps:
  assumes "distinct (definition_ids d)"
  shows "map sd_id (filter (\<lambda>s. sd_needs s = []) (wd_steps d)) =
    filter (\<lambda>i. inbound_count (definition_graph d) i = 0) (definition_ids d)"
proof -
  have "inbound_count (definition_graph d) (sd_id s) = 0 \<longleftrightarrow> sd_needs s = []"
    if "s \<in> set (wd_steps d)" for s
  proof -
    have "map_of (rev (definition_graph d)) (sd_id s) = Some (sd_needs s)"
      using assms that by (subst map_of_rev) (auto simp: definition_graph_def definition_ids_def o_def)
    then show ?thesis by (simp add: inbound_count_def)
  qed
  then show ?thesis by (auto simp: definition_ids_def filter_map o_def intro!: arg_cong [of _ _ "map sd_id"] filter_cong)
qed

interpretation engine_dag: dag_checker definition_graph definition_closed engine_validate_acyclic
proof unfold_locales
  fix d
  show "definition_closed d \<Longrightarrow> graph_wf (definition_graph d)" by (rule definition_graph_wf)
  assume "definition_closed d"
  then have "map sd_id (filter (\<lambda>s. sd_needs s = []) (wd_steps d)) =
      filter (\<lambda>i. inbound_count (definition_graph d) i = 0) (map fst (definition_graph d))"
    by (simp add: engine_ready_steps definition_closed_def)
  moreover have "length (definition_graph d) = length (wd_steps d)" by (simp add: definition_graph_def)
  ultimately show "engine_validate_acyclic d = Inr () \<longleftrightarrow>
      kahn (definition_graph d) = length (definition_graph d)"
    by (simp add: engine_validate_acyclic_def kahn_def Let_def)
qed

definition step_definition_ok :: "string list \<Rightarrow> StepDefinition \<Rightarrow> bool" where
  "step_definition_ok known s \<longleftrightarrow>
     is_ident (sd_id s) \<and> distinct (sd_needs s) \<and> sd_id s \<notin> set (sd_needs s) \<and>
     set (sd_needs s) \<subseteq> set known \<and> 0 < sd_timeout_seconds s \<and>
     sd_checkpoint_policy s = ''after_success'' \<and>
     (sd_kind s = Kind_SKILL \<longrightarrow> (\<exists>u. sd_uses s = Some u \<and> CHR 0x40 \<in> set u)) \<and>
     (sd_kind s = Kind_APPROVAL \<longrightarrow>
        sd_uses s = None \<and> (\<exists>p. sd_approval_policy s = Some p \<and> p \<noteq> []))"

lemma validate_step_ok: "validate_step known s = Inr () \<longleftrightarrow> step_definition_ok known s"
proof -
  have "validate_kind s = Inr () \<longleftrightarrow>
      (sd_kind s = Kind_SKILL \<longrightarrow> (\<exists>u. sd_uses s = Some u \<and> CHR 0x40 \<in> set u)) \<and>
      (sd_kind s = Kind_APPROVAL \<longrightarrow>
         sd_uses s = None \<and> (\<exists>p. sd_approval_policy s = Some p \<and> p \<noteq> []))"
    by (cases "sd_kind s"; cases "sd_uses s"; cases "sd_approval_policy s")
       (auto simp: validate_kind_def)
  then show ?thesis
    unfolding validate_step_def step_definition_ok_def
    by (auto simp: bindR_Inr_iff not_le not_less)
qed

text \<open>An input reference names a declared input, a node reference a proper ancestor.\<close>

definition reference_ok :: "WorkflowDefinition \<Rightarrow> string \<Rightarrow> string \<Rightarrow> bool" where
  "reference_ok d step_id ref \<longleftrightarrow>
     (\<exists>n. match_input_reference ref = Some n \<and> n \<in> fst ` set (wd_input_schema d)) \<or>
     (\<exists>a f. match_node_reference ref = Some (a, f) \<and>
        (a, step_id) \<in> (edges (definition_graph d))\<^sup>+)"

lemma match_references_disjoint:
  "match_input_reference s = Some n \<Longrightarrow> match_node_reference s = None"
proof (rule ccontr)
  assume "match_input_reference s = Some n" and "match_node_reference s \<noteq> None"
  then obtain a b where "s = ''${inputs.'' @ n @ ''}''"
    and "s = ''${nodes.'' @ a @ ''.outputs.'' @ b @ ''}''"
    by (auto simp: match_input_reference_iff match_node_reference_iff)
  then show False by simp
qed

lemma validate_step_reference_ok:
  assumes "set anc = {a. (a, step_id) \<in> (edges (definition_graph d))\<^sup>+}"
  shows "validate_step_reference d step_id anc ref = Inr () \<longleftrightarrow> reference_ok d step_id ref"
  using assms match_references_disjoint [of ref]
  by (auto simp: validate_step_reference_def reference_ok_def map_of_eq_None_iff
      split: option.splits)

definition definition_valid :: "WorkflowDefinition \<Rightarrow> bool" where
  "definition_valid d \<longleftrightarrow>
     nonblank (wd_id d) \<and> nonblank (wd_version d) \<and> nonblank (wd_name d) \<and>
     wd_schema_version d = ''reagent/v1alpha1'' \<and> wd_steps d \<noteq> [] \<and>
     distinct (definition_ids d) \<and>
     (\<forall>s \<in> set (wd_steps d). step_definition_ok (definition_ids d) s) \<and>
     acyclic (edges (definition_graph d)) \<and>
     (\<forall>s \<in> set (wd_steps d). \<forall>ref \<in> set (step_references s). reference_ok d (sd_id s) ref) \<and>
     (\<forall>out \<in> set (wd_outputs d). workflow_output_ok (definition_ids d) out)"

lemma validate_output_ok: "validate_output known item = Inr () \<longleftrightarrow> workflow_output_ok known item"
  by (cases item; cases "snd item")
     (auto simp: validate_output_def workflow_output_ok_def bindR_Inr_iff nonblank_def
           split: option.splits)

lemma ancestors_of_closed:
  assumes "definition_closed d" and "s \<in> set (definition_ids d)"
  obtains r where "ancestors_of d s = Inr r" and "set r = {a. (a, s) \<in> (edges (definition_graph d))\<^sup>+}"
  using graph_ancestors_correct [OF definition_graph_wf [OF assms(1)]] assms(2)
  by (auto simp: ancestors_of_def)

lemma validate_references_ok:
  assumes "definition_closed d" and "s \<in> set (wd_steps d)"
  shows "validate_references d s = Inr () \<longleftrightarrow>
    (\<forall>ref \<in> set (step_references s). reference_ok d (sd_id s) ref)"
proof -
  from assms(2) have "sd_id s \<in> set (definition_ids d)" by (auto simp: definition_ids_def)
  with assms(1) obtain r where r: "ancestors_of d (sd_id s) = Inr r"
    and "set r = {a. (a, sd_id s) \<in> (edges (definition_graph d))\<^sup>+}" by (rule ancestors_of_closed)
  from this(2) show ?thesis
    by (simp add: validate_references_def r forR_Inr_iff validate_step_reference_ok)
qed

lemma definition_valid_closed: "definition_valid d \<Longrightarrow> definition_closed d"
  unfolding definition_valid_def definition_closed_def step_definition_ok_def by blast

lemma validate_iff: "validate d = Inr () \<longleftrightarrow> definition_valid d"
proof (cases "distinct (definition_ids d) \<and>
    (\<forall>s \<in> set (wd_steps d). step_definition_ok (definition_ids d) s)")
  case True
  then have c: "definition_closed d" unfolding definition_closed_def step_definition_ok_def by blast
  show ?thesis
    using True engine_dag.accepts_iff_acyclic [OF c] validate_references_ok [OF c]
    unfolding validate_def definition_valid_def
    by (auto simp: bindR_Inr_iff forR_Inr_iff validate_step_ok validate_output_ok nonblank_def)
next
  case False
  then show ?thesis
    unfolding validate_def definition_valid_def
    by (auto simp: bindR_Inr_iff forR_Inr_iff validate_step_ok)
qed

lemma step_definition_from_domain:
  assumes "workflow_step_ok s" and "set (ws_needs s) \<subseteq> set known" and "step_from_domain s = Inr e"
  shows "step_definition_ok known e"
proof -
  have "nonblank p \<Longrightarrow> p \<noteq> []" for p by (auto simp: nonblank_def py_strip_def)
  with assms(1,2) show ?thesis
    unfolding step_definition_ok_def workflow_step_ok_def step_from_domain_sel [OF assms(3)] by blast
qed

text \<open>
  The definition of a workflow the domain accepts fails no check of the validator but that
  of its step references.
\<close>

lemma from_domain_valid:
  assumes w: "workflow_valid w" and d: "workflow_from_domain w = Inr d"
  shows "validate d = Inr () \<longleftrightarrow>
    (\<forall>s \<in> set (wd_steps d). \<forall>ref \<in> set (step_references s). reference_ok d (sd_id s) ref)"
proof -
  have g: "definition_graph d = workflow_graph w" "definition_ids d = workflow_step_ids w"
    "wd_id d = wf_id w" "wd_version d = wf_version w"
    using workflow_from_domain_graph [OF d] by simp_all
  have f: "wd_name d = wf_name w" "wd_schema_version d = wf_schema_version w"
    "wd_outputs d = freeze_map (wf_outputs w)" using d by (auto simp: workflow_from_domain_def bindR_Inr_iff)
  have ok: "workflow_ok w" and steps: "\<forall>s \<in> set (wf_steps w). workflow_step_ok s"
    using w by (auto simp: workflow_valid_def)
  from ok have cl: "workflow_closed w" by (simp add: workflow_ok_def)
  have ac: "acyclic (edges (definition_graph d))"
    using ok workflow_dag.accepts_iff_acyclic [OF cl] by (simp add: g workflow_ok_def)
  have l2: "list_all2 (\<lambda>s e. step_from_domain s = Inr e) (wf_steps w) (wd_steps d)"
    by (rule workflow_from_domain_steps [OF d])
  have "step_definition_ok (definition_ids d) e" if e: "e \<in> set (wd_steps d)" for e
  proof -
    from e obtain i where i: "i < length (wd_steps d)" "wd_steps d ! i = e" by (auto simp: in_set_conv_nth)
    then have s: "wf_steps w ! i \<in> set (wf_steps w)" "step_from_domain (wf_steps w ! i) = Inr e"
      using list_all2_nthD2 [OF l2 i(1)] list_all2_lengthD [OF l2] by auto
    from s(1) steps cl have "workflow_step_ok (wf_steps w ! i)"
      and "set (ws_needs (wf_steps w ! i)) \<subseteq> set (definition_ids d)"
      by (auto simp: workflow_closed_def g)
    from step_definition_from_domain [OF this s(2)] show ?thesis .
  qed
  moreover have "workflow_output_ok (definition_ids d) item" if "item \<in> set (wd_outputs d)" for item
    using that ok by (force simp: f g workflow_ok_def workflow_output_ok_def freeze_map_def)
  moreover have "wd_steps d \<noteq> []" using l2 ok by (auto simp: workflow_ok_def)
  ultimately show ?thesis
    using ok cl ac by (auto simp: validate_iff definition_valid_def workflow_ok_def workflow_closed_def g f)
qed

end
