(* ===== verification/Engine_Schedule.thy ===== *)
theory Engine_Schedule
  imports Engine_References
begin

text \<open>
  The deterministic scheduler (\<^verbatim>\<open>backend/workflow_engine/services/scheduler.py\<close>) and
  the pure Workflow Engine (\<^verbatim>\<open>backend/workflow_engine/services/workflow_engine.py\<close>).
\<close>

section \<open>Scheduler\<close>

record ScheduledNode =
  sn_definition :: StepDefinition
  sn_step_run :: StepRunSnapshot
  sn_requires_ready_transition :: bool

definition active_states :: "StepRunStatus list" where
  "active_states = [Step_RUNNING, Step_WAITING_APPROVAL]"

definition latest_for_definition ::
  "WorkflowDefinition \<Rightarrow> ExecutionSnapshot \<Rightarrow> (string \<times> StepRunSnapshot) list res" where
  "latest_for_definition d snap =
     bindR (latest_attempts snap)
     (\<lambda>latest. let state_ids = map fst latest in
       if set (definition_ids d) \<noteq> set state_ids then
         Inl (WorkflowStateError
           (''Execution step state does not match definition; missing='' @
            str_list_repr (missing_needs state_ids (definition_ids d)) @ '', unknown='' @
            str_list_repr (missing_needs (definition_ids d) state_ids)))
       else Inr latest)"

definition active_runs :: "(string \<times> StepRunSnapshot) list \<Rightarrow> StepRunSnapshot list" where
  "active_runs latest = filter (\<lambda>r. ss_status r \<in> set active_states) (map snd latest)"

definition too_many_active :: py_exc where
  "too_many_active = WorkflowStateError ''V1 permits at most one active workflow step''"

definition dict_get :: "(string \<times> 'v) list \<Rightarrow> string \<Rightarrow> 'v res" where
  "dict_get m k = (case map_of m k of None \<Rightarrow> Inl (PyKeyError k) | Some v \<Rightarrow> Inr v)"

text \<open>\<open>all(latest[d].status in SUCCESS_STATES for d in step.needs)\<close> stops at the first failure.\<close>

fun dependencies_complete :: "(string \<times> StepRunSnapshot) list \<Rightarrow> string list \<Rightarrow> bool res" where
  "dependencies_complete latest [] = Inr True"
| "dependencies_complete latest (d # ds) =
     bindR (dict_get latest d)
     (\<lambda>r. if ss_status r \<in> set successful_states then dependencies_complete latest ds
          else Inr False)"

type_synonym candidate = "(nat \<times> string) \<times> ScheduledNode"

definition candidate_for ::
  "(string \<times> StepRunSnapshot) list \<Rightarrow> nat \<times> StepDefinition \<Rightarrow> candidate list res" where
  "candidate_for latest item =
     (case item of (index, step) \<Rightarrow>
       bindR (dict_get latest (sd_id step))
       (\<lambda>r. bindR (dependencies_complete latest (sd_needs step))
       (\<lambda>complete.
         if ss_status r = Step_READY then
           (if \<not> complete then
              Inl (WorkflowStateError
                (''Step '' @ sd_id step @ '' is READY before its dependencies completed''))
            else Inr [((index, sd_id step), \<lparr>sn_definition = step, sn_step_run = r,
                         sn_requires_ready_transition = False\<rparr>)])
         else if ss_status r = Step_CREATED \<and> complete then
           Inr [((index, sd_id step), \<lparr>sn_definition = step, sn_step_run = r,
                   sn_requires_ready_transition = True\<rparr>)]
         else Inr [])))"

fun key_less :: "nat \<times> string \<Rightarrow> nat \<times> string \<Rightarrow> bool" where
  "key_less (i, s) (j, t) \<longleftrightarrow> i < j \<or> (i = j \<and> s < t)"

text \<open>\<open>min\<close> returns the first of the smallest candidates.\<close>

fun min_candidate :: "candidate list \<Rightarrow> candidate option" where
  "min_candidate [] = None"
| "min_candidate (x # xs) =
     (case min_candidate xs of None \<Rightarrow> Some x
      | Some y \<Rightarrow> if key_less (fst y) (fst x) then Some y else Some x)"

definition select :: "WorkflowDefinition \<Rightarrow> ExecutionSnapshot \<Rightarrow> ScheduledNode option res" where
  "select d snap =
     bindR (latest_for_definition d snap)
     (\<lambda>latest.
       if 1 < length (active_runs latest) then Inl too_many_active
       else if active_runs latest \<noteq> [] then Inr None
       else bindR (mapR (candidate_for latest) (enumerate 0 (wd_steps d)))
         (\<lambda>candidates. Inr (map_option snd (min_candidate (concat candidates)))))"

definition all_successful :: "WorkflowDefinition \<Rightarrow> ExecutionSnapshot \<Rightarrow> bool res" where
  "all_successful d snap =
     bindR (latest_for_definition d snap)
     (\<lambda>latest. Inr (list_all (\<lambda>r. ss_status r \<in> set successful_states) (map snd latest)))"

definition has_active_step :: "WorkflowDefinition \<Rightarrow> ExecutionSnapshot \<Rightarrow> bool res" where
  "has_active_step d snap =
     bindR (latest_for_definition d snap)
     (\<lambda>latest. if 1 < length (active_runs latest) then Inl too_many_active
              else Inr (active_runs latest \<noteq> []))"

section \<open>Engine\<close>

definition base :: "WorkflowDefinition \<Rightarrow> ExecutionSnapshot \<Rightarrow> bool \<Rightarrow> string \<Rightarrow> decision_base" where
  "base d snap checkpoint_required reason =
     \<lparr>db_workflow_run_id = es_workflow_run_id snap, db_workflow_id = wd_id d,
      db_workflow_version = wd_version d, db_expected_run_version = es_run_row_version snap,
      db_checkpoint_required = checkpoint_required, db_reason = reason\<rparr>"

definition no_action :: "WorkflowDefinition \<Rightarrow> ExecutionSnapshot \<Rightarrow> string \<Rightarrow> decision" where
  "no_action d snap reason = NoAction (base d snap False reason)"

definition engine_workflow_failed ::
  "WorkflowDefinition \<Rightarrow> ExecutionSnapshot \<Rightarrow> string \<Rightarrow> string \<Rightarrow> string option \<Rightarrow> int option \<Rightarrow>
   bool \<Rightarrow> decision" where
  "engine_workflow_failed d snap error_code message failed_step_id expected_step_version
     retry_exhausted =
     WorkflowFailed (base d snap True message)
       \<lparr>wx_error_code = error_code, wx_message = message, wx_failed_step_id = failed_step_id,
        wx_expected_step_version = expected_step_version,
        wx_retry_exhausted = retry_exhausted\<rparr>"

definition validate_snapshot_identity :: "WorkflowDefinition \<Rightarrow> ExecutionSnapshot \<Rightarrow> unit res" where
  "validate_snapshot_identity d snap =
     guardR (es_workflow_id snap \<noteq> wd_id d \<or> es_workflow_version snap \<noteq> wd_version d)
       (WorkflowStateError ''Execution snapshot does not pin the supplied Workflow definition'')"

text \<open>
  \<open>try: ... except C as error: return handler(error)\<close>; \<open>k\<close> is the code after the block.
\<close>

definition tryR ::
  "(py_exc \<Rightarrow> bool) \<Rightarrow> 'a res \<Rightarrow> (py_exc \<Rightarrow> 'b res) \<Rightarrow> ('a \<Rightarrow> 'b res) \<Rightarrow> 'b res" where
  "tryR catches m handler k =
     (case m of Inl e \<Rightarrow> if catches e then handler e else Inl e | Inr a \<Rightarrow> k a)"

definition completion_decision :: "WorkflowDefinition \<Rightarrow> ExecutionSnapshot \<Rightarrow> decision res" where
  "completion_decision d snap =
     tryR is_InvalidReferenceError (resolve_workflow_outputs d snap)
       (\<lambda>error. Inr (engine_workflow_failed d snap ''INVALID_WORKFLOW_OUTPUT'' (exc_str error)
          None None False))
       (\<lambda>outputs. Inr (workflow_completed_post_init
          (base d snap True ''All workflow steps completed'') outputs))"

definition blocked_decision :: "WorkflowDefinition \<Rightarrow> ExecutionSnapshot \<Rightarrow> decision res" where
  "blocked_decision d snap =
     bindR (latest_attempts snap)
     (\<lambda>latest.
       let terminal_blockers = map fst (filter (\<lambda>(k, r).
             ss_status r \<in> {Step_FAILED, Step_CANCELLED}) latest) in
       if terminal_blockers \<noteq> [] then
         Inr (engine_workflow_failed d snap ''BLOCKED_BY_TERMINAL_STEP''
           (''Workflow is blocked by terminal steps '' @ str_list_repr (sort terminal_blockers))
           None None False)
       else
         Inr (engine_workflow_failed d snap ''WORKFLOW_DEADLOCK''
           ''Workflow has no active or eligible step'' None None False))"

definition approval_decision ::
  "WorkflowDefinition \<Rightarrow> ExecutionSnapshot \<Rightarrow> ScheduledNode \<Rightarrow> decision res" where
  "approval_decision d snap node =
     (let step = sn_definition node; r = sn_step_run node in
      tryR is_InvalidReferenceError (resolve_step_inputs d step snap)
        (\<lambda>error. Inr (engine_workflow_failed d snap ''INVALID_APPROVAL_INPUT_REFERENCE''
           (exc_str error) (Some (sd_id step)) (Some (ss_row_version r)) False))
        (\<lambda>resolved_inputs. Inr (waiting_approval_post_init
           (base d snap True (''Approval step '' @ sd_id step @ '' is ready''))
           \<lparr>wa_step_id = sd_id step, wa_step_run_id = ss_id r, wa_attempt = ss_attempt r,
            wa_expected_step_version = ss_row_version r,
            wa_approval_policy = (case sd_approval_policy step of None \<Rightarrow> '''' | Some p \<Rightarrow> p),
            wa_resolved_inputs = resolved_inputs,
            wa_requires_ready_transition = sn_requires_ready_transition node\<rparr>)))"

definition skill_decision ::
  "WorkflowDefinition \<Rightarrow> ExecutionSnapshot \<Rightarrow> ScheduledNode \<Rightarrow> decision res" where
  "skill_decision d snap node =
     (let step = sn_definition node; r = sn_step_run node in
      tryR is_InvalidReferenceError (resolve_step_inputs d step snap)
        (\<lambda>error. Inr (engine_workflow_failed d snap ''INVALID_STEP_INPUT_REFERENCE''
           (exc_str error) (Some (sd_id step)) (Some (ss_row_version r)) False))
        (\<lambda>resolved_inputs. Inr (step_ready_post_init
           (base d snap (sn_requires_ready_transition node) (''Skill step '' @ sd_id step @ '' is ready''))
           \<lparr>sy_step_id = sd_id step, sy_step_run_id = ss_id r, sy_attempt = ss_attempt r,
            sy_expected_step_version = ss_row_version r,
            sy_skill_ref = (case sd_uses step of None \<Rightarrow> '''' | Some u \<Rightarrow> u),
            sy_resolved_inputs = resolved_inputs,
            sy_requires_ready_transition = sn_requires_ready_transition node\<rparr>)))"

text \<open>The decision of a running workflow with an active session, after the status checks.\<close>

definition running_decision :: "WorkflowDefinition \<Rightarrow> ExecutionSnapshot \<Rightarrow> decision res" where
  "running_decision d snap =
     (let invalid_state = (\<lambda>error. Inr (engine_workflow_failed d snap ''INVALID_EXECUTION_STATE''
            (exc_str error) None None False)) in
      tryR is_WorkflowStateError
        (bindR (all_successful d snap)
          (\<lambda>successful. bindR (has_active_step d snap) (\<lambda>active. Inr (successful, active))))
        invalid_state
        (\<lambda>(successful, active).
          if successful then completion_decision d snap
          else if active then Inr (no_action d snap ''A workflow step is already active'')
          else tryR is_WorkflowStateError (select d snap) invalid_state
            (\<lambda>scheduled. (case scheduled of
                None \<Rightarrow> blocked_decision d snap
              | Some node \<Rightarrow>
                  if sd_kind (sn_definition node) = Kind_APPROVAL then approval_decision d snap node
                  else skill_decision d snap node))))"

definition next_decision :: "WorkflowDefinition \<Rightarrow> ExecutionSnapshot \<Rightarrow> decision res" where
  "next_decision d snap =
     bindR (validate d)
     (\<lambda>_. bindR (validate_snapshot_identity d snap)
     (\<lambda>_.
       if run_is_terminal (es_run_status snap) then
         Inr (no_action d snap (''Workflow is terminal: '' @ run_status_value (es_run_status snap)))
       else if es_run_status snap \<noteq> Run_RUNNING then
         Inr (no_action d snap (''Workflow is not runnable: '' @ run_status_value (es_run_status snap)))
       else if es_agent_status snap \<noteq> Agent_ACTIVE then
         Inr (no_action d snap
           (''Agent session is not active: '' @ agent_status_value (es_agent_status snap)))
       else running_decision d snap))"

definition evaluate_failure ::
  "WorkflowDefinition \<Rightarrow> ExecutionSnapshot \<Rightarrow> string \<Rightarrow> bool \<Rightarrow> string \<Rightarrow> string \<Rightarrow> decision res" where
  "evaluate_failure d snap step_id retryable error_code message =
     bindR (validate d)
     (\<lambda>_. bindR (validate_snapshot_identity d snap)
     (\<lambda>_. bindR (guardR (es_run_status snap \<noteq> Run_RUNNING)
        (WorkflowStateError ''Failure can be evaluated only for a running workflow''))
     (\<lambda>_. bindR (definition_get_step d step_id)
     (\<lambda>step. bindR (latest_attempts snap)
     (\<lambda>latest.
       let not_active = WorkflowStateError
             (''Failure can be evaluated only for active step '' @ step_id) in
       (case map_of latest step_id of
          None \<Rightarrow> Inl not_active
        | Some r \<Rightarrow>
          if ss_status r \<noteq> Step_RUNNING then Inl not_active
          else
            bindR (if retryable then permits_retry (sd_retry_policy step) (ss_attempt r)
                   else Inr False)
            (\<lambda>permitted.
              if permitted then
                (let next_attempt = ss_attempt r + 1 in
                 bindR (delay_for_next_attempt (sd_retry_policy step) next_attempt)
                 (\<lambda>delay. Inr (RetryScheduled
                    (base d snap True (''Retryable failure in step '' @ step_id))
                    \<lparr>rs_step_id = step_id, rs_step_run_id = ss_id r,
                     rs_current_attempt = ss_attempt r, rs_next_attempt = next_attempt,
                     rs_expected_step_version = ss_row_version r, rs_delay_seconds = delay,
                     rs_backoff = rp_backoff (sd_retry_policy step),
                     rs_error_code = error_code\<rparr>)))
              else
                Inr (engine_workflow_failed d snap error_code
                  (if message = [] then ''Step '' @ step_id @ '' failed'' else message)
                  (Some step_id) (Some (ss_row_version r)) retryable))))))))"

definition evaluate_approval ::
  "WorkflowDefinition \<Rightarrow> ExecutionSnapshot \<Rightarrow> string \<Rightarrow> ApprovalOutcome \<Rightarrow> pymap option \<Rightarrow>
   decision res" where
  "evaluate_approval d snap step_id outcome outputs =
     bindR (validate d)
     (\<lambda>_. bindR (validate_snapshot_identity d snap)
     (\<lambda>_. bindR (definition_get_step d step_id)
     (\<lambda>step. bindR (guardR (sd_kind step \<noteq> Kind_APPROVAL)
        (WorkflowStateError (''Step '' @ step_id @ '' is not an approval step'')))
     (\<lambda>_. bindR (latest_attempts snap)
     (\<lambda>latest.
       (case map_of latest step_id of
          None \<Rightarrow> Inl (WorkflowStateError
                    (''Approval step '' @ step_id @ '' has no execution state''))
        | Some r \<Rightarrow>
          if outcome = Outcome_APPROVED then
            bindR (guardR (es_run_status snap \<noteq> Run_RUNNING \<or> ss_status r \<noteq> Step_RUNNING)
              (WorkflowStateError ''Approved step must first resume to RUNNING from its checkpoint''))
            (\<lambda>_. Inr (approval_completed_post_init
               (base d snap True (''Approval for step '' @ step_id @ '' accepted''))
               \<lparr>ac_step_id = step_id, ac_step_run_id = ss_id r,
                ac_expected_step_version = ss_row_version r,
                ac_outputs = (case outputs of None \<Rightarrow> [] | Some m \<Rightarrow> m)\<rparr>))
          else
            bindR (guardR (es_run_status snap \<noteq> Run_WAITING_FOR_APPROVAL \<or>
                ss_status r \<noteq> Step_WAITING_APPROVAL)
              (WorkflowStateError ''Rejected or expired approval must reference a waiting step''))
            (\<lambda>_. Inr (WorkflowCancelled
               (base d snap True
                 (''Approval for step '' @ step_id @ '': '' @ outcome_value outcome))
               \<lparr>wc_error_code = (if outcome = Outcome_REJECTED then ''APPROVAL_REJECTED''
                                else ''APPROVAL_EXPIRED''),
                wc_step_id = Some step_id\<rparr>))))))))"

end
