(* ===== verification/Engine_Soundness.thy ===== *)
theory Engine_Soundness
  imports Engine_Schedule
begin

text \<open>
  What the scheduler and the Engine guarantee: the dictionary of latest attempts, the step
  the scheduler picks, the outcomes of a decision on a validated definition, and the
  agreement of the Engine's snapshot with the aggregate it was taken from.
\<close>

section \<open>Latest attempts\<close>

lemma in_keys_lookup: "k \<in> fst ` set m \<Longrightarrow> \<exists>v. map_of m k = Some v"
  by (cases "map_of m k") (auto simp: map_of_eq_None_iff)

lemma first_max_snoc:
  "first_max k (xs @ [x]) =
     (case first_max k xs of None \<Rightarrow> Some x | Some y \<Rightarrow> if k x > k y then Some x else Some y)"
  by (induction xs) (auto split: option.splits)

lemma first_max_map: "first_max k (map f xs) = map_option f (first_max (\<lambda>x. k (f x)) xs)"
  by (induction xs) (auto split: option.splits)

lemma filter_nth_upt:
  "map (nth xs) (filter (\<lambda>i. P (xs ! i)) [0..<length xs]) = filter P xs"
proof -
  have "map (nth xs) (filter (P \<circ> nth xs) [0..<length xs]) = filter P (map (nth xs) [0..<length xs])"
    by (simp add: filter_map)
  then show ?thesis by (simp add: map_nth o_def)
qed

definition latest_of :: "StepRunSnapshot list \<Rightarrow> string \<Rightarrow> StepRunSnapshot option" where
  "latest_of rs k = first_max ss_attempt (filter (\<lambda>r. ss_step_id r = k) rs)"

lemma latest_of_Some:
  assumes "latest_of rs k = Some r"
  shows "r \<in> set rs" and "ss_step_id r = k"
    and "q \<in> set rs \<Longrightarrow> ss_step_id q = k \<Longrightarrow> ss_attempt q \<le> ss_attempt r"
  using assms first_max_in [of ss_attempt] first_max_ge [of ss_attempt]
  by (fastforce simp: latest_of_def)+

lemma latest_of_None: "latest_of rs k = None \<longleftrightarrow> k \<notin> ss_step_id ` set rs"
  by (auto simp: latest_of_def filter_empty_conv)

definition run_key :: "StepRunSnapshot \<Rightarrow> string \<times> int" where
  "run_key r = (ss_step_id r, ss_attempt r)"

lemma latest_attempts_loop_spec:
  assumes "distinct (map fst latest)" and "\<And>k. map_of latest k = latest_of done k"
    and "set seen = run_key ` set done"
  shows "(\<forall>m. latest_attempts_loop rs seen latest = Inr m \<longrightarrow>
      distinct (map fst m) \<and> (\<forall>k. map_of m k = latest_of (done @ rs) k)) \<and>
    ((\<exists>m. latest_attempts_loop rs seen latest = Inr m) \<longleftrightarrow>
      distinct (map run_key rs) \<and> run_key ` set rs \<inter> run_key ` set done = {})"
  using assms
proof (induction rs arbitrary: seen latest "done")
  case Nil
  then show ?case by simp
next
  case (Cons r rs)
  let ?seen = "(ss_step_id r, ss_attempt r) # seen"
  let ?latest = "case map_of latest (ss_step_id r) of None \<Rightarrow> dict_set (ss_step_id r) r latest
      | Some p \<Rightarrow> if ss_attempt r > ss_attempt p then dict_set (ss_step_id r) r latest else latest"
  have d: "distinct (map fst ?latest)" using Cons.prems(1) by (simp split: option.splits)
  have l: "map_of ?latest k = latest_of (done @ [r]) k" for k
    using Cons.prems(2) [of k] Cons.prems(2) [of "ss_step_id r"]
    by (auto simp: latest_of_def first_max_snoc split: option.splits)
  have s: "set ?seen = run_key ` set (done @ [r])" using Cons.prems(3) by (auto simp: run_key_def)
  have fresh: "(ss_step_id r, ss_attempt r) \<in> set seen \<longleftrightarrow> run_key r \<in> run_key ` set done"
    by (simp add: Cons.prems(3) run_key_def)
  show ?case
  proof (cases "(ss_step_id r, ss_attempt r) \<in> set seen")
    case True
    with fresh show ?thesis by simp
  next
    case False
    then have e1: "latest_attempts_loop (r # rs) seen latest = latest_attempts_loop rs ?seen ?latest" by simp
    have e2: "distinct (map run_key (r # rs)) \<and> run_key ` set (r # rs) \<inter> run_key ` set done = {} \<longleftrightarrow>
        distinct (map run_key rs) \<and> run_key ` set rs \<inter> run_key ` set (done @ [r]) = {}"
      using False fresh by auto
    have e3: "done @ r # rs = (done @ [r]) @ rs" by simp
    show ?thesis unfolding e1 e2 e3 by (rule Cons.IH [OF d l s])
  qed
qed

lemma latest_attempts_Inr:
  assumes "latest_attempts snap = Inr m"
  shows "distinct (map fst m)" and "map_of m k = latest_of (es_step_runs snap) k"
    and "fst ` set m = ss_step_id ` set (es_step_runs snap)"
proof -
  have g: "distinct (map fst m) \<and> (\<forall>k. map_of m k = latest_of (es_step_runs snap) k)"
    using assms latest_attempts_loop_spec [of "[]" "[]" "[]" "es_step_runs snap"]
    by (simp add: latest_attempts_def latest_of_def)
  then show "distinct (map fst m)" and "map_of m k = latest_of (es_step_runs snap) k" by simp_all
  have "k \<in> fst ` set m \<longleftrightarrow> k \<in> ss_step_id ` set (es_step_runs snap)" for k
    using g latest_of_None by (metis map_of_eq_None_iff)
  then show "fst ` set m = ss_step_id ` set (es_step_runs snap)" by blast
qed

lemma latest_attempts_total:
  "(\<exists>m. latest_attempts snap = Inr m) \<longleftrightarrow> distinct (map run_key (es_step_runs snap))"
  using latest_attempts_loop_spec [of "[]" "[]" "[]" "es_step_runs snap"]
  by (simp add: latest_attempts_def latest_of_def)

lemma latest_for_definition_Inr:
  "latest_for_definition d snap = Inr m \<longleftrightarrow>
     latest_attempts snap = Inr m \<and> set (definition_ids d) = fst ` set m"
  by (auto simp: latest_for_definition_def bindR_Inr_iff Let_def)

lemma latest_for_definition_Inl:
  "latest_for_definition d snap = Inl e \<Longrightarrow> is_WorkflowStateError e"
proof -
  have "latest_attempts_loop rs seen latest = Inl e \<Longrightarrow> is_WorkflowStateError e" for rs seen latest
    by (induction rs seen latest rule: latest_attempts_loop.induct) (auto split: if_splits)
  then show "latest_for_definition d snap = Inl e \<Longrightarrow> is_WorkflowStateError e"
    by (auto simp: latest_for_definition_def latest_attempts_def bindR_Inl_iff Let_def split: if_splits)
qed

section \<open>The scheduler\<close>

definition deps_done :: "(string \<times> StepRunSnapshot) list \<Rightarrow> StepDefinition \<Rightarrow> bool" where
  "deps_done latest s \<longleftrightarrow> (\<forall>x \<in> set (sd_needs s).
     \<exists>q. map_of latest x = Some q \<and> ss_status q \<in> set successful_states)"

definition eligible :: "(string \<times> StepRunSnapshot) list \<Rightarrow> StepDefinition \<Rightarrow> bool" where
  "eligible latest s \<longleftrightarrow> deps_done latest s \<and>
     (\<exists>r. map_of latest (sd_id s) = Some r \<and> ss_status r \<in> {Step_CREATED, Step_READY})"

lemma dependencies_complete_known:
  assumes "set ds \<subseteq> fst ` set latest"
  shows "dependencies_complete latest ds = Inr (\<forall>x \<in> set ds.
    \<exists>q. map_of latest x = Some q \<and> ss_status q \<in> set successful_states)"
  using assms
proof (induction ds)
  case (Cons x ds)
  then obtain q where "map_of latest x = Some q" using in_keys_lookup [of x latest] by auto
  with Cons show ?case by (auto simp: dict_get_def)
qed simp

definition node_of :: "(string \<times> StepRunSnapshot) list \<Rightarrow> StepDefinition \<Rightarrow> ScheduledNode" where
  "node_of latest s = (let r = the (map_of latest (sd_id s)) in
     \<lparr>sn_definition = s, sn_step_run = r, sn_requires_ready_transition = (ss_status r = Step_CREATED)\<rparr>)"

lemma candidate_for_spec:
  assumes "sd_id s \<in> fst ` set latest" and "set (sd_needs s) \<subseteq> fst ` set latest"
  shows "candidate_for latest (i, s) = Inr cs \<longleftrightarrow>
      \<not> (\<not> deps_done latest s \<and> (\<exists>r. map_of latest (sd_id s) = Some r \<and> ss_status r = Step_READY)) \<and>
      cs = (if eligible latest s then [((i, sd_id s), node_of latest s)] else [])"
    and "candidate_for latest (i, s) = Inl e \<Longrightarrow> is_WorkflowStateError e"
proof -
  from in_keys_lookup [OF assms(1)] obtain r where r: "map_of latest (sd_id s) = Some r" by blast
  have dc: "dependencies_complete latest (sd_needs s) = Inr (deps_done latest s)"
    unfolding deps_done_def by (rule dependencies_complete_known [OF assms(2)])
  show "candidate_for latest (i, s) = Inr cs \<longleftrightarrow>
      \<not> (\<not> deps_done latest s \<and> (\<exists>r. map_of latest (sd_id s) = Some r \<and> ss_status r = Step_READY)) \<and>
      cs = (if eligible latest s then [((i, sd_id s), node_of latest s)] else [])"
    by (auto simp: candidate_for_def dict_get_def r dc eligible_def node_of_def)
  show "candidate_for latest (i, s) = Inl e \<Longrightarrow> is_WorkflowStateError e"
    by (auto simp: candidate_for_def dict_get_def r dc split: if_splits)
qed

lemma min_candidate_head:
  "(\<And>y. y \<in> set xs \<Longrightarrow> fst (fst x) < fst (fst y)) \<Longrightarrow> min_candidate (x # xs) = Some x"
proof -
  have in_set: "min_candidate ys = Some y \<Longrightarrow> y \<in> set ys" for ys y
    by (induction ys arbitrary: y) (auto split: option.splits if_splits)
  assume "\<And>y. y \<in> set xs \<Longrightarrow> fst (fst x) < fst (fst y)"
  with in_set [of xs] show ?thesis
    by (cases "fst x") (fastforce split: option.splits)
qed

lemma candidates_spec:
  assumes "set (map sd_id ss) \<subseteq> fst ` set latest" and "\<And>s. s \<in> set ss \<Longrightarrow> set (sd_needs s) \<subseteq> fst ` set latest"
    and "mapR (candidate_for latest) (enumerate n ss) = Inr css"
  shows "(\<forall>c \<in> set (concat css). n \<le> fst (fst c)) \<and>
    map_option snd (min_candidate (concat css)) = map_option (node_of latest) (find (eligible latest) ss) \<and>
    (\<forall>s \<in> set ss. deps_done latest s \<or> (\<forall>r. map_of latest (sd_id s) = Some r \<longrightarrow> ss_status r \<noteq> Step_READY))"
  using assms
proof (induction ss arbitrary: n css)
  case Nil
  then show ?case by simp
next
  case (Cons s ss)
  from Cons.prems(3) obtain cs css' where c: "candidate_for latest (n, s) = Inr cs"
    and m: "mapR (candidate_for latest) (enumerate (Suc n) ss) = Inr css'" and css: "css = cs # css'"
    by (auto simp: bindR_Inr_iff)
  have s: "sd_id s \<in> fst ` set latest" "set (sd_needs s) \<subseteq> fst ` set latest" using Cons.prems by auto
  have IH: "(\<forall>c \<in> set (concat css'). Suc n \<le> fst (fst c)) \<and>
    map_option snd (min_candidate (concat css')) = map_option (node_of latest) (find (eligible latest) ss) \<and>
    (\<forall>s \<in> set ss. deps_done latest s \<or> (\<forall>r. map_of latest (sd_id s) = Some r \<longrightarrow> ss_status r \<noteq> Step_READY))"
    using Cons.prems by (intro Cons.IH [OF _ _ m]) auto
  have cs: "cs = (if eligible latest s then [((n, sd_id s), node_of latest s)] else [])"
    and rdy: "deps_done latest s \<or> (\<forall>r. map_of latest (sd_id s) = Some r \<longrightarrow> ss_status r \<noteq> Step_READY)"
    using c candidate_for_spec(1) [OF s] by auto
  show ?case
  proof (cases "eligible latest s")
    case True
    then have cc: "concat css = ((n, sd_id s), node_of latest s) # concat css'" by (simp add: css cs)
    have "min_candidate (concat css) = Some ((n, sd_id s), node_of latest s)"
      unfolding cc by (rule min_candidate_head) (use IH in \<open>force simp: Suc_le_eq\<close>)
    with True IH rdy cc show ?thesis by (auto dest: Suc_leD)
  next
    case False
    then have "concat css = concat css'" by (simp add: css cs)
    with False IH rdy show ?thesis by (auto dest: Suc_leD)
  qed
qed

text \<open>
  On a dictionary that covers the steps and their needs, the scheduler picks the first eligible
  step in definition order, or none while a step is active.
\<close>

lemma select_spec:
  assumes closed: "definition_closed d" and latest: "latest_for_definition d snap = Inr latest"
  shows "select d snap = Inr res \<Longrightarrow> active_runs latest = [] \<Longrightarrow>
      res = map_option (node_of latest) (find (eligible latest) (wd_steps d))"
    and "select d snap = Inr res \<Longrightarrow> active_runs latest \<noteq> [] \<Longrightarrow>
      res = None \<and> length (active_runs latest) = 1"
    and "select d snap = Inl e \<Longrightarrow> is_WorkflowStateError e"
proof -
  have keys: "fst ` set latest = set (definition_ids d)" using latest by (simp add: latest_for_definition_Inr)
  have k1: "set (map sd_id (wd_steps d)) \<subseteq> fst ` set latest" by (simp add: keys definition_ids_def)
  have k2: "set (sd_needs s) \<subseteq> fst ` set latest" if "s \<in> set (wd_steps d)" for s
    using closed that by (auto simp: keys definition_closed_def)
  show "select d snap = Inr res \<Longrightarrow> active_runs latest = [] \<Longrightarrow>
      res = map_option (node_of latest) (find (eligible latest) (wd_steps d))"
    using candidates_spec [OF k1 k2, of 0] by (auto simp: select_def latest bindR_Inr_iff)
  show "select d snap = Inr res \<Longrightarrow> active_runs latest \<noteq> [] \<Longrightarrow>
      res = None \<and> length (active_runs latest) = 1"
    by (cases "active_runs latest") (auto simp: select_def latest split: if_splits)
  assume e: "select d snap = Inl e"
  show "is_WorkflowStateError e"
  proof (cases "active_runs latest = []")
    case True
    with e obtain i s where "(i, s) \<in> set (enumerate 0 (wd_steps d))" "candidate_for latest (i, s) = Inl e"
      using mapR_Inl by (fastforce simp: select_def latest bindR_Inl_iff)
    moreover from this(1) have "s \<in> set (wd_steps d)" by (metis in_set_enumerate_eq nth_mem snd_conv
        add.commute diff_zero add_0)
    ultimately show ?thesis using candidate_for_spec(2) k1 k2 by (metis image_eqI list.set_map subsetD)
  next
    case False
    with e show ?thesis by (auto simp: select_def latest too_many_active_def split: if_splits)
  qed
qed

section \<open>Resolution\<close>

lemma resolve_string_error: "resolve_string c s = Inl e \<Longrightarrow> is_InvalidReferenceError e"
  by (auto simp: resolve_string_def split: option.splits if_splits prod.splits)

lemma resolve_items_error:
  assumes "\<And>k v e. (k, v) \<in> set kvs \<Longrightarrow> f v = Inl e \<Longrightarrow> is_InvalidReferenceError e"
    and "mapR (\<lambda>(k, v). bindR (f v) (\<lambda>v'. Inr (k, v'))) kvs = Inl e"
  shows "is_InvalidReferenceError e"
  using mapR_Inl [OF assms(2)] assms(1) by (auto simp: bindR_Inl_iff)

lemma resolve_value_error: "resolve_value c v = Inl e \<Longrightarrow> is_InvalidReferenceError e"
proof (induction c v arbitrary: e rule: resolve_value.induct)
  case (1 c s)
  then show ?case by (simp add: resolve_string_error)
next
  case (2 c kvs)
  then show ?case by (auto simp: bindR_Inl_iff intro: resolve_items_error [of kvs "resolve_value c"])
next
  case (3 c kvs)
  then show ?case by (auto simp: bindR_Inl_iff intro: resolve_items_error [of kvs "resolve_value c"])
next
  case (4 c xs)
  then show ?case using mapR_Inl by (fastforce simp: bindR_Inl_iff)
next
  case (5 c xs)
  then show ?case using mapR_Inl by (fastforce simp: bindR_Inl_iff)
qed auto

text \<open>What \<open>resolve\<close> finds for a node reference it accepts.\<close>

lemma resolve_string_node:
  assumes "match_node_reference s = Some (a, f)" and "resolve_string c s = Inr v"
  shows "\<exists>r u. a \<in> set (rv_ancestors c) \<and> map_of (rv_latest c) a = Some r \<and>
    ss_status r \<in> set successful_states \<and> map_of (ss_outputs r) f = Some u \<and> v = freeze_value u"
proof -
  from assms(1) match_references_disjoint [of s] have "match_input_reference s = None"
    by (cases "match_input_reference s") auto
  with assms show ?thesis by (auto simp: resolve_string_def split: option.splits if_splits)
qed

lemma resolve_string_input:
  assumes "match_input_reference s = Some n" and "resolve_string c s = Inr v"
  shows "\<exists>u. map_of (rv_inputs c) n = Some u \<and> v = freeze_value u"
  using assms by (auto simp: resolve_string_def split: option.splits)

lemma resolve_string_plain:
  assumes "\<not> contains ''${'' s" and "resolve_string c s = Inr v"
    and "match_input_reference s = None" and "match_node_reference s = None"
  shows "v = VStr s"
  using assms by (auto simp: resolve_string_def split: option.splits)

lemma mapR_items_lookup:
  assumes "mapR (\<lambda>(k, v). bindR (f v) (\<lambda>v'. Inr (k, v'))) kvs = Inr kvs'"
  shows "map_of kvs' k = (case map_of kvs k of None \<Rightarrow> None
    | Some v \<Rightarrow> (case f v of Inl _ \<Rightarrow> None | Inr v' \<Rightarrow> Some v'))"
    and "map fst kvs' = map fst kvs"
  using assms by (induction kvs arbitrary: kvs') (auto simp: bindR_Inr_iff)

lemma resolve_step_inputs_Inr:
  assumes "resolve_step_inputs d step snap = Inr m"
  obtains anc latest where "ancestors_of d (sd_id step) = Inr anc" and "latest_attempts snap = Inr latest"
    and "map fst m = map fst (sd_input_mapping step)"
    and "\<And>k v. map_of (sd_input_mapping step) k = Some v \<Longrightarrow>
      \<exists>v'. resolve_value \<lparr>rv_step_id = sd_id step, rv_ancestors = anc, rv_latest = latest,
             rv_inputs = es_workflow_inputs snap\<rparr> v = Inr v' \<and> map_of m k = Some (freeze_value v')"
proof -
  from assms obtain anc latest items where a: "ancestors_of d (sd_id step) = Inr anc"
    and l: "latest_attempts snap = Inr latest" and m: "m = freeze_map items"
    and i: "mapR (\<lambda>(k, v). bindR (resolve_value \<lparr>rv_step_id = sd_id step, rv_ancestors = anc,
        rv_latest = latest, rv_inputs = es_workflow_inputs snap\<rparr> v) (\<lambda>v'. Inr (k, v')))
      (sd_input_mapping step) = Inr items"
    by (auto simp: resolve_step_inputs_def bindR_Inr_iff Let_def)
  have k: "map fst m = map fst (sd_input_mapping step)"
    using mapR_items_lookup(2) [OF i] by (simp add: m)
  have "\<exists>v'. resolve_value \<lparr>rv_step_id = sd_id step, rv_ancestors = anc, rv_latest = latest,
             rv_inputs = es_workflow_inputs snap\<rparr> v = Inr v' \<and> map_of m k = Some (freeze_value v')"
    if v: "map_of (sd_input_mapping step) k = Some v" for k v
  proof -
    have "map_of items k \<noteq> None"
      using v mapR_items_lookup(2) [OF i] by (metis list.set_map map_of_eq_None_iff option.distinct(1))
    with mapR_items_lookup(1) [OF i, of k] v show ?thesis
      by (auto simp: m split: sum.splits)
  qed
  with that a l k show thesis by blast
qed

lemma resolve_step_inputs_error:
  assumes "definition_closed d" and "step \<in> set (wd_steps d)" and "latest_attempts snap = Inr latest"
    and "resolve_step_inputs d step snap = Inl e"
  shows "is_InvalidReferenceError e"
proof -
  from assms(2) have "sd_id step \<in> set (definition_ids d)" by (auto simp: definition_ids_def)
  with assms(1) obtain anc where anc: "ancestors_of d (sd_id step) = Inr anc" by (rule ancestors_of_closed)
  show ?thesis
    using assms(4) resolve_value_error
    by (auto simp: resolve_step_inputs_def anc assms(3) bindR_Inl_iff Let_def
        intro: resolve_items_error)
qed

lemma resolve_workflow_outputs_error:
  assumes "\<forall>out \<in> set (wd_outputs d). workflow_output_ok known out" and "latest_attempts snap = Inr latest"
    and "resolve_workflow_outputs d snap = Inl e"
  shows "is_InvalidReferenceError e"
proof -
  from assms(2,3) have "mapR (resolve_output latest) (wd_outputs d) = Inl e"
    by (auto simp: resolve_workflow_outputs_def bindR_Inl_iff)
  from mapR_Inl [OF this] obtain n ref where "(n, ref) \<in> set (wd_outputs d)"
    and "resolve_output latest (n, ref) = Inl e" by auto
  with assms(1) show ?thesis
    by (fastforce simp: resolve_output_def workflow_output_ok_def split: option.splits if_splits)
qed

section \<open>Decisions\<close>

text \<open>The decision of a running workflow, with the \<open>try\<close> blocks resolved.\<close>

lemma running_decision_cases:
  assumes "definition_closed d"
  shows "(\<exists>e. is_WorkflowStateError e \<and> running_decision d snap =
      Inr (engine_workflow_failed d snap ''INVALID_EXECUTION_STATE'' (exc_str e) None None False)) \<or>
    (\<exists>latest. latest_for_definition d snap = Inr latest \<and> length (active_runs latest) \<le> 1 \<and>
      (let successful = list_all (\<lambda>r. ss_status r \<in> set successful_states) (map snd latest) in
       running_decision d snap =
        (if successful then completion_decision d snap
         else if active_runs latest \<noteq> [] then Inr (no_action d snap ''A workflow step is already active'')
         else (case map_option (node_of latest) (find (eligible latest) (wd_steps d)) of
                None \<Rightarrow> blocked_decision d snap
              | Some node \<Rightarrow>
                  if sd_kind (sn_definition node) = Kind_APPROVAL then approval_decision d snap node
                  else skill_decision d snap node))))"
proof (cases "latest_for_definition d snap")
  case (Inl e)
  with latest_for_definition_Inl [OF Inl] show ?thesis
    by (auto simp: running_decision_def all_successful_def tryR_def Let_def)
next
  case (Inr latest)
  show ?thesis
  proof (cases "1 < length (active_runs latest)")
    case True
    then have "running_decision d snap = Inr (engine_workflow_failed d snap ''INVALID_EXECUTION_STATE''
        (exc_str too_many_active) None None False)"
      by (auto simp: running_decision_def all_successful_def has_active_step_def Inr tryR_def Let_def
          too_many_active_def)
    moreover have "is_WorkflowStateError too_many_active" by (simp add: too_many_active_def)
    ultimately show ?thesis by blast
  next
    case False
    note sel = select_spec [OF assms Inr]
    show ?thesis
    proof (cases "select d snap")
      case (Inl e)
      from sel(3) [OF this] have "is_WorkflowStateError e" .
      with Inl Inr False show ?thesis
        by (auto simp: running_decision_def all_successful_def has_active_step_def tryR_def Let_def)
    next
      case (Inr res)
      with sel(1) [OF this] \<open>latest_for_definition d snap = Inr latest\<close> False show ?thesis
        by (auto simp: running_decision_def all_successful_def has_active_step_def tryR_def Let_def)
    qed
  qed
qed

lemma running_decision_elim:
  assumes "definition_closed d"
  obtains (invalid) e where "running_decision d snap =
      Inr (engine_workflow_failed d snap ''INVALID_EXECUTION_STATE'' (exc_str e) None None False)"
    | (complete) latest where "latest_for_definition d snap = Inr latest"
      "running_decision d snap = completion_decision d snap"
    | (active) latest where "latest_for_definition d snap = Inr latest" "active_runs latest \<noteq> []"
      "running_decision d snap = Inr (no_action d snap ''A workflow step is already active'')"
    | (blocked) latest where "latest_for_definition d snap = Inr latest" "active_runs latest = []"
      "\<not> list_all (\<lambda>r. ss_status r \<in> set successful_states) (map snd latest)"
      "find (eligible latest) (wd_steps d) = None" "running_decision d snap = blocked_decision d snap"
    | (offered) latest s where "latest_for_definition d snap = Inr latest" "active_runs latest = []"
      "find (eligible latest) (wd_steps d) = Some s"
      "running_decision d snap =
        (if sd_kind s = Kind_APPROVAL then approval_decision d snap (node_of latest s)
         else skill_decision d snap (node_of latest s))"
proof -
  from running_decision_cases [OF assms, of snap] show thesis
  proof (elim disjE exE conjE)
    fix e
    assume "running_decision d snap =
      Inr (engine_workflow_failed d snap ''INVALID_EXECUTION_STATE'' (exc_str e) None None False)"
    then show thesis by (rule invalid)
  next
    fix latest
    assume l: "latest_for_definition d snap = Inr latest"
      and q: "let successful = list_all (\<lambda>r. ss_status r \<in> set successful_states) (map snd latest) in
       running_decision d snap =
        (if successful then completion_decision d snap
         else if active_runs latest \<noteq> [] then Inr (no_action d snap ''A workflow step is already active'')
         else (case map_option (node_of latest) (find (eligible latest) (wd_steps d)) of
                None \<Rightarrow> blocked_decision d snap
              | Some node \<Rightarrow>
                  if sd_kind (sn_definition node) = Kind_APPROVAL then approval_decision d snap node
                  else skill_decision d snap node))"
    have n: "sn_definition (node_of latest s) = s" for s by (simp add: node_of_def Let_def)
    consider "list_all (\<lambda>r. ss_status r \<in> set successful_states) (map snd latest)"
      | "\<not> list_all (\<lambda>r. ss_status r \<in> set successful_states) (map snd latest)" "active_runs latest \<noteq> []"
      | "\<not> list_all (\<lambda>r. ss_status r \<in> set successful_states) (map snd latest)" "active_runs latest = []"
        "find (eligible latest) (wd_steps d) = None"
      | s where "\<not> list_all (\<lambda>r. ss_status r \<in> set successful_states) (map snd latest)"
        "active_runs latest = []" "find (eligible latest) (wd_steps d) = Some s"
      by (cases "find (eligible latest) (wd_steps d)") blast+
    then show thesis
    proof cases
      case 1 with q show thesis by (intro complete [OF l]) (simp add: Let_def)
    next
      case 2 with q show thesis by (intro active [OF l]) (simp_all add: Let_def)
    next
      case 3 with q show thesis by (intro blocked [OF l]) (simp_all add: Let_def)
    next
      case 4 with q n show thesis by (intro offered [OF l]) (simp_all add: Let_def)
    qed
  qed
qed

lemma find_eligible:
  assumes "find (eligible latest) (wd_steps d) = Some s"
  shows "s \<in> set (wd_steps d)" and "eligible latest s"
  using assms by (auto simp: find_Some_iff)

lemma running_decision_total:
  assumes "definition_valid d"
  shows "\<exists>dec. running_decision d snap = Inr dec"
using definition_valid_closed [OF assms]
proof (cases rule: running_decision_elim [where snap = snap])
  case (complete latest)
  then show ?thesis
    using resolve_workflow_outputs_error [of d "definition_ids d" snap latest] assms
    by (auto simp: completion_decision_def tryR_def definition_valid_def latest_for_definition_Inr
        split: sum.splits)
next
  case (blocked latest)
  then show ?thesis by (auto simp: blocked_decision_def latest_for_definition_Inr Let_def)
next
  case (offered latest s)
  then show ?thesis
    using resolve_step_inputs_error [OF definition_valid_closed [OF assms] find_eligible(1), of latest s snap]
    by (auto simp: approval_decision_def skill_decision_def node_of_def Let_def tryR_def
        latest_for_definition_Inr split: sum.splits)
qed blast+

text \<open>
  With no active step and not every step successful, either a step is eligible or one has
  failed or was cancelled: a first step, in dependency order, that is not successful.
\<close>

lemma no_deadlock:
  assumes v: "definition_valid d" and l: "latest_for_definition d snap = Inr latest"
    and idle: "active_runs latest = []"
    and todo: "\<not> list_all (\<lambda>r. ss_status r \<in> set successful_states) (map snd latest)"
    and none: "find (eligible latest) (wd_steps d) = None"
  shows "\<exists>k r. (k, r) \<in> set latest \<and> ss_status r \<in> {Step_FAILED, Step_CANCELLED}"
proof -
  have c: "definition_closed d" by (rule definition_valid_closed [OF v])
  have keys: "fst ` set latest = set (definition_ids d)" and dl: "distinct (map fst latest)"
    using l by (auto simp: latest_for_definition_Inr dest: latest_attempts_Inr(1))
  have acc: "engine_validate_acyclic d = Inr ()"
    using v by (simp add: engine_dag.accepts_iff_acyclic [OF c] definition_valid_def)
  let ?A = "{k. \<exists>r. map_of latest k = Some r \<and> ss_status r \<notin> set successful_states}"
  from todo obtain k r where "(k, r) \<in> set latest" "ss_status r \<notin> set successful_states"
    by (auto simp: list_all_iff)
  with dl have "k \<in> ?A" by auto
  from engine_dag.accepted_minimal [OF c acc this] obtain m r
    where m: "map_of latest m = Some r" "ss_status r \<notin> set successful_states"
      and min: "\<And>x. (x, m) \<in> edges (definition_graph d) \<Longrightarrow> x \<notin> ?A" by auto
  from map_of_SomeD [OF m(1)] have "m \<in> set (definition_ids d)" using keys by force
  then obtain s where s: "s \<in> set (wd_steps d)" "sd_id s = m" by (auto simp: definition_ids_def)
  have "deps_done latest s"
    unfolding deps_done_def
  proof
    fix x assume x: "x \<in> set (sd_needs s)"
    with s have "(x, m) \<in> edges (definition_graph d)" by (auto simp: edges_def definition_graph_def)
    from min [OF this] have notA: "x \<notin> ?A" .
    have "x \<in> fst ` set latest" using x s(1) c keys by (auto simp: definition_closed_def)
    from in_keys_lookup [OF this] notA
    show "\<exists>q. map_of latest x = Some q \<and> ss_status q \<in> set successful_states" by auto
  qed
  with none s m have "ss_status r \<notin> {Step_CREATED, Step_READY}" by (auto simp: find_None_iff eligible_def)
  moreover have "(m, r) \<in> set latest" using m(1) by (rule map_of_SomeD)
  moreover from this idle have "ss_status r \<notin> set active_states"
    by (auto simp: active_runs_def filter_empty_conv)
  ultimately show ?thesis using m(2)
    by (cases "ss_status r") (auto simp: successful_states_def active_states_def)
qed

text \<open>The decisions that offer a step, and what holds of the step they offer.\<close>

fun offers :: "decision \<Rightarrow> bool" where
  "offers (StepReady _ _) = True"
| "offers (WaitingApproval _ _) = True"
| "offers _ = False"

lemma offered_node:
  assumes "next_decision d snap = Inr dec" and "offers dec"
  obtains latest s r where "definition_valid d" and "es_run_status snap = Run_RUNNING"
    and "es_agent_status snap = Agent_ACTIVE" and "latest_for_definition d snap = Inr latest"
    and "active_runs latest = []" and "find (eligible latest) (wd_steps d) = Some s"
    and "map_of latest (sd_id s) = Some r" and "ss_status r \<in> {Step_CREATED, Step_READY}"
    and "if sd_kind s = Kind_APPROVAL then approval_decision d snap (node_of latest s) = Inr dec
         else skill_decision d snap (node_of latest s) = Inr dec"
proof -
  from assms have v: "definition_valid d" and st: "es_run_status snap = Run_RUNNING"
    "es_agent_status snap = Agent_ACTIVE" and run: "running_decision d snap = Inr dec"
    by (auto simp: next_decision_def bindR_Inr_iff validate_iff no_action_def split: if_splits)
  have nc: "completion_decision d snap \<noteq> Inr dec" "blocked_decision d snap \<noteq> Inr dec"
    "no_action d snap m \<noteq> dec" "engine_workflow_failed d snap code m x y z \<noteq> dec" for m code x y z
    using assms(2)
    by (auto simp: completion_decision_def blocked_decision_def tryR_def bindR_Inr_iff Let_def
        engine_workflow_failed_def workflow_completed_post_init_def no_action_def
        split: sum.splits if_splits)
  show thesis
    using definition_valid_closed [OF v]
  proof (cases rule: running_decision_elim [where snap = snap])
    case (invalid e)
    with run have "engine_workflow_failed d snap ''INVALID_EXECUTION_STATE'' (exc_str e) None None False = dec"
      by simp
    with nc(4) show thesis by blast
  next
    case (offered latest s)
    from find_eligible(2) [OF offered(3)] obtain r where "map_of latest (sd_id s) = Some r"
      "ss_status r \<in> {Step_CREATED, Step_READY}" by (auto simp: eligible_def)
    with that v st offered run show thesis by simp
  qed (use nc run in auto)
qed

end
