(* ===== verification/Engine_Coordination.thy ===== *)
theory Engine_Coordination
  imports Engine_Soundness Execution_Proto
begin

text \<open>
  \<open>WorkflowExecutionCoordinator\<close>
  (\<^verbatim>\<open>backend/workflow_engine/services/execution_coordinator.py\<close>): decisions taken on a
  snapshot of the aggregate, checked for staleness and applied by the commands of the domain
  coordinator. Applying a decision never leaves the aggregates those commands can reach, so
  every invariant of theory \<open>Execution_Inv\<close> holds of executions driven by the Engine.
\<close>

section \<open>Operations\<close>

definition decide :: "ExecutionState \<Rightarrow> decision res" where
  "decide x = bindR (workflow_from_domain (ex_workflow x)) (\<lambda>d. next_decision d (snapshot_of x))"

definition coordinator_evaluate_failure ::
  "ExecutionState \<Rightarrow> string \<Rightarrow> bool \<Rightarrow> string \<Rightarrow> string \<Rightarrow> decision res" where
  "coordinator_evaluate_failure x step_id retryable error_code message =
     bindR (workflow_from_domain (ex_workflow x))
     (\<lambda>d. evaluate_failure d (snapshot_of x) step_id retryable error_code message)"

definition validate_decision :: "ExecutionState \<Rightarrow> decision \<Rightarrow> unit res" where
  "validate_decision x dec =
     (let run = ex_workflow_run x; b = decision_base_of dec in
      bindR (guardR (db_workflow_run_id b \<noteq> wr_id run \<or> db_workflow_id b \<noteq> wr_workflow_id run \<or>
          db_workflow_version b \<noteq> wr_workflow_version run)
        (StaleDecisionError ''Decision belongs to another workflow run/version''))
      (\<lambda>_. bindR (guardR (db_expected_run_version b \<noteq> wr_row_version run)
        (StaleDecisionError (''Decision expected run version '' @ int_str (db_expected_run_version b) @
           ''; current version is '' @ int_str (wr_row_version run))))
      (\<lambda>_. case (decision_step_id dec, decision_step_version dec) of
          (Some step_id, Some expected) \<Rightarrow>
            bindR (latest_step_run step_id x)
            (\<lambda>i. let current = sr_row_version (ex_step_runs x ! i) in
              guardR (current \<noteq> expected) (StaleDecisionError
                (''Decision expected step '' @ step_id @ '' version '' @ int_str expected @
                 ''; current version is '' @ int_str current)))
        | _ \<Rightarrow> Inr ())))"

text \<open>A checkpoint returned by a method that always returns one.\<close>

definition some_checkpoint :: "(world, Checkpoint) op \<Rightarrow> (world, Checkpoint option) op" where
  "some_checkpoint m = bindE m (\<lambda>p. returnE (Some p))"

definition apply_step_ready ::
  "coordinator_env \<Rightarrow> step_ready \<Rightarrow> (world, Checkpoint option) op" where
  "apply_step_ready env y =
     (if sy_requires_ready_transition y then
        mark_step_ready env (sy_step_id y) (Some (sy_resolved_inputs y)) True
      else returnE None)"

definition apply_waiting_approval ::
  "coordinator_env \<Rightarrow> waiting_approval \<Rightarrow> (world, Checkpoint option) op" where
  "apply_waiting_approval env y =
     thenE (if wa_requires_ready_transition y then
              mark_step_ready env (wa_step_id y) (Some (wa_resolved_inputs y)) False
            else returnE None)
     (thenE (update_step_state env (wa_step_id y) Step_RUNNING None None False)
       (update_step_state env (wa_step_id y) Step_WAITING_APPROVAL None None False))"

definition apply_workflow_failed ::
  "coordinator_env \<Rightarrow> workflow_failed \<Rightarrow> (world, Checkpoint option) op" where
  "apply_workflow_failed env y =
     (case wx_failed_step_id y of
        None \<Rightarrow> some_checkpoint (fail_execution env (wx_error_code y))
      | Some step_id \<Rightarrow>
          bindE (readE (\<lambda>w. bindR (latest_step_run step_id (w_exec w))
                  (\<lambda>i. Inr (sr_status (ex_step_runs (w_exec w) ! i)))))
          (\<lambda>failed_status.
            if failed_status = Step_RUNNING then
              update_step_state env step_id Step_FAILED None (Some (wx_error_code y)) False
            else some_checkpoint (fail_execution env (wx_error_code y))))"

definition apply_decision :: "coordinator_env \<Rightarrow> decision \<Rightarrow> (world, Checkpoint option) op" where
  "apply_decision env dec =
     thenE (readE (\<lambda>w. validate_decision (w_exec w) dec))
     (case dec of
        StepReady _ y \<Rightarrow> apply_step_ready env y
      | WaitingApproval _ y \<Rightarrow> apply_waiting_approval env y
      | RetryScheduled _ y \<Rightarrow>
          update_step_state env (rs_step_id y) Step_FAILED None (Some (rs_error_code y)) True
      | WorkflowCompleted _ outputs \<Rightarrow> some_checkpoint (complete_workflow env outputs)
      | WorkflowFailed _ y \<Rightarrow> apply_workflow_failed env y
      | ApprovalCompleted _ y \<Rightarrow>
          update_step_state env (ac_step_id y) Step_COMPLETED (Some (ac_outputs y)) None False
      | WorkflowCancelled _ _ \<Rightarrow> some_checkpoint (cancel_execution env)
      | NoAction _ \<Rightarrow> returnE None)"

definition approval_step_of :: "WorkflowRun \<Rightarrow> string res" where
  "approval_step_of run =
     (case wr_wait_reason run of
        Some reason \<Rightarrow>
          if startswith reason ''approval:'' then Inr (removeprefix reason ''approval:'')
          else Inl (WorkflowStateError ''Execution is not waiting on an approval step'')
      | None \<Rightarrow> Inl (WorkflowStateError ''Execution is not waiting on an approval step''))"

definition resolve_approval ::
  "coordinator_env \<Rightarrow> Checkpoint \<Rightarrow> ApprovalOutcome \<Rightarrow> pymap option \<Rightarrow> (world, decision) op" where
  "resolve_approval env p outcome outputs =
     bindE (readE (\<lambda>w. approval_step_of (ex_workflow_run (w_exec w))))
     (\<lambda>step_id. bindE (readE (\<lambda>w. workflow_from_domain (ex_workflow (w_exec w))))
     (\<lambda>d. bindE
        (if outcome = Outcome_APPROVED then
           thenE (resume_from_checkpoint env p)
             (readE (\<lambda>w. evaluate_approval d (snapshot_of (w_exec w)) step_id outcome outputs))
         else readE (\<lambda>w. evaluate_approval d (snapshot_of (w_exec w)) step_id outcome None))
     (\<lambda>dec. thenE (apply_decision env dec) (returnE dec))))"

definition engine_resume_from_checkpoint ::
  "coordinator_env \<Rightarrow> Checkpoint \<Rightarrow> (world, decision) op" where
  "engine_resume_from_checkpoint env p =
     thenE (guardE (\<lambda>w. wr_status (ex_workflow_run (w_exec w)) = Run_WAITING_FOR_APPROVAL)
       (\<lambda>_. WorkflowStateError
          ''Approval checkpoints require resolve_approval with a typed outcome''))
     (thenE (resume_from_checkpoint env p) (readE (\<lambda>w. decide (w_exec w))))"

section \<open>Applying decisions stays within the reachable aggregates\<close>

abbreviation maintains :: "('s \<Rightarrow> bool) \<Rightarrow> ('s, 'a) op \<Rightarrow> bool" where
  "maintains I m \<equiv> hoareE I m (\<lambda>_. I) (\<lambda>_. I)"

lemma maintains_then: "maintains I m \<Longrightarrow> maintains I n \<Longrightarrow> maintains I (thenE m n)"
  by (rule hoareE_then)

lemma maintains_bind: "maintains I m \<Longrightarrow> (\<And>a. maintains I (f a)) \<Longrightarrow> maintains I (bindE m f)"
  by (rule hoareE_bind)

lemma maintains_pure: "maintains I (returnE a)" "maintains I (readE r)" "maintains I (guardE bad ex)"
  by (intro hoare_intros; simp)+

lemma maintains_snd:
  assumes "maintains I m" and "I w"
  shows "I (snd (m w))"
proof (cases "m w")
  case (Pair r w')
  then show ?thesis
    using hoareE_D_ok [OF assms] hoareE_D_err [OF assms] by (cases r) auto
qed

lemmas maintains_rules = maintains_then maintains_bind maintains_pure hoareE_if

lemma command_reaching:
  assumes "coord_do env cmd = thenE m (returnE ())"
  shows "maintains (coord_reach env) m"
proof (rule hoareE_I)
  fix w a w' assume "coord_reach env w" and "m w = (Inr a, w')"
  with assms show "coord_reach env w'"
    by (intro reach_call [of env w cmd "Inr ()" w']) (simp_all add: op_simps)
next
  fix w e w' assume "coord_reach env w" and "m w = (Inl e, w')"
  with assms show "coord_reach env w'"
    by (intro reach_call [of env w cmd "Inl e" w']) (simp_all add: op_simps)
qed

lemmas commands_reaching =
  command_reaching [OF coord_do.simps(2)] command_reaching [OF coord_do.simps(3)]
  command_reaching [OF coord_do.simps(4)] command_reaching [OF coord_do.simps(5)]
  command_reaching [OF coord_do.simps(6)] command_reaching [OF coord_do.simps(8)]

lemma some_checkpoint_maintains: "maintains I m \<Longrightarrow> maintains I (some_checkpoint m)"
  unfolding some_checkpoint_def by (intro maintains_rules)

lemmas reaching_rules = maintains_rules commands_reaching some_checkpoint_maintains

lemma apply_decision_reaching: "maintains (coord_reach env) (apply_decision env dec)"
proof -
  have "maintains (coord_reach env) (apply_workflow_failed env y)" for y
    by (cases "wx_failed_step_id y")
       (simp_all add: apply_workflow_failed_def reaching_rules)
  then have "maintains (coord_reach env) (case dec of
        StepReady _ y \<Rightarrow> apply_step_ready env y
      | WaitingApproval _ y \<Rightarrow> apply_waiting_approval env y
      | RetryScheduled _ y \<Rightarrow>
          update_step_state env (rs_step_id y) Step_FAILED None (Some (rs_error_code y)) True
      | WorkflowCompleted _ outputs \<Rightarrow> some_checkpoint (complete_workflow env outputs)
      | WorkflowFailed _ y \<Rightarrow> apply_workflow_failed env y
      | ApprovalCompleted _ y \<Rightarrow>
          update_step_state env (ac_step_id y) Step_COMPLETED (Some (ac_outputs y)) None False
      | WorkflowCancelled _ _ \<Rightarrow> some_checkpoint (cancel_execution env)
      | NoAction _ \<Rightarrow> returnE None)"
    by (cases dec)
       (simp_all add: apply_step_ready_def apply_waiting_approval_def reaching_rules)
  then show ?thesis unfolding apply_decision_def by (intro maintains_rules)
qed

lemma resolve_approval_reaching: "maintains (coord_reach env) (resolve_approval env p outcome outputs)"
  unfolding resolve_approval_def by (intro reaching_rules apply_decision_reaching)

lemma engine_resume_reaching: "maintains (coord_reach env) (engine_resume_from_checkpoint env p)"
  unfolding engine_resume_from_checkpoint_def by (intro reaching_rules)

section \<open>Fresh decisions\<close>

lemma latest_of_snapshot:
  "latest_of (es_step_runs (snapshot_of x)) s =
     map_option (\<lambda>i. step_run_snapshot (ex_step_runs x ! i)) (latest_index (ex_step_runs x) s)"
proof -
  let ?srs = "ex_step_runs x"
  have "latest_of (es_step_runs (snapshot_of x)) s =
      map_option step_run_snapshot (first_max sr_attempt (filter (\<lambda>r. sr_step_id r = s) ?srs))"
    by (simp add: latest_of_def snapshot_of_def Let_def filter_map o_def first_max_map step_run_snapshot_def)
  also have "first_max sr_attempt (filter (\<lambda>r. sr_step_id r = s) ?srs) =
      map_option (nth ?srs) (latest_index ?srs s)"
    unfolding latest_index_def first_max_map [symmetric] filter_nth_upt [of _ "\<lambda>r. sr_step_id r = s", symmetric]
    by (simp add: first_max_map)
  finally show ?thesis by (simp add: option.map_comp o_def)
qed

text \<open>The latest attempt of a step, as the Engine and as the aggregate see it.\<close>

lemma latest_agrees:
  assumes "latest_attempts (snapshot_of x) = Inr latest" and "map_of latest s = Some r"
  obtains i where "latest_step_run s x = Inr i" and "r = step_run_snapshot (ex_step_runs x ! i)"
proof -
  from assms have "latest_of (es_step_runs (snapshot_of x)) s = Some r"
    by (simp add: latest_attempts_Inr)
  with that show thesis by (auto simp: latest_of_snapshot latest_step_run_Inr)
qed

definition fresh_for :: "ExecutionState \<Rightarrow> decision \<Rightarrow> bool" where
  "fresh_for x dec \<longleftrightarrow>
     (let run = ex_workflow_run x; b = decision_base_of dec in
      db_workflow_run_id b = wr_id run \<and> db_workflow_id b = wr_workflow_id run \<and>
      db_workflow_version b = wr_workflow_version run \<and> db_expected_run_version b = wr_row_version run \<and>
      (\<forall>s v. decision_step_id dec = Some s \<longrightarrow> decision_step_version dec = Some v \<longrightarrow>
         (\<exists>i. latest_step_run s x = Inr i \<and> sr_row_version (ex_step_runs x ! i) = v)))"

lemma validate_decision_iff: "validate_decision x dec = Inr () \<longleftrightarrow> fresh_for x dec"
  by (auto simp: validate_decision_def fresh_for_def Let_def bindR_Inr_iff split: option.splits)

lemma validate_decision_error:
  assumes "validate_decision x dec = Inl e"
  shows "(\<exists>m. e = StaleDecisionError m) \<or>
    (\<exists>s. decision_step_id dec = Some s \<and> s \<notin> sr_step_id ` set (ex_step_runs x))"
  using assms
  by (auto simp: validate_decision_def Let_def bindR_Inl_iff guardR_Inl_iff latest_step_run_def
      latest_index_None split: option.splits)

lemma apply_decision_stale:
  assumes "validate_decision (w_exec w) dec = Inl e"
  shows "apply_decision env dec w = (Inl e, w)"
  using assms by (simp add: apply_decision_def op_simps)

text \<open>The base and the step of a decision the Engine takes on a snapshot.\<close>

definition pinned :: "WorkflowDefinition \<Rightarrow> ExecutionSnapshot \<Rightarrow> decision \<Rightarrow> bool" where
  "pinned d snap dec \<longleftrightarrow>
     (let b = decision_base_of dec in
      db_workflow_run_id b = es_workflow_run_id snap \<and> db_workflow_id b = wd_id d \<and>
      db_workflow_version b = wd_version d \<and> db_expected_run_version b = es_run_row_version snap) \<and>
     (\<forall>s v. decision_step_id dec = Some s \<longrightarrow> decision_step_version dec = Some v \<longrightarrow>
        (\<exists>latest r. latest_attempts snap = Inr latest \<and> map_of latest s = Some r \<and> ss_row_version r = v))"

lemma pinned_base [simp]:
  "pinned d snap (NoAction (base d snap c r))"
  "pinned d snap (WorkflowCompleted (base d snap c r) out)"
  "pinned d snap (WorkflowFailed (base d snap c r) wx)"
  "pinned d snap (no_action d snap r)"
  "pinned d snap (engine_workflow_failed d snap code m s v ex)"
  "pinned d snap (workflow_completed_post_init (base d snap c r) out)"
  "pinned d snap (WorkflowCancelled (base d snap c r) wc)"
  by (simp_all add: pinned_def base_def no_action_def engine_workflow_failed_def
      workflow_completed_post_init_def)

lemma next_decision_pinned:
  assumes "next_decision d snap = Inr dec"
  shows "pinned d snap dec" and "wd_id d = es_workflow_id snap" and "wd_version d = es_workflow_version snap"
proof -
  from assms have v: "definition_valid d"
    and i: "es_workflow_id snap = wd_id d" "es_workflow_version snap = wd_version d"
    and n: "(\<exists>r. dec = no_action d snap r) \<or> running_decision d snap = Inr dec"
    by (auto simp: next_decision_def bindR_Inr_iff validate_iff validate_snapshot_identity_def
        split: if_splits)
  from i show "wd_id d = es_workflow_id snap" and "wd_version d = es_workflow_version snap" by simp_all
  from n show "pinned d snap dec"
  proof
    assume r: "running_decision d snap = Inr dec"
    show ?thesis
      using definition_valid_closed [OF v]
    proof (cases rule: running_decision_elim [where snap = snap])
      case (complete latest)
      with r show ?thesis by (auto simp: completion_decision_def tryR_def split: sum.splits if_splits)
    next
      case (blocked latest)
      with r show ?thesis by (auto simp: blocked_decision_def bindR_Inr_iff Let_def split: if_splits)
    next
      case (offered latest s)
      from find_eligible(2) [OF offered(3)] obtain k where "map_of latest (sd_id s) = Some k" by (auto simp: eligible_def)
      with offered r show ?thesis
        by (auto simp: approval_decision_def skill_decision_def node_of_def tryR_def Let_def
            waiting_approval_post_init_def step_ready_post_init_def pinned_def base_def
            engine_workflow_failed_def latest_for_definition_Inr split: sum.splits if_splits)
    qed (use r in auto)
  qed auto
qed

lemma evaluate_failure_pinned:
  assumes "evaluate_failure d snap s retryable code m = Inr dec"
  shows "pinned d snap dec" and "wd_id d = es_workflow_id snap" and "wd_version d = es_workflow_version snap"
  using assms
  by (auto simp: evaluate_failure_def bindR_Inr_iff validate_snapshot_identity_def pinned_def base_def
      engine_workflow_failed_def Let_def split: option.splits if_splits)

lemma evaluate_approval_pinned:
  assumes "evaluate_approval d snap s outcome outputs = Inr dec"
  shows "pinned d snap dec" and "wd_id d = es_workflow_id snap" and "wd_version d = es_workflow_version snap"
  using assms
  by (auto simp: evaluate_approval_def bindR_Inr_iff validate_snapshot_identity_def pinned_def base_def
      approval_completed_post_init_def Let_def split: option.splits if_splits)

lemma pinned_fresh:
  assumes "pinned d (snapshot_of x) dec" and "wd_id d = es_workflow_id (snapshot_of x)"
    and "wd_version d = es_workflow_version (snapshot_of x)"
  shows "fresh_for x dec"
proof -
  have "\<exists>i. latest_step_run s x = Inr i \<and> sr_row_version (ex_step_runs x ! i) = v"
    if "decision_step_id dec = Some s" "decision_step_version dec = Some v" for s v
  proof -
    from assms(1) that obtain latest r where l: "latest_attempts (snapshot_of x) = Inr latest"
      "map_of latest s = Some r" and v: "ss_row_version r = v" by (auto simp: pinned_def)
    from l obtain i where "latest_step_run s x = Inr i" "r = step_run_snapshot (ex_step_runs x ! i)"
      by (rule latest_agrees)
    with v show ?thesis by (auto simp: step_run_snapshot_def)
  qed
  with assms show ?thesis by (auto simp: fresh_for_def pinned_def snapshot_of_def Let_def)
qed

section \<open>Applied decisions are spent\<close>

text \<open>The row version of the run never decreases and every transition of the run raises it.\<close>

abbreviation run_version :: "world \<Rightarrow> int" where
  "run_version w \<equiv> wr_row_version (ex_workflow_run (w_exec w))"

abbreviation raises_to :: "int \<Rightarrow> int \<Rightarrow> (world, 'a) op \<Rightarrow> bool" where
  "raises_to n m c \<equiv> hoareE (\<lambda>w. n \<le> run_version w) c (\<lambda>_ w. m \<le> run_version w) (\<lambda>_ _. True)"

lemma version_then: "raises_to n m c \<Longrightarrow> raises_to m k c' \<Longrightarrow> raises_to n k (thenE c c')"
  by (rule hoareE_then)

lemma version_bind: "raises_to n m c \<Longrightarrow> (\<And>a. raises_to m k (f a)) \<Longrightarrow> raises_to n k (bindE c f)"
  by (rule hoareE_bind)

lemma run_to_version: "raises_to n (n + 1) (run_to t ts reason code)"
  by (auto simp: hoareE_def run_to_def updE_apply bindR_Inr_iff set_run_def
      dest: run_ent.moves split: sum.splits)

lemma quiet_version:
  "raises_to n n (agent_to t ts)" "raises_to n n (step_to i st c)" "raises_to n n (read_clock env)"
  "raises_to n n (create_checkpoint env)" "raises_to n n (readE g)" "raises_to n n (getsE h)"
  "raises_to n n (returnE a)" "raises_to n n (guardE bad ex)"
  "raises_to n n (modifyE (\<lambda>w. set_run (workflow_run_set_outputs out (ex_workflow_run (w_exec w))) w))"
  by (auto simp: hoareE_def agent_to_def step_to_def updE_apply bindR_Inr_iff world_defs op_apply
      read_clock_def create_checkpoint_apply Let_def workflow_run_set_outputs_def split: sum.splits)

lemma cancel_open_version: "raises_to n n (cancel_open_steps ts cur)"
  unfolding cancel_open_steps_def
  by (rule hoareE_conseq [OF hoareE_for [where I = "\<lambda>w. n \<le> run_version w" and E = "\<lambda>_ _. True"]])
     (auto intro!: version_bind [OF quiet_version(6)] hoareE_if quiet_version)

lemma pair_version: "raises_to (n + 1) k c \<Longrightarrow> raises_to n k (thenE (run_to t ts reason code) c)"
  by (rule version_then [OF run_to_version])

lemma version_weaken: "raises_to n m c \<Longrightarrow> k \<le> m \<Longrightarrow> raises_to n k c"
  by (erule hoareE_conseq) auto

lemma finish_version:
  "raises_to n n (bindE (create_checkpoint env) (\<lambda>p. returnE (Some p)))"
  by (rule version_bind [OF quiet_version(4)]) (rule quiet_version)

lemma update_version:
  assumes "t \<in> {Step_WAITING_APPROVAL, Step_FAILED}"
  shows "raises_to n (n + 1) (update_step_state env s t out err retryable)"
proof -
  have w: "raises_to n (n + 1) (after_waiting env s ts)" for ts
    unfolding after_waiting_def
    by (intro pair_version version_then [OF quiet_version(1)] finish_version)
  have f: "raises_to n (n + 1) (after_failed env s i ts err retryable)" for i ts
    unfolding after_failed_def
    by (intro version_bind [OF quiet_version(5)] version_bind [OF quiet_version(6)]
        version_then [OF _ finish_version] hoareE_if pair_version quiet_version)
  show ?thesis
    unfolding update_step_state_def require_running_def
    by (intro version_then [OF quiet_version(8)] version_bind [OF quiet_version(3)]
        version_bind [OF quiet_version(5)] version_then [OF quiet_version(2)])
       (use assms w f in auto)
qed

lemma update_version_any: "raises_to n n (update_step_state env s Step_RUNNING out err retryable)"
  unfolding update_step_state_def require_running_def
  by (intro version_then [OF quiet_version(8)] version_bind [OF quiet_version(3)]
      version_bind [OF quiet_version(5)] version_then [OF quiet_version(2)]) (simp add: quiet_version)

lemma mark_version: "raises_to n n (mark_step_ready env s inp chk)"
  unfolding mark_step_ready_def require_running_def
  by (intro version_then [OF quiet_version(8)] version_bind [OF quiet_version(3)]
      version_bind [OF quiet_version(5)] version_then [OF quiet_version(2)] hoareE_if
      finish_version quiet_version)

lemma final_version:
  "raises_to n (n + 1) (complete_workflow env out)"
  "raises_to n (n + 1) (fail_execution env code)"
  "raises_to n (n + 1) (cancel_execution env)"
proof -
  show "raises_to n (n + 1) (complete_workflow env out)"
    unfolding complete_workflow_def
    by (intro version_bind [OF quiet_version(5)] version_then [OF quiet_version(8)]
        version_bind [OF quiet_version(3)] version_then [OF quiet_version(9)] pair_version
        version_then [OF quiet_version(1)] quiet_version)
  show "raises_to n (n + 1) (fail_execution env code)"
    unfolding fail_execution_def
    by (intro version_bind [OF quiet_version(5)] version_bind [OF quiet_version(3)]
        version_then [OF cancel_open_version] pair_version version_then [OF quiet_version(1)] quiet_version)
  have "raises_to n (n + 1 + 1) (cancel_execution env)"
    unfolding cancel_execution_def
    by (intro version_then [OF quiet_version(8)] version_bind [OF quiet_version(5)]
        version_bind [OF quiet_version(3)] version_then [OF cancel_open_version] pair_version
        version_then [OF quiet_version(1)] quiet_version)
  then show "raises_to n (n + 1) (cancel_execution env)" by (rule version_weaken) simp
qed

lemma some_checkpoint_version: "raises_to n m c \<Longrightarrow> raises_to n m (some_checkpoint c)"
  unfolding some_checkpoint_def by (rule version_bind) (auto intro: quiet_version)

lemma outdated_run:
  assumes "db_expected_run_version (decision_base_of dec) \<noteq> wr_row_version (ex_workflow_run x)"
  shows "\<exists>m. validate_decision x dec = Inl (StaleDecisionError m)"
  using assms by (simp add: validate_decision_def Let_def guardR_def)

text \<open>A transition of a latest attempt raises its version and leaves it the latest.\<close>

lemma step_to_version:
  assumes "step_to i t c w = (Inr u, w')" and "latest_index (srs_of w) s = Some i"
  shows "latest_index (srs_of w') s = Some i" and "sr_row_version (srs_of w' ! i) = sr_row_version (srs_of w ! i) + 1"
proof -
  show "latest_index (srs_of w') s = Some i" using step_to_view(3) [OF assms] assms(2) by simp
  from assms(1) obtain r where r: "step_run_transition_to t c (srs_of w ! i) = Inr r" "w' = set_step i r w"
    by (auto simp: step_to_def updE_apply bindR_Inr_iff split: sum.splits)
  with step_ent.moves [OF r(1)] latest_index_Some(1) [OF assms(2)]
  show "sr_row_version (srs_of w' ! i) = sr_row_version (srs_of w ! i) + 1" by (simp add: set_step_def)
qed

lemma outdated_step:
  assumes "decision_step_id dec = Some s" and "decision_step_version dec = Some v"
    and "latest_index (ex_step_runs x) s = Some i" and "sr_row_version (ex_step_runs x ! i) \<noteq> v"
  shows "\<exists>m. validate_decision x dec = Inl (StaleDecisionError m)"
  using assms
  by (auto simp: validate_decision_def Let_def guardR_def latest_step_run_def)

definition step_bumped :: "string \<Rightarrow> world \<Rightarrow> world \<Rightarrow> bool" where
  "step_bumped s w w' \<longleftrightarrow> (\<exists>i. latest_index (srs_of w) s = Some i \<and> latest_index (srs_of w') s = Some i \<and>
     sr_row_version (srs_of w' ! i) = sr_row_version (srs_of w ! i) + 1)"

lemma mark_step_ready_bumps:
  assumes "mark_step_ready env s inp chk w = (Inr r, w')"
  shows "step_bumped s w w'"
proof -
  from assms obtain i ts w0 u w1 where i: "latest_index (srs_of w) s = Some i" and e: "w_exec w0 = w_exec w"
    and st: "step_to i Step_READY (step_call_at ts inp None None) w0 = (Inr u, w1)"
    and f: "(if chk then bindE (create_checkpoint env) (\<lambda>p. returnE (Some p)) else returnE None) w1 = (Inr r, w')"
    unfolding mark_step_ready_def require_running_def guard_returned read_returned latest_step_run_Inr
    by (auto elim!: clock_returned simp: thenE_returned)
  from f have "srs_of w' = srs_of w1"
    by (auto simp: bindE_returned op_apply dest: create_checkpoint_view split: if_splits)
  with step_to_version [OF st] i e show ?thesis by (auto simp: step_bumped_def)
qed

lemma update_completed_bumps:
  assumes "update_step_state env s Step_COMPLETED out err retryable w = (Inr r, w')"
  shows "step_bumped s w w'" and "ex_workflow_run (w_exec w') = ex_workflow_run (w_exec w)"
proof -
  from assms obtain i ts w0 u w1 where i: "latest_index (srs_of w0) s = Some i" and e: "w_exec w0 = w_exec w"
    and st: "step_to i Step_COMPLETED (step_call_at ts None out err) w0 = (Inr u, w1)"
    and f: "bindE (create_checkpoint env) (\<lambda>p. returnE (Some p)) w1 = (Inr r, w')"
    unfolding update_step_state_def require_running_def guard_returned
    by (auto elim!: clock_returned simp: read_returned latest_step_run_Inr thenE_returned)
  from f have w': "srs_of w' = srs_of w1" "ex_workflow_run (w_exec w') = ex_workflow_run (w_exec w1)"
    by (auto simp: bindE_returned op_apply create_checkpoint_apply Let_def add_checkpoint_def split: sum.splits)
  with step_to_version [OF st i] i e show "step_bumped s w w'" by (auto simp: step_bumped_def)
  from st have "ex_workflow_run (w_exec w1) = ex_workflow_run (w_exec w0)"
    by (auto simp: step_to_def updE_apply bindR_Inr_iff set_step_def split: sum.splits)
  with w' e show "ex_workflow_run (w_exec w') = ex_workflow_run (w_exec w)" by simp
qed

lemma step_bumped_outdated:
  assumes "fresh_for (w_exec w) dec" and "step_bumped s w w'"
    and "decision_step_id dec = Some s" and "decision_step_version dec = Some v"
  shows "\<exists>m. validate_decision (w_exec w') dec = Inl (StaleDecisionError m)"
proof -
  from assms(2) obtain i where i: "latest_index (srs_of w) s = Some i" "latest_index (srs_of w') s = Some i"
    and v: "sr_row_version (srs_of w' ! i) = sr_row_version (srs_of w ! i) + 1" by (auto simp: step_bumped_def)
  from assms(1,3,4) i(1) have "sr_row_version (srs_of w ! i) = v"
    by (simp add: fresh_for_def Let_def latest_step_run_Inr)
  with outdated_step [OF assms(3,4) i(2)] v show ?thesis by simp
qed

definition has_effect :: "decision \<Rightarrow> bool" where
  "has_effect dec = (case dec of NoAction _ \<Rightarrow> False | StepReady _ y \<Rightarrow> sy_requires_ready_transition y | _ \<Rightarrow> True)"

lemma apply_workflow_failed_version: "raises_to n (n + 1) (apply_workflow_failed env y)"
  unfolding apply_workflow_failed_def
  by (cases "wx_failed_step_id y")
     (auto intro!: version_bind [OF quiet_version(5)] hoareE_if some_checkpoint_version update_version final_version)

lemma apply_waiting_approval_version: "raises_to n (n + 1) (apply_waiting_approval env y)"
  unfolding apply_waiting_approval_def
  by (intro version_then [where m = n] hoareE_if mark_version quiet_version update_version_any update_version) simp

lemma spent:
  assumes ok: "apply_decision env dec w = (Inr p, w')" and eff: "has_effect dec"
  shows "\<exists>m. validate_decision (w_exec w') dec = Inl (StaleDecisionError m)"
proof -
  from ok have fresh: "fresh_for (w_exec w) dec"
    by (auto simp: apply_decision_def thenE_returned op_apply validate_decision_iff)
  then have ver: "db_expected_run_version (decision_base_of dec) = run_version w"
    by (simp add: fresh_for_def Let_def)
  have bumped: ?thesis if "raises_to (run_version w) (run_version w + 1) m" and "m w = (Inr p, w')" for m
    using hoareE_D_ok [OF that(1) _ that(2)] ver by (intro outdated_run) simp
  from ok fresh have body: "(case dec of
        StepReady _ y \<Rightarrow> apply_step_ready env y
      | WaitingApproval _ y \<Rightarrow> apply_waiting_approval env y
      | RetryScheduled _ y \<Rightarrow>
          update_step_state env (rs_step_id y) Step_FAILED None (Some (rs_error_code y)) True
      | WorkflowCompleted _ outputs \<Rightarrow> some_checkpoint (complete_workflow env outputs)
      | WorkflowFailed _ y \<Rightarrow> apply_workflow_failed env y
      | ApprovalCompleted _ y \<Rightarrow>
          update_step_state env (ac_step_id y) Step_COMPLETED (Some (ac_outputs y)) None False
      | WorkflowCancelled _ _ \<Rightarrow> some_checkpoint (cancel_execution env)
      | NoAction _ \<Rightarrow> returnE None) w = (Inr p, w')"
    by (auto simp: apply_decision_def thenE_returned op_apply validate_decision_iff [symmetric])
  show ?thesis
  proof (cases dec)
    case (StepReady b y)
    with body eff have "mark_step_ready env (sy_step_id y) (Some (sy_resolved_inputs y)) True w = (Inr p, w')"
      by (simp add: apply_step_ready_def has_effect_def)
    from step_bumped_outdated [OF fresh mark_step_ready_bumps [OF this]] StepReady show ?thesis by simp
  next
    case (ApprovalCompleted b y)
    with body have "update_step_state env (ac_step_id y) Step_COMPLETED (Some (ac_outputs y)) None False w = (Inr p, w')"
      by simp
    from step_bumped_outdated [OF fresh update_completed_bumps(1) [OF this]] ApprovalCompleted show ?thesis by simp
  next
    case (WorkflowCompleted b out)
    with body show ?thesis by (intro bumped [OF some_checkpoint_version [OF final_version(1)]]) simp
  next
    case (WaitingApproval b y)
    with body show ?thesis by (intro bumped [OF apply_waiting_approval_version]) simp
  next
    case (RetryScheduled b y)
    with body show ?thesis
      by (intro bumped [OF update_version [where t = Step_FAILED]]) simp_all
  next
    case (WorkflowFailed b y)
    with body show ?thesis by (intro bumped [OF apply_workflow_failed_version]) simp
  next
    case (WorkflowCancelled b y)
    with body show ?thesis by (intro bumped [OF some_checkpoint_version [OF final_version(3)]]) simp
  next
    case (NoAction b)
    with eff show ?thesis by (simp add: has_effect_def)
  qed
qed

end
