(* ===== verification/Engine_Effects.thy ===== *)
theory Engine_Effects
  imports Engine_Coordination Execution_Claims
begin

text \<open>
  What an applied decision does to the protocol of the run. The abstract effect of a decision
  is a function on the abstract machine of theory \<open>Execution_Proto\<close> (the status of the run, the
  reason it waits for, the latest attempt of every step with its status), and
  \<open>apply_decision\<close> refines it: the statuses after a call that returns are those of the function.
\<close>

section \<open>The abstract effect\<close>

text \<open>A change of the latest attempt of a step, allowed from the given statuses of a running run.\<close>

definition from_step ::
  "proto \<Rightarrow> string \<Rightarrow> StepRunStatus list \<Rightarrow> (int \<Rightarrow> proto) \<Rightarrow> proto option" where
  "from_step p s us f =
     (case p_now p s of
        None \<Rightarrow> None
      | Some (a, u) \<Rightarrow> if p_run p = Run_RUNNING \<and> u \<in> set us then Some (f a) else None)"

definition all_successful :: "proto \<Rightarrow> bool" where
  "all_successful p \<longleftrightarrow> list_all (\<lambda>s. case p_now p s of None \<Rightarrow> False | Some (a, u) \<Rightarrow> successful u)
     (workflow_step_ids (p_workflow p))"

definition failed_run :: "proto \<Rightarrow> proto option" where
  "failed_run p =
     (if p_run p \<in> {Run_INITIALIZING, Run_RUNNING}
      then Some (p\<lparr>p_run := Run_FAILED, p_reason := None, p_now := cancel_now (p_now p)\<rparr>) else None)"

fun decision_effect :: "decision \<Rightarrow> proto \<Rightarrow> proto option" where
  "decision_effect (StepReady b y) p =
     (if sy_requires_ready_transition y
      then from_step p (sy_step_id y) [Step_CREATED]
        (\<lambda>a. p\<lparr>p_now := (p_now p)(sy_step_id y \<mapsto> (a, Step_READY))\<rparr>)
      else Some p)"
| "decision_effect (WaitingApproval b y) p =
     from_step p (wa_step_id y) (if wa_requires_ready_transition y then [Step_CREATED] else [Step_READY, Step_WAITING_APPROVAL])
       (\<lambda>a. p\<lparr>p_run := Run_WAITING_FOR_APPROVAL, p_reason := Some (''approval:'' @ wa_step_id y),
             p_now := (p_now p)(wa_step_id y \<mapsto> (a, Step_WAITING_APPROVAL))\<rparr>)"
| "decision_effect (RetryScheduled b y) p =
     from_step p (rs_step_id y) [Step_RUNNING]
       (\<lambda>a. if retry_left p (rs_step_id y) a
            then p\<lparr>p_run := Run_RETRY_SCHEDULED, p_reason := Some (''retry:'' @ rs_step_id y),
                   p_now := (p_now p)(rs_step_id y \<mapsto> (a, Step_FAILED))\<rparr>
            else p\<lparr>p_run := Run_FAILED, p_reason := None,
                   p_now := (p_now p)(rs_step_id y \<mapsto> (a, Step_FAILED))\<rparr>)"
| "decision_effect (WorkflowCompleted b outs) p =
     (if p_run p = Run_RUNNING \<and> all_successful p
      then Some (p\<lparr>p_run := Run_COMPLETED, p_reason := None\<rparr>) else None)"
| "decision_effect (WorkflowFailed b y) p =
     (case wx_failed_step_id y of
        None \<Rightarrow> failed_run p
      | Some s \<Rightarrow> (case p_now p s of
          None \<Rightarrow> None
        | Some (a, u) \<Rightarrow>
            if u = Step_RUNNING
            then from_step p s [Step_RUNNING]
              (\<lambda>a. p\<lparr>p_run := Run_FAILED, p_reason := None, p_now := (p_now p)(s \<mapsto> (a, Step_FAILED))\<rparr>)
            else failed_run p))"
| "decision_effect (ApprovalCompleted b y) p =
     from_step p (ac_step_id y) [Step_RUNNING]
       (\<lambda>a. p\<lparr>p_now := (p_now p)(ac_step_id y \<mapsto> (a, Step_COMPLETED))\<rparr>)"
| "decision_effect (WorkflowCancelled b y) p =
     (if \<not> run_is_terminal (p_run p) \<and> p_run p \<noteq> Run_CANCELLING
      then Some (p\<lparr>p_run := Run_CANCELLED, p_reason := None, p_now := cancel_now (p_now p)\<rparr>) else None)"
| "decision_effect (NoAction b) p = Some p"

section \<open>The commands refine it\<close>

lemma from_step_Some:
  "p_run p = Run_RUNNING \<Longrightarrow> p_now p s = Some (a, u) \<Longrightarrow> u \<in> set us \<Longrightarrow> from_step p s us f = Some (f a)"
  by (simp add: from_step_def)

lemma transition_sources:
  "Step_READY \<in> set (step_run_transitions u) \<longleftrightarrow> u = Step_CREATED"
  "Step_RUNNING \<in> set (step_run_transitions u) \<longleftrightarrow> u = Step_READY \<or> u = Step_WAITING_APPROVAL"
  "Step_COMPLETED \<in> set (step_run_transitions u) \<longleftrightarrow> u = Step_RUNNING"
  "Step_FAILED \<in> set (step_run_transitions u) \<longleftrightarrow> u = Step_RUNNING"
  "Step_WAITING_APPROVAL \<in> set (step_run_transitions u) \<longleftrightarrow> u = Step_RUNNING"
  by (cases u; simp)+

lemmas effect_simps = after_move_def run_with_def from_step_def transition_sources

lemma complete_effect:
  "complete_workflow env outs w = (Inr r, w') \<Longrightarrow> decision_effect (WorkflowCompleted b outs) (view w) = Some (view w')"
  using complete_view [of env outs w r w'] by (auto simp: all_successful_def list_all_iff split: option.splits)

lemma failed_effect:
  "fail_execution env code w = (Inr r, w') \<Longrightarrow> attempts_ok (w_exec w) \<Longrightarrow> failed_run (view w) = Some (view w')"
  using fail_view [of env code w r w'] by (auto simp: failed_run_def)

lemma some_checkpoint_Inr: "some_checkpoint m w = (Inr r, w') \<longleftrightarrow> (\<exists>p. r = Some p \<and> m w = (Inr p, w'))"
  by (auto simp: some_checkpoint_def bindE_returned op_apply)

lemma step_ready_effect:
  assumes "apply_step_ready env y w = (Inr r, w')"
  shows "decision_effect (StepReady b y) (view w) = Some (view w')"
proof (cases "sy_requires_ready_transition y")
  case True
  with assms have "mark_step_ready env (sy_step_id y) (Some (sy_resolved_inputs y)) True w = (Inr r, w')"
    by (simp add: apply_step_ready_def)
  then obtain a u where "p_run (view w) = Run_RUNNING" "p_now (view w) (sy_step_id y) = Some (a, u)"
    "Step_READY \<in> set (step_run_transitions u)" "view w' = after_move Step_READY False (sy_step_id y) a (view w)"
    by (rule mark_ready_view)
  with True show ?thesis by (simp add: effect_simps)
qed (use assms in \<open>simp add: apply_step_ready_def op_apply\<close>)

text \<open>The approval goes through READY and RUNNING before the run waits.\<close>

lemma waiting_effect:
  assumes "apply_waiting_approval env y w = (Inr r, w')"
  shows "decision_effect (WaitingApproval b y) (view w) = Some (view w')"
proof -
  let ?s = "wa_step_id y"
  from assms obtain r1 w1 r2 w2 where
    1: "(if wa_requires_ready_transition y then mark_step_ready env ?s (Some (wa_resolved_inputs y)) False
       else returnE None) w = (Inr r1, w1)"
    and 2: "update_step_state env ?s Step_RUNNING None None False w1 = (Inr r2, w2)"
    and 3: "update_step_state env ?s Step_WAITING_APPROVAL None None False w2 = (Inr r, w')"
    by (auto simp: apply_waiting_approval_def thenE_returned)
  obtain a2 u2 where w2: "p_run (view w1) = Run_RUNNING" "p_now (view w1) ?s = Some (a2, u2)"
    "Step_RUNNING \<in> set (step_run_transitions u2)" "view w2 = after_move Step_RUNNING False ?s a2 (view w1)"
    by (rule update_step_view [OF 2])
  obtain a3 u3 where "p_now (view w2) ?s = Some (a3, u3)"
    and w3: "view w' = after_move Step_WAITING_APPROVAL False ?s a3 (view w2)"
    by (rule update_step_view [OF 3])
  with w2(4) have "a3 = a2" by (simp add: effect_simps)
  show ?thesis
  proof (cases "wa_requires_ready_transition y")
    case True
    with 1 have "mark_step_ready env ?s (Some (wa_resolved_inputs y)) False w = (Inr r1, w1)" by simp
    then obtain a u where w1: "p_run (view w) = Run_RUNNING" "p_now (view w) ?s = Some (a, u)"
      "Step_READY \<in> set (step_run_transitions u)" "view w1 = after_move Step_READY False ?s a (view w)"
      by (rule mark_ready_view)
    with w2(2) have "a2 = a" by (simp add: effect_simps)
    with True w1 w2(4) w3 \<open>a3 = a2\<close> show ?thesis by (simp add: effect_simps)
  next
    case False
    with 1 have "w1 = w" by (simp add: op_apply)
    with False w2 w3 \<open>a3 = a2\<close> show ?thesis by (simp add: effect_simps)
  qed
qed

lemma update_failed_effect:
  assumes "update_step_state env s Step_FAILED out err retryable w = (Inr r, w')"
  obtains a where "p_run (view w) = Run_RUNNING" and "p_now (view w) s = Some (a, Step_RUNNING)"
    and "view w' = after_move Step_FAILED retryable s a (view w)"
  by (rule update_step_view [OF assms]) (simp add: transition_sources)

lemma workflow_failed_effect:
  assumes "apply_workflow_failed env y w = (Inr r, w')" and "attempts_ok (w_exec w)"
  shows "decision_effect (WorkflowFailed b y) (view w) = Some (view w')"
proof (cases "wx_failed_step_id y")
  case None
  with assms show ?thesis by (auto simp: apply_workflow_failed_def some_checkpoint_Inr dest: failed_effect)
next
  case (Some s)
  with assms(1) obtain i where i: "latest_index (srs_of w) s = Some i"
    and body: "(if sr_status (srs_of w ! i) = Step_RUNNING
        then update_step_state env s Step_FAILED None (Some (wx_error_code y)) False
        else some_checkpoint (fail_execution env (wx_error_code y))) w = (Inr r, w')"
    by (auto simp: apply_workflow_failed_def read_returned bindR_Inr_iff latest_step_run_Inr)
  have now: "p_now (view w) s = Some (sr_attempt (srs_of w ! i), sr_status (srs_of w ! i))"
    using i by (simp add: now_of_latest)
  show ?thesis
  proof (cases "sr_status (srs_of w ! i) = Step_RUNNING")
    case True
    with body have "update_step_state env s Step_FAILED None (Some (wx_error_code y)) False w = (Inr r, w')" by simp
    then obtain a where "p_run (view w) = Run_RUNNING" "p_now (view w) s = Some (a, Step_RUNNING)"
      "view w' = after_move Step_FAILED False s a (view w)" by (rule update_failed_effect)
    with Some show ?thesis by (simp add: effect_simps)
  next
    case False
    with body now Some assms(2) show ?thesis by (auto simp: some_checkpoint_Inr dest: failed_effect simp del: proto_of_sel)
  qed
qed

section \<open>The checkpoint of a decision\<close>

text \<open>A call that returns always returns the checkpoint it appended last.\<close>

definition records :: "(world, Checkpoint option) op \<Rightarrow> bool" where
  "records m \<longleftrightarrow> hoareE (\<lambda>_. True) m
     (\<lambda>r w. \<exists>p. r = Some p \<and> ex_checkpoints (w_exec w) \<noteq> [] \<and> last (ex_checkpoints (w_exec w)) = p) (\<lambda>_ _. True)"

lemma hoareE_any: "hoareE (\<lambda>_. True) m (\<lambda>_ _. True) (\<lambda>_ _. True)"
  by (simp add: hoareE_def split: prod.splits sum.splits)

lemma records_then: "records n \<Longrightarrow> records (thenE m n)"
  unfolding records_def by (rule hoareE_then [OF hoareE_any])

lemma records_bind: "(\<And>a. records (f a)) \<Longrightarrow> records (bindE m f)"
  unfolding records_def by (rule hoareE_bind [OF hoareE_any])

lemma records_if: "(b \<Longrightarrow> records m) \<Longrightarrow> (\<not> b \<Longrightarrow> records n) \<Longrightarrow> records (if b then m else n)"
  by simp

lemma records_create: "records (bindE (create_checkpoint env) (\<lambda>p. returnE (Some p)))"
  by (auto simp: records_def hoareE_def bindE_returned op_apply create_checkpoint_apply add_checkpoint_def Let_def
      bindE_def split: sum.splits prod.splits)

lemma some_checkpoint_then: "some_checkpoint (thenE m n) = thenE m (some_checkpoint n)"
  by (auto simp: some_checkpoint_def fun_eq_iff bindE_def thenE_def split: sum.splits prod.splits)

lemma some_checkpoint_bind: "some_checkpoint (bindE m f) = bindE m (\<lambda>a. some_checkpoint (f a))"
  by (auto simp: some_checkpoint_def fun_eq_iff bindE_def split: sum.splits prod.splits)

lemmas records_rules = records_then records_bind records_if records_create

lemma some_checkpoint_records:
  "records (some_checkpoint (complete_workflow env outs))" "records (some_checkpoint (fail_execution env code))"
  "records (some_checkpoint (cancel_execution env))"
proof -
  have "records (some_checkpoint (create_checkpoint env))"
    unfolding some_checkpoint_def by (rule records_create)
  then show "records (some_checkpoint (complete_workflow env outs))" "records (some_checkpoint (fail_execution env code))"
    "records (some_checkpoint (cancel_execution env))"
    unfolding complete_workflow_def fail_execution_def cancel_execution_def some_checkpoint_bind some_checkpoint_then
    by (intro records_rules; assumption)+
qed

lemma update_records:
  assumes "t \<in> {Step_WAITING_APPROVAL, Step_FAILED, Step_CANCELLED, Step_COMPLETED}"
  shows "records (update_step_state env s t outs code retryable)"
proof -
  have tail: "records (if t = Step_WAITING_APPROVAL then after_waiting env s ts
        else if t = Step_FAILED then after_failed env s i ts code retryable
        else if t = Step_CANCELLED then after_cancelled env ts
        else if t = Step_COMPLETED then bindE (create_checkpoint env) (\<lambda>p. returnE (Some p))
        else returnE None)" for ts i
    using assms by (auto simp: after_waiting_def after_failed_def after_cancelled_def intro!: records_rules)
  show ?thesis unfolding update_step_state_def by (intro records_then records_bind tail)
qed

lemma apply_records:
  assumes "has_effect dec"
  shows "records (apply_decision env dec)"
proof -
  have ready: "records (mark_step_ready env s inp True)" for s inp
    unfolding mark_step_ready_def by (simp add: records_rules)
  have failed: "records (apply_workflow_failed env y)" for y
    by (cases "wx_failed_step_id y")
      (simp_all add: apply_workflow_failed_def records_rules some_checkpoint_records update_records)
  show ?thesis using assms unfolding apply_decision_def
    by (intro records_then, cases dec)
      (auto simp: has_effect_def apply_step_ready_def apply_waiting_approval_def
        intro!: records_then ready failed some_checkpoint_records update_records)
qed

end
