(* ===== verification/Engine_Claims.thy ===== *)
theory Engine_Claims
  imports Engine_Effects
begin

text \<open>
  The properties of the Workflow Engine and of its coordinator, with the sample definition
  and snapshots on which they are instantiated.
\<close>

section \<open>A sample definition\<close>

definition sample_policy :: RetryPolicy where
  "sample_policy = \<lparr>rp_max_attempts = 3, rp_backoff = ''exponential'', rp_initial_seconds = 2,
     rp_max_seconds = 5\<rparr>"

definition sample_skill :: "string \<Rightarrow> string list \<Rightarrow> pymap \<Rightarrow> StepDefinition" where
  "sample_skill i needs inputs =
     \<lparr>sd_id = i, sd_kind = Kind_SKILL, sd_needs = needs, sd_uses = Some ''search@1'',
      sd_input_mapping = inputs, sd_timeout_seconds = 300, sd_retry_policy = sample_policy,
      sd_checkpoint_policy = ''after_success'', sd_approval_policy = None\<rparr>"

definition sample_definition :: WorkflowDefinition where
  "sample_definition =
     \<lparr>wd_id = ''w1'', wd_version = ''1'', wd_name = ''survey'',
      wd_steps =
        [sample_skill ''a'' [] [(''q'', VStr ''${inputs.topic}'')],
         sample_skill ''b'' [''a''] [(''n'', VStr ''${nodes.a.outputs.n}'')]],
      wd_schema_version = ''reagent/v1alpha1'',
      wd_input_schema = [(''topic'', VDict [])], wd_outputs = []\<rparr>"

definition sample_run_snapshot :: "string \<Rightarrow> StepRunStatus \<Rightarrow> pymap \<Rightarrow> StepRunSnapshot" where
  "sample_run_snapshot i st out =
     \<lparr>ss_id = i, ss_step_id = i, ss_attempt = 1, ss_status = st, ss_row_version = 0,
      ss_inputs = [], ss_outputs = out, ss_error_code = None\<rparr>"

definition sample_snapshot :: "StepRunStatus \<Rightarrow> StepRunStatus \<Rightarrow> ExecutionSnapshot" where
  "sample_snapshot sa sb =
     \<lparr>es_workflow_run_id = ''r'', es_workflow_id = ''w1'', es_workflow_version = ''1'',
      es_run_status = Run_RUNNING, es_run_row_version = 2,
      es_workflow_inputs = [(''topic'', VStr ''x'')], es_agent_session_id = ''s'',
      es_agent_status = Agent_ACTIVE, es_agent_row_version = 2,
      es_step_runs = [sample_run_snapshot ''a'' sa [(''n'', VInt 7)], sample_run_snapshot ''b'' sb []]\<rparr>"

lemma sample_definition_valid: "validate sample_definition = Inr ()"
  by code_simp

section \<open>The Engine\<close>

text \<open>
  C30: functional equivalence. The validator's sequence of checks accepts exactly the
  definitions that are well formed in the declarative sense: distinct known identifiers, an
  acyclic dependency relation, and references that name declared inputs or proper ancestors.
\<close>

theorem validator_accepts_iff: "validate d = Inr () \<longleftrightarrow> definition_valid d"
  by (rule validate_iff)

text \<open>
  Equivalence of the two validations. Converted to an Engine definition, a workflow that
  the domain's constructors accept passes the Engine's validator exactly when its step inputs
  hold no bad reference; no other check of the validator can reject it.
\<close>

theorem domain_workflow_validates_iff:
  assumes "workflow_valid w" and "workflow_from_domain w = Inr d"
  shows "validate d = Inr () \<longleftrightarrow>
    (\<forall>s \<in> set (wd_steps d). \<forall>ref \<in> set (step_references s). reference_ok d (sd_id s) ref)"
  by (rule from_domain_valid [OF assms])

theorem domain_workflow_validates_iff_witness:
  "\<exists>d. workflow_from_domain sample_workflow = Inr d \<and> validate d = Inr ()"
proof -
  obtain d where d: "workflow_from_domain sample_workflow = Inr d"
    by (rule workflow_from_domain_valid [OF sample_valid])
  have "list_all (\<lambda>s. step_references s = []) (case workflow_from_domain sample_workflow of Inr d \<Rightarrow> wd_steps d | _ \<Rightarrow> [])"
    by code_simp
  then have "\<forall>s \<in> set (wd_steps d). step_references s = []" by (simp add: d list_all_iff)
  with domain_workflow_validates_iff [OF sample_valid d] d show ?thesis by auto
qed

text \<open>
  C27: safety and totality. On a definition the validator accepts and a snapshot of it,
  \<open>next_decision\<close> always returns a decision, whatever the step runs are, and the decision is
  never WORKFLOW_DEADLOCK: as long as no step failed or was cancelled, the dependency order
  leaves a step to run.
\<close>

theorem engine_never_deadlocks:
  assumes "validate d = Inr ()" and "es_workflow_id snap = wd_id d"
    and "es_workflow_version snap = wd_version d"
  shows "\<exists>dec. next_decision d snap = Inr dec \<and>
    (\<forall>b x. dec = WorkflowFailed b x \<longrightarrow> wx_error_code x \<noteq> ''WORKFLOW_DEADLOCK'')"
proof -
  have v: "definition_valid d" using assms(1) by (simp add: validate_iff)
  obtain dec where dec: "running_decision d snap = Inr dec"
    using running_decision_total [OF v] by blast
  have live: "wx_error_code x \<noteq> ''WORKFLOW_DEADLOCK''" if x: "dec = WorkflowFailed b x" for b x
  proof
    assume code: "wx_error_code x = ''WORKFLOW_DEADLOCK''"
    have other: "completion_decision d snap \<noteq> Inr dec" "no_action d snap m \<noteq> dec"
      "approval_decision d snap node \<noteq> Inr dec" "skill_decision d snap node \<noteq> Inr dec"
      "engine_workflow_failed d snap ''INVALID_EXECUTION_STATE'' m None None False \<noteq> dec" for m node
      using code x
      by (auto simp: completion_decision_def approval_decision_def skill_decision_def no_action_def
          tryR_def engine_workflow_failed_def workflow_completed_post_init_def
          waiting_approval_post_init_def step_ready_post_init_def Let_def split: sum.splits if_splits)
    show False
      using definition_valid_closed [OF v]
    proof (cases rule: running_decision_elim [where snap = snap])
      case (invalid e)
      with dec have "engine_workflow_failed d snap ''INVALID_EXECUTION_STATE'' (exc_str e) None None False = dec"
        by simp
      with other(5) show False by blast
    next
      case (blocked latest)
      with no_deadlock [OF v blocked(1-4)] dec code x show False
        by (auto simp: blocked_decision_def engine_workflow_failed_def latest_for_definition_Inr
            filter_empty_conv bindR_Inr_iff Let_def split: if_splits)
    next
      case (offered latest s)
      with dec other(3) [of "node_of latest s"] other(4) [of "node_of latest s"] show False
        by (simp split: if_splits)
    qed (use dec other in auto)
  qed
  have "\<exists>r. next_decision d snap = Inr (no_action d snap r) \<or> next_decision d snap = Inr dec"
    using assms dec by (auto simp: next_decision_def validate_snapshot_identity_def guardR_def)
  with live show ?thesis by (auto simp: no_action_def)
qed

theorem engine_never_deadlocks_witness:
  "\<exists>dec. next_decision sample_definition (sample_snapshot Step_COMPLETED Step_FAILED) = Inr dec \<and>
    (\<forall>b x. dec = WorkflowFailed b x \<longrightarrow> wx_error_code x \<noteq> ''WORKFLOW_DEADLOCK'')"
  by (rule engine_never_deadlocks [OF sample_definition_valid])
     (simp_all add: sample_snapshot_def sample_definition_def)

lemma offered_ready_step:
  assumes "next_decision d snap = Inr (StepReady b y)"
  shows "es_run_status snap = Run_RUNNING \<and> es_agent_status snap = Agent_ACTIVE \<and>
    (\<exists>latest i r. latest_attempts snap = Inr latest \<and> active_runs latest = [] \<and>
       i < length (wd_steps d) \<and> sd_id (wd_steps d ! i) = sy_step_id y \<and>
       map_of latest (sy_step_id y) = Some r \<and>
       ss_status r = (if sy_requires_ready_transition y then Step_CREATED else Step_READY) \<and>
       sy_step_run_id y = ss_id r \<and> sy_attempt y = ss_attempt r \<and>
       deps_done latest (wd_steps d ! i) \<and> (\<forall>j < i. \<not> eligible latest (wd_steps d ! j)))"
proof -
  from assms obtain latest s r where v: "definition_valid d"
    and st: "es_run_status snap = Run_RUNNING" "es_agent_status snap = Agent_ACTIVE"
    and l: "latest_for_definition d snap = Inr latest" and a: "active_runs latest = []"
    and f: "find (eligible latest) (wd_steps d) = Some s"
    and r: "map_of latest (sd_id s) = Some r" "ss_status r \<in> {Step_CREATED, Step_READY}"
    and n: "if sd_kind s = Kind_APPROVAL then approval_decision d snap (node_of latest s) = Inr (StepReady b y)
         else skill_decision d snap (node_of latest s) = Inr (StepReady b y)"
    by (rule offered_node) simp
  from n r(1) have y: "sy_step_id y = sd_id s" "sy_step_run_id y = ss_id r" "sy_attempt y = ss_attempt r"
    "sy_requires_ready_transition y = (ss_status r = Step_CREATED)"
    by (auto simp: approval_decision_def skill_decision_def node_of_def tryR_def Let_def
        waiting_approval_post_init_def step_ready_post_init_def engine_workflow_failed_def
        split: sum.splits if_splits)
  from f obtain i where i: "i < length (wd_steps d)" "wd_steps d ! i = s"
    and first: "\<forall>j < i. \<not> eligible latest (wd_steps d ! j)" by (auto simp: find_Some_iff)
  have dd: "deps_done latest s" using find_eligible(2) [OF f] by (simp add: eligible_def)
  have la: "latest_attempts snap = Inr latest" using l by (simp add: latest_for_definition_Inr)
  have status: "ss_status r = (if sy_requires_ready_transition y then Step_CREATED else Step_READY)"
    using r(2) y(4) by auto
  show ?thesis
    by (intro conjI exI [of _ latest] exI [of _ i] exI [of _ r])
       (use st la a i first dd status r(1) y(1-3) in simp_all)
qed

text \<open>
  C28: safety. When the Engine declares a step ready, the run is RUNNING with an ACTIVE session,
  no step is active, the latest attempt of the step is CREATED or READY (CREATED exactly when a
  READY transition is asked for), every step it needs has succeeded, and it is the first such
  step in definition order.
\<close>

theorem ready_step_is_first_eligible:
  assumes "next_decision d snap = Inr (StepReady b y)"
  shows "es_run_status snap = Run_RUNNING \<and> es_agent_status snap = Agent_ACTIVE \<and>
    (\<exists>latest i r. latest_attempts snap = Inr latest \<and> active_runs latest = [] \<and>
       i < length (wd_steps d) \<and> sd_id (wd_steps d ! i) = sy_step_id y \<and>
       map_of latest (sy_step_id y) = Some r \<and>
       ss_status r = (if sy_requires_ready_transition y then Step_CREATED else Step_READY) \<and>
       sy_step_run_id y = ss_id r \<and> sy_attempt y = ss_attempt r \<and>
       deps_done latest (wd_steps d ! i) \<and> (\<forall>j < i. \<not> eligible latest (wd_steps d ! j)))"
  using assms by (rule offered_ready_step)

lemma sample_ready_eval:
  "(case next_decision sample_definition (sample_snapshot Step_COMPLETED Step_CREATED) of
      Inr (StepReady b y) \<Rightarrow> sy_step_id y = ''b'' \<and> sy_requires_ready_transition y \<and>
        map_of (sy_resolved_inputs y) ''n'' = Some (VInt 7)
    | _ \<Rightarrow> False)"
  by code_simp

lemma sample_ready:
  obtains b y where "next_decision sample_definition (sample_snapshot Step_COMPLETED Step_CREATED) = Inr (StepReady b y)"
    and "sy_step_id y = ''b''" and "map_of (sy_resolved_inputs y) ''n'' = Some (VInt 7)"
  using sample_ready_eval by (auto split: sum.splits decision.splits)

theorem ready_step_is_first_eligible_witness:
  "\<exists>latest i. latest_attempts (sample_snapshot Step_COMPLETED Step_CREATED) = Inr latest \<and>
     sd_id (wd_steps sample_definition ! i) = ''b'' \<and> deps_done latest (wd_steps sample_definition ! i)"
proof -
  obtain b y where n: "next_decision sample_definition (sample_snapshot Step_COMPLETED Step_CREATED) = Inr (StepReady b y)"
    and y: "sy_step_id y = ''b''" by (rule sample_ready)
  from ready_step_is_first_eligible [OF n] y show ?thesis by auto
qed

text \<open>
  C29: functional. The inputs of a step declared ready have the keys of its input mapping, and
  each whole-value reference among them is resolved to the frozen workflow input, or to the
  frozen output of the latest attempt of a proper ancestor, which has succeeded.
\<close>

theorem ready_inputs_resolve_references:
  assumes "next_decision d snap = Inr (StepReady b y)"
  shows "\<exists>s \<in> set (wd_steps d). sd_id s = sy_step_id y \<and>
    map fst (sy_resolved_inputs y) = map fst (sd_input_mapping s) \<and>
    (\<forall>k n. map_of (sd_input_mapping s) k = Some (VStr (''${inputs.'' @ n @ ''}'')) \<longrightarrow> is_ident n \<longrightarrow>
       (\<exists>v. map_of (es_workflow_inputs snap) n = Some v \<and>
            map_of (sy_resolved_inputs y) k = Some (freeze_value v))) \<and>
    (\<forall>k a f. map_of (sd_input_mapping s) k = Some (VStr (''${nodes.'' @ a @ ''.outputs.'' @ f @ ''}'')) \<longrightarrow>
       is_ident a \<longrightarrow> is_ident f \<longrightarrow>
       (\<exists>r v. latest_of (es_step_runs snap) a = Some r \<and> ss_status r \<in> {Step_COMPLETED, Step_SKIPPED} \<and>
            (a, sy_step_id y) \<in> (edges (definition_graph d))\<^sup>+ \<and> map_of (ss_outputs r) f = Some v \<and>
            map_of (sy_resolved_inputs y) k = Some (freeze_value v)))"
proof -
  from assms obtain latest s where v: "definition_valid d"
    and f: "find (eligible latest) (wd_steps d) = Some s"
    and n: "if sd_kind s = Kind_APPROVAL then approval_decision d snap (node_of latest s) = Inr (StepReady b y)
         else skill_decision d snap (node_of latest s) = Inr (StepReady b y)"
    by (rule offered_node) simp
  from n obtain m where m: "resolve_step_inputs d s snap = Inr m"
    and y: "sy_step_id y = sd_id s" "sy_resolved_inputs y = freeze_map m"
    by (auto simp: approval_decision_def skill_decision_def node_of_def tryR_def Let_def
        waiting_approval_post_init_def step_ready_post_init_def engine_workflow_failed_def
        split: sum.splits if_splits)
  obtain anc latest' where anc: "ancestors_of d (sd_id s) = Inr anc" and la: "latest_attempts snap = Inr latest'"
    and keys: "map fst m = map fst (sd_input_mapping s)"
    and item: "\<And>k v. map_of (sd_input_mapping s) k = Some v \<Longrightarrow>
      \<exists>v'. resolve_value \<lparr>rv_step_id = sd_id s, rv_ancestors = anc, rv_latest = latest',
             rv_inputs = es_workflow_inputs snap\<rparr> v = Inr v' \<and> map_of m k = Some (freeze_value v')"
    using resolve_step_inputs_Inr [OF m] by blast
  have s: "s \<in> set (wd_steps d)" by (rule find_eligible(1) [OF f])
  then have "sd_id s \<in> set (definition_ids d)" by (simp add: definition_ids_def)
  with definition_valid_closed [OF v] obtain anc' where "ancestors_of d (sd_id s) = Inr anc'"
    and "set anc' = {a. (a, sd_id s) \<in> (edges (definition_graph d))\<^sup>+}" by (rule ancestors_of_closed)
  with anc have anc': "set anc = {a. (a, sd_id s) \<in> (edges (definition_graph d))\<^sup>+}" by simp
  have ins: "\<exists>v. map_of (es_workflow_inputs snap) n = Some v \<and>
            map_of (sy_resolved_inputs y) k = Some (freeze_value v)"
    if "map_of (sd_input_mapping s) k = Some (VStr (''${inputs.'' @ n @ ''}''))" "is_ident n" for k n
  proof -
    have "match_input_reference (''${inputs.'' @ n @ ''}'') = Some n"
      using that(2) by (simp only: match_input_reference_iff)
    with item [OF that(1)] resolve_string_input [OF this] show ?thesis by (fastforce simp: y)
  qed
  have nodes: "\<exists>r v. latest_of (es_step_runs snap) a = Some r \<and> ss_status r \<in> {Step_COMPLETED, Step_SKIPPED} \<and>
            (a, sy_step_id y) \<in> (edges (definition_graph d))\<^sup>+ \<and> map_of (ss_outputs r) f = Some v \<and>
            map_of (sy_resolved_inputs y) k = Some (freeze_value v)"
    if "map_of (sd_input_mapping s) k = Some (VStr (''${nodes.'' @ a @ ''.outputs.'' @ f @ ''}''))"
      "is_ident a" "is_ident f" for k a f
  proof -
    have ref: "match_node_reference (''${nodes.'' @ a @ ''.outputs.'' @ f @ ''}'') = Some (a, f)"
      using that(2,3) by (simp only: match_node_reference_iff)
    from item [OF that(1)] obtain v' where "resolve_string \<lparr>rv_step_id = sd_id s, rv_ancestors = anc,
        rv_latest = latest', rv_inputs = es_workflow_inputs snap\<rparr> (''${nodes.'' @ a @ ''.outputs.'' @ f @ ''}'') = Inr v'"
      and k: "map_of m k = Some (freeze_value v')" by (auto simp only: resolve_value.simps)
    from resolve_string_node [OF ref this(1)] obtain r u where
      "a \<in> set anc" "map_of latest' a = Some r" "ss_status r \<in> set successful_states"
      "map_of (ss_outputs r) f = Some u" "v' = freeze_value u" by auto
    with k show ?thesis
      using latest_attempts_Inr(2) [OF la, of a] by (auto simp: y anc' successful_states_def)
  qed
  show ?thesis
    by (rule bexI [OF _ s]) (use ins nodes keys in \<open>simp add: y\<close>)
qed

theorem ready_inputs_resolve_references_witness:
  "\<exists>b y s. next_decision sample_definition (sample_snapshot Step_COMPLETED Step_CREATED) = Inr (StepReady b y) \<and>
     s \<in> set (wd_steps sample_definition) \<and> sd_id s = ''b'' \<and>
     map fst (sy_resolved_inputs y) = map fst (sd_input_mapping s)"
proof -
  obtain b y where n: "next_decision sample_definition (sample_snapshot Step_COMPLETED Step_CREATED) = Inr (StepReady b y)"
    and y: "sy_step_id y = ''b''" by (rule sample_ready)
  from ready_inputs_resolve_references [OF n] y n show ?thesis by fastforce
qed

text \<open>
  Evaluating the failure of a running step on a validated definition schedules
  a retry exactly when the failure is retryable, the attempt is below the step's budget and
  the delay can be computed; the retry is the next attempt and waits at most the policy's
  maximum. A failure that is not retried fails the workflow and says whether the budget was
  exhausted.
\<close>

theorem failure_retries_within_budget:
  assumes "validate d = Inr ()" and "es_workflow_id snap = wd_id d" and "es_workflow_version snap = wd_version d"
    and "es_run_status snap = Run_RUNNING" and "definition_get_step d i = Inr s"
    and "latest_attempts snap = Inr latest" and "map_of latest i = Some r"
    and "ss_status r = Step_RUNNING" and "0 < ss_attempt r"
  shows "if retryable \<and> ss_attempt r < rp_max_attempts (sd_retry_policy s) then
      (\<forall>dec. evaluate_failure d snap i retryable code m = Inr dec \<longrightarrow>
         (\<exists>b y. dec = RetryScheduled b y \<and> rs_step_id y = i \<and> rs_current_attempt y = ss_attempt r \<and>
            rs_next_attempt y = ss_attempt r + 1 \<and>
            rs_next_attempt y \<le> rp_max_attempts (sd_retry_policy s) \<and>
            rs_delay_seconds y \<le> rp_max_seconds (sd_retry_policy s))) \<and>
      ((\<exists>dec. evaluate_failure d snap i retryable code m = Inr dec) \<longleftrightarrow>
         (\<exists>delay. delay_for_next_attempt (sd_retry_policy s) (ss_attempt r + 1) = Inr delay))
    else \<exists>b y. evaluate_failure d snap i retryable code m = Inr (WorkflowFailed b y) \<and>
      wx_failed_step_id y = Some i \<and> wx_error_code y = code \<and> wx_retry_exhausted y = retryable"
proof -
  have e: "evaluate_failure d snap i retryable code m =
      (if retryable \<and> ss_attempt r < rp_max_attempts (sd_retry_policy s) then
         bindR (delay_for_next_attempt (sd_retry_policy s) (ss_attempt r + 1))
           (\<lambda>delay. Inr (RetryScheduled (base d snap True (''Retryable failure in step '' @ i))
              \<lparr>rs_step_id = i, rs_step_run_id = ss_id r, rs_current_attempt = ss_attempt r,
               rs_next_attempt = ss_attempt r + 1, rs_expected_step_version = ss_row_version r,
               rs_delay_seconds = delay, rs_backoff = rp_backoff (sd_retry_policy s),
               rs_error_code = code\<rparr>))
       else Inr (engine_workflow_failed d snap code (if m = [] then ''Step '' @ i @ '' failed'' else m)
              (Some i) (Some (ss_row_version r)) retryable))"
    using assms
    by (cases retryable) (simp_all add: evaluate_failure_def validate_snapshot_identity_def guardR_def
        Let_def permits_retry_def)
  have max: "delay \<le> rp_max_seconds p" if "delay_for_next_attempt p n = Inr delay" for p n delay
    using that by (auto simp: delay_for_next_attempt_def Let_def split: if_splits)
  show ?thesis
    unfolding e by (auto simp: bindR_Inr_iff engine_workflow_failed_def dest: max)
qed

theorem failure_retries_within_budget_witness:
  "\<exists>b y. evaluate_failure sample_definition (sample_snapshot Step_RUNNING Step_CREATED) ''a'' True ''T'' [] =
     Inr (RetryScheduled b y) \<and> rs_next_attempt y = 2"
proof -
  let ?s = "sample_skill ''a'' [] [(''q'', VStr ''${inputs.topic}'')]"
  let ?snap = "sample_snapshot Step_RUNNING Step_CREATED"
  obtain latest where l: "latest_attempts ?snap = Inr latest"
    and r: "map_of latest ''a'' = Some (sample_run_snapshot ''a'' Step_RUNNING [(''n'', VInt 7)])"
    by (simp add: latest_attempts_def sample_snapshot_def sample_run_snapshot_def dict_set_def)
  have s: "definition_get_step sample_definition ''a'' = Inr ?s"
    by (simp add: definition_get_step_def sample_definition_def sample_skill_def)
  have "\<exists>delay. delay_for_next_attempt (sd_retry_policy ?s) 2 = Inr delay"
    by (simp add: delay_for_next_attempt_def sample_skill_def sample_policy_def int_overflows_float_def Let_def)
  with failure_retries_within_budget [OF sample_definition_valid _ _ _ s l r, of True "''T''" "[]"]
  show ?thesis
    by (auto simp: sample_run_snapshot_def sample_skill_def sample_policy_def sample_snapshot_def
        sample_definition_def)
qed

text \<open>
  C31: bounds. For a policy its constructor accepts, the delay before attempt n is never
  negative and never above the policy's maximum, and a later attempt never waits less.
\<close>

theorem delay_bounded_and_monotone:
  assumes "retry_policy_post_init p = Inr p" and "delay_for_next_attempt p n = Inr x"
    and "n \<le> k" and "delay_for_next_attempt p k = Inr y"
  shows "0 \<le> x \<and> x \<le> y \<and> y \<le> rp_max_seconds p"
proof -
  define factor where "factor m = (if rp_backoff p = ''fixed'' then 1 else if rp_backoff p = ''linear''
      then m - 1 else 2 ^ nat (m - 2) :: int)" for m :: int
  have p: "0 \<le> rp_initial_seconds p" "rp_initial_seconds p \<le> rp_max_seconds p"
    using assms(1) by (auto simp: retry_policy_post_init_def bindR_Inr_iff)
  have v: "m \<ge> 2 \<and> z = min (rp_initial_seconds p * of_int (factor m)) (rp_max_seconds p)"
    if "delay_for_next_attempt p m = Inr z" for m z
    using that by (auto simp: delay_for_next_attempt_def factor_def Let_def algebra_simps split: if_splits)
  have "factor n \<le> factor k" and pos: "0 \<le> factor n"
    using assms(3) v [OF assms(2)] by (auto simp: factor_def intro!: power_increasing)
  then have "rp_initial_seconds p * of_int (factor n) \<le> rp_initial_seconds p * of_int (factor k)"
    and "0 \<le> rp_initial_seconds p * of_int (factor n)"
    using p by (simp_all add: mult_left_mono)
  with v [OF assms(2)] v [OF assms(4)] p show ?thesis by auto
qed

theorem delay_bounded_and_monotone_witness:
  "\<exists>x y. delay_for_next_attempt sample_policy 2 = Inr x \<and> delay_for_next_attempt sample_policy 4 = Inr y \<and>
     0 \<le> x \<and> x \<le> y \<and> y \<le> 5"
proof -
  have p: "retry_policy_post_init sample_policy = Inr sample_policy"
    by (simp add: retry_policy_post_init_def sample_policy_def guardR_def backoff_names_def)
  obtain x y where "delay_for_next_attempt sample_policy 2 = Inr x" "delay_for_next_attempt sample_policy 4 = Inr y"
    by (simp add: delay_for_next_attempt_def sample_policy_def int_overflows_float_def Let_def)
  with delay_bounded_and_monotone [OF p, of 2 x 4 y] show ?thesis by (simp add: sample_policy_def)
qed

text \<open>
  The maximum does not cap an exponential delay of many attempts: from
  attempt 1026 on the power of two no longer converts to a float and the call raises.
\<close>

theorem exponential_delay_overflows:
  assumes "rp_backoff p = ''exponential''" and "1026 \<le> n"
  shows "delay_for_next_attempt p n = Inl PyOverflowError"
proof -
  have "(2 :: int) ^ 1024 \<le> 2 ^ nat (n - 1 - 1)"
    by (rule power_increasing) (use assms(2) in auto)
  then have "int_overflows_float (2 ^ nat (n - 1 - 1))"
    unfolding int_overflows_float_def by (smt (verit) zero_less_power)
  with assms show ?thesis by (simp add: delay_for_next_attempt_def Let_def)
qed

theorem exponential_delay_overflows_witness:
  "delay_for_next_attempt sample_policy 2000 = Inl PyOverflowError"
  using exponential_delay_overflows [of sample_policy 2000] by (simp add: sample_policy_def)

section \<open>The coordinator of the Engine\<close>

text \<open>
  C24: functional refinement. A decision that \<open>apply_decision\<close> accepts was fresh, and it has
  its effect and no other on the run and on every step: READY for a step that was CREATED,
  WAITING_FOR_APPROVAL with the step named in the reason, RETRY_SCHEDULED while attempts are
  left, COMPLETED only when every step is COMPLETED or SKIPPED, FAILED with the running step
  FAILED or else with every open step cancelled, CANCELLED with every open step cancelled. A
  decision whose effect is not defined in the state never returns.
\<close>

theorem applied_decision_has_its_effect:
  assumes "coord_reach env w" and "apply_decision env dec w = (Inr made, w')"
  shows "fresh_for (w_exec w) dec \<and> decision_effect dec (view w) = Some (view w') \<and>
    (if has_effect dec then made = Some (last (ex_checkpoints (w_exec w'))) else made = None \<and> w' = w)"
proof -
  have att: "attempts_ok (w_exec w)" by (rule attempts.reach_inv [OF assms(1)])
  from assms(2) have fresh: "fresh_for (w_exec w) dec"
    by (auto simp: apply_decision_def thenE_returned op_apply validate_decision_iff)
  with assms(2) have body: "(case dec of
        StepReady _ y \<Rightarrow> apply_step_ready env y
      | WaitingApproval _ y \<Rightarrow> apply_waiting_approval env y
      | RetryScheduled _ y \<Rightarrow>
          update_step_state env (rs_step_id y) Step_FAILED None (Some (rs_error_code y)) True
      | WorkflowCompleted _ outputs \<Rightarrow> some_checkpoint (complete_workflow env outputs)
      | WorkflowFailed _ y \<Rightarrow> apply_workflow_failed env y
      | ApprovalCompleted _ y \<Rightarrow>
          update_step_state env (ac_step_id y) Step_COMPLETED (Some (ac_outputs y)) None False
      | WorkflowCancelled _ _ \<Rightarrow> some_checkpoint (cancel_execution env)
      | NoAction _ \<Rightarrow> returnE None) w = (Inr made, w')"
    by (simp add: apply_decision_def thenE_returned op_apply)
  have "decision_effect dec (view w) = Some (view w')"
  proof (cases dec)
    case (RetryScheduled b y)
    with body have "update_step_state env (rs_step_id y) Step_FAILED None (Some (rs_error_code y)) True w = (Inr made, w')"
      by simp
    then obtain a where "p_run (view w) = Run_RUNNING" "p_now (view w) (rs_step_id y) = Some (a, Step_RUNNING)"
      "view w' = after_move Step_FAILED True (rs_step_id y) a (view w)" by (rule update_failed_effect)
    with RetryScheduled show ?thesis by (simp add: effect_simps)
  next
    case (ApprovalCompleted b y)
    with body have "update_step_state env (ac_step_id y) Step_COMPLETED (Some (ac_outputs y)) None False w = (Inr made, w')"
      by simp
    then obtain a u where "p_run (view w) = Run_RUNNING" "p_now (view w) (ac_step_id y) = Some (a, u)"
      "Step_COMPLETED \<in> set (step_run_transitions u)"
      "view w' = after_move Step_COMPLETED False (ac_step_id y) a (view w)" by (rule update_step_view)
    with ApprovalCompleted show ?thesis by (simp add: effect_simps)
  next
    case (WorkflowCancelled b y)
    with body cancel_view [of env w] att show ?thesis by (auto simp: some_checkpoint_Inr simp del: proto_of_sel)
  next
    case (WorkflowCompleted b outs)
    with body show ?thesis by (auto simp: some_checkpoint_Inr intro: complete_effect simp del: decision_effect.simps)
  qed (use body att in \<open>auto intro: step_ready_effect waiting_effect workflow_failed_effect simp: op_apply
      simp del: decision_effect.simps(1-7)\<close>)
  moreover have "made = None \<and> w' = w" if "\<not> has_effect dec"
    using body that by (cases dec) (auto simp: has_effect_def apply_step_ready_def op_apply)
  moreover have "made = Some (last (ex_checkpoints (w_exec w')))" if "has_effect dec"
    using apply_records [OF that, of env] assms(2) by (auto simp: records_def dest: hoareE_D_ok)
  ultimately show ?thesis using fresh by simp
qed

lemma sample_started:
  obtains w where "coord_runs sample_env w" and "sample_after [Cmd_start] = Inr w"
proof -
  have "(case sample_after [Cmd_start] of Inl _ \<Rightarrow> False | Inr _ \<Rightarrow> True)" by code_simp
  then show thesis using that sample_runs by (auto split: sum.splits)
qed

lemma sample_failure:
  obtains w b y made w' where "coord_runs sample_env w" and "apply_decision sample_env (WorkflowFailed b y) w = (Inr made, w')"
    and "wx_failed_step_id y = Some ''a''" and "p_run (view w) = Run_RUNNING"
    and "p_now (view w) ''a'' = Some (1, Step_RUNNING)"
proof -
  have "(case sample_after [Cmd_start, Cmd_ready ''a'' None False, Cmd_update ''a'' Step_RUNNING None None False] of
      Inl _ \<Rightarrow> False | Inr w \<Rightarrow> wr_status (ex_workflow_run (w_exec w)) = Run_RUNNING \<and>
      now_of (srs_of w) ''a'' = Some (1, Step_RUNNING) \<and>
      (case coordinator_evaluate_failure (w_exec w) ''a'' False ''T'' [] of
         Inr (WorkflowFailed b y) \<Rightarrow> wx_failed_step_id y = Some ''a'' \<and>
           \<not> isl (fst (apply_decision sample_env (WorkflowFailed b y) w))
       | _ \<Rightarrow> False))"
    by code_simp
  then obtain w b y where w: "sample_after [Cmd_start, Cmd_ready ''a'' None False, Cmd_update ''a'' Step_RUNNING None None False] = Inr w"
    and f: "\<not> isl (fst (apply_decision sample_env (WorkflowFailed b y) w))" "wx_failed_step_id y = Some ''a''"
      "wr_status (ex_workflow_run (w_exec w)) = Run_RUNNING" "now_of (srs_of w) ''a'' = Some (1, Step_RUNNING)"
    by (auto split: sum.splits decision.splits)
  from f(1) obtain made w' where "apply_decision sample_env (WorkflowFailed b y) w = (Inr made, w')"
    by (cases "apply_decision sample_env (WorkflowFailed b y) w"; cases "fst (apply_decision sample_env (WorkflowFailed b y) w)") auto
  with that [of w b y made w'] sample_runs [OF w] f show thesis by simp
qed

theorem applied_decision_has_its_effect_witness:
  "\<exists>b y (w :: world) made w'. apply_decision sample_env (WorkflowFailed b y) w = (Inr made, w') \<and>
     p_run (view w') = Run_FAILED \<and> p_now (view w') ''a'' = Some (1, Step_FAILED) \<and>
     made = Some (last (ex_checkpoints (w_exec w')))"
proof -
  obtain w b y made w' where w: "coord_runs sample_env w" "apply_decision sample_env (WorkflowFailed b y) w = (Inr made, w')"
    and f: "wx_failed_step_id y = Some ''a''" "p_run (view w) = Run_RUNNING" "p_now (view w) ''a'' = Some (1, Step_RUNNING)"
    by (rule sample_failure)
  note effect = applied_decision_has_its_effect [OF coord_runs_reach [OF w(1)] w(2)]
  from f have "decision_effect (WorkflowFailed b y) (view w) =
      Some ((view w)\<lparr>p_run := Run_FAILED, p_reason := None, p_now := (p_now (view w))(''a'' \<mapsto> (1, Step_FAILED))\<rparr>)"
    by (simp add: from_step_def)
  with effect have "view w' = (view w)\<lparr>p_run := Run_FAILED, p_reason := None, p_now := (p_now (view w))(''a'' \<mapsto> (1, Step_FAILED))\<rparr>"
    by simp
  then have "p_run (view w') = Run_FAILED" "p_now (view w') ''a'' = Some (1, Step_FAILED)" by (simp_all del: proto_of_sel)
  with effect w(2) show ?thesis by (auto simp: has_effect_def simp del: proto_of_sel)
qed

text \<open>
  A decision the coordinator has just taken on an aggregate, or a failure it
  has just evaluated, is never stale for that aggregate.
\<close>

theorem fresh_decision_accepted:
  assumes "decide x = Inr dec \<or> coordinator_evaluate_failure x i retryable code m = Inr dec"
  shows "validate_decision x dec = Inr ()"
  using assms unfolding validate_decision_iff
  by (auto simp: decide_def coordinator_evaluate_failure_def bindR_Inr_iff
      intro: pinned_fresh next_decision_pinned evaluate_failure_pinned)

lemma sample_decision_eval:
  "(case sample_after [Cmd_start] of Inl _ \<Rightarrow> False | Inr w \<Rightarrow>
      (case decide (w_exec w) of Inr (StepReady b y) \<Rightarrow> sy_requires_ready_transition y | _ \<Rightarrow> False) \<and>
      map sr_outputs (srs_of w) = [[]] \<and> wr_outputs (ex_workflow_run (w_exec w)) = [])"
  by code_simp

lemma sample_decided:
  obtains w b y where "coord_runs sample_env w" and "decide (w_exec w) = Inr (StepReady b y)"
    and "sy_requires_ready_transition y" and "outputs_json (w_exec w)"
proof -
  obtain w where w: "coord_runs sample_env w" "sample_after [Cmd_start] = Inr w" by (rule sample_started)
  with sample_decision_eval obtain b y where "decide (w_exec w) = Inr (StepReady b y)" "sy_requires_ready_transition y"
    and o: "map sr_outputs (srs_of w) = [[]]" "wr_outputs (ex_workflow_run (w_exec w)) = []"
    by (auto split: sum.splits decision.splits)
  moreover from o have "outputs_json (w_exec w)" by (auto simp: outputs_json_def thaw_map_def)
  ultimately show thesis using that w(1) by blast
qed

theorem fresh_decision_accepted_witness:
  "\<exists>x dec. decide x = Inr dec \<and> validate_decision x dec = Inr ()"
proof -
  obtain w :: world and b y where "decide (w_exec w) = Inr (StepReady b y)" by (rule sample_decided)
  with fresh_decision_accepted [of "w_exec w" "StepReady b y"] show ?thesis by blast
qed

text \<open>
  C25: safety, at most once. A decision with an effect that was applied is spent: applying it
  again raises StaleDecisionError and changes nothing.
\<close>

theorem applied_decision_is_spent:
  assumes "apply_decision env dec w = (Inr p, w')" and "has_effect dec"
  shows "\<exists>m. apply_decision env dec w' = (Inl (StaleDecisionError m), w')"
  using spent [OF assms] apply_decision_stale by blast

lemma outputs_json_update:
  assumes "outputs_json x" and "i < length (ex_step_runs x)"
    and "sr_outputs s' = sr_outputs (ex_step_runs x ! i)"
  shows "outputs_json (x\<lparr>ex_step_runs := (ex_step_runs x)[i := s']\<rparr>)"
proof -
  define json where "json s = is_json_shape (VDict (thaw_map (sr_outputs s)))" for s :: StepRun
  have "\<forall>s \<in> set (ex_step_runs x). json s" using assms(1) by (simp add: outputs_json_def json_def)
  moreover have "json s' = json (ex_step_runs x ! i)" by (simp only: json_def assms(3))
  ultimately have "json s'" using nth_mem [OF assms(2)] by blast
  with \<open>\<forall>s \<in> set (ex_step_runs x). json s\<close> have "\<forall>s \<in> set ((ex_step_runs x)[i := s']). json s"
    by (auto dest!: set_update_subset_insert [THEN subsetD])
  with assms(1) show ?thesis by (simp add: outputs_json_def json_def)
qed

text \<open>
  C26: liveness. When the Engine declares a CREATED step ready, applying the decision returns:
  the step's attempt is READY, and a checkpoint of the new state is recorded.
\<close>

theorem ready_decision_applies:
  assumes reach: "coord_reach env w" and env: "env_ok env" and out: "outputs_json (w_exec w)"
    and dec: "decide (w_exec w) = Inr (StepReady b y)" and req: "sy_requires_ready_transition y"
  shows "\<exists>p w'. apply_decision env (StepReady b y) w = (Inr (Some p), w') \<and>
    now_of (ex_step_runs (w_exec w')) (sy_step_id y) = Some (sy_attempt y, Step_READY) \<and>
    last (ex_checkpoints (w_exec w')) = p"
proof -
  from dec obtain d where n: "next_decision d (snapshot_of (w_exec w)) = Inr (StepReady b y)"
    by (auto simp: decide_def bindR_Inr_iff)
  from offered_ready_step [OF n] obtain latest r where
    st: "es_run_status (snapshot_of (w_exec w)) = Run_RUNNING"
    and l: "latest_attempts (snapshot_of (w_exec w)) = Inr latest" "map_of latest (sy_step_id y) = Some r"
    and r: "ss_status r = Step_CREATED" "sy_attempt y = ss_attempt r" using req by auto
  from l obtain i where "latest_step_run (sy_step_id y) (w_exec w) = Inr i"
    and ri: "r = step_run_snapshot (srs_of w ! i)" by (rule latest_agrees)
  then have i: "latest_index (srs_of w) (sy_step_id y) = Some i" by (simp add: latest_step_run_Inr)
  define ts where "ts = ce_clock env (w_ticks w)"
  from env obtain k where k: "ts = Aware k" unfolding env_ok_def ts_def by blast
  define w0 where "w0 = w\<lparr>w_ticks := Suc (w_ticks w)\<rparr>"
  have e0: "w_exec w0 = w_exec w" by (simp add: w0_def)
  obtain s' where s': "step_run_transition_to Step_READY (step_call_at ts (Some (sy_resolved_inputs y)) None None)
      (srs_of w ! i) = Inr s'"
    using r ri by (auto simp: step_run_transition_ok step_call_at_def at_or_now_def k step_run_snapshot_def)
  have mv: "step_to i Step_READY (step_call_at ts (Some (sy_resolved_inputs y)) None None) w0 =
      (Inr (), set_step i s' w0)"
    using s' by (simp add: step_to_def updE_apply e0)
  have s'_out: "sr_outputs s' = sr_outputs (srs_of w ! i)"
    using s' by (auto simp: step_run_transition_ok step_call_at_def)
  have x: "ids_ok (w_exec (set_step i s' w0))" "outputs_json (w_exec (set_step i s' w0))"
    using ids.reach_inv [OF reach] outputs_json_update [OF out latest_index_Some(1) [OF i] s'_out] e0
    by (simp_all add: ids_ok_def set_step_def)
  obtain p w' where c: "create_checkpoint env (set_step i s' w0) = (Inr p, w')"
    and srs: "srs_of w' = srs_of (set_step i s' w0)"
    using create_checkpoint_total [OF env x] by metis
  have "mark_step_ready env (sy_step_id y) (Some (sy_resolved_inputs y)) True w = (Inr (Some p), w')"
    using st i mv c
    by (simp add: mark_step_ready_def require_running_def op_simps snapshot_of_def Let_def
        latest_step_run_def read_clock_def ts_def [symmetric] w0_def [symmetric])
  moreover have "validate_decision (w_exec w) (StepReady b y) = Inr ()"
    unfolding validate_decision_iff by (rule pinned_fresh [OF next_decision_pinned [OF n]])
  ultimately have "apply_decision env (StepReady b y) w = (Inr (Some p), w')"
    using req by (simp add: apply_decision_def op_simps apply_step_ready_def)
  moreover have "now_of (srs_of w') (sy_step_id y) = Some (sy_attempt y, Step_READY)"
    using arg_cong [OF step_to_view(2) [OF mv, of "sy_step_id y"], of p_now] i e0 srs r ri
    by (simp add: proto_of_def step_run_snapshot_def)
  moreover have "last (ex_checkpoints (w_exec w')) = p"
    using c by (auto simp: create_checkpoint_apply Let_def add_checkpoint_def split: sum.splits)
  ultimately show ?thesis by blast
qed

theorem ready_decision_applies_witness:
  "\<exists>b y p (w :: world) w'. apply_decision sample_env (StepReady b y) w = (Inr (Some p), w') \<and>
     now_of (ex_step_runs (w_exec w')) (sy_step_id y) = Some (sy_attempt y, Step_READY)"
proof -
  obtain w b y where "coord_runs sample_env w" "decide (w_exec w) = Inr (StepReady b y)"
    "sy_requires_ready_transition y" "outputs_json (w_exec w)" by (rule sample_decided)
  with ready_decision_applies [OF coord_runs_reach sample_env_ok] show ?thesis by blast
qed

lemma sample_applied:
  obtains w dec p w' where "apply_decision sample_env dec w = (Inr p, w')" and "has_effect dec"
    and "coord_runs sample_env w" and "decide (w_exec w) = Inr dec"
proof -
  have "(case sample_after [Cmd_start] of Inl _ \<Rightarrow> False | Inr w \<Rightarrow>
      (case decide (w_exec w) of Inl _ \<Rightarrow> False | Inr dec \<Rightarrow> has_effect dec \<and>
        (case fst (apply_decision sample_env dec w) of Inl _ \<Rightarrow> False | Inr _ \<Rightarrow> True)))"
    by code_simp
  moreover obtain w where "coord_runs sample_env w" "sample_after [Cmd_start] = Inr w" by (rule sample_started)
  ultimately show thesis using that by (auto split: sum.splits) (metis prod.collapse)
qed

theorem applied_decision_is_spent_witness:
  "\<exists>dec (w' :: world) m. has_effect dec \<and> apply_decision sample_env dec w' = (Inl (StaleDecisionError m), w')"
proof -
  obtain w dec p w' where "apply_decision sample_env dec w = (Inr p, w')" and "has_effect dec"
    by (rule sample_applied)
  with applied_decision_is_spent [OF this] show ?thesis by blast
qed

text \<open>
  C32: error behaviour. A failure decision is not protected against a concurrent success: it
  names its step in another attribute than the one the staleness check reads. After the step
  it was evaluated for has COMPLETED, the decision still passes the check although the step's
  version is no longer the expected one.
\<close>

theorem stale_failure_is_accepted:
  assumes "coordinator_evaluate_failure (w_exec w) i retryable code m = Inr (WorkflowFailed b y)"
    and "update_step_state env i Step_COMPLETED out None False w = (Inr p, w')"
  shows "validate_decision (w_exec w') (WorkflowFailed b y) = Inr () \<and>
    (\<exists>j. latest_step_run i (w_exec w') = Inr j \<and>
       wx_expected_step_version y \<noteq> Some (sr_row_version (ex_step_runs (w_exec w') ! j)))"
proof -
  from assms(1) obtain d where d: "evaluate_failure d (snapshot_of (w_exec w)) i retryable code m = Inr (WorkflowFailed b y)"
    by (auto simp: coordinator_evaluate_failure_def bindR_Inr_iff)
  then have fresh: "fresh_for (w_exec w) (WorkflowFailed b y)"
    by (intro pinned_fresh evaluate_failure_pinned)
  have "fresh_for (w_exec w') (WorkflowFailed b y)"
    using fresh update_completed_bumps(2) [OF assms(2)] by (simp add: fresh_for_def)
  moreover from d obtain latest r where "latest_attempts (snapshot_of (w_exec w)) = Inr latest"
    "map_of latest i = Some r" "wx_expected_step_version y = Some (ss_row_version r)"
    by (auto simp: evaluate_failure_def bindR_Inr_iff Let_def engine_workflow_failed_def
        split: option.splits if_splits)
  moreover from this(1,2) obtain j where "latest_step_run i (w_exec w) = Inr j"
    "r = step_run_snapshot (srs_of w ! j)" by (rule latest_agrees)
  moreover obtain k where "latest_index (srs_of w) i = Some k" "latest_index (srs_of w') i = Some k"
    "sr_row_version (srs_of w' ! k) = sr_row_version (srs_of w ! k) + 1"
    using update_completed_bumps(1) [OF assms(2)] by (auto simp: step_bumped_def)
  ultimately show ?thesis
    by (auto simp: validate_decision_iff latest_step_run_Inr step_run_snapshot_def)
qed

theorem stale_failure_is_accepted_witness:
  "\<exists>b y (w' :: world) j. validate_decision (w_exec w') (WorkflowFailed b y) = Inr () \<and>
     latest_step_run ''a'' (w_exec w') = Inr j \<and>
     wx_expected_step_version y \<noteq> Some (sr_row_version (ex_step_runs (w_exec w') ! j))"
proof -
  have "(case sample_after [Cmd_start, Cmd_ready ''a'' None False, Cmd_update ''a'' Step_RUNNING None None False] of
      Inl _ \<Rightarrow> False | Inr w \<Rightarrow>
      (case coordinator_evaluate_failure (w_exec w) ''a'' False ''T'' [] of Inr (WorkflowFailed b y) \<Rightarrow> True | _ \<Rightarrow> False) \<and>
      (case fst (update_step_state sample_env ''a'' Step_COMPLETED None None False w) of Inl _ \<Rightarrow> False | Inr _ \<Rightarrow> True))"
    by code_simp
  then obtain w b y p w' where "coordinator_evaluate_failure (w_exec w) ''a'' False ''T'' [] = Inr (WorkflowFailed b y)"
    and "update_step_state sample_env ''a'' Step_COMPLETED None None False w = (Inr p, w')"
    by (auto split: sum.splits decision.splits) (metis prod.collapse)
  from stale_failure_is_accepted [OF this] show ?thesis by blast
qed

end
