(* ===== verification/Provider_Contracts.thy ===== *)
theory Provider_Contracts
  imports Json_Codec Entities
begin

text \<open>
  The contracts of provider calls, \<^verbatim>\<open>backend/research/contracts/models.py\<close>: usage,
  reservations, budgets, and the operation that is reserved, run and settled. Contract errors
  are \<open>ValueError\<close>s. Frozen diagnostics are JSON values.
\<close>

section \<open>Frozen JSON\<close>

text \<open>
  \<^verbatim>\<open>backend/research/contracts/_serialization.py\<close>. The type name in the last message is
  that of a value outside the JSON universe, which the model writes \<open>object\<close>.
\<close>

lemma size_enumerated [termination_simp]:
  "(i, x) \<in> set (enumerate n xs) \<Longrightarrow> size x < Suc (size_list size xs)"
proof (induction xs arbitrary: n)
  case (Cons y xs)
  then consider "x = y" | "size x < Suc (size_list size xs)" by fastforce
  then show ?case by cases auto
qed simp

fun freeze_json :: "string \<Rightarrow> pyval \<Rightarrow> pyval res" where
  "freeze_json path (VFloat t) =
     (if nonfinite_text t \<noteq> None then
        Inl (ValueErrorMsg (path @ '' must contain only finite numbers''))
      else Inr (VFloat t))"
| "freeze_json path (VDict kvs) =
     bindR (mapR (\<lambda>(k, v). bindR (freeze_json (path @ ''.'' @ k) v) (\<lambda>v'. Inr (k, v'))) kvs)
       (\<lambda>items. Inr (VProxy items))"
| "freeze_json path (VProxy kvs) =
     bindR (mapR (\<lambda>(k, v). bindR (freeze_json (path @ ''.'' @ k) v) (\<lambda>v'. Inr (k, v'))) kvs)
       (\<lambda>items. Inr (VProxy items))"
| "freeze_json path (VTuple xs) =
     bindR (mapR (\<lambda>(i, x). freeze_json (path @ ''['' @ nat_str i @ '']'') x) (enumerate 0 xs))
       (\<lambda>ys. Inr (VTuple ys))"
| "freeze_json path (VList xs) =
     bindR (mapR (\<lambda>(i, x). freeze_json (path @ ''['' @ nat_str i @ '']'') x) (enumerate 0 xs))
       (\<lambda>ys. Inr (VTuple ys))"
| "freeze_json path (VObj n) =
     Inl (ValueErrorMsg (path @ '' contains non-JSON-compatible value object''))"
| "freeze_json path v = Inr v"

text \<open>\<open>freeze_json\<close> of a mapping field, kept as its items.\<close>

definition freeze_json_map :: "pymap \<Rightarrow> pymap res" where
  "freeze_json_map m =
     bindR (freeze_json ''$'' (VDict m))
       (\<lambda>v. Inr (case v of VProxy items \<Rightarrow> items | _ \<Rightarrow> []))"

definition contract_non_empty :: "string \<Rightarrow> string \<Rightarrow> unit res" where
  "contract_non_empty v field_name =
     guardR (py_strip v = []) (ValueErrorMsg (field_name @ '' must be a non-empty string''))"

definition contract_aware :: "datetime \<Rightarrow> string \<Rightarrow> unit res" where
  "contract_aware t field_name =
     (case t of Aware _ \<Rightarrow> Inr ()
      | Naive _ \<Rightarrow> Inl (ValueErrorMsg (field_name @ '' must be timezone-aware'')))"

text \<open>\<open>sha256:[0-9a-f]{64}\<close>, the whole string.\<close>

definition lower_hex :: "char \<Rightarrow> bool" where
  "lower_hex c \<longleftrightarrow> (let n = of_char c :: nat in (48 \<le> n \<and> n \<le> 57) \<or> (97 \<le> n \<and> n \<le> 102))"

definition is_sha256 :: "string \<Rightarrow> bool" where
  "is_sha256 s \<longleftrightarrow> startswith s ''sha256:'' \<and>
     (let r = removeprefix s ''sha256:'' in length r = 64 \<and> list_all lower_hex r)"

definition require_sha256 :: "string \<Rightarrow> string \<Rightarrow> unit res" where
  "require_sha256 v field_name =
     guardR (\<not> is_sha256 v)
       (ValueErrorMsg (field_name @ '' must be sha256:<64 lowercase hex characters>''))"

section \<open>Enumerations\<close>

datatype ProviderCategory = Cat_PAPER_SEARCH | Cat_SOURCE_CONTENT | Cat_LLM

datatype ProviderOperationKind =
    Op_SEARCH | Op_RETRIEVE | Op_GENERATE_TEXT | Op_GENERATE_STRUCTURED
  | Op_SUMMARIZE_EVIDENCE | Op_SYNTHESIZE_CLAIMS | Op_COMPOSE_REPORT | Op_MECHANICAL_REPAIR

datatype ProviderFailureCategory =
    Fail_INVALID_QUERY | Fail_PROVIDER_AUTHENTICATION | Fail_PROVIDER_RATE_LIMIT
  | Fail_PROVIDER_TIMEOUT | Fail_PROVIDER_UNAVAILABLE | Fail_MALFORMED_PROVIDER_RESPONSE
  | Fail_CONTENT_UNAVAILABLE | Fail_SCHEMA_VALIDATION | Fail_LLM_STRUCTURED_OUTPUT
  | Fail_PROVENANCE_VALIDATION | Fail_ARTIFACT_STORAGE | Fail_BUDGET_EXCEEDED | Fail_CANCELLED

datatype ProviderOperationStatus =
    Prov_RESERVED | Prov_RUNNING | Prov_SUCCEEDED | Prov_FAILED | Prov_CANCELLED

fun provider_is_terminal :: "ProviderOperationStatus \<Rightarrow> bool" where
  "provider_is_terminal s \<longleftrightarrow> s \<in> {Prov_SUCCEEDED, Prov_FAILED, Prov_CANCELLED}"

datatype SettlementState = Settle_UNSETTLED | Settle_SETTLED | Settle_RELEASED

section \<open>Usage, reservation, budget\<close>

record ProviderUsage =
  pu_provider :: string
  pu_model_or_endpoint :: string
  pu_operation_kind :: ProviderOperationKind
  pu_request_count :: int
  pu_input_tokens :: "int option"
  pu_output_tokens :: "int option"
  pu_estimated_cost :: "int option"
  pu_cost_currency :: "string option"
  pu_latency_ms :: int
  pu_retry_count :: int
  pu_failure_category :: "ProviderFailureCategory option"
  pu_provider_request_ids :: "string list"

definition negative :: "int option \<Rightarrow> bool" where
  "negative v = (case v of None \<Rightarrow> False | Some n \<Rightarrow> n < 0)"

definition usage_negative :: "string \<Rightarrow> py_exc" where
  "usage_negative name = ValueErrorMsg (''ProviderUsage.'' @ name @ '' cannot be negative'')"

definition provider_usage_post_init :: "ProviderUsage \<Rightarrow> ProviderUsage res" where
  "provider_usage_post_init u =
     bindR (contract_non_empty (pu_provider u) ''ProviderUsage.provider'')
     (\<lambda>_. bindR (contract_non_empty (pu_model_or_endpoint u) ''ProviderUsage.model_or_endpoint'')
     (\<lambda>_. bindR (forR [(pu_request_count u, ''request_count''), (pu_latency_ms u, ''latency_ms''),
                (pu_retry_count u, ''retry_count'')]
        (\<lambda>(value, name). guardR (value < 0) (usage_negative name)))
     (\<lambda>_. bindR (forR [(pu_input_tokens u, ''input_tokens''), (pu_output_tokens u, ''output_tokens''),
                (pu_estimated_cost u, ''estimated_cost_minor_units'')]
        (\<lambda>(value, name). guardR (negative value) (usage_negative name)))
     (\<lambda>_. bindR (guardR (pu_estimated_cost u \<noteq> None \<and>
          (case pu_cost_currency u of None \<Rightarrow> True | Some c \<Rightarrow> c = []))
        (ValueErrorMsg ''ProviderUsage cost requires a currency''))
     (\<lambda>_. Inr u)))))"

definition zero_cost :: "string \<Rightarrow> string \<Rightarrow> ProviderOperationKind \<Rightarrow> ProviderUsage res" where
  "zero_cost provider model_or_endpoint kind =
     provider_usage_post_init
       \<lparr>pu_provider = provider, pu_model_or_endpoint = model_or_endpoint, pu_operation_kind = kind,
        pu_request_count = 1, pu_input_tokens = Some 0, pu_output_tokens = Some 0,
        pu_estimated_cost = Some 0, pu_cost_currency = Some ''USD'', pu_latency_ms = 0,
        pu_retry_count = 0, pu_failure_category = None, pu_provider_request_ids = []\<rparr>"

record ProviderReservation =
  pv_request_count :: int
  pv_input_tokens :: int
  pv_output_tokens :: int
  pv_cost_minor_units :: int
  pv_cost_currency :: string

definition provider_reservation_post_init :: "ProviderReservation \<Rightarrow> ProviderReservation res" where
  "provider_reservation_post_init v =
     bindR (guardR (min (min (pv_request_count v) (pv_input_tokens v))
                        (min (pv_output_tokens v) (pv_cost_minor_units v)) < 0)
       (ValueErrorMsg ''ProviderReservation values cannot be negative''))
     (\<lambda>_. bindR (contract_non_empty (pv_cost_currency v) ''ProviderReservation.cost_currency'')
     (\<lambda>_. Inr v))"

record ProviderBudget =
  pb_max_provider_requests :: int
  pb_max_llm_calls :: int
  pb_max_input_tokens :: int
  pb_max_output_tokens :: int
  pb_max_cost_minor_units :: int
  pb_cost_currency :: string
  pb_max_runtime_seconds :: int
  pb_max_artifact_bytes :: int
  pb_live_provider_enabled :: bool

definition provider_budget_post_init :: "ProviderBudget \<Rightarrow> ProviderBudget res" where
  "provider_budget_post_init b =
     bindR (guardR (list_ex (\<lambda>n. n < 0) [pb_max_provider_requests b, pb_max_llm_calls b,
         pb_max_input_tokens b, pb_max_output_tokens b, pb_max_cost_minor_units b,
         pb_max_runtime_seconds b, pb_max_artifact_bytes b])
       (ValueErrorMsg ''ProviderBudget limits cannot be negative''))
     (\<lambda>_. bindR (contract_non_empty (pb_cost_currency b) ''ProviderBudget.cost_currency'')
     (\<lambda>_. Inr b))"

definition fake_only_default :: "ProviderBudget res" where
  "fake_only_default = provider_budget_post_init
     \<lparr>pb_max_provider_requests = 25, pb_max_llm_calls = 10, pb_max_input_tokens = 0,
      pb_max_output_tokens = 0, pb_max_cost_minor_units = 0, pb_cost_currency = ''USD'',
      pb_max_runtime_seconds = 1800, pb_max_artifact_bytes = 100 * 1024 * 1024,
      pb_live_provider_enabled = False\<rparr>"

section \<open>ProviderOperation\<close>

record ProviderOperation =
  po_id :: string
  po_project_id :: string
  po_workflow_run_id :: string
  po_logical_step_id :: string
  po_step_run_id :: "string option"
  po_provider_category :: ProviderCategory
  po_operation_kind :: ProviderOperationKind
  po_provider_identity :: string
  po_adapter_version :: string
  po_model_or_endpoint :: string
  po_idempotency_key :: string
  po_request_fingerprint :: string
  po_reservation :: ProviderReservation
  po_is_live_provider :: bool
  po_status :: ProviderOperationStatus
  po_settlement_state :: SettlementState
  po_actual_usage :: "ProviderUsage option"
  po_failure_category :: "ProviderFailureCategory option"
  po_retry_count :: int
  po_diagnostic_metadata :: pymap
  po_created_at :: datetime
  po_updated_at :: datetime
  po_started_at :: "datetime option"
  po_finished_at :: "datetime option"
  po_row_version :: int

definition contract_aware_opt :: "datetime option \<Rightarrow> string \<Rightarrow> unit res" where
  "contract_aware_opt t field_name = (case t of None \<Rightarrow> Inr () | Some d \<Rightarrow> contract_aware d field_name)"

text \<open>The checks on the status, in their order.\<close>

definition operation_status_checks :: "ProviderOperation \<Rightarrow> unit res" where
  "operation_status_checks o' =
     bindR (guardR (provider_is_terminal (po_status o') \<and> po_finished_at o' = None)
       (ValueErrorMsg ''Terminal ProviderOperation requires finished_at''))
     (\<lambda>_. bindR (guardR (po_status o' = Prov_RUNNING \<and> po_started_at o' = None)
       (ValueErrorMsg ''Running ProviderOperation requires started_at''))
     (\<lambda>_. bindR (guardR (provider_is_terminal (po_status o') \<and> po_settlement_state o' = Settle_UNSETTLED)
       (ValueErrorMsg ''Terminal ProviderOperation must be settled or released''))
     (\<lambda>_. bindR (guardR (po_status o' = Prov_SUCCEEDED \<and>
           (po_actual_usage o' = None \<or> po_settlement_state o' \<noteq> Settle_SETTLED))
       (ValueErrorMsg ''Succeeded ProviderOperation must have settled usage''))
     (\<lambda>_. bindR (guardR (po_status o' = Prov_SUCCEEDED \<and> po_failure_category o' \<noteq> None)
       (ValueErrorMsg ''Succeeded ProviderOperation cannot have a failure''))
     (\<lambda>_. bindR (guardR (po_status o' = Prov_FAILED \<and> po_failure_category o' = None)
       (ValueErrorMsg ''Failed ProviderOperation requires a failure category''))
     (\<lambda>_. bindR (guardR (po_status o' = Prov_CANCELLED \<and> po_failure_category o' \<noteq> Some Fail_CANCELLED)
       (ValueErrorMsg ''Cancelled ProviderOperation requires CANCELLED failure''))
     (\<lambda>_. guardR (po_settlement_state o' = Settle_RELEASED \<and> po_actual_usage o' \<noteq> None)
       (ValueErrorMsg ''Released ProviderOperation cannot contain actual usage''))))))))"

definition operation_usage_checks :: "ProviderOperation \<Rightarrow> unit res" where
  "operation_usage_checks o' =
     (case po_actual_usage o' of
        None \<Rightarrow> Inr ()
      | Some u \<Rightarrow>
          bindR (guardR (pu_provider u \<noteq> po_provider_identity o' \<or>
              pu_model_or_endpoint u \<noteq> po_model_or_endpoint o' \<or>
              pu_operation_kind u \<noteq> po_operation_kind o')
            (ValueErrorMsg ''ProviderOperation usage identity does not match operation''))
          (\<lambda>_. guardR (pu_cost_currency u \<noteq> None \<and>
              pu_cost_currency u \<noteq> Some (pv_cost_currency (po_reservation o')))
            (ValueErrorMsg ''ProviderOperation usage currency does not match reservation'')))"

definition provider_operation_post_init :: "ProviderOperation \<Rightarrow> ProviderOperation res" where
  "provider_operation_post_init o' =
     bindR (forR [(po_id o', ''ProviderOperation.id''), (po_project_id o', ''ProviderOperation.project_id''),
         (po_workflow_run_id o', ''ProviderOperation.workflow_run_id''),
         (po_logical_step_id o', ''ProviderOperation.logical_step_id''),
         (po_provider_identity o', ''ProviderOperation.provider_identity''),
         (po_adapter_version o', ''ProviderOperation.adapter_version''),
         (po_model_or_endpoint o', ''ProviderOperation.model_or_endpoint''),
         (po_idempotency_key o', ''ProviderOperation.idempotency_key'')]
       (\<lambda>(value, name). contract_non_empty value name))
     (\<lambda>_. bindR (require_sha256 (po_request_fingerprint o') ''ProviderOperation.request_fingerprint'')
     (\<lambda>_. bindR (contract_aware (po_created_at o') ''ProviderOperation.created_at'')
     (\<lambda>_. bindR (contract_aware (po_updated_at o') ''ProviderOperation.updated_at'')
     (\<lambda>_. bindR (contract_aware_opt (po_started_at o') ''ProviderOperation.started_at'')
     (\<lambda>_. bindR (contract_aware_opt (po_finished_at o') ''ProviderOperation.finished_at'')
     (\<lambda>_. bindR (guardR (po_retry_count o' < 0 \<or> po_row_version o' < 0)
       (ValueErrorMsg ''ProviderOperation retry/version values cannot be negative''))
     (\<lambda>_. bindR (operation_status_checks o')
     (\<lambda>_. bindR (operation_usage_checks o')
     (\<lambda>_. bindR (freeze_json_map (po_diagnostic_metadata o'))
     (\<lambda>m. Inr (o'\<lparr>po_diagnostic_metadata := m\<rparr>)))))))))))"

text \<open>The methods return \<open>replace(self, ...)\<close>, which runs the checks again.\<close>

definition operation_mark_running :: "datetime \<Rightarrow> ProviderOperation \<Rightarrow> ProviderOperation res" where
  "operation_mark_running at_time o' =
     bindR (guardR (po_status o' \<noteq> Prov_RESERVED)
       (ValueErrorMsg ''Only RESERVED ProviderOperation can start''))
     (\<lambda>_. provider_operation_post_init
       (o'\<lparr>po_status := Prov_RUNNING, po_started_at := Some at_time, po_updated_at := at_time,
           po_row_version := po_row_version o' + 1\<rparr>))"

definition operation_settle_success ::
  "ProviderUsage \<Rightarrow> datetime \<Rightarrow> ProviderOperation \<Rightarrow> ProviderOperation res" where
  "operation_settle_success usage at_time o' =
     bindR (guardR (po_status o' \<noteq> Prov_RUNNING)
       (ValueErrorMsg ''Only RUNNING ProviderOperation can succeed''))
     (\<lambda>_. provider_operation_post_init
       (o'\<lparr>po_status := Prov_SUCCEEDED, po_settlement_state := Settle_SETTLED,
           po_actual_usage := Some usage, po_retry_count := pu_retry_count usage,
           po_failure_category := None, po_updated_at := at_time,
           po_finished_at := Some at_time, po_row_version := po_row_version o' + 1\<rparr>))"

definition operation_settle_failure ::
  "ProviderFailureCategory \<Rightarrow> datetime \<Rightarrow> ProviderUsage option \<Rightarrow> bool \<Rightarrow> pymap option \<Rightarrow>
   ProviderOperation \<Rightarrow> ProviderOperation res" where
  "operation_settle_failure category at_time usage release_reservation diagnostics o' =
     bindR (guardR (po_status o' \<notin> {Prov_RESERVED, Prov_RUNNING})
       (ValueErrorMsg ''ProviderOperation cannot fail from its current status''))
     (\<lambda>_. provider_operation_post_init
       (o'\<lparr>po_status := Prov_FAILED,
           po_settlement_state :=
             (if release_reservation \<and> usage = None then Settle_RELEASED else Settle_SETTLED),
           po_actual_usage := usage,
           po_retry_count := (case usage of None \<Rightarrow> po_retry_count o' | Some u \<Rightarrow> pu_retry_count u),
           po_failure_category := Some category,
           po_diagnostic_metadata := (case diagnostics of None \<Rightarrow> [] | Some m \<Rightarrow> m),
           po_updated_at := at_time, po_finished_at := Some at_time,
           po_row_version := po_row_version o' + 1\<rparr>))"

definition operation_cancel :: "datetime \<Rightarrow> bool \<Rightarrow> ProviderOperation \<Rightarrow> ProviderOperation res" where
  "operation_cancel at_time release_reservation o' =
     bindR (guardR (provider_is_terminal (po_status o'))
       (ValueErrorMsg ''Terminal ProviderOperation cannot be cancelled''))
     (\<lambda>_. provider_operation_post_init
       (o'\<lparr>po_status := Prov_CANCELLED,
           po_settlement_state := (if release_reservation then Settle_RELEASED else Settle_SETTLED),
           po_failure_category := Some Fail_CANCELLED, po_updated_at := at_time,
           po_finished_at := Some at_time, po_row_version := po_row_version o' + 1\<rparr>))"

section \<open>Lemmas\<close>

lemma provider_operation_post_init_Inr:
  assumes "provider_operation_post_init o' = Inr p"
  shows "\<exists>m. p = o'\<lparr>po_diagnostic_metadata := m\<rparr>" and "operation_status_checks o' = Inr ()"
    and "operation_usage_checks o' = Inr ()" and "\<exists>i. po_created_at o' = Aware i"
  using assms
  by (auto simp: provider_operation_post_init_def bindR_Inr_iff contract_aware_def
      split: datetime.splits)

end
