(* ===== verification/Provider_Repository.thy ===== *)
theory Provider_Repository
  imports Provider_Contracts "HOL-Library.AList" "HOL-Library.Product_Lexorder"
begin

text \<open>
  Provider operations in the in-memory adapter, \<^verbatim>\<open>backend/persistence/adapters/in_memory.py\<close>:
  the repository inside one unit of work, and the part of \<open>commit\<close>,
  \<open>_validate_concurrency\<close> and \<open>_refresh\<close> that concerns provider operations. Several units
  of work over one database are a step relation; its invariant says that optimistic
  versioning loses no update and that an idempotency key has one owner.

  Dictionaries are association lists in insertion order. The order in which Python walks
  the set of dirty identifiers depends on the hash seed, so a commit takes it as an
  argument.
\<close>

section \<open>Records and the unit of work\<close>

record ProviderOperationRecord =
  pr_operation :: ProviderOperation
  pr_version :: int

definition provider_record_post_init :: "ProviderOperationRecord \<Rightarrow> ProviderOperationRecord res" where
  "provider_record_post_init r =
     bindR (guardR (pr_version r \<le> 0)
       (ValueErrorMsg ''ProviderOperationRecord.persistence_version must be positive''))
     (\<lambda>_. Inr r)"

type_synonym operation_table = "(string \<times> ProviderOperationRecord) list"

record provider_uow =
  uw_operations :: operation_table
  uw_expected :: "(string \<times> int option) list"
  uw_dirty :: "string set"

text \<open>\<open>_refresh\<close>: a fresh view of the committed table.\<close>

definition uow_refresh :: "operation_table \<Rightarrow> provider_uow" where
  "uow_refresh db = \<lparr>uw_operations = db, uw_expected = [], uw_dirty = {}\<rparr>"

section \<open>Reading\<close>

definition repo_get :: "provider_uow \<Rightarrow> string \<Rightarrow> ProviderOperation option" where
  "repo_get u i = map_option pr_operation (map_of (uw_operations u) i)"

definition repo_get_version :: "provider_uow \<Rightarrow> string \<Rightarrow> int option" where
  "repo_get_version u i = map_option pr_version (map_of (uw_operations u) i)"

definition stored_operations :: "provider_uow \<Rightarrow> ProviderOperation list" where
  "stored_operations u = map (pr_operation \<circ> snd) (uw_operations u)"

text \<open>\<open>min(matches, key=...)\<close>: the first of the smallest.\<close>

fun min_by :: "('a \<Rightarrow> 'k :: linorder) \<Rightarrow> 'a list \<Rightarrow> 'a option" where
  "min_by k [] = None"
| "min_by k (x # xs) = (case min_by k xs of None \<Rightarrow> Some x | Some y \<Rightarrow> if k y < k x then Some y else Some x)"

definition operation_key :: "ProviderOperation \<Rightarrow> string \<times> string" where
  "operation_key o' = (po_project_id o', po_idempotency_key o')"

definition repo_get_by_idempotency_key ::
  "provider_uow \<Rightarrow> string \<Rightarrow> string \<Rightarrow> ProviderOperation option" where
  "repo_get_by_idempotency_key u project_id key =
     min_by po_id (filter (\<lambda>o'. po_project_id o' = project_id \<and> po_idempotency_key o' = key)
       (stored_operations u))"

text \<open>Stored timestamps are aware; a naive one would not compare.\<close>

fun instant :: "datetime \<Rightarrow> int" where
  "instant (Aware i) = i"
| "instant (Naive i) = i"

definition repo_list_for_run :: "provider_uow \<Rightarrow> string \<Rightarrow> string \<Rightarrow> ProviderOperation list" where
  "repo_list_for_run u project_id run_id =
     sort_key (\<lambda>o'. (instant (po_created_at o'), po_id o'))
       (filter (\<lambda>o'. po_project_id o' = project_id \<and> po_workflow_run_id o' = run_id)
         (stored_operations u))"

definition repo_list_unsettled :: "provider_uow \<Rightarrow> string option \<Rightarrow> ProviderOperation list" where
  "repo_list_unsettled u project_id =
     sort_key (\<lambda>o'. (instant (po_updated_at o'), po_id o'))
       (filter (\<lambda>o'. po_settlement_state o' = Settle_UNSETTLED \<and>
           (project_id = None \<or> project_id = Some (po_project_id o')))
         (stored_operations u))"

section \<open>Saving\<close>

text \<open>The fields that a saved operation keeps for ever.\<close>

definition operation_identity where
  "operation_identity o' =
     (po_project_id o', po_workflow_run_id o', po_logical_step_id o', po_step_run_id o',
      po_provider_category o', po_operation_kind o', po_provider_identity o',
      po_adapter_version o', po_model_or_endpoint o', po_idempotency_key o',
      po_request_fingerprint o', po_reservation o', po_is_live_provider o', po_created_at o')"

definition check_insert :: "ProviderOperation \<Rightarrow> provider_uow \<Rightarrow> int res" where
  "check_insert o' u =
     (case map_of (uw_operations u) (po_id o') of
        Some current \<Rightarrow>
          Inl (StaleStateError (''ProviderOperation '' @ po_id o' @
            '' already exists at persistence version '' @ int_str (pr_version current)))
      | None \<Rightarrow>
          (case repo_get_by_idempotency_key u (po_project_id o') (po_idempotency_key o') of
             Some owner \<Rightarrow>
               if po_id owner \<noteq> po_id o' then
                 Inl (DuplicateEntityError
                   (''Provider operation idempotency key is already owned by ProviderOperation '' @
                    po_id owner))
               else Inr 1
           | None \<Rightarrow> Inr 1))"

definition check_update :: "ProviderOperation \<Rightarrow> int \<Rightarrow> provider_uow \<Rightarrow> int res" where
  "check_update o' expected u =
     (case map_of (uw_operations u) (po_id o') of
        None \<Rightarrow> Inl (StaleStateError (''ProviderOperation '' @ po_id o' @ '' does not exist''))
      | Some current \<Rightarrow>
          bindR (guardR (pr_version current \<noteq> expected)
            (StaleStateError (''ProviderOperation '' @ po_id o' @
              '' expected persistence version '' @ int_str expected @ ''; found '' @
              int_str (pr_version current))))
          (\<lambda>_. bindR (guardR (po_row_version o' \<noteq> po_row_version (pr_operation current) + 1)
            (StaleStateError (''ProviderOperation '' @ po_id o' @
              '' domain row version must advance from '' @
              int_str (po_row_version (pr_operation current)) @ '' to '' @
              int_str (po_row_version (pr_operation current) + 1))))
          (\<lambda>_. bindR (guardR (operation_identity (pr_operation current) \<noteq> operation_identity o')
            (DuplicateEntityError ''ProviderOperation immutable request identity cannot change''))
          (\<lambda>_. Inr (expected + 1)))))"

definition set_default :: "'k \<Rightarrow> 'v \<Rightarrow> ('k \<times> 'v) list \<Rightarrow> ('k \<times> 'v) list" where
  "set_default k v m = (if map_of m k = None then m @ [(k, v)] else m)"

definition repo_save :: "ProviderOperation \<Rightarrow> int option \<Rightarrow> (provider_uow, int) op" where
  "repo_save o' expected =
     bindE (readE (case expected of None \<Rightarrow> check_insert o' | Some v \<Rightarrow> check_update o' v))
     (\<lambda>next_version. thenE
       (modifyE (\<lambda>u. u\<lparr>uw_expected := set_default (po_id o') expected (uw_expected u)\<rparr>))
     (bindE (readE (\<lambda>_. provider_record_post_init \<lparr>pr_operation = o', pr_version = next_version\<rparr>))
     (\<lambda>r. thenE
       (modifyE (\<lambda>u. u\<lparr>uw_operations := AList.update (po_id o') r (uw_operations u),
                        uw_dirty := insert (po_id o') (uw_dirty u)\<rparr>))
       (returnE next_version))))"

section \<open>Committing\<close>

fun opt_int_str :: "int option \<Rightarrow> string" where
  "opt_int_str None = ''None''"
| "opt_int_str (Some n) = int_str n"

text \<open>\<open>self._provider_operation_expected[operation_id]\<close>\<close>

definition index_dict :: "(string \<times> 'v) list \<Rightarrow> string \<Rightarrow> 'v res" where
  "index_dict m k = (case map_of m k of None \<Rightarrow> Inl (PyKeyError k) | Some v \<Rightarrow> Inr v)"

fun validate_operations ::
  "provider_uow \<Rightarrow> operation_table \<Rightarrow> (string \<times> string \<Rightarrow> string option) \<Rightarrow> string list \<Rightarrow> unit res" where
  "validate_operations u db committed [] = Inr ()"
| "validate_operations u db committed (i # is) =
     bindR (index_dict (uw_expected u) i)
     (\<lambda>expected. let current_version = map_option pr_version (map_of db i) in
       bindR (guardR (current_version \<noteq> expected)
         (StaleStateError (''ProviderOperation '' @ i @ '' expected committed persistence version '' @
           opt_int_str expected @ ''; found '' @ opt_int_str current_version)))
     (\<lambda>_. bindR (index_dict (uw_operations u) i)
     (\<lambda>r. let key = operation_key (pr_operation r) in
       case committed key of
         Some owner \<Rightarrow>
           if owner \<noteq> i then
             Inl (DuplicateEntityError
               (''Provider operation idempotency key was concurrently claimed by ProviderOperation '' @
                owner))
           else validate_operations u db (committed(key \<mapsto> i)) is
       | None \<Rightarrow> validate_operations u db (committed(key \<mapsto> i)) is)))"

definition committed_idempotency :: "operation_table \<Rightarrow> string \<times> string \<Rightarrow> string option" where
  "committed_idempotency db =
     map_of (rev (map (\<lambda>(i, r). (operation_key (pr_operation r), i)) db))"

definition write_operation :: "provider_uow \<Rightarrow> string \<Rightarrow> (operation_table, unit) op" where
  "write_operation u i =
     bindE (readE (\<lambda>_. index_dict (uw_operations u) i)) (\<lambda>r. modifyE (AList.update i r))"

text \<open>\<open>commit\<close> on a pair of a unit of work and the database; an exception leaves the view.\<close>

definition uow_commit :: "string list \<Rightarrow> (provider_uow \<times> operation_table, unit) op" where
  "uow_commit order = (\<lambda>(u, db).
     case validate_operations u db (committed_idempotency db) order of
       Inl e \<Rightarrow> (Inl e, (u, db))
     | Inr _ \<Rightarrow>
         (case forE order (write_operation u) db of
            (Inl e, db') \<Rightarrow> (Inl e, (u, db'))
          | (Inr _, db') \<Rightarrow> (Inr (), (uow_refresh db', db'))))"

section \<open>Units of work over one database\<close>

record provider_store =
  ps_db :: operation_table
  ps_uows :: "nat \<Rightarrow> provider_uow option"

text \<open>
  A unit of work begins (or rolls back), saves with whatever arguments, or commits; the
  outcomes include the exceptions.
\<close>

inductive provider_step :: "provider_store \<Rightarrow> provider_store \<Rightarrow> bool" where
  begin_uow:
    "provider_step s (s\<lparr>ps_uows := (ps_uows s)(k \<mapsto> uow_refresh (ps_db s))\<rparr>)"
| save_in_uow:
    "ps_uows s k = Some u \<Longrightarrow>
     provider_step s (s\<lparr>ps_uows := (ps_uows s)(k \<mapsto> snd (repo_save o' expected u))\<rparr>)"
| commit_uow:
    "ps_uows s k = Some u \<Longrightarrow> set order = uw_dirty u \<Longrightarrow>
     uow_commit order (u, ps_db s) = (res, (u', db')) \<Longrightarrow>
     provider_step s (s\<lparr>ps_db := db', ps_uows := (ps_uows s)(k \<mapsto> u')\<rparr>)"

inductive provider_reachable :: "provider_store \<Rightarrow> bool" where
  empty_store: "provider_reachable \<lparr>ps_db = [], ps_uows = (\<lambda>_. None)\<rparr>"
| provider_steps: "provider_reachable s \<Longrightarrow> provider_step s s' \<Longrightarrow> provider_reachable s'"

section \<open>Reading lemmas\<close>

lemma min_by_None [simp]: "min_by k xs = None \<longleftrightarrow> xs = []"
  by (cases xs) (auto split: option.splits)

lemma min_by_in: "min_by k xs = Some x \<Longrightarrow> x \<in> set xs"
  by (induction xs arbitrary: x) (auto split: option.splits if_splits)

lemma stored_operations_iff:
  assumes "distinct (map fst (uw_operations u))"
  shows "o' \<in> set (stored_operations u) \<longleftrightarrow>
    (\<exists>i r. map_of (uw_operations u) i = Some r \<and> pr_operation r = o')"
  using assms by (force simp: stored_operations_def)

lemma get_by_key_None:
  "repo_get_by_idempotency_key u p k = None \<longleftrightarrow>
   (\<forall>o' \<in> set (stored_operations u). operation_key o' \<noteq> (p, k))"
  by (auto simp: repo_get_by_idempotency_key_def filter_empty_conv operation_key_def)

lemma get_by_key_Some:
  "repo_get_by_idempotency_key u p k = Some o' \<Longrightarrow>
   o' \<in> set (stored_operations u) \<and> operation_key o' = (p, k)"
  by (auto simp: repo_get_by_idempotency_key_def operation_key_def dest: min_by_in)

lemma map_of_set_default [simp]:
  "map_of (set_default k v m) = (if map_of m k = None then (map_of m)(k \<mapsto> v) else map_of m)"
  by (auto simp: set_default_def map_add_def fun_eq_iff split: option.splits)

lemma map_of_AList_update [simp]: "map_of (AList.update k v m) = (map_of m)(k \<mapsto> v)"
  by (simp add: update_conv')

lemma index_dict_Inr [simp]: "index_dict m k = Inr v \<longleftrightarrow> map_of m k = Some v"
  by (simp add: index_dict_def split: option.splits)

section \<open>Tables\<close>

text \<open>
  A table is keyed by the identifier, holds positive versions, and its idempotency keys
  have one owner.
\<close>

definition table_ok :: "operation_table \<Rightarrow> bool" where
  "table_ok t \<longleftrightarrow> distinct (map fst t) \<and>
     (\<forall>i r. map_of t i = Some r \<longrightarrow> po_id (pr_operation r) = i \<and> 0 < pr_version r) \<and>
     (\<forall>i j r r'. map_of t i = Some r \<longrightarrow> map_of t j = Some r' \<longrightarrow>
        operation_key (pr_operation r) = operation_key (pr_operation r') \<longrightarrow> i = j)"

lemma table_okD:
  assumes "table_ok t"
  shows "distinct (map fst t)"
    and "map_of t i = Some r \<Longrightarrow> po_id (pr_operation r) = i"
    and "map_of t i = Some r \<Longrightarrow> 0 < pr_version r"
    and "map_of t i = Some r \<Longrightarrow> map_of t j = Some r' \<Longrightarrow>
      operation_key (pr_operation r) = operation_key (pr_operation r') \<Longrightarrow> i = j"
  using assms unfolding table_ok_def by blast+

lemma table_ok_update:
  assumes "table_ok t" and "po_id (pr_operation r) = i" and "0 < pr_version r"
    and "\<And>j r'. map_of t j = Some r' \<Longrightarrow>
      operation_key (pr_operation r) = operation_key (pr_operation r') \<Longrightarrow> i = j"
  shows "table_ok (AList.update i r t)"
  using assms unfolding table_ok_def
  by (auto simp: distinct_update split: if_splits)

lemma table_ok_Nil [simp]: "table_ok []"
  by (simp add: table_ok_def)

text \<open>A later version of a record: the same request, both version numbers moved together.\<close>

definition later :: "ProviderOperationRecord \<Rightarrow> ProviderOperationRecord \<Rightarrow> bool" where
  "later r r' \<longleftrightarrow> operation_identity (pr_operation r) = operation_identity (pr_operation r') \<and>
     pr_version r < pr_version r' \<and>
     po_row_version (pr_operation r') - po_row_version (pr_operation r) = pr_version r' - pr_version r"

lemma later_trans: "later a b \<Longrightarrow> later b c \<Longrightarrow> later a c"
  by (simp add: later_def)

lemma identity_key:
  "operation_identity a = operation_identity b \<Longrightarrow> operation_key a = operation_key b"
  by (simp add: operation_identity_def operation_key_def)

definition evolves :: "operation_table \<Rightarrow> operation_table \<Rightarrow> bool" where
  "evolves d d' \<longleftrightarrow> (\<forall>i r. map_of d i = Some r \<longrightarrow>
     (\<exists>r'. map_of d' i = Some r' \<and> (r' = r \<or> later r r')))"

lemma evolves_refl [simp]: "evolves d d"
  by (auto simp: evolves_def)

lemma evolvesD:
  "evolves d d' \<Longrightarrow> map_of d i = Some r \<Longrightarrow> \<exists>r'. map_of d' i = Some r' \<and> (r' = r \<or> later r r')"
  by (simp add: evolves_def)

lemma evolves_trans: "evolves a b \<Longrightarrow> evolves b c \<Longrightarrow> evolves a c"
  unfolding evolves_def by (blast dest: later_trans)

section \<open>What a unit of work knows of the database\<close>

definition entry_ok ::
  "ProviderOperationRecord option \<Rightarrow> ProviderOperationRecord option \<Rightarrow> int option option \<Rightarrow> bool" where
  "entry_ok d v e = (case e of
       None \<Rightarrow> (\<forall>r. v = Some r \<longrightarrow> (\<exists>r0. d = Some r0 \<and> (r0 = r \<or> later r r0)))
     | Some None \<Rightarrow> v \<noteq> None
     | Some (Some n) \<Rightarrow> (\<exists>r r0. v = Some r \<and> d = Some r0 \<and> n \<le> pr_version r0 \<and>
         operation_identity (pr_operation r) = operation_identity (pr_operation r0) \<and>
         (n = pr_version r0 \<longrightarrow> later r0 r)))"

definition uow_ok :: "operation_table \<Rightarrow> provider_uow \<Rightarrow> bool" where
  "uow_ok db u \<longleftrightarrow> table_ok (uw_operations u) \<and> dom (map_of (uw_expected u)) = uw_dirty u \<and>
     (\<forall>i. entry_ok (map_of db i) (map_of (uw_operations u) i) (map_of (uw_expected u) i))"

lemma uow_okD:
  assumes "uow_ok db u"
  shows "table_ok (uw_operations u)"
    and "i \<in> uw_dirty u \<longleftrightarrow> map_of (uw_expected u) i \<noteq> None"
    and "entry_ok (map_of db i) (map_of (uw_operations u) i) (map_of (uw_expected u) i)"
  using assms by (auto simp: uow_ok_def dom_def)

lemma uow_refresh_ok: "table_ok db \<Longrightarrow> uow_ok db (uow_refresh db)"
  by (simp add: uow_ok_def uow_refresh_def entry_ok_def)

lemma entry_ok_evolves:
  assumes "entry_ok d v e" and "\<And>r. d = Some r \<Longrightarrow> \<exists>r'. d' = Some r' \<and> (r' = r \<or> later r r')"
  shows "entry_ok d' v e"
proof (cases e)
  case None
  with assms show ?thesis unfolding entry_ok_def by (auto; metis later_trans)
next
  case (Some n)
  show ?thesis
  proof (cases n)
    case None
    with Some assms(1) show ?thesis by (simp add: entry_ok_def)
  next
    case (Some m)
    with \<open>e = Some n\<close> assms(1) obtain r r0 where r: "v = Some r" "d = Some r0" "m \<le> pr_version r0"
        "operation_identity (pr_operation r) = operation_identity (pr_operation r0)"
        "m = pr_version r0 \<longrightarrow> later r0 r"
      by (auto simp: entry_ok_def)
    from assms(2) [OF r(2)] obtain r' where "d' = Some r'" "r' = r0 \<or> later r0 r'" by auto
    with r Some \<open>e = Some n\<close> show ?thesis by (auto simp: entry_ok_def later_def)
  qed
qed

lemma uow_ok_evolves: "uow_ok db u \<Longrightarrow> evolves db db' \<Longrightarrow> uow_ok db' u"
  unfolding uow_ok_def using entry_ok_evolves [OF _ evolvesD [of db db']] by blast

section \<open>Saving keeps the invariant\<close>

lemma check_insert_Inr:
  "check_insert o' u = Inr n \<longleftrightarrow> n = 1 \<and> map_of (uw_operations u) (po_id o') = None \<and>
     (\<forall>owner. repo_get_by_idempotency_key u (po_project_id o') (po_idempotency_key o') = Some owner \<longrightarrow>
        po_id owner = po_id o')"
  by (auto simp: check_insert_def split: option.splits)

lemma check_update_Inr:
  "check_update o' v u = Inr n \<longleftrightarrow> n = v + 1 \<and>
     (\<exists>r. map_of (uw_operations u) (po_id o') = Some r \<and> pr_version r = v \<and>
        later r \<lparr>pr_operation = o', pr_version = n\<rparr>)"
  by (auto simp: check_update_def bindR_Inr_iff later_def split: option.splits)

text \<open>A save raises and changes nothing, or stores the operation under the next version.\<close>

lemma repo_save_cases:
  assumes "table_ok (uw_operations u)"
  obtains (refused) e where "repo_save o' expected u = (Inl e, u)"
      "(case expected of None \<Rightarrow> check_insert o' u | Some v \<Rightarrow> check_update o' v u) = Inl e"
  | (stored) n u' where "repo_save o' expected u = (Inr n, u')"
      "(case expected of None \<Rightarrow> check_insert o' u | Some v \<Rightarrow> check_update o' v u) = Inr n" "0 < n"
      "u' = u\<lparr>uw_expected := set_default (po_id o') expected (uw_expected u),
              uw_operations := AList.update (po_id o') \<lparr>pr_operation = o', pr_version = n\<rparr> (uw_operations u),
              uw_dirty := insert (po_id o') (uw_dirty u)\<rparr>"
proof (cases "case expected of None \<Rightarrow> check_insert o' u | Some v \<Rightarrow> check_update o' v u")
  case (Inl e)
  then have "repo_save o' expected u = (Inl e, u)"
    by (cases expected) (simp_all add: repo_save_def op_simps)
  with Inl that(1) show ?thesis by blast
next
  case (Inr n)
  have "0 < n"
  proof (cases expected)
    case None
    with Inr show ?thesis by (simp add: check_insert_Inr)
  next
    case (Some v)
    with Inr obtain r where "n = v + 1" "map_of (uw_operations u) (po_id o') = Some r" "pr_version r = v"
      by (auto simp: check_update_Inr)
    with table_okD(3) [OF assms] show ?thesis by force
  qed
  have "repo_save o' expected u =
    (Inr n, u\<lparr>uw_expected := set_default (po_id o') expected (uw_expected u),
              uw_operations := AList.update (po_id o') \<lparr>pr_operation = o', pr_version = n\<rparr> (uw_operations u),
              uw_dirty := insert (po_id o') (uw_dirty u)\<rparr>)"
    using Inr \<open>0 < n\<close>
    by (cases expected)
      (simp_all add: repo_save_def op_simps provider_record_post_init_def guardR_def)
  with Inr \<open>0 < n\<close> that(2) show ?thesis by blast
qed

lemma save_table_ok:
  assumes ok: "table_ok (uw_operations u)"
    and chk: "(case expected of None \<Rightarrow> check_insert o' u | Some v \<Rightarrow> check_update o' v u) = Inr n"
    and "0 < n"
  shows "table_ok (AList.update (po_id o') \<lparr>pr_operation = o', pr_version = n\<rparr> (uw_operations u))"
proof (rule table_ok_update [OF ok])
  fix j r'
  assume j: "map_of (uw_operations u) j = Some r'"
    and key: "operation_key (pr_operation \<lparr>pr_operation = o', pr_version = n\<rparr>) =
      operation_key (pr_operation r')"
  show "po_id o' = j"
  proof (cases expected)
    case None
    have mem: "pr_operation r' \<in> set (stored_operations u)"
      using j stored_operations_iff [OF table_okD(1) [OF ok]] by blast
    obtain owner where owner: "repo_get_by_idempotency_key u (po_project_id o') (po_idempotency_key o') = Some owner"
      using mem key get_by_key_None [of u "po_project_id o'" "po_idempotency_key o'"]
      by (cases "repo_get_by_idempotency_key u (po_project_id o') (po_idempotency_key o')")
        (auto simp: operation_key_def)
    from get_by_key_Some [OF owner] stored_operations_iff [OF table_okD(1) [OF ok]]
    obtain i r where i: "map_of (uw_operations u) i = Some r" "pr_operation r = owner"
        "operation_key owner = operation_key o'"
      by (auto simp: operation_key_def)
    with chk None owner table_okD(2) [OF ok i(1)] have "po_id o' = i" by (auto simp: check_insert_Inr)
    with table_okD(4) [OF ok i(1) j] i key show ?thesis by simp
  next
    case (Some v)
    with chk obtain r where r: "map_of (uw_operations u) (po_id o') = Some r"
        "later r \<lparr>pr_operation = o', pr_version = n\<rparr>"
      by (auto simp: check_update_Inr)
    then have "operation_key (pr_operation r) = operation_key o'"
      by (auto simp: later_def dest: identity_key)
    with key table_okD(4) [OF ok r(1) j] show ?thesis by simp
  qed
qed (use \<open>0 < n\<close> in simp_all)

lemma save_entry_ok:
  assumes ok: "uow_ok db u"
    and chk: "(case expected of None \<Rightarrow> check_insert o' u | Some v \<Rightarrow> check_update o' v u) = Inr n"
  shows "entry_ok (map_of db (po_id o')) (Some \<lparr>pr_operation = o', pr_version = n\<rparr>)
    (map_of (set_default (po_id o') expected (uw_expected u)) (po_id o'))"
proof (cases expected)
  case None
  with chk have "map_of (uw_operations u) (po_id o') = None" by (simp add: check_insert_Inr)
  with uow_okD(3) [OF ok, of "po_id o'"] None show ?thesis
    by (auto simp: entry_ok_def split: option.splits)
next
  case (Some v)
  with chk obtain r where r: "map_of (uw_operations u) (po_id o') = Some r" "pr_version r = v"
      "later r \<lparr>pr_operation = o', pr_version = n\<rparr>"
    by (auto simp: check_update_Inr)
  note e = uow_okD(3) [OF ok, of "po_id o'", unfolded r(1)]
  show ?thesis
  proof (cases "map_of (uw_expected u) (po_id o')")
    case None
    with e obtain r0 where "map_of db (po_id o') = Some r0" "r0 = r \<or> later r r0"
      by (auto simp: entry_ok_def)
    with None r Some show ?thesis by (auto simp: entry_ok_def later_def)
  next
    case (Some w)
    show ?thesis
    proof (cases w)
      case None
      with Some show ?thesis by (simp add: entry_ok_def)
    next
      case (Some m)
      with e \<open>map_of (uw_expected u) (po_id o') = Some w\<close> obtain r0 where r0: "map_of db (po_id o') = Some r0"
          "m \<le> pr_version r0" "operation_identity (pr_operation r) = operation_identity (pr_operation r0)"
          "m = pr_version r0 \<longrightarrow> later r0 r"
        by (simp add: entry_ok_def) blast
      have "operation_identity o' = operation_identity (pr_operation r0)"
        using r0(3) r(3) by (simp add: later_def)
      moreover have "m = pr_version r0 \<longrightarrow> later r0 \<lparr>pr_operation = o', pr_version = n\<rparr>"
        using r0(4) r(3) later_trans by blast
      ultimately show ?thesis
        using Some r0(1,2) \<open>map_of (uw_expected u) (po_id o') = Some w\<close> by (simp add: entry_ok_def)
    qed
  qed
qed

lemma save_uow_ok:
  assumes ok: "uow_ok db u"
  shows "uow_ok db (snd (repo_save o' expected u))"
  using uow_okD(1) [OF ok]
proof (cases rule: repo_save_cases [where o' = o' and expected = expected])
  case (refused e)
  with ok show ?thesis by simp
next
  case (stored n u')
  have "table_ok (uw_operations u')"
    using save_table_ok [OF uow_okD(1) [OF ok] stored(2,3)] stored(4) by simp
  moreover have "dom (map_of (uw_expected u')) = uw_dirty u'"
    using ok stored(4) by (auto simp: uow_ok_def)
  moreover have "entry_ok (map_of db i) (map_of (uw_operations u') i) (map_of (uw_expected u') i)" for i
    using save_entry_ok [OF ok stored(2)] uow_okD(3) [OF ok, of i] stored(4)
    by (cases "i = po_id o'") auto
  ultimately show ?thesis using stored(1) by (simp add: uow_ok_def)
qed

section \<open>Committing keeps the invariant\<close>

lemma validate_operations_Inr:
  assumes "validate_operations u db cm order = Inr ()"
  shows "\<forall>i \<in> set order. \<exists>e r. map_of (uw_expected u) i = Some e \<and>
    map_of (uw_operations u) i = Some r \<and> map_option pr_version (map_of db i) = e"
  using assms
  by (induction order arbitrary: cm)
    (auto simp: bindR_Inr_iff Let_def split: option.splits if_splits)

lemma forE_write_operations:
  assumes "\<forall>i \<in> set order. map_of (uw_operations u) i \<noteq> None"
  shows "\<exists>db'. forE order (write_operation u) db = (Inr (), db') \<and>
    map_of db' = (\<lambda>i. if i \<in> set order then map_of (uw_operations u) i else map_of db i)"
  using assms
proof (induction order arbitrary: db)
  case Nil
  then show ?case by (simp add: returnE_def)
next
  case (Cons i order)
  then obtain r where r: "map_of (uw_operations u) i = Some r" by auto
  then have "write_operation u i db = (Inr (), AList.update i r db)"
    by (simp add: write_operation_def op_simps index_dict_def)
  moreover from Cons obtain db' where "forE order (write_operation u) (AList.update i r db) = (Inr (), db')"
      "map_of db' = (\<lambda>j. if j \<in> set order then map_of (uw_operations u) j else map_of (AList.update i r db) j)"
    by fastforce
  ultimately show ?case using r by (auto simp: op_simps)
qed

text \<open>While a commit writes, the map of claimed keys covers every written record.\<close>

lemma write_table_ok:
  assumes u: "table_ok (uw_operations u)"
    and "validate_operations u db0 cm order = Inr ()"
    and "table_ok db" and "\<And>i r. map_of db i = Some r \<Longrightarrow> cm (operation_key (pr_operation r)) = Some i"
    and "forE order (write_operation u) db = (Inr (), db')"
  shows "table_ok db'"
  using assms(2-)
proof (induction order arbitrary: cm db)
  case Nil
  then show ?case by (simp add: returnE_def)
next
  case (Cons i order)
  from Cons.prems(1) obtain r where r: "map_of (uw_operations u) i = Some r"
    by (auto simp: bindR_Inr_iff Let_def)
  define key where "key = operation_key (pr_operation r)"
  have free: "cm key = None \<or> cm key = Some i"
    and rest: "validate_operations u db0 (cm(key \<mapsto> i)) order = Inr ()"
    using Cons.prems(1) r
    by (auto simp: bindR_Inr_iff Let_def key_def split: option.splits if_splits)
  have w: "write_operation u i db = (Inr (), AList.update i r db)"
    using r by (simp add: write_operation_def op_simps index_dict_def)
  have other: "i = j" if "map_of db j = Some r'" "key = operation_key (pr_operation r')" for j r'
    using that Cons.prems(3) free by fastforce
  show ?case
  proof (rule Cons.IH [OF rest])
    show "table_ok (AList.update i r db)"
      using Cons.prems(2) table_okD(2,3) [OF u r] other
      by (intro table_ok_update) (auto simp: key_def)
    show "(cm(key \<mapsto> i)) (operation_key (pr_operation r')) = Some j"
      if "map_of (AList.update i r db) j = Some r'" for j r'
      using that Cons.prems(3) [of j r'] other [of j r']
      by (auto simp: key_def split: if_splits)
    show "forE order (write_operation u) (AList.update i r db) = (Inr (), db')"
      using Cons.prems(4) w by (simp add: op_simps)
  qed
qed

lemma committed_idempotency_owner:
  assumes "table_ok db" and "map_of db i = Some r"
  shows "committed_idempotency db (operation_key (pr_operation r)) = Some i"
proof -
  have mem: "(operation_key (pr_operation r), i) \<in> set (rev (map (\<lambda>(i, r). (operation_key (pr_operation r), i)) db))"
    using assms(2) by (force dest: map_of_SomeD)
  then obtain j where j: "committed_idempotency db (operation_key (pr_operation r)) = Some j"
    unfolding committed_idempotency_def using weak_map_of_SomeI [OF mem] by blast
  then obtain r' where "(j, r') \<in> set db" "operation_key (pr_operation r') = operation_key (pr_operation r)"
    by (auto simp: committed_idempotency_def dest!: map_of_SomeD)
  moreover from this table_okD(1) [OF assms(1)] have "map_of db j = Some r'" by simp
  ultimately show ?thesis using table_okD(4) [OF assms(1,2), of j r'] j by simp
qed

text \<open>
  A commit raises and changes nothing, or every dirty record still had the version the unit of
  work had read, and is now the committed one.
\<close>

lemma uow_commit_cases:
  obtains (refused) e where "uow_commit order (u, db) = (Inl e, (u, db))"
      "validate_operations u db (committed_idempotency db) order = Inl e"
  | (committed) db' where "uow_commit order (u, db) = (Inr (), (uow_refresh db', db'))"
      "validate_operations u db (committed_idempotency db) order = Inr ()"
      "forE order (write_operation u) db = (Inr (), db')"
      "map_of db' = (\<lambda>i. if i \<in> set order then map_of (uw_operations u) i else map_of db i)"
proof (cases "validate_operations u db (committed_idempotency db) order")
  case (Inl e)
  with that(1) show ?thesis by (simp add: uow_commit_def)
next
  case (Inr x)
  then have v: "validate_operations u db (committed_idempotency db) order = Inr ()" by simp
  from validate_operations_Inr [OF v]
  have "\<forall>i \<in> set order. map_of (uw_operations u) i \<noteq> None" by force
  from forE_write_operations [OF this] obtain db' where
    "forE order (write_operation u) db = (Inr (), db')"
    "map_of db' = (\<lambda>i. if i \<in> set order then map_of (uw_operations u) i else map_of db i)" by blast
  with v that(2) show ?thesis by (simp add: uow_commit_def)
qed

lemma commit_evolves:
  assumes ok: "uow_ok db u" and order: "set order = uw_dirty u"
    and v: "validate_operations u db (committed_idempotency db) order = Inr ()"
    and m: "map_of db' = (\<lambda>i. if i \<in> set order then map_of (uw_operations u) i else map_of db i)"
  shows "evolves db db'"
  unfolding evolves_def
proof (intro allI impI)
  fix i r0
  assume r0: "map_of db i = Some r0"
  show "\<exists>r'. map_of db' i = Some r' \<and> (r' = r0 \<or> later r0 r')"
  proof (cases "i \<in> set order")
    case False
    with m r0 show ?thesis by simp
  next
    case True
    with validate_operations_Inr [OF v] r0 obtain r where
      "map_of (uw_expected u) i = Some (Some (pr_version r0))" "map_of (uw_operations u) i = Some r"
      by force
    with uow_okD(3) [OF ok, of i] r0 have "later r0 r" by (simp add: entry_ok_def)
    with m True \<open>map_of (uw_operations u) i = Some r\<close> show ?thesis by simp
  qed
qed

section \<open>The invariant of the store\<close>

definition store_ok :: "provider_store \<Rightarrow> bool" where
  "store_ok s \<longleftrightarrow> table_ok (ps_db s) \<and> (\<forall>k u. ps_uows s k = Some u \<longrightarrow> uow_ok (ps_db s) u)"

lemma provider_step_ok:
  assumes "provider_step s s'" and "store_ok s"
  shows "store_ok s' \<and> evolves (ps_db s) (ps_db s')"
  using assms
proof (induction rule: provider_step.induct)
  case (begin_uow s k)
  then show ?case by (auto simp: store_ok_def uow_refresh_ok)
next
  case (save_in_uow s k u o' expected)
  then show ?case by (auto simp: store_ok_def intro: save_uow_ok)
next
  case (commit_uow s k u order res u' db')
  from commit_uow have db: "table_ok (ps_db s)" and u: "uow_ok (ps_db s) u"
    by (auto simp: store_ok_def)
  show ?case
  proof (cases rule: uow_commit_cases [of order u "ps_db s"])
    case (refused e)
    with commit_uow show ?thesis by (auto simp: store_ok_def)
  next
    case (committed d)
    with commit_uow have d: "db' = d" "u' = uow_refresh d" by auto
    have "table_ok d"
      by (rule write_table_ok [OF uow_okD(1) [OF u] committed(2) db committed_idempotency_owner [OF db] committed(3)])
    moreover have "evolves (ps_db s) d"
      by (rule commit_evolves [OF u commit_uow.hyps(2) committed(2,4)])
    ultimately show ?thesis using commit_uow.prems d
      by (auto simp: store_ok_def uow_refresh_ok intro: uow_ok_evolves)
  qed
qed

lemma provider_reachable_ok: "provider_reachable s \<Longrightarrow> store_ok s"
proof (induction rule: provider_reachable.induct)
  case empty_store
  then show ?case by (simp add: store_ok_def)
qed (blast dest: provider_step_ok)

end
