(* ===== verification/Provider_Budget.thy ===== *)
theory Provider_Budget
  imports Provider_Repository
begin

text \<open>
  The budget of provider calls, \<^verbatim>\<open>backend/research/services/budget.py\<close>: totals over the
  stored operations, the check before a reservation, and the service that reserves, starts
  and settles operations through the repository port
  (\<^verbatim>\<open>backend/persistence/ports/provider_operation_repository.py\<close>).
\<close>

section \<open>Totals\<close>

record BudgetTotals =
  bt_request_count :: int
  bt_llm_call_count :: int
  bt_input_tokens :: int
  bt_output_tokens :: int
  bt_cost_minor_units :: int

definition zero_totals :: BudgetTotals where
  "zero_totals = \<lparr>bt_request_count = 0, bt_llm_call_count = 0, bt_input_tokens = 0,
     bt_output_tokens = 0, bt_cost_minor_units = 0\<rparr>"

definition totals_plus :: "ProviderReservation \<Rightarrow> int \<Rightarrow> BudgetTotals \<Rightarrow> BudgetTotals" where
  "totals_plus v llm_call_count t =
     \<lparr>bt_request_count = bt_request_count t + pv_request_count v,
      bt_llm_call_count = bt_llm_call_count t + llm_call_count,
      bt_input_tokens = bt_input_tokens t + pv_input_tokens v,
      bt_output_tokens = bt_output_tokens t + pv_output_tokens v,
      bt_cost_minor_units = bt_cost_minor_units t + pv_cost_minor_units v\<rparr>"

text \<open>\<open>a or b\<close> on an optional text.\<close>

definition or_text :: "string option \<Rightarrow> string \<Rightarrow> string" where
  "or_text a b = (case a of None \<Rightarrow> b | Some s \<Rightarrow> if s = [] then b else s)"

definition accounted_amount :: "ProviderOperation \<Rightarrow> ProviderReservation res" where
  "accounted_amount o' =
     (if po_settlement_state o' = Settle_RELEASED then
        provider_reservation_post_init
          \<lparr>pv_request_count = 0, pv_input_tokens = 0, pv_output_tokens = 0, pv_cost_minor_units = 0,
           pv_cost_currency = pv_cost_currency (po_reservation o')\<rparr>
      else case po_actual_usage o' of
        None \<Rightarrow> Inr (po_reservation o')
      | Some u \<Rightarrow>
          provider_reservation_post_init
            \<lparr>pv_request_count = max (pv_request_count (po_reservation o')) (pu_request_count u),
             pv_input_tokens = (case pu_input_tokens u of
               None \<Rightarrow> pv_input_tokens (po_reservation o') | Some n \<Rightarrow> n),
             pv_output_tokens = (case pu_output_tokens u of
               None \<Rightarrow> pv_output_tokens (po_reservation o') | Some n \<Rightarrow> n),
             pv_cost_minor_units = (case pu_estimated_cost u of
               None \<Rightarrow> pv_cost_minor_units (po_reservation o') | Some n \<Rightarrow> n),
             pv_cost_currency = or_text (pu_cost_currency u) (pv_cost_currency (po_reservation o'))\<rparr>)"

definition llm_calls :: "ProviderCategory \<Rightarrow> ProviderReservation \<Rightarrow> int" where
  "llm_calls category v = (if category = Cat_LLM then pv_request_count v else 0)"

fun totals_loop :: "BudgetTotals \<Rightarrow> ProviderOperation list \<Rightarrow> BudgetTotals res" where
  "totals_loop t [] = Inr t"
| "totals_loop t (o' # os) =
     bindR (accounted_amount o')
     (\<lambda>amount. totals_loop (totals_plus amount (llm_calls (po_provider_category o') amount) t) os)"

definition totals :: "ProviderOperation list \<Rightarrow> BudgetTotals res" where
  "totals os = totals_loop zero_totals os"

text \<open>The table of checks, in order.\<close>

definition budget_checks :: "BudgetTotals \<Rightarrow> ProviderBudget \<Rightarrow> (string \<times> int \<times> int) list" where
  "budget_checks projected b =
     [(''provider_requests'', bt_request_count projected, pb_max_provider_requests b),
      (''llm_calls'', bt_llm_call_count projected, pb_max_llm_calls b),
      (''input_tokens'', bt_input_tokens projected, pb_max_input_tokens b),
      (''output_tokens'', bt_output_tokens projected, pb_max_output_tokens b),
      (''estimated_cost'', bt_cost_minor_units projected, pb_max_cost_minor_units b)]"

definition assert_can_reserve ::
  "ProviderBudget \<Rightarrow> ProviderOperation list \<Rightarrow> ProviderReservation \<Rightarrow> ProviderCategory \<Rightarrow> unit res" where
  "assert_can_reserve b os v category =
     bindR (guardR (pv_cost_currency v \<noteq> pb_cost_currency b) (BudgetExceededError ''cost_currency''))
     (\<lambda>_. bindR (totals os)
     (\<lambda>t. forR (budget_checks (totals_plus v (llm_calls category v) t) b)
       (\<lambda>(dimension, actual, limit). guardR (actual > limit) (BudgetExceededError dimension))))"

section \<open>The service\<close>

record 'u operation_port =
  port_save :: "ProviderOperation \<Rightarrow> int option \<Rightarrow> ('u, int) op"
  port_get :: "'u \<Rightarrow> string \<Rightarrow> ProviderOperation option"
  port_get_version :: "'u \<Rightarrow> string \<Rightarrow> int option"
  port_get_by_idempotency_key :: "'u \<Rightarrow> string \<Rightarrow> string \<Rightarrow> ProviderOperation option"
  port_list_for_run :: "'u \<Rightarrow> string \<Rightarrow> string \<Rightarrow> ProviderOperation list"
  port_list_unsettled :: "'u \<Rightarrow> string option \<Rightarrow> ProviderOperation list"

definition commit_staged :: "('u, unit) op option \<Rightarrow> ('u, unit) op" where
  "commit_staged callback = (case callback of
     None \<Rightarrow> raiseE (RuntimeErrorMsg ''ProviderOperationService has no durable commit callback'')
   | Some commit \<Rightarrow> commit)"

text \<open>The request of an operation, which a replay of its key must repeat.\<close>

definition request_identity where
  "request_identity o' =
     (po_request_fingerprint o', po_workflow_run_id o', po_logical_step_id o', po_step_run_id o',
      po_provider_category o', po_operation_kind o', po_provider_identity o', po_adapter_version o',
      po_model_or_endpoint o', po_reservation o', po_is_live_provider o')"

definition reserve ::
  "'u operation_port \<Rightarrow> ProviderBudget \<Rightarrow> ProviderOperation \<Rightarrow> ('u, ProviderOperation \<times> bool) op" where
  "reserve R b o' =
     thenE (guardE (\<lambda>_. po_status o' \<noteq> Prov_RESERVED)
       (\<lambda>_. ValueErrorMsg ''New provider operation must be RESERVED''))
     (bindE (getsE (\<lambda>u. port_get_by_idempotency_key R u (po_project_id o') (po_idempotency_key o')))
     (\<lambda>existing. case existing of
        Some e \<Rightarrow>
          if request_identity e \<noteq> request_identity o' then
            raiseE (DuplicateEntityError
              ''Provider operation idempotency key has conflicting request identity'')
          else returnE (e, True)
      | None \<Rightarrow>
          thenE (guardE (\<lambda>_. po_is_live_provider o' \<and> \<not> pb_live_provider_enabled b)
            (\<lambda>_. BudgetExceededError ''live_provider_disabled''))
          (bindE (getsE (\<lambda>u. port_list_for_run R u (po_project_id o') (po_workflow_run_id o')))
          (\<lambda>current. thenE
            (readE (\<lambda>_. assert_can_reserve b current (po_reservation o') (po_provider_category o')))
          (thenE (port_save R o' None) (returnE (o', False)))))))"

definition load_versioned :: "'u operation_port \<Rightarrow> string \<Rightarrow> 'u \<Rightarrow> (ProviderOperation \<times> int) res" where
  "load_versioned R i u =
     (case (port_get R u i, port_get_version R u i) of
        (Some o', Some v) \<Rightarrow> Inr (o', v)
      | _ \<Rightarrow> Inl (StaleStateError (''ProviderOperation '' @ i @ '' does not exist'')))"

text \<open>Load, change by a method of the operation, save under the loaded version.\<close>

definition change_operation ::
  "'u operation_port \<Rightarrow> string \<Rightarrow> (ProviderOperation \<Rightarrow> ProviderOperation res) \<Rightarrow> ('u, ProviderOperation) op" where
  "change_operation R i change =
     bindE (readE (load_versioned R i))
     (\<lambda>(o', v). bindE (readE (\<lambda>_. change o'))
     (\<lambda>updated. thenE (port_save R updated (Some v)) (returnE updated)))"

definition mark_running :: "'u operation_port \<Rightarrow> string \<Rightarrow> datetime \<Rightarrow> ('u, ProviderOperation) op" where
  "mark_running R i at_time = change_operation R i (operation_mark_running at_time)"

definition settle_success ::
  "'u operation_port \<Rightarrow> string \<Rightarrow> ProviderUsage \<Rightarrow> datetime \<Rightarrow> ('u, ProviderOperation) op" where
  "settle_success R i usage at_time = change_operation R i (operation_settle_success usage at_time)"

definition call_state_checks :: "bool \<Rightarrow> ProviderOperation \<Rightarrow> unit res" where
  "call_state_checks provider_call_started o' =
     bindR (guardR (provider_call_started \<and> po_status o' \<noteq> Prov_RUNNING)
       (ValueErrorMsg ''A started provider call must have a RUNNING reservation''))
     (\<lambda>_. guardR (\<not> provider_call_started \<and> po_status o' \<noteq> Prov_RESERVED)
       (ValueErrorMsg ''Only an unstarted RESERVED operation can release budget''))"

definition settle_failure ::
  "'u operation_port \<Rightarrow> string \<Rightarrow> ProviderFailureCategory \<Rightarrow> datetime \<Rightarrow> ProviderUsage option \<Rightarrow> bool \<Rightarrow>
   pymap option \<Rightarrow> ('u, ProviderOperation) op" where
  "settle_failure R i category at_time usage provider_call_started diagnostics =
     change_operation R i (\<lambda>o'. bindR (call_state_checks provider_call_started o')
       (\<lambda>_. operation_settle_failure category at_time usage (\<not> provider_call_started) diagnostics o'))"

definition cancel :: "'u operation_port \<Rightarrow> string \<Rightarrow> datetime \<Rightarrow> bool \<Rightarrow> ('u, ProviderOperation) op" where
  "cancel R i at_time provider_call_started =
     change_operation R i (\<lambda>o'. bindR (call_state_checks provider_call_started o')
       (\<lambda>_. operation_cancel at_time (\<not> provider_call_started) o'))"

text \<open>The calls a client makes of the service.\<close>

datatype provider_command =
    Reserve ProviderOperation
  | MarkRunning string datetime
  | SettleSuccess string ProviderUsage datetime
  | SettleFailure string ProviderFailureCategory datetime "ProviderUsage option" bool "pymap option"
  | Cancel string datetime bool

fun provider_command_op :: "'u operation_port \<Rightarrow> ProviderBudget \<Rightarrow> provider_command \<Rightarrow> ('u, ProviderOperation) op" where
  "provider_command_op R b (Reserve o') = bindE (reserve R b o') (\<lambda>(p, _). returnE p)"
| "provider_command_op R b (MarkRunning i t) = mark_running R i t"
| "provider_command_op R b (SettleSuccess i usage t) = settle_success R i usage t"
| "provider_command_op R b (SettleFailure i c t usage started d) = settle_failure R i c t usage started d"
| "provider_command_op R b (Cancel i t started) = cancel R i t started"

fun provider_commands :: "'u operation_port \<Rightarrow> ProviderBudget \<Rightarrow> provider_command list \<Rightarrow> 'u \<Rightarrow> 'u" where
  "provider_commands R b [] u = u"
| "provider_commands R b (c # cs) u = provider_commands R b cs (snd (provider_command_op R b c u))"

section \<open>Charges\<close>

text \<open>What an operation counts for in each dimension of the budget.\<close>

datatype dimension = Requests | Llm_Calls | Input_Tokens | Output_Tokens | Cost

definition dimensions :: "dimension list" where
  "dimensions = [Requests, Llm_Calls, Input_Tokens, Output_Tokens, Cost]"

fun amount_in :: "dimension \<Rightarrow> ProviderCategory \<Rightarrow> ProviderReservation \<Rightarrow> int" where
  "amount_in Requests c v = pv_request_count v"
| "amount_in Llm_Calls c v = llm_calls c v"
| "amount_in Input_Tokens c v = pv_input_tokens v"
| "amount_in Output_Tokens c v = pv_output_tokens v"
| "amount_in Cost c v = pv_cost_minor_units v"

fun limit_in :: "dimension \<Rightarrow> ProviderBudget \<Rightarrow> int" where
  "limit_in Requests b = pb_max_provider_requests b"
| "limit_in Llm_Calls b = pb_max_llm_calls b"
| "limit_in Input_Tokens b = pb_max_input_tokens b"
| "limit_in Output_Tokens b = pb_max_output_tokens b"
| "limit_in Cost b = pb_max_cost_minor_units b"

fun total_in :: "dimension \<Rightarrow> BudgetTotals \<Rightarrow> int" where
  "total_in Requests t = bt_request_count t"
| "total_in Llm_Calls t = bt_llm_call_count t"
| "total_in Input_Tokens t = bt_input_tokens t"
| "total_in Output_Tokens t = bt_output_tokens t"
| "total_in Cost t = bt_cost_minor_units t"

definition charge :: "dimension \<Rightarrow> ProviderOperation \<Rightarrow> int" where
  "charge d o' = (case accounted_amount o' of
     Inl _ \<Rightarrow> 0 | Inr amount \<Rightarrow> amount_in d (po_provider_category o') amount)"

definition spent :: "dimension \<Rightarrow> ProviderOperation list \<Rightarrow> int" where
  "spent d os = (\<Sum>o' \<leftarrow> os. charge d o')"

definition reservation_ok :: "ProviderReservation \<Rightarrow> bool" where
  "reservation_ok v \<longleftrightarrow> provider_reservation_post_init v = Inr v"

text \<open>An operation whose reservation and usage came out of their constructors.\<close>

definition amounts_ok :: "ProviderOperation \<Rightarrow> bool" where
  "amounts_ok o' \<longleftrightarrow> reservation_ok (po_reservation o') \<and> operation_usage_checks o' = Inr () \<and>
     (case po_actual_usage o' of None \<Rightarrow> True | Some u \<Rightarrow> provider_usage_post_init u = Inr u)"

definition fresh_operation :: "ProviderOperation \<Rightarrow> bool" where
  "fresh_operation o' \<longleftrightarrow> provider_operation_post_init o' = Inr o' \<and> reservation_ok (po_reservation o') \<and>
     po_status o' = Prov_RESERVED \<and> po_settlement_state o' = Settle_UNSETTLED \<and> po_actual_usage o' = None"

definition usage_within :: "ProviderUsage \<Rightarrow> ProviderReservation \<Rightarrow> bool" where
  "usage_within u v \<longleftrightarrow> pu_request_count u \<le> pv_request_count v \<and>
     (case pu_input_tokens u of None \<Rightarrow> True | Some n \<Rightarrow> n \<le> pv_input_tokens v) \<and>
     (case pu_output_tokens u of None \<Rightarrow> True | Some n \<Rightarrow> n \<le> pv_output_tokens v) \<and>
     (case pu_estimated_cost u of None \<Rightarrow> True | Some n \<Rightarrow> n \<le> pv_cost_minor_units v)"

lemma dimensions_all: "d \<in> set dimensions"
  by (cases d) (simp_all add: dimensions_def)

lemma total_in_plus [simp]:
  "total_in d (totals_plus v (llm_calls c v) t) = total_in d t + amount_in d c v"
  by (cases d) (simp_all add: totals_plus_def)

lemma total_in_zero [simp]: "total_in d zero_totals = 0"
  by (cases d) (simp_all add: zero_totals_def)

lemma spent_simps [simp]: "spent d [] = 0" "spent d (o' # os) = charge d o' + spent d os"
  by (simp_all add: spent_def)

lemma totals_loop_spent: "totals_loop t os = Inr t' \<Longrightarrow> total_in d t' = total_in d t + spent d os"
  by (induction os arbitrary: t) (auto simp: bindR_Inr_iff charge_def)

lemma totals_spent: "totals os = Inr t \<Longrightarrow> total_in d t = spent d os"
  by (auto simp: totals_def dest: totals_loop_spent [where d = d])

lemma reservation_okD:
  assumes "reservation_ok v"
  shows "0 \<le> amount_in d c v" and "py_strip (pv_cost_currency v) \<noteq> []"
  using assms
  by (cases d; auto simp: reservation_ok_def provider_reservation_post_init_def bindR_Inr_iff
      contract_non_empty_def llm_calls_def)+

lemma reservation_post_init_Inr:
  "provider_reservation_post_init v = Inr w \<Longrightarrow> w = v \<and> reservation_ok v"
  by (auto simp: reservation_ok_def provider_reservation_post_init_def bindR_Inr_iff)

lemma accounted_nonneg:
  assumes "reservation_ok (po_reservation o')" and "accounted_amount o' = Inr a"
  shows "reservation_ok a"
  using assms by (auto simp: accounted_amount_def split: if_splits option.splits
      dest: reservation_post_init_Inr)

lemma charge_nonneg: "reservation_ok (po_reservation o') \<Longrightarrow> 0 \<le> charge d o'"
  by (auto simp: charge_def accounted_nonneg reservation_okD split: sum.splits)

lemma reservation_post_init_ok:
  "0 \<le> pv_request_count v \<Longrightarrow> 0 \<le> pv_input_tokens v \<Longrightarrow> 0 \<le> pv_output_tokens v \<Longrightarrow>
   0 \<le> pv_cost_minor_units v \<Longrightarrow> py_strip (pv_cost_currency v) \<noteq> [] \<Longrightarrow>
   provider_reservation_post_init v = Inr v"
  by (simp add: provider_reservation_post_init_def contract_non_empty_def guardR_def)

lemma usage_post_initD:
  assumes "provider_usage_post_init u = Inr u'"
  shows "0 \<le> pu_request_count u" and "pu_input_tokens u = Some n \<Longrightarrow> 0 \<le> n"
    and "pu_output_tokens u = Some n \<Longrightarrow> 0 \<le> n" and "pu_estimated_cost u = Some n \<Longrightarrow> 0 \<le> n"
  using assms by (auto simp: provider_usage_post_init_def bindR_Inr_iff negative_def)

lemma accounted_total:
  assumes "amounts_ok o'"
  shows "\<exists>a. accounted_amount o' = Inr a"
proof -
  have r: "reservation_ok (po_reservation o')" using assms by (simp add: amounts_ok_def)
  note n = reservation_okD(1) [OF r, of Requests] reservation_okD(1) [OF r, of Input_Tokens]
    reservation_okD(1) [OF r, of Output_Tokens] reservation_okD(1) [OF r, of Cost]
    reservation_okD(2) [OF r]
  show ?thesis
  proof (cases "po_actual_usage o'")
    case None
    then show ?thesis using n by (simp add: accounted_amount_def reservation_post_init_ok)
  next
    case (Some u)
    then have u: "provider_usage_post_init u = Inr u" and "operation_usage_checks o' = Inr ()"
      using assms by (simp_all add: amounts_ok_def)
    then have "py_strip (or_text (pu_cost_currency u) (pv_cost_currency (po_reservation o'))) \<noteq> []"
      using Some n(5) by (auto simp: operation_usage_checks_def bindR_Inr_iff or_text_def split: option.splits)
    with Some n usage_post_initD [OF u] show ?thesis
      by (auto simp: accounted_amount_def reservation_post_init_ok split: option.splits)
  qed
qed

lemma totals_total:
  assumes "\<forall>o' \<in> set os. amounts_ok o'"
  shows "\<exists>t. totals os = Inr t"
proof -
  from assms have "\<exists>t'. totals_loop t os = Inr t'" for t
    by (induction os arbitrary: t) (fastforce dest: accounted_total)+
  then show ?thesis by (simp add: totals_def)
qed

text \<open>The check passes exactly when every dimension fits.\<close>

definition fits :: "ProviderBudget \<Rightarrow> ProviderOperation list \<Rightarrow> ProviderOperation \<Rightarrow> bool" where
  "fits b os o' \<longleftrightarrow> pv_cost_currency (po_reservation o') = pb_cost_currency b \<and>
     list_all (\<lambda>d. spent d os + amount_in d (po_provider_category o') (po_reservation o') \<le> limit_in d b)
       dimensions"

lemma budget_checks_forR:
  assumes "totals os = Inr t"
  shows "forR (budget_checks (totals_plus v (llm_calls c v) t) b)
      (\<lambda>(dimension, actual, limit). guardR (actual > limit) (BudgetExceededError dimension)) = Inr () \<longleftrightarrow>
    (\<forall>d. spent d os + amount_in d c v \<le> limit_in d b)"
proof -
  have "(\<forall>d. P d) \<longleftrightarrow> P Requests \<and> P Llm_Calls \<and> P Input_Tokens \<and> P Output_Tokens \<and> P Cost" for P
    by (metis dimension.exhaust)
  note all = this
  show ?thesis
    using totals_spent [OF assms, of Requests] totals_spent [OF assms, of Llm_Calls]
      totals_spent [OF assms, of Input_Tokens] totals_spent [OF assms, of Output_Tokens]
      totals_spent [OF assms, of Cost]
    by (auto simp: budget_checks_def totals_plus_def bindR_Inr_iff all not_less)
qed

lemma assert_can_reserve_Inr:
  "assert_can_reserve b os (po_reservation o') (po_provider_category o') = Inr () \<longleftrightarrow>
   fits b os o' \<and> (\<exists>t. totals os = Inr t)"
  using dimensions_all
  by (auto simp: assert_can_reserve_def bindR_Inr_iff budget_checks_forR fits_def list_all_iff)

lemma assert_can_reserve_Inl:
  assumes "assert_can_reserve b os v c = Inl e" and "\<forall>o' \<in> set os. amounts_ok o'"
  shows "\<exists>d. e = BudgetExceededError d"
  using assms(1) totals_total [OF assms(2)]
  by (auto simp: assert_can_reserve_def bindR_Inl_iff guardR_Inl_iff dest!: forR_Inl)

section \<open>Changes of an operation\<close>

lemma same_request_simps:
  assumes "operation_identity a = operation_identity b"
  shows "po_reservation a = po_reservation b" and "po_provider_category a = po_provider_category b"
    and "po_project_id a = po_project_id b" and "po_workflow_run_id a = po_workflow_run_id b"
    and "operation_key a = operation_key b" and "po_created_at a = po_created_at b"
  using assms by (simp_all add: operation_identity_def operation_key_def)

text \<open>
  \<open>advances o1 o'\<close>: \<open>o1\<close> is the operation \<open>o'\<close>, not terminal, one method call later.
\<close>

definition advances :: "ProviderOperation \<Rightarrow> ProviderOperation \<Rightarrow> bool" where
  "advances o' o1 \<longleftrightarrow> \<not> provider_is_terminal (po_status o') \<and> po_id o1 = po_id o' \<and>
     operation_identity o1 = operation_identity o' \<and> po_row_version o1 = po_row_version o' + 1 \<and>
     operation_status_checks o1 = Inr ()"

lemma advances_post_init:
  assumes "provider_operation_post_init o2 = Inr o1" and "\<not> provider_is_terminal (po_status o')"
    and "po_id o2 = po_id o'" and "operation_identity o2 = operation_identity o'"
    and "po_row_version o2 = po_row_version o' + 1"
  shows "advances o' o1"
proof -
  from provider_operation_post_init_Inr(1) [OF assms(1)] obtain m where
    "o1 = o2\<lparr>po_diagnostic_metadata := m\<rparr>" by blast
  with assms provider_operation_post_init_Inr(2) [OF assms(1)] show ?thesis
    by (simp add: advances_def operation_identity_def operation_status_checks_def)
qed

lemma operation_mark_running_Inr:
  assumes "operation_mark_running t o' = Inr o1"
  shows "advances o' o1" and "po_status o1 = Prov_RUNNING"
    and "po_actual_usage o1 = po_actual_usage o'" and "po_settlement_state o1 = po_settlement_state o'"
proof -
  from assms have s: "po_status o' = Prov_RESERVED" and
    p: "provider_operation_post_init
       (o'\<lparr>po_status := Prov_RUNNING, po_started_at := Some t, po_updated_at := t,
           po_row_version := po_row_version o' + 1\<rparr>) = Inr o1"
    by (auto simp: operation_mark_running_def bindR_Inr_iff)
  from p show "advances o' o1"
    by (rule advances_post_init) (simp_all add: s operation_identity_def)
  from provider_operation_post_init_Inr(1) [OF p]
  show "po_status o1 = Prov_RUNNING" "po_actual_usage o1 = po_actual_usage o'"
    "po_settlement_state o1 = po_settlement_state o'" by auto
qed

lemma operation_settle_success_Inr:
  assumes "operation_settle_success usage t o' = Inr o1"
  shows "advances o' o1" and "po_status o1 = Prov_SUCCEEDED" and "po_actual_usage o1 = Some usage"
proof -
  from assms have s: "po_status o' = Prov_RUNNING" and
    p: "provider_operation_post_init
       (o'\<lparr>po_status := Prov_SUCCEEDED, po_settlement_state := Settle_SETTLED,
           po_actual_usage := Some usage, po_retry_count := pu_retry_count usage,
           po_failure_category := None, po_updated_at := t,
           po_finished_at := Some t, po_row_version := po_row_version o' + 1\<rparr>) = Inr o1"
    by (auto simp: operation_settle_success_def bindR_Inr_iff)
  from p show "advances o' o1"
    by (rule advances_post_init) (simp_all add: s operation_identity_def)
  from provider_operation_post_init_Inr(1) [OF p]
  show "po_status o1 = Prov_SUCCEEDED" "po_actual_usage o1 = Some usage" by auto
qed

lemma operation_settle_failure_Inr:
  assumes "operation_settle_failure c t usage release d o' = Inr o1"
  shows "advances o' o1" and "po_status o1 = Prov_FAILED" and "po_actual_usage o1 = usage"
proof -
  from assms have s: "po_status o' \<in> {Prov_RESERVED, Prov_RUNNING}" and
    p: "provider_operation_post_init
       (o'\<lparr>po_status := Prov_FAILED,
           po_settlement_state := (if release \<and> usage = None then Settle_RELEASED else Settle_SETTLED),
           po_actual_usage := usage,
           po_retry_count := (case usage of None \<Rightarrow> po_retry_count o' | Some u \<Rightarrow> pu_retry_count u),
           po_failure_category := Some c,
           po_diagnostic_metadata := (case d of None \<Rightarrow> [] | Some m \<Rightarrow> m),
           po_updated_at := t, po_finished_at := Some t,
           po_row_version := po_row_version o' + 1\<rparr>) = Inr o1"
    by (auto simp: operation_settle_failure_def bindR_Inr_iff)
  from p show "advances o' o1"
    by (rule advances_post_init) (use s in \<open>auto simp: operation_identity_def\<close>)
  from provider_operation_post_init_Inr(1) [OF p]
  show "po_status o1 = Prov_FAILED" "po_actual_usage o1 = usage" by auto
qed

lemma operation_cancel_Inr:
  assumes "operation_cancel t release o' = Inr o1"
  shows "advances o' o1" and "po_status o1 = Prov_CANCELLED" and "po_actual_usage o1 = po_actual_usage o'"
proof -
  from assms have s: "\<not> provider_is_terminal (po_status o')" and
    p: "provider_operation_post_init
       (o'\<lparr>po_status := Prov_CANCELLED,
           po_settlement_state := (if release then Settle_RELEASED else Settle_SETTLED),
           po_failure_category := Some Fail_CANCELLED, po_updated_at := t,
           po_finished_at := Some t, po_row_version := po_row_version o' + 1\<rparr>) = Inr o1"
    by (auto simp: operation_cancel_def bindR_Inr_iff)
  from p show "advances o' o1"
    by (rule advances_post_init) (use s in \<open>simp_all add: operation_identity_def\<close>)
  from provider_operation_post_init_Inr(1) [OF p]
  show "po_status o1 = Prov_CANCELLED" "po_actual_usage o1 = po_actual_usage o'" by auto
qed

lemma charge_unsettled:
  "po_actual_usage o' = None \<Longrightarrow> po_settlement_state o' \<noteq> Settle_RELEASED \<Longrightarrow>
   charge d o' = amount_in d (po_provider_category o') (po_reservation o')"
  by (simp add: charge_def accounted_amount_def)

text \<open>Within its reservation an operation is charged at most the reservation.\<close>

lemma charge_le_reservation:
  assumes "reservation_ok (po_reservation o')"
    and "\<And>u. po_actual_usage o' = Some u \<Longrightarrow> usage_within u (po_reservation o')"
  shows "charge d o' \<le> amount_in d (po_provider_category o') (po_reservation o')"
proof (cases "accounted_amount o'")
  case (Inl e)
  with reservation_okD(1) [OF assms(1)] show ?thesis by (simp add: charge_def)
next
  case (Inr a)
  show ?thesis
  proof (cases "po_settlement_state o' = Settle_RELEASED")
    case True
    with Inr have "amount_in d (po_provider_category o') a = 0"
      by (cases d) (auto simp: accounted_amount_def llm_calls_def dest!: reservation_post_init_Inr)
    with Inr reservation_okD(1) [OF assms(1)] show ?thesis by (simp add: charge_def)
  next
    case settled: False
    show ?thesis
    proof (cases "po_actual_usage o'")
      case None
      with settled show ?thesis by (simp add: charge_unsettled)
    next
      case (Some u)
      with Inr settled assms(2) [OF Some] show ?thesis
        by (cases d) (auto simp: charge_def accounted_amount_def usage_within_def llm_calls_def
            dest!: reservation_post_init_Inr split: option.splits)
    qed
  qed
qed

end
