(* ===== verification/Provider_Service.thy ===== *)
theory Provider_Service
  imports Provider_Budget
begin

text \<open>
  What the provider operation service guarantees over any repository that keeps the laws of
  the locale \<open>operation_repository\<close>: requests never change, terminal operations never
  change, a key is reserved once, and the budget holds. The locale is interpreted on the
  in-memory adapter of \<^verbatim>\<open>Provider_Repository\<close>.
\<close>

section \<open>The repository the service relies on\<close>

text \<open>The abstract content of a repository: operations with their versions.\<close>

type_synonym operation_view = "string \<Rightarrow> (ProviderOperation \<times> int) option"

definition run_operations :: "operation_view \<Rightarrow> string \<Rightarrow> string \<Rightarrow> ProviderOperation set" where
  "run_operations m p r =
     {o'. \<exists>i v. m i = Some (o', v) \<and> po_project_id o' = p \<and> po_workflow_run_id o' = r}"

text \<open>Nothing is spent above the budget, and open operations hold nothing but their reservation.\<close>

definition open_ok :: "ProviderOperation \<Rightarrow> bool" where
  "open_ok o' \<longleftrightarrow> reservation_ok (po_reservation o') \<and> (\<not> provider_is_terminal (po_status o') \<longrightarrow>
     po_actual_usage o' = None \<and> po_settlement_state o' = Settle_UNSETTLED)"

definition within_budget :: "ProviderBudget \<Rightarrow> operation_view \<Rightarrow> bool" where
  "within_budget b m \<longleftrightarrow> (\<forall>i o' v. m i = Some (o', v) \<longrightarrow> open_ok o') \<and>
     (\<forall>p r d. (\<Sum>o' \<in> run_operations m p r. charge d o') \<le> limit_in d b)"

text \<open>What a client must observe: new operations are new, and usage stays in its reservation.\<close>

fun command_ok :: "operation_view \<Rightarrow> provider_command \<Rightarrow> bool" where
  "command_ok m (Reserve o') = fresh_operation o'"
| "command_ok m (SettleSuccess i usage t) =
     (case m i of None \<Rightarrow> True | Some (o', v) \<Rightarrow> usage_within usage (po_reservation o'))"
| "command_ok m (SettleFailure i c t usage started d) =
     (case (m i, usage) of (Some (o', v), Some u) \<Rightarrow> usage_within u (po_reservation o') | _ \<Rightarrow> True)"
| "command_ok m _ = True"

definition view_ok :: "operation_view \<Rightarrow> bool" where
  "view_ok m \<longleftrightarrow> finite (dom m) \<and> (\<forall>i o' v. m i = Some (o', v) \<longrightarrow> po_id o' = i)"

lemma run_operations_finite: "view_ok m \<Longrightarrow> finite (run_operations m p r)"
proof -
  assume "view_ok m"
  then have "finite (ran m)" by (simp add: view_ok_def finite_ran)
  moreover have "run_operations m p r \<subseteq> fst ` ran m"
    by (force simp: run_operations_def ran_def)
  ultimately show ?thesis by (meson finite_imageI finite_subset)
qed

lemma in_run_operations:
  "view_ok m \<Longrightarrow> x \<in> run_operations m p r \<longleftrightarrow>
    (\<exists>v. m (po_id x) = Some (x, v)) \<and> po_project_id x = p \<and> po_workflow_run_id x = r"
  by (auto simp: run_operations_def view_ok_def)

lemma view_ok_upd: "view_ok m \<Longrightarrow> view_ok (m(po_id o' \<mapsto> (o', n)))"
  by (simp add: view_ok_def)

lemma run_operations_insert:
  assumes "view_ok m" and "m (po_id o') = None"
  shows "run_operations (m(po_id o' \<mapsto> (o', n))) p r =
    (if po_project_id o' = p \<and> po_workflow_run_id o' = r then insert o' (run_operations m p r)
     else run_operations m p r)"
proof (rule set_eqI)
  fix x
  show "x \<in> run_operations (m(po_id o' \<mapsto> (o', n))) p r \<longleftrightarrow> x \<in>
    (if po_project_id o' = p \<and> po_workflow_run_id o' = r then insert o' (run_operations m p r)
     else run_operations m p r)"
    using assms(2)
    by (cases "po_id x = po_id o'") (auto simp: in_run_operations [OF assms(1)]
      in_run_operations [OF view_ok_upd [OF assms(1)]])
qed

lemma run_operations_replace:
  assumes "view_ok m" and "m i = Some (old, v)" and "po_id new = i"
    and "operation_identity new = operation_identity old"
  shows "run_operations (m(i \<mapsto> (new, n))) p r =
    (if po_project_id old = p \<and> po_workflow_run_id old = r then insert new (run_operations m p r - {old})
     else run_operations m p r)"
proof -
  have old: "po_id old = i" using assms(1,2) by (simp add: view_ok_def)
  have ok: "view_ok (m(i \<mapsto> (new, n)))" using assms(1,3) view_ok_upd by blast
  show ?thesis
  proof (rule set_eqI)
    fix x
    show "x \<in> run_operations (m(i \<mapsto> (new, n))) p r \<longleftrightarrow> x \<in>
      (if po_project_id old = p \<and> po_workflow_run_id old = r then insert new (run_operations m p r - {old})
       else run_operations m p r)"
      using assms(2,3) same_request_simps(3,4) [OF assms(4)] old
      by (cases "po_id x = i") (auto simp: in_run_operations [OF ok] in_run_operations [OF assms(1)])
  qed
qed

lemma replace_charges_less:
  assumes m: "view_ok m" "m i = Some (old, v)" and new: "po_id new = i"
    "operation_identity new = operation_identity old" and le: "charge d new \<le> charge d old"
  shows "(\<Sum>o' \<in> run_operations (m(i \<mapsto> (new, n))) p r. charge d o') \<le>
    (\<Sum>o' \<in> run_operations m p r. charge d o')"
proof (cases "po_project_id old = p \<and> po_workflow_run_id old = r")
  case False
  then have "run_operations (m(i \<mapsto> (new, n))) p r = run_operations m p r"
    by (simp only: run_operations_replace [OF m new] if_False)
  then show ?thesis by simp
next
  case True
  let ?S = "run_operations m p r"
  have fin: "finite ?S" using m(1) by (rule run_operations_finite)
  have "old \<in> ?S" using m(2) True by (auto simp: run_operations_def)
  have "new \<notin> ?S - {old}"
    using m new(1) by (auto simp: in_run_operations)
  then have "(\<Sum>o' \<in> insert new (?S - {old}). charge d o') = charge d new + (\<Sum>o' \<in> ?S - {old}. charge d o')"
    using fin by simp
  also have "\<dots> \<le> (\<Sum>o' \<in> ?S. charge d o')"
    using le sum.remove [OF fin \<open>old \<in> ?S\<close>, of "charge d"] by simp
  finally show ?thesis using True run_operations_replace [OF m new] by simp
qed

lemma within_budget_replace:
  assumes b: "within_budget b m" and m: "view_ok m" "m i = Some (old, v)"
    and new: "po_id new = i" "operation_identity new = operation_identity old" "open_ok new"
    and le: "\<And>d. charge d new \<le> charge d old"
  shows "within_budget b (m(i \<mapsto> (new, n)))"
proof -
  have "(\<Sum>x \<in> run_operations (m(i \<mapsto> (new, n))) p r. charge d x) \<le> limit_in d b" for p r d
    using order_trans [OF replace_charges_less [OF m new(1,2) le]] b unfolding within_budget_def by blast
  with b new(3) show ?thesis by (simp add: within_budget_def)
qed

lemma within_budget_insert:
  assumes b: "within_budget b m" and m: "view_ok m" "m (po_id o') = None" and "open_ok o'"
    and le: "\<And>d. (\<Sum>x \<in> run_operations m (po_project_id o') (po_workflow_run_id o'). charge d x) +
      charge d o' \<le> limit_in d b"
  shows "within_budget b (m(po_id o' \<mapsto> (o', n)))"
proof -
  have "o' \<notin> run_operations m p r" for p r
    using m by (simp add: in_run_operations)
  then have "(\<Sum>x \<in> run_operations (m(po_id o' \<mapsto> (o', n))) p r. charge d x) \<le> limit_in d b" for p r d
    using b le [of d] run_operations_finite [OF m(1)]
    by (auto simp: run_operations_insert [OF m] within_budget_def add.commute)
  with b \<open>open_ok o'\<close> show ?thesis by (simp add: within_budget_def)
qed

fun commands_ok ::
  "'u operation_port \<Rightarrow> ('u \<Rightarrow> operation_view) \<Rightarrow> ProviderBudget \<Rightarrow> provider_command list \<Rightarrow> 'u \<Rightarrow> bool" where
  "commands_ok R view b [] u \<longleftrightarrow> True"
| "commands_ok R view b (c # cs) u \<longleftrightarrow>
     command_ok (view u) c \<and> commands_ok R view b cs (snd (provider_command_op R b c u))"

text \<open>The change a command makes to the operation it names.\<close>

fun command_change :: "provider_command \<Rightarrow> ProviderOperation \<Rightarrow> ProviderOperation res" where
  "command_change (MarkRunning i t) o' = operation_mark_running t o'"
| "command_change (SettleSuccess i usage t) o' = operation_settle_success usage t o'"
| "command_change (SettleFailure i c t usage started d) o' =
     bindR (call_state_checks started o') (\<lambda>_. operation_settle_failure c t usage (\<not> started) d o')"
| "command_change (Cancel i t started) o' =
     bindR (call_state_checks started o') (\<lambda>_. operation_cancel t (\<not> started) o')"
| "command_change (Reserve _) o' = Inr o'"

fun command_target :: "provider_command \<Rightarrow> string" where
  "command_target (MarkRunning i t) = i"
| "command_target (SettleSuccess i usage t) = i"
| "command_target (SettleFailure i c t usage started d) = i"
| "command_target (Cancel i t started) = i"
| "command_target (Reserve o') = po_id o'"

fun is_reserve :: "provider_command \<Rightarrow> bool" where
  "is_reserve (Reserve _) = True"
| "is_reserve _ = False"

lemma command_is_change:
  "\<not> is_reserve c \<Longrightarrow> provider_command_op R b c = change_operation R (command_target c) (command_change c)"
  by (cases c) (simp_all add: mark_running_def settle_success_def settle_failure_def cancel_def fun_eq_iff
      change_operation_def)

lemma command_change_advances:
  "\<not> is_reserve c \<Longrightarrow> command_change c o' = Inr o1 \<Longrightarrow> advances o' o1"
  by (cases c) (auto simp: bindR_Inr_iff dest: operation_mark_running_Inr(1)
      operation_settle_success_Inr(1) operation_settle_failure_Inr(1) operation_cancel_Inr(1))

lemma command_change_usage:
  assumes "\<not> is_reserve c" and "command_change c o' = Inr o1" and "open_ok o'"
    and "m (command_target c) = Some (o', v)" and "command_ok m c"
  shows "open_ok o1 \<and> (\<forall>w. po_actual_usage o1 = Some w \<longrightarrow> usage_within w (po_reservation o'))"
proof -
  have adv: "advances o' o1" using assms(1,2) by (rule command_change_advances)
  then have res: "reservation_ok (po_reservation o1)" and o': "\<not> provider_is_terminal (po_status o')"
    using assms(3) same_request_simps(1) [of o1 o'] by (simp_all add: advances_def open_ok_def)
  show ?thesis
  proof (cases c)
    case (MarkRunning i t)
    with assms(2) have "operation_mark_running t o' = Inr o1" by simp
    from operation_mark_running_Inr [OF this] assms(3) res o' show ?thesis by (auto simp: open_ok_def)
  next
    case (SettleSuccess i usage t)
    with assms(2) have "operation_settle_success usage t o' = Inr o1" by simp
    from operation_settle_success_Inr [OF this] assms(4,5) res SettleSuccess show ?thesis
      by (auto simp: open_ok_def)
  next
    case (SettleFailure i cat t usage started d)
    with assms(2) have "operation_settle_failure cat t usage (\<not> started) d o' = Inr o1"
      by (simp add: bindR_Inr_iff)
    from operation_settle_failure_Inr [OF this] assms(4,5) res SettleFailure show ?thesis
      by (auto simp: open_ok_def)
  next
    case (Cancel i t started)
    with assms(2) have "operation_cancel t (\<not> started) o' = Inr o1" by (simp add: bindR_Inr_iff)
    from operation_cancel_Inr [OF this] assms(3) res o' show ?thesis by (auto simp: open_ok_def)
  qed (use assms(1) in simp)
qed

locale operation_repository =
  fixes R :: "'u operation_port" and ok :: "'u \<Rightarrow> bool" and view :: "'u \<Rightarrow> operation_view"
  assumes view_finite: "finite (dom (view u))"
    and view_keyed: "ok u \<Longrightarrow> view u i = Some (o', v) \<Longrightarrow> po_id o' = i"
    and get_law: "port_get R u i = map_option fst (view u i)"
    and get_version_law: "port_get_version R u i = map_option snd (view u i)"
    and by_key_None: "ok u \<Longrightarrow> port_get_by_idempotency_key R u p k = None \<longleftrightarrow>
      (\<forall>i o' v. view u i = Some (o', v) \<longrightarrow> operation_key o' \<noteq> (p, k))"
    and by_key_Some: "ok u \<Longrightarrow> port_get_by_idempotency_key R u p k = Some o' \<longleftrightarrow>
      (\<exists>i v. view u i = Some (o', v) \<and> operation_key o' = (p, k))"
    and list_law: "ok u \<Longrightarrow> distinct (port_list_for_run R u p r) \<and>
      set (port_list_for_run R u p r) = run_operations (view u) p r"
    and save_refused: "ok u \<Longrightarrow> port_save R o' e u = (Inl x, u') \<Longrightarrow> u' = u"
    and save_stored: "ok u \<Longrightarrow> port_save R o' e u = (Inr n, u') \<Longrightarrow>
      ok u' \<and> view u' = (view u)(po_id o' \<mapsto> (o', n)) \<and> (e = None \<longrightarrow> view u (po_id o') = None)"
    and insert_accepted: "ok u \<Longrightarrow> view u (po_id o') = None \<Longrightarrow>
      port_get_by_idempotency_key R u (po_project_id o') (po_idempotency_key o') = None \<Longrightarrow>
      \<exists>n u'. port_save R o' None u = (Inr n, u')"
    and update_accepted: "ok u \<Longrightarrow> view u i = Some (o', v) \<Longrightarrow> advances o' o1 \<Longrightarrow>
      \<exists>n u'. port_save R o1 (Some v) u = (Inr n, u')"
begin

lemma spent_run: "ok u \<Longrightarrow> spent d (port_list_for_run R u p r) = (\<Sum>o' \<in> run_operations (view u) p r. charge d o')"
  using list_law [of u p r] by (simp add: spent_def sum_list_distinct_conv_sum_set)

text \<open>A change raises and leaves everything, or the changed operation replaces the loaded one.\<close>

lemma change_cases:
  assumes "ok u"
  obtains (refused) x where "change_operation R i change u = (Inl x, u)"
      "view u i = None \<or> (\<exists>o' v. view u i = Some (o', v) \<and> (change o' = Inl x \<or>
         (\<exists>o1. change o' = Inr o1 \<and> \<not> advances o' o1)))"
  | (changed) o' v o1 n u' where "view u i = Some (o', v)" "change o' = Inr o1"
      "change_operation R i change u = (Inr o1, u')" "ok u'" "view u' = (view u)(po_id o1 \<mapsto> (o1, n))"
proof (cases "view u i")
  case None
  then have "change_operation R i change u =
    (Inl (StaleStateError (''ProviderOperation '' @ i @ '' does not exist'')), u)"
    by (simp add: change_operation_def load_versioned_def get_law op_simps)
  with None that(1) show ?thesis by blast
next
  case (Some ov)
  then obtain o' v where ov: "view u i = Some (o', v)" by (cases ov) auto
  then have load: "load_versioned R i u = Inr (o', v)"
    by (simp add: load_versioned_def get_law get_version_law)
  show ?thesis
  proof (cases "change o'")
    case (Inl x)
    with load ov that(1) show ?thesis by (simp add: change_operation_def op_simps)
  next
    case (Inr o1)
    obtain res u' where s: "port_save R o1 (Some v) u = (res, u')" by fastforce
    show ?thesis
    proof (cases res)
      case (Inl x)
      then have "u' = u" using s save_refused [OF assms] by blast
      moreover have "\<not> advances o' o1" using update_accepted [OF assms ov] s Inl by fastforce
      ultimately show ?thesis using s Inl \<open>change o' = Inr o1\<close> load ov that(1)
        by (simp add: change_operation_def op_simps)
    next
      case (Inr n)
      with s save_stored [OF assms, of o1 "Some v" n u'] \<open>change o' = Inr o1\<close> load ov that(2)
      show ?thesis by (simp add: change_operation_def op_simps)
    qed
  qed
qed

lemma view_ok: "ok u \<Longrightarrow> view_ok (view u)"
  by (simp add: view_ok_def view_finite view_keyed)

text \<open>\<open>reserve\<close> replays, refuses, or stores the new operation after the check.\<close>

lemma reserve_cases:
  assumes "ok u"
  obtains (refused) x where "reserve R b o' u = (Inl x, u)"
  | (replayed) e where "reserve R b o' u = (Inr (e, True), u)" "po_status o' = Prov_RESERVED"
      "port_get_by_idempotency_key R u (po_project_id o') (po_idempotency_key o') = Some e"
      "request_identity e = request_identity o'"
  | (stored) n u' t where "reserve R b o' u = (Inr (o', False), u')" "po_status o' = Prov_RESERVED"
      "port_get_by_idempotency_key R u (po_project_id o') (po_idempotency_key o') = None"
      "view u (po_id o') = None" "ok u'" "view u' = (view u)(po_id o' \<mapsto> (o', n))"
      "totals (port_list_for_run R u (po_project_id o') (po_workflow_run_id o')) = Inr t"
      "fits b (port_list_for_run R u (po_project_id o') (po_workflow_run_id o')) o'"
proof (cases "po_status o' = Prov_RESERVED")
  case False
  with that(1) show ?thesis by (simp add: reserve_def op_simps)
next
  case st: True
  let ?key = "port_get_by_idempotency_key R u (po_project_id o') (po_idempotency_key o')"
  let ?os = "port_list_for_run R u (po_project_id o') (po_workflow_run_id o')"
  show ?thesis
  proof (cases ?key)
    case (Some e)
    with st that(1,2) show ?thesis
      by (cases "request_identity e = request_identity o'") (simp_all add: reserve_def op_simps)
  next
    case None
    show ?thesis
    proof (cases "assert_can_reserve b ?os (po_reservation o') (po_provider_category o')")
      case (Inl x)
      with None st that(1) show ?thesis
        by (cases "po_is_live_provider o' \<and> \<not> pb_live_provider_enabled b")
          (auto simp: reserve_def op_simps)
    next
      case (Inr x)
      obtain res u' where s: "port_save R o' None u = (res, u')" by fastforce
      show ?thesis
      proof (cases "po_is_live_provider o' \<and> \<not> pb_live_provider_enabled b")
        case True
        with None st that(1) show ?thesis by (auto simp: reserve_def op_simps)
      next
        case live: False
        show ?thesis
        proof (cases res)
          case (Inl e)
          with save_refused [OF assms] s have "u' = u" by blast
          with None st Inr Inl s live that(1) show ?thesis by (auto simp: reserve_def op_simps)
        next
          case (Inr n)
          from save_stored [OF assms, of o' None n u'] s Inr have
            "ok u'" "view u' = (view u)(po_id o' \<mapsto> (o', n))" "view u (po_id o') = None" by auto
          moreover have "reserve R b o' u = (Inr (o', False), u')"
            using None st Inr s live \<open>assert_can_reserve _ _ _ _ = _\<close> by (auto simp: reserve_def op_simps)
          moreover have "fits b ?os o' \<and> (\<exists>t. totals ?os = Inr t)"
            using \<open>assert_can_reserve _ _ _ _ = _\<close> assert_can_reserve_Inr by simp
          ultimately show ?thesis using None st that(3) by blast
        qed
      qed
    qed
  qed
qed

lemma snd_reserve_command: "snd (provider_command_op R b (Reserve o') u) = snd (reserve R b o' u)"
  by (simp add: op_simps split: prod.splits sum.splits)

text \<open>Every command keeps the repository well formed and every stored request as it is.\<close>

lemma command_keeps:
  assumes "ok u" and u': "u' = snd (provider_command_op R b c u)"
  shows "ok u' \<and> (\<forall>i o' v. view u i = Some (o', v) \<longrightarrow>
    (\<exists>o2 v2. view u' i = Some (o2, v2) \<and> operation_identity o2 = operation_identity o' \<and>
      (provider_is_terminal (po_status o') \<longrightarrow> o2 = o' \<and> v2 = v)))"
proof (cases "is_reserve c")
  case True
  then obtain o' where c: "c = Reserve o'" by (cases c) auto
  from assms(1) show ?thesis
    by (cases rule: reserve_cases [where b = b and o' = o'])
      (use assms(1) in \<open>auto simp: u' c snd_reserve_command simp del: provider_command_op.simps\<close>)
next
  case False
  from assms(1) show ?thesis
  proof (cases rule: change_cases [where i = "command_target c" and change = "command_change c"])
    case (refused x)
    with assms False show ?thesis by (auto simp: command_is_change)
  next
    case (changed o' v o1 n w)
    from command_change_advances [OF False changed(2)] have adv: "advances o' o1" .
    then have "po_id o1 = command_target c"
      using view_keyed [OF assms(1) changed(1)] by (simp add: advances_def)
    with adv changed False u' show ?thesis by (auto simp: command_is_change advances_def)
  qed
qed

lemma commands_keep:
  assumes "ok u"
  shows "ok (provider_commands R b cs u) \<and> (\<forall>i o' v. view u i = Some (o', v) \<longrightarrow>
    (\<exists>o2 v2. view (provider_commands R b cs u) i = Some (o2, v2) \<and>
      operation_identity o2 = operation_identity o' \<and>
      (provider_is_terminal (po_status o') \<longrightarrow> o2 = o' \<and> v2 = v)))"
  using assms
proof (induction cs arbitrary: u)
  case (Cons c cs)
  let ?u = "snd (provider_command_op R b c u)"
  note k = command_keeps [OF Cons.prems refl, of b c]
  note ih = Cons.IH [OF k [THEN conjunct1]]
  show ?case
  proof (intro conjI allI impI)
    show "ok (provider_commands R b (c # cs) u)" using ih by simp
    fix i o' v
    assume "view u i = Some (o', v)"
    with k obtain o1 v1 where 1: "view ?u i = Some (o1, v1)" "operation_identity o1 = operation_identity o'"
        "provider_is_terminal (po_status o') \<longrightarrow> o1 = o' \<and> v1 = v" by blast
    with ih obtain o2 v2 where "view (provider_commands R b cs ?u) i = Some (o2, v2)"
        "operation_identity o2 = operation_identity o1"
        "provider_is_terminal (po_status o1) \<longrightarrow> o2 = o1 \<and> v2 = v1" by blast
    with 1 show "\<exists>o2 v2. view (provider_commands R b (c # cs) u) i = Some (o2, v2) \<and>
      operation_identity o2 = operation_identity o' \<and>
      (provider_is_terminal (po_status o') \<longrightarrow> o2 = o' \<and> v2 = v)" by auto
  qed
qed simp

text \<open>A key is reserved once: every later reservation of it replays the stored operation.\<close>

lemma reserve_replays:
  assumes "ok u" and "reserve R b o' u = (Inr (p, False), u')"
    and "request_identity o2 = request_identity o'" "operation_key o2 = operation_key o'"
    and "po_status o2 = Prov_RESERVED"
  shows "\<exists>q v. view (provider_commands R b1 cs u') (po_id o') = Some (q, v) \<and>
    reserve R b2 o2 (provider_commands R b1 cs u') = (Inr (q, True), provider_commands R b1 cs u')"
proof -
  let ?w = "provider_commands R b1 cs u'"
  from assms(1) have "ok u' \<and> (\<exists>n. view u' (po_id o') = Some (o', n))"
    by (cases rule: reserve_cases [where b = b and o' = o']) (use assms(2) in auto)
  then obtain n where u': "ok u'" "view u' (po_id o') = Some (o', n)" by blast
  from commands_keep [OF u'(1)] u'(2) obtain q v where q: "view ?w (po_id o') = Some (q, v)"
      "operation_identity q = operation_identity o'" and w: "ok ?w" by blast
  from q(2) have id: "request_identity q = request_identity o'" "operation_key q = operation_key o'"
    by (simp_all add: operation_identity_def request_identity_def operation_key_def)
  then have "port_get_by_idempotency_key R ?w (po_project_id o2) (po_idempotency_key o2) = Some q"
    using by_key_Some [OF w, of "po_project_id o2" "po_idempotency_key o2" q] q(1) assms(4)
    by (auto simp: operation_key_def)
  with assms(3,5) id q(1) show ?thesis by (simp add: reserve_def op_simps)
qed

text \<open>The budget holds after every command whose client keeps its side.\<close>

lemma command_within_budget:
  assumes "ok u" and b: "within_budget b (view u)" and "command_ok (view u) c"
  shows "within_budget b (view (snd (provider_command_op R b c u)))"
proof (cases "is_reserve c")
  case True
  then obtain o' where c: "c = Reserve o'" by (cases c) auto
  from assms(3) c have fresh: "fresh_operation o'" by simp
  from assms(1) show ?thesis
  proof (cases rule: reserve_cases [where b = b and o' = o'])
    case (stored n u' t)
    have "(\<Sum>x \<in> run_operations (view u) (po_project_id o') (po_workflow_run_id o'). charge d x) +
        charge d o' \<le> limit_in d b" for d
      using stored(8) dimensions_all [of d] fresh
      by (simp add: fits_def list_all_iff spent_run [OF assms(1)] charge_unsettled fresh_operation_def)
    then have "within_budget b ((view u)(po_id o' \<mapsto> (o', n)))"
      using fresh by (intro within_budget_insert [OF b view_ok [OF assms(1)] stored(4)])
        (simp_all add: open_ok_def fresh_operation_def)
    with stored(1,6) c show ?thesis by (simp add: snd_reserve_command del: provider_command_op.simps)
  qed (use b c in \<open>simp_all add: snd_reserve_command del: provider_command_op.simps\<close>)
next
  case False
  from assms(1) show ?thesis
  proof (cases rule: change_cases [where i = "command_target c" and change = "command_change c"])
    case (refused x)
    with b False show ?thesis by (simp add: command_is_change)
  next
    case (changed o' v o1 n w)
    from command_change_advances [OF False changed(2)] have adv: "advances o' o1" .
    from b changed(1) have open': "open_ok o'" by (auto simp: within_budget_def)
    from command_change_usage [OF False changed(2) open' changed(1) assms(3)]
    have o1: "open_ok o1" "\<And>w. po_actual_usage o1 = Some w \<Longrightarrow> usage_within w (po_reservation o1)"
      using same_request_simps(1) [of o1 o'] adv by (auto simp: advances_def)
    have "charge d o1 \<le> charge d o'" for d
      using charge_le_reservation [of o1 d] o1 adv open' same_request_simps(1,2) [of o1 o']
        charge_unsettled [of o' d]
      by (simp add: open_ok_def advances_def)
    moreover have "po_id o1 = command_target c"
      using adv view_keyed [OF assms(1) changed(1)] by (simp add: advances_def)
    ultimately have "within_budget b ((view u)(command_target c \<mapsto> (o1, n)))"
      using adv o1(1)
      by (intro within_budget_replace [OF b view_ok [OF assms(1)] changed(1)]) (simp_all add: advances_def)
    with changed(3,5) \<open>po_id o1 = command_target c\<close> False show ?thesis by (simp add: command_is_change)
  qed
qed

lemma commands_within_budget:
  "ok u \<Longrightarrow> within_budget b (view u) \<Longrightarrow> commands_ok R view b cs u \<Longrightarrow>
   within_budget b (view (provider_commands R b cs u))"
  by (induction cs arbitrary: u) (auto simp: command_within_budget command_keeps)

text \<open>A new key is accepted exactly when it fits; otherwise the dimension is reported.\<close>

lemma reserve_new:
  assumes "ok u" and "po_status o' = Prov_RESERVED" and "view u (po_id o') = None"
    and "port_get_by_idempotency_key R u (po_project_id o') (po_idempotency_key o') = None"
    and amounts: "\<forall>p \<in> run_operations (view u) (po_project_id o') (po_workflow_run_id o'). amounts_ok p"
  shows "(if (po_is_live_provider o' \<longrightarrow> pb_live_provider_enabled b) \<and>
       fits b (port_list_for_run R u (po_project_id o') (po_workflow_run_id o')) o'
     then \<exists>u'. reserve R b o' u = (Inr (o', False), u')
     else \<exists>d. reserve R b o' u = (Inl (BudgetExceededError d), u))"
proof -
  let ?os = "port_list_for_run R u (po_project_id o') (po_workflow_run_id o')"
  have ok': "\<forall>p \<in> set ?os. amounts_ok p" using amounts list_law [OF assms(1)] by simp
  from totals_total [OF ok'] obtain t where t: "totals ?os = Inr t" by blast
  show ?thesis
  proof (cases "assert_can_reserve b ?os (po_reservation o') (po_provider_category o')")
    case (Inl e)
    from assert_can_reserve_Inl [OF Inl ok'] obtain d where "e = BudgetExceededError d" by blast
    moreover have "\<not> fits b ?os o'" using assert_can_reserve_Inr [of b ?os o'] Inl t by auto
    ultimately show ?thesis using assms(2,4) Inl
      by (cases "po_is_live_provider o' \<and> \<not> pb_live_provider_enabled b") (auto simp: reserve_def op_simps)
  next
    case (Inr x)
    then have "fits b ?os o'" using assert_can_reserve_Inr [of b ?os o'] by simp
    moreover obtain n u' where "port_save R o' None u = (Inr n, u')"
      using insert_accepted [OF assms(1,3,4)] by blast
    ultimately show ?thesis using assms(2,4) Inr by (auto simp: reserve_def op_simps)
  qed
qed

end

section \<open>The in-memory adapter\<close>

definition in_memory_port :: "provider_uow operation_port" where
  "in_memory_port = \<lparr>port_save = repo_save, port_get = repo_get, port_get_version = repo_get_version,
     port_get_by_idempotency_key = repo_get_by_idempotency_key, port_list_for_run = repo_list_for_run,
     port_list_unsettled = repo_list_unsettled\<rparr>"

definition uow_view :: "provider_uow \<Rightarrow> operation_view" where
  "uow_view u i = map_option (\<lambda>r. (pr_operation r, pr_version r)) (map_of (uw_operations u) i)"

definition uow_table_ok :: "provider_uow \<Rightarrow> bool" where
  "uow_table_ok u \<longleftrightarrow> table_ok (uw_operations u)"

lemma uow_view_Some:
  "uow_view u i = Some (o', v) \<longleftrightarrow> map_of (uw_operations u) i = Some \<lparr>pr_operation = o', pr_version = v\<rparr>"
  by (auto simp: uow_view_def)

lemma stored_in_view:
  assumes "uow_table_ok u"
  shows "o' \<in> set (stored_operations u) \<longleftrightarrow> (\<exists>i v. uow_view u i = Some (o', v))"
proof -
  have "distinct (map fst (uw_operations u))" using assms table_okD(1) by (simp add: uow_table_ok_def)
  from stored_operations_iff [OF this] show ?thesis by (auto simp: uow_view_def)
qed

lemma stored_distinct:
  assumes "uow_table_ok u"
  shows "distinct (stored_operations u)"
proof -
  have t: "table_ok (uw_operations u)" using assms by (simp add: uow_table_ok_def)
  have "map fst (uw_operations u) = map po_id (stored_operations u)"
    using table_okD(1,2) [OF t] by (auto simp: stored_operations_def)
  then show ?thesis using table_okD(1) [OF t] by (metis distinct_map)
qed

lemma memory_by_key:
  assumes "uow_table_ok u"
  shows "repo_get_by_idempotency_key u p k = Some o' \<longleftrightarrow>
    (\<exists>i v. uow_view u i = Some (o', v) \<and> operation_key o' = (p, k))"
proof
  assume "repo_get_by_idempotency_key u p k = Some o'"
  from get_by_key_Some [OF this] stored_in_view [OF assms]
  show "\<exists>i v. uow_view u i = Some (o', v) \<and> operation_key o' = (p, k)" by blast
next
  assume "\<exists>i v. uow_view u i = Some (o', v) \<and> operation_key o' = (p, k)"
  then obtain i v where i: "uow_view u i = Some (o', v)" and k: "operation_key o' = (p, k)" by blast
  show "repo_get_by_idempotency_key u p k = Some o'"
  proof (cases "repo_get_by_idempotency_key u p k")
    case None
    with i k show ?thesis using stored_in_view [OF assms] by (auto simp: get_by_key_None)
  next
    case (Some e)
    from get_by_key_Some [OF Some] stored_in_view [OF assms] obtain j w where
      j: "uow_view u j = Some (e, w)" "operation_key e = (p, k)" by blast
    have t: "table_ok (uw_operations u)" using assms by (simp add: uow_table_ok_def)
    from table_okD(4) [OF t i [unfolded uow_view_Some] j(1) [unfolded uow_view_Some]] k j(2)
    have "i = j" by simp
    with i j(1) Some show ?thesis by simp
  qed
qed

lemma memory_stored:
  assumes "uow_table_ok u" and "repo_save o' e u = (Inr n, u')"
  shows "uow_table_ok u' \<and> uow_view u' = (uow_view u)(po_id o' \<mapsto> (o', n)) \<and>
    (e = None \<longrightarrow> uow_view u (po_id o') = None)"
proof -
  have t: "table_ok (uw_operations u)" using assms(1) by (simp add: uow_table_ok_def)
  then show ?thesis
  proof (cases rule: repo_save_cases [where o' = o' and expected = e])
    case (stored m w)
    have w: "u' = w" "m = n" using assms(2) stored(1) by simp_all
    have "uow_table_ok u'"
      using save_table_ok [OF t stored(2,3)] stored(4) w by (simp add: uow_table_ok_def)
    moreover have "uow_view u' = (uow_view u)(po_id o' \<mapsto> (o', n))"
      using stored(4) w by (auto simp: uow_view_def)
    moreover have "e = None \<longrightarrow> uow_view u (po_id o') = None"
      using stored(2) by (auto simp: check_insert_Inr uow_view_def)
    ultimately show ?thesis by blast
  qed (use assms(2) in simp)
qed

interpretation memory: operation_repository in_memory_port uow_table_ok uow_view
proof (unfold_locales, goal_cases)
  case (1 u)
  have "dom (uow_view u) = dom (map_of (uw_operations u))" by (auto simp: uow_view_def dom_def)
  then show ?case by (simp add: finite_dom_map_of)
next
  case (2 u i o' v)
  then show ?case using table_okD(2) by (fastforce simp: uow_view_Some uow_table_ok_def)
next
  case (3 u i)
  then show ?case by (simp add: in_memory_port_def repo_get_def uow_view_def option.map_comp comp_def)
next
  case (4 u i)
  then show ?case by (simp add: in_memory_port_def repo_get_version_def uow_view_def option.map_comp comp_def)
next
  case (5 u p k)
  show ?case using stored_in_view [OF 5] by (simp add: in_memory_port_def get_by_key_None) blast
next
  case (6 u p k o')
  then show ?case using memory_by_key by (simp add: in_memory_port_def)
next
  case (7 u p r)
  then show ?case
    by (auto simp: in_memory_port_def repo_list_for_run_def stored_distinct stored_in_view run_operations_def)
next
  case (8 u o' e x u')
  then have "table_ok (uw_operations u)" and s: "repo_save o' e u = (Inl x, u')"
    by (simp_all add: uow_table_ok_def in_memory_port_def)
  then show ?case by (cases rule: repo_save_cases [where o' = o' and expected = e]) auto
next
  case (9 u o' e n u')
  then show ?case using memory_stored by (simp add: in_memory_port_def)
next
  case (10 u o')
  then have t: "table_ok (uw_operations u)" by (simp add: uow_table_ok_def)
  have "check_insert o' u = Inr 1"
    using 10 by (simp add: check_insert_Inr in_memory_port_def uow_view_def)
  with t show ?case
    by (cases rule: repo_save_cases [where o' = o' and expected = None]) (auto simp: in_memory_port_def)
next
  case (11 u i o' v o1)
  then have t: "table_ok (uw_operations u)" by (simp add: uow_table_ok_def)
  have r: "map_of (uw_operations u) (po_id o1) = Some \<lparr>pr_operation = o', pr_version = v\<rparr>"
    using 11 table_okD(2) [OF t] by (fastforce simp: uow_view_Some advances_def)
  have "check_update o1 v u = Inr (v + 1)"
    using 11(3) r by (auto simp: check_update_Inr later_def advances_def)
  with t show ?case
    by (cases rule: repo_save_cases [where o' = o1 and expected = "Some v"]) (auto simp: in_memory_port_def)
qed

end
