(* ===== verification/Provider_Claims.thy ===== *)
theory Provider_Claims
  imports Provider_Service
begin

text \<open>
  The properties of provider operations: the service on the in-memory repository, and
  several units of work over one database.
\<close>

section \<open>Sample operations\<close>

definition sample_fingerprint :: string where
  "sample_fingerprint = ''sha256:'' @ replicate 64 (CHR ''a'')"

definition sample_operation :: "string \<Rightarrow> ProviderOperation" where
  "sample_operation i =
     \<lparr>po_id = i, po_project_id = ''p'', po_workflow_run_id = ''r'', po_logical_step_id = ''s'',
      po_step_run_id = None, po_provider_category = Cat_LLM, po_operation_kind = Op_GENERATE_TEXT,
      po_provider_identity = ''fake'', po_adapter_version = ''1'', po_model_or_endpoint = ''m'',
      po_idempotency_key = i, po_request_fingerprint = sample_fingerprint,
      po_reservation = \<lparr>pv_request_count = 1, pv_input_tokens = 10, pv_output_tokens = 5,
        pv_cost_minor_units = 2, pv_cost_currency = ''USD''\<rparr>,
      po_is_live_provider = False, po_status = Prov_RESERVED, po_settlement_state = Settle_UNSETTLED,
      po_actual_usage = None, po_failure_category = None, po_retry_count = 0,
      po_diagnostic_metadata = [], po_created_at = Aware 0, po_updated_at = Aware 0,
      po_started_at = None, po_finished_at = None, po_row_version = 0\<rparr>"

definition sample_usage :: ProviderUsage where
  "sample_usage =
     \<lparr>pu_provider = ''fake'', pu_model_or_endpoint = ''m'', pu_operation_kind = Op_GENERATE_TEXT,
      pu_request_count = 1, pu_input_tokens = Some 7, pu_output_tokens = None,
      pu_estimated_cost = Some 1, pu_cost_currency = Some ''USD'', pu_latency_ms = 0,
      pu_retry_count = 0, pu_failure_category = None, pu_provider_request_ids = []\<rparr>"

definition sample_budget :: ProviderBudget where
  "sample_budget =
     \<lparr>pb_max_provider_requests = 1, pb_max_llm_calls = 1, pb_max_input_tokens = 10,
      pb_max_output_tokens = 10, pb_max_cost_minor_units = 10, pb_cost_currency = ''USD'',
      pb_max_runtime_seconds = 60, pb_max_artifact_bytes = 0, pb_live_provider_enabled = False\<rparr>"

definition sample_commands :: "provider_command list" where
  "sample_commands =
     [Reserve (sample_operation ''a''), MarkRunning ''a'' (Aware 1), Reserve (sample_operation ''b''),
      SettleSuccess ''a'' sample_usage (Aware 2)]"

lemmas sample_defs = sample_operation_def sample_usage_def sample_budget_def sample_commands_def
  sample_fingerprint_def

lemma uow_table_ok_empty: "uow_table_ok (uow_refresh [])"
  by (simp add: uow_table_ok_def uow_refresh_def)

lemma uow_view_empty: "uow_view (uow_refresh []) i = None"
  by (simp add: uow_view_def uow_refresh_def)

lemma within_budget_empty:
  assumes "provider_budget_post_init b = Inr b" and "\<And>i. m i = None"
  shows "within_budget b m"
proof -
  have "0 \<le> limit_in d b" for d
    using assms(1) by (cases d) (auto simp: provider_budget_post_init_def bindR_Inr_iff)
  with assms(2) show ?thesis by (simp add: within_budget_def run_operations_def)
qed

section \<open>The service\<close>

text \<open>C33. Run any commands of the service against one unit of work, with one budget: new
  operations are new and settled usage stays within its reservation. Then no run of no project
  is charged above the budget in any dimension, and this is what \<open>totals\<close> reports.\<close>

theorem budget_never_exceeded:
  assumes "uow_table_ok u" and "within_budget b (uow_view u)"
    and "commands_ok in_memory_port uow_view b cs u"
  shows "spent d (repo_list_for_run (provider_commands in_memory_port b cs u) p r) \<le> limit_in d b \<and>
    (\<forall>t. totals (repo_list_for_run (provider_commands in_memory_port b cs u) p r) = Inr t \<longrightarrow>
      total_in d t \<le> limit_in d b)"
proof -
  let ?u = "provider_commands in_memory_port b cs u"
  have "within_budget b (uow_view ?u)" by (rule memory.commands_within_budget [OF assms])
  moreover have "spent d (port_list_for_run in_memory_port ?u p r) =
      (\<Sum>o' \<in> run_operations (uow_view ?u) p r. charge d o')"
    by (rule memory.spent_run) (use memory.commands_keep [OF assms(1)] in blast)
  ultimately have "spent d (repo_list_for_run ?u p r) \<le> limit_in d b"
    by (simp add: within_budget_def in_memory_port_def)
  then show ?thesis by (auto simp: totals_spent)
qed

lemma sample_commands_ok:
  "commands_ok in_memory_port uow_view sample_budget sample_commands (uow_refresh [])"
  by code_simp

lemma sample_budget_ok: "provider_budget_post_init sample_budget = Inr sample_budget"
  by code_simp

theorem budget_never_exceeded_witness:
  "spent Input_Tokens (repo_list_for_run
     (provider_commands in_memory_port sample_budget sample_commands (uow_refresh [])) ''p'' ''r'') \<le> 10"
  using budget_never_exceeded [OF uow_table_ok_empty
      within_budget_empty [OF sample_budget_ok uow_view_empty] sample_commands_ok, of Input_Tokens]
  by (simp add: sample_budget_def)

text \<open>C35. An idempotency key is reserved once: whatever the service does afterwards, reserving
  the same request again, under any budget, returns the stored operation in its current state
  and changes nothing.\<close>

theorem key_reserved_once:
  assumes "uow_table_ok u" and "reserve in_memory_port b o' u = (Inr (p, False), u')"
    and "request_identity o2 = request_identity o'" and "operation_key o2 = operation_key o'"
    and "po_status o2 = Prov_RESERVED"
  shows "\<exists>q. repo_get (provider_commands in_memory_port b1 cs u') (po_id o') = Some q \<and>
    reserve in_memory_port b2 o2 (provider_commands in_memory_port b1 cs u') =
      (Inr (q, True), provider_commands in_memory_port b1 cs u')"
proof -
  from memory.reserve_replays [OF assms] obtain q v where
    "uow_view (provider_commands in_memory_port b1 cs u') (po_id o') = Some (q, v)"
    "reserve in_memory_port b2 o2 (provider_commands in_memory_port b1 cs u') =
      (Inr (q, True), provider_commands in_memory_port b1 cs u')" by blast
  then show ?thesis by (auto simp: uow_view_def repo_get_def)
qed

definition sample_reserved :: provider_uow where
  "sample_reserved = snd (reserve in_memory_port sample_budget (sample_operation ''a'') (uow_refresh []))"

lemma sample_reserve:
  "reserve in_memory_port sample_budget (sample_operation ''a'') (uow_refresh []) =
     (Inr (sample_operation ''a'', False), sample_reserved)"
  by code_simp

theorem key_reserved_once_witness:
  "\<exists>q. reserve in_memory_port sample_budget (sample_operation ''a'')
      (provider_commands in_memory_port sample_budget [MarkRunning ''a'' (Aware 1)] sample_reserved) =
    (Inr (q, True), provider_commands in_memory_port sample_budget [MarkRunning ''a'' (Aware 1)] sample_reserved)"
  using key_reserved_once [OF uow_table_ok_empty sample_reserve refl refl, of sample_budget
      "[MarkRunning ''a'' (Aware 1)]" sample_budget]
  by (auto simp: sample_operation_def)

text \<open>C34. A reservation under a new key is accepted exactly when live calls are allowed, the
  currencies agree and every dimension has room for it on top of what the run has spent;
  otherwise \<open>BudgetExceededError\<close> is raised and nothing is stored.\<close>

theorem reservation_accepted_iff_fits:
  assumes "uow_table_ok u" and "po_status o' = Prov_RESERVED" and "repo_get u (po_id o') = None"
    and "repo_get_by_idempotency_key u (po_project_id o') (po_idempotency_key o') = None"
    and "\<forall>p \<in> set (repo_list_for_run u (po_project_id o') (po_workflow_run_id o')). amounts_ok p"
  shows "(if (po_is_live_provider o' \<longrightarrow> pb_live_provider_enabled b) \<and>
       fits b (repo_list_for_run u (po_project_id o') (po_workflow_run_id o')) o'
     then \<exists>u'. reserve in_memory_port b o' u = (Inr (o', False), u')
     else \<exists>d. reserve in_memory_port b o' u = (Inl (BudgetExceededError d), u))"
proof -
  have l: "port_list_for_run in_memory_port = repo_list_for_run" by (simp add: in_memory_port_def)
  have key: "port_get_by_idempotency_key in_memory_port u (po_project_id o') (po_idempotency_key o') = None"
    using assms(4) by (simp add: in_memory_port_def)
  have new: "uow_view u (po_id o') = None" using assms(3) by (simp add: repo_get_def uow_view_def)
  have amounts: "\<forall>p \<in> run_operations (uow_view u) (po_project_id o') (po_workflow_run_id o'). amounts_ok p"
    using assms(5) memory.list_law [OF assms(1)] by (simp add: in_memory_port_def)
  show ?thesis using memory.reserve_new [OF assms(1,2) new key amounts, of b] unfolding l .
qed

lemma sample_reserved_ok: "uow_table_ok sample_reserved"
  using memory.command_keeps [OF uow_table_ok_empty refl, of sample_budget "Reserve (sample_operation ''a'')"]
  by (simp add: memory.snd_reserve_command sample_reserved_def del: provider_command_op.simps)

theorem reservation_accepted_iff_fits_witness:
  "\<exists>d. reserve in_memory_port sample_budget (sample_operation ''b'') sample_reserved =
    (Inl (BudgetExceededError d), sample_reserved)"
proof -
  have "po_status (sample_operation ''b'') = Prov_RESERVED"
    "repo_get sample_reserved (po_id (sample_operation ''b'')) = None"
    "repo_get_by_idempotency_key sample_reserved (po_project_id (sample_operation ''b''))
      (po_idempotency_key (sample_operation ''b'')) = None"
    "\<forall>p \<in> set (repo_list_for_run sample_reserved (po_project_id (sample_operation ''b''))
      (po_workflow_run_id (sample_operation ''b''))). amounts_ok p"
    "\<not> fits sample_budget (repo_list_for_run sample_reserved (po_project_id (sample_operation ''b''))
      (po_workflow_run_id (sample_operation ''b''))) (sample_operation ''b'')"
    by code_simp+
  with reservation_accepted_iff_fits [OF sample_reserved_ok this(1-4), of sample_budget]
  show ?thesis by simp
qed

text \<open>C36. A terminal operation is never changed by the service: whatever commands follow, it and
  its persistence version stay, so a settlement is final.\<close>

theorem terminal_operation_is_final:
  assumes "uow_table_ok u" and "repo_get u i = Some o'" and "provider_is_terminal (po_status o')"
  shows "repo_get (provider_commands in_memory_port b cs u) i = Some o' \<and>
    repo_get_version (provider_commands in_memory_port b cs u) i = repo_get_version u i"
proof -
  from assms(2) obtain v where v: "uow_view u i = Some (o', v)"
    by (auto simp: repo_get_def uow_view_def)
  with memory.commands_keep [OF assms(1), of b cs] assms(3)
  have "uow_view (provider_commands in_memory_port b cs u) i = Some (o', v)" by blast
  with v show ?thesis by (auto simp: repo_get_def repo_get_version_def uow_view_def)
qed

definition sample_settled :: provider_uow where
  "sample_settled = provider_commands in_memory_port sample_budget sample_commands (uow_refresh [])"

lemma sample_settled_ok: "uow_table_ok sample_settled"
  using memory.commands_keep [OF uow_table_ok_empty] by (simp add: sample_settled_def)

theorem terminal_operation_is_final_witness:
  "repo_get (provider_commands in_memory_port sample_budget
      [Cancel ''a'' (Aware 3) True, SettleSuccess ''a'' sample_usage (Aware 3)] sample_settled) ''a'' =
    repo_get sample_settled ''a''"
proof -
  have "repo_get sample_settled ''a'' \<noteq> None"
    "provider_is_terminal (po_status (the (repo_get sample_settled ''a'')))" by code_simp+
  then obtain o' where "repo_get sample_settled ''a'' = Some o'" "provider_is_terminal (po_status o')"
    by auto
  from terminal_operation_is_final [OF sample_settled_ok this, THEN conjunct1] this(1)
  show ?thesis by (simp only:)
qed

section \<open>Units of work over one database\<close>

text \<open>C37. In any interleaving of units of work, each committed record either stays or is replaced
  by a later version of the same request whose persistence version and row version have moved
  by the same positive number: no committed update is lost and no record disappears.\<close>

theorem committed_operations_only_advance:
  assumes "provider_reachable s" and "provider_step s s'" and "map_of (ps_db s) i = Some r"
  shows "\<exists>r'. map_of (ps_db s') i = Some r' \<and> (r' = r \<or>
    operation_identity (pr_operation r') = operation_identity (pr_operation r) \<and>
    pr_version r < pr_version r' \<and>
    po_row_version (pr_operation r') - po_row_version (pr_operation r) = pr_version r' - pr_version r)"
  using provider_step_ok [OF assms(2) provider_reachable_ok [OF assms(1)]] assms(3)
  by (auto simp: later_def dest: evolvesD)

text \<open>C38. In any interleaving of units of work, two committed operations never share a project
  and an idempotency key, and every record is stored under its own identifier.\<close>

theorem idempotency_key_has_one_owner:
  assumes "provider_reachable s" and "map_of (ps_db s) i = Some r" and "map_of (ps_db s) j = Some r'"
    and "operation_key (pr_operation r) = operation_key (pr_operation r')"
  shows "i = j \<and> po_id (pr_operation r) = i"
proof -
  have "table_ok (ps_db s)" using provider_reachable_ok [OF assms(1)] by (simp add: store_ok_def)
  with assms(2-) show ?thesis by (blast dest: table_okD)
qed

text \<open>When two units of work have both saved the same operation and one of them commits, the
  commit of the other raises and leaves the database as it is.\<close>

theorem second_writer_is_refused:
  assumes "provider_reachable s" and "ps_uows s k = Some u" and "ps_uows s l = Some w"
    and "i \<in> uw_dirty u" and "i \<in> uw_dirty w"
    and "set order = uw_dirty u" and "uow_commit order (u, ps_db s) = (Inr (), (u', db'))"
    and "set order' = uw_dirty w"
  shows "\<exists>e. uow_commit order' (w, db') = (Inl e, (w, db'))"
proof -
  have u: "uow_ok (ps_db s) u" and w: "uow_ok (ps_db s) w"
    using provider_reachable_ok [OF assms(1)] assms(2,3) by (auto simp: store_ok_def)
  have "validate_operations u (ps_db s) (committed_idempotency (ps_db s)) order = Inr () \<and>
      map_of db' i = map_of (uw_operations u) i"
    by (cases rule: uow_commit_cases [of order u "ps_db s"]) (use assms(4,6,7) in auto)
  then have v: "validate_operations u (ps_db s) (committed_idempotency (ps_db s)) order = Inr ()"
    and db': "map_of db' i = map_of (uw_operations u) i" by auto
  from validate_operations_Inr [OF v] assms(4,6) obtain r where
    r: "map_of (uw_expected u) i = Some (map_option pr_version (map_of (ps_db s) i))"
      "map_of (uw_operations u) i = Some r" by blast
  from assms(5) w obtain e where e: "map_of (uw_expected w) i = Some e"
    using uow_okD(2) [OF w, of i] by auto
  have "e \<noteq> Some (pr_version r)"
  proof
    assume "e = Some (pr_version r)"
    with uow_okD(3) [OF w, of i] e obtain r0 where r0: "map_of (ps_db s) i = Some r0"
        "pr_version r \<le> pr_version r0"
      by (auto simp: entry_ok_def)
    with uow_okD(3) [OF u, of i] r have "later r0 r" by (simp add: entry_ok_def)
    with r0(2) show False by (simp add: later_def)
  qed
  have "validate_operations w db' (committed_idempotency db') order' \<noteq> Inr ()"
  proof
    assume v': "validate_operations w db' (committed_idempotency db') order' = Inr ()"
    from assms(5,8) have "i \<in> set order'" by simp
    with validate_operations_Inr [OF v'] e have "e = map_option pr_version (map_of db' i)" by auto
    with r(2) db' \<open>e \<noteq> Some (pr_version r)\<close> show False by simp
  qed
  then show ?thesis
    by (cases rule: uow_commit_cases [of order' w db']) auto
qed

section \<open>Reachable sample stores\<close>

lemma provider_reach_begin:
  "provider_reachable s \<Longrightarrow> provider_reachable (s\<lparr>ps_uows := (ps_uows s)(k \<mapsto> uow_refresh (ps_db s))\<rparr>)"
  by (rule provider_steps [OF _ begin_uow])

definition saved_uow :: "string \<Rightarrow> provider_uow" where
  "saved_uow i = snd (repo_save (sample_operation i) None (uow_refresh []))"

definition sample_store :: provider_store where
  "sample_store = \<lparr>ps_db = [], ps_uows = [0 \<mapsto> saved_uow ''a'', 1 \<mapsto> saved_uow ''a'']\<rparr>"

lemma sample_store_reachable: "provider_reachable sample_store"
proof -
  let ?s0 = "\<lparr>ps_db = [], ps_uows = (\<lambda>_. None)\<rparr> :: provider_store"
  let ?s1 = "?s0\<lparr>ps_uows := [0 \<mapsto> uow_refresh []]\<rparr>"
  let ?s2 = "?s1\<lparr>ps_uows := [0 \<mapsto> uow_refresh [], 1 \<mapsto> uow_refresh []]\<rparr>"
  let ?s3 = "?s2\<lparr>ps_uows := [0 \<mapsto> saved_uow ''a'', 1 \<mapsto> uow_refresh []]\<rparr>"
  have 1: "provider_reachable ?s1"
    using provider_reach_begin [OF empty_store, of 0] by simp
  have 2: "provider_reachable ?s2" using provider_reach_begin [OF 1, of 1] by simp
  have "provider_step ?s2 ?s3"
    using save_in_uow [of ?s2 0 "uow_refresh []" "sample_operation ''a''" None]
    by (simp add: saved_uow_def fun_upd_twist)
  with 2 have 3: "provider_reachable ?s3" by (rule provider_steps)
  have "provider_step ?s3 (?s3\<lparr>ps_uows := [0 \<mapsto> saved_uow ''a'', 1 \<mapsto> saved_uow ''a'']\<rparr>)"
    using save_in_uow [of ?s3 1 "uow_refresh []" "sample_operation ''a''" None]
    by (simp add: saved_uow_def)
  with 3 have "provider_reachable (?s3\<lparr>ps_uows := [0 \<mapsto> saved_uow ''a'', 1 \<mapsto> saved_uow ''a'']\<rparr>)"
    by (rule provider_steps)
  then show ?thesis by (simp add: sample_store_def)
qed

definition sample_db :: operation_table where
  "sample_db = [(''a'', \<lparr>pr_operation = sample_operation ''a'', pr_version = 1\<rparr>)]"

lemma sample_commit: "uow_commit [''a''] (saved_uow ''a'', []) = (Inr (), (uow_refresh sample_db, sample_db))"
  by code_simp

lemma saved_uow_dirty: "uw_dirty (saved_uow ''a'') = {''a''}"
  by code_simp

definition committed_store :: provider_store where
  "committed_store = sample_store\<lparr>ps_db := sample_db, ps_uows := (ps_uows sample_store)(0 \<mapsto> uow_refresh sample_db)\<rparr>"

lemma sample_store_simps:
  "ps_uows sample_store 0 = Some (saved_uow ''a'')" "ps_uows sample_store 1 = Some (saved_uow ''a'')"
  "ps_db sample_store = []" "ps_db committed_store = sample_db"
  by (simp_all add: sample_store_def committed_store_def)

lemma sample_commit_step: "provider_step sample_store committed_store"
  unfolding committed_store_def
  by (rule commit_uow [of _ 0 "saved_uow ''a''" "[''a'']" "Inr ()"])
    (simp_all add: sample_store_simps saved_uow_dirty sample_commit)

lemma committed_store_reachable: "provider_reachable committed_store"
  using sample_store_reachable sample_commit_step by (rule provider_steps)

theorem committed_operations_only_advance_witness:
  "\<exists>s'. provider_step committed_store s' \<and> map_of (ps_db s') ''a'' \<noteq> None"
proof -
  have step: "provider_step committed_store
      (committed_store\<lparr>ps_uows := (ps_uows committed_store)(0 \<mapsto> uow_refresh (ps_db committed_store))\<rparr>)"
    by (rule begin_uow)
  have "map_of (ps_db committed_store) ''a'' = Some \<lparr>pr_operation = sample_operation ''a'', pr_version = 1\<rparr>"
    by (simp add: sample_store_simps sample_db_def)
  from committed_operations_only_advance [OF committed_store_reachable step this] step
  show ?thesis by blast
qed

theorem idempotency_key_has_one_owner_witness:
  "po_id (pr_operation (the (map_of (ps_db committed_store) ''a''))) = ''a''"
proof -
  have "map_of (ps_db committed_store) ''a'' = Some \<lparr>pr_operation = sample_operation ''a'', pr_version = 1\<rparr>"
    by (simp add: sample_store_simps sample_db_def)
  from idempotency_key_has_one_owner [OF committed_store_reachable this this refl] this
  show ?thesis by simp
qed

theorem second_writer_is_refused_witness:
  "\<exists>e. uow_commit [''a''] (saved_uow ''a'', sample_db) = (Inl e, (saved_uow ''a'', sample_db))"
  using second_writer_is_refused [OF sample_store_reachable sample_store_simps(1,2), of "''a''" "[''a'']"
      "uow_refresh sample_db" sample_db "[''a'']"]
  by (simp add: saved_uow_dirty sample_store_simps sample_commit)

section \<open>The budget across units of work\<close>

text \<open>Commits of several units of work, one after the other.\<close>

fun commit_each :: "(string list \<times> provider_uow) list \<Rightarrow> (operation_table, unit) op" where
  "commit_each [] db = (Inr (), db)"
| "commit_each ((order, u) # us) db =
     (case uow_commit order (u, db) of
        (Inl e, (_, db')) \<Rightarrow> (Inl e, db')
      | (Inr _, (_, db')) \<Rightarrow> commit_each us db')"

definition inserted :: "ProviderOperation \<Rightarrow> string \<times> ProviderOperationRecord" where
  "inserted o' = (po_id o', \<lparr>pr_operation = o', pr_version = 1\<rparr>)"

text \<open>No record of a table has the identifier or the key of an operation.\<close>

definition unclaimed :: "ProviderOperation \<Rightarrow> operation_table \<Rightarrow> bool" where
  "unclaimed o' db \<longleftrightarrow> (\<forall>(i, r) \<in> set db. i \<noteq> po_id o' \<and> operation_key (pr_operation r) \<noteq> operation_key o')"

lemma unclaimed_append: "unclaimed o' (db @ map inserted os) \<longleftrightarrow>
    unclaimed o' db \<and> (\<forall>p \<in> set os. po_id p \<noteq> po_id o' \<and> operation_key p \<noteq> operation_key o')"
  by (simp add: unclaimed_def inserted_def ball_Un image_Un)

lemma unclaimed_id: "unclaimed o' db \<Longrightarrow> po_id o' \<notin> fst ` set db"
  by (auto simp: unclaimed_def)

lemma unclaimed_key: "unclaimed o' db \<Longrightarrow> committed_idempotency db (operation_key o') = None"
  by (auto simp: unclaimed_def committed_idempotency_def map_of_eq_None_iff)

lemma reserve_inserts:
  assumes "reserve in_memory_port b o' (uow_refresh db) = (Inr (o', False), u)"
  shows "unclaimed o' db"
    and "u = \<lparr>uw_operations = db @ [inserted o'], uw_expected = [(po_id o', None)], uw_dirty = {po_id o'}\<rparr>"
proof -
  let ?u = "uow_refresh db"
  from assms have key: "repo_get_by_idempotency_key ?u (po_project_id o') (po_idempotency_key o') = None"
    and save: "\<exists>n. repo_save o' None ?u = (Inr n, u)"
    by (cases "repo_get_by_idempotency_key ?u (po_project_id o') (po_idempotency_key o')";
        auto simp: reserve_def bindE_returned thenE_returned op_apply in_memory_port_def split: if_splits)+
  from key have keys: "\<forall>r \<in> snd ` set db. operation_key (pr_operation r) \<noteq> operation_key o'"
    by (simp add: get_by_key_None stored_operations_def uow_refresh_def operation_key_def)
  from save have new: "po_id o' \<notin> fst ` set db"
    by (auto simp: repo_save_def bindE_returned thenE_returned op_apply check_insert_Inr uow_refresh_def map_of_eq_None_iff)
  with keys show "unclaimed o' db" by (force simp: unclaimed_def)
  have "AList.update (po_id o') r db = db @ [(po_id o', r)]" for r
    using new by (induction db) auto
  with save show "u = \<lparr>uw_operations = db @ [inserted o'], uw_expected = [(po_id o', None)], uw_dirty = {po_id o'}\<rparr>"
    by (auto simp: repo_save_def bindE_returned thenE_returned op_apply check_insert_Inr uow_refresh_def inserted_def
        set_default_def provider_record_post_init_def guardR_def)
qed

lemma commit_inserted:
  assumes "reserve in_memory_port b o' (uow_refresh db0) = (Inr (o', False), u)" and "unclaimed o' db"
  shows "uow_commit [po_id o'] (u, db) = (Inr (), (uow_refresh (db @ [inserted o']), db @ [inserted o']))"
proof -
  note u = reserve_inserts [OF assms(1)]
  have row: "map_of (uw_operations u) (po_id o') = Some \<lparr>pr_operation = o', pr_version = 1\<rparr>"
    using unclaimed_id [OF u(1)] u(2) by (simp add: inserted_def map_add_def map_of_eq_None_iff [THEN iffD2])
  have new: "map_of db (po_id o') = None" using unclaimed_id [OF assms(2)] by (simp add: map_of_eq_None_iff)
  have "validate_operations u db (committed_idempotency db) [po_id o'] = Inr ()"
    using row new unclaimed_key [OF assms(2)] u(2) by (simp add: index_dict_def guardR_def)
  moreover have "AList.update (po_id o') r db = db @ [(po_id o', r)]" for r
    using unclaimed_id [OF assms(2)] by (induction db) auto
  ultimately show ?thesis
    using row by (simp add: uow_commit_def write_operation_def op_simps index_dict_def inserted_def)
qed

lemma commit_each_inserted:
  assumes "\<forall>o' \<in> set os. reserve in_memory_port b o' (uow_refresh db0) = (Inr (o', False), u o') \<and> unclaimed o' db"
    and "distinct (map po_id os)" and "distinct (map operation_key os)"
  shows "commit_each (map (\<lambda>o'. ([po_id o'], u o')) os) db = (Inr (), db @ map inserted os)"
  using assms
proof (induction os arbitrary: db)
  case (Cons o' os)
  then have "uow_commit [po_id o'] (u o', db) = (Inr (), (uow_refresh (db @ [inserted o']), db @ [inserted o']))"
    by (intro commit_inserted) auto
  moreover have "unclaimed p (db @ [inserted o'])" if "p \<in> set os" for p
  proof -
    have "po_id o' \<noteq> po_id p" "operation_key o' \<noteq> operation_key p" using that Cons.prems(2,3) by force+
    with that Cons.prems(1) unclaimed_append [of p db "[o']"] show ?thesis by simp
  qed
  ultimately show ?case using Cons.IH [of "db @ [inserted o']"] Cons.prems by simp
qed simp

lemma spent_sort_key: "spent d (sort_key k os) = spent d os"
proof -
  have "spent d (insort_key k x xs) = charge d x + spent d xs" for x xs by (induction xs) simp_all
  then show ?thesis by (induction os) simp_all
qed

lemma spent_append: "spent d (as @ bs) = spent d as + spent d bs"
  by (simp add: spent_def)

text \<open>C39. The budget is checked in the view of one unit of work, and a commit compares versions
  and keys only. Any number of units of work opened on the same table can each reserve a new
  operation of the same run within the same budget: all of them commit, one after the other, and
  the run is then charged the sum of all their reservations on top of what it had spent, in
  every dimension, whatever the budget. The witness is a pair whose sum exceeds the limit.\<close>

theorem concurrent_reservations_overspend:
  assumes "\<forall>o' \<in> set os. reserve in_memory_port b o' (uow_refresh db) = (Inr (o', False), u o')"
    and "distinct (map po_id os)" and "distinct (map operation_key os)"
    and "\<forall>o' \<in> set os. po_project_id o' = p \<and> po_workflow_run_id o' = r"
  shows "\<exists>db'. commit_each (map (\<lambda>o'. ([po_id o'], u o')) os) db = (Inr (), db') \<and>
    (\<forall>d. spent d (repo_list_for_run (uow_refresh db') p r) =
       spent d (repo_list_for_run (uow_refresh db) p r) + spent d os)"
proof -
  have "commit_each (map (\<lambda>o'. ([po_id o'], u o')) os) db = (Inr (), db @ map inserted os)"
    using assms(1-3) reserve_inserts(1) by (intro commit_each_inserted) blast+
  moreover have "filter (\<lambda>o'. po_project_id o' = p \<and> po_workflow_run_id o' = r) os = os"
    using assms(4) by (simp add: filter_id_conv)
  then have "spent d (repo_list_for_run (uow_refresh (db @ map inserted os)) p r) =
       spent d (repo_list_for_run (uow_refresh db) p r) + spent d os" for d
    by (simp add: repo_list_for_run_def spent_sort_key stored_operations_def uow_refresh_def spent_append comp_def inserted_def)
  ultimately show ?thesis by blast
qed

definition rival_operations :: "ProviderOperation list" where
  "rival_operations = [sample_operation ''a'', sample_operation ''b'']"

definition reserved_alone :: "ProviderOperation \<Rightarrow> provider_uow" where
  "reserved_alone o' = snd (reserve in_memory_port sample_budget o' (uow_refresh []))"

lemma rival_reserved:
  "reserve in_memory_port sample_budget (sample_operation ''a'') (uow_refresh []) =
     (Inr (sample_operation ''a'', False), reserved_alone (sample_operation ''a''))"
  "reserve in_memory_port sample_budget (sample_operation ''b'') (uow_refresh []) =
     (Inr (sample_operation ''b'', False), reserved_alone (sample_operation ''b''))"
  by code_simp+

lemma rival_spend:
  "limit_in Requests sample_budget < spent Requests (repo_list_for_run (uow_refresh []) ''p'' ''r'') + spent Requests rival_operations"
  by code_simp

lemma rival_facts:
  "distinct (map po_id rival_operations)" "distinct (map operation_key rival_operations)"
  "\<forall>o' \<in> set rival_operations. po_project_id o' = ''p'' \<and> po_workflow_run_id o' = ''r''"
  by (simp_all add: rival_operations_def sample_operation_def operation_key_def)

theorem concurrent_reservations_overspend_witness:
  "\<exists>db. commit_each (map (\<lambda>o'. ([po_id o'], reserved_alone o')) rival_operations) [] = (Inr (), db) \<and>
     limit_in Requests sample_budget < spent Requests (repo_list_for_run (uow_refresh db) ''p'' ''r'')"
proof -
  have "\<forall>o' \<in> set rival_operations. reserve in_memory_port sample_budget o' (uow_refresh []) =
      (Inr (o', False), reserved_alone o')"
    using rival_reserved by (simp add: rival_operations_def)
  from concurrent_reservations_overspend [OF this rival_facts] rival_spend show ?thesis by metis
qed

end
