(* ===== verification/Skill_Schema.thy ===== *)
theory Skill_Schema
  imports Provider_Contracts
begin

text \<open>
  Schemas of skill inputs and outputs, \<^verbatim>\<open>backend/skill_system/schemas/skill_schema.py\<close>:
  the constructors, the recursive validator with its error paths, and a declarative notion
  of conformance that the validator decides.

  The validator compares numbers, so this theory gives a float literal its value: the
  decimal numeral rounded to the nearest binary64 number. Not-a-number compares unequal to
  everything, also to itself inside a container.
\<close>

section \<open>Numbers\<close>

text \<open>The rational a decimal numeral denotes: sign, digits, fraction, exponent.\<close>

definition digits_val :: "string \<Rightarrow> int" where
  "digits_val s = foldl (\<lambda>n c. 10 * n + (of_char c - 48)) 0 s"

definition split_at :: "char \<Rightarrow> string \<Rightarrow> string \<times> string option" where
  "split_at c s = (let a = takeWhile (\<lambda>x. x \<noteq> c) s; r = dropWhile (\<lambda>x. x \<noteq> c) s in
     (a, if r = [] then None else Some (tl r)))"

fun signed_val :: "string \<Rightarrow> int" where
  "signed_val (c # s) = (if c = CHR ''-'' then - digits_val s else if c = CHR ''+'' then digits_val s
     else digits_val (c # s))"
| "signed_val [] = 0"

definition rat_power10 :: "int \<Rightarrow> rat" where
  "rat_power10 e = (if 0 \<le> e then 10 ^ nat e else 1 / 10 ^ nat (- e))"

definition unsigned_decimal :: "string \<Rightarrow> rat" where
  "unsigned_decimal s =
     (case split_at (CHR ''e'') s of (m, x) \<Rightarrow>
       case split_at (CHR ''.'') m of (i, f) \<Rightarrow>
         let frac = (case f of None \<Rightarrow> [] | Some d \<Rightarrow> d);
             e = (case x of None \<Rightarrow> 0 | Some d \<Rightarrow> signed_val d)
         in of_int (digits_val (i @ frac)) * rat_power10 (e - int (length frac)))"

text \<open>Rounding to 53 significant bits, ties to even, with the least exponent \<open>-1074\<close>.\<close>

function scale_down :: "rat \<Rightarrow> int \<Rightarrow> rat \<times> int" where
  "scale_down q e = (if q < 2 ^ 53 then (q, e) else scale_down (q / 2) (e + 1))"
  by auto

termination
proof (relation "measure (\<lambda>(q, _). nat \<lfloor>q\<rfloor>)")
  fix q :: rat and e :: int
  assume "\<not> q < 2 ^ 53"
  then have "\<lfloor>q / 2\<rfloor> \<le> \<lfloor>q - 1\<rfloor>" and "1 \<le> \<lfloor>q\<rfloor>"
    by (intro floor_mono, simp, simp add: le_floor_iff)
  then show "((q / 2, e + 1), (q, e)) \<in> measure (\<lambda>(q, _). nat \<lfloor>q\<rfloor>)" by simp
qed simp

definition round_even :: "rat \<Rightarrow> int" where
  "round_even q = (let f = \<lfloor>q\<rfloor>; r = q - of_int f in
     if r < 1 / 2 then f else if 1 / 2 < r then f + 1 else if even f then f else f + 1)"

definition rat_power2 :: "int \<Rightarrow> rat" where
  "rat_power2 e = (if 0 \<le> e then 2 ^ nat e else 1 / 2 ^ nat (- e))"

definition round_binary64 :: "rat \<Rightarrow> rat" where
  "round_binary64 q = (case scale_down (q * 2 ^ 1074) (- 1074) of
     (m, e) \<Rightarrow> of_int (round_even m) * rat_power2 e)"

definition float_rat :: "string \<Rightarrow> rat" where
  "float_rat t = (case t of
     c # s \<Rightarrow> if c = CHR ''-'' then - round_binary64 (unsigned_decimal s)
             else round_binary64 (unsigned_decimal t)
   | [] \<Rightarrow> 0)"

text \<open>The numeric value of a finite number; \<open>True\<close> and \<open>False\<close> are 1 and 0.\<close>

fun num_value :: "pyval \<Rightarrow> rat option" where
  "num_value (VBool b) = Some (if b then 1 else 0)"
| "num_value (VInt i) = Some (of_int i)"
| "num_value (VFloat t) = (if nonfinite_text t = None then Some (float_rat t) else None)"
| "num_value _ = None"

text \<open>\<open>x < y\<close> on numbers, infinities included; every comparison with not-a-number is false.\<close>

fun float_infinity :: "pyval \<Rightarrow> int" where
  "float_infinity (VFloat t) = (if t = ''inf'' then 1 else if t = ''-inf'' then - 1 else 0)"
| "float_infinity _ = 0"

definition num_less :: "pyval \<Rightarrow> pyval \<Rightarrow> bool" where
  "num_less x y = (if x = VFloat ''nan'' \<or> y = VFloat ''nan'' then False else
     case (num_value x, num_value y) of
       (Some a, Some b) \<Rightarrow> a < b
     | _ \<Rightarrow> float_infinity x < float_infinity y)"

section \<open>Equality of values\<close>

lemma size_zipped [termination_simp]:
  "(x, y) \<in> set (zip xs ys) \<Longrightarrow> size x < Suc (size_list size xs)"
  by (induction xs ys rule: list_induct2') auto

text \<open>\<open>x == y\<close>: numbers by value, a list never equals a tuple, mappings whatever their order.\<close>

fun py_eq :: "pyval \<Rightarrow> pyval \<Rightarrow> bool" where
  "py_eq VNone w \<longleftrightarrow> w = VNone"
| "py_eq (VStr s) w \<longleftrightarrow> w = VStr s"
| "py_eq (VObj n) w \<longleftrightarrow> w = VObj n"
| "py_eq (VList xs) w \<longleftrightarrow> (case w of
     VList ys \<Rightarrow> length xs = length ys \<and> (\<forall>(x, y) \<in> set (zip xs ys). py_eq x y) | _ \<Rightarrow> False)"
| "py_eq (VTuple xs) w \<longleftrightarrow> (case w of
     VTuple ys \<Rightarrow> length xs = length ys \<and> (\<forall>(x, y) \<in> set (zip xs ys). py_eq x y) | _ \<Rightarrow> False)"
| "py_eq (VDict a) w \<longleftrightarrow> (case as_mapping w of
     None \<Rightarrow> False
   | Some b \<Rightarrow> length a = length b \<and>
       (\<forall>(k, v) \<in> set a. case map_of b k of None \<Rightarrow> False | Some u \<Rightarrow> py_eq v u))"
| "py_eq (VProxy a) w \<longleftrightarrow> (case as_mapping w of
     None \<Rightarrow> False
   | Some b \<Rightarrow> length a = length b \<and>
       (\<forall>(k, v) \<in> set a. case map_of b k of None \<Rightarrow> False | Some u \<Rightarrow> py_eq v u))"
| "py_eq v w \<longleftrightarrow> (case (num_value v, num_value w) of
     (Some a, Some b) \<Rightarrow> a = b
   | _ \<Rightarrow> float_infinity v \<noteq> 0 \<and> float_infinity v = float_infinity w)"

section \<open>Representation in messages\<close>

fun pyval_repr :: "pyval \<Rightarrow> string" where
  "pyval_repr VNone = ''None''"
| "pyval_repr (VBool b) = (if b then ''True'' else ''False'')"
| "pyval_repr (VInt i) = int_str i"
| "pyval_repr (VFloat t) = t"
| "pyval_repr (VStr s) = py_repr s"
| "pyval_repr (VList xs) = ''['' @ join '', '' (map pyval_repr xs) @ '']''"
| "pyval_repr (VTuple xs) =
     ''('' @ join '', '' (map pyval_repr xs) @ (if length xs = 1 then '','' else []) @ '')''"
| "pyval_repr (VDict kvs) =
     ''{'' @ join '', '' (map (\<lambda>(k, v). py_repr k @ '': '' @ pyval_repr v) kvs) @ ''}''"
| "pyval_repr (VProxy kvs) =
     ''mappingproxy({'' @ join '', '' (map (\<lambda>(k, v). py_repr k @ '': '' @ pyval_repr v) kvs) @ ''})''"
| "pyval_repr (VObj n) = ''<object>''"

section \<open>Schemas\<close>

datatype FieldSchema = FieldSchema
  (fs_kind: string)
  (fs_required: bool)
  (fs_nullable: bool)
  (fs_items: "FieldSchema option")
  (fs_properties: "(string \<times> FieldSchema) list")
  (fs_allow_extra: bool)
  (fs_enum_values: "pyval list")
  (fs_min_length: "int option")
  (fs_max_length: "int option")
  (fs_minimum: "pyval option")
  (fs_maximum: "pyval option")

definition field_kinds :: "string list" where
  "field_kinds = [''string'', ''integer'', ''number'', ''boolean'', ''array'', ''object'']"

definition opt_negative :: "int option \<Rightarrow> bool" where
  "opt_negative n = (case n of None \<Rightarrow> False | Some i \<Rightarrow> i < 0)"

definition field_schema_post_init :: "FieldSchema \<Rightarrow> FieldSchema res" where
  "field_schema_post_init s =
     bindR (guardR (fs_kind s \<notin> set field_kinds)
       (ValueErrorMsg (''Unsupported field schema kind: '' @ fs_kind s)))
     (\<lambda>_. bindR (guardR (fs_kind s = ''array'' \<and> fs_items s = None)
       (ValueErrorMsg ''Array fields must define an items schema''))
     (\<lambda>_. bindR (guardR (fs_kind s \<noteq> ''array'' \<and> fs_items s \<noteq> None)
       (ValueErrorMsg ''Only array fields can define items''))
     (\<lambda>_. bindR (guardR (fs_kind s \<noteq> ''object'' \<and> fs_properties s \<noteq> [])
       (ValueErrorMsg ''Only object fields can define properties''))
     (\<lambda>_. bindR (guardR (fs_kind s \<noteq> ''object'' \<and> fs_allow_extra s)
       (ValueErrorMsg ''Only object fields can allow extra properties''))
     (\<lambda>_. bindR (forR (fs_properties s) (\<lambda>(name, _). guardR (name = [])
       (ValueErrorMsg ''Object property names must be non-empty strings'')))
     (\<lambda>_. bindR (guardR (opt_negative (fs_min_length s)) (ValueErrorMsg ''min_length cannot be negative''))
     (\<lambda>_. bindR (guardR (opt_negative (fs_max_length s)) (ValueErrorMsg ''max_length cannot be negative''))
     (\<lambda>_. bindR (guardR (case (fs_min_length s, fs_max_length s) of
           (Some a, Some b) \<Rightarrow> a > b | _ \<Rightarrow> False)
       (ValueErrorMsg ''min_length cannot exceed max_length''))
     (\<lambda>_. bindR (guardR (case (fs_minimum s, fs_maximum s) of
           (Some a, Some b) \<Rightarrow> num_less b a | _ \<Rightarrow> False)
       (ValueErrorMsg ''minimum cannot exceed maximum''))
     (\<lambda>_. Inr s))))))))))"

record SkillSchema =
  ks_fields :: "(string \<times> FieldSchema) list"
  ks_allow_extra :: bool

definition skill_schema_post_init :: "SkillSchema \<Rightarrow> SkillSchema res" where
  "skill_schema_post_init s =
     bindR (forR (ks_fields s) (\<lambda>(name, _). guardR (name = [])
       (ValueErrorMsg ''Schema field names must be non-empty strings'')))
     (\<lambda>_. Inr s)"

section \<open>Validation\<close>

definition invalid :: "string \<Rightarrow> string \<Rightarrow> 'a res" where
  "invalid path message = Inl (SkillValidationError path message)"

definition number_text :: "pyval option \<Rightarrow> string" where
  "number_text v = (case v of None \<Rightarrow> ''None'' | Some x \<Rightarrow> pyval_repr x)"

definition length_text :: "int option \<Rightarrow> string" where
  "length_text v = (case v of None \<Rightarrow> ''None'' | Some n \<Rightarrow> int_str n)"

definition validate_number_bounds :: "pyval \<Rightarrow> FieldSchema \<Rightarrow> string \<Rightarrow> unit res" where
  "validate_number_bounds v s path =
     bindR (guardR (case fs_minimum s of None \<Rightarrow> False | Some m \<Rightarrow> num_less v m)
       (SkillValidationError path (''must be at least '' @ number_text (fs_minimum s))))
     (\<lambda>_. guardR (case fs_maximum s of None \<Rightarrow> False | Some m \<Rightarrow> num_less m v)
       (SkillValidationError path (''must be at most '' @ number_text (fs_maximum s))))"

definition validate_string :: "string \<Rightarrow> FieldSchema \<Rightarrow> string \<Rightarrow> pyval res" where
  "validate_string x s path =
     bindR (guardR (case fs_min_length s of None \<Rightarrow> False | Some n \<Rightarrow> int (length x) < n)
       (SkillValidationError path (''must contain at least '' @ length_text (fs_min_length s) @ '' characters'')))
     (\<lambda>_. bindR (guardR (case fs_max_length s of None \<Rightarrow> False | Some n \<Rightarrow> int (length x) > n)
       (SkillValidationError path (''must contain at most '' @ length_text (fs_max_length s) @ '' characters'')))
     (\<lambda>_. Inr (VStr x)))"

text \<open>The field checks of \<open>_validate_object\<close> before the loop over the values.\<close>

definition object_checks ::
  "pymap \<Rightarrow> (string \<times> FieldSchema) list \<Rightarrow> bool \<Rightarrow> string \<Rightarrow> unit res" where
  "object_checks kvs properties allow_extra path =
     (let missing = filter (\<lambda>(name, s). fs_required s \<and> name \<notin> fst ` set kvs) properties;
          unknown = sort (filter (\<lambda>k. k \<notin> fst ` set properties) (map fst kvs)) in
      case missing of
        (name, _) # _ \<Rightarrow> Inl (SkillValidationError path (''missing required field '' @ py_repr name))
      | [] \<Rightarrow>
          (case unknown of
             k # _ \<Rightarrow> if allow_extra then Inr ()
                      else Inl (SkillValidationError path (''contains unknown field '' @ py_repr k))
           | [] \<Rightarrow> Inr ()))"

fun as_sequence :: "pyval \<Rightarrow> pyval list option" where
  "as_sequence (VList xs) = Some xs"
| "as_sequence (VTuple xs) = Some xs"
| "as_sequence _ = None"

lemma size_property [termination_simp]:
  "map_of ps k = Some s \<Longrightarrow> size s < Suc (size_list (size_prod (\<lambda>_. 0) size) ps)"
  by (induction ps) (auto split: if_splits)

definition schema_depth_of :: "(string \<times> FieldSchema) list \<Rightarrow> nat" where
  "schema_depth_of ps = Suc (size_list (size_prod (\<lambda>_. 0) size) ps)"

lemma Suc_double_less_double: "m < n \<Longrightarrow> Suc (2 * m) < 2 * n" for m n :: nat
  by simp

lemma size_field_schema:
  "fs_items s = Some t \<Longrightarrow> size t < size s"
  "size_list (size_prod (\<lambda>_. 0) size) (fs_properties s) < size s"
  by (cases s; simp)+

function validate_object ::
    "pymap \<Rightarrow> (string \<times> FieldSchema) list \<Rightarrow> bool \<Rightarrow> string \<Rightarrow> pymap res"
  and validate_field :: "pyval \<Rightarrow> FieldSchema \<Rightarrow> string \<Rightarrow> pyval res" where
  "validate_object kvs properties allow_extra path =
     bindR (object_checks kvs properties allow_extra path)
     (\<lambda>_. mapR (\<lambda>(name, item). case map_of properties name of
          None \<Rightarrow> Inr (name, item)
        | Some s \<Rightarrow> bindR (validate_field item s (path @ ''.'' @ name)) (\<lambda>v. Inr (name, v))) kvs)"
| "validate_field v s path =
     (if v = VNone then (if fs_nullable s then Inr VNone else invalid path ''cannot be null'')
      else if fs_enum_values s \<noteq> [] \<and> \<not> list_ex (py_eq v) (fs_enum_values s) then
        invalid path (''must be one of '' @ pyval_repr (VTuple (fs_enum_values s)))
      else if fs_kind s = ''string'' then
        (case v of VStr x \<Rightarrow> validate_string x s path | _ \<Rightarrow> invalid path ''must be a string'')
      else if fs_kind s = ''boolean'' then
        (case v of VBool b \<Rightarrow> Inr v | _ \<Rightarrow> invalid path ''must be a boolean'')
      else if fs_kind s = ''integer'' then
        (case v of VInt i \<Rightarrow> bindR (validate_number_bounds v s path) (\<lambda>_. Inr v)
         | _ \<Rightarrow> invalid path ''must be an integer'')
      else if fs_kind s = ''number'' then
        (case v of
           VInt i \<Rightarrow> bindR (validate_number_bounds v s path) (\<lambda>_. Inr v)
         | VFloat t \<Rightarrow> if nonfinite_text t \<noteq> None then invalid path ''must be finite''
                       else bindR (validate_number_bounds v s path) (\<lambda>_. Inr v)
         | _ \<Rightarrow> invalid path ''must be a number'')
      else if fs_kind s = ''array'' then
        (case as_sequence v of
           None \<Rightarrow> invalid path ''must be an array''
         | Some xs \<Rightarrow>
             (case fs_items s of
                None \<Rightarrow> Inl PyAssertionError
              | Some t \<Rightarrow> bindR (mapR (\<lambda>(i, x). validate_field x t (path @ ''['' @ nat_str i @ '']''))
                            (enumerate 0 xs)) (\<lambda>ys. Inr (VList ys))))
      else if fs_kind s = ''object'' then
        (case as_mapping v of
           None \<Rightarrow> invalid path ''must be an object''
         | Some kvs \<Rightarrow> bindR (validate_object kvs (fs_properties s) (fs_allow_extra s) path)
             (\<lambda>items. Inr (VDict items)))
      else Inl PyAssertionError)"
  by pat_completeness auto

termination
  by (relation "measure (\<lambda>x. case x of Inl (_, ps, _, _) \<Rightarrow> 2 * schema_depth_of ps
        | Inr (_, s, _) \<Rightarrow> 2 * size s + 1)")
    (auto simp: schema_depth_of_def size_field_schema less_imp_Suc_add
      dest: size_property intro: Suc_double_less_double)

text \<open>\<open>SkillSchema.validate\<close>; the result is the frozen mapping, kept as its items.\<close>

definition schema_validate :: "SkillSchema \<Rightarrow> pyval \<Rightarrow> string \<Rightarrow> pymap res" where
  "schema_validate s v label =
     (case as_mapping v of
        None \<Rightarrow> invalid label ''must be an object''
      | Some kvs \<Rightarrow>
          bindR (validate_object kvs (ks_fields s) (ks_allow_extra s) label)
          (\<lambda>validated. case freeze_json label (VDict validated) of
             Inr (VProxy items) \<Rightarrow> Inr items
           | Inr _ \<Rightarrow> Inr []
           | Inl e \<Rightarrow> invalid label (exc_str e)))"

section \<open>Conformance\<close>

definition in_bounds :: "FieldSchema \<Rightarrow> pyval \<Rightarrow> bool" where
  "in_bounds s v \<longleftrightarrow> (\<forall>m. fs_minimum s = Some m \<longrightarrow> \<not> num_less v m) \<and>
     (\<forall>m. fs_maximum s = Some m \<longrightarrow> \<not> num_less m v)"

text \<open>Conformance of the values that have no parts.\<close>

definition scalar_conforms :: "FieldSchema \<Rightarrow> pyval \<Rightarrow> bool" where
  "scalar_conforms s v \<longleftrightarrow>
     (fs_kind s = ''string'' \<and> (\<exists>x. v = VStr x \<and>
        (\<forall>n. fs_min_length s = Some n \<longrightarrow> n \<le> int (length x)) \<and>
        (\<forall>n. fs_max_length s = Some n \<longrightarrow> int (length x) \<le> n))) \<or>
     (fs_kind s = ''boolean'' \<and> (\<exists>b. v = VBool b)) \<or>
     (fs_kind s = ''integer'' \<and> (\<exists>i. v = VInt i) \<and> in_bounds s v) \<or>
     (fs_kind s = ''number'' \<and> ((\<exists>i. v = VInt i) \<or> (\<exists>t. v = VFloat t \<and> nonfinite_text t = None)) \<and>
        in_bounds s v)"

inductive conforms :: "FieldSchema \<Rightarrow> pyval \<Rightarrow> bool"
  and object_conforms :: "(string \<times> FieldSchema) list \<Rightarrow> bool \<Rightarrow> pymap \<Rightarrow> bool" where
  null: "fs_nullable s \<Longrightarrow> conforms s VNone"
| scalar: "v \<noteq> VNone \<Longrightarrow> fs_enum_values s = [] \<or> list_ex (py_eq v) (fs_enum_values s) \<Longrightarrow>
    scalar_conforms s v \<Longrightarrow> conforms s v"
| array: "fs_kind s = ''array'' \<Longrightarrow> as_sequence v = Some xs \<Longrightarrow>
    fs_enum_values s = [] \<or> list_ex (py_eq v) (fs_enum_values s) \<Longrightarrow>
    fs_items s = Some t \<Longrightarrow> \<forall>x \<in> set xs. conforms t x \<Longrightarrow> conforms s v"
| object: "fs_kind s = ''object'' \<Longrightarrow> as_mapping v = Some kvs \<Longrightarrow>
    fs_enum_values s = [] \<or> list_ex (py_eq v) (fs_enum_values s) \<Longrightarrow>
    object_conforms (fs_properties s) (fs_allow_extra s) kvs \<Longrightarrow> conforms s v"
| fields: "\<forall>(name, s) \<in> set ps. fs_required s \<longrightarrow> name \<in> fst ` set kvs \<Longrightarrow>
    extra \<or> fst ` set kvs \<subseteq> fst ` set ps \<Longrightarrow>
    \<forall>(name, v) \<in> set kvs. \<forall>s. map_of ps name = Some s \<longrightarrow> conforms s v \<Longrightarrow>
    object_conforms ps extra kvs"

inductive_simps conforms_iff: "conforms s v"
inductive_simps object_conforms_iff: "object_conforms ps extra kvs"

lemma conforms_None: "conforms s VNone \<longleftrightarrow> fs_nullable s"
  by (subst conforms_iff) (auto simp: scalar_conforms_def)

lemma conforms_enum:
  "conforms s v \<Longrightarrow> v \<noteq> VNone \<Longrightarrow> fs_enum_values s = [] \<or> list_ex (py_eq v) (fs_enum_values s)"
  by (subst (asm) conforms_iff) auto

lemma conforms_cases:
  assumes "v \<noteq> VNone" and "fs_enum_values s = [] \<or> list_ex (py_eq v) (fs_enum_values s)"
  shows "fs_kind s = ''array'' \<Longrightarrow> conforms s v \<longleftrightarrow>
      (\<exists>xs t. as_sequence v = Some xs \<and> fs_items s = Some t \<and> (\<forall>x \<in> set xs. conforms t x))"
    and "fs_kind s = ''object'' \<Longrightarrow> conforms s v \<longleftrightarrow>
      (\<exists>kvs. as_mapping v = Some kvs \<and> object_conforms (fs_properties s) (fs_allow_extra s) kvs)"
    and "fs_kind s \<noteq> ''array'' \<Longrightarrow> fs_kind s \<noteq> ''object'' \<Longrightarrow> conforms s v \<longleftrightarrow> scalar_conforms s v"
  using assms by (subst conforms_iff; auto simp: scalar_conforms_def)+

lemma object_checks_Inr:
  "object_checks kvs ps extra path = Inr () \<longleftrightarrow>
   (\<forall>(name, s) \<in> set ps. fs_required s \<longrightarrow> name \<in> fst ` set kvs) \<and>
   (extra \<or> fst ` set kvs \<subseteq> fst ` set ps)"
proof -
  have 1: "filter (\<lambda>(name, s). fs_required s \<and> name \<notin> fst ` set kvs) ps = [] \<longleftrightarrow>
      (\<forall>(name, s) \<in> set ps. fs_required s \<longrightarrow> name \<in> fst ` set kvs)"
    by (auto simp: filter_empty_conv)
  have 2: "sort (filter (\<lambda>k. k \<notin> fst ` set ps) (map fst kvs)) = [] \<longleftrightarrow> fst ` set kvs \<subseteq> fst ` set ps"
    by (subst set_empty [symmetric]) (auto simp del: set_empty)
  show ?thesis
    unfolding object_checks_def Let_def 1 [symmetric] 2 [symmetric]
    by (auto split: list.splits)
qed

text \<open>When a computation in \<open>res\<close> returns.\<close>

definition returns :: "'a res \<Rightarrow> bool" where
  "returns m \<longleftrightarrow> (\<exists>a. m = Inr a)"

lemma returns_simps [simp]:
  "returns (Inr a)" "\<not> returns (Inl e)" "\<not> returns (invalid path message)"
  "returns (guardR bad e) \<longleftrightarrow> \<not> bad"
  "returns (bindR (guardR bad e) f) \<longleftrightarrow> \<not> bad \<and> returns (f ())"
  by (auto simp: returns_def invalid_def bindR_Inr_iff guardR_def)

lemma returns_mapR: "returns (mapR f xs) \<longleftrightarrow> (\<forall>x \<in> set xs. returns (f x))"
proof
  assume "returns (mapR f xs)"
  then show "\<forall>x \<in> set xs. returns (f x)"
    by (auto simp: returns_def mapR_Inr_iff list_all2_conv_all_nth in_set_conv_nth)
next
  assume "\<forall>x \<in> set xs. returns (f x)"
  then show "returns (mapR f xs)" unfolding returns_def by (intro mapR_total) blast
qed

lemma returns_bindR_Inr [simp]: "returns (bindR m (\<lambda>v. Inr (g v))) \<longleftrightarrow> returns m"
  by (auto simp: returns_def bindR_Inr_iff)

lemma returns_bindR_unit: "returns (bindR m f) \<longleftrightarrow> m = Inr () \<and> returns (f ())"
  by (auto simp: returns_def bindR_Inr_iff)

lemma returns_bounds: "returns (validate_number_bounds v s path) \<longleftrightarrow> in_bounds s v"
  by (auto simp: validate_number_bounds_def in_bounds_def split: option.splits)

lemma returns_string: "returns (validate_string x s path) \<longleftrightarrow>
    (\<forall>n. fs_min_length s = Some n \<longrightarrow> n \<le> int (length x)) \<and>
    (\<forall>n. fs_max_length s = Some n \<longrightarrow> int (length x) \<le> n)"
  by (auto simp: validate_string_def split: option.splits)

declare validate_object.simps [simp del] validate_field.simps [simp del]

lemma validate_returns_iff:
  "returns (validate_object kvs ps extra path) \<longleftrightarrow> object_conforms ps extra kvs"
  "returns (validate_field v s path) \<longleftrightarrow> conforms s v"
proof (induction kvs ps extra path and v s path rule: validate_object_validate_field.induct)
  case (1 kvs ps extra path)
  have "returns (validate_object kvs ps extra path) \<longleftrightarrow> object_checks kvs ps extra path = Inr () \<and>
      (\<forall>x \<in> set kvs. \<forall>s. map_of ps (fst x) = Some s \<longrightarrow> returns (validate_field (snd x) s (path @ ''.'' @ fst x)))"
    by (subst validate_object.simps)
      (auto simp: returns_mapR returns_bindR_unit split_beta split: option.splits)
  also have "\<dots> \<longleftrightarrow> object_checks kvs ps extra path = Inr () \<and>
      (\<forall>x \<in> set kvs. \<forall>s. map_of ps (fst x) = Some s \<longrightarrow> conforms s (snd x))"
    using "1.IH" by (metis prod.collapse)
  finally show ?case by (auto simp: object_checks_Inr object_conforms_iff split_beta)
next
  case (2 v s path)
  show ?case
  proof (cases "v = VNone \<or> (fs_enum_values s \<noteq> [] \<and> \<not> list_ex (py_eq v) (fs_enum_values s))")
    case True
    then show ?thesis
      using conforms_enum [of s v] by (subst validate_field.simps) (auto simp: conforms_None)
  next
    case False
    then have v: "v \<noteq> VNone" "fs_enum_values s = [] \<or> list_ex (py_eq v) (fs_enum_values s)" by auto
    consider "fs_kind s = ''array''" | "fs_kind s = ''object''"
      | "fs_kind s \<noteq> ''array''" "fs_kind s \<noteq> ''object''" by blast
    then show ?thesis
    proof cases
      case array: 1
      show ?thesis
      proof (cases "\<exists>xs t. as_sequence v = Some xs \<and> fs_items s = Some t")
        case True
        then obtain xs t where xs: "as_sequence v = Some xs" "fs_items s = Some t" by blast
        have "returns (validate_field v s path) \<longleftrightarrow> (\<forall>(i, x) \<in> set (enumerate 0 xs).
            returns (validate_field x t (path @ ''['' @ nat_str i @ '']'')))"
          using v array xs
          by (subst validate_field.simps) (auto simp: returns_mapR)
        also have "\<dots> \<longleftrightarrow> (\<forall>(i, x) \<in> set (enumerate 0 xs). conforms t x)"
          using "2.IH"(1) v array xs by fastforce
        also have "\<dots> \<longleftrightarrow> (\<forall>x \<in> snd ` set (enumerate 0 xs). conforms t x)" by auto
        also have "snd ` set (enumerate 0 xs) = set xs" by (simp flip: set_map)
        finally show ?thesis using v array xs by (simp add: conforms_cases(1))
      next
        case False
        with v array show ?thesis
          by (subst validate_field.simps) (auto simp: conforms_cases(1) split: option.splits)
      qed
    next
      case object: 2
      show ?thesis
      proof (cases "as_mapping v")
        case None
        with v object show ?thesis
          by (subst validate_field.simps) (auto simp: conforms_cases(2))
      next
        case (Some kvs)
        then have "returns (validate_field v s path) \<longleftrightarrow>
            returns (validate_object kvs (fs_properties s) (fs_allow_extra s) path)"
          using v object by (subst validate_field.simps) auto
        also have "\<dots> \<longleftrightarrow> object_conforms (fs_properties s) (fs_allow_extra s) kvs"
          using "2.IH"(2) v object Some by simp
        finally show ?thesis using v object Some by (simp add: conforms_cases(2))
      qed
    next
      case 3
      with v have "conforms s v \<longleftrightarrow> scalar_conforms s v" by (simp add: conforms_cases(3))
      with v 3 show ?thesis
        by (subst validate_field.simps)
          (auto simp: scalar_conforms_def returns_bounds returns_string
            split: pyval.splits)
    qed
  qed
qed

text \<open>Validation returns the value it was given, up to the mutability of its containers.\<close>

lemma mapR_enumerate_freeze:
  assumes "mapR f (enumerate n xs) = Inr ys"
    and "\<And>i x y. (i, x) \<in> set (enumerate n xs) \<Longrightarrow> f (i, x) = Inr y \<Longrightarrow> freeze_value y = freeze_value x"
  shows "map freeze_value ys = map freeze_value xs"
proof -
  from assms(1) have *: "list_all2 (\<lambda>x y. f x = Inr y) (enumerate n xs) ys" by (simp add: mapR_Inr_iff)
  then have len: "length ys = length xs" by (auto dest: list_all2_lengthD)
  show ?thesis
  proof (rule nth_equalityI)
    fix i
    assume "i < length (map freeze_value ys)"
    then have i: "i < length xs" using len by simp
    then have "f (n + i, xs ! i) = Inr (ys ! i)"
      using list_all2_nthD [OF *, of i] by (simp add: nth_enumerate_eq)
    moreover have "(n + i, xs ! i) \<in> set (enumerate n xs)"
      using i by (auto simp: in_set_conv_nth nth_enumerate_eq)
    ultimately show "map freeze_value ys ! i = map freeze_value xs ! i"
      using assms(2) i len by simp
  qed (use len in simp)
qed

lemma mapR_items_freeze:
  assumes "mapR f kvs = Inr out"
    and "\<And>k v k' v'. (k, v) \<in> set kvs \<Longrightarrow> f (k, v) = Inr (k', v') \<Longrightarrow> k' = k \<and> freeze_value v' = freeze_value v"
  shows "map (map_prod id freeze_value) out = map (map_prod id freeze_value) kvs"
proof -
  from assms(1) have "list_all2 (\<lambda>x y. f x = Inr y) kvs out" by (simp add: mapR_Inr_iff)
  then show ?thesis using assms(2)
  proof (induction rule: list_all2_induct)
    case (Cons x xs y ys)
    obtain k v k' v' where xy: "x = (k, v)" "y = (k', v')" by (cases x, cases y)
    have "k' = k \<and> freeze_value v' = freeze_value v"
      by (rule Cons.prems) (use Cons.hyps(1) xy in auto)
    moreover have "map (map_prod id freeze_value) ys = map (map_prod id freeze_value) xs"
      by (rule Cons.IH, rule Cons.prems) auto
    ultimately show ?case using xy by (simp add: id_def)
  qed simp
qed

lemma as_sequence_freeze: "as_sequence v = Some xs \<Longrightarrow> freeze_value v = VTuple (map freeze_value xs)"
  by (cases v) auto

lemma as_mapping_freeze: "as_mapping v = Some kvs \<Longrightarrow> freeze_value v = VProxy (map (map_prod id freeze_value) kvs)"
  by (cases v) auto

lemma validate_keeps:
  "validate_object kvs ps extra path = Inr out \<Longrightarrow>
     map (map_prod id freeze_value) out = map (map_prod id freeze_value) kvs"
  "validate_field v s path = Inr w \<Longrightarrow> freeze_value w = freeze_value v"
proof (induction kvs ps extra path and v s path arbitrary: out and w rule: validate_object_validate_field.induct)
  case (1 kvs ps extra path)
  from "1.prems" have "mapR (\<lambda>(name, item). case map_of ps name of
          None \<Rightarrow> Inr (name, item)
        | Some s \<Rightarrow> bindR (validate_field item s (path @ ''.'' @ name)) (\<lambda>v. Inr (name, v))) kvs = Inr out"
    by (subst (asm) validate_object.simps) (simp add: bindR_Inr_iff)
  then show ?case
    by (rule mapR_items_freeze) (use "1.IH" in \<open>auto simp: bindR_Inr_iff split: option.splits\<close>)
next
  case (2 v s path)
  have scalar: "w = v" if "fs_kind s \<noteq> ''array''" "fs_kind s \<noteq> ''object''"
    using "2.prems" that
    by (subst (asm) validate_field.simps)
      (auto simp: bindR_Inr_iff invalid_def validate_string_def split: if_splits pyval.splits)
  consider "v = VNone \<or> (fs_enum_values s \<noteq> [] \<and> \<not> list_ex (py_eq v) (fs_enum_values s))"
    | "fs_kind s \<noteq> ''array''" "fs_kind s \<noteq> ''object''"
    | "v \<noteq> VNone" "fs_enum_values s = [] \<or> list_ex (py_eq v) (fs_enum_values s)" "fs_kind s = ''array''"
    | "v \<noteq> VNone" "fs_enum_values s = [] \<or> list_ex (py_eq v) (fs_enum_values s)" "fs_kind s = ''object''"
    by blast
  then show ?case
  proof cases
    case 1
    with "2.prems" show ?thesis
      by (subst (asm) validate_field.simps) (auto simp: invalid_def split: if_splits)
  next
    case 2
    with scalar show ?thesis by simp
  next
    case array: 3
    with "2.prems" obtain xs t ys where *: "as_sequence v = Some xs" "fs_items s = Some t" "w = VList ys"
      "mapR (\<lambda>(i, x). validate_field x t (path @ ''['' @ nat_str i @ '']'')) (enumerate 0 xs) = Inr ys"
      by (subst (asm) validate_field.simps) (auto simp: bindR_Inr_iff invalid_def split: option.splits)
    have "map freeze_value ys = map freeze_value xs"
      using *(4) by (rule mapR_enumerate_freeze) (use "2.IH"(1) array * in auto)
    with * show ?thesis by (simp add: as_sequence_freeze)
  next
    case object: 4
    with "2.prems" obtain kvs items where *: "as_mapping v = Some kvs" "w = VDict items"
      "validate_object kvs (fs_properties s) (fs_allow_extra s) path = Inr items"
      by (subst (asm) validate_field.simps) (auto simp: bindR_Inr_iff invalid_def split: option.splits)
    with "2.IH"(2) object show ?thesis by (simp add: as_mapping_freeze id_def)
  qed
qed

section \<open>Freezing JSON\<close>

fun json_value :: "pyval \<Rightarrow> bool" where
  "json_value (VFloat t) \<longleftrightarrow> nonfinite_text t = None"
| "json_value (VList xs) \<longleftrightarrow> (\<forall>x \<in> set xs. json_value x)"
| "json_value (VTuple xs) \<longleftrightarrow> (\<forall>x \<in> set xs. json_value x)"
| "json_value (VDict kvs) \<longleftrightarrow> (\<forall>(k, v) \<in> set kvs. json_value v)"
| "json_value (VProxy kvs) \<longleftrightarrow> (\<forall>(k, v) \<in> set kvs. json_value v)"
| "json_value (VObj n) \<longleftrightarrow> False"
| "json_value _ \<longleftrightarrow> True"

lemma json_value_freeze [simp]: "json_value (freeze_value v) = json_value v"
  by (induction v rule: pyval_induct) force+

lemma mapR_enumerate_Inr:
  assumes "\<And>i x y. (i, x) \<in> set (enumerate n xs) \<Longrightarrow> f (i, x) = Inr y \<longleftrightarrow> P x \<and> y = g x"
  shows "mapR f (enumerate n xs) = Inr ys \<longleftrightarrow> (\<forall>x \<in> set xs. P x) \<and> ys = map g xs"
  using assms
proof (induction xs arbitrary: n ys)
  case (Cons x xs)
  have "mapR f (enumerate (Suc n) xs) = Inr zs \<longleftrightarrow> (\<forall>x \<in> set xs. P x) \<and> zs = map g xs" for zs
    by (rule Cons.IH) (use Cons.prems in auto)
  moreover have "f (n, x) = Inr y \<longleftrightarrow> P x \<and> y = g x" for y by (rule Cons.prems) simp
  ultimately show ?case by (auto simp: bindR_Inr_iff)
qed auto

lemma mapR_items_Inr:
  assumes "\<And>k v y. (k, v) \<in> set kvs \<Longrightarrow> f (k, v) = Inr y \<longleftrightarrow> P v \<and> y = (k, g v)"
  shows "mapR f kvs = Inr out \<longleftrightarrow> (\<forall>(k, v) \<in> set kvs. P v) \<and> out = map (map_prod id g) kvs"
  using assms
proof (induction kvs arbitrary: out)
  case (Cons x kvs)
  obtain k v where x: "x = (k, v)" by (cases x)
  have "mapR f kvs = Inr zs \<longleftrightarrow> (\<forall>(k, v) \<in> set kvs. P v) \<and> zs = map (map_prod id g) kvs" for zs
    by (rule Cons.IH) (use Cons.prems in auto)
  moreover have "f (k, v) = Inr y \<longleftrightarrow> P v \<and> y = (k, g v)" for y by (rule Cons.prems) (simp add: x)
  ultimately show ?case by (auto simp: bindR_Inr_iff x)
qed auto

lemma freeze_json_Inr: "freeze_json path v = Inr w \<longleftrightarrow> json_value v \<and> w = freeze_value v"
proof (induction path v arbitrary: w rule: freeze_json.induct)
  case (2 path kvs)
  have "mapR (\<lambda>(k, v). bindR (freeze_json (path @ ''.'' @ k) v) (\<lambda>v'. Inr (k, v'))) kvs = Inr items \<longleftrightarrow>
      (\<forall>(k, v) \<in> set kvs. json_value v) \<and> items = map (map_prod id freeze_value) kvs" for items
    by (rule mapR_items_Inr) (use 2 in \<open>auto simp: bindR_Inr_iff\<close>)
  then show ?case by (auto simp: bindR_Inr_iff)
next
  case (3 path kvs)
  have "mapR (\<lambda>(k, v). bindR (freeze_json (path @ ''.'' @ k) v) (\<lambda>v'. Inr (k, v'))) kvs = Inr items \<longleftrightarrow>
      (\<forall>(k, v) \<in> set kvs. json_value v) \<and> items = map (map_prod id freeze_value) kvs" for items
    by (rule mapR_items_Inr) (use 3 in \<open>auto simp: bindR_Inr_iff\<close>)
  then show ?case by (auto simp: bindR_Inr_iff)
next
  case (4 path xs)
  have "mapR (\<lambda>(i, x). freeze_json (path @ ''['' @ nat_str i @ '']'') x) (enumerate 0 xs) = Inr ys \<longleftrightarrow>
      (\<forall>x \<in> set xs. json_value x) \<and> ys = map freeze_value xs" for ys
    by (rule mapR_enumerate_Inr) (use 4 in auto)
  then show ?case by (auto simp: bindR_Inr_iff)
next
  case (5 path xs)
  have "mapR (\<lambda>(i, x). freeze_json (path @ ''['' @ nat_str i @ '']'') x) (enumerate 0 xs) = Inr ys \<longleftrightarrow>
      (\<forall>x \<in> set xs. json_value x) \<and> ys = map freeze_value xs" for ys
    by (rule mapR_enumerate_Inr) (use 5 in auto)
  then show ?case by (auto simp: bindR_Inr_iff)
qed auto

text \<open>\<open>freeze_json(value, path=...)\<close> of a mapping field, kept as its items.\<close>

definition freeze_json_at :: "string \<Rightarrow> pymap \<Rightarrow> pymap res" where
  "freeze_json_at path m =
     bindR (freeze_json path (VDict m)) (\<lambda>v. Inr (case v of VProxy items \<Rightarrow> items | _ \<Rightarrow> []))"

lemma freeze_json_at_Inr:
  "freeze_json_at path m = Inr m' \<longleftrightarrow> json_value (VDict m) \<and> m' = freeze_map m"
  using freeze_json_Inr [of path "VDict m"]
  by (auto simp: freeze_json_at_def freeze_map_def bindR_Inr_iff simp del: freeze_json.simps split: pyval.splits)

section \<open>The schema decides conformance\<close>

lemma schema_validate_Inr:
  "schema_validate s v label = Inr out \<longleftrightarrow> (\<exists>kvs. as_mapping v = Some kvs \<and>
     object_conforms (ks_fields s) (ks_allow_extra s) kvs \<and> json_value v \<and> out = freeze_map kvs)"
proof (cases "as_mapping v")
  case None
  then show ?thesis by (simp add: schema_validate_def invalid_def)
next
  case (Some kvs)
  then have jv: "json_value v \<longleftrightarrow> json_value (VDict kvs)" by (cases v) auto
  show ?thesis
  proof (cases "validate_object kvs (ks_fields s) (ks_allow_extra s) label")
    case (Inl e)
    then have "\<not> object_conforms (ks_fields s) (ks_allow_extra s) kvs"
      by (metis returns_simps(2) validate_returns_iff(1))
    with Inl Some show ?thesis by (simp add: schema_validate_def)
  next
    case (Inr items)
    then have conf: "object_conforms (ks_fields s) (ks_allow_extra s) kvs"
      by (metis returns_simps(1) validate_returns_iff(1))
    from validate_keeps(1) [OF Inr] have fr: "freeze_map items = freeze_map kvs"
      by (simp add: freeze_map_def)
    then have "json_value (VDict items) \<longleftrightarrow> json_value (VDict kvs)"
      by (metis json_value_freeze freeze_value.simps(8) freeze_map_def)
    then have eq: "freeze_json label (VDict items) = Inr w \<longleftrightarrow> json_value v \<and> w = VProxy (freeze_map kvs)" for w
      using freeze_json_Inr [of label "VDict items" w] fr jv by (simp add: freeze_map_def)
    have "schema_validate s v label = (case freeze_json label (VDict items) of
        Inr (VProxy items) \<Rightarrow> Inr items | Inr _ \<Rightarrow> Inr [] | Inl e \<Rightarrow> invalid label (exc_str e))"
      using Inr Some by (simp add: schema_validate_def)
    then show ?thesis
    proof (cases "freeze_json label (VDict items)")
      case (Inl e)
      then have "\<not> json_value v" using eq by auto
      with Inl Some \<open>schema_validate s v label = _\<close> show ?thesis by (simp add: invalid_def)
    next
      case (Inr w)
      with eq have "json_value v" "w = VProxy (freeze_map kvs)" by auto
      with Inr Some conf \<open>schema_validate s v label = _\<close> show ?thesis by auto
    qed
  qed
qed

text \<open>A schema built by its constructors, all the way down.\<close>

lemma size_in_items: "(k, t) \<in> set ps \<Longrightarrow> size t < Suc (size_list (size_prod (\<lambda>_. 0) size) ps)"
  for ps :: "(string \<times> FieldSchema) list"
  by (induction ps) auto

lemma size_in_properties: "(k, t) \<in> set (fs_properties s) \<Longrightarrow> size t < size s"
  using size_in_items [of k t "fs_properties s"] size_field_schema(2) [of s] by simp

function field_wf :: "FieldSchema \<Rightarrow> bool" where
  "field_wf s \<longleftrightarrow> field_schema_post_init s = Inr s \<and>
     (case fs_items s of None \<Rightarrow> True | Some t \<Rightarrow> field_wf t) \<and>
     list_all (\<lambda>(k, t). field_wf t) (fs_properties s)"
  by auto

termination
  by (relation "measure size") (auto simp: size_field_schema size_in_properties)

definition schema_wf :: "SkillSchema \<Rightarrow> bool" where
  "schema_wf s \<longleftrightarrow> skill_schema_post_init s = Inr s \<and> list_all (\<lambda>(k, t). field_wf t) (ks_fields s)"

definition validation_failure :: "py_exc \<Rightarrow> bool" where
  "validation_failure e \<longleftrightarrow> (\<exists>p m. e = SkillValidationError p m)"

declare field_wf.simps [simp del]

lemma object_checks_Inl: "object_checks kvs ps extra path = Inl e \<Longrightarrow> validation_failure e"
  by (auto simp: object_checks_def Let_def validation_failure_def split: list.splits if_splits)

lemma number_bounds_Inl: "validate_number_bounds v s path = Inl e \<Longrightarrow> validation_failure e"
  by (auto simp: validate_number_bounds_def validation_failure_def bindR_Inl_iff guardR_Inl_iff)

lemma validate_string_Inl: "validate_string x s path = Inl e \<Longrightarrow> validation_failure e"
  by (auto simp: validate_string_def validation_failure_def bindR_Inl_iff guardR_Inl_iff)

lemma field_wfD:
  assumes "field_wf s"
  shows "fs_kind s \<in> set field_kinds" and "fs_kind s = ''array'' \<Longrightarrow> \<exists>t. fs_items s = Some t \<and> field_wf t"
    and "list_all (\<lambda>(k, t). field_wf t) (fs_properties s)"
  using assms
  by (subst (asm) field_wf.simps; auto simp: field_schema_post_init_def bindR_Inr_iff split: option.splits)+

lemma validate_only_fails_validation:
  "list_all (\<lambda>(k, t). field_wf t) ps \<Longrightarrow> validate_object kvs ps extra path = Inl e \<Longrightarrow> validation_failure e"
  "field_wf s \<Longrightarrow> validate_field v s path = Inl e \<Longrightarrow> validation_failure e"
proof (induction kvs ps extra path and v s path arbitrary: e and e rule: validate_object_validate_field.induct)
  case (1 kvs ps extra path)
  from "1.prems"(2) consider "object_checks kvs ps extra path = Inl e"
    | name item s where "(name, item) \<in> set kvs" "map_of ps name = Some s"
        "validate_field item s (path @ ''.'' @ name) = Inl e"
    by (subst (asm) validate_object.simps)
      (auto simp: bindR_Inl_iff split: option.splits dest!: mapR_Inl)
  then show ?case
  proof cases
    case 2
    with "1.prems"(1) have "field_wf s" by (auto simp: list_all_iff dest: map_of_SomeD)
    with 2 "1.IH" show ?thesis by blast
  qed (rule object_checks_Inl)
next
  case (2 v s path)
  note wf = field_wfD [OF "2.prems"(1)]
  from "2.prems"(2) consider p m where "e = SkillValidationError p m"
    | "validate_number_bounds v s path = Inl e" | x where "validate_string x s path = Inl e"
    | xs t i x where "v \<noteq> VNone" "\<not> (fs_enum_values s \<noteq> [] \<and> \<not> list_ex (py_eq v) (fs_enum_values s))"
        "fs_kind s = ''array''" "as_sequence v = Some xs" "fs_items s = Some t" "(i, x) \<in> set (enumerate 0 xs)"
        "validate_field x t (path @ ''['' @ nat_str i @ '']'') = Inl e"
    | kvs where "v \<noteq> VNone" "\<not> (fs_enum_values s \<noteq> [] \<and> \<not> list_ex (py_eq v) (fs_enum_values s))"
        "fs_kind s = ''object''" "as_mapping v = Some kvs"
        "validate_object kvs (fs_properties s) (fs_allow_extra s) path = Inl e"
    using wf(1,2)
    by (subst (asm) validate_field.simps)
      (auto simp: bindR_Inl_iff invalid_def field_kinds_def split: option.splits if_splits pyval.splits
        dest!: mapR_Inl)
  then show ?case
  proof cases
    case 4
    with wf(2) "2.IH"(1) show ?thesis by fastforce
  next
    case 5
    with wf(3) "2.IH"(2) show ?thesis by simp
  qed (auto simp: validation_failure_def dest: number_bounds_Inl validate_string_Inl)
qed

lemma schema_validate_Inl:
  assumes "schema_wf s" and "schema_validate s v label = Inl e"
  shows "validation_failure e"
proof (cases "as_mapping v")
  case None
  with assms(2) show ?thesis by (auto simp: schema_validate_def invalid_def validation_failure_def)
next
  case (Some kvs)
  show ?thesis
  proof (cases "validate_object kvs (ks_fields s) (ks_allow_extra s) label")
    case (Inl e')
    with Some assms(2) have "e' = e" by (simp add: schema_validate_def)
    moreover have "list_all (\<lambda>(k, t). field_wf t) (ks_fields s)" using assms(1) by (simp add: schema_wf_def)
    from validate_only_fails_validation(1) [OF this Inl] have "validation_failure e'" .
    ultimately show ?thesis by simp
  next
    case (Inr items)
    with Some assms(2) show ?thesis
      by (cases "freeze_json label (VDict items)")
        (auto simp: schema_validate_def invalid_def validation_failure_def simp del: freeze_json.simps
          split: pyval.splits)
  qed
qed

end
