(* ===== verification/Skill_System.thy ===== *)
theory Skill_System
  imports Skill_Schema Engine_Models "HOL-Library.Product_Lexorder"
begin

text \<open>
  The skill system, \<^verbatim>\<open>backend/skill_system\<close>: references, definitions, the registry of
  exact versions, capabilities, results, and the executor that turns a \<open>StepReady\<close> decision
  into a normalised result.

  A skill implementation is code outside this part, so it is a function from validated
  inputs and context to a raw result or a failure; it is called once for each attempt of a
  step. A granted capability is known by the identity of its object.
\<close>

section \<open>References and definitions\<close>

fun split_on :: "char \<Rightarrow> string \<Rightarrow> string list" where
  "split_on c [] = [[]]"
| "split_on c (x # xs) =
     (if x = c then [] # split_on c xs
      else case split_on c xs of [] \<Rightarrow> [[x]] | p # ps \<Rightarrow> (x # p) # ps)"

record SkillReference =
  ref_name :: string
  ref_version :: string

definition skill_reference_post_init :: "SkillReference \<Rightarrow> SkillReference res" where
  "skill_reference_post_init r =
     bindR (guardR (ref_name r = [] \<or> CHR ''@'' \<in> set (ref_name r))
       (InvalidSkillReferenceError ''Skill reference name is invalid''))
     (\<lambda>_. bindR (guardR (ref_version r = [] \<or> CHR ''@'' \<in> set (ref_version r))
       (InvalidSkillReferenceError ''Skill reference version is invalid''))
     (\<lambda>_. Inr r))"

definition skill_reference_parse :: "string \<Rightarrow> SkillReference res" where
  "skill_reference_parse v =
     (case split_on (CHR ''@'') v of
        [name, version] \<Rightarrow> skill_reference_post_init \<lparr>ref_name = name, ref_version = version\<rparr>
      | _ \<Rightarrow> Inl (InvalidSkillReferenceError (''Skill reference must be name@version, got '' @ py_repr v)))"

definition skill_reference_str :: "SkillReference \<Rightarrow> string" where
  "skill_reference_str r = ref_name r @ ''@'' @ ref_version r"

definition lower_letter :: "char \<Rightarrow> bool" where
  "lower_letter c \<longleftrightarrow> CHR ''a'' \<le> c \<and> c \<le> CHR ''z''"

definition digit :: "char \<Rightarrow> bool" where
  "digit c \<longleftrightarrow> CHR ''0'' \<le> c \<and> c \<le> CHR ''9''"

text \<open>\<open>[a-z][a-z0-9_]*(\.[a-z][a-z0-9_]*)*\<close>, the whole string.\<close>

definition name_part :: "string \<Rightarrow> bool" where
  "name_part s = (case s of
     [] \<Rightarrow> False
   | c # r \<Rightarrow> lower_letter c \<and> list_all (\<lambda>x. lower_letter x \<or> digit x \<or> x = CHR ''_'') r)"

definition is_skill_name :: "string \<Rightarrow> bool" where
  "is_skill_name s \<longleftrightarrow> list_all name_part (split_on (CHR ''.'') s)"

text \<open>Semantic versions: three numerals, then optional pre-release and build identifiers.\<close>

definition semver_number :: "string \<Rightarrow> bool" where
  "semver_number s \<longleftrightarrow> s \<noteq> [] \<and> list_all digit s \<and> (s = ''0'' \<or> hd s \<noteq> CHR ''0'')"

definition semver_identifiers :: "string \<Rightarrow> bool" where
  "semver_identifiers s \<longleftrightarrow> list_all (\<lambda>p. p \<noteq> [] \<and> list_all (\<lambda>c. digit c \<or> lower_letter c \<or>
     (CHR ''A'' \<le> c \<and> c \<le> CHR ''Z'') \<or> c = CHR ''-'') p) (split_on (CHR ''.'') s)"

definition is_semver :: "string \<Rightarrow> bool" where
  "is_semver s =
     (case split_at (CHR ''+'') s of (rest, build) \<Rightarrow>
       case split_at (CHR ''-'') rest of (core, pre) \<Rightarrow>
         (case split_on (CHR ''.'') core of
            [a, b, c] \<Rightarrow> semver_number a \<and> semver_number b \<and> semver_number c | _ \<Rightarrow> False) \<and>
         (case pre of None \<Rightarrow> True | Some p \<Rightarrow> semver_identifiers p) \<and>
         (case build of None \<Rightarrow> True | Some p \<Rightarrow> semver_identifiers p))"

record SkillMetadata =
  km_required_permissions :: "string list"
  km_capabilities :: "string list"
  km_side_effect :: string
  km_idempotency_supported :: bool
  km_retry_safe :: bool
  km_default_timeout_seconds :: int
  km_implementation_entrypoint :: string
  km_api_version :: string

definition skill_metadata_post_init :: "SkillMetadata \<Rightarrow> SkillMetadata res" where
  "skill_metadata_post_init m =
     bindR (guardR (km_side_effect m \<notin> {''none'', ''read_external'', ''write_external'', ''execute_code''})
       (InvalidSkillDefinitionError (''Unsupported side-effect classification: '' @ km_side_effect m)))
     (\<lambda>_. bindR (guardR (km_default_timeout_seconds m \<le> 0)
       (InvalidSkillDefinitionError ''default_timeout_seconds must be positive''))
     (\<lambda>_. bindR (guardR (km_implementation_entrypoint m = [])
       (InvalidSkillDefinitionError ''implementation_entrypoint cannot be empty''))
     (\<lambda>_. bindR (guardR (km_api_version m = []) (InvalidSkillDefinitionError ''api_version cannot be empty''))
     (\<lambda>_. Inr m))))"

record SkillDefinition =
  kd_name :: string
  kd_version :: string
  kd_description :: string
  kd_input_schema :: SkillSchema
  kd_output_schema :: SkillSchema
  kd_metadata :: SkillMetadata

definition skill_definition_post_init :: "SkillDefinition \<Rightarrow> SkillDefinition res" where
  "skill_definition_post_init d =
     bindR (guardR (\<not> is_skill_name (kd_name d)) (InvalidSkillDefinitionError
       ''Skill name must be a lowercase dotted identifier using letters, digits, and underscores''))
     (\<lambda>_. bindR (guardR (\<not> is_semver (kd_version d)) (InvalidSkillDefinitionError
       (''Skill version must be semantic versioning, got '' @ py_repr (kd_version d))))
     (\<lambda>_. bindR (guardR (py_strip (kd_description d) = [])
       (InvalidSkillDefinitionError ''Skill description cannot be empty''))
     (\<lambda>_. Inr d)))"

section \<open>Capabilities and context\<close>

record SkillCapabilities =
  sc_paper_search :: "nat option"
  sc_source_content :: "nat option"
  sc_llm :: "nat option"
  sc_structured_generation :: "nat option"
  sc_artifact_storage :: "nat option"
  sc_provider_operations :: "nat option"
  sc_provider_execution_policy :: nat

definition restricted_to :: "string list \<Rightarrow> SkillCapabilities \<Rightarrow> SkillCapabilities" where
  "restricted_to declared c =
     \<lparr>sc_paper_search = (if ''paper_search'' \<in> set declared then sc_paper_search c else None),
      sc_source_content = (if ''source_content'' \<in> set declared then sc_source_content c else None),
      sc_llm = (if ''llm'' \<in> set declared then sc_llm c else None),
      sc_structured_generation =
        (if ''structured_generation'' \<in> set declared then sc_structured_generation c else None),
      sc_artifact_storage = (if ''artifact_storage'' \<in> set declared then sc_artifact_storage c else None),
      sc_provider_operations =
        (if ''provider_operations'' \<in> set declared then sc_provider_operations c else None),
      sc_provider_execution_policy = sc_provider_execution_policy c\<rparr>"

text \<open>\<open>require_llm\<close> and its siblings.\<close>

definition capability_require :: "string \<Rightarrow> 'a option \<Rightarrow> 'a res" where
  "capability_require name v = (case v of
     None \<Rightarrow> Inl (SkillCapabilityDeniedError (''Skill capability '' @ name @ '' was not granted''))
   | Some x \<Rightarrow> Inr x)"

record SkillExecutionContext =
  kc_workflow_run_id :: string
  kc_workflow_id :: string
  kc_workflow_version :: string
  kc_step_id :: string
  kc_step_run_id :: string
  kc_attempt :: int
  kc_capabilities :: SkillCapabilities
  kc_project_id :: string

section \<open>Results\<close>

record EmittedArtifactMetadata =
  em_artifact_id :: string
  em_storage_key :: string
  em_checksum :: string
  em_media_type :: string
  em_size :: int
  em_logical_name :: string
  em_logical_artifact_id :: string
  em_version :: int
  em_kind :: string
  em_metadata :: pymap

definition emitted_artifact_post_init :: "EmittedArtifactMetadata \<Rightarrow> EmittedArtifactMetadata res" where
  "emitted_artifact_post_init a =
     bindR (forR [(em_artifact_id a, ''artifact_id''), (em_storage_key a, ''storage_key''),
         (em_checksum a, ''checksum''), (em_media_type a, ''media_type''), (em_logical_name a, ''logical_name'')]
       (\<lambda>(value, name). guardR (value = [])
          (ValueErrorMsg (''EmittedArtifactMetadata.'' @ name @ '' cannot be empty''))))
     (\<lambda>_. bindR (guardR (char_of (92 :: nat) \<in> set (em_storage_key a) \<or> startswith (em_storage_key a) ''/'' \<or>
           list_ex (\<lambda>p. p \<in> {'''', ''.'', ''..''}) (split_on (CHR ''/'') (em_storage_key a)))
       (ValueErrorMsg ''EmittedArtifactMetadata.storage_key must be relative and safe''))
     (\<lambda>_. bindR (guardR (\<not> is_sha256 (em_checksum a))
       (ValueErrorMsg ''EmittedArtifactMetadata.checksum must be SHA-256''))
     (\<lambda>_. bindR (guardR (em_size a < 0) (ValueErrorMsg ''EmittedArtifactMetadata.size cannot be negative''))
     (\<lambda>_. bindR (guardR (em_version a \<le> 0)
       (ValueErrorMsg ''EmittedArtifactMetadata.version must be positive''))
     (\<lambda>_. bindR (freeze_json_at ''artifact.metadata'' (em_metadata a))
     (\<lambda>m. Inr (a\<lparr>em_metadata := m\<rparr>)))))))"

record SkillError =
  ke_code :: string
  ke_message :: string
  ke_retryable :: bool
  ke_details :: pymap

definition skill_error_post_init :: "SkillError \<Rightarrow> SkillError res" where
  "skill_error_post_init e =
     bindR (guardR (ke_code e = []) (ValueErrorMsg ''Skill error code cannot be empty''))
     (\<lambda>_. bindR (guardR (ke_message e = []) (ValueErrorMsg ''Skill error message cannot be empty''))
     (\<lambda>_. bindR (freeze_json_at ''error.details'' (ke_details e))
     (\<lambda>d. Inr (e\<lparr>ke_details := d\<rparr>))))"

record SkillResult =
  kr_success :: bool
  kr_output_data :: pymap
  kr_error :: "SkillError option"
  kr_execution_metadata :: pymap
  kr_emitted_artifacts :: "EmittedArtifactMetadata list"
  kr_provider_usage :: "ProviderUsage list"

definition skill_result_post_init :: "SkillResult \<Rightarrow> SkillResult res" where
  "skill_result_post_init r =
     bindR (freeze_json_at ''output_data'' (kr_output_data r))
     (\<lambda>outs. bindR (freeze_json_at ''execution_metadata'' (kr_execution_metadata r))
     (\<lambda>md. bindR (guardR (kr_success r \<and> kr_error r \<noteq> None)
       (ValueErrorMsg ''Successful SkillResult cannot contain an error''))
     (\<lambda>_. bindR (guardR (\<not> kr_success r \<and> kr_error r = None)
       (ValueErrorMsg ''Failed SkillResult must contain an error''))
     (\<lambda>_. bindR (guardR (\<not> kr_success r \<and> outs \<noteq> [])
       (ValueErrorMsg ''Failed SkillResult cannot contain output data''))
     (\<lambda>_. Inr (r\<lparr>kr_output_data := outs, kr_execution_metadata := md\<rparr>))))))"

definition skill_succeeded ::
  "pymap \<Rightarrow> pymap \<Rightarrow> EmittedArtifactMetadata list \<Rightarrow> ProviderUsage list \<Rightarrow> SkillResult res" where
  "skill_succeeded outs md emitted usage =
     skill_result_post_init \<lparr>kr_success = True, kr_output_data = outs, kr_error = None,
       kr_execution_metadata = md, kr_emitted_artifacts = emitted, kr_provider_usage = usage\<rparr>"

definition skill_failed :: "SkillError \<Rightarrow> pymap \<Rightarrow> SkillResult res" where
  "skill_failed e md =
     skill_result_post_init \<lparr>kr_success = False, kr_output_data = [], kr_error = Some e,
       kr_execution_metadata = md, kr_emitted_artifacts = [], kr_provider_usage = []\<rparr>"

section \<open>Registry\<close>

text \<open>What an implementation returns: a plain value or the envelope; and how it fails.\<close>

datatype raw_result =
    Plain pyval
  | Envelope pymap "EmittedArtifactMetadata list" "ProviderUsage list"

datatype skill_failure =
    CapabilityDenied string
  | ExecutionFailure string string bool pymap
  | ProviderFailure string string bool pymap
  | ValidationFailure string string
  | OtherException string

type_synonym implementation = "pymap \<Rightarrow> SkillExecutionContext \<Rightarrow> skill_failure + raw_result"

type_synonym registry = "((string \<times> string) \<times> (SkillDefinition \<times> implementation)) list"

definition definition_reference :: "SkillDefinition \<Rightarrow> SkillReference res" where
  "definition_reference d = skill_reference_post_init \<lparr>ref_name = kd_name d, ref_version = kd_version d\<rparr>"

definition register :: "SkillDefinition \<Rightarrow> implementation \<Rightarrow> (registry, unit) op" where
  "register d impl =
     (let key = (kd_name d, kd_version d) in
      bindE (getsE (\<lambda>r. map_of r key))
      (\<lambda>found. case found of
         Some _ \<Rightarrow> bindE (readE (\<lambda>_. definition_reference d))
           (\<lambda>ref. raiseE (DuplicateSkillRegistrationError
             (''Skill '' @ skill_reference_str ref @ '' is already registered'')))
       | None \<Rightarrow> modifyE (\<lambda>r. AList.update key (d, impl) r)))"

definition resolve_skill :: "registry \<Rightarrow> SkillReference \<Rightarrow> (SkillDefinition \<times> implementation) res" where
  "resolve_skill r ref =
     (case map_of r (ref_name ref, ref_version ref) of
        Some s \<Rightarrow> Inr s
      | None \<Rightarrow> Inl (SkillNotFoundError (''Skill '' @ skill_reference_str ref @ '' is not registered'')))"

definition registry_get_definition :: "registry \<Rightarrow> string \<Rightarrow> string \<Rightarrow> SkillDefinition res" where
  "registry_get_definition r name version =
     bindR (skill_reference_post_init \<lparr>ref_name = name, ref_version = version\<rparr>)
     (\<lambda>ref. bindR (resolve_skill r ref) (\<lambda>s. Inr (fst s)))"

definition registry_list_definitions :: "registry \<Rightarrow> SkillDefinition list" where
  "registry_list_definitions r = map (fst \<circ> snd) (sort_key fst r)"

section \<open>Executor\<close>

definition execution_metadata :: "decision_base \<Rightarrow> step_ready \<Rightarrow> SkillReference \<Rightarrow> pymap" where
  "execution_metadata b y ref =
     [(''skill_name'', VStr (ref_name ref)), (''skill_version'', VStr (ref_version ref)),
      (''workflow_run_id'', VStr (db_workflow_run_id b)), (''step_id'', VStr (sy_step_id y)),
      (''step_run_id'', VStr (sy_step_run_id y)), (''attempt'', VInt (sy_attempt y))]"

definition failed_with :: "string \<Rightarrow> string \<Rightarrow> bool \<Rightarrow> pymap \<Rightarrow> pymap \<Rightarrow> SkillResult res" where
  "failed_with code message retryable details md =
     bindR (skill_error_post_init
       \<lparr>ke_code = code, ke_message = message, ke_retryable = retryable, ke_details = details\<rparr>)
     (\<lambda>e. skill_failed e md)"

text \<open>The \<open>except\<close> clauses around the call of the implementation.\<close>

fun failure_result :: "skill_failure \<Rightarrow> pymap \<Rightarrow> SkillResult res" where
  "failure_result (CapabilityDenied m) md = failed_with ''CAPABILITY_DENIED'' m False [] md"
| "failure_result (ExecutionFailure code m retryable details) md = failed_with code m retryable details md"
| "failure_result (ProviderFailure category m retryable details) md =
     failed_with category m retryable details md"
| "failure_result (ValidationFailure path m) md =
     failed_with ''INVALID_SKILL_OUTPUT'' (path @ '': '' @ m) False [(''path'', VStr path)] md"
| "failure_result (OtherException t) md =
     failed_with ''SKILL_EXECUTION_ERROR'' ''Skill implementation failed'' False
       [(''exception_type'', VStr t)] md"

text \<open>An exception of the output validation, seen by the same \<open>except\<close> clauses.\<close>

fun as_skill_failure :: "py_exc \<Rightarrow> skill_failure" where
  "as_skill_failure (SkillValidationError path m) = ValidationFailure path m"
| "as_skill_failure (SkillCapabilityDeniedError m) = CapabilityDenied m"
| "as_skill_failure e = OtherException ''AssertionError''"

fun raw_output :: "raw_result \<Rightarrow> pyval" where
  "raw_output (Plain v) = v"
| "raw_output (Envelope m _ _) = VProxy m"

fun raw_artifacts :: "raw_result \<Rightarrow> EmittedArtifactMetadata list" where
  "raw_artifacts (Plain v) = []"
| "raw_artifacts (Envelope _ a _) = a"

fun raw_usage :: "raw_result \<Rightarrow> ProviderUsage list" where
  "raw_usage (Plain v) = []"
| "raw_usage (Envelope _ _ u) = u"

record executor =
  ex_registry :: registry
  ex_capability_provider :: "(decision_base \<times> step_ready \<Rightarrow> SkillCapabilities) option"

definition no_capabilities :: SkillCapabilities where
  "no_capabilities = \<lparr>sc_paper_search = None, sc_source_content = None, sc_llm = None,
     sc_structured_generation = None, sc_artifact_storage = None, sc_provider_operations = None,
     sc_provider_execution_policy = 0\<rparr>"

definition skill_context ::
  "executor \<Rightarrow> decision_base \<Rightarrow> step_ready \<Rightarrow> SkillDefinition \<Rightarrow> string \<Rightarrow> SkillExecutionContext" where
  "skill_context x b y d project_id =
     \<lparr>kc_workflow_run_id = db_workflow_run_id b, kc_workflow_id = db_workflow_id b,
      kc_workflow_version = db_workflow_version b, kc_step_id = sy_step_id y,
      kc_step_run_id = sy_step_run_id y, kc_attempt = sy_attempt y,
      kc_capabilities = restricted_to (km_capabilities (kd_metadata d))
        (case ex_capability_provider x of None \<Rightarrow> no_capabilities | Some f \<Rightarrow> f (b, y)),
      kc_project_id = project_id\<rparr>"

definition run_skill ::
  "SkillDefinition \<Rightarrow> implementation \<Rightarrow> pymap \<Rightarrow> SkillExecutionContext \<Rightarrow> pymap \<Rightarrow> SkillResult res" where
  "run_skill d impl inputs context md =
     (case impl inputs context of
        Inl f \<Rightarrow> failure_result f md
      | Inr raw \<Rightarrow>
          (case schema_validate (kd_output_schema d) (raw_output raw) ''output'' of
             Inl e \<Rightarrow> failure_result (as_skill_failure e) md
           | Inr outs \<Rightarrow> skill_succeeded outs md (raw_artifacts raw) (raw_usage raw)))"

definition execute_skill ::
  "executor \<Rightarrow> decision_base \<Rightarrow> step_ready \<Rightarrow> SkillReference \<Rightarrow> pymap \<Rightarrow> string \<Rightarrow> SkillResult res" where
  "execute_skill x b y ref resolved_inputs project_id =
     bindR (skill_reference_parse (sy_skill_ref y))
     (\<lambda>pinned. bindR (guardR (pinned \<noteq> ref) (SkillDecisionMismatchError
        (''StepReady pins '' @ skill_reference_str pinned @ '', not '' @ skill_reference_str ref)))
     (\<lambda>_. bindR (case freeze_json ''resolved_inputs'' (VDict resolved_inputs) of
          Inl e \<Rightarrow> Inl (SkillDecisionMismatchError (exc_str e)) | Inr v \<Rightarrow> Inr v)
     (\<lambda>normalized. bindR (guardR (\<not> py_eq normalized (VProxy (sy_resolved_inputs y)))
        (SkillDecisionMismatchError
          ''Executor resolved_inputs do not match the immutable StepReady inputs''))
     (\<lambda>_. bindR (resolve_skill (ex_registry x) ref)
     (\<lambda>(d, impl). let md = execution_metadata b y ref in
        case schema_validate (kd_input_schema d) (VDict resolved_inputs) ''input'' of
          Inl (SkillValidationError path m) \<Rightarrow>
            failed_with ''INVALID_SKILL_INPUT'' (path @ '': '' @ m) False [(''path'', VStr path)] md
        | Inl e \<Rightarrow> Inl e
        | Inr validated \<Rightarrow> run_skill d impl validated (skill_context x b y d project_id) md)))))"

section \<open>The deterministic skills\<close>

text \<open>\<^verbatim>\<open>backend/skill_system/runtime/fake_skills.py\<close>\<close>

definition plain_field :: "string \<Rightarrow> FieldSchema option \<Rightarrow> FieldSchema" where
  "plain_field kind items = FieldSchema kind True False items [] False [] None None None None"

definition object_schema :: "(string \<times> FieldSchema) list \<Rightarrow> SkillSchema" where
  "object_schema schemas = \<lparr>ks_fields = schemas, ks_allow_extra = False\<rparr>"

definition builtin_metadata :: "string \<Rightarrow> SkillMetadata" where
  "builtin_metadata entrypoint =
     \<lparr>km_required_permissions = [], km_capabilities = [], km_side_effect = ''none'',
      km_idempotency_supported = True, km_retry_safe = True, km_default_timeout_seconds = 30,
      km_implementation_entrypoint = entrypoint, km_api_version = ''reagent.skill/v1alpha1''\<rparr>"

definition MOCK_PAPER_SEARCH :: SkillDefinition where
  "MOCK_PAPER_SEARCH =
     \<lparr>kd_name = ''mock_paper_search'', kd_version = ''1.0.0'',
      kd_description = ''Return deterministic mock paper titles for a research query.'',
      kd_input_schema = object_schema [(''query'', plain_field ''string'' None)],
      kd_output_schema = object_schema
        [(''papers'', plain_field ''array'' (Some (plain_field ''string'' None)))],
      kd_metadata = builtin_metadata ''builtin:mock_paper_search''\<rparr>"

definition MOCK_SUMMARY :: SkillDefinition where
  "MOCK_SUMMARY =
     \<lparr>kd_name = ''mock_summary'', kd_version = ''1.0.0'',
      kd_description = ''Create a deterministic summary from mock paper titles.'',
      kd_input_schema = object_schema
        [(''papers'', plain_field ''array'' (Some (plain_field ''string'' None)))],
      kd_output_schema = object_schema [(''summary'', plain_field ''string'' None)],
      kd_metadata = builtin_metadata ''builtin:mock_summary''\<rparr>"

definition mock_paper_search :: implementation where
  "mock_paper_search inputs context =
     (case map_of inputs ''query'' of
        None \<Rightarrow> Inl (OtherException ''KeyError'')
      | Some (VStr q) \<Rightarrow>
          (let query = py_strip q in
           if query = [] then
             Inl (ExecutionFailure ''EMPTY_QUERY'' ''query must contain non-whitespace text'' False [])
           else Inr (Plain (VDict [(''papers'', VList [VStr (''Mock Foundations of '' @ query),
                  VStr (''Mock Advances in '' @ query)])])))
      | Some _ \<Rightarrow> Inl (OtherException ''AttributeError''))"

definition text_of :: "pyval \<Rightarrow> string option" where
  "text_of v = (case v of VStr s \<Rightarrow> Some s | _ \<Rightarrow> None)"

definition mock_summary :: implementation where
  "mock_summary inputs context =
     (case map_of inputs ''papers'' of
        None \<Rightarrow> Inl (OtherException ''KeyError'')
      | Some v \<Rightarrow>
          (case as_sequence v of
             None \<Rightarrow> Inl (OtherException ''TypeError'')
           | Some papers \<Rightarrow>
               if papers = [] then
                 Inl (ExecutionFailure ''EMPTY_PAPERS''
                   ''at least one paper is required to create a summary'' False [])
               else if list_all (\<lambda>p. text_of p \<noteq> None) papers then
                 Inr (Plain (VDict [(''summary'', VStr (''Mock summary: '' @
                   join ''; '' (map (the \<circ> text_of) papers)))]))
               else Inl (OtherException ''TypeError'')))"

definition register_fake_skills :: "(registry, unit) op" where
  "register_fake_skills =
     thenE (register MOCK_PAPER_SEARCH mock_paper_search) (register MOCK_SUMMARY mock_summary)"

section \<open>References parse and print\<close>

lemma split_on_notin: "c \<notin> set a \<Longrightarrow> split_on c a = [a]"
  by (induction a) auto

lemma split_on_append: "c \<notin> set a \<Longrightarrow> split_on c (a @ c # b) = a # split_on c b"
  by (induction a) auto

lemma split_on_not_Nil [simp]: "split_on c s \<noteq> []"
  by (induction s) (auto split: list.splits)

lemma split_on_pair: "split_on c s = [a, b] \<longleftrightarrow> s = a @ c # b \<and> c \<notin> set a \<and> c \<notin> set b"
proof
  show "s = a @ c # b \<and> c \<notin> set a \<and> c \<notin> set b" if "split_on c s = [a, b]"
    using that
  proof (induction s arbitrary: a b)
    case (Cons x s)
    have one: "t = p \<and> c \<notin> set p" if "split_on c t = [p]" for t p
      using that by (induction t arbitrary: p) (auto split: if_splits list.splits)
    from Cons show ?case by (auto split: if_splits list.splits dest: one)
  qed simp
qed (auto simp: split_on_append split_on_notin)

lemma skill_reference_post_init_Inr:
  "skill_reference_post_init r = Inr r' \<longleftrightarrow> r' = r \<and> ref_name r \<noteq> [] \<and> CHR ''@'' \<notin> set (ref_name r) \<and>
     ref_version r \<noteq> [] \<and> CHR ''@'' \<notin> set (ref_version r)"
  by (auto simp: skill_reference_post_init_def bindR_Inr_iff)

lemma skill_reference_parse_Inr:
  "skill_reference_parse v = Inr r \<longleftrightarrow> skill_reference_post_init r = Inr r \<and> v = skill_reference_str r"
proof
  assume "skill_reference_parse v = Inr r"
  then obtain a b where "split_on (CHR ''@'') v = [a, b]"
      "skill_reference_post_init \<lparr>ref_name = a, ref_version = b\<rparr> = Inr r"
    by (auto simp: skill_reference_parse_def split: list.splits)
  then show "skill_reference_post_init r = Inr r \<and> v = skill_reference_str r"
    by (auto simp: split_on_pair skill_reference_post_init_Inr skill_reference_str_def)
next
  assume "skill_reference_post_init r = Inr r \<and> v = skill_reference_str r"
  then have "split_on (CHR ''@'') v = [ref_name r, ref_version r]"
      "skill_reference_post_init \<lparr>ref_name = ref_name r, ref_version = ref_version r\<rparr> = Inr r"
    by (auto simp: split_on_pair skill_reference_post_init_Inr skill_reference_str_def)
  then show "skill_reference_parse v = Inr r" by (simp add: skill_reference_parse_def)
qed

section \<open>Registry and executor lemmas\<close>

text \<open>Registration never replaces a version, and what is registered resolves.\<close>

lemma register_result:
  assumes "register d impl r = (Inr (), r')"
  shows "map_of r (kd_name d, kd_version d) = None"
    and "map_of r' = (map_of r)((kd_name d, kd_version d) \<mapsto> (d, impl))"
  using assms
  by (auto simp: register_def Let_def op_simps update_conv' split: option.splits sum.splits)

lemma register_refused: "register d impl r = (Inl e, r') \<Longrightarrow> r' = r"
  by (auto simp: register_def Let_def op_simps split: option.splits sum.splits)

lemma skill_succeeded_Inr:
  "skill_succeeded outs md emitted usage = Inr r \<Longrightarrow>
     kr_success r \<and> kr_output_data r = freeze_map outs \<and> kr_error r = None \<and>
     kr_emitted_artifacts r = emitted \<and> kr_provider_usage r = usage"
  by (auto simp: skill_succeeded_def skill_result_post_init_def bindR_Inr_iff freeze_json_at_Inr)

lemma skill_failed_Inr:
  "skill_failed e md = Inr r \<Longrightarrow> \<not> kr_success r \<and> kr_error r = Some e \<and> kr_output_data r = [] \<and>
     kr_emitted_artifacts r = [] \<and> kr_provider_usage r = []"
  by (auto simp: skill_failed_def skill_result_post_init_def bindR_Inr_iff freeze_json_at_Inr freeze_map_def)

lemma failed_with_Inr:
  assumes "failed_with code message retryable details md = Inr r"
  shows "\<not> kr_success r \<and> kr_output_data r = [] \<and> (\<exists>e. kr_error r = Some e \<and> ke_code e = code \<and>
    ke_message e = message \<and> ke_retryable e = retryable)"
  using assms by (auto simp: failed_with_def skill_error_post_init_def bindR_Inr_iff dest!: skill_failed_Inr)

lemma failure_result_Inr: "failure_result f md = Inr r \<Longrightarrow> \<not> kr_success r \<and> (\<exists>e. kr_error r = Some e)"
  by (cases f) (auto dest!: failed_with_Inr)

text \<open>A failure is reported as a result whenever its code and message are not empty and its
  details are JSON.\<close>

lemma failed_with_total:
  assumes "code \<noteq> []" and "message \<noteq> []" and "json_value (VDict details)" and "json_value (VDict md)"
  shows "\<exists>r. failed_with code message retryable details md = Inr r"
proof -
  have "freeze_json_at path m = Inr (freeze_map m)" if "json_value (VDict m)" for path m
    using that by (simp add: freeze_json_at_Inr)
  moreover have "json_value (VDict [])" by simp
  ultimately show ?thesis using assms
    by (simp add: failed_with_def skill_error_post_init_def skill_failed_def skill_result_post_init_def
        guardR_def freeze_map_def del: json_value.simps)
qed

end
