(* ===== verification/Skill_Claims.thy ===== *)
theory Skill_Claims
  imports Skill_System
begin

text \<open>
  Properties of the skill system: a schema is a type that its validation decides, and the
  executor turns every outcome of an implementation into a normalised result.
\<close>

section \<open>Outcomes\<close>

text \<open>What a schema asks of a value, and what a failure must have to be reported.\<close>

definition schema_accepts :: "SkillSchema \<Rightarrow> pyval \<Rightarrow> pymap \<Rightarrow> bool" where
  "schema_accepts s v kvs \<longleftrightarrow>
     as_mapping v = Some kvs \<and> object_conforms (ks_fields s) (ks_allow_extra s) kvs \<and> json_value v"

fun reportable :: "skill_failure \<Rightarrow> bool" where
  "reportable (CapabilityDenied m) \<longleftrightarrow> m \<noteq> []"
| "reportable (ExecutionFailure code m _ details) \<longleftrightarrow> code \<noteq> [] \<and> m \<noteq> [] \<and> json_value (VDict details)"
| "reportable (ProviderFailure code m _ details) \<longleftrightarrow> code \<noteq> [] \<and> m \<noteq> [] \<and> json_value (VDict details)"
| "reportable _ \<longleftrightarrow> True"

fun failure_code :: "skill_failure \<Rightarrow> string" where
  "failure_code (CapabilityDenied m) = ''CAPABILITY_DENIED''"
| "failure_code (ExecutionFailure code _ _ _) = code"
| "failure_code (ProviderFailure code _ _ _) = code"
| "failure_code (ValidationFailure _ _) = ''INVALID_SKILL_OUTPUT''"
| "failure_code (OtherException _) = ''SKILL_EXECUTION_ERROR''"

fun failure_retryable :: "skill_failure \<Rightarrow> bool" where
  "failure_retryable (ExecutionFailure _ _ retryable _) = retryable"
| "failure_retryable (ProviderFailure _ _ retryable _) = retryable"
| "failure_retryable _ = False"

definition fails_with :: "SkillResult \<Rightarrow> string \<Rightarrow> bool \<Rightarrow> bool" where
  "fails_with r code retryable \<longleftrightarrow> \<not> kr_success r \<and>
     map_option (\<lambda>e. (ke_code e, ke_retryable e)) (kr_error r) = Some (code, retryable) \<and>
     kr_output_data r = [] \<and> kr_emitted_artifacts r = [] \<and> kr_provider_usage r = []"

definition succeeds_with :: "SkillResult \<Rightarrow> pymap \<Rightarrow> raw_result \<Rightarrow> bool" where
  "succeeds_with r outs raw \<longleftrightarrow> kr_success r \<and> kr_error r = None \<and> kr_output_data r = outs \<and>
     kr_emitted_artifacts r = raw_artifacts raw \<and> kr_provider_usage r = raw_usage raw"

text \<open>A result that fails, and a \<open>ValueError\<close> that leaves the executor.\<close>

definition returns_failure :: "SkillResult res \<Rightarrow> string \<Rightarrow> bool \<Rightarrow> bool" where
  "returns_failure res code retryable \<longleftrightarrow> (\<exists>r. res = Inr r \<and> fails_with r code retryable)"

definition raises_value_error :: "SkillResult res \<Rightarrow> bool" where
  "raises_value_error res \<longleftrightarrow> (\<exists>m. res = Inl (ValueErrorMsg m))"

lemma failed_with_reports:
  assumes "code \<noteq> []" and "message \<noteq> []" and "json_value (VDict details)" and "json_value (VDict md)"
  shows "returns_failure (failed_with code message retryable details md) code retryable"
proof -
  from failed_with_total [OF assms] obtain r where r: "failed_with code message retryable details md = Inr r" ..
  then have "fails_with r code retryable"
    by (auto simp: failed_with_def skill_error_post_init_def fails_with_def bindR_Inr_iff dest!: skill_failed_Inr)
  with r show ?thesis by (simp add: returns_failure_def)
qed

lemma freeze_json_Inl: "freeze_json path v = Inl e \<Longrightarrow> \<exists>m. e = ValueErrorMsg m"
proof (induction path v rule: freeze_json.induct)
  case (2 path kvs)
  then show ?case by (auto simp: bindR_Inl_iff dest!: mapR_Inl)
next
  case (3 path kvs)
  then show ?case by (auto simp: bindR_Inl_iff dest!: mapR_Inl)
next
  case (4 path xs)
  then show ?case by (auto simp: bindR_Inl_iff dest!: mapR_Inl)
next
  case (5 path xs)
  then show ?case by (auto simp: bindR_Inl_iff dest!: mapR_Inl)
qed (auto split: option.splits if_splits)

text \<open>The error value refuses an empty code, an empty message and details that are not JSON.\<close>

lemma failed_with_raises:
  assumes "\<not> (code \<noteq> [] \<and> message \<noteq> [] \<and> json_value (VDict details))"
  shows "raises_value_error (failed_with code message retryable details md)"
proof (cases "code = [] \<or> message = []")
  case True
  then show ?thesis by (auto simp: failed_with_def skill_error_post_init_def guardR_def raises_value_error_def)
next
  case False
  with assms obtain e where "freeze_json ''error.details'' (VDict details) = Inl e"
    using freeze_json_Inr [of "''error.details''" "VDict details"]
    by (cases "freeze_json ''error.details'' (VDict details)") (auto simp del: freeze_json.simps json_value.simps)
  with False freeze_json_Inl [OF this] show ?thesis
    by (auto simp: failed_with_def skill_error_post_init_def guardR_def raises_value_error_def freeze_json_at_def
        simp del: freeze_json.simps)
qed

lemma failure_result_decided:
  assumes "json_value (VDict md)"
  shows "if reportable f then returns_failure (failure_result f md) (failure_code f) (failure_retryable f)
    else raises_value_error (failure_result f md)"
  using assms by (cases f) (auto intro!: failed_with_reports failed_with_raises simp del: json_value.simps, simp_all)

lemma execution_metadata_json: "json_value (VDict (execution_metadata b y ref))"
  by (simp add: execution_metadata_def)

lemma schema_validate_accepts:
  "schema_validate s v label = Inr out \<longleftrightarrow> (\<exists>kvs. schema_accepts s v kvs \<and> out = freeze_map kvs)"
  by (auto simp: schema_validate_Inr schema_accepts_def)

lemma schema_refuses:
  assumes "schema_wf s" and "schema_validate s v label = Inl e"
  shows "\<exists>p m. e = SkillValidationError p m" and "\<nexists>kvs. schema_accepts s v kvs"
  using schema_validate_Inl [OF assms] schema_validate_accepts [of s v label] assms(2)
  by (auto simp: validation_failure_def)

lemma json_value_freeze_map: "json_value (VDict (freeze_map m)) = json_value (VDict m)"
  using json_value_freeze [of "VDict m"] by (simp add: freeze_map_def)

lemma skill_succeeded_total:
  assumes "json_value (VDict outs)" and "json_value (VDict md)"
  shows "\<exists>r. skill_succeeded outs md emitted usage = Inr r"
proof -
  have "freeze_json_at path m = Inr (freeze_map m)" if "json_value (VDict m)" for path m
    using that by (simp add: freeze_json_at_Inr)
  with assms show ?thesis
    by (simp add: skill_succeeded_def skill_result_post_init_def guardR_def del: json_value.simps)
qed

lemma schema_accepts_unique: "schema_accepts s v a \<Longrightarrow> schema_accepts s v b \<Longrightarrow> a = b"
  by (simp add: schema_accepts_def)

lemma schema_accepts_json: "schema_accepts s v kvs \<Longrightarrow> json_value (VDict kvs)"
  by (cases v) (auto simp: schema_accepts_def)

text \<open>The implementation ran: its failure is reported, its output is validated.\<close>

lemma run_skill_outcome:
  assumes "schema_wf (kd_output_schema d)" and "json_value (VDict md)"
  shows "case impl inputs context of
       Inl f \<Rightarrow> if reportable f then returns_failure (run_skill d impl inputs context md) (failure_code f) (failure_retryable f)
         else raises_value_error (run_skill d impl inputs context md)
     | Inr raw \<Rightarrow> if \<exists>kvs. schema_accepts (kd_output_schema d) (raw_output raw) kvs
         then \<exists>r kvs. run_skill d impl inputs context md = Inr r \<and>
           schema_accepts (kd_output_schema d) (raw_output raw) kvs \<and> succeeds_with r (freeze_map kvs) raw
         else returns_failure (run_skill d impl inputs context md) ''INVALID_SKILL_OUTPUT'' False"
proof (cases "impl inputs context")
  case (Inl f)
  with failure_result_decided [OF assms(2), of f] show ?thesis by (simp add: run_skill_def)
next
  case (Inr raw)
  show ?thesis
  proof (cases "schema_validate (kd_output_schema d) (raw_output raw) ''output''")
    case (Inl e)
    from schema_refuses(1) [OF assms(1) Inl] obtain p m where e: "e = SkillValidationError p m" by blast
    from schema_refuses(2) [OF assms(1) Inl] Inr Inl e failure_result_decided [OF assms(2), of "ValidationFailure p m"]
    show ?thesis by (simp add: run_skill_def)
  next
    case (Inr outs)
    then obtain kvs where kvs: "schema_accepts (kd_output_schema d) (raw_output raw) kvs" "outs = freeze_map kvs"
      by (auto simp: schema_validate_accepts)
    then have "json_value (VDict outs)" by (simp add: json_value_freeze_map schema_accepts_json del: json_value.simps)
    from skill_succeeded_total [OF this assms(2)] obtain r where
      r: "skill_succeeded outs md (raw_artifacts raw) (raw_usage raw) = Inr r" by blast
    with skill_succeeded_Inr [OF r] kvs \<open>impl inputs context = Inr raw\<close> Inr show ?thesis
      by (auto simp: run_skill_def succeeds_with_def)
  qed
qed

section \<open>Properties\<close>

text \<open>
  C9. A schema is a type and its validation decides membership: \<open>SkillSchema.validate\<close> of a
  well-formed schema returns exactly for the JSON mappings that conform to it, the value it
  returns is that mapping deeply frozen and nothing else, and every other value is refused
  with \<open>SkillValidationError\<close>, never with another exception.
\<close>

theorem schema_validation_decides_the_type:
  assumes "schema_wf s"
  shows "case schema_validate s v label of
      Inr out \<Rightarrow> \<exists>kvs. schema_accepts s v kvs \<and> out = freeze_map kvs
    | Inl e \<Rightarrow> validation_failure e \<and> (\<nexists>kvs. schema_accepts s v kvs)"
proof (cases "schema_validate s v label")
  case (Inl e)
  with schema_refuses [OF assms Inl] show ?thesis by (simp add: validation_failure_def)
next
  case (Inr out)
  with schema_validate_accepts [of s v label out] show ?thesis by simp
qed

definition rating_schema :: SkillSchema where
  "rating_schema = \<lparr>ks_fields =
     [(''score'', FieldSchema ''number'' True False None [] False [] None None (Some (VInt 0)) (Some (VInt 1))),
      (''note'', FieldSchema ''string'' False True None [] False [] None None None None)],
     ks_allow_extra = False\<rparr>"

lemma rating_schema_wf: "schema_wf rating_schema"
  by code_simp

lemma rating_schema_runs:
  "schema_validate rating_schema (VDict [(''score'', VInt 1), (''note'', VNone)]) ''output'' =
     Inr [(''score'', VInt 1), (''note'', VNone)]"
  "schema_validate rating_schema (VDict [(''score'', VInt 2)]) ''output'' =
     Inl (SkillValidationError ''output.score'' ''must be at most 1'')"
  by code_simp+

theorem schema_validation_decides_the_type_witness:
  "(\<exists>kvs. schema_accepts rating_schema (VDict [(''score'', VInt 1), (''note'', VNone)]) kvs \<and>
      freeze_map kvs = [(''score'', VInt 1), (''note'', VNone)]) \<and>
   (\<nexists>kvs. schema_accepts rating_schema (VDict [(''score'', VInt 2)]) kvs)"
  using schema_validation_decides_the_type [OF rating_schema_wf,
      of "VDict [(''score'', VInt 1), (''note'', VNone)]" "''output''"]
    schema_validation_decides_the_type [OF rating_schema_wf, of "VDict [(''score'', VInt 2)]" "''output''"]
  by (auto simp: rating_schema_runs)

text \<open>
  C8. Every outcome of the executor is decided. For a decision that pins the skill and carries
  the inputs, and a registered skill whose schemas are well formed, \<open>SkillExecutor.execute\<close>
  returns a failure with code \<open>INVALID_SKILL_INPUT\<close> when the inputs do not conform. Otherwise it
  applies the implementation to the frozen inputs and to a context with the declared
  capabilities only: a failure the implementation raises is returned under its own code and
  retryability when its code and message are not empty and its details are JSON, and leaves the
  executor as \<open>ValueError\<close> when they are not; a value that does not conform to the output schema
  is returned as \<open>INVALID_SKILL_OUTPUT\<close>; a value that conforms is a success with the frozen
  value, the artifacts and the usage.
\<close>

theorem executor_outcome_is_decided:
  fixes x :: executor and y :: step_ready and b :: decision_base
  assumes "skill_reference_parse (sy_skill_ref y) = Inr ref"
    and "py_eq (VProxy (freeze_map inputs)) (VProxy (sy_resolved_inputs y))" and "json_value (VDict inputs)"
    and "map_of (ex_registry x) (ref_name ref, ref_version ref) = Some (d, impl)"
    and "schema_wf (kd_input_schema d)" and "schema_wf (kd_output_schema d)"
  shows "if \<not> object_conforms (ks_fields (kd_input_schema d)) (ks_allow_extra (kd_input_schema d)) inputs
     then returns_failure (execute_skill x b y ref inputs project_id) ''INVALID_SKILL_INPUT'' False
     else case impl (freeze_map inputs) (skill_context x b y d project_id) of
       Inl f \<Rightarrow>
         if reportable f
         then returns_failure (execute_skill x b y ref inputs project_id) (failure_code f) (failure_retryable f)
         else raises_value_error (execute_skill x b y ref inputs project_id)
     | Inr raw \<Rightarrow>
         if \<exists>kvs. schema_accepts (kd_output_schema d) (raw_output raw) kvs
         then \<exists>r kvs. execute_skill x b y ref inputs project_id = Inr r \<and>
           schema_accepts (kd_output_schema d) (raw_output raw) kvs \<and> succeeds_with r (freeze_map kvs) raw
         else returns_failure (execute_skill x b y ref inputs project_id) ''INVALID_SKILL_OUTPUT'' False"
proof -
  let ?in = "schema_validate (kd_input_schema d) (VDict inputs) ''input''"
  let ?md = "execution_metadata b y ref"
  have freeze: "freeze_json ''resolved_inputs'' (VDict inputs) = Inr (VProxy (freeze_map inputs))"
    using assms(3) by (simp only: freeze_json_Inr) (simp add: freeze_map_def)
  have run: "execute_skill x b y ref inputs project_id = (case ?in of
      Inl (SkillValidationError path m) \<Rightarrow>
        failed_with ''INVALID_SKILL_INPUT'' (path @ '': '' @ m) False [(''path'', VStr path)] ?md
    | Inl e \<Rightarrow> Inl e
    | Inr validated \<Rightarrow> run_skill d impl validated (skill_context x b y d project_id) ?md)"
    using assms(1,2,4) freeze
    by (simp add: execute_skill_def resolve_skill_def guardR_def Let_def del: freeze_json.simps py_eq.simps)
  have conf: "schema_accepts (kd_input_schema d) (VDict inputs) kvs \<longleftrightarrow> kvs = inputs \<and>
      object_conforms (ks_fields (kd_input_schema d)) (ks_allow_extra (kd_input_schema d)) inputs" for kvs
    using assms(3) by (auto simp: schema_accepts_def)
  show ?thesis
  proof (cases ?in)
    case (Inl e)
    from schema_refuses(1) [OF assms(5) Inl] obtain p m where e: "e = SkillValidationError p m" by blast
    from schema_refuses(2) [OF assms(5) Inl] Inl e run conf execution_metadata_json [of b y ref] show ?thesis
      by (auto intro!: failed_with_reports simp del: json_value.simps)
        (simp add: json_value.simps)
  next
    case (Inr v)
    then have ok: "v = freeze_map inputs"
      "object_conforms (ks_fields (kd_input_schema d)) (ks_allow_extra (kd_input_schema d)) inputs"
      by (auto simp: schema_validate_accepts conf)
    have "execute_skill x b y ref inputs project_id =
        run_skill d impl (freeze_map inputs) (skill_context x b y d project_id) ?md" using Inr run ok by simp
    with run_skill_outcome [OF assms(6) execution_metadata_json [of b y ref],
        of impl "freeze_map inputs" "skill_context x b y d project_id"] ok(2) show ?thesis
      by (simp only: simp_thms if_False)
  qed
qed

definition demo_executor :: executor where
  "demo_executor = \<lparr>ex_registry = snd (register_fake_skills []), ex_capability_provider = None\<rparr>"

definition demo_base :: decision_base where
  "demo_base = \<lparr>db_workflow_run_id = ''run'', db_workflow_id = ''wf'', db_workflow_version = ''1'',
     db_expected_run_version = 1, db_checkpoint_required = True, db_reason = ''ready''\<rparr>"

definition demo_ready :: step_ready where
  "demo_ready = \<lparr>sy_step_id = ''search'', sy_step_run_id = ''s1'', sy_attempt = 1,
     sy_expected_step_version = 1, sy_skill_ref = ''mock_paper_search@1.0.0'',
     sy_resolved_inputs = [(''query'', VStr ''graphs'')], sy_requires_ready_transition = False\<rparr>"

definition demo_reference :: SkillReference where
  "demo_reference = \<lparr>ref_name = ''mock_paper_search'', ref_version = ''1.0.0''\<rparr>"

lemma demo_facts:
  "skill_reference_parse (sy_skill_ref demo_ready) = Inr demo_reference"
  "py_eq (VProxy (freeze_map [(''query'', VStr ''graphs'')])) (VProxy (sy_resolved_inputs demo_ready))"
  "json_value (VDict [(''query'', VStr ''graphs'')])"
  "schema_wf (kd_input_schema MOCK_PAPER_SEARCH)" "schema_wf (kd_output_schema MOCK_PAPER_SEARCH)"
  "mock_paper_search (freeze_map [(''query'', VStr ''graphs'')]) c = Inr (Plain (VDict [(''papers'',
     VList [VStr ''Mock Foundations of graphs'', VStr ''Mock Advances in graphs''])]))"
  by code_simp+

lemma demo_registered:
  "map_of (ex_registry demo_executor) (ref_name demo_reference, ref_version demo_reference) =
     Some (MOCK_PAPER_SEARCH, mock_paper_search)"
  by (simp add: demo_executor_def demo_reference_def register_fake_skills_def register_def Let_def op_simps
      MOCK_PAPER_SEARCH_def MOCK_SUMMARY_def)

lemma demo_schemas:
  "schema_validate (kd_input_schema MOCK_PAPER_SEARCH) (VDict [(''query'', VStr ''graphs'')]) ''input'' =
     Inr [(''query'', VStr ''graphs'')]"
  "schema_validate (kd_output_schema MOCK_PAPER_SEARCH) (VDict [(''papers'',
     VList [VStr ''Mock Foundations of graphs'', VStr ''Mock Advances in graphs''])]) ''output'' =
     Inr [(''papers'', VTuple [VStr ''Mock Foundations of graphs'', VStr ''Mock Advances in graphs''])]"
  by code_simp+

text \<open>The demo skill, and one whose failure has no message.\<close>

definition silent_skill :: implementation where
  "silent_skill inputs context = Inl (ExecutionFailure ''SEARCH_FAILED'' [] True [])"

definition silent_executor :: executor where
  "silent_executor = \<lparr>ex_registry = snd (register MOCK_PAPER_SEARCH silent_skill []), ex_capability_provider = None\<rparr>"

lemma silent_registered:
  "map_of (ex_registry silent_executor) (ref_name demo_reference, ref_version demo_reference) =
     Some (MOCK_PAPER_SEARCH, silent_skill)"
  by (simp add: silent_executor_def demo_reference_def register_def Let_def op_simps MOCK_PAPER_SEARCH_def)

theorem executor_outcome_is_decided_witness:
  "(\<exists>r. execute_skill demo_executor demo_base demo_ready demo_reference [(''query'', VStr ''graphs'')] [] = Inr r \<and>
     kr_output_data r = [(''papers'', VTuple [VStr ''Mock Foundations of graphs'', VStr ''Mock Advances in graphs''])]) \<and>
   raises_value_error (execute_skill silent_executor demo_base demo_ready demo_reference [(''query'', VStr ''graphs'')] [])"
proof -
  obtain kvs where kvs: "schema_accepts (kd_output_schema MOCK_PAPER_SEARCH) (VDict [(''papers'',
      VList [VStr ''Mock Foundations of graphs'', VStr ''Mock Advances in graphs''])]) kvs"
    "freeze_map kvs = [(''papers'', VTuple [VStr ''Mock Foundations of graphs'', VStr ''Mock Advances in graphs''])]"
    using demo_schemas(2) by (auto simp: schema_validate_accepts)
  then have accepts: "schema_accepts (kd_output_schema MOCK_PAPER_SEARCH) (VDict [(''papers'',
      VList [VStr ''Mock Foundations of graphs'', VStr ''Mock Advances in graphs''])]) = (\<lambda>m. m = kvs)"
    using schema_accepts_unique by blast
  have conforms: "object_conforms (ks_fields (kd_input_schema MOCK_PAPER_SEARCH))
      (ks_allow_extra (kd_input_schema MOCK_PAPER_SEARCH)) [(''query'', VStr ''graphs'')]"
    using demo_schemas(1) by (auto simp: schema_validate_Inr)
  note decided = executor_outcome_is_decided [OF demo_facts(1-3) _ demo_facts(4,5), of _ _ demo_base "[]"]
  from decided [OF demo_registered] conforms kvs(2) have
    "\<exists>r. execute_skill demo_executor demo_base demo_ready demo_reference [(''query'', VStr ''graphs'')] [] = Inr r \<and>
      kr_output_data r = freeze_map kvs"
    by (auto simp: demo_facts(6) accepts succeeds_with_def)
  moreover from decided [OF silent_registered] conforms have
    "raises_value_error (execute_skill silent_executor demo_base demo_ready demo_reference [(''query'', VStr ''graphs'')] [])"
    by (simp add: silent_skill_def)
  ultimately show ?thesis using kvs(2) by simp
qed

section \<open>Capabilities\<close>

text \<open>An implementation cannot obtain a capability its definition does not declare.\<close>

lemma undeclared_capability_denied:
  assumes "''llm'' \<notin> set (km_capabilities (kd_metadata d))"
  shows "\<exists>m. capability_require ''llm'' (sc_llm (kc_capabilities (skill_context x b y d project_id))) =
    Inl (SkillCapabilityDeniedError m)"
  using assms by (simp add: capability_require_def skill_context_def restricted_to_def)

text \<open>A failure the implementation reports with an empty message leaves the executor as
  \<open>ValueError\<close>: the error value refuses it inside the \<open>except\<close> clause.\<close>

lemma empty_failure_message_escapes:
  assumes "code \<noteq> []"
  shows "failure_result (ExecutionFailure code [] retryable details) md =
    Inl (ValueErrorMsg ''Skill error message cannot be empty'')"
  using assms by (simp add: failed_with_def skill_error_post_init_def guardR_def)

end
