(* ===== verification/Persistence.thy ===== *)
theory Persistence
  imports Skill_Schema Approval Execution Provider_Repository
begin

text \<open>
  The in-memory persistence of executions, \<^verbatim>\<open>backend/persistence\<close> and
  \<^verbatim>\<open>backend/execution_events\<close>: the detached records of aggregates, the repositories
  inside a unit of work, and commit and rollback over the shared database
  (\<^verbatim>\<open>backend/persistence/adapters/in_memory.py\<close>). Provider operations are the part
  modelled in \<^verbatim>\<open>Provider_Repository\<close>. The tables of projects, manifests, workspaces,
  local projects and progress reports of the same class are not modelled.

  A persisted record has the fields of its entity, so the model uses the entity's own
  type for it; storing freezes the containers, loading thaws them and runs the entity's
  constructor again. SHA-256 is the parameter \<open>sha\<close>.
\<close>

section \<open>Records\<close>

type_synonym WorkflowRunRecord = WorkflowRun
type_synonym AgentSessionRecord = AgentSession
type_synonym StepRunRecord = StepRun

definition run_from_domain :: "WorkflowRun \<Rightarrow> WorkflowRunRecord res" where
  "run_from_domain r =
     bindR (freeze_json_at ''run.inputs'' (wr_inputs r))
     (\<lambda>i. bindR (freeze_json_at ''run.outputs'' (wr_outputs r))
     (\<lambda>outs. Inr (r\<lparr>wr_inputs := i, wr_outputs := outs\<rparr>)))"

definition run_to_domain :: "WorkflowRunRecord \<Rightarrow> WorkflowRun res" where
  "run_to_domain r = workflow_run_post_init
     (r\<lparr>wr_inputs := thaw_map (wr_inputs r), wr_outputs := thaw_map (wr_outputs r)\<rparr>)"

definition agent_from_domain :: "AgentSession \<Rightarrow> AgentSessionRecord res" where
  "agent_from_domain a = bindR (freeze_json_at ''agent.state'' (as_state a)) (\<lambda>m. Inr (a\<lparr>as_state := m\<rparr>))"

definition agent_to_domain :: "AgentSessionRecord \<Rightarrow> AgentSession res" where
  "agent_to_domain a = agent_session_post_init (a\<lparr>as_state := thaw_map (as_state a)\<rparr>)"

definition step_from_domain_record :: "StepRun \<Rightarrow> StepRunRecord res" where
  "step_from_domain_record s =
     bindR (freeze_json_at ''step.inputs'' (sr_inputs s))
     (\<lambda>i. bindR (freeze_json_at ''step.outputs'' (sr_outputs s))
     (\<lambda>outs. Inr (s\<lparr>sr_inputs := i, sr_outputs := outs\<rparr>)))"

definition step_to_domain :: "StepRunRecord \<Rightarrow> StepRun res" where
  "step_to_domain s = step_run_post_init
     (s\<lparr>sr_inputs := thaw_map (sr_inputs s), sr_outputs := thaw_map (sr_outputs s)\<rparr>)"

record WorkflowExecutionRecord =
  xr_version :: int
  xr_workflow :: Workflow
  xr_run :: WorkflowRunRecord
  xr_agent :: AgentSessionRecord
  xr_steps :: "StepRunRecord list"

definition execution_record_post_init :: "WorkflowExecutionRecord \<Rightarrow> WorkflowExecutionRecord res" where
  "execution_record_post_init r =
     bindR (guardR (xr_version r \<le> 0) (ValueErrorMsg ''Persistence version must be positive'')) (\<lambda>_. Inr r)"

definition from_execution :: "ExecutionState \<Rightarrow> int \<Rightarrow> WorkflowExecutionRecord res" where
  "from_execution x version =
     bindR (run_from_domain (ex_workflow_run x))
     (\<lambda>r. bindR (agent_from_domain (ex_agent_session x))
     (\<lambda>a. bindR (mapR step_from_domain_record (ex_step_runs x))
     (\<lambda>steps. execution_record_post_init
       \<lparr>xr_version = version, xr_workflow = ex_workflow x, xr_run = r, xr_agent = a, xr_steps = steps\<rparr>)))"

definition to_execution :: "WorkflowExecutionRecord \<Rightarrow> Checkpoint list \<Rightarrow> ExecutionState res" where
  "to_execution r checkpoints =
     bindR (run_to_domain (xr_run r))
     (\<lambda>run. bindR (agent_to_domain (xr_agent r))
     (\<lambda>a. bindR (mapR step_to_domain (xr_steps r))
     (\<lambda>steps. Inr \<lparr>ex_workflow = xr_workflow r, ex_workflow_run = run, ex_agent_session = a,
        ex_step_runs = steps, ex_checkpoints = checkpoints\<rparr>)))"

datatype CheckpointBoundary =
    Bound_BASELINE | Bound_INITIALIZED | Bound_STEP_READY | Bound_BEFORE_SKILL | Bound_AFTER_SKILL
  | Bound_WAITING_APPROVAL | Bound_RETRY_SCHEDULED | Bound_RECOVERED | Bound_APPROVAL_RESOLVED
  | Bound_BEFORE_TERMINAL | Bound_TERMINAL | Bound_DOMAIN_TRANSITION

fun boundary_value :: "CheckpointBoundary \<Rightarrow> string" where
  "boundary_value Bound_BASELINE = ''BASELINE''"
| "boundary_value Bound_INITIALIZED = ''INITIALIZED''"
| "boundary_value Bound_STEP_READY = ''STEP_READY''"
| "boundary_value Bound_BEFORE_SKILL = ''BEFORE_SKILL''"
| "boundary_value Bound_AFTER_SKILL = ''AFTER_SKILL''"
| "boundary_value Bound_WAITING_APPROVAL = ''WAITING_APPROVAL''"
| "boundary_value Bound_RETRY_SCHEDULED = ''RETRY_SCHEDULED''"
| "boundary_value Bound_RECOVERED = ''RECOVERED''"
| "boundary_value Bound_APPROVAL_RESOLVED = ''APPROVAL_RESOLVED''"
| "boundary_value Bound_BEFORE_TERMINAL = ''BEFORE_TERMINAL''"
| "boundary_value Bound_TERMINAL = ''TERMINAL''"
| "boundary_value Bound_DOMAIN_TRANSITION = ''DOMAIN_TRANSITION''"

record CheckpointRecord =
  ck_sequence :: int
  ck_boundary :: CheckpointBoundary
  ck_checkpoint :: Checkpoint
  ck_step_id :: "string option"
  ck_attempt :: "int option"

definition checkpoint_record_post_init ::
  "(string \<Rightarrow> string) \<Rightarrow> CheckpointRecord \<Rightarrow> CheckpointRecord res" where
  "checkpoint_record_post_init sha r =
     bindR (guardR (ck_sequence r \<le> 0) (ValueErrorMsg ''Checkpoint record sequence must be positive''))
     (\<lambda>_. bindR (verify_integrity sha (ck_checkpoint r)) (\<lambda>_. Inr r))"

record MemoryRevision =
  mv_project_id :: string
  mv_workflow_run_id :: string
  mv_revision :: int
  mv_context :: pymap
  mv_producer :: string
  mv_source_references :: "string list"

definition memory_revision_post_init :: "MemoryRevision \<Rightarrow> MemoryRevision res" where
  "memory_revision_post_init m =
     bindR (guardR (mv_project_id m = [] \<or> mv_workflow_run_id m = [] \<or> mv_producer m = [])
       (ValueErrorMsg ''Memory scope and producer must be non-empty''))
     (\<lambda>_. bindR (guardR (mv_revision m \<le> 0) (ValueErrorMsg ''Memory revision must be positive''))
     (\<lambda>_. bindR (freeze_json_at ''context'' (mv_context m)) (\<lambda>c. Inr (m\<lparr>mv_context := c\<rparr>))))"

record ApprovalRecord =
  ap_request :: ApprovalRequest
  ap_version :: int

definition from_approval :: "ApprovalRequest \<Rightarrow> int \<Rightarrow> ApprovalRecord res" where
  "from_approval a version =
     bindR (guardR (version \<le> 0) (ValueErrorMsg ''ApprovalRecord.persistence_version must be positive''))
     (\<lambda>_. bindR (freeze_json_at ''ApprovalRecord.requested_action'' (ar_requested_action a))
     (\<lambda>action. bindR (freeze_json_at ''ApprovalRecord.decision_metadata'' (ar_decision_metadata a))
     (\<lambda>md. Inr \<lparr>ap_request = a\<lparr>ar_requested_action := action, ar_decision_metadata := md\<rparr>,
             ap_version = version\<rparr>)))"

definition to_approval :: "ApprovalRecord \<Rightarrow> ApprovalRequest res" where
  "to_approval r = approval_request_post_init
     ((ap_request r)\<lparr>ar_requested_action := thaw_map (ar_requested_action (ap_request r)),
        ar_decision_metadata := thaw_map (ar_decision_metadata (ap_request r))\<rparr>)"

section \<open>Events\<close>

datatype ExecutionEventType =
    Event_WORKFLOW_STARTED | Event_STEP_STARTED | Event_SKILL_EXECUTED | Event_CHECKPOINT_CREATED
  | Event_APPROVAL_REQUESTED | Event_WORKFLOW_COMPLETED | Event_WORKFLOW_FAILED

datatype EventSeverity = Severity_INFO | Severity_WARNING | Severity_ERROR

record ExecutionEvent =
  ev_id :: string
  ev_project_id :: string
  ev_workflow_run_id :: string
  ev_sequence :: int
  ev_event_type :: ExecutionEventType
  ev_payload :: pymap
  ev_schema_version :: int
  ev_request_id :: string
  ev_occurred_at :: datetime
  ev_severity :: EventSeverity
  ev_agent_session_id :: "string option"
  ev_step_run_id :: "string option"
  ev_correlation_id :: "string option"
  ev_causation_id :: "string option"

text \<open>\<open>EventPayload.__post_init__\<close> on its two fields.\<close>

definition event_payload_post_init :: "pymap \<Rightarrow> int \<Rightarrow> pymap res" where
  "event_payload_post_init payload schema_version =
     bindR (guardR (schema_version \<le> 0) (DomainValidationError ''EventPayload.schema_version must be positive''))
     (\<lambda>_. case freeze_json_at ''EventPayload.data'' payload of
        Inl e \<Rightarrow> Inl (DomainValidationError (exc_str e)) | Inr m \<Rightarrow> Inr m)"

definition execution_event_post_init :: "ExecutionEvent \<Rightarrow> ExecutionEvent res" where
  "execution_event_post_init e =
     bindR (require_all_non_empty [(ev_id e, ''ExecutionEvent.id''),
        (ev_project_id e, ''ExecutionEvent.project_id''),
        (ev_workflow_run_id e, ''ExecutionEvent.workflow_run_id''),
        (ev_request_id e, ''ExecutionEvent.request_id'')])
     (\<lambda>_. bindR (forR [(ev_agent_session_id e, ''ExecutionEvent.agent_session_id''),
        (ev_step_run_id e, ''ExecutionEvent.step_run_id''),
        (ev_correlation_id e, ''ExecutionEvent.correlation_id''),
        (ev_causation_id e, ''ExecutionEvent.causation_id'')]
        (\<lambda>(value, name). case value of None \<Rightarrow> Inr () | Some v \<Rightarrow> require_non_empty v name))
     (\<lambda>_. bindR (guardR (ev_sequence e \<le> 0) (DomainValidationError ''ExecutionEvent.sequence must be positive''))
     (\<lambda>_. bindR (require_aware (ev_occurred_at e) ''ExecutionEvent.occurred_at'')
     (\<lambda>_. Inr e))))"

section \<open>Database and unit of work\<close>

type_synonym scope = "string \<times> string"

record database =
  md_executions :: "(string \<times> WorkflowExecutionRecord) list"
  md_checkpoints :: "(string \<times> CheckpointRecord list) list"
  md_memory :: "(scope \<times> MemoryRevision list) list"
  md_artifacts :: "(string \<times> ArtifactMetadata) list"
  md_approvals :: "(string \<times> ApprovalRecord) list"
  md_events :: "(scope \<times> ExecutionEvent list) list"
  md_operations :: operation_table

record memory_uow =
  mu_view :: database
  mu_base_checkpoints :: "(string \<times> nat) list"
  mu_base_memory :: "(scope \<times> nat) list"
  mu_base_events :: "(scope \<times> nat) list"
  mu_workflow_expected :: "(string \<times> int option) list"
  mu_approval_expected :: "(string \<times> int option) list"
  mu_operation_expected :: "(string \<times> int option) list"
  mu_dirty_workflows :: "string set"
  mu_dirty_checkpoints :: "string set"
  mu_dirty_memory :: "scope set"
  mu_dirty_artifacts :: "string set"
  mu_dirty_approvals :: "string set"
  mu_dirty_events :: "scope set"
  mu_dirty_operations :: "string set"

definition counts :: "('k \<times> 'v list) list \<Rightarrow> ('k \<times> nat) list" where
  "counts t = map (\<lambda>(k, vs). (k, length vs)) t"

definition empty_database :: database where
  "empty_database = \<lparr>md_executions = [], md_checkpoints = [], md_memory = [], md_artifacts = [],
     md_approvals = [], md_events = [], md_operations = []\<rparr>"

definition memory_refresh :: "database \<Rightarrow> memory_uow" where
  "memory_refresh db =
     \<lparr>mu_view = db, mu_base_checkpoints = counts (md_checkpoints db),
      mu_base_memory = counts (md_memory db), mu_base_events = counts (md_events db),
      mu_workflow_expected = [], mu_approval_expected = [], mu_operation_expected = [],
      mu_dirty_workflows = {}, mu_dirty_checkpoints = {}, mu_dirty_memory = {},
      mu_dirty_artifacts = {}, mu_dirty_approvals = {}, mu_dirty_events = {},
      mu_dirty_operations = {}\<rparr>"

text \<open>\<open>d.get(k, ())\<close> on a table of streams.\<close>

definition stream_of :: "('k \<times> 'v list) list \<Rightarrow> 'k \<Rightarrow> 'v list" where
  "stream_of t k = (case map_of t k of None \<Rightarrow> [] | Some vs \<Rightarrow> vs)"

definition update_view :: "(database \<Rightarrow> database) \<Rightarrow> memory_uow \<Rightarrow> memory_uow" where
  "update_view f u = u\<lparr>mu_view := f (mu_view u)\<rparr>"

section \<open>Workflow repository\<close>

definition run_key :: "WorkflowExecutionRecord \<Rightarrow> string \<times> string" where
  "run_key r = (wr_project_id (xr_run r), wr_idempotency_key (xr_run r))"

text \<open>The first record with the same project and key and another run, in table order.\<close>

definition conflicting_run ::
  "(string \<times> WorkflowExecutionRecord) list \<Rightarrow> string \<times> string \<Rightarrow> string \<Rightarrow> string option" where
  "conflicting_run t key run_id =
     map_option (wr_id \<circ> xr_run \<circ> snd) (find (\<lambda>(_, r). run_key r = key \<and> wr_id (xr_run r) \<noteq> run_id) t)"

definition workflow_save_check :: "ExecutionState \<Rightarrow> int option \<Rightarrow> memory_uow \<Rightarrow> int res" where
  "workflow_save_check x expected u =
     (let run = ex_workflow_run x; run_id = wr_id run;
          current = map_of (md_executions (mu_view u)) run_id in
      case expected of
        None \<Rightarrow>
          (case current of
             Some r \<Rightarrow> Inl (StaleStateError (''WorkflowRun '' @ run_id @
               '' already exists at persistence version '' @ int_str (xr_version r)))
           | None \<Rightarrow>
               (case conflicting_run (md_executions (mu_view u))
                       (wr_project_id run, wr_idempotency_key run) run_id of
                  Some other \<Rightarrow> Inl (DuplicateEntityError
                    (''Workflow execution idempotency key is already owned by WorkflowRun '' @ other))
                | None \<Rightarrow> Inr 1))
      | Some v \<Rightarrow>
          (case current of
             None \<Rightarrow> Inl (StaleStateError (''WorkflowRun '' @ run_id @ '' does not exist''))
           | Some r \<Rightarrow>
               bindR (guardR (xr_version r \<noteq> v) (StaleStateError (''WorkflowRun '' @ run_id @
                 '' expected persistence version '' @ int_str v @ ''; found '' @ int_str (xr_version r))))
               (\<lambda>_. Inr (v + 1))))"

definition workflow_save :: "ExecutionState \<Rightarrow> int option \<Rightarrow> (memory_uow, int) op" where
  "workflow_save x expected =
     (let run_id = wr_id (ex_workflow_run x) in
      bindE (readE (workflow_save_check x expected))
      (\<lambda>next_version. thenE
        (modifyE (\<lambda>u. u\<lparr>mu_workflow_expected := set_default run_id expected (mu_workflow_expected u)\<rparr>))
      (bindE (readE (\<lambda>_. from_execution x next_version))
      (\<lambda>r. thenE (modifyE (\<lambda>u. (update_view (\<lambda>d. d\<lparr>md_executions :=
              AList.update run_id r (md_executions d)\<rparr>) u)
              \<lparr>mu_dirty_workflows := insert run_id (mu_dirty_workflows u)\<rparr>))
        (returnE next_version)))))"

definition workflow_get :: "memory_uow \<Rightarrow> string \<Rightarrow> ExecutionState option res" where
  "workflow_get u run_id =
     (case map_of (md_executions (mu_view u)) run_id of
        None \<Rightarrow> Inr None
      | Some r \<Rightarrow> bindR (to_execution r []) (\<lambda>x. Inr (Some x)))"

definition workflow_get_version :: "memory_uow \<Rightarrow> string \<Rightarrow> int option" where
  "workflow_get_version u run_id = map_option xr_version (map_of (md_executions (mu_view u)) run_id)"

definition workflow_get_by_idempotency_key ::
  "memory_uow \<Rightarrow> string \<Rightarrow> string \<Rightarrow> ExecutionState option res" where
  "workflow_get_by_idempotency_key u project_id key =
     (case min_by (wr_id \<circ> xr_run) (filter (\<lambda>r. run_key r = (project_id, key))
              (map snd (md_executions (mu_view u)))) of
        None \<Rightarrow> Inr None
      | Some r \<Rightarrow> bindR (to_execution r []) (\<lambda>x. Inr (Some x)))"

text \<open>\<open>xs[start:stop]\<close>\<close>

definition slice_index :: "nat \<Rightarrow> int \<Rightarrow> nat" where
  "slice_index n i = (if i < 0 then nat (int n + i) else min n (nat i))"

definition py_slice :: "int \<Rightarrow> int \<Rightarrow> 'a list \<Rightarrow> 'a list" where
  "py_slice start stop xs =
     (let a = slice_index (length xs) start; b = slice_index (length xs) stop in take (b - a) (drop a xs))"

definition workflow_list_runs ::
  "memory_uow \<Rightarrow> WorkflowRunStatus option \<Rightarrow> int \<Rightarrow> int \<Rightarrow> ExecutionState list res" where
  "workflow_list_runs u status offset limit =
     (let records = filter (\<lambda>r. status = None \<or> status = Some (wr_status (xr_run r)))
            (map snd (md_executions (mu_view u)));
          ordered = rev (sort_key (\<lambda>r. (instant (wr_created_at (xr_run r)), wr_id (xr_run r))) records)
      in mapR (\<lambda>r. to_execution r []) (py_slice offset (offset + limit) ordered))"

definition workflow_count_runs :: "memory_uow \<Rightarrow> WorkflowRunStatus option \<Rightarrow> nat" where
  "workflow_count_runs u status =
     length (filter (\<lambda>r. status = None \<or> status = Some (wr_status (xr_run r)))
       (map snd (md_executions (mu_view u))))"

definition workflow_list_definitions :: "memory_uow \<Rightarrow> Workflow list" where
  "workflow_list_definitions u =
     (let definitions = fold (\<lambda>r d. AList.update (wf_id (xr_workflow r), wf_version (xr_workflow r))
             (xr_workflow r) d) (map snd (md_executions (mu_view u))) []
      in map snd (sort_key fst definitions))"

section \<open>Checkpoint repository\<close>

fun find_checkpoint_record ::
  "Checkpoint \<Rightarrow> CheckpointBoundary \<Rightarrow> string option \<Rightarrow> int option \<Rightarrow> CheckpointRecord list \<Rightarrow>
   CheckpointRecord option res" where
  "find_checkpoint_record p boundary step_id attempt [] = Inr None"
| "find_checkpoint_record p boundary step_id attempt (r # rs) =
     (if cp_id (ck_checkpoint r) = cp_id p \<and> ck_checkpoint r \<noteq> p then
        Inl (DuplicateEntityError (''Checkpoint ID '' @ cp_id p @ '' has conflicting immutable content''))
      else if (ck_boundary r, cp_id (ck_checkpoint r), ck_step_id r, ck_attempt r) =
              (boundary, cp_id p, step_id, attempt) then Inr (Some r)
      else find_checkpoint_record p boundary step_id attempt rs)"

definition checkpoint_save ::
  "(string \<Rightarrow> string) \<Rightarrow> Checkpoint \<Rightarrow> CheckpointBoundary \<Rightarrow> string option \<Rightarrow> int option \<Rightarrow>
   (memory_uow, CheckpointRecord) op" where
  "checkpoint_save sha p boundary step_id attempt =
     (let run_id = cp_workflow_run_id p in
      thenE (readE (\<lambda>_. verify_integrity sha p))
      (bindE (getsE (\<lambda>u. stream_of (md_checkpoints (mu_view u)) run_id))
      (\<lambda>records. bindE (readE (\<lambda>_. find_checkpoint_record p boundary step_id attempt records))
      (\<lambda>found. case found of
         Some r \<Rightarrow> returnE r
       | None \<Rightarrow>
           bindE (readE (\<lambda>_. checkpoint_record_post_init sha
             \<lparr>ck_sequence = int (length records) + 1, ck_boundary = boundary, ck_checkpoint = p,
              ck_step_id = step_id, ck_attempt = attempt\<rparr>))
           (\<lambda>r. thenE (modifyE (\<lambda>u. (update_view (\<lambda>d. d\<lparr>md_checkpoints :=
                   AList.update run_id (records @ [r]) (md_checkpoints d)\<rparr>) u)
                   \<lparr>mu_dirty_checkpoints := insert run_id (mu_dirty_checkpoints u)\<rparr>))
             (returnE r))))))"

definition checkpoint_list_records :: "memory_uow \<Rightarrow> string \<Rightarrow> CheckpointRecord list" where
  "checkpoint_list_records u run_id = stream_of (md_checkpoints (mu_view u)) run_id"

text \<open>The first record of each checkpoint, ordered by sequence and identifier.\<close>

definition checkpoint_list :: "memory_uow \<Rightarrow> string \<Rightarrow> Checkpoint list" where
  "checkpoint_list u run_id =
     (let by_id = fold (\<lambda>r d. set_default (cp_id (ck_checkpoint r)) (ck_checkpoint r) d)
            (checkpoint_list_records u run_id) []
      in sort_key (\<lambda>p. (cp_sequence p, cp_id p)) (map snd by_id))"

definition checkpoint_get_latest :: "memory_uow \<Rightarrow> string \<Rightarrow> Checkpoint option" where
  "checkpoint_get_latest u run_id =
     (let ps = checkpoint_list u run_id in if ps = [] then None else Some (last ps))"

section \<open>Memory repository\<close>

definition memory_history :: "memory_uow \<Rightarrow> scope \<Rightarrow> MemoryRevision list" where
  "memory_history u s = stream_of (md_memory (mu_view u)) s"

definition memory_latest_revision_number :: "memory_uow \<Rightarrow> scope \<Rightarrow> int" where
  "memory_latest_revision_number u s =
     (let h = memory_history u s in if h = [] then 0 else mv_revision (last h))"

definition memory_read_context :: "memory_uow \<Rightarrow> scope \<Rightarrow> pymap" where
  "memory_read_context u s = (let h = memory_history u s in if h = [] then [] else mv_context (last h))"

text \<open>\<open>merged.update(...)\<close> sets the keys one after the other.\<close>

definition dict_update :: "pymap \<Rightarrow> pymap \<Rightarrow> pymap" where
  "dict_update m updates = fold (\<lambda>(k, v) d. dict_set k v d) updates m"

definition memory_update_context ::
  "scope \<Rightarrow> pymap \<Rightarrow> string \<Rightarrow> string list \<Rightarrow> (memory_uow, MemoryRevision) op" where
  "memory_update_context s updates producer source_references =
     bindE (getsE (\<lambda>u. memory_history u s))
     (\<lambda>revisions. bindE (readE (\<lambda>_. freeze_json_at ''updates'' updates))
     (\<lambda>frozen. bindE (readE (\<lambda>_. memory_revision_post_init
         \<lparr>mv_project_id = fst s, mv_workflow_run_id = snd s, mv_revision = int (length revisions) + 1,
          mv_context = dict_update (if revisions = [] then [] else thaw_map (mv_context (last revisions)))
            (thaw_map frozen),
          mv_producer = producer, mv_source_references = source_references\<rparr>))
     (\<lambda>r. thenE (modifyE (\<lambda>u. (update_view (\<lambda>d. d\<lparr>md_memory :=
              AList.update s (revisions @ [r]) (md_memory d)\<rparr>) u)
              \<lparr>mu_dirty_memory := insert s (mu_dirty_memory u)\<rparr>))
       (returnE r))))"

definition memory_initialize_context ::
  "scope \<Rightarrow> pymap \<Rightarrow> string \<Rightarrow> string list \<Rightarrow> (memory_uow, MemoryRevision) op" where
  "memory_initialize_context s context producer source_references =
     bindE (getsE (\<lambda>u. memory_history u s))
     (\<lambda>existing. if existing \<noteq> [] then returnE (last existing)
       else memory_update_context s context producer source_references)"

section \<open>Artifact repository\<close>

definition artifact_save :: "ArtifactMetadata \<Rightarrow> (memory_uow, unit) op" where
  "artifact_save a =
     bindE (getsE (\<lambda>u. map_of (md_artifacts (mu_view u)) (am_id a)))
     (\<lambda>existing. case existing of
        Some b \<Rightarrow>
          if b \<noteq> a then raiseE (DuplicateEntityError
            (''Artifact ID '' @ am_id a @ '' has conflicting immutable metadata''))
          else returnE ()
      | None \<Rightarrow> modifyE (\<lambda>u. (update_view (\<lambda>d. d\<lparr>md_artifacts :=
            AList.update (am_id a) a (md_artifacts d)\<rparr>) u)
            \<lparr>mu_dirty_artifacts := insert (am_id a) (mu_dirty_artifacts u)\<rparr>))"

definition artifact_get :: "memory_uow \<Rightarrow> string \<Rightarrow> ArtifactMetadata option" where
  "artifact_get u i = map_of (md_artifacts (mu_view u)) i"

definition artifact_list_for_project :: "memory_uow \<Rightarrow> string \<Rightarrow> ArtifactMetadata list" where
  "artifact_list_for_project u project_id =
     sort_key (\<lambda>a. (am_logical_artifact_id a, am_version a, am_id a))
       (filter (\<lambda>a. am_project_id a = project_id) (map snd (md_artifacts (mu_view u))))"

section \<open>Approval repository\<close>

definition approval_save_check :: "ApprovalRequest \<Rightarrow> int option \<Rightarrow> memory_uow \<Rightarrow> int res" where
  "approval_save_check a expected u =
     (let current = map_of (md_approvals (mu_view u)) (ar_id a) in
      case expected of
        None \<Rightarrow>
          (case current of
             Some r \<Rightarrow> Inl (StaleStateError (''ApprovalRequest '' @ ar_id a @
               '' already exists at persistence version '' @ int_str (ap_version r)))
           | None \<Rightarrow> Inr 1)
      | Some v \<Rightarrow>
          (case current of
             None \<Rightarrow> Inl (StaleStateError (''ApprovalRequest '' @ ar_id a @ '' does not exist''))
           | Some r \<Rightarrow>
               bindR (guardR (ap_version r \<noteq> v) (StaleStateError (''ApprovalRequest '' @ ar_id a @
                 '' expected persistence version '' @ int_str v @ ''; found '' @ int_str (ap_version r))))
               (\<lambda>_. Inr (v + 1))))"

definition approval_save :: "ApprovalRequest \<Rightarrow> int option \<Rightarrow> (memory_uow, int) op" where
  "approval_save a expected =
     bindE (readE (approval_save_check a expected))
     (\<lambda>next_version. thenE
       (modifyE (\<lambda>u. u\<lparr>mu_approval_expected := set_default (ar_id a) expected (mu_approval_expected u)\<rparr>))
     (bindE (readE (\<lambda>_. from_approval a next_version))
     (\<lambda>r. thenE (modifyE (\<lambda>u. (update_view (\<lambda>d. d\<lparr>md_approvals :=
             AList.update (ar_id a) r (md_approvals d)\<rparr>) u)
             \<lparr>mu_dirty_approvals := insert (ar_id a) (mu_dirty_approvals u)\<rparr>))
       (returnE next_version))))"

definition approval_get :: "memory_uow \<Rightarrow> string \<Rightarrow> ApprovalRequest option res" where
  "approval_get u i =
     (case map_of (md_approvals (mu_view u)) i of
        None \<Rightarrow> Inr None
      | Some r \<Rightarrow> bindR (to_approval r) (\<lambda>a. Inr (Some a)))"

definition approval_get_version :: "memory_uow \<Rightarrow> string \<Rightarrow> int option" where
  "approval_get_version u i = map_option ap_version (map_of (md_approvals (mu_view u)) i)"

definition approval_order :: "ApprovalRecord \<Rightarrow> int \<times> string" where
  "approval_order r = (instant (ar_requested_at (ap_request r)), ar_id (ap_request r))"

definition approval_records_for_run :: "memory_uow \<Rightarrow> scope \<Rightarrow> ApprovalRecord list" where
  "approval_records_for_run u s =
     filter (\<lambda>r. (ar_project_id (ap_request r), ar_workflow_run_id (ap_request r)) = s)
       (map snd (md_approvals (mu_view u)))"

definition approval_get_by_fingerprint ::
  "memory_uow \<Rightarrow> scope \<Rightarrow> string \<Rightarrow> ApprovalRequest option res" where
  "approval_get_by_fingerprint u s fingerprint =
     (let records = filter (\<lambda>r. ar_request_fingerprint (ap_request r) = fingerprint)
            (approval_records_for_run u s)
      in case rev (sort_key approval_order records) of
           [] \<Rightarrow> Inr None
         | r # _ \<Rightarrow> bindR (to_approval r) (\<lambda>a. Inr (Some a)))"

definition approval_list_for_run :: "memory_uow \<Rightarrow> scope \<Rightarrow> ApprovalRequest list res" where
  "approval_list_for_run u s = mapR to_approval (sort_key approval_order (approval_records_for_run u s))"

definition approval_list_pending_for_run :: "memory_uow \<Rightarrow> scope \<Rightarrow> ApprovalRequest list res" where
  "approval_list_pending_for_run u s =
     bindR (approval_list_for_run u s) (\<lambda>as. Inr (filter (\<lambda>a. ar_status a = Approval_PENDING) as))"

definition approval_list_requests ::
  "memory_uow \<Rightarrow> ApprovalRequestStatus option \<Rightarrow> int \<Rightarrow> int \<Rightarrow> ApprovalRequest list res" where
  "approval_list_requests u status offset limit =
     (let records = filter (\<lambda>r. status = None \<or> status = Some (ar_status (ap_request r)))
            (map snd (md_approvals (mu_view u)))
      in mapR to_approval (py_slice offset (offset + limit) (rev (sort_key approval_order records))))"

definition approval_count_requests :: "memory_uow \<Rightarrow> ApprovalRequestStatus option \<Rightarrow> nat" where
  "approval_count_requests u status =
     length (filter (\<lambda>r. status = None \<or> status = Some (ar_status (ap_request r)))
       (map snd (md_approvals (mu_view u))))"

section \<open>Event store\<close>

definition event_get :: "memory_uow \<Rightarrow> string \<Rightarrow> ExecutionEvent option" where
  "event_get u i = find (\<lambda>e. ev_id e = i) (concat (map snd (md_events (mu_view u))))"

definition event_scope :: "ExecutionEvent \<Rightarrow> scope" where
  "event_scope e = (ev_project_id e, ev_workflow_run_id e)"

definition scope_str :: "scope \<Rightarrow> string" where
  "scope_str s = ''('' @ py_repr (fst s) @ '', '' @ py_repr (snd s) @ '')''"

definition event_list_for_run :: "memory_uow \<Rightarrow> scope \<Rightarrow> ExecutionEvent list" where
  "event_list_for_run u s = stream_of (md_events (mu_view u)) s"

definition event_latest_sequence :: "memory_uow \<Rightarrow> scope \<Rightarrow> int" where
  "event_latest_sequence u s = int (length (event_list_for_run u s))"

definition event_append :: "ExecutionEvent \<Rightarrow> int \<Rightarrow> (memory_uow, ExecutionEvent) op" where
  "event_append e expected_sequence =
     bindE (getsE (\<lambda>u. event_get u (ev_id e)))
     (\<lambda>existing. case existing of
        Some x \<Rightarrow>
          if x \<noteq> e then raiseE (DuplicateEntityError
            (''ExecutionEvent ID '' @ ev_id e @ '' has conflicting immutable content''))
          else returnE x
      | None \<Rightarrow>
          (let s = event_scope e in
           bindE (getsE (\<lambda>u. event_list_for_run u s))
           (\<lambda>events. let current = int (length events) in
             thenE (guardE (\<lambda>_. expected_sequence \<noteq> current) (\<lambda>_. StaleStateError
               (''Execution event stream '' @ scope_str s @ '' expected sequence '' @
                int_str expected_sequence @ ''; found '' @ int_str current)))
             (thenE (guardE (\<lambda>_. ev_sequence e \<noteq> current + 1) (\<lambda>_. StaleStateError
               (''ExecutionEvent '' @ ev_id e @ '' must use sequence '' @ int_str (current + 1) @
                ''; received '' @ int_str (ev_sequence e))))
             (thenE (modifyE (\<lambda>u. (update_view (\<lambda>d. d\<lparr>md_events :=
                     AList.update s (events @ [e]) (md_events d)\<rparr>) u)
                     \<lparr>mu_dirty_events := insert s (mu_dirty_events u)\<rparr>))
               (returnE e))))))"

definition event_replay :: "memory_uow \<Rightarrow> scope \<Rightarrow> int \<Rightarrow> ExecutionEvent list res" where
  "event_replay u s after_sequence =
     bindR (guardR (after_sequence < 0) (ValueErrorMsg ''after_sequence cannot be negative''))
     (\<lambda>_. Inr (filter (\<lambda>e. ev_sequence e > after_sequence) (event_list_for_run u s)))"

section \<open>Commit\<close>

text \<open>The orders in which Python walks the sets of dirty keys.\<close>

record commit_order =
  co_workflows :: "string list"
  co_checkpoints :: "string list"
  co_memory :: "scope list"
  co_artifacts :: "string list"
  co_approvals :: "string list"
  co_events :: "scope list"
  co_operations :: "string list"

definition validate_workflow :: "memory_uow \<Rightarrow> database \<Rightarrow> string \<Rightarrow> unit res" where
  "validate_workflow u db i =
     bindR (index_dict (mu_workflow_expected u) i)
     (\<lambda>expected. let current_version = map_option xr_version (map_of (md_executions db) i) in
       bindR (guardR (current_version \<noteq> expected) (StaleStateError
         (''WorkflowRun '' @ i @ '' expected committed persistence version '' @
          opt_int_str expected @ ''; found '' @ opt_int_str current_version)))
     (\<lambda>_. bindR (index_dict (md_executions (mu_view u)) i)
     (\<lambda>candidate. case conflicting_run (md_executions db) (run_key candidate) i of
        Some other \<Rightarrow> Inl (DuplicateEntityError
          (''Workflow execution idempotency key was concurrently claimed by WorkflowRun '' @ other))
      | None \<Rightarrow> Inr ())))"

definition base_count :: "('k \<times> nat) list \<Rightarrow> 'k \<Rightarrow> nat" where
  "base_count t k = (case map_of t k of None \<Rightarrow> 0 | Some n \<Rightarrow> n)"

definition validate_checkpoints :: "memory_uow \<Rightarrow> database \<Rightarrow> string \<Rightarrow> unit res" where
  "validate_checkpoints u db i =
     (let current = length (stream_of (md_checkpoints db) i); expected = base_count (mu_base_checkpoints u) i in
      guardR (current \<noteq> expected) (StaleStateError (''Checkpoint stream '' @ i @ '' expected '' @
        nat_str expected @ '' records; found '' @ nat_str current)))"

definition validate_memory :: "memory_uow \<Rightarrow> database \<Rightarrow> scope \<Rightarrow> unit res" where
  "validate_memory u db s =
     (let current = length (stream_of (md_memory db) s); expected = base_count (mu_base_memory u) s in
      guardR (current \<noteq> expected) (StaleStateError (''Memory scope '' @ scope_str s @ '' expected revision '' @
        nat_str expected @ ''; found '' @ nat_str current)))"

definition validate_artifact :: "memory_uow \<Rightarrow> database \<Rightarrow> string \<Rightarrow> unit res" where
  "validate_artifact u db i =
     (case map_of (md_artifacts db) i of
        None \<Rightarrow> Inr ()
      | Some current \<Rightarrow>
          bindR (index_dict (md_artifacts (mu_view u)) i)
          (\<lambda>a. guardR (current \<noteq> a)
            (DuplicateEntityError (''Artifact ID '' @ i @ '' was concurrently reused''))))"

definition validate_approval :: "memory_uow \<Rightarrow> database \<Rightarrow> string \<Rightarrow> unit res" where
  "validate_approval u db i =
     bindR (index_dict (mu_approval_expected u) i)
     (\<lambda>expected. let current_version = map_option ap_version (map_of (md_approvals db) i) in
       guardR (current_version \<noteq> expected) (StaleStateError
         (''ApprovalRequest '' @ i @ '' expected committed persistence version '' @
          opt_int_str expected @ ''; found '' @ opt_int_str current_version)))"

fun claim_event_ids :: "string set \<Rightarrow> ExecutionEvent list \<Rightarrow> string set res" where
  "claim_event_ids ids [] = Inr ids"
| "claim_event_ids ids (e # es) =
     (if ev_id e \<in> ids then
        Inl (DuplicateEntityError (''ExecutionEvent ID '' @ ev_id e @ '' was concurrently reused''))
      else claim_event_ids (insert (ev_id e) ids) es)"

fun validate_events :: "memory_uow \<Rightarrow> database \<Rightarrow> string set \<Rightarrow> scope list \<Rightarrow> unit res" where
  "validate_events u db ids [] = Inr ()"
| "validate_events u db ids (s # ss) =
     (let current = length (stream_of (md_events db) s); expected = base_count (mu_base_events u) s in
      bindR (guardR (current \<noteq> expected) (StaleStateError
        (''Execution event stream '' @ scope_str s @ '' expected sequence '' @ nat_str expected @
         ''; found '' @ nat_str current)))
      (\<lambda>_. bindR (claim_event_ids ids (drop expected (stream_of (md_events (mu_view u)) s)))
      (\<lambda>ids'. validate_events u db ids' ss)))"

definition committed_event_ids :: "database \<Rightarrow> string set" where
  "committed_event_ids db = ev_id ` set (concat (map snd (md_events db)))"

text \<open>The unit of work as the repository of provider operations sees it.\<close>

definition operation_part :: "memory_uow \<Rightarrow> provider_uow" where
  "operation_part u = \<lparr>uw_operations = md_operations (mu_view u),
     uw_expected = mu_operation_expected u, uw_dirty = mu_dirty_operations u\<rparr>"

definition validate_concurrency :: "commit_order \<Rightarrow> memory_uow \<Rightarrow> database \<Rightarrow> unit res" where
  "validate_concurrency c u db =
     bindR (forR (co_workflows c) (validate_workflow u db))
     (\<lambda>_. bindR (forR (co_checkpoints c) (validate_checkpoints u db))
     (\<lambda>_. bindR (forR (co_memory c) (validate_memory u db))
     (\<lambda>_. bindR (forR (co_artifacts c) (validate_artifact u db))
     (\<lambda>_. bindR (forR (co_approvals c) (validate_approval u db))
     (\<lambda>_. bindR (validate_events u db (committed_event_ids db) (co_events c))
     (\<lambda>_. validate_operations (operation_part u) (md_operations db)
           (committed_idempotency (md_operations db)) (co_operations c)))))))"

text \<open>\<open>for k in dirty: database.table[k] = view.table[k]\<close>; validation has looked up every key.\<close>

fun write_table :: "('k \<times> 'v) list \<Rightarrow> 'k list \<Rightarrow> ('k \<times> 'v) list \<Rightarrow> ('k \<times> 'v) list" where
  "write_table view [] t = t"
| "write_table view (k # ks) t =
     write_table view ks (case map_of view k of None \<Rightarrow> t | Some v \<Rightarrow> AList.update k v t)"

definition write_back :: "commit_order \<Rightarrow> memory_uow \<Rightarrow> database \<Rightarrow> database" where
  "write_back c u db = (let v = mu_view u in
     \<lparr>md_executions = write_table (md_executions v) (co_workflows c) (md_executions db),
      md_checkpoints = write_table (md_checkpoints v) (co_checkpoints c) (md_checkpoints db),
      md_memory = write_table (md_memory v) (co_memory c) (md_memory db),
      md_artifacts = write_table (md_artifacts v) (co_artifacts c) (md_artifacts db),
      md_approvals = write_table (md_approvals v) (co_approvals c) (md_approvals db),
      md_events = write_table (md_events v) (co_events c) (md_events db),
      md_operations = write_table (md_operations v) (co_operations c) (md_operations db)\<rparr>)"

definition memory_commit :: "commit_order \<Rightarrow> (memory_uow \<times> database, unit) op" where
  "memory_commit c = (\<lambda>(u, db).
     case validate_concurrency c u db of
       Inl e \<Rightarrow> (Inl e, (u, db))
     | Inr _ \<Rightarrow> (let db' = write_back c u db in (Inr (), (memory_refresh db', db'))))"

definition memory_rollback :: "(memory_uow \<times> database, unit) op" where
  "memory_rollback = (\<lambda>(u, db). (Inr (), (memory_refresh db, db)))"

text \<open>An order that lists exactly the dirty keys.\<close>

definition order_ok :: "commit_order \<Rightarrow> memory_uow \<Rightarrow> bool" where
  "order_ok c u \<longleftrightarrow> set (co_workflows c) = mu_dirty_workflows u \<and>
     set (co_checkpoints c) = mu_dirty_checkpoints u \<and> set (co_memory c) = mu_dirty_memory u \<and>
     set (co_artifacts c) = mu_dirty_artifacts u \<and> set (co_approvals c) = mu_dirty_approvals u \<and>
     set (co_events c) = mu_dirty_events u \<and> distinct (co_events c) \<and>
     set (co_operations c) = mu_dirty_operations u"

end
