(* ===== verification/Persistence_Streams.thy ===== *)
theory Persistence_Streams
  imports Persistence "HOL-Library.Sublist"
begin

text \<open>
  The three append-only streams of the in-memory database (checkpoints of a run, memory
  revisions and execution events of a scope) under any interleaving of units of work.
  What \<open>commit\<close> and \<open>_refresh\<close> promise a stream is a locale, interpreted on the three
  tables.
\<close>

section \<open>Units of work over one database\<close>

text \<open>The calls of the repositories that change a unit of work.\<close>

datatype repository_call =
    SaveWorkflow ExecutionState "int option"
  | SaveCheckpoint Checkpoint CheckpointBoundary "string option" "int option"
  | UpdateContext scope pymap string "string list"
  | InitializeContext scope pymap string "string list"
  | SaveArtifact ArtifactMetadata
  | SaveApproval ApprovalRequest "int option"
  | AppendEvent ExecutionEvent int
  | SaveOperation ProviderOperation "int option"

text \<open>An operation on provider operations, run on the whole unit of work.\<close>

definition on_operations :: "(provider_uow, 'a) op \<Rightarrow> (memory_uow, 'a) op" where
  "on_operations f u = (case f (operation_part u) of (r, p) \<Rightarrow>
     (r, (update_view (\<lambda>d. d\<lparr>md_operations := uw_operations p\<rparr>) u)
           \<lparr>mu_operation_expected := uw_expected p, mu_dirty_operations := uw_dirty p\<rparr>))"

fun perform :: "(string \<Rightarrow> string) \<Rightarrow> repository_call \<Rightarrow> memory_uow \<Rightarrow> memory_uow" where
  "perform sha (SaveWorkflow x expected) u = snd (workflow_save x expected u)"
| "perform sha (SaveCheckpoint p boundary step_id attempt) u =
     snd (checkpoint_save sha p boundary step_id attempt u)"
| "perform sha (UpdateContext s updates producer refs) u = snd (memory_update_context s updates producer refs u)"
| "perform sha (InitializeContext s context producer refs) u =
     snd (memory_initialize_context s context producer refs u)"
| "perform sha (SaveArtifact a) u = snd (artifact_save a u)"
| "perform sha (SaveApproval a expected) u = snd (approval_save a expected u)"
| "perform sha (AppendEvent e expected) u = snd (event_append e expected u)"
| "perform sha (SaveOperation o' expected) u = snd (on_operations (repo_save o' expected) u)"

record memory_store =
  ms_db :: database
  ms_uows :: "nat \<Rightarrow> memory_uow option"

inductive memory_step :: "(string \<Rightarrow> string) \<Rightarrow> memory_store \<Rightarrow> memory_store \<Rightarrow> bool" for sha where
  open_unit: "memory_step sha s (s\<lparr>ms_uows := (ms_uows s)(k \<mapsto> memory_refresh (ms_db s))\<rparr>)"
| call: "ms_uows s k = Some u \<Longrightarrow>
     memory_step sha s (s\<lparr>ms_uows := (ms_uows s)(k \<mapsto> perform sha c u)\<rparr>)"
| commit: "ms_uows s k = Some u \<Longrightarrow> order_ok c u \<Longrightarrow> memory_commit c (u, ms_db s) = (r, (u', db')) \<Longrightarrow>
     memory_step sha s (s\<lparr>ms_db := db', ms_uows := (ms_uows s)(k \<mapsto> u')\<rparr>)"
| rollback: "ms_uows s k = Some u \<Longrightarrow> memory_rollback (u, ms_db s) = (r, (u', db')) \<Longrightarrow>
     memory_step sha s (s\<lparr>ms_db := db', ms_uows := (ms_uows s)(k \<mapsto> u')\<rparr>)"

definition empty_store :: memory_store where
  "empty_store = \<lparr>ms_db = empty_database, ms_uows = \<lambda>_. None\<rparr>"

section \<open>Tables\<close>

lemma refresh_view: "mu_view (memory_refresh db) = db"
  by (simp add: memory_refresh_def)

lemma stream_of_update [simp]:
  "stream_of (AList.update k vs t) k' = (if k' = k then vs else stream_of t k')"
  by (simp add: stream_of_def update_conv')

lemma base_count_counts [simp]: "base_count (counts t) k = length (stream_of t k)"
  by (induction t) (auto simp: base_count_def counts_def stream_of_def)

lemma map_of_write_table:
  "map_of (write_table view ks t) k = (if k \<in> set ks \<and> map_of view k \<noteq> None then map_of view k else map_of t k)"
  by (induction ks arbitrary: t) (auto simp: update_conv' split: option.splits)

lemma stream_of_write_table:
  assumes "k \<in> set ks \<Longrightarrow> stream_of view k \<noteq> [] \<or> stream_of t k = []"
  shows "stream_of (write_table view ks t) k = (if k \<in> set ks then stream_of view k else stream_of t k)"
  using assms by (auto simp: stream_of_def map_of_write_table split: option.splits)

section \<open>The contract of a stream\<close>

locale stream_table =
  fixes tbl :: "database \<Rightarrow> ('k \<times> 'e list) list"
    and base :: "memory_uow \<Rightarrow> ('k \<times> nat) list"
    and dirty :: "memory_uow \<Rightarrow> 'k set"
    and order :: "commit_order \<Rightarrow> 'k list"
    and number :: "'e \<Rightarrow> int"
  assumes refresh_base: "base (memory_refresh db) = counts (tbl db)"
    and refresh_dirty: "dirty (memory_refresh db) = {}"
    and validated: "validate_concurrency c u db = Inr () \<Longrightarrow> k \<in> set (order c) \<Longrightarrow>
      length (stream_of (tbl db) k) = base_count (base u) k"
    and written: "tbl (write_back c u db) = write_table (tbl (mu_view u)) (order c) (tbl db)"
    and ordered: "order_ok c u \<Longrightarrow> set (order c) = dirty u"
begin

definition committed :: "database \<Rightarrow> 'k \<Rightarrow> 'e list" where
  "committed db = stream_of (tbl db)"

definition seen :: "memory_uow \<Rightarrow> 'k \<Rightarrow> 'e list" where
  "seen u = stream_of (tbl (mu_view u))"

text \<open>Elements are numbered from 1 without gaps.\<close>

definition numbered :: "'e list \<Rightarrow> bool" where
  "numbered xs \<longleftrightarrow> map number xs = map (\<lambda>i. int i + 1) [0..<length xs]"

text \<open>A unit of work sees a committed prefix and what it appended itself.\<close>

definition uow_ok :: "memory_uow \<Rightarrow> database \<Rightarrow> bool" where
  "uow_ok u db \<longleftrightarrow> (\<forall>k. numbered (seen u k) \<and> base_count (base u) k \<le> length (committed db k) \<and>
     prefix (take (base_count (base u) k) (committed db k)) (seen u k) \<and>
     (k \<notin> dirty u \<longrightarrow> length (seen u k) = base_count (base u) k))"

definition extends :: "database \<Rightarrow> database \<Rightarrow> bool" where
  "extends db db' \<longleftrightarrow> (\<forall>k. prefix (committed db k) (committed db' k))"

definition all_numbered :: "database \<Rightarrow> bool" where
  "all_numbered db \<longleftrightarrow> (\<forall>k. numbered (committed db k))"

text \<open>What a call does to the stream: nothing, or one more element.\<close>

definition appends :: "memory_uow \<Rightarrow> memory_uow \<Rightarrow> bool" where
  "appends u u' \<longleftrightarrow> base u' = base u \<and>
     (seen u' = seen u \<and> dirty u' = dirty u \<or>
      (\<exists>k e. seen u' = (seen u)(k := seen u k @ [e]) \<and> dirty u' = insert k (dirty u) \<and>
         number e = int (length (seen u k)) + 1))"

lemma numbered_append: "numbered (xs @ [e]) \<longleftrightarrow> numbered xs \<and> number e = int (length xs) + 1"
  by (auto simp: numbered_def)

lemma refresh_ok: "all_numbered db \<Longrightarrow> uow_ok (memory_refresh db) db"
  by (simp add: uow_ok_def seen_def committed_def all_numbered_def refresh_base refresh_dirty refresh_view)

lemma appends_ok:
  assumes "appends u u'" and "uow_ok u db"
  shows "uow_ok u' db"
  using assms by (auto simp: appends_def uow_ok_def numbered_append)

lemma extends_ok:
  assumes "extends db db'" and "uow_ok u db"
  shows "uow_ok u db'"
  unfolding uow_ok_def
proof
  fix k
  from assms(1) obtain zs where "committed db' k = committed db k @ zs"
    by (auto simp: extends_def prefix_def)
  moreover from assms(2) have "base_count (base u) k \<le> length (committed db k)" by (simp add: uow_ok_def)
  ultimately show "numbered (seen u k) \<and> base_count (base u) k \<le> length (committed db' k) \<and>
     prefix (take (base_count (base u) k) (committed db' k)) (seen u k) \<and>
     (k \<notin> dirty u \<longrightarrow> length (seen u k) = base_count (base u) k)"
    using assms(2) by (simp add: uow_ok_def trans_le_add1)
qed

lemma written_back:
  assumes "uow_ok u db" and "order_ok c u" and "validate_concurrency c u db = Inr ()"
  shows "committed (write_back c u db) k =
      (if k \<in> set (order c) then seen u k else committed db k)"
    and "k \<in> set (order c) \<Longrightarrow> seen u k = committed db k @ drop (base_count (base u) k) (seen u k)"
proof -
  have all: "seen u k = committed db k @ drop (base_count (base u) k) (seen u k)" if "k \<in> set (order c)" for k
  proof -
    have len: "length (committed db k) = base_count (base u) k"
      using validated [OF assms(3) that] by (simp add: committed_def)
    moreover have "prefix (take (base_count (base u) k) (committed db k)) (seen u k)"
      using assms(1) by (simp add: uow_ok_def)
    ultimately have "prefix (committed db k) (seen u k)" by simp
    with len show ?thesis by (auto simp: prefix_def)
  qed
  then show "k \<in> set (order c) \<Longrightarrow> seen u k = committed db k @ drop (base_count (base u) k) (seen u k)" .
  have "seen u k \<noteq> [] \<or> committed db k = []" if "k \<in> set (order c)"
    using all [OF that] by (metis append_is_Nil_conv)
  then show "committed (write_back c u db) k = (if k \<in> set (order c) then seen u k else committed db k)"
    by (simp add: committed_def seen_def written stream_of_write_table)
qed

lemma commit_ok:
  assumes "memory_commit c (u, db) = (r, (u', db'))" and "order_ok c u" and "uow_ok u db" and "all_numbered db"
  shows "extends db db'" and "all_numbered db'" and "uow_ok u' db'"
proof -
  consider "db' = db" "u' = u"
    | "validate_concurrency c u db = Inr ()" "db' = write_back c u db" "u' = memory_refresh db'"
    using assms(1) by (auto simp: memory_commit_def Let_def split: sum.splits)
  then have "extends db db' \<and> all_numbered db' \<and> uow_ok u' db'"
  proof cases
    case 1
    with assms show ?thesis by (simp add: extends_def)
  next
    case 2
    note wb = written_back [OF assms(3,2) 2(1)]
    have ext: "extends db db'"
      using wb 2(2) by (auto simp: extends_def) (metis prefixI)
    moreover have num: "all_numbered db'"
      using wb(1) 2(2) assms(3,4) by (simp add: all_numbered_def uow_ok_def)
    ultimately show ?thesis using refresh_ok 2(3) by simp
  qed
  then show "extends db db'" and "all_numbered db'" and "uow_ok u' db'" by simp_all
qed

end

text \<open>The checks of \<open>_validate_concurrency\<close>, one table after the other.\<close>

lemma validate_concurrency_Inr:
  assumes "validate_concurrency c u db = Inr ()"
  shows "\<forall>k \<in> set (co_checkpoints c). validate_checkpoints u db k = Inr ()"
    and "\<forall>k \<in> set (co_memory c). validate_memory u db k = Inr ()"
    and "validate_events u db (committed_event_ids db) (co_events c) = Inr ()"
  using assms by (simp_all add: validate_concurrency_def bindR_Inr_iff forR_Inr_iff)

lemma validate_events_counts:
  "validate_events u db ids ss = Inr () \<Longrightarrow> s \<in> set ss \<Longrightarrow>
     length (stream_of (md_events db) s) = base_count (mu_base_events u) s"
  by (induction ss arbitrary: ids) (auto simp: bindR_Inr_iff Let_def)

interpretation checkpoints: stream_table md_checkpoints mu_base_checkpoints mu_dirty_checkpoints co_checkpoints ck_sequence
  by unfold_locales
    (auto simp: memory_refresh_def write_back_def order_ok_def validate_checkpoints_def Let_def
      dest!: validate_concurrency_Inr(1))

interpretation revisions: stream_table md_memory mu_base_memory mu_dirty_memory co_memory mv_revision
  by unfold_locales
    (auto simp: memory_refresh_def write_back_def order_ok_def validate_memory_def Let_def
      dest!: validate_concurrency_Inr(2))

interpretation events: stream_table md_events mu_base_events mu_dirty_events co_events ev_sequence
  by unfold_locales
    (auto simp: memory_refresh_def write_back_def order_ok_def Let_def
      dest!: validate_concurrency_Inr(3) dest: validate_events_counts)

section \<open>Every call appends\<close>

text \<open>What the streams depend on in a unit of work.\<close>

definition checkpoint_part :: "memory_uow \<Rightarrow> (string \<times> CheckpointRecord list) list \<times> (string \<times> nat) list \<times> string set" where
  "checkpoint_part u = (md_checkpoints (mu_view u), mu_base_checkpoints u, mu_dirty_checkpoints u)"

definition memory_part :: "memory_uow \<Rightarrow> (scope \<times> MemoryRevision list) list \<times> (scope \<times> nat) list \<times> scope set" where
  "memory_part u = (md_memory (mu_view u), mu_base_memory u, mu_dirty_memory u)"

definition event_part :: "memory_uow \<Rightarrow> (scope \<times> ExecutionEvent list) list \<times> (scope \<times> nat) list \<times> scope set" where
  "event_part u = (md_events (mu_view u), mu_base_events u, mu_dirty_events u)"

lemmas part_defs = checkpoint_part_def memory_part_def event_part_def

lemma appends_same:
  "checkpoint_part u' = checkpoint_part u \<Longrightarrow> checkpoints.appends u u'"
  "memory_part u' = memory_part u \<Longrightarrow> revisions.appends u u'"
  "event_part u' = event_part u \<Longrightarrow> events.appends u u'"
  by (simp_all add: part_defs checkpoints.appends_def revisions.appends_def events.appends_def
      checkpoints.seen_def revisions.seen_def events.seen_def)

lemma appends_one:
  "checkpoint_part u' = (AList.update k (stream_of (md_checkpoints (mu_view u)) k @ [c]) (md_checkpoints (mu_view u)),
     mu_base_checkpoints u, insert k (mu_dirty_checkpoints u)) \<Longrightarrow>
   ck_sequence c = int (length (stream_of (md_checkpoints (mu_view u)) k)) + 1 \<Longrightarrow> checkpoints.appends u u'"
  "memory_part u' = (AList.update s (stream_of (md_memory (mu_view u)) s @ [v]) (md_memory (mu_view u)),
     mu_base_memory u, insert s (mu_dirty_memory u)) \<Longrightarrow>
   mv_revision v = int (length (stream_of (md_memory (mu_view u)) s)) + 1 \<Longrightarrow> revisions.appends u u'"
  "event_part u' = (AList.update s (stream_of (md_events (mu_view u)) s @ [e]) (md_events (mu_view u)),
     mu_base_events u, insert s (mu_dirty_events u)) \<Longrightarrow>
   ev_sequence e = int (length (stream_of (md_events (mu_view u)) s)) + 1 \<Longrightarrow> events.appends u u'"
  unfolding part_defs checkpoints.appends_def revisions.appends_def events.appends_def
    checkpoints.seen_def revisions.seen_def events.seen_def
  by (rule conjI, simp, rule disjI2, rule exI, rule exI, rule conjI, rule ext, simp, fastforce)+

text \<open>Each repository leaves the streams of the others alone.\<close>

lemma workflow_save_part:
  "checkpoint_part (snd (workflow_save x expected u)) = checkpoint_part u"
  "memory_part (snd (workflow_save x expected u)) = memory_part u"
  "event_part (snd (workflow_save x expected u)) = event_part u"
  by (simp_all add: workflow_save_def part_defs Let_def op_simps update_view_def split: sum.splits)

lemma approval_save_part:
  "checkpoint_part (snd (approval_save x expected u)) = checkpoint_part u"
  "memory_part (snd (approval_save x expected u)) = memory_part u"
  "event_part (snd (approval_save x expected u)) = event_part u"
  by (simp_all add: approval_save_def part_defs Let_def op_simps update_view_def split: sum.splits)

lemma artifact_save_part:
  "checkpoint_part (snd (artifact_save x u)) = checkpoint_part u"
  "memory_part (snd (artifact_save x u)) = memory_part u"
  "event_part (snd (artifact_save x u)) = event_part u"
  by (simp_all add: artifact_save_def part_defs Let_def op_simps update_view_def split: option.splits)

lemma on_operations_part:
  "checkpoint_part (snd (on_operations f u)) = checkpoint_part u"
  "memory_part (snd (on_operations f u)) = memory_part u"
  "event_part (snd (on_operations f u)) = event_part u"
  by (simp_all add: on_operations_def part_defs update_view_def split: prod.splits)

lemma checkpoint_save_effect:
  "checkpoint_part (snd (checkpoint_save sha p boundary step_id attempt u)) = checkpoint_part u \<or>
   (\<exists>r. checkpoint_part (snd (checkpoint_save sha p boundary step_id attempt u)) =
      (AList.update (cp_workflow_run_id p) (stream_of (md_checkpoints (mu_view u)) (cp_workflow_run_id p) @ [r])
         (md_checkpoints (mu_view u)), mu_base_checkpoints u, insert (cp_workflow_run_id p) (mu_dirty_checkpoints u)) \<and>
      ck_sequence r = int (length (stream_of (md_checkpoints (mu_view u)) (cp_workflow_run_id p))) + 1)"
  unfolding part_defs
  by (cases "verify_integrity sha p";
      cases "find_checkpoint_record p boundary step_id attempt
        (stream_of (md_checkpoints (mu_view u)) (cp_workflow_run_id p))")
    (auto simp: checkpoint_save_def Let_def op_simps update_view_def checkpoint_record_post_init_def guardR_def
      split: option.splits)

lemma checkpoint_save_part:
  "checkpoints.appends u (snd (checkpoint_save sha p boundary step_id attempt u))"
  "memory_part (snd (checkpoint_save sha p boundary step_id attempt u)) = memory_part u"
  "event_part (snd (checkpoint_save sha p boundary step_id attempt u)) = event_part u"
  subgoal using checkpoint_save_effect appends_same(1) appends_one(1) by metis
  by (simp_all add: checkpoint_save_def part_defs Let_def op_simps update_view_def split: sum.splits option.splits)

lemma memory_update_effect:
  "memory_part (snd (memory_update_context s updates producer refs u)) = memory_part u \<or>
   (\<exists>r. memory_part (snd (memory_update_context s updates producer refs u)) =
      (AList.update s (stream_of (md_memory (mu_view u)) s @ [r]) (md_memory (mu_view u)),
       mu_base_memory u, insert s (mu_dirty_memory u)) \<and>
      mv_revision r = int (length (stream_of (md_memory (mu_view u)) s)) + 1)"
proof -
  have "mv_revision r = n" if "memory_revision_post_init \<lparr>mv_project_id = a, mv_workflow_run_id = b, mv_revision = n,
      mv_context = c, mv_producer = d, mv_source_references = e\<rparr> = Inr r" for a b c d e n r
    using that by (auto simp: memory_revision_post_init_def bindR_Inr_iff)
  then show ?thesis unfolding part_defs
    by (auto simp: memory_update_context_def memory_history_def Let_def op_simps update_view_def split: sum.splits)
qed

lemma memory_update_part:
  "checkpoint_part (snd (memory_update_context s updates producer refs u)) = checkpoint_part u"
  "revisions.appends u (snd (memory_update_context s updates producer refs u))"
  "event_part (snd (memory_update_context s updates producer refs u)) = event_part u"
  subgoal by (simp add: memory_update_context_def part_defs op_simps update_view_def split: sum.splits)
  subgoal using memory_update_effect appends_same(2) appends_one(2) by metis
  by (simp add: memory_update_context_def part_defs op_simps update_view_def split: sum.splits)

lemma memory_initialize_part:
  "checkpoint_part (snd (memory_initialize_context s context producer refs u)) = checkpoint_part u"
  "revisions.appends u (snd (memory_initialize_context s context producer refs u))"
  "event_part (snd (memory_initialize_context s context producer refs u)) = event_part u"
  by (auto simp: memory_initialize_context_def op_simps memory_update_part intro: appends_same)

lemma event_append_effect:
  "event_part (snd (event_append e expected u)) = event_part u \<or>
   (event_part (snd (event_append e expected u)) =
      (AList.update (event_scope e) (stream_of (md_events (mu_view u)) (event_scope e) @ [e]) (md_events (mu_view u)),
       mu_base_events u, insert (event_scope e) (mu_dirty_events u)) \<and>
      ev_sequence e = int (length (stream_of (md_events (mu_view u)) (event_scope e))) + 1)"
  unfolding part_defs
  by (auto simp: event_append_def event_list_for_run_def Let_def op_simps update_view_def split: option.splits)

lemma event_append_part:
  "checkpoint_part (snd (event_append e expected u)) = checkpoint_part u"
  "memory_part (snd (event_append e expected u)) = memory_part u"
  "events.appends u (snd (event_append e expected u))"
  subgoal by (simp add: event_append_def part_defs Let_def op_simps update_view_def split: option.splits)
  subgoal by (simp add: event_append_def part_defs Let_def op_simps update_view_def split: option.splits)
  using event_append_effect appends_same(3) appends_one(3) by metis

lemmas call_parts = workflow_save_part approval_save_part artifact_save_part on_operations_part
  checkpoint_save_part memory_update_part memory_initialize_part event_append_part

lemma perform_appends:
  "checkpoints.appends u (perform sha c u) \<and> revisions.appends u (perform sha c u) \<and>
   events.appends u (perform sha c u)"
  by (cases c) (simp_all add: call_parts appends_same)

section \<open>Invariant\<close>

definition uow_invariant :: "memory_uow \<Rightarrow> database \<Rightarrow> bool" where
  "uow_invariant u db \<longleftrightarrow> checkpoints.uow_ok u db \<and> revisions.uow_ok u db \<and> events.uow_ok u db"

definition database_invariant :: "database \<Rightarrow> bool" where
  "database_invariant db \<longleftrightarrow> checkpoints.all_numbered db \<and> revisions.all_numbered db \<and> events.all_numbered db"

definition database_extends :: "database \<Rightarrow> database \<Rightarrow> bool" where
  "database_extends db db' \<longleftrightarrow> checkpoints.extends db db' \<and> revisions.extends db db' \<and> events.extends db db'"

lemmas invariant_defs = uow_invariant_def database_invariant_def database_extends_def

definition store_invariant :: "memory_store \<Rightarrow> bool" where
  "store_invariant s \<longleftrightarrow> database_invariant (ms_db s) \<and>
     (\<forall>k u. ms_uows s k = Some u \<longrightarrow> uow_invariant u (ms_db s))"

lemma perform_invariant: "uow_invariant u db \<Longrightarrow> uow_invariant (perform sha c u) db"
  using perform_appends [of u sha c]
  by (auto simp: uow_invariant_def intro: checkpoints.appends_ok revisions.appends_ok events.appends_ok)

lemma refresh_invariant: "database_invariant db \<Longrightarrow> uow_invariant (memory_refresh db) db"
  by (simp add: invariant_defs checkpoints.refresh_ok revisions.refresh_ok events.refresh_ok)

lemma extends_invariant: "database_extends db db' \<Longrightarrow> uow_invariant u db \<Longrightarrow> uow_invariant u db'"
  by (auto simp: invariant_defs intro: checkpoints.extends_ok revisions.extends_ok events.extends_ok)

lemma commit_invariant:
  assumes "memory_commit c (u, db) = (r, (u', db'))" and "order_ok c u" and "uow_invariant u db" and "database_invariant db"
  shows "database_extends db db' \<and> database_invariant db' \<and> uow_invariant u' db'"
  using assms(3,4) checkpoints.commit_ok [OF assms(1,2)] revisions.commit_ok [OF assms(1,2)]
    events.commit_ok [OF assms(1,2)]
  by (simp add: invariant_defs)

lemma extends_refl: "database_extends db db"
  by (simp add: database_extends_def checkpoints.extends_def revisions.extends_def events.extends_def)

lemma extends_trans: "database_extends a b \<Longrightarrow> database_extends b c \<Longrightarrow> database_extends a c"
  unfolding database_extends_def checkpoints.extends_def revisions.extends_def events.extends_def
  by (blast intro: prefix_order.trans)

lemma memory_step_invariant:
  assumes "memory_step sha s s'" and "store_invariant s"
  shows "store_invariant s' \<and> database_extends (ms_db s) (ms_db s')"
  using assms
proof (induction rule: memory_step.induct)
  case (open_unit s k)
  then show ?case by (auto simp: store_invariant_def refresh_invariant extends_refl)
next
  case (call s k u c)
  then show ?case by (auto simp: store_invariant_def perform_invariant extends_refl)
next
  case (commit s k u c r u' db')
  then have "database_extends (ms_db s) db' \<and> database_invariant db' \<and> uow_invariant u' db'"
    by (intro commit_invariant) (auto simp: store_invariant_def)
  with commit show ?case by (auto simp: store_invariant_def intro: extends_invariant)
next
  case (rollback s k u r u' db')
  then show ?case by (auto simp: store_invariant_def memory_rollback_def refresh_invariant extends_refl)
qed

lemma memory_steps_invariant:
  assumes "(memory_step sha)\<^sup>*\<^sup>* s s'" and "store_invariant s"
  shows "store_invariant s' \<and> database_extends (ms_db s) (ms_db s')"
  using assms
  by (induction rule: rtranclp_induct) (auto intro: extends_refl extends_trans dest: memory_step_invariant)

lemma empty_store_invariant: "store_invariant empty_store"
  by (simp add: store_invariant_def empty_store_def empty_database_def database_invariant_def stream_of_def
      checkpoints.all_numbered_def revisions.all_numbered_def events.all_numbered_def
      checkpoints.committed_def revisions.committed_def events.committed_def
      checkpoints.numbered_def revisions.numbered_def events.numbered_def)

end
