(* ===== verification/Persistence_Claims.thy ===== *)
theory Persistence_Claims
  imports Persistence_Streams Execution_Claims
begin

text \<open>
  Properties of the in-memory persistence: the append-only streams under any interleaving
  of units of work, and the round trip of an execution through save, commit and load.
\<close>

section \<open>Event identifiers\<close>

definition event_id_at :: "database \<Rightarrow> scope \<times> nat \<Rightarrow> string" where
  "event_id_at db = (\<lambda>(s, i). ev_id (stream_of (md_events db) s ! i))"

definition event_positions :: "database \<Rightarrow> (scope \<times> nat) set" where
  "event_positions db = {(s, i). i < length (stream_of (md_events db) s)}"

definition unique_event_ids :: "database \<Rightarrow> bool" where
  "unique_event_ids db \<longleftrightarrow> inj_on (event_id_at db) (event_positions db)"

lemma claim_event_ids_Inr:
  "claim_event_ids ids es = Inr ids' \<longleftrightarrow>
     distinct (map ev_id es) \<and> ev_id ` set es \<inter> ids = {} \<and> ids' = ids \<union> ev_id ` set es"
  by (induction es arbitrary: ids) auto

abbreviation new_events :: "memory_uow \<Rightarrow> scope \<Rightarrow> ExecutionEvent list" where
  "new_events u s \<equiv> drop (base_count (mu_base_events u) s) (stream_of (md_events (mu_view u)) s)"

lemma validate_events_fresh:
  assumes "validate_events u db ids ss = Inr ()" and "distinct ss"
  shows "distinct (map ev_id (concat (map (new_events u) ss)))"
    and "ev_id ` set (concat (map (new_events u) ss)) \<inter> ids = {}"
proof -
  have "distinct (map ev_id (concat (map (new_events u) ss))) \<and>
      ev_id ` set (concat (map (new_events u) ss)) \<inter> ids = {}"
    using assms
  proof (induction ss arbitrary: ids)
    case (Cons s ss)
    from Cons.prems obtain ids' where "claim_event_ids ids (new_events u s) = Inr ids'"
      and rest: "validate_events u db ids' ss = Inr ()"
      by (auto simp: Let_def bindR_Inr_iff)
    then have new: "distinct (map ev_id (new_events u s))" "ev_id ` set (new_events u s) \<inter> ids = {}"
        "ids' = ids \<union> ev_id ` set (new_events u s)"
      by (simp_all add: claim_event_ids_Inr)
    from Cons.IH [OF rest] Cons.prems(2) have "distinct (map ev_id (concat (map (new_events u) ss)))"
      "ev_id ` set (concat (map (new_events u) ss)) \<inter> ids' = {}" by simp_all
    with new show ?case by (auto simp del: set_concat)
  qed simp
  then show "distinct (map ev_id (concat (map (new_events u) ss)))"
    and "ev_id ` set (concat (map (new_events u) ss)) \<inter> ids = {}" by simp_all
qed

lemma distinct_concat_position:
  assumes "distinct (map f (concat (map g ss)))" and "s \<in> set ss" and "s' \<in> set ss"
    and "p < length (g s)" and "q < length (g s')" and "f (g s ! p) = f (g s' ! q)"
  shows "s = s' \<and> p = q"
proof -
  have one: "distinct (map f (g t))" if "t \<in> set ss" for t
    using assms(1) that by (induction ss) auto
  have two: "f ` set (g t) \<inter> f ` set (g t') = {}" if "t \<in> set ss" "t' \<in> set ss" "t \<noteq> t'" for t t'
    using assms(1) that by (induction ss) (auto 4 3)
  have "s = s'" using two [OF assms(2,3)] assms(4-6) by (metis disjoint_iff imageI nth_mem)
  with one [OF assms(2)] assms(4-6) show ?thesis by (auto simp: distinct_conv_nth nth_eq_iff_index_eq)
qed

lemma committed_id: "x \<in> event_positions db \<Longrightarrow> event_id_at db x \<in> committed_event_ids db"
proof -
  assume "x \<in> event_positions db"
  then obtain s i vs where "x = (s, i)" "map_of (md_events db) s = Some vs" "i < length vs"
    by (cases x) (auto simp: event_positions_def stream_of_def split: option.splits)
  then show ?thesis
    by (auto simp: event_id_at_def committed_event_ids_def stream_of_def image_iff dest!: map_of_SomeD)
      (metis nth_mem snd_conv)
qed

lemma commit_unique_ids:
  assumes "validate_concurrency c u db = Inr ()" and "order_ok c u" and "events.uow_ok u db" and "unique_event_ids db"
  shows "unique_event_ids (write_back c u db)"
  unfolding unique_event_ids_def
proof (rule inj_onI)
  let ?n = "\<lambda>s. length (stream_of (md_events db) s)" and ?db = "write_back c u db"
  note fresh = validate_events_fresh [OF validate_concurrency_Inr(3) [OF assms(1)]]
  have dist: "distinct (co_events c)" using assms(2) by (simp add: order_ok_def)
  have wb: "stream_of (md_events ?db) s =
      (if s \<in> set (co_events c) then stream_of (md_events db) s @ new_events u s else stream_of (md_events db) s)" for s
    using events.written_back [OF assms(3,2,1)] by (simp add: events.committed_def events.seen_def)
  have old: "(s, i) \<in> event_positions db \<and> event_id_at ?db (s, i) = event_id_at db (s, i)"
    if "i < ?n s" for s i
    using that by (simp add: event_positions_def event_id_at_def wb nth_append)
  have new: "s \<in> set (co_events c) \<and> i - ?n s < length (new_events u s) \<and>
      event_id_at ?db (s, i) = ev_id (new_events u s ! (i - ?n s))"
    if "(s, i) \<in> event_positions ?db" "\<not> i < ?n s" for s i
    using that by (auto simp: event_positions_def event_id_at_def wb nth_append split: if_splits)
  have apart: "event_id_at ?db x \<noteq> event_id_at ?db y"
    if "x \<in> event_positions ?db" "y \<in> event_positions ?db" "snd x < ?n (fst x)" "\<not> snd y < ?n (fst y)" for x y
  proof -
    obtain s i t j where xy: "x = (s, i)" "y = (t, j)" by (cases x, cases y)
    have "event_id_at ?db x \<in> committed_event_ids db" using old [of i s] committed_id that xy by auto
    moreover have "event_id_at ?db y \<in> ev_id ` set (concat (map (new_events u) (co_events c)))"
    proof -
      from new [of t j] that xy have n: "t \<in> set (co_events c)" "j - ?n t < length (new_events u t)"
        "event_id_at ?db y = ev_id (new_events u t ! (j - ?n t))" by simp_all
      from n(1) nth_mem [OF n(2)] show ?thesis unfolding n(3) by (intro imageI) (simp only: set_concat set_map, blast)
    qed
    ultimately show ?thesis using fresh(2) [OF dist] by (metis disjoint_iff)
  qed
  fix x y
  assume xy: "x \<in> event_positions ?db" "y \<in> event_positions ?db" "event_id_at ?db x = event_id_at ?db y"
  obtain s i t j where split: "x = (s, i)" "y = (t, j)" by (cases x, cases y)
  from apart [of x y] apart [of y x] xy split consider "i < ?n s" "j < ?n t" | "\<not> i < ?n s" "\<not> j < ?n t" by fastforce
  then show "x = y"
  proof cases
    case 1
    with old [of i s] old [of j t] xy(3) split assms(4) show ?thesis
      by (auto simp: unique_event_ids_def dest: inj_onD)
  next
    case 2
    with new xy split have "s = t \<and> i - ?n s = j - ?n t"
      by (intro distinct_concat_position [OF fresh(1) [OF dist]]) auto
    then have "s = t" "i = j" using 2 by auto
    with split show ?thesis by simp
  qed
qed

definition store_unique :: "memory_store \<Rightarrow> bool" where
  "store_unique s \<longleftrightarrow> store_invariant s \<and> unique_event_ids (ms_db s)"

lemma memory_step_unique:
  assumes "memory_step sha s s'" and "store_unique s"
  shows "store_unique s'"
proof -
  have inv: "store_invariant s" "unique_event_ids (ms_db s)" using assms(2) by (simp_all add: store_unique_def)
  from memory_step_invariant [OF assms(1) inv(1)] have "store_invariant s'" by simp
  moreover from assms(1) have "unique_event_ids (ms_db s')"
  proof cases
    case (commit k u c r u' db')
    then have "db' = ms_db s \<or> validate_concurrency c u (ms_db s) = Inr () \<and> db' = write_back c u (ms_db s)"
      by (auto simp: memory_commit_def Let_def split: sum.splits)
    moreover have "events.uow_ok u (ms_db s)"
      using commit inv(1) by (auto simp: store_invariant_def uow_invariant_def)
    ultimately show ?thesis using commit inv(2) commit_unique_ids by auto
  qed (use inv(2) in \<open>auto simp: memory_rollback_def\<close>)
  ultimately show ?thesis by (simp add: store_unique_def)
qed

lemma reachable_unique: "(memory_step sha)\<^sup>*\<^sup>* empty_store s \<Longrightarrow> store_unique s"
proof (induction rule: rtranclp_induct)
  case base
  show ?case using empty_store_invariant
    by (auto simp: store_unique_def unique_event_ids_def event_positions_def empty_store_def
        empty_database_def stream_of_def inj_on_def)
qed (rule memory_step_unique)

section \<open>Round trip of an execution\<close>

text \<open>The constructors accept the parts of the aggregate as they are.\<close>

definition constructible :: "ExecutionState \<Rightarrow> bool" where
  "constructible x \<longleftrightarrow> workflow_run_post_init (ex_workflow_run x) = Inr (ex_workflow_run x) \<and>
     agent_session_post_init (ex_agent_session x) = Inr (ex_agent_session x) \<and>
     list_all (\<lambda>s. step_run_post_init s = Inr s) (ex_step_runs x)"

text \<open>Loading gives outputs as mutable containers and no checkpoints.\<close>

definition reloaded :: "ExecutionState \<Rightarrow> ExecutionState" where
  "reloaded x = x\<lparr>
     ex_workflow_run := (ex_workflow_run x)\<lparr>wr_outputs := thaw_map (wr_outputs (ex_workflow_run x))\<rparr>,
     ex_step_runs := map (\<lambda>s. s\<lparr>sr_outputs := thaw_map (sr_outputs s)\<rparr>) (ex_step_runs x),
     ex_checkpoints := []\<rparr>"

lemma thaw_map_idem [simp]: "thaw_map (thaw_map m) = thaw_map m"
  by (metis freeze_thaw_map thaw_freeze_map)

lemma snapshot_reloaded: "snapshot (reloaded x) = snapshot x"
  by (simp add: snapshot_def reloaded_def step_snapshot_def comp_def Let_def)

lemma run_record_roundtrip:
  assumes "run_from_domain r = Inr r'" and "workflow_run_post_init r = Inr r"
  shows "run_to_domain r' = Inr (r\<lparr>wr_outputs := thaw_map (wr_outputs r)\<rparr>)"
proof -
  have "r\<lparr>wr_inputs := freeze_map (wr_inputs r)\<rparr> = r"
    using assms(2) by (simp add: workflow_run_post_init_def bindR_Inr_iff)
  then have "freeze_map (wr_inputs r) = wr_inputs r" by (cases r) simp
  with assms show ?thesis
    by (auto simp: run_from_domain_def run_to_domain_def workflow_run_post_init_def bindR_Inr_iff freeze_json_at_Inr)
qed

lemma agent_record_roundtrip:
  assumes "agent_from_domain a = Inr a'" and "agent_session_post_init a = Inr a"
  shows "agent_to_domain a' = Inr a"
proof -
  have "a\<lparr>as_state := freeze_map (as_state a)\<rparr> = a"
    using assms(2) by (simp add: agent_session_post_init_def bindR_Inr_iff)
  then have "freeze_map (as_state a) = as_state a" by (cases a) simp
  with assms show ?thesis
    by (auto simp: agent_from_domain_def agent_to_domain_def agent_session_post_init_def bindR_Inr_iff freeze_json_at_Inr)
qed

lemma step_record_roundtrip:
  assumes "step_from_domain_record s = Inr s'" and "step_run_post_init s = Inr s"
  shows "step_to_domain s' = Inr (s\<lparr>sr_outputs := thaw_map (sr_outputs s)\<rparr>)"
proof -
  have "s\<lparr>sr_inputs := freeze_map (sr_inputs s)\<rparr> = s"
    using assms(2) by (simp add: step_run_post_init_def bindR_Inr_iff)
  then have "freeze_map (sr_inputs s) = sr_inputs s" by (cases s) simp
  with assms show ?thesis
    by (auto simp: step_from_domain_record_def step_to_domain_def step_run_post_init_def bindR_Inr_iff freeze_json_at_Inr)
qed

lemma steps_roundtrip:
  assumes "mapR step_from_domain_record ss = Inr ss'" and "list_all (\<lambda>s. step_run_post_init s = Inr s) ss"
  shows "mapR step_to_domain ss' = Inr (map (\<lambda>s. s\<lparr>sr_outputs := thaw_map (sr_outputs s)\<rparr>) ss)"
  using assms by (induction ss arbitrary: ss') (auto simp: bindR_Inr_iff dest: step_record_roundtrip)

lemma execution_record_roundtrip:
  assumes "from_execution x v = Inr r" and "constructible x"
  shows "to_execution r [] = Inr (reloaded x)" and "xr_version r = v"
    and "wr_id (xr_run r) = wr_id (ex_workflow_run x)"
  using assms
  by (auto simp: from_execution_def execution_record_post_init_def constructible_def to_execution_def reloaded_def
      bindR_Inr_iff run_record_roundtrip agent_record_roundtrip steps_roundtrip)
    (auto simp: run_from_domain_def bindR_Inr_iff)

lemma workflow_save_stores:
  assumes "workflow_save x expected u = (Inr v, u')"
  obtains r where "from_execution x v = Inr r"
    and "map_of (md_executions (mu_view u')) (wr_id (ex_workflow_run x)) = Some r"
    and "wr_id (ex_workflow_run x) \<in> mu_dirty_workflows u'"
  using assms by (auto simp: workflow_save_def Let_def op_simps update_view_def update_conv' split: sum.splits)

lemma commit_publishes_execution:
  assumes "memory_commit c (u, db) = (Inr (), (u', db'))" and "order_ok c u" and "i \<in> mu_dirty_workflows u"
    and "map_of (md_executions (mu_view u)) i = Some r"
  shows "map_of (md_executions db') i = Some r"
proof -
  from assms(1) have "db' = write_back c u db" by (auto simp: memory_commit_def Let_def split: sum.splits)
  with assms(2-4) show ?thesis by (auto simp: write_back_def Let_def map_of_write_table order_ok_def)
qed

section \<open>Properties\<close>

text \<open>
  C7. Under any interleaving of units of work over the in-memory database (every call of every
  repository, commits that succeed or are refused, rollbacks) the checkpoint, memory and event
  streams are append-only: what is committed stays at its place. The elements are numbered
  from 1 without a gap, and no two committed events share an identifier.
\<close>

theorem streams_are_append_only_and_gapless:
  assumes "(memory_step sha)\<^sup>*\<^sup>* empty_store s" and "(memory_step sha)\<^sup>*\<^sup>* s s'"
  shows "prefix (stream_of (md_checkpoints (ms_db s)) i) (stream_of (md_checkpoints (ms_db s')) i) \<and>
    prefix (stream_of (md_memory (ms_db s)) k) (stream_of (md_memory (ms_db s')) k) \<and>
    prefix (stream_of (md_events (ms_db s)) k) (stream_of (md_events (ms_db s')) k) \<and>
    map ck_sequence (stream_of (md_checkpoints (ms_db s')) i) =
      map (\<lambda>n. int n + 1) [0..<length (stream_of (md_checkpoints (ms_db s')) i)] \<and>
    map mv_revision (stream_of (md_memory (ms_db s')) k) =
      map (\<lambda>n. int n + 1) [0..<length (stream_of (md_memory (ms_db s')) k)] \<and>
    map ev_sequence (stream_of (md_events (ms_db s')) k) =
      map (\<lambda>n. int n + 1) [0..<length (stream_of (md_events (ms_db s')) k)] \<and>
    unique_event_ids (ms_db s')"
proof -
  from reachable_unique [OF assms(1)] have "store_invariant s" by (simp add: store_unique_def)
  from memory_steps_invariant [OF assms(2) this] have ext: "database_extends (ms_db s) (ms_db s')"
    and inv: "database_invariant (ms_db s')" by (simp_all add: store_invariant_def)
  have "unique_event_ids (ms_db s')"
    using reachable_unique [OF rtranclp_trans [OF assms]] by (simp add: store_unique_def)
  with ext inv show ?thesis
    by (cases k) (simp add: invariant_defs checkpoints.extends_def revisions.extends_def events.extends_def
        checkpoints.all_numbered_def revisions.all_numbered_def events.all_numbered_def
        checkpoints.numbered_def revisions.numbered_def events.numbered_def
        checkpoints.committed_def revisions.committed_def events.committed_def)
qed

definition demo_event :: ExecutionEvent where
  "demo_event = \<lparr>ev_id = ''e1'', ev_project_id = ''p'', ev_workflow_run_id = ''r'', ev_sequence = 1,
     ev_event_type = Event_WORKFLOW_STARTED, ev_payload = [], ev_schema_version = 1, ev_request_id = ''q'',
     ev_occurred_at = Aware 0, ev_severity = Severity_INFO, ev_agent_session_id = None, ev_step_run_id = None,
     ev_correlation_id = None, ev_causation_id = None\<rparr>"

definition demo_order :: commit_order where
  "demo_order = \<lparr>co_workflows = [], co_checkpoints = [], co_memory = [], co_artifacts = [], co_approvals = [],
     co_events = [(''p'', ''r'')], co_operations = []\<rparr>"

definition demo_unit :: memory_uow where
  "demo_unit = snd (event_append demo_event 0 (memory_refresh empty_database))"

definition demo_database :: database where
  "demo_database = empty_database\<lparr>md_events := [((''p'', ''r''), [demo_event])]\<rparr>"

lemma demo_commit: "memory_commit demo_order (demo_unit, empty_database) = (Inr (), (memory_refresh demo_database, demo_database))"
  by code_simp

lemma demo_order_ok: "order_ok demo_order demo_unit"
  by code_simp

lemma demo_history:
  "\<exists>s. (memory_step sha)\<^sup>*\<^sup>* empty_store s \<and> ms_db s = demo_database"
proof -
  define s1 where "s1 = empty_store\<lparr>ms_uows := (ms_uows empty_store)(0 \<mapsto> memory_refresh empty_database)\<rparr>"
  define s2 where "s2 = s1\<lparr>ms_uows := (ms_uows s1)(0 \<mapsto> demo_unit)\<rparr>"
  define s3 where "s3 = s2\<lparr>ms_db := demo_database, ms_uows := (ms_uows s2)(0 \<mapsto> memory_refresh demo_database)\<rparr>"
  have "memory_step sha empty_store s1"
    using open_unit [of sha empty_store 0] by (simp add: empty_store_def s1_def)
  moreover have "memory_step sha s1 s2"
    using call [of s1 0 "memory_refresh empty_database" sha "AppendEvent demo_event 0"]
    by (simp add: demo_unit_def s1_def s2_def)
  moreover have "ms_db s2 = empty_database" by (simp add: s1_def s2_def empty_store_def)
  then have "memory_step sha s2 s3"
    using commit [of s2 0 demo_unit demo_order "Inr ()" "memory_refresh demo_database" demo_database sha]
      demo_commit demo_order_ok by (simp add: s2_def s3_def)
  ultimately have "(memory_step sha)\<^sup>*\<^sup>* empty_store s3"
    using rtranclp.rtrancl_into_rtrancl r_into_rtranclp by metis
  moreover have "ms_db s3 = demo_database" by (simp add: s3_def)
  ultimately show ?thesis by blast
qed

theorem streams_are_append_only_and_gapless_witness:
  "\<exists>s. (memory_step (\<lambda>x. x))\<^sup>*\<^sup>* empty_store s \<and>
     stream_of (md_events (ms_db s)) (''p'', ''r'') = [demo_event] \<and> unique_event_ids (ms_db s)"
proof -
  obtain s where s: "(memory_step (\<lambda>x. x))\<^sup>*\<^sup>* empty_store s" "ms_db s = demo_database"
    using demo_history [of "\<lambda>x. x"] by blast
  from streams_are_append_only_and_gapless [OF s(1) rtranclp.rtrancl_refl] have "unique_event_ids (ms_db s)" by simp
  moreover have "stream_of (md_events demo_database) (''p'', ''r'') = [demo_event]"
    by (simp add: demo_database_def stream_of_def)
  ultimately show ?thesis using s by metis
qed

text \<open>
  C10. Round trip. An execution that was saved in a unit of work whose commit succeeded is what
  every later unit of work loads, at the version \<open>save\<close> returned: the same aggregate, with
  its outputs in mutable containers and its checkpoints left to the checkpoint repository, and
  with the same snapshot.
\<close>

theorem committed_execution_loads_back:
  assumes "workflow_save x expected u = (Inr v, u')" and "constructible x"
    and "order_ok c u'" and "memory_commit c (u', db) = (Inr (), (u'', db'))"
  shows "workflow_get (memory_refresh db') (wr_id (ex_workflow_run x)) = Inr (Some (reloaded x)) \<and>
    workflow_get_version (memory_refresh db') (wr_id (ex_workflow_run x)) = Some v \<and>
    snapshot (reloaded x) = snapshot x"
proof -
  obtain r where r: "from_execution x v = Inr r"
    "map_of (md_executions (mu_view u')) (wr_id (ex_workflow_run x)) = Some r"
    "wr_id (ex_workflow_run x) \<in> mu_dirty_workflows u'"
    by (rule workflow_save_stores [OF assms(1)])
  have "map_of (md_executions db') (wr_id (ex_workflow_run x)) = Some r"
    by (rule commit_publishes_execution [OF assms(4,3) r(3,2)])
  with execution_record_roundtrip [OF r(1) assms(2)] show ?thesis
    by (simp add: workflow_get_def workflow_get_version_def refresh_view snapshot_reloaded)
qed

definition demo_run_order :: "string \<Rightarrow> commit_order" where
  "demo_run_order i = demo_order\<lparr>co_workflows := [i], co_events := []\<rparr>"

lemma demo_execution_eval:
  "case sample_after [] of
     Inl e \<Rightarrow> False
   | Inr w \<Rightarrow> constructible (w_exec w) \<and>
       (case workflow_save (w_exec w) None (memory_refresh empty_database) of
          (r, u) \<Rightarrow> r = Inr 1 \<and> order_ok (demo_run_order (wr_id (ex_workflow_run (w_exec w)))) u \<and>
            \<not> isl (fst (memory_commit (demo_run_order (wr_id (ex_workflow_run (w_exec w)))) (u, empty_database))))"
  by code_simp

theorem committed_execution_loads_back_witness:
  "\<exists>x i db. sample_start = Inr x \<and> wr_id (ex_workflow_run (w_exec x)) = i \<and>
     workflow_get (memory_refresh db) i = Inr (Some (reloaded (w_exec x))) \<and>
     workflow_get_version (memory_refresh db) i = Some 1"
proof -
  obtain w u c where e: "sample_after [] = Inr w" "constructible (w_exec w)"
    "workflow_save (w_exec w) None (memory_refresh empty_database) = (Inr 1, u)" "order_ok c u"
    "\<not> isl (fst (memory_commit c (u, empty_database)))"
    using demo_execution_eval by (auto split: sum.splits prod.splits)
  from e(5) obtain u' db where "memory_commit c (u, empty_database) = (Inr (), (u', db))"
    by (cases "memory_commit c (u, empty_database)", cases "fst (memory_commit c (u, empty_database))") auto
  from committed_execution_loads_back [OF e(3,2,4) this] e(1) show ?thesis
    by (auto simp: sample_after_def bindR_Inr_iff)
qed

end
