(* ===== verification/Agent_Runtime.thy ===== *)
theory Agent_Runtime
  imports Skill_System Persistence_Streams Engine_Coordination
begin

text \<open>
  The agent runtime, \<^verbatim>\<open>backend/agent_runtime\<close>: it asks the Engine for decisions, applies
  them to the aggregate, runs skills, and commits the aggregate with its checkpoints,
  memory, approvals, artifacts and events at each recovery boundary.

  The state is what the runtime object reaches: the aggregate with the counters of the
  coordinator, its unit of work, the committed database, the persistence versions it
  knows, and the counters of its own clock and identifier factory. \<open>rt_calls\<close> is not part
  of the program: it lists the calls of the skill executor together with the database that
  was committed at that moment. The injected collaborators are the fields of
  \<open>runtime_env\<close>; the executor is indexed by the number of the call, so that an
  implementation may answer differently each time. A skill does not touch the unit of work
  of the runtime.
\<close>

section \<open>State\<close>

record skill_call =
  call_run_id :: string
  call_ready :: step_ready
  call_database :: database

record runtime =
  rt_world :: world
  rt_uow :: memory_uow
  rt_db :: database
  rt_versions :: "(string \<times> int option) list"
  rt_ticks :: nat
  rt_ids :: nat
  rt_calls :: "skill_call list"

record runtime_env =
  re_coord :: coordinator_env
  re_skills :: "nat \<Rightarrow> executor"
  re_clock :: "nat \<Rightarrow> datetime"
  re_id_factory :: "string \<Rightarrow> nat \<Rightarrow> string"
  re_commit_order :: "memory_uow \<Rightarrow> commit_order"
  re_max_decisions :: nat
  re_approval_ttl :: int

abbreviation sha_of :: "runtime_env \<Rightarrow> string \<Rightarrow> string" where
  "sha_of env \<equiv> ce_sha256 (re_coord env)"

abbreviation exec_of :: "runtime \<Rightarrow> ExecutionState" where
  "exec_of s \<equiv> w_exec (rt_world s)"

abbreviation run_of :: "runtime \<Rightarrow> WorkflowRun" where
  "run_of s \<equiv> ex_workflow_run (exec_of s)"

text \<open>\<open>AgentRuntime.__init__\<close> refuses a limit or a lifetime that is not positive.\<close>

definition agent_runtime_init :: "int \<Rightarrow> int \<Rightarrow> unit res" where
  "agent_runtime_init max_decisions approval_ttl =
     bindR (guardR (max_decisions \<le> 0) (ValueErrorMsg ''max_decisions must be positive''))
     (\<lambda>_. guardR (approval_ttl \<le> 0) (ValueErrorMsg ''approval_ttl must be positive''))"

section \<open>Calls on the collaborators\<close>

definition on_world :: "(world, 'a) op \<Rightarrow> (runtime, 'a) op" where
  "on_world m s = (case m (rt_world s) of (r, w) \<Rightarrow> (r, s\<lparr>rt_world := w\<rparr>))"

definition on_uow :: "(memory_uow, 'a) op \<Rightarrow> (runtime, 'a) op" where
  "on_uow m s = (case m (rt_uow s) of (r, u) \<Rightarrow> (r, s\<lparr>rt_uow := u\<rparr>))"

definition on_store :: "(memory_uow \<times> database, 'a) op \<Rightarrow> (runtime, 'a) op" where
  "on_store m s = (case m (rt_uow s, rt_db s) of (r, (u, d)) \<Rightarrow> (r, s\<lparr>rt_uow := u, rt_db := d\<rparr>))"

text \<open>\<open>try: m except E: h\<close>, where \<open>h\<close> decides which exceptions it handles.\<close>

definition tryE :: "('s, 'a) op \<Rightarrow> (py_exc \<Rightarrow> ('s, 'a) op) \<Rightarrow> ('s, 'a) op" where
  "tryE m h s = (case m s of (Inl e, s') \<Rightarrow> h e s' | (Inr a, s') \<Rightarrow> (Inr a, s'))"

definition runtime_clock :: "runtime_env \<Rightarrow> (runtime, datetime) op" where
  "runtime_clock env s = (Inr (re_clock env (rt_ticks s)), s\<lparr>rt_ticks := Suc (rt_ticks s)\<rparr>)"

definition runtime_id :: "runtime_env \<Rightarrow> string \<Rightarrow> (runtime, string) op" where
  "runtime_id env kind s = (Inr (re_id_factory env kind (rt_ids s)), s\<lparr>rt_ids := Suc (rt_ids s)\<rparr>)"

definition run_scope :: "runtime \<Rightarrow> scope" where
  "run_scope s = (wr_project_id (run_of s), wr_id (run_of s))"

definition latest_run_id :: "ExecutionState \<Rightarrow> string \<Rightarrow> string res" where
  "latest_run_id x step_id = bindR (latest_step_run step_id x) (\<lambda>i. Inr (sr_id (ex_step_runs x ! i)))"

section \<open>Timestamps as text\<close>

text \<open>
  \<open>datetime.isoformat()\<close> of a timestamp in UTC: the civil date of a day count (with years
  beginning in March, so that the leap day comes last) and the time of day.
\<close>

definition civil_date :: "int \<Rightarrow> int \<times> int \<times> int" where
  "civil_date days =
     (let z = days + 719468; era = z div 146097; doe = z mod 146097;
          yoe = (doe - doe div 1460 + doe div 36524 - doe div 146096) div 365;
          doy = doe - (365 * yoe + yoe div 4 - yoe div 100);
          mp = (5 * doy + 2) div 153;
          d = doy - (153 * mp + 2) div 5 + 1;
          m = (if mp < 10 then mp + 3 else mp - 9);
          y = yoe + era * 400
      in (if m \<le> 2 then y + 1 else y, m, d))"

definition padded :: "nat \<Rightarrow> int \<Rightarrow> string" where
  "padded n i = (let t = int_str i in replicate (n - length t) (CHR ''0'') @ t)"

definition isoformat_at :: "int \<Rightarrow> string" where
  "isoformat_at i =
     (let days = i div 86400000000; micros = i mod 86400000000; secs = micros div 1000000;
          fraction = micros mod 1000000
      in case civil_date days of (y, m, d) \<Rightarrow>
        padded 4 y @ ''-'' @ padded 2 m @ ''-'' @ padded 2 d @ ''T'' @ padded 2 (secs div 3600) @ '':'' @
        padded 2 (secs div 60 mod 60) @ '':'' @ padded 2 (secs mod 60) @
        (if fraction = 0 then [] else ''.'' @ padded 6 fraction))"

fun isoformat :: "datetime \<Rightarrow> string" where
  "isoformat (Aware i) = isoformat_at i @ ''+00:00''"
| "isoformat (Naive i) = isoformat_at i"

fun dt_plus :: "datetime \<Rightarrow> int \<Rightarrow> datetime" where
  "dt_plus (Aware i) d = Aware (i + d)"
| "dt_plus (Naive i) d = Naive (i + d)"

section \<open>Results and context\<close>

record RuntimeResult =
  rr_workflow_run_id :: string
  rr_agent_session_id :: string
  rr_status :: WorkflowRunStatus
  rr_outputs :: pymap
  rr_wait_reason :: "string option"
  rr_error_code :: "string option"
  rr_completed_steps :: "string list"
  rr_domain_checkpoint_count :: nat
  rr_runtime_checkpoint_count :: nat
  rr_memory_revision :: int

definition runtime_result_post_init :: "RuntimeResult \<Rightarrow> RuntimeResult res" where
  "runtime_result_post_init r =
     bindR (freeze_json_at ''outputs'' (rr_outputs r)) (\<lambda>outs. Inr (r\<lparr>rr_outputs := outs\<rparr>))"

definition runtime_result_is_terminal :: "RuntimeResult \<Rightarrow> bool" where
  "runtime_result_is_terminal r = run_is_terminal (rr_status r)"

definition runtime_result_to_dict :: "RuntimeResult \<Rightarrow> pymap" where
  "runtime_result_to_dict r =
     [(''workflow_run_id'', VStr (rr_workflow_run_id r)), (''agent_session_id'', VStr (rr_agent_session_id r)),
      (''status'', VStr (run_status_value (rr_status r))), (''outputs'', VDict (thaw_map (rr_outputs r))),
      (''wait_reason'', opt_str (rr_wait_reason r)), (''error_code'', opt_str (rr_error_code r)),
      (''completed_steps'', VList (map VStr (rr_completed_steps r))),
      (''domain_checkpoint_count'', VInt (int (rr_domain_checkpoint_count r))),
      (''runtime_checkpoint_count'', VInt (int (rr_runtime_checkpoint_count r))),
      (''memory_revision'', VInt (rr_memory_revision r))]"

definition completed_steps :: "ExecutionState \<Rightarrow> string list res" where
  "completed_steps x =
     bindR (mapR (\<lambda>ws. bindR (latest_step_run (ws_id ws) x)
              (\<lambda>i. Inr (ws_id ws, sr_status (ex_step_runs x ! i)))) (wf_steps (ex_workflow x)))
     (\<lambda>sts. Inr (map fst (filter (\<lambda>(i, st). st \<in> {Step_COMPLETED, Step_SKIPPED}) sts)))"

definition runtime_result :: "(runtime, RuntimeResult) op" where
  "runtime_result =
     readE (\<lambda>s. let x = exec_of s; run = run_of s in
       bindR (completed_steps x)
       (\<lambda>completed. runtime_result_post_init
         \<lparr>rr_workflow_run_id = wr_id run, rr_agent_session_id = as_id (ex_agent_session x),
          rr_status = wr_status run, rr_outputs = wr_outputs run, rr_wait_reason = wr_wait_reason run,
          rr_error_code = wr_error_code run, rr_completed_steps = completed,
          rr_domain_checkpoint_count = length (checkpoint_list (rt_uow s) (wr_id run)),
          rr_runtime_checkpoint_count = length (checkpoint_list_records (rt_uow s) (wr_id run)),
          rr_memory_revision = memory_latest_revision_number (rt_uow s) (run_scope s)\<rparr>))"

record AgentExecutionContext =
  ax_project_id :: string
  ax_workflow_run_id :: string
  ax_agent_session_id :: string
  ax_workflow_id :: string
  ax_workflow_version :: string
  ax_step_id :: string
  ax_step_run_id :: string
  ax_attempt :: int
  ax_workflow_inputs :: pymap
  ax_resolved_inputs :: pymap
  ax_working_memory :: pymap
  ax_memory_revision :: int
  ax_checkpoint_id :: string
  ax_source_references :: "string list"

definition agent_context_post_init :: "AgentExecutionContext \<Rightarrow> AgentExecutionContext res" where
  "agent_context_post_init c =
     bindR (freeze_json_at ''workflow_inputs'' (ax_workflow_inputs c))
     (\<lambda>a. bindR (freeze_json_at ''resolved_inputs'' (ax_resolved_inputs c))
     (\<lambda>b. bindR (freeze_json_at ''working_memory'' (ax_working_memory c))
     (\<lambda>m. Inr (c\<lparr>ax_workflow_inputs := a, ax_resolved_inputs := b, ax_working_memory := m\<rparr>))))"

definition build_context ::
  "(string \<Rightarrow> string) \<Rightarrow> ExecutionState \<Rightarrow> decision_base \<Rightarrow> step_ready \<Rightarrow> memory_uow \<Rightarrow>
   AgentExecutionContext res" where
  "build_context sha x b y u =
     bindR (latest_checkpoint x)
     (\<lambda>p. bindR (verify_integrity sha p)
     (\<lambda>_. bindR (guardR (db_workflow_run_id b \<noteq> wr_id (ex_workflow_run x))
       (ValueErrorMsg ''StepReady belongs to another WorkflowRun''))
     (\<lambda>_. bindR (latest_run_id x (sy_step_id y))
     (\<lambda>current. bindR (guardR (sy_step_run_id y \<noteq> current)
       (ValueErrorMsg ''StepReady belongs to a stale StepRun attempt''))
     (\<lambda>_. let run = ex_workflow_run x; w = ex_workflow x; s = (wr_project_id run, wr_id run) in
       agent_context_post_init
        \<lparr>ax_project_id = wr_project_id run, ax_workflow_run_id = wr_id run,
         ax_agent_session_id = as_id (ex_agent_session x), ax_workflow_id = wf_id w,
         ax_workflow_version = wf_version w, ax_step_id = sy_step_id y, ax_step_run_id = sy_step_run_id y,
         ax_attempt = sy_attempt y, ax_workflow_inputs = wr_inputs run,
         ax_resolved_inputs = sy_resolved_inputs y, ax_working_memory = memory_read_context u s,
         ax_memory_revision = memory_latest_revision_number u s, ax_checkpoint_id = cp_id p,
         ax_source_references = [''workflow:'' @ wf_id w @ ''@'' @ wf_version w,
           ''checkpoint:'' @ cp_id p, ''step_run:'' @ sy_step_run_id y]\<rparr>)))))"

section \<open>Events, checkpoints, commit\<close>

definition emit_event ::
  "runtime_env \<Rightarrow> ExecutionEventType \<Rightarrow> pymap \<Rightarrow> EventSeverity \<Rightarrow> string option \<Rightarrow> (runtime, ExecutionEvent) op" where
  "emit_event env event_type payload severity step_run_id =
     bindE (getsE (\<lambda>s. event_latest_sequence (rt_uow s) (run_scope s)))
     (\<lambda>current. bindE (runtime_id env ''event'')
     (\<lambda>eid. bindE (readE (\<lambda>_. event_payload_post_init payload 1))
     (\<lambda>frozen. bindE (runtime_clock env)
     (\<lambda>now. bindE (readE (\<lambda>s. execution_event_post_init
         \<lparr>ev_id = eid, ev_project_id = wr_project_id (run_of s), ev_workflow_run_id = wr_id (run_of s),
          ev_sequence = current + 1, ev_event_type = event_type, ev_payload = frozen, ev_schema_version = 1,
          ev_request_id = wr_idempotency_key (run_of s), ev_occurred_at = now, ev_severity = severity,
          ev_agent_session_id = Some (as_id (ex_agent_session (exec_of s))), ev_step_run_id = step_run_id,
          ev_correlation_id = Some (wr_id (run_of s)), ev_causation_id = None\<rparr>))
     (\<lambda>e. on_uow (event_append e current))))))"

definition opt_int :: "int option \<Rightarrow> pyval" where
  "opt_int i = (case i of None \<Rightarrow> VNone | Some n \<Rightarrow> VInt n)"

definition record_checkpoint ::
  "runtime_env \<Rightarrow> CheckpointBoundary \<Rightarrow> Checkpoint \<Rightarrow> string option \<Rightarrow> int option \<Rightarrow> bool \<Rightarrow> (runtime, unit) op" where
  "record_checkpoint env boundary p step_id attempt emit =
     bindE (getsE (\<lambda>s. cp_id p \<notin> cp_id ` set (checkpoint_list (rt_uow s) (cp_workflow_run_id p))))
     (\<lambda>is_new. thenE (on_uow (checkpoint_save (sha_of env) p boundary step_id attempt))
     (if is_new \<and> emit then
        bindE (readE (\<lambda>s. case step_id of None \<Rightarrow> Inr None
                | Some i \<Rightarrow> bindR (latest_run_id (exec_of s) i) (\<lambda>r. Inr (Some r))))
        (\<lambda>step_run_id. bindE (getsE (\<lambda>s. run_status_value (wr_status (run_of s))))
        (\<lambda>status. thenE (emit_event env Event_CHECKPOINT_CREATED
            [(''checkpoint_id'', VStr (cp_id p)), (''checkpoint_sequence'', VInt (cp_sequence p)),
             (''boundary'', VStr (boundary_value boundary)), (''step_id'', opt_str step_id),
             (''attempt'', opt_int attempt), (''run_status'', VStr status)] Severity_INFO step_run_id)
          (returnE ())))
      else returnE ()))"

text \<open>The loop of \<open>_sync_domain_checkpoints\<close>; \<open>persisted\<close> is the set of identifiers.\<close>

fun sync_checkpoints :: "runtime_env \<Rightarrow> string set \<Rightarrow> Checkpoint list \<Rightarrow> (runtime, unit) op" where
  "sync_checkpoints env persisted [] = returnE ()"
| "sync_checkpoints env persisted (p # ps) =
     (if cp_id p \<notin> persisted then
        thenE (record_checkpoint env Bound_DOMAIN_TRANSITION p None None True)
          (sync_checkpoints env (insert (cp_id p) persisted) ps)
      else sync_checkpoints env persisted ps)"

definition sync_domain_checkpoints :: "runtime_env \<Rightarrow> (runtime, unit) op" where
  "sync_domain_checkpoints env =
     bindE (getsE (\<lambda>s. cp_id ` set (checkpoint_list (rt_uow s) (wr_id (run_of s)))))
     (\<lambda>persisted. bindE (getsE (\<lambda>s. ex_checkpoints (exec_of s)))
     (\<lambda>ps. sync_checkpoints env persisted ps))"

definition commit_store :: "runtime_env \<Rightarrow> (runtime, unit) op" where
  "commit_store env = bindE (getsE (\<lambda>s. re_commit_order env (rt_uow s))) (\<lambda>c. on_store (memory_commit c))"

definition known_version :: "runtime \<Rightarrow> int option" where
  "known_version s = (case map_of (rt_versions s) (wr_id (run_of s)) of None \<Rightarrow> None | Some v \<Rightarrow> v)"

definition set_version :: "string \<Rightarrow> int option \<Rightarrow> (runtime, unit) op" where
  "set_version run_id v = modifyE (\<lambda>s. s\<lparr>rt_versions := AList.update run_id v (rt_versions s)\<rparr>)"

definition runtime_commit :: "runtime_env \<Rightarrow> (runtime, unit) op" where
  "runtime_commit env =
     bindE (getsE (\<lambda>s. wr_id (run_of s)))
     (\<lambda>run_id. thenE (sync_domain_checkpoints env)
     (bindE (getsE known_version)
     (\<lambda>expected. bindE
       (tryE (bindE (bindE (getsE exec_of) (\<lambda>x. on_uow (workflow_save x expected)))
                (\<lambda>next_version. thenE (commit_store env) (returnE next_version)))
         (\<lambda>e. thenE (on_store memory_rollback) (raiseE e)))
     (\<lambda>next_version. set_version run_id (Some next_version)))))"

definition create_checkpoint_at ::
  "runtime_env \<Rightarrow> CheckpointBoundary \<Rightarrow> string option \<Rightarrow> int option \<Rightarrow> (runtime, Checkpoint) op" where
  "create_checkpoint_at env boundary step_id attempt =
     bindE (on_world (create_checkpoint (re_coord env)))
     (\<lambda>p. thenE (record_checkpoint env boundary p step_id attempt True)
       (thenE (runtime_commit env) (returnE p)))"

text \<open>\<open>self._record(execution, boundary, execution.latest_checkpoint, ...)\<close>\<close>

definition record_latest ::
  "runtime_env \<Rightarrow> CheckpointBoundary \<Rightarrow> string option \<Rightarrow> int option \<Rightarrow> bool \<Rightarrow> (runtime, unit) op" where
  "record_latest env boundary step_id attempt emit =
     bindE (readE (\<lambda>s. latest_checkpoint (exec_of s)))
     (\<lambda>p. record_checkpoint env boundary p step_id attempt emit)"

definition record_baseline :: "runtime_env \<Rightarrow> (runtime, unit) op" where
  "record_baseline env =
     bindE (getsE (\<lambda>s. ex_checkpoints (exec_of s) \<noteq> [] \<and>
              checkpoint_list_records (rt_uow s) (wr_id (run_of s)) = []))
     (\<lambda>b. if b then record_latest env Bound_BASELINE None None False else returnE ())"

section \<open>Memory\<close>

definition initialize_memory :: "(runtime, unit) op" where
  "initialize_memory =
     bindE (getsE (\<lambda>s. (run_scope s, exec_of s)))
     (\<lambda>(sc, x). let w = ex_workflow x in
       thenE (on_uow (memory_initialize_context sc
         [(''workflow_id'', VStr (wf_id w)), (''workflow_version'', VStr (wf_version w)),
          (''workflow_inputs'', VProxy (wr_inputs (ex_workflow_run x))), (''step_outputs'', VDict [])]
         ''agent_runtime.initialize'' [''workflow:'' @ wf_id w @ ''@'' @ wf_version w]))
       (returnE ()))"

text \<open>\<open>dict(current.get("step_outputs", {}))\<close>; only the runtime writes the entry, as a mapping.\<close>

definition step_outputs_of :: "pymap \<Rightarrow> pymap res" where
  "step_outputs_of current =
     (case map_of current ''step_outputs'' of
        None \<Rightarrow> Inr []
      | Some v \<Rightarrow> (case as_mapping v of None \<Rightarrow> Inl PyTypeError | Some m \<Rightarrow> Inr m))"

definition update_memory :: "step_ready \<Rightarrow> pymap \<Rightarrow> (runtime, unit) op" where
  "update_memory y outputs =
     bindE (getsE run_scope)
     (\<lambda>sc. bindE (readE (\<lambda>s. step_outputs_of (thaw_map (memory_read_context (rt_uow s) sc))))
     (\<lambda>old. thenE (on_uow (memory_update_context sc
         [(''step_outputs'', VDict (dict_set (sy_step_id y)
            (VDict [(''attempt'', VInt (sy_attempt y)), (''outputs'', VDict (thaw_map outputs))]) old))]
         (''skill:'' @ sy_skill_ref y) [''step_run:'' @ sy_step_run_id y]))
       (returnE ())))"

section \<open>Approvals\<close>

definition build_resolved_approval_action ::
  "ExecutionState \<Rightarrow> string \<Rightarrow> string \<Rightarrow> int \<Rightarrow> string \<Rightarrow> datetime \<Rightarrow> pymap \<Rightarrow> pymap \<Rightarrow> pymap" where
  "build_resolved_approval_action x step_id step_run_id attempt policy_key expires_at resolved_inputs skill_versions =
     [(''kind'', VStr ''workflow_approval''), (''project_id'', VStr (wr_project_id (ex_workflow_run x))),
      (''workflow_id'', VStr (wf_id (ex_workflow x))), (''workflow_version'', VStr (wf_version (ex_workflow x))),
      (''workflow_run_id'', VStr (wr_id (ex_workflow_run x))), (''approval_step_id'', VStr step_id),
      (''step_run_id'', VStr step_run_id), (''attempt'', VInt attempt), (''policy_key'', VStr policy_key),
      (''approval_role'', VStr policy_key), (''expires_at'', VStr (isoformat expires_at)),
      (''resolved_inputs'', VDict (thaw_map resolved_inputs)),
      (''skill_versions'', VDict (sort_key fst skill_versions))]"

definition approval_action_fingerprint :: "(string \<Rightarrow> string) \<Rightarrow> pymap \<Rightarrow> string res" where
  "approval_action_fingerprint sha action =
     bindR (json_dumps False (VDict (thaw_map action))) (\<lambda>canonical. Inr (''sha256:'' @ sha canonical))"

definition skill_versions_of :: "Workflow \<Rightarrow> pymap" where
  "skill_versions_of w = fold (\<lambda>ws d. case ws_uses ws of None \<Rightarrow> d | Some u \<Rightarrow> dict_set (ws_id ws) (VStr u) d)
     (wf_steps w) []"

definition create_approval_request ::
  "runtime_env \<Rightarrow> string \<Rightarrow> string \<Rightarrow> int \<Rightarrow> string \<Rightarrow> pymap \<Rightarrow> (runtime, ApprovalRequest) op" where
  "create_approval_request env step_id step_run_id attempt policy_key resolved_inputs =
     bindE (runtime_clock env)
     (\<lambda>requested_at. let expires_at = dt_plus requested_at (re_approval_ttl env) in
       bindE (getsE exec_of)
     (\<lambda>x. let action = build_resolved_approval_action x step_id step_run_id attempt policy_key expires_at
                resolved_inputs (skill_versions_of (ex_workflow x)) in
       bindE (readE (\<lambda>_. approval_action_fingerprint (sha_of env) action))
     (\<lambda>fingerprint. bindE (runtime_id env ''approval'')
     (\<lambda>aid. bindE (readE (\<lambda>_. approval_request_post_init
         \<lparr>ar_id = aid, ar_project_id = wr_project_id (ex_workflow_run x),
          ar_workflow_run_id = wr_id (ex_workflow_run x), ar_step_run_id = step_run_id,
          ar_policy_key = policy_key, ar_request_fingerprint = fingerprint,
          ar_prompt = ''Approval required for workflow step '' @ step_id, ar_requested_action = action,
          ar_requested_by = as_id (ex_agent_session x), ar_permitted_approver_role = policy_key,
          ar_requested_at = requested_at, ar_expires_at = Some expires_at, ar_status = Approval_PENDING,
          ar_resolved_by = None, ar_resolved_at = None, ar_decision_reason = None,
          ar_decision_idempotency_key = None, ar_decision_metadata = [], ar_row_version = 0\<rparr>))
     (\<lambda>a. thenE (on_uow (approval_save a None)) (returnE a))))))"

definition approval_payload :: "ApprovalRequest \<Rightarrow> string \<Rightarrow> int \<Rightarrow> string \<Rightarrow> pymap" where
  "approval_payload a step_id attempt policy_key =
     [(''approval_request_id'', VStr (ar_id a)), (''step_id'', VStr step_id), (''attempt'', VInt attempt),
      (''policy_key'', VStr policy_key),
      (''expires_at'', (case ar_expires_at a of None \<Rightarrow> VNone | Some t \<Rightarrow> VStr (isoformat t)))]"

text \<open>\<open>_waiting_step_id\<close>: an empty reason is falsy.\<close>

definition waiting_step_id :: "ExecutionState \<Rightarrow> string option" where
  "waiting_step_id x =
     (case wr_wait_reason (ex_workflow_run x) of
        None \<Rightarrow> None
      | Some reason \<Rightarrow> if reason \<noteq> [] \<and> startswith reason ''approval:'' then Some (removeprefix reason ''approval:'')
                     else None)"

definition request_missing_approval :: "runtime_env \<Rightarrow> string \<Rightarrow> (runtime, unit) op" where
  "request_missing_approval env step_id =
     bindE (readE (\<lambda>s. bindR (latest_step_run step_id (exec_of s)) (\<lambda>i. Inr (ex_step_runs (exec_of s) ! i))))
     (\<lambda>step_run. bindE (readE (\<lambda>s. workflow_get_step (ex_workflow (exec_of s)) step_id))
     (\<lambda>ws. case ws_approval_policy ws of
        None \<Rightarrow> raiseE (AgentRuntimeError (''Approval step '' @ step_id @ '' has no approval policy''))
      | Some policy \<Rightarrow>
          bindE (create_approval_request env step_id (sr_id step_run) (sr_attempt step_run) policy (sr_inputs step_run))
          (\<lambda>a. thenE (emit_event env Event_APPROVAL_REQUESTED
                (approval_payload a step_id (sr_attempt step_run) policy @ [(''recovered'', VBool True)])
                Severity_INFO (Some (sr_id step_run)))
            (thenE (record_latest env Bound_WAITING_APPROVAL (Some step_id) (Some (sr_attempt step_run)) True)
              (runtime_commit env)))))"

definition ensure_pending_approval :: "runtime_env \<Rightarrow> (runtime, unit) op" where
  "ensure_pending_approval env =
     bindE (readE (\<lambda>s. approval_list_pending_for_run (rt_uow s) (run_scope s)))
     (\<lambda>pending. if pending \<noteq> [] then returnE ()
       else bindE (getsE (\<lambda>s. waiting_step_id (exec_of s)))
         (\<lambda>waiting. case waiting of
            None \<Rightarrow> raiseE (AgentRuntimeError ''Waiting WorkflowRun does not identify an approval step'')
          | Some step_id \<Rightarrow> request_missing_approval env step_id))"

section \<open>Loading\<close>

definition load_execution :: "runtime_env \<Rightarrow> string \<Rightarrow> (runtime, unit) op" where
  "load_execution env run_id =
     bindE (readE (\<lambda>s. workflow_get (rt_uow s) run_id))
     (\<lambda>found. case found of
        None \<Rightarrow> raiseE (AgentRuntimeError (''WorkflowRun '' @ run_id @ '' was not found''))
      | Some x \<Rightarrow>
          bindE (getsE (\<lambda>s. checkpoint_list (rt_uow s) run_id))
          (\<lambda>ps. if ps = [] then
              raiseE (AgentRuntimeError (''WorkflowRun '' @ run_id @ '' has no persisted checkpoint''))
            else thenE (readE (\<lambda>_. verify_integrity (sha_of env) (last ps)))
              (bindE (getsE (\<lambda>s. workflow_get_version (rt_uow s) run_id))
              (\<lambda>version. case version of
                 None \<Rightarrow> raiseE (AgentRuntimeError (''WorkflowRun '' @ run_id @ '' has no persistence version''))
               | Some v \<Rightarrow> thenE (set_version run_id (Some v))
                   (modifyE (\<lambda>s. s\<lparr>rt_world := (rt_world s)\<lparr>w_exec := x\<lparr>ex_checkpoints := ps\<rparr>\<rparr>\<rparr>))))))"

text \<open>The result says whether the aggregate is new.\<close>

definition resolve_execution :: "runtime_env \<Rightarrow> ExecutionState + string \<Rightarrow> (runtime, bool) op" where
  "resolve_execution env execution_or_id =
     (case execution_or_id of
        Inr run_id \<Rightarrow> thenE (load_execution env run_id) (returnE False)
      | Inl x \<Rightarrow>
          (let run_id = wr_id (ex_workflow_run x) in
           bindE (getsE (\<lambda>s. workflow_get_version (rt_uow s) run_id))
           (\<lambda>stored. if stored \<noteq> None then thenE (load_execution env run_id) (returnE False)
             else thenE (set_version run_id None)
               (thenE (modifyE (\<lambda>s. s\<lparr>rt_world := (rt_world s)\<lparr>w_exec := x\<rparr>\<rparr>)) (returnE True)))))"

section \<open>Resuming\<close>

definition active_or_ready_step :: "ExecutionState \<Rightarrow> StepRun option res" where
  "active_or_ready_step x =
     bindR (current_step_runs x)
     (\<lambda>cur. Inr (case filter (\<lambda>i. sr_status (ex_step_runs x ! i) \<in> {Step_READY, Step_RUNNING}) cur of
        [i] \<Rightarrow> Some (ex_step_runs x ! i) | _ \<Rightarrow> None))"

definition record_recovered :: "runtime_env \<Rightarrow> (runtime, unit) op" where
  "record_recovered env =
     bindE (readE (\<lambda>s. active_or_ready_step (exec_of s)))
     (\<lambda>step. thenE (record_latest env Bound_RECOVERED (map_option sr_step_id step) (map_option sr_attempt step) True)
       (runtime_commit env))"

definition resume_approval ::
  "runtime_env \<Rightarrow> ApprovalOutcome \<Rightarrow> pymap option \<Rightarrow> (runtime, RuntimeResult option) op" where
  "resume_approval env outcome outputs =
     thenE (if outcome \<noteq> Outcome_APPROVED then
         bindE (on_world (create_checkpoint (re_coord env)))
         (\<lambda>p. bindE (getsE (\<lambda>s. waiting_step_id (exec_of s)))
         (\<lambda>step_id. record_checkpoint env Bound_BEFORE_TERMINAL p step_id None True))
       else returnE ())
     (bindE (readE (\<lambda>s. latest_checkpoint (exec_of s)))
     (\<lambda>p. bindE (on_world (resolve_approval (re_coord env) p outcome outputs))
     (\<lambda>dec. thenE (record_latest env
           (if outcome = Outcome_APPROVED then Bound_APPROVAL_RESOLVED else Bound_TERMINAL)
           (decision_step_id dec) None True)
       (thenE (runtime_commit env)
       (bindE (getsE (\<lambda>s. run_is_terminal (wr_status (run_of s))))
       (\<lambda>final. if final then bindE runtime_result (\<lambda>r. returnE (Some r)) else returnE None))))))"

definition running_steps :: "ExecutionState \<Rightarrow> StepRun list res" where
  "running_steps x =
     bindR (current_step_runs x)
     (\<lambda>cur. Inr (filter (\<lambda>s. sr_status s = Step_RUNNING) (map (\<lambda>i. ex_step_runs x ! i) cur)))"

text \<open>The handler of \<open>ExecutionNotResumableError\<close> for a run that was interrupted.\<close>

definition interrupted_handler ::
  "runtime_env \<Rightarrow> StepRun \<Rightarrow> py_exc \<Rightarrow> (runtime, RuntimeResult option) op" where
  "interrupted_handler env active e =
     bindE (getsE (\<lambda>s. run_is_terminal (wr_status (run_of s))))
     (\<lambda>final. if (case e of ExecutionNotResumableError _ \<Rightarrow> True | _ \<Rightarrow> False) \<and> final then
        thenE (record_latest env Bound_TERMINAL (Some (sr_step_id active)) (Some (sr_attempt active)) True)
        (bindE (getsE run_of)
        (\<lambda>run. thenE (emit_event env Event_WORKFLOW_FAILED
             [(''status'', VStr (run_status_value (wr_status run))), (''error_code'', opt_str (wr_error_code run)),
              (''failed_step_id'', VStr (sr_step_id active))] Severity_ERROR (Some (sr_id active)))
          (thenE (runtime_commit env) (bindE runtime_result (\<lambda>r. returnE (Some r))))))
      else raiseE e)"

definition resume_running :: "runtime_env \<Rightarrow> StepRun \<Rightarrow> (runtime, RuntimeResult option) op" where
  "resume_running env active =
     bindE (readE (\<lambda>s. workflow_get_step (ex_workflow (exec_of s)) (sr_step_id active)))
     (\<lambda>ws. thenE (if sr_attempt active \<ge> ws_max_attempts ws then
           record_latest env Bound_BEFORE_TERMINAL (Some (sr_step_id active)) (Some (sr_attempt active)) True
         else returnE ())
     (bindE (tryE (bindE (readE (\<lambda>s. latest_checkpoint (exec_of s)))
              (\<lambda>p. thenE (on_world (engine_resume_from_checkpoint (re_coord env) p)) (returnE None)))
              (interrupted_handler env active))
     (\<lambda>ended. case ended of Some r \<Rightarrow> returnE (Some r)
        | None \<Rightarrow> thenE (record_recovered env) (returnE None))))"

definition prepare_resume ::
  "runtime_env \<Rightarrow> ApprovalOutcome option \<Rightarrow> pymap option \<Rightarrow> (runtime, RuntimeResult option) op" where
  "prepare_resume env approval_outcome approval_outputs =
     bindE (getsE (\<lambda>s. wr_status (run_of s)))
     (\<lambda>status.
       if status = Run_WAITING_FOR_APPROVAL then
         (case approval_outcome of
            None \<Rightarrow> thenE (ensure_pending_approval env) (bindE runtime_result (\<lambda>r. returnE (Some r)))
          | Some outcome \<Rightarrow> resume_approval env outcome approval_outputs)
       else if status = Run_RETRY_SCHEDULED then
         bindE (readE (\<lambda>s. latest_checkpoint (exec_of s)))
         (\<lambda>p. thenE (on_world (engine_resume_from_checkpoint (re_coord env) p))
           (thenE (record_recovered env) (returnE None)))
       else if status = Run_RUNNING then
         bindE (readE (\<lambda>s. running_steps (exec_of s)))
         (\<lambda>active. case active of [] \<Rightarrow> returnE None | a # _ \<Rightarrow> resume_running env a)
       else if status \<in> {Run_WAITING_FOR_INPUT, Run_INITIALIZING, Run_CANCELLING} then
         bindE runtime_result (\<lambda>r. returnE (Some r))
       else returnE None)"

section \<open>Executing a step\<close>

definition require_checkpoint :: "string \<Rightarrow> Checkpoint option \<Rightarrow> (runtime, Checkpoint) op" where
  "require_checkpoint message p = (case p of None \<Rightarrow> raiseE (AgentRuntimeError message) | Some q \<Rightarrow> returnE q)"

definition save_emitted :: "runtime_env \<Rightarrow> step_ready \<Rightarrow> EmittedArtifactMetadata \<Rightarrow> (runtime, unit) op" where
  "save_emitted env y a =
     bindE (getsE run_of)
     (\<lambda>run. bindE (runtime_clock env)
     (\<lambda>now. bindE (readE (\<lambda>_. artifact_metadata_post_init
        \<lparr>am_id = em_artifact_id a, am_project_id = wr_project_id run,
         am_logical_artifact_id =
           (if em_logical_artifact_id a = [] then em_artifact_id a else em_logical_artifact_id a),
         am_logical_name = em_logical_name a, am_version = em_version a, am_kind = em_kind a,
         am_storage_ref = em_storage_key a, am_checksum = em_checksum a, am_media_type = em_media_type a,
         am_size = em_size a, am_producer_run_id = Some (wr_id run),
         am_producer_step_run_id = Some (sy_step_run_id y), am_metadata = em_metadata a, am_created_at = now\<rparr>))
     (\<lambda>m. on_uow (artifact_save m))))"

definition skill_event_base :: "step_ready \<Rightarrow> pymap" where
  "skill_event_base y = [(''step_id'', VStr (sy_step_id y)), (''attempt'', VInt (sy_attempt y)),
     (''skill_ref'', VStr (sy_skill_ref y))]"

definition sorted_keys :: "pymap \<Rightarrow> pyval" where
  "sorted_keys m = VList (map VStr (sort (map fst m)))"

definition after_success :: "runtime_env \<Rightarrow> step_ready \<Rightarrow> SkillResult \<Rightarrow> (runtime, RuntimeResult option) op" where
  "after_success env y r =
     thenE (forE (kr_emitted_artifacts r) (save_emitted env y))
     (bindE (on_world (update_step_state (re_coord env) (sy_step_id y) Step_COMPLETED
         (Some (kr_output_data r)) None False))
     (\<lambda>made. bindE (require_checkpoint ''Skill completion did not create a checkpoint'' made)
     (\<lambda>p. thenE (emit_event env Event_SKILL_EXECUTED
          (skill_event_base y @ [(''success'', VBool True), (''output_fields'', sorted_keys (kr_output_data r)),
            (''artifact_ids'', VList (map (VStr \<circ> em_artifact_id) (kr_emitted_artifacts r))),
            (''provider_usage_count'', VInt (int (length (kr_provider_usage r))))])
          Severity_INFO (Some (sy_step_run_id y)))
       (thenE (record_checkpoint env Bound_AFTER_SKILL p (Some (sy_step_id y)) (Some (sy_attempt y)) True)
       (thenE (update_memory y (kr_output_data r))
       (thenE (runtime_commit env) (returnE None)))))))"

definition close_failed :: "runtime_env \<Rightarrow> step_ready \<Rightarrow> Checkpoint \<Rightarrow> (runtime, RuntimeResult option) op" where
  "close_failed env y p =
     thenE (record_checkpoint env Bound_TERMINAL p (Some (sy_step_id y)) (Some (sy_attempt y)) True)
     (bindE (getsE run_of)
     (\<lambda>run. thenE (emit_event env Event_WORKFLOW_FAILED
          [(''status'', VStr (run_status_value (wr_status run))), (''error_code'', opt_str (wr_error_code run)),
           (''failed_step_id'', VStr (sy_step_id y))] Severity_ERROR (Some (sy_step_run_id y)))
       (thenE (runtime_commit env) (bindE runtime_result (\<lambda>r. returnE (Some r))))))"

definition close_retry :: "runtime_env \<Rightarrow> step_ready \<Rightarrow> Checkpoint \<Rightarrow> (runtime, RuntimeResult option) op" where
  "close_retry env y p =
     thenE (record_checkpoint env Bound_RETRY_SCHEDULED p (Some (sy_step_id y)) (Some (sy_attempt y)) True)
     (thenE (runtime_commit env) (bindE runtime_result (\<lambda>r. returnE (Some r))))"

fun decision_class :: "decision \<Rightarrow> string" where
  "decision_class (StepReady _ _) = ''StepReady''"
| "decision_class (WorkflowCompleted _ _) = ''WorkflowCompleted''"
| "decision_class (WaitingApproval _ _) = ''WaitingApproval''"
| "decision_class (RetryScheduled _ _) = ''RetryScheduled''"
| "decision_class (WorkflowFailed _ _) = ''WorkflowFailed''"
| "decision_class (ApprovalCompleted _ _) = ''ApprovalCompleted''"
| "decision_class (WorkflowCancelled _ _) = ''WorkflowCancelled''"
| "decision_class (NoAction _) = ''NoAction''"

definition after_failure :: "runtime_env \<Rightarrow> step_ready \<Rightarrow> SkillError \<Rightarrow> (runtime, RuntimeResult option) op" where
  "after_failure env y err =
     bindE (readE (\<lambda>s. coordinator_evaluate_failure (exec_of s) (sy_step_id y) (ke_retryable err)
         (ke_code err) (ke_message err)))
     (\<lambda>dec. thenE (case dec of
         WorkflowFailed _ _ \<Rightarrow>
           thenE (create_checkpoint_at env Bound_BEFORE_TERMINAL (Some (sy_step_id y)) (Some (sy_attempt y)))
             (returnE ())
       | _ \<Rightarrow> returnE ())
     (bindE (on_world (apply_decision (re_coord env) dec))
     (\<lambda>made. bindE (require_checkpoint ''Skill failure did not create a checkpoint'' made)
     (\<lambda>p. thenE (emit_event env Event_SKILL_EXECUTED
          (skill_event_base y @ [(''success'', VBool False), (''error_code'', VStr (ke_code err)),
            (''retryable'', VBool (ke_retryable err)), (''error_details'', VProxy (ke_details err))])
          (if ke_retryable err then Severity_WARNING else Severity_ERROR) (Some (sy_step_run_id y)))
       (thenE (record_checkpoint env Bound_AFTER_SKILL p (Some (sy_step_id y)) (Some (sy_attempt y)) True)
       (case dec of
          RetryScheduled _ _ \<Rightarrow> close_retry env y p
        | WorkflowFailed _ _ \<Rightarrow> close_failed env y p
        | _ \<Rightarrow> raiseE (AgentRuntimeError (''Unsupported failure decision '' @ decision_class dec))))))))"

text \<open>The call of the executor, the moment a skill may act on the outside world.\<close>

definition call_skill :: "runtime_env \<Rightarrow> decision_base \<Rightarrow> step_ready \<Rightarrow> pymap \<Rightarrow> (runtime, SkillResult) op" where
  "call_skill env b y inputs =
     bindE (readE (\<lambda>_. skill_reference_parse (sy_skill_ref y)))
     (\<lambda>ref. bindE (getsE (\<lambda>s. (length (rt_calls s), wr_project_id (run_of s))))
     (\<lambda>(n, project_id). thenE
       (modifyE (\<lambda>s. s\<lparr>rt_calls := rt_calls s @
          [\<lparr>call_run_id = wr_id (run_of s), call_ready = y, call_database = rt_db s\<rparr>]\<rparr>))
       (readE (\<lambda>_. execute_skill (re_skills env n) b y ref inputs project_id))))"

definition start_step :: "runtime_env \<Rightarrow> decision_base \<Rightarrow> step_ready \<Rightarrow> (runtime, unit) op" where
  "start_step env b y =
     bindE (on_world (apply_decision (re_coord env) (StepReady b y)))
     (\<lambda>made. thenE (case made of
         None \<Rightarrow> returnE ()
       | Some p \<Rightarrow> thenE (record_checkpoint env Bound_STEP_READY p (Some (sy_step_id y)) (Some (sy_attempt y)) True)
           (runtime_commit env))
     (bindE (readE (\<lambda>s. latest_step_run (sy_step_id y) (exec_of s)))
     (\<lambda>i. thenE (guardE (\<lambda>s. sr_status (ex_step_runs (exec_of s) ! i) \<noteq> Step_READY)
         (\<lambda>_. AgentRuntimeError (''Step '' @ sy_step_id y @ '' must be READY before skill execution'')))
     (thenE (on_world (update_step_state (re_coord env) (sy_step_id y) Step_RUNNING None None False))
     (thenE (emit_event env Event_STEP_STARTED (skill_event_base y) Severity_INFO (Some (sy_step_run_id y)))
     (thenE (create_checkpoint_at env Bound_BEFORE_SKILL (Some (sy_step_id y)) (Some (sy_attempt y)))
       (returnE ())))))))"

text \<open>Everything up to the result of the skill.\<close>

definition invoke_skill :: "runtime_env \<Rightarrow> decision_base \<Rightarrow> step_ready \<Rightarrow> (runtime, SkillResult) op" where
  "invoke_skill env b y =
     thenE (start_step env b y)
     (bindE (readE (\<lambda>s. build_context (sha_of env) (exec_of s) b y (rt_uow s)))
     (\<lambda>context. call_skill env b y (ax_resolved_inputs context)))"

definition execute_step :: "runtime_env \<Rightarrow> decision_base \<Rightarrow> step_ready \<Rightarrow> (runtime, RuntimeResult option) op" where
  "execute_step env b y =
     bindE (invoke_skill env b y)
     (\<lambda>r. if kr_success r then after_success env y r
       else case kr_error r of
         None \<Rightarrow> raiseE (AgentRuntimeError ''Failed SkillResult has no typed error'')
       | Some err \<Rightarrow> after_failure env y err)"

section \<open>The run loop\<close>

text \<open>\<open>getattr(decision, "failed_step_id", None) or getattr(decision, "step_id", None)\<close>\<close>

fun terminal_step_id :: "decision \<Rightarrow> string option" where
  "terminal_step_id (WorkflowFailed _ y) = (if wx_failed_step_id y = Some [] then None else wx_failed_step_id y)"
| "terminal_step_id dec = decision_step_id dec"

definition terminal_event :: "runtime_env \<Rightarrow> decision \<Rightarrow> (runtime, unit) op" where
  "terminal_event env dec =
     (case dec of
        WorkflowCompleted _ _ \<Rightarrow>
          bindE (getsE run_of)
          (\<lambda>run. thenE (emit_event env Event_WORKFLOW_COMPLETED
             [(''status'', VStr (run_status_value (wr_status run))), (''output_fields'', sorted_keys (wr_outputs run))]
             Severity_INFO None) (returnE ()))
      | WorkflowFailed _ y \<Rightarrow>
          bindE (readE (\<lambda>s. case wx_failed_step_id y of None \<Rightarrow> Inr None
             | Some i \<Rightarrow> bindR (latest_run_id (exec_of s) i) (\<lambda>r. Inr (Some r))))
          (\<lambda>step_run_id. bindE (getsE run_of)
          (\<lambda>run. thenE (emit_event env Event_WORKFLOW_FAILED
             [(''status'', VStr (run_status_value (wr_status run))), (''error_code'', VStr (wx_error_code y)),
              (''failed_step_id'', opt_str (wx_failed_step_id y)),
              (''retry_exhausted'', VBool (wx_retry_exhausted y))]
             Severity_ERROR step_run_id) (returnE ())))
      | _ \<Rightarrow> returnE ())"

definition apply_terminal_decision :: "runtime_env \<Rightarrow> decision \<Rightarrow> (runtime, RuntimeResult) op" where
  "apply_terminal_decision env dec =
     thenE (create_checkpoint_at env Bound_BEFORE_TERMINAL (terminal_step_id dec) None)
     (bindE (on_world (apply_decision (re_coord env) dec))
     (\<lambda>made. bindE (require_checkpoint ''Terminal decision did not create a checkpoint'' made)
     (\<lambda>p. thenE (record_checkpoint env Bound_TERMINAL p (terminal_step_id dec) None True)
       (thenE (terminal_event env dec)
       (thenE (runtime_commit env) runtime_result)))))"

definition await_approval :: "runtime_env \<Rightarrow> decision_base \<Rightarrow> waiting_approval \<Rightarrow> (runtime, RuntimeResult) op" where
  "await_approval env b y =
     bindE (on_world (apply_decision (re_coord env) (WaitingApproval b y)))
     (\<lambda>made. bindE (require_checkpoint ''WaitingApproval did not create a checkpoint'' made)
     (\<lambda>p. bindE (create_approval_request env (wa_step_id y) (wa_step_run_id y) (wa_attempt y)
            (wa_approval_policy y) (wa_resolved_inputs y))
     (\<lambda>a. thenE (emit_event env Event_APPROVAL_REQUESTED
            (approval_payload a (wa_step_id y) (wa_attempt y) (wa_approval_policy y))
            Severity_INFO (Some (wa_step_run_id y)))
       (thenE (record_checkpoint env Bound_WAITING_APPROVAL p (Some (wa_step_id y)) (Some (wa_attempt y)) True)
       (thenE (runtime_commit env) runtime_result)))))"

definition schedule_retry :: "runtime_env \<Rightarrow> decision_base \<Rightarrow> retry_scheduled \<Rightarrow> (runtime, RuntimeResult) op" where
  "schedule_retry env b y =
     bindE (on_world (apply_decision (re_coord env) (RetryScheduled b y)))
     (\<lambda>made. bindE (require_checkpoint ''RetryScheduled did not create a checkpoint'' made)
     (\<lambda>p. thenE (record_checkpoint env Bound_RETRY_SCHEDULED p (Some (rs_step_id y)) (Some (rs_current_attempt y)) True)
       (thenE (runtime_commit env) runtime_result)))"

definition settle_approval :: "runtime_env \<Rightarrow> decision_base \<Rightarrow> approval_completed \<Rightarrow> (runtime, unit) op" where
  "settle_approval env b y =
     bindE (on_world (apply_decision (re_coord env) (ApprovalCompleted b y)))
     (\<lambda>made. case made of
        None \<Rightarrow> returnE ()
      | Some p \<Rightarrow> thenE (record_checkpoint env Bound_APPROVAL_RESOLVED p (Some (ac_step_id y)) None True)
          (runtime_commit env))"

fun decision_loop :: "runtime_env \<Rightarrow> nat \<Rightarrow> (runtime, RuntimeResult) op" where
  "decision_loop env 0 = raiseE (AgentRuntimeError
     (''Execution exceeded deterministic limit of '' @ nat_str (re_max_decisions env) @ '' decisions''))"
| "decision_loop env (Suc n) =
     bindE (readE (\<lambda>s. decide (exec_of s)))
     (\<lambda>dec. case dec of
        StepReady b y \<Rightarrow>
          bindE (execute_step env b y)
          (\<lambda>yielded. case yielded of Some r \<Rightarrow> returnE r | None \<Rightarrow> decision_loop env n)
      | WaitingApproval b y \<Rightarrow> await_approval env b y
      | RetryScheduled b y \<Rightarrow> schedule_retry env b y
      | WorkflowCompleted _ _ \<Rightarrow> apply_terminal_decision env dec
      | WorkflowFailed _ _ \<Rightarrow> apply_terminal_decision env dec
      | WorkflowCancelled _ _ \<Rightarrow> apply_terminal_decision env dec
      | ApprovalCompleted b y \<Rightarrow> thenE (settle_approval env b y) (decision_loop env n)
      | NoAction _ \<Rightarrow> runtime_result)"

definition start_workflow :: "runtime_env \<Rightarrow> (runtime, unit) op" where
  "start_workflow env =
     bindE (on_world (start_execution (re_coord env)))
     (\<lambda>p. bindE (getsE exec_of)
     (\<lambda>x. thenE (emit_event env Event_WORKFLOW_STARTED
          [(''status'', VStr (run_status_value (wr_status (ex_workflow_run x)))),
           (''workflow_id'', VStr (wf_id (ex_workflow x))), (''workflow_version'', VStr (wf_version (ex_workflow x)))]
          Severity_INFO None)
       (thenE (record_checkpoint env Bound_INITIALIZED p None None True) (runtime_commit env))))"

definition run_body ::
  "runtime_env \<Rightarrow> ApprovalOutcome option \<Rightarrow> pymap option \<Rightarrow> (runtime, RuntimeResult) op" where
  "run_body env approval_outcome approval_outputs =
     bindE (getsE (\<lambda>s. wr_status (run_of s)))
     (\<lambda>status. if run_is_terminal status then runtime_result
       else thenE (if status = Run_CREATED then start_workflow env else returnE ())
         (bindE (prepare_resume env approval_outcome approval_outputs)
         (\<lambda>prepared. case prepared of
            Some r \<Rightarrow> returnE r
          | None \<Rightarrow> decision_loop env (re_max_decisions env))))"

definition run_resolved ::
  "runtime_env \<Rightarrow> bool \<Rightarrow> ApprovalOutcome option \<Rightarrow> pymap option \<Rightarrow> (runtime, RuntimeResult) op" where
  "run_resolved env is_new approval_outcome approval_outputs =
     bindE (getsE (\<lambda>s. memory_latest_revision_number (rt_uow s) (run_scope s) = 0))
     (\<lambda>memory_was_empty. bindE (getsE (\<lambda>s. checkpoint_list_records (rt_uow s) (wr_id (run_of s)) = []))
     (\<lambda>checkpoints_were_empty. thenE initialize_memory
       (thenE (record_baseline env)
       (thenE (if is_new \<or> memory_was_empty \<or> checkpoints_were_empty then runtime_commit env else returnE ())
         (run_body env approval_outcome approval_outputs)))))"

definition agent_run ::
  "runtime_env \<Rightarrow> ExecutionState + string \<Rightarrow> ApprovalOutcome option \<Rightarrow> pymap option \<Rightarrow>
   (runtime, RuntimeResult) op" where
  "agent_run env execution_or_id approval_outcome approval_outputs =
     bindE (resolve_execution env execution_or_id)
     (\<lambda>is_new. run_resolved env is_new approval_outcome approval_outputs)"

end
