(* ===== verification/Runtime_Claims.thy ===== *)
theory Runtime_Claims
  imports Agent_Runtime Skill_Claims Persistence_Claims
begin

text \<open>
  Properties of the agent runtime. An invariant of the runtime is a locale: it is enough that
  the calls on the collaborators keep it, and the whole run does. Two interpretations follow:
  the aggregate stays within what the coordinator's commands reach, and a skill is called only
  when the step is committed as running behind its checkpoint.
\<close>

section \<open>Rules\<close>

lemma maintains_gets: "maintains I (getsE f)"
  by (intro hoare_intros)

lemma maintains_raise: "maintains I (raiseE e)"
  by (intro hoare_intros)

lemma maintains_option:
  "maintains I n \<Longrightarrow> (\<And>a. maintains I (f a)) \<Longrightarrow> maintains I (case x of None \<Rightarrow> n | Some a \<Rightarrow> f a)"
  by (cases x) auto

lemma maintains_list:
  "maintains I n \<Longrightarrow> (\<And>a l. maintains I (f a l)) \<Longrightarrow> maintains I (case x of [] \<Rightarrow> n | a # l \<Rightarrow> f a l)"
  by (cases x) auto

lemma maintains_prod: "(\<And>a b. maintains I (f a b)) \<Longrightarrow> maintains I (case p of (a, b) \<Rightarrow> f a b)"
  by (cases p) auto

lemma maintains_try:
  assumes "maintains I m" and "\<And>e. maintains I (h e)"
  shows "maintains I (tryE m h)"
  unfolding hoareE_def
proof (intro allI impI)
  fix s assume "I s"
  obtain r t where t: "m s = (r, t)" by (cases "m s")
  with maintains_snd [OF assms(1) \<open>I s\<close>] have "I t" by simp
  then show "case tryE m h s of (Inr a, s') \<Rightarrow> I s' | (Inl e, s') \<Rightarrow> I s'"
    using assms(2) t by (cases r) (simp_all add: tryE_def hoareE_def)
qed

lemma maintains_for: "(\<And>x. maintains I (f x)) \<Longrightarrow> maintains I (forE xs f)"
  by (rule hoareE_for)

lemmas flow_rules = maintains_then maintains_bind maintains_pure maintains_gets maintains_raise hoareE_if
  maintains_option maintains_list maintains_prod maintains_try maintains_for

section \<open>Invariants of a run\<close>

text \<open>Calls on the unit of work and on the runtime's own clock and factory.\<close>

locale unit_calls =
  fixes env :: runtime_env and I :: "runtime \<Rightarrow> bool"
  assumes staged:
      "maintains I (on_uow (event_append e n))"
      "maintains I (on_uow (checkpoint_save sha p boundary sid att))"
    and own_calls: "maintains I (runtime_clock env)" "maintains I (runtime_id env kind)" "maintains I (set_version i v)"
begin

lemma emit_event_keeps: "maintains I (emit_event env t payload sev i)"
  unfolding emit_event_def by (intro staged own_calls flow_rules)

lemma record_keeps: "maintains I (record_checkpoint env boundary p sid att emit)"
  unfolding record_checkpoint_def by (intro staged own_calls flow_rules emit_event_keeps)

lemma sync_keeps: "maintains I (sync_domain_checkpoints env)"
proof -
  have "maintains I (sync_checkpoints env ids ps)" for ids ps
    by (induction ps arbitrary: ids) (simp_all add: flow_rules record_keeps)
  then show ?thesis unfolding sync_domain_checkpoints_def by (intro flow_rules)
qed

end

text \<open>All calls but that of a skill.\<close>

locale runtime_calls = unit_calls +
  assumes world_calls:
      "maintains I (on_world (create_checkpoint (re_coord env)))"
      "maintains I (on_world (start_execution (re_coord env)))"
      "maintains I (on_world (update_step_state (re_coord env) step_id target outs code retryable))"
      "maintains I (on_world (apply_decision (re_coord env) dec))"
      "maintains I (on_world (resolve_approval (re_coord env) p outcome outputs))"
      "maintains I (on_world (engine_resume_from_checkpoint (re_coord env) p))"
    and saved:
      "maintains I (on_uow (approval_save a None))"
      "maintains I (on_uow (artifact_save am))"
      "maintains I (on_uow (memory_initialize_context sc m producer refs))"
      "maintains I (on_uow (memory_update_context sc m producer refs))"
      "maintains I (on_uow (workflow_save x expected))"
    and store_calls: "maintains I (commit_store env)" "maintains I (on_store memory_rollback)"
begin

lemmas calls = world_calls saved store_calls own_calls flow_rules

lemma commit_keeps: "maintains I (runtime_commit env)"
  unfolding runtime_commit_def by (intro calls sync_keeps)

lemma result_keeps: "maintains I runtime_result"
  unfolding runtime_result_def by (intro calls)

lemma checkpoint_at_keeps: "maintains I (create_checkpoint_at env boundary sid att)"
  unfolding create_checkpoint_at_def by (intro calls record_keeps commit_keeps)

lemma record_latest_keeps: "maintains I (record_latest env boundary sid att emit)"
  unfolding record_latest_def by (intro calls record_keeps)

lemma require_checkpoint_keeps: "maintains I (require_checkpoint m p)"
  unfolding require_checkpoint_def by (intro calls)

lemmas steps = emit_event_keeps record_keeps commit_keeps result_keeps checkpoint_at_keeps record_latest_keeps
  require_checkpoint_keeps

lemma start_keeps: "maintains I (start_step env b y)"
  unfolding start_step_def by (intro calls steps)

end

locale runtime_invariant = runtime_calls +
  assumes skill_calls: "maintains I (invoke_skill env b y)"
begin

lemma approval_request_keeps: "maintains I (create_approval_request env sid srid att policy inputs)"
  unfolding create_approval_request_def Let_def by (intro calls)

lemma ensure_pending_keeps: "maintains I (ensure_pending_approval env)"
  unfolding ensure_pending_approval_def request_missing_approval_def
  by (intro calls steps approval_request_keeps)

lemma prepare_keeps: "maintains I (prepare_resume env outcome outputs)"
  unfolding prepare_resume_def resume_approval_def resume_running_def interrupted_handler_def record_recovered_def
  by (intro calls steps ensure_pending_keeps)

lemma after_success_keeps: "maintains I (after_success env y r)"
  unfolding after_success_def save_emitted_def update_memory_def by (intro calls steps)

lemma after_failure_keeps: "maintains I (after_failure env y err)"
proof -
  have close: "maintains I (case dec of RetryScheduled _ _ \<Rightarrow> close_retry env y p
      | WorkflowFailed _ _ \<Rightarrow> close_failed env y p | _ \<Rightarrow> raiseE (e dec))" for dec p e
    by (cases dec) (simp_all add: close_retry_def close_failed_def calls steps)
  have before: "maintains I (case dec of WorkflowFailed _ _ \<Rightarrow>
      thenE (create_checkpoint_at env Bound_BEFORE_TERMINAL sid att) (returnE ()) | _ \<Rightarrow> returnE ())" for dec sid att
    by (cases dec) (simp_all add: calls steps)
  show ?thesis unfolding after_failure_def by (intro calls steps before close)
qed

lemma execute_step_keeps: "maintains I (execute_step env b y)"
  unfolding execute_step_def by (intro calls skill_calls after_success_keeps after_failure_keeps)

lemma terminal_keeps: "maintains I (apply_terminal_decision env dec)"
proof -
  have "maintains I (terminal_event env dec)"
    by (cases dec) (simp_all add: terminal_event_def calls steps)
  then show ?thesis unfolding apply_terminal_decision_def by (intro calls steps)
qed

lemma loop_keeps: "maintains I (decision_loop env n)"
proof (induction n)
  case (Suc n)
  have "maintains I (case dec of
        StepReady b y \<Rightarrow> bindE (execute_step env b y)
          (\<lambda>yielded. case yielded of Some r \<Rightarrow> returnE r | None \<Rightarrow> decision_loop env n)
      | WaitingApproval b y \<Rightarrow> await_approval env b y
      | RetryScheduled b y \<Rightarrow> schedule_retry env b y
      | WorkflowCompleted _ _ \<Rightarrow> apply_terminal_decision env dec
      | WorkflowFailed _ _ \<Rightarrow> apply_terminal_decision env dec
      | WorkflowCancelled _ _ \<Rightarrow> apply_terminal_decision env dec
      | ApprovalCompleted b y \<Rightarrow> thenE (settle_approval env b y) (decision_loop env n)
      | NoAction _ \<Rightarrow> runtime_result)" for dec
    by (cases dec)
      (simp_all add: await_approval_def schedule_retry_def settle_approval_def calls steps Suc execute_step_keeps
        terminal_keeps approval_request_keeps)
  then show ?case by (simp add: calls)
qed (simp add: calls)

lemma run_keeps: "maintains I (run_resolved env is_new outcome outputs)"
  unfolding run_resolved_def run_body_def initialize_memory_def record_baseline_def start_workflow_def Let_def
  by (intro calls steps prepare_keeps loop_keeps)

end

section \<open>The aggregate\<close>

lemma on_world_maintains: "maintains J m \<Longrightarrow> maintains (\<lambda>s. J (rt_world s)) (on_world m)"
  unfolding hoareE_def on_world_def by (auto split: prod.splits sum.splits)

lemma world_untouched:
  "maintains (\<lambda>s. J (rt_world s)) (on_uow f)" "maintains (\<lambda>s. J (rt_world s)) (on_store g)"
  "maintains (\<lambda>s. J (rt_world s)) (runtime_clock env)" "maintains (\<lambda>s. J (rt_world s)) (runtime_id env kind)"
  "maintains (\<lambda>s. J (rt_world s)) (set_version i v)"
  by (auto simp: hoareE_def on_uow_def on_store_def runtime_clock_def runtime_id_def set_version_def op_simps
      split: prod.splits sum.splits)

lemmas world_reaching = commands_reaching command_reaching [OF coord_do.simps(1)] command_reaching [OF coord_do.simps(7)]
  apply_decision_reaching resolve_approval_reaching engine_resume_reaching

interpretation reach_calls: runtime_calls env "\<lambda>s. coord_reach (re_coord env) (rt_world s)" for env
proof unfold_locales
  show "maintains (\<lambda>s. coord_reach (re_coord env) (rt_world s)) (commit_store env)"
    unfolding commit_store_def by (intro flow_rules world_untouched)
qed (intro world_untouched on_world_maintains [where J = "coord_reach (re_coord env)"] world_reaching)+

text \<open>Calling a skill does not touch the aggregate.\<close>

lemma invoke_skill_reaching: "maintains (\<lambda>s. coord_reach (re_coord env) (rt_world s)) (invoke_skill env b y)"
proof -
  have "maintains (\<lambda>s. coord_reach (re_coord env) (rt_world s)) (modifyE (\<lambda>s. s\<lparr>rt_calls := f s\<rparr>))" for f
    by (intro hoare_intros) simp
  then show ?thesis unfolding invoke_skill_def call_skill_def by (intro flow_rules reach_calls.start_keeps)
qed

interpretation reach: runtime_invariant env "\<lambda>s. coord_reach (re_coord env) (rt_world s)" for env
  by unfold_locales (rule invoke_skill_reaching)

section \<open>Checkpoints in front of a skill\<close>

definition attached :: "memory_uow \<Rightarrow> database \<Rightarrow> bool" where
  "attached u db \<longleftrightarrow> (\<forall>k \<in> mu_dirty_checkpoints u. map_of (md_checkpoints (mu_view u)) k \<noteq> None) \<and>
     (\<forall>k. k \<notin> mu_dirty_checkpoints u \<longrightarrow>
        stream_of (md_checkpoints (mu_view u)) k = stream_of (md_checkpoints db) k)"

text \<open>What is committed when a skill is called.\<close>

definition write_ahead :: "skill_call \<Rightarrow> bool" where
  "write_ahead c \<longleftrightarrow> (\<exists>r s k. map_of (md_executions (call_database c)) (call_run_id c) = Some r \<and>
     s \<in> set (xr_steps r) \<and> sr_id s = sy_step_run_id (call_ready c) \<and> sr_step_id s = sy_step_id (call_ready c) \<and>
     sr_status s = Step_RUNNING \<and>
     k \<in> set (stream_of (md_checkpoints (call_database c)) (call_run_id c)) \<and> ck_boundary k = Bound_BEFORE_SKILL \<and>
     ck_step_id k = Some (sy_step_id (call_ready c)) \<and> ck_attempt k = Some (sy_attempt (call_ready c)))"

definition finite_dirty :: "memory_uow \<Rightarrow> bool" where
  "finite_dirty u \<longleftrightarrow> finite (mu_dirty_workflows u) \<and> finite (mu_dirty_checkpoints u) \<and> finite (mu_dirty_memory u) \<and>
     finite (mu_dirty_artifacts u) \<and> finite (mu_dirty_approvals u) \<and> finite (mu_dirty_events u) \<and>
     finite (mu_dirty_operations u)"

definition tidy :: "memory_uow \<Rightarrow> database \<Rightarrow> bool" where
  "tidy u db \<longleftrightarrow> attached u db \<and> finite_dirty u"

text \<open>The invariant, for an order of commit that lists what is dirty.\<close>

definition orders_dirty :: "runtime_env \<Rightarrow> bool" where
  "orders_dirty env \<longleftrightarrow> (\<forall>u. finite_dirty u \<longrightarrow> order_ok (re_commit_order env u) u)"

definition calls_ahead :: "runtime_env \<Rightarrow> runtime \<Rightarrow> bool" where
  "calls_ahead env s \<longleftrightarrow> (orders_dirty env \<longrightarrow>
     tidy (rt_uow s) (rt_db s) \<and> (\<forall>c \<in> set (rt_calls s). write_ahead c))"

lemma attached_same: "checkpoint_part u' = checkpoint_part u \<Longrightarrow> attached u db \<Longrightarrow> attached u' db"
  by (simp add: attached_def checkpoint_part_def)

lemma tidy_refresh: "tidy (memory_refresh db) db"
  by (simp add: tidy_def attached_def finite_dirty_def memory_refresh_def)

lemma attached_save:
  assumes "attached u db"
  shows "attached (snd (checkpoint_save sha p boundary sid att u)) db"
  using checkpoint_save_effect [of sha p boundary sid att u]
proof
  assume "checkpoint_part (snd (checkpoint_save sha p boundary sid att u)) = checkpoint_part u"
  then show ?thesis using assms by (rule attached_same)
next
  let ?u = "snd (checkpoint_save sha p boundary sid att u)"
  assume "\<exists>r. checkpoint_part ?u =
      (AList.update (cp_workflow_run_id p) (stream_of (md_checkpoints (mu_view u)) (cp_workflow_run_id p) @ [r])
         (md_checkpoints (mu_view u)), mu_base_checkpoints u, insert (cp_workflow_run_id p) (mu_dirty_checkpoints u)) \<and>
      ck_sequence r = int (length (stream_of (md_checkpoints (mu_view u)) (cp_workflow_run_id p))) + 1"
  then obtain r where "md_checkpoints (mu_view ?u) =
      AList.update (cp_workflow_run_id p) (stream_of (md_checkpoints (mu_view u)) (cp_workflow_run_id p) @ [r])
        (md_checkpoints (mu_view u))"
    and "mu_dirty_checkpoints ?u = insert (cp_workflow_run_id p) (mu_dirty_checkpoints u)"
    by (auto simp: checkpoint_part_def)
  with assms show ?thesis by (simp add: attached_def update_conv')
qed

lemma attached_written:
  assumes "attached u db" and "order_ok c u"
  shows "stream_of (md_checkpoints (write_back c u db)) k = stream_of (md_checkpoints (mu_view u)) k"
proof -
  have "md_checkpoints (write_back c u db) = write_table (md_checkpoints (mu_view u)) (co_checkpoints c) (md_checkpoints db)"
    "set (co_checkpoints c) = mu_dirty_checkpoints u"
    using assms(2) by (simp_all add: write_back_def Let_def order_ok_def)
  with assms(1) show ?thesis
    by (cases "k \<in> mu_dirty_checkpoints u") (simp_all add: attached_def stream_of_def map_of_write_table)
qed

lemma memory_commit_cases:
  assumes "memory_commit c (u, db) = (r, (u', db'))"
  obtains (stored) "r = Inr ()" "db' = write_back c u db" "u' = memory_refresh db'"
    | (refused) e where "r = Inl e" "db' = db" "u' = u"
proof (cases "validate_concurrency c u db")
  case (Inl e)
  with assms have "r = Inl e" "db' = db" "u' = u" by (simp_all add: memory_commit_def)
  then show thesis by (rule refused)
next
  case (Inr v)
  with assms have "r = Inr ()" "db' = write_back c u db" "u' = memory_refresh db'"
    by (auto simp: memory_commit_def Let_def)
  then show thesis by (rule stored)
qed

section \<open>The calls keep the invariant\<close>

lemma finite_dirty_calls:
  assumes "finite_dirty u"
  shows "finite_dirty (snd (event_append e n u))" "finite_dirty (snd (checkpoint_save sha p boundary sid att u))"
    "finite_dirty (snd (approval_save a expected u))" "finite_dirty (snd (artifact_save am u))"
    "finite_dirty (snd (memory_update_context sc m producer refs u))" "finite_dirty (snd (workflow_save x expected u))"
  using assms
  by (simp_all add: finite_dirty_def event_append_def checkpoint_save_def approval_save_def artifact_save_def
      memory_update_context_def workflow_save_def Let_def op_simps update_view_def split: option.splits sum.splits)

lemma finite_dirty_initialize:
  "finite_dirty u \<Longrightarrow> finite_dirty (snd (memory_initialize_context sc m producer refs u))"
  using finite_dirty_calls(5) [of u sc m producer refs] by (auto simp: memory_initialize_context_def op_simps)

lemma on_uow_ahead:
  assumes "\<And>u db. tidy u db \<Longrightarrow> tidy (snd (f u)) db"
  shows "maintains (calls_ahead env) (on_uow f)"
proof -
  have "calls_ahead env (snd (on_uow f s))" if "calls_ahead env s" for s
    using that assms [of "rt_uow s" "rt_db s"] by (cases "f (rt_uow s)") (auto simp: calls_ahead_def on_uow_def)
  then show ?thesis by (intro hoareE_I) (metis snd_conv)+
qed

lemma commit_store_ahead: "maintains (calls_ahead env) (commit_store env)"
proof -
  have "calls_ahead env (snd (commit_store env s))" if ok: "calls_ahead env s" for s
  proof -
    obtain r u' db' where m: "memory_commit (re_commit_order env (rt_uow s)) (rt_uow s, rt_db s) = (r, (u', db'))"
      by (cases "memory_commit (re_commit_order env (rt_uow s)) (rt_uow s, rt_db s)") auto
    have "tidy u' db'" if "tidy (rt_uow s) (rt_db s)"
      using m that by (cases rule: memory_commit_cases) (simp_all add: tidy_refresh)
    with ok m show ?thesis by (simp add: calls_ahead_def commit_store_def op_simps on_store_def)
  qed
  then show ?thesis by (intro hoareE_I) (metis snd_conv)+
qed

lemma untouched_ahead:
  "maintains (calls_ahead env) (on_world m)" "maintains (calls_ahead env) (runtime_clock env')"
  "maintains (calls_ahead env) (runtime_id env' kind)" "maintains (calls_ahead env) (set_version i v)"
  "maintains (calls_ahead env) (on_store memory_rollback)"
  by (auto simp: hoareE_def calls_ahead_def on_world_def runtime_clock_def runtime_id_def set_version_def on_store_def
      memory_rollback_def tidy_refresh op_simps split: prod.splits sum.splits)

lemma tidy_calls:
  assumes "tidy u db"
  shows "tidy (snd (event_append e n u)) db" "tidy (snd (checkpoint_save sha p boundary sid att u)) db"
    "tidy (snd (approval_save a expected u)) db" "tidy (snd (artifact_save am u)) db"
    "tidy (snd (memory_initialize_context sc m producer refs u)) db"
    "tidy (snd (memory_update_context sc m producer refs u)) db" "tidy (snd (workflow_save x expected u)) db"
  using assms unfolding tidy_def
  by (auto intro: finite_dirty_calls finite_dirty_initialize attached_save attached_same call_parts)

interpretation ahead_calls: runtime_calls env "calls_ahead env" for env
  by unfold_locales (intro untouched_ahead commit_store_ahead on_uow_ahead tidy_calls, assumption?)+

section \<open>A started step is committed\<close>

lemma find_checkpoint_record_matches:
  "find_checkpoint_record p boundary sid att rs = Inr (Some r) \<Longrightarrow>
     r \<in> set rs \<and> ck_boundary r = boundary \<and> ck_step_id r = sid \<and> ck_attempt r = att"
  by (induction rs) (auto split: if_splits)

definition has_record :: "CheckpointBoundary \<Rightarrow> string option \<Rightarrow> int option \<Rightarrow> string \<Rightarrow> database \<Rightarrow> bool" where
  "has_record boundary sid att i d \<longleftrightarrow> (\<exists>k \<in> set (stream_of (md_checkpoints d) i).
     ck_boundary k = boundary \<and> ck_step_id k = sid \<and> ck_attempt k = att)"

lemma checkpoint_save_records:
  assumes "checkpoint_save sha p boundary sid att u = (Inr r, u')"
  shows "has_record boundary sid att (cp_workflow_run_id p) (mu_view u')"
proof -
  let ?rs = "stream_of (md_checkpoints (mu_view u)) (cp_workflow_run_id p)"
  from assms obtain found where f: "find_checkpoint_record p boundary sid att ?rs = Inr found"
    by (cases "verify_integrity sha p"; cases "find_checkpoint_record p boundary sid att ?rs")
      (auto simp: checkpoint_save_def Let_def op_simps)
  show ?thesis
  proof (cases found)
    case (Some k)
    with assms f have "u' = u"
      by (cases "verify_integrity sha p") (auto simp: checkpoint_save_def Let_def op_simps)
    with find_checkpoint_record_matches [of p boundary sid att ?rs k] f Some show ?thesis
      by (auto simp: has_record_def)
  next
    case None
    with assms f show ?thesis
      by (cases "verify_integrity sha p")
        (auto simp: checkpoint_save_def Let_def op_simps update_view_def checkpoint_record_post_init_def
          bindR_Inr_iff has_record_def split: sum.splits)
  qed
qed

text \<open>Saving checkpoints only adds records.\<close>

lemma has_record_save:
  assumes "has_record boundary sid att i (mu_view u)"
  shows "has_record boundary sid att i (mu_view (snd (checkpoint_save sha p b' s' a' u)))"
  using checkpoint_save_effect [of sha p b' s' a' u]
proof
  assume "checkpoint_part (snd (checkpoint_save sha p b' s' a' u)) = checkpoint_part u"
  with assms show ?thesis by (simp add: has_record_def checkpoint_part_def)
next
  let ?u = "snd (checkpoint_save sha p b' s' a' u)" and ?k = "cp_workflow_run_id p"
  assume "\<exists>r. checkpoint_part ?u =
      (AList.update ?k (stream_of (md_checkpoints (mu_view u)) ?k @ [r])
         (md_checkpoints (mu_view u)), mu_base_checkpoints u, insert ?k (mu_dirty_checkpoints u)) \<and>
      ck_sequence r = int (length (stream_of (md_checkpoints (mu_view u)) ?k)) + 1"
  then obtain r where "md_checkpoints (mu_view ?u) =
      AList.update ?k (stream_of (md_checkpoints (mu_view u)) ?k @ [r]) (md_checkpoints (mu_view u))"
    by (auto simp: checkpoint_part_def)
  with assms show ?thesis by (auto simp: has_record_def)
qed

text \<open>What an aggregate recorded in front of a commit keeps: the aggregate and the record.\<close>

definition holds_record ::
  "ExecutionState \<Rightarrow> CheckpointBoundary \<Rightarrow> string option \<Rightarrow> int option \<Rightarrow> string \<Rightarrow> runtime \<Rightarrow> bool" where
  "holds_record x boundary sid att i s \<longleftrightarrow> exec_of s = x \<and> has_record boundary sid att i (mu_view (rt_uow s))"

lemma on_uow_holds:
  assumes "\<And>u. has_record boundary sid att i (mu_view u) \<Longrightarrow> has_record boundary sid att i (mu_view (snd (f u)))"
  shows "maintains (holds_record x boundary sid att i) (on_uow f)"
proof -
  have "holds_record x boundary sid att i (snd (on_uow f s))" if "holds_record x boundary sid att i s" for s
    using that assms [of "rt_uow s"] by (cases "f (rt_uow s)") (auto simp: holds_record_def on_uow_def)
  then show ?thesis by (intro hoareE_I) (metis snd_conv)+
qed

lemma has_record_same:
  "checkpoint_part u' = checkpoint_part u \<Longrightarrow> has_record b sid att i (mu_view u) \<Longrightarrow> has_record b sid att i (mu_view u')"
  by (simp add: has_record_def checkpoint_part_def)

interpretation holds: unit_calls env "holds_record x boundary sid att i" for env x boundary sid att i
proof unfold_locales
  show "maintains (holds_record x boundary sid att i) (on_uow (event_append e n))" for e n
    by (intro on_uow_holds) (rule has_record_same [OF event_append_part(1)])
  show "maintains (holds_record x boundary sid att i) (on_uow (checkpoint_save sha p b' s' a'))" for sha p b' s' a'
    by (intro on_uow_holds has_record_save)
qed (auto simp: hoareE_def holds_record_def runtime_clock_def runtime_id_def set_version_def op_simps)

lemma tryE_reraise:
  assumes "tryE m (\<lambda>e. thenE h (raiseE e)) s = (Inr a, s')"
  shows "m s = (Inr a, s')"
  using assms by (cases "m s"; cases "fst (m s)"; cases "h (snd (m s))"; cases "fst (h (snd (m s)))")
    (auto simp: tryE_def op_simps)

interpretation same_world: unit_calls env "\<lambda>s. rt_world s = w" for env w
  by unfold_locales (rule world_untouched [where J = "\<lambda>v. v = w"])+

text \<open>
  A commit of the runtime that returns: after the domain checkpoints were recorded and the
  aggregate was saved, what was in the view of the unit of work is in the database, and the unit
  of work shows the database.
\<close>

lemma runtime_commit_stores:
  assumes "runtime_commit env s = (Inr (), s')" and "orders_dirty env" and "calls_ahead env s"
  obtains s1 v r where "sync_domain_checkpoints env s = (Inr (), s1)" and "exec_of s' = exec_of s"
    and "from_execution (exec_of s) v = Inr r" and "map_of (md_executions (rt_db s')) (wr_id (run_of s)) = Some r"
    and "\<forall>k. stream_of (md_checkpoints (rt_db s')) k = stream_of (md_checkpoints (mu_view (rt_uow s1))) k"
    and "rt_uow s' = memory_refresh (rt_db s')"
proof -
  from assms(1) obtain s1 v s2 where sync: "sync_domain_checkpoints env s = (Inr (), s1)"
    and body: "bindE (bindE (getsE exec_of) (\<lambda>x. on_uow (workflow_save x (known_version s1))))
      (\<lambda>next_version. thenE (commit_store env) (returnE next_version)) s1 = (Inr v, s2)"
    and s': "s' = s2\<lparr>rt_versions := AList.update (wr_id (run_of s)) (Some v) (rt_versions s2)\<rparr>"
    by (auto simp: runtime_commit_def bindE_returned thenE_returned op_apply set_version_def dest!: tryE_reraise)
  have w1: "rt_world s1 = rt_world s" by (rule hoareE_D_ok [OF same_world.sync_keeps refl sync])
  have "calls_ahead env s1" by (rule hoareE_D_ok [OF ahead_calls.sync_keeps assms(3) sync])
  then have att: "attached (rt_uow s1) (rt_db s1)" "finite_dirty (rt_uow s1)"
    using assms(2) by (simp_all add: calls_ahead_def tidy_def)
  from body obtain u2 u3 where save: "workflow_save (exec_of s1) (known_version s1) (rt_uow s1) = (Inr v, u2)"
    and commit: "memory_commit (re_commit_order env u2) (u2, rt_db s1) = (Inr (), (u3, rt_db s2))"
    and s2: "exec_of s2 = exec_of s1" "rt_uow s2 = u3"
    by (auto simp: bindE_returned thenE_returned op_apply on_uow_def commit_store_def on_store_def split: prod.splits)
  have part: "checkpoint_part u2 = checkpoint_part (rt_uow s1)" using workflow_save_part(1) save by (metis snd_conv)
  have "finite_dirty u2" using finite_dirty_calls(6) [OF att(2)] save by (metis snd_conv)
  then have ok: "order_ok (re_commit_order env u2) u2" using assms(2) by (simp add: orders_dirty_def)
  obtain r where r: "from_execution (exec_of s1) v = Inr r"
    "map_of (md_executions (mu_view u2)) (wr_id (run_of s1)) = Some r" "wr_id (run_of s1) \<in> mu_dirty_workflows u2"
    by (rule workflow_save_stores [OF save])
  have db: "rt_db s2 = write_back (re_commit_order env u2) u2 (rt_db s1)" "u3 = memory_refresh (rt_db s2)"
    using commit by (cases rule: memory_commit_cases; simp)+
  have "stream_of (md_checkpoints (rt_db s')) k = stream_of (md_checkpoints (mu_view (rt_uow s1))) k" for k
    using attached_written [OF attached_same [OF part att(1)] ok] part s' by (simp add: db(1) checkpoint_part_def)
  moreover have "map_of (md_executions (rt_db s2)) (wr_id (run_of s1)) = Some r"
    by (rule commit_publishes_execution [OF commit ok r(3,2)])
  ultimately show thesis using that [of s1 v r] sync r(1) w1 s2 s' db(2) by simp
qed

text \<open>So a commit publishes every record of its unit of work.\<close>

lemma runtime_commit_publishes:
  assumes "runtime_commit env s = (Inr (), s')" and "orders_dirty env" and "calls_ahead env s"
    and "has_record boundary sid att i (mu_view (rt_uow s))"
  obtains v r where "exec_of s' = exec_of s" and "from_execution (exec_of s) v = Inr r"
    and "map_of (md_executions (rt_db s')) (wr_id (run_of s)) = Some r" and "has_record boundary sid att i (rt_db s')"
proof -
  obtain s1 v r where sync: "sync_domain_checkpoints env s = (Inr (), s1)"
    and s': "exec_of s' = exec_of s" "from_execution (exec_of s) v = Inr r"
      "map_of (md_executions (rt_db s')) (wr_id (run_of s)) = Some r"
      "\<forall>k. stream_of (md_checkpoints (rt_db s')) k = stream_of (md_checkpoints (mu_view (rt_uow s1))) k"
      "rt_uow s' = memory_refresh (rt_db s')"
    by (rule runtime_commit_stores [OF assms(1-3)])
  have "holds_record (exec_of s) boundary sid att i s1"
    using hoareE_D_ok [OF holds.sync_keeps _ sync] assms(4) by (simp add: holds_record_def)
  then have "has_record boundary sid att i (rt_db s')" using s'(4) by (simp add: holds_record_def has_record_def)
  with that [of v r] s' show thesis by simp
qed

lemma running_step:
  assumes "update_step_state env sid Step_RUNNING None None False w = (Inr r, w')"
  obtains i where "latest_index (srs_of w') sid = Some i" and "sr_status (srs_of w' ! i) = Step_RUNNING"
proof -
  from assms obtain i ts w0 u where "latest_index (srs_of w) sid = Some i" "w_exec w0 = w_exec w"
    and st: "step_to i Step_RUNNING (step_call_at ts None None None) w0 = (Inr u, w')"
    unfolding update_step_state_def require_running_def guard_returned
    by (auto elim!: clock_returned simp: read_returned latest_step_run_Inr thenE_returned op_apply)
  then have i: "latest_index (srs_of w0) sid = Some i" by simp
  from step_to_view(3,4) [OF st i] i that show thesis by simp
qed

text \<open>Creating a checkpoint leaves the run and the steps alone and names the run.\<close>

lemma create_checkpoint_of_run:
  assumes "create_checkpoint env w = (Inr p, w')"
  shows "cp_workflow_run_id p = wr_id (ex_workflow_run (w_exec w))"
    and "ex_workflow_run (w_exec w') = ex_workflow_run (w_exec w)" and "srs_of w' = srs_of w"
proof -
  from assms obtain c where c: "next_checkpoint env (ce_id_factory env ''checkpoint'' (w_ids w))
      (ce_clock env (w_ticks w)) (w_exec w) = Inr p"
    and w': "w' = add_checkpoint p (w\<lparr>w_ticks := Suc (w_ticks w), w_ids := Suc (w_ids w)\<rparr>)"
    by (auto simp: create_checkpoint_apply Let_def split: sum.splits)
  from c show "cp_workflow_run_id p = wr_id (ex_workflow_run (w_exec w))"
    by (simp add: next_checkpoint_def checkpoint_create_ok)
  from w' show "ex_workflow_run (w_exec w') = ex_workflow_run (w_exec w)" "srs_of w' = srs_of w"
    by (simp_all add: add_checkpoint_def)
qed

lemma record_checkpoint_holds:
  "hoareE (\<lambda>s. exec_of s = x) (record_checkpoint env boundary p sid att emit)
     (\<lambda>_. holds_record x boundary sid att (cp_workflow_run_id p)) (\<lambda>_ _. True)"
proof -
  let ?H = "holds_record x boundary sid att (cp_workflow_run_id p)"
  have save: "hoareE (\<lambda>s. exec_of s = x) (on_uow (checkpoint_save (sha_of env) p boundary sid att)) (\<lambda>_. ?H) (\<lambda>_ _. True)"
    by (auto simp: hoareE_def on_uow_def holds_record_def split: prod.splits sum.splits dest: checkpoint_save_records)
  have weak: "hoareE ?H m (\<lambda>_. ?H) (\<lambda>_ _. True)" if "maintains ?H m" for m :: "(runtime, unit) op"
    using that by (rule hoareE_conseq) simp_all
  have rest: "maintains ?H (if b then n else returnE ())" if "maintains ?H n" for b and n :: "(runtime, unit) op"
    using that by (intro flow_rules)
  show ?thesis unfolding record_checkpoint_def
    by (rule hoareE_bind [where R = "\<lambda>_ s. exec_of s = x"], rule hoareE_gets, assumption,
        rule hoareE_then [OF save], rule weak, rule rest, intro flow_rules holds.emit_event_keeps)
qed

text \<open>The aggregate of a state is committed, with a record in front of it.\<close>

definition committed_with :: "CheckpointBoundary \<Rightarrow> string option \<Rightarrow> int option \<Rightarrow> runtime \<Rightarrow> bool" where
  "committed_with boundary sid att s \<longleftrightarrow> (\<exists>v r. from_execution (exec_of s) v = Inr r \<and>
     map_of (md_executions (rt_db s)) (wr_id (run_of s)) = Some r \<and>
     has_record boundary sid att (wr_id (run_of s)) (rt_db s))"

lemma create_checkpoint_at_commits:
  assumes "create_checkpoint_at env boundary sid att s = (Inr p, s')" and "orders_dirty env" and "calls_ahead env s"
  shows "committed_with boundary sid att s'" and "srs_of (rt_world s') = srs_of (rt_world s)"
proof -
  from assms(1) obtain s1 s2 s3 where world: "on_world (create_checkpoint (re_coord env)) s = (Inr p, s1)"
    and rec: "record_checkpoint env boundary p sid att True s1 = (Inr (), s2)"
    and com: "runtime_commit env s2 = (Inr (), s')"
    by (auto simp: create_checkpoint_at_def bindE_returned thenE_returned op_apply)
  from world have w: "create_checkpoint (re_coord env) (rt_world s) = (Inr p, rt_world s1)"
    by (auto simp: on_world_def split: prod.splits)
  note made = create_checkpoint_of_run [OF w]
  have ahead: "calls_ahead env s2"
    by (rule hoareE_D_ok [OF ahead_calls.record_keeps hoareE_D_ok [OF untouched_ahead(1) assms(3) world] rec])
  have "holds_record (exec_of s1) boundary sid att (cp_workflow_run_id p) s2"
    by (rule hoareE_D_ok [OF record_checkpoint_holds _ rec]) simp
  then have s2: "exec_of s2 = exec_of s1" "has_record boundary sid att (wr_id (run_of s2)) (mu_view (rt_uow s2))"
    using made by (simp_all add: holds_record_def)
  obtain v r where "exec_of s' = exec_of s2" "from_execution (exec_of s2) v = Inr r"
    "map_of (md_executions (rt_db s')) (wr_id (run_of s2)) = Some r"
    "has_record boundary sid att (wr_id (run_of s2)) (rt_db s')"
    by (rule runtime_commit_publishes [OF com assms(2) ahead s2(2)])
  then show "committed_with boundary sid att s'" and "srs_of (rt_world s') = srs_of (rt_world s)"
    using made s2(1) by (auto simp: committed_with_def)
qed

lemma start_step_commits:
  assumes "start_step env b y s = (Inr (), s')" and "orders_dirty env" and "calls_ahead env s"
  obtains j where "committed_with Bound_BEFORE_SKILL (Some (sy_step_id y)) (Some (sy_attempt y)) s'"
    and "latest_index (srs_of (rt_world s')) (sy_step_id y) = Some j"
    and "sr_status (srs_of (rt_world s') ! j) = Step_RUNNING"
proof -
  let ?up = "on_world (update_step_state (re_coord env) (sy_step_id y) Step_RUNNING None None False)"
  let ?ev = "emit_event env Event_STEP_STARTED (skill_event_base y) Severity_INFO (Some (sy_step_run_id y))"
  let ?at = "create_checkpoint_at env Bound_BEFORE_SKILL (Some (sy_step_id y)) (Some (sy_attempt y))"
  from assms(1) obtain made s1 u s2 v s3 e s4 p where
      a: "on_world (apply_decision (re_coord env) (StepReady b y)) s = (Inr made, s1)"
    and c: "(case made of None \<Rightarrow> returnE ()
       | Some p \<Rightarrow> thenE (record_checkpoint env Bound_STEP_READY p (Some (sy_step_id y)) (Some (sy_attempt y)) True)
           (runtime_commit env)) s1 = (Inr u, s2)"
    and up: "?up s2 = (Inr v, s3)" and ev: "?ev s3 = (Inr e, s4)" and at: "?at s4 = (Inr p, s')"
    unfolding start_step_def
    by (auto simp: bindE_returned thenE_returned op_apply split: if_splits)
  have "maintains (calls_ahead env) (case made of None \<Rightarrow> returnE ()
       | Some p \<Rightarrow> thenE (record_checkpoint env Bound_STEP_READY p (Some (sy_step_id y)) (Some (sy_attempt y)) True)
           (runtime_commit env))"
    by (intro flow_rules ahead_calls.steps)
  from hoareE_D_ok [OF this hoareE_D_ok [OF untouched_ahead(1) assms(3) a]] c have "calls_ahead env s2" by blast
  then have ahead: "calls_ahead env s4"
    using hoareE_D_ok [OF ahead_calls.emit_event_keeps _ ev] hoareE_D_ok [OF untouched_ahead(1) _ up] by blast
  have "update_step_state (re_coord env) (sy_step_id y) Step_RUNNING None None False (rt_world s2) = (Inr v, rt_world s3)"
    using up by (auto simp: on_world_def split: prod.splits)
  then obtain j where j: "latest_index (srs_of (rt_world s3)) (sy_step_id y) = Some j"
    "sr_status (srs_of (rt_world s3) ! j) = Step_RUNNING" by (rule running_step)
  have "rt_world s4 = rt_world s3"
    using hoareE_D_ok [OF same_world.emit_event_keeps _ ev] by blast
  with j create_checkpoint_at_commits [OF at assms(2) ahead] that show thesis by simp
qed

lemma build_context_step:
  assumes "build_context sha x b y u = Inr c"
  obtains j where "latest_index (ex_step_runs x) (sy_step_id y) = Some j" and "sr_id (ex_step_runs x ! j) = sy_step_run_id y"
  using assms by (auto simp: build_context_def bindR_Inr_iff latest_run_id_def latest_step_run_Inr)

text \<open>A record keeps the identity and the status of every step run.\<close>

lemma step_record_identity:
  "step_from_domain_record s = Inr s' \<Longrightarrow> sr_id s' = sr_id s \<and> sr_step_id s' = sr_step_id s \<and> sr_status s' = sr_status s"
  by (auto simp: step_from_domain_record_def bindR_Inr_iff)

lemma record_has_step:
  assumes "from_execution x v = Inr r" and "j < length (ex_step_runs x)"
  obtains s where "s \<in> set (xr_steps r)" and "sr_id s = sr_id (ex_step_runs x ! j)"
    and "sr_step_id s = sr_step_id (ex_step_runs x ! j)" and "sr_status s = sr_status (ex_step_runs x ! j)"
proof -
  from assms(1) have "mapR step_from_domain_record (ex_step_runs x) = Inr (xr_steps r)"
    by (auto simp: from_execution_def execution_record_post_init_def bindR_Inr_iff)
  then have "length (xr_steps r) = length (ex_step_runs x)"
    and "step_from_domain_record (ex_step_runs x ! j) = Inr (xr_steps r ! j)"
    using assms(2) by (auto simp: mapR_Inr_iff list_all2_conv_all_nth)
  with step_record_identity [of "ex_step_runs x ! j" "xr_steps r ! j"] assms(2) show thesis
    by (intro that [of "xr_steps r ! j"]) simp_all
qed

lemma invoke_skill_ahead: "maintains (calls_ahead env) (invoke_skill env b y)"
proof -
  define Q where "Q c s \<longleftrightarrow> calls_ahead env s \<and> (orders_dirty env \<longrightarrow>
    write_ahead \<lparr>call_run_id = wr_id (run_of s), call_ready = y, call_database = rt_db s\<rparr>)" for c :: AgentExecutionContext and s
  have start: "hoareE (calls_ahead env) (thenE (start_step env b y)
      (readE (\<lambda>s. build_context (sha_of env) (exec_of s) b y (rt_uow s)))) Q (\<lambda>_. calls_ahead env)"
  proof (rule hoareE_I)
    fix s c s' assume ok: "calls_ahead env s"
      and "thenE (start_step env b y) (readE (\<lambda>s. build_context (sha_of env) (exec_of s) b y (rt_uow s))) s = (Inr c, s')"
    then have st: "start_step env b y s = (Inr (), s')" and bc: "build_context (sha_of env) (exec_of s') b y (rt_uow s') = Inr c"
      by (auto simp: thenE_returned op_apply)
    have "write_ahead \<lparr>call_run_id = wr_id (run_of s'), call_ready = y, call_database = rt_db s'\<rparr>" if d: "orders_dirty env"
    proof -
      obtain j where cw: "committed_with Bound_BEFORE_SKILL (Some (sy_step_id y)) (Some (sy_attempt y)) s'"
        and j: "latest_index (srs_of (rt_world s')) (sy_step_id y) = Some j" "sr_status (srs_of (rt_world s') ! j) = Step_RUNNING"
        by (rule start_step_commits [OF st d ok])
      have id: "sr_id (srs_of (rt_world s') ! j) = sy_step_run_id y"
        using j(1) by (rule_tac build_context_step [OF bc]) simp
      from cw obtain v r where r: "from_execution (exec_of s') v = Inr r"
        "map_of (md_executions (rt_db s')) (wr_id (run_of s')) = Some r"
        "has_record Bound_BEFORE_SKILL (Some (sy_step_id y)) (Some (sy_attempt y)) (wr_id (run_of s')) (rt_db s')"
        by (auto simp: committed_with_def)
      note latest = latest_index_Some(1,2) [OF j(1)]
      obtain t where "t \<in> set (xr_steps r)" "sr_id t = sr_id (srs_of (rt_world s') ! j)"
        "sr_step_id t = sr_step_id (srs_of (rt_world s') ! j)" "sr_status t = sr_status (srs_of (rt_world s') ! j)"
        by (rule record_has_step [OF r(1) latest(1)])
      with r(2,3) id latest(2) j(2) show ?thesis by (auto simp: write_ahead_def has_record_def)
    qed
    then show "Q c s'" using hoareE_D_ok [OF ahead_calls.start_keeps ok st] by (simp add: Q_def)
  next
    fix s e s' assume "calls_ahead env s"
      and "thenE (start_step env b y) (readE (\<lambda>s. build_context (sha_of env) (exec_of s) b y (rt_uow s))) s = (Inl e, s')"
    with maintains_snd [OF maintains_then [OF ahead_calls.start_keeps maintains_pure(2)]] show "calls_ahead env s'"
      by (metis snd_conv)
  qed
  have call: "hoareE (Q c) (call_skill env b y (ax_resolved_inputs c)) (\<lambda>_. calls_ahead env) (\<lambda>_. calls_ahead env)" for c
    by (auto simp: hoareE_def call_skill_def op_simps Q_def calls_ahead_def split: sum.splits)
  have "invoke_skill env b y = bindE (thenE (start_step env b y)
      (readE (\<lambda>s. build_context (sha_of env) (exec_of s) b y (rt_uow s)))) (\<lambda>c. call_skill env b y (ax_resolved_inputs c))"
    by (auto simp: invoke_skill_def thenE_def bindE_def fun_eq_iff split: prod.splits sum.splits)
  with hoareE_bind [OF start call] show ?thesis by simp
qed

interpretation ahead: runtime_invariant env "calls_ahead env" for env
  by unfold_locales (rule invoke_skill_ahead)

lemma resolve_execution_ahead: "maintains (calls_ahead env) (resolve_execution env arg)"
proof -
  have set_exec: "maintains (calls_ahead env) (modifyE (\<lambda>s. s\<lparr>rt_world := f s\<rparr>))" for f
    by (intro hoare_intros) (simp add: calls_ahead_def)
  then have load: "maintains (calls_ahead env) (load_execution env i)" for i
    unfolding load_execution_def by (intro flow_rules untouched_ahead)
  show ?thesis unfolding resolve_execution_def Let_def
    by (cases arg) (simp_all add: flow_rules untouched_ahead load set_exec)
qed

section \<open>Properties\<close>

text \<open>
  The runtime drives the aggregate through the coordinator only: a run on an aggregate that the
  commands reach and that is not stored yet ends, whether it returns or raises, in one they reach.
\<close>

lemma runtime_stays_within_commands:
  assumes "coord_reach (re_coord env) ((rt_world s)\<lparr>w_exec := x\<rparr>)"
    and "workflow_get_version (rt_uow s) (wr_id (ex_workflow_run x)) = None"
    and "agent_run env (Inl x) approval_outcome approval_outputs s = (r, s')"
  shows "coord_reach (re_coord env) (rt_world s')"
proof -
  obtain t where t: "resolve_execution env (Inl x) s = (Inr True, t)" "rt_world t = (rt_world s)\<lparr>w_exec := x\<rparr>"
    using assms(2) by (simp add: resolve_execution_def Let_def op_simps set_version_def)
  with assms(3) have "run_resolved env True approval_outcome approval_outputs t = (r, s')"
    by (simp add: agent_run_def op_simps)
  with maintains_snd [OF reach.run_keeps, of env t True approval_outcome approval_outputs] t(2) assms(1)
  show ?thesis by simp
qed

text \<open>
  C5. Write-ahead. Whenever the runtime calls the skill executor, the committed database already
  holds the run with that attempt of the step RUNNING, and the BEFORE_SKILL checkpoint of the
  step and attempt: a crash during the skill is seen by the next run as an interrupted attempt.
  It is assumed that a commit walks exactly the dirty keys, in any order, and that the unit of
  work starts from the committed database.
\<close>

theorem skill_called_behind_checkpoint:
  assumes "orders_dirty env" and "rt_uow s = memory_refresh (rt_db s)" and "rt_calls s = []"
    and "agent_run env execution_or_id approval_outcome approval_outputs s = (r, s')"
  shows "\<forall>c \<in> set (rt_calls s'). write_ahead c"
proof -
  have "maintains (calls_ahead env) (agent_run env execution_or_id approval_outcome approval_outputs)"
    unfolding agent_run_def by (intro flow_rules resolve_execution_ahead ahead.run_keeps)
  moreover have "calls_ahead env s" using assms(2,3) by (simp add: calls_ahead_def tidy_refresh)
  ultimately have "calls_ahead env s'" using maintains_snd assms(4) by (metis snd_conv)
  with assms(1) show ?thesis by (simp add: calls_ahead_def)
qed

section \<open>A run\<close>

definition demo_step :: WorkflowStep where
  "demo_step = \<lparr>ws_id = ''search'', ws_kind = Kind_SKILL, ws_needs = [], ws_uses = Some ''mock_paper_search@1.0.0'',
     ws_input_mapping = [(''query'', VStr ''${inputs.topic}'')], ws_timeout_seconds = 300, ws_max_attempts = 2,
     ws_retry_backoff = ''exponential'', ws_retry_initial_seconds = 1, ws_retry_max_seconds = 30,
     ws_checkpoint_policy = ''after_success'', ws_approval_policy = None\<rparr>"

definition demo_workflow :: Workflow where
  "demo_workflow = \<lparr>wf_id = ''w1'', wf_version = ''1'', wf_name = ''survey'', wf_steps = [demo_step],
     wf_schema_version = ''reagent/v1alpha1'',
     wf_input_schema = [(''topic'', VDict [(''type'', VStr ''string'')])], wf_outputs = []\<rparr>"

text \<open>An aggregate whose only step is ready.\<close>

definition demo_ready_execution :: ExecutionState where
  "demo_ready_execution = \<lparr>ex_workflow = demo_workflow,
     ex_workflow_run = \<lparr>wr_id = ''r0'', wr_project_id = ''p1'', wr_workflow_id = ''w1'', wr_workflow_version = ''1'',
       wr_actor_user_id = ''u1'', wr_idempotency_key = ''k1'', wr_inputs = [(''topic'', VStr ''x'')],
       wr_status = Run_RUNNING, wr_outputs = [], wr_wait_reason = None, wr_error_code = None, wr_row_version = 2,
       wr_created_at = Aware 0, wr_updated_at = Aware 1\<rparr>,
     ex_agent_session = \<lparr>as_id = ''a1'', as_project_id = ''p1'', as_workflow_run_id = ''r0'',
       as_agent_profile_ref = ''profile'', as_role = ''primary'', as_status = Agent_ACTIVE, as_state = [],
       as_row_version = 2, as_created_at = Aware 0, as_updated_at = Aware 1\<rparr>,
     ex_step_runs = [\<lparr>sr_id = ''s2'', sr_workflow_run_id = ''r0'', sr_step_id = ''search'', sr_attempt = 1,
       sr_idempotency_key = ''r0:search:1'', sr_inputs = [(''query'', VStr ''x'')], sr_status = Step_READY,
       sr_outputs = [], sr_error_code = None, sr_row_version = 1, sr_created_at = Aware 0, sr_updated_at = Aware 1,
       sr_started_at = None, sr_finished_at = None\<rparr>],
     ex_checkpoints = []\<rparr>"

definition sorted_order :: "memory_uow \<Rightarrow> commit_order" where
  "sorted_order u = \<lparr>co_workflows = sorted_list_of_set (mu_dirty_workflows u),
     co_checkpoints = sorted_list_of_set (mu_dirty_checkpoints u), co_memory = sorted_list_of_set (mu_dirty_memory u),
     co_artifacts = sorted_list_of_set (mu_dirty_artifacts u), co_approvals = sorted_list_of_set (mu_dirty_approvals u),
     co_events = sorted_list_of_set (mu_dirty_events u), co_operations = sorted_list_of_set (mu_dirty_operations u)\<rparr>"

definition demo_env :: runtime_env where
  "demo_env = \<lparr>re_coord = sample_env, re_skills = (\<lambda>_. \<lparr>ex_registry = [], ex_capability_provider = None\<rparr>), re_clock = (\<lambda>n. Aware (int n)),
     re_id_factory = (\<lambda>kind n. take 1 kind @ nat_str n), re_commit_order = sorted_order, re_max_decisions = 10,
     re_approval_ttl = 86400000000\<rparr>"

definition demo_runtime :: "world \<Rightarrow> runtime" where
  "demo_runtime w = \<lparr>rt_world = w, rt_uow = memory_refresh empty_database, rt_db = empty_database, rt_versions = [],
     rt_ticks = 0, rt_ids = 0, rt_calls = []\<rparr>"

lemma demo_orders: "orders_dirty demo_env"
  by (simp add: orders_dirty_def demo_env_def sorted_order_def order_ok_def finite_dirty_def)

lemma demo_call:
  "map call_ready (rt_calls (snd (agent_run demo_env (Inl demo_ready_execution) None None
     (demo_runtime \<lparr>w_exec = demo_ready_execution, w_ticks = 0, w_ids = 3\<rparr>)))) =
   [\<lparr>sy_step_id = ''search'', sy_step_run_id = ''s2'', sy_attempt = 1, sy_expected_step_version = 1,
     sy_skill_ref = ''mock_paper_search@1.0.0'', sy_resolved_inputs = [(''query'', VStr ''x'')],
     sy_requires_ready_transition = False\<rparr>]"
  by code_simp

theorem skill_called_behind_checkpoint_witness:
  "\<exists>c. sy_step_run_id (call_ready c) = ''s2'' \<and> write_ahead c \<and>
     c \<in> set (rt_calls (snd (agent_run demo_env (Inl demo_ready_execution) None None
       (demo_runtime \<lparr>w_exec = demo_ready_execution, w_ticks = 0, w_ids = 3\<rparr>))))"
proof -
  let ?s = "demo_runtime \<lparr>w_exec = demo_ready_execution, w_ticks = 0, w_ids = 3\<rparr>"
  let ?run = "agent_run demo_env (Inl demo_ready_execution) None None ?s"
  have "\<forall>c \<in> set (rt_calls (snd ?run)). write_ahead c"
    by (rule skill_called_behind_checkpoint [OF demo_orders _ _ prod.collapse [symmetric]]) (simp_all add: demo_runtime_def)
  moreover obtain c where "c \<in> set (rt_calls (snd ?run))" "sy_step_run_id (call_ready c) = ''s2''"
    using demo_call by (cases "rt_calls (snd ?run)") auto
  ultimately show ?thesis by blast
qed

end
