(* ===== verification/Runtime_Commits.thy ===== *)
theory Runtime_Commits
  imports Runtime_Claims Engine_Effects
begin

text \<open>
  What a run of the agent runtime leaves committed. Every branch of the run ends with a commit or
  changes nothing: \<open>settles\<close> is proved for the former and \<open>idles\<close> for the latter, branch by
  branch in the order of the code, so a result that is returned describes the database.
\<close>

section \<open>Settled states\<close>

text \<open>What a stored record and an aggregate have in common.\<close>

definition run_face where
  "run_face r = (wr_id r, wr_status r, wr_wait_reason r, wr_error_code r, wr_row_version r, thaw_map (wr_outputs r))"

definition step_face where
  "step_face s = (sr_id s, sr_step_id s, sr_attempt s, sr_status s, sr_error_code s, sr_row_version s)"

definition reflects :: "WorkflowExecutionRecord \<Rightarrow> ExecutionState \<Rightarrow> bool" where
  "reflects r x \<longleftrightarrow> run_face (xr_run r) = run_face (ex_workflow_run x) \<and> as_id (xr_agent r) = as_id (ex_agent_session x) \<and>
     map step_face (xr_steps r) = map step_face (ex_step_runs x)"

definition committed_ids :: "database \<Rightarrow> string set" where
  "committed_ids d = {cp_id (ck_checkpoint c) |k c. c \<in> set (stream_of (md_checkpoints d) k)}"

definition clean :: "runtime \<Rightarrow> bool" where
  "clean s \<longleftrightarrow> rt_uow s = memory_refresh (rt_db s) \<and>
     (\<exists>r. map_of (md_executions (rt_db s)) (wr_id (run_of s)) = Some r \<and> reflects r (exec_of s)) \<and>
     cp_id ` set (ex_checkpoints (exec_of s)) \<subseteq> committed_ids (rt_db s)"

definition settled :: "runtime_env \<Rightarrow> runtime \<Rightarrow> bool" where
  "settled env s \<longleftrightarrow> calls_ahead env s \<and> (orders_dirty env \<longrightarrow> clean s)"

lemma steps_face:
  "mapR step_from_domain_record ss = Inr ss' \<Longrightarrow> map step_face ss' = map step_face ss"
  by (induction ss arbitrary: ss') (auto simp: bindR_Inr_iff step_from_domain_record_def step_face_def)

lemma steps_face_back: "mapR step_to_domain ss = Inr ss' \<Longrightarrow> map step_face ss' = map step_face ss"
  by (induction ss arbitrary: ss') (auto simp: bindR_Inr_iff step_to_domain_def step_run_post_init_def step_face_def)

lemma from_execution_reflects: "from_execution x v = Inr r \<Longrightarrow> reflects r x"
  by (auto simp: from_execution_def execution_record_post_init_def bindR_Inr_iff reflects_def run_from_domain_def
      run_face_def agent_from_domain_def freeze_json_at_Inr steps_face)

lemma to_execution_reflects: "to_execution r ps = Inr x \<Longrightarrow> reflects r (x\<lparr>ex_checkpoints := qs\<rparr>)"
  by (auto simp: to_execution_def bindR_Inr_iff reflects_def run_to_domain_def workflow_run_post_init_def
      run_face_def agent_to_domain_def agent_session_post_init_def steps_face_back [symmetric])

section \<open>Rules\<close>

abbreviation settles :: "runtime_env \<Rightarrow> (runtime, 'a) op \<Rightarrow> bool" where
  "settles env m \<equiv> hoareE (calls_ahead env) m (\<lambda>_. settled env) (\<lambda>_. calls_ahead env)"

abbreviation idles :: "runtime_env \<Rightarrow> (runtime, 'a) op \<Rightarrow> bool" where
  "idles env m \<equiv> hoareE (settled env) m (\<lambda>_. settled env) (\<lambda>_. calls_ahead env)"

lemma settled_ahead: "settled env s \<Longrightarrow> calls_ahead env s"
  by (simp add: settled_def)

lemma settles_idles: "settles env m \<Longrightarrow> idles env m"
  by (erule hoareE_conseq) (simp_all add: settled_ahead)

lemma settles_then: "maintains (calls_ahead env) m \<Longrightarrow> settles env n \<Longrightarrow> settles env (thenE m n)"
  by (rule hoareE_then)

lemma settles_bind: "maintains (calls_ahead env) m \<Longrightarrow> (\<And>a. settles env (f a)) \<Longrightarrow> settles env (bindE m f)"
  by (rule hoareE_bind)

lemma settles_first: "settles env m \<Longrightarrow> idles env n \<Longrightarrow> settles env (thenE m n)"
  by (rule hoareE_then)

lemma settles_raise: "settles env (raiseE e)" "idles env (raiseE e)"
  by (intro hoare_intros; simp add: settled_ahead)+

lemma idles_then: "idles env m \<Longrightarrow> idles env n \<Longrightarrow> idles env (thenE m n)"
  by (rule hoareE_then)

lemma idles_bind: "idles env m \<Longrightarrow> (\<And>a. idles env (f a)) \<Longrightarrow> idles env (bindE m f)"
  by (rule hoareE_bind)

lemma idles_pure: "idles env (returnE a)" "idles env (readE f)" "idles env (getsE g)"
  by (intro hoare_intros; simp add: settled_ahead)+

lemma idles_option:
  "idles env n \<Longrightarrow> (\<And>a. idles env (f a)) \<Longrightarrow> idles env (case x of None \<Rightarrow> n | Some a \<Rightarrow> f a)"
  by (cases x) auto

lemma settles_option:
  "settles env n \<Longrightarrow> (\<And>a. settles env (f a)) \<Longrightarrow> settles env (case x of None \<Rightarrow> n | Some a \<Rightarrow> f a)"
  by (cases x) auto

lemmas idle_rules = idles_then idles_bind idles_pure hoareE_if idles_option settles_raise

text \<open>Below, calls in front of the commit only keep \<open>calls_ahead\<close>.\<close>

lemmas ahead_rules = flow_rules untouched_ahead commit_store_ahead ahead_calls.saved ahead_calls.steps

section \<open>A commit settles\<close>

lemma committed_ids_same: "checkpoint_part u' = checkpoint_part u \<Longrightarrow> committed_ids (mu_view u') = committed_ids (mu_view u)"
  by (simp add: committed_ids_def checkpoint_part_def)

lemma checkpoint_save_ids:
  "committed_ids (mu_view u) \<subseteq> committed_ids (mu_view (snd (checkpoint_save sha p boundary sid att u)))"
  using checkpoint_save_effect [of sha p boundary sid att u]
proof
  assume "checkpoint_part (snd (checkpoint_save sha p boundary sid att u)) = checkpoint_part u"
  from committed_ids_same [OF this] show ?thesis by simp
next
  let ?u = "snd (checkpoint_save sha p boundary sid att u)" and ?k = "cp_workflow_run_id p"
  assume "\<exists>r. checkpoint_part ?u =
      (AList.update ?k (stream_of (md_checkpoints (mu_view u)) ?k @ [r])
         (md_checkpoints (mu_view u)), mu_base_checkpoints u, insert ?k (mu_dirty_checkpoints u)) \<and>
      ck_sequence r = int (length (stream_of (md_checkpoints (mu_view u)) ?k)) + 1"
  then obtain r where "md_checkpoints (mu_view ?u) =
      AList.update ?k (stream_of (md_checkpoints (mu_view u)) ?k @ [r]) (md_checkpoints (mu_view u))"
    by (auto simp: checkpoint_part_def)
  then have "set (stream_of (md_checkpoints (mu_view u)) k) \<subseteq> set (stream_of (md_checkpoints (mu_view ?u)) k)" for k
    by (auto simp: stream_of_def split: option.splits)
  then show ?thesis unfolding committed_ids_def by blast
qed

lemma checkpoint_save_id:
  assumes "checkpoint_save sha p boundary sid att u = (Inr r, u')"
  shows "cp_id p \<in> committed_ids (mu_view u')"
proof -
  let ?rs = "stream_of (md_checkpoints (mu_view u)) (cp_workflow_run_id p)"
  from assms obtain found where f: "find_checkpoint_record p boundary sid att ?rs = Inr found"
    by (cases "verify_integrity sha p"; cases "find_checkpoint_record p boundary sid att ?rs")
      (auto simp: checkpoint_save_def Let_def op_simps)
  show ?thesis
  proof (cases found)
    case (Some k)
    with assms f have "u' = u"
      by (cases "verify_integrity sha p") (auto simp: checkpoint_save_def Let_def op_simps)
    moreover have "k \<in> set rs \<and> cp_id (ck_checkpoint k) = cp_id p"
      if "find_checkpoint_record p boundary sid att rs = Inr (Some k)" for rs
      using that by (induction rs) (auto split: if_splits)
    ultimately show ?thesis using f Some by (force simp: committed_ids_def)
  next
    case None
    with assms f have "\<exists>c. c \<in> set (stream_of (md_checkpoints (mu_view u')) (cp_workflow_run_id p)) \<and> ck_checkpoint c = p"
      by (cases "verify_integrity sha p")
        (auto simp: checkpoint_save_def Let_def op_simps update_view_def checkpoint_record_post_init_def
          bindR_Inr_iff split: sum.splits)
    then show ?thesis by (force simp: committed_ids_def)
  qed
qed

abbreviation shows_ids :: "string set \<Rightarrow> runtime \<Rightarrow> bool" where
  "shows_ids X s \<equiv> X \<subseteq> committed_ids (mu_view (rt_uow s))"

lemma on_uow_ids:
  assumes "\<And>u. committed_ids (mu_view u) \<subseteq> committed_ids (mu_view (snd (f u)))"
  shows "maintains (shows_ids X) (on_uow f)"
proof -
  have "shows_ids X (snd (on_uow f s))" if "shows_ids X s" for s
    using that assms [of "rt_uow s"] by (cases "f (rt_uow s)") (auto simp: on_uow_def)
  then show ?thesis by (intro hoareE_I) (metis snd_conv)+
qed

interpretation known: unit_calls env "shows_ids X" for env X
proof unfold_locales
  show "maintains (shows_ids X) (on_uow (event_append e n))" for e n
    by (intro on_uow_ids) (simp add: committed_ids_same [OF event_append_part(1)])
  show "maintains (shows_ids X) (on_uow (checkpoint_save sha p b sid att))" for sha p b sid att
    by (intro on_uow_ids checkpoint_save_ids)
qed (auto simp: hoareE_def runtime_clock_def runtime_id_def set_version_def op_simps)

lemma record_checkpoint_ids:
  "hoareE (shows_ids X) (record_checkpoint env boundary p sid att emit) (\<lambda>_. shows_ids (insert (cp_id p) X)) (\<lambda>_ _. True)"
proof -
  let ?X = "insert (cp_id p) X"
  have save: "hoareE (shows_ids X) (on_uow (checkpoint_save (sha_of env) p boundary sid att)) (\<lambda>_. shows_ids ?X) (\<lambda>_ _. True)"
    using hoareE_D_ok [OF known.staged(2)] checkpoint_save_id
    by (intro hoareE_I) (auto simp: on_uow_def split: prod.splits, blast?)
  have weak: "hoareE (shows_ids ?X) m (\<lambda>_. shows_ids ?X) (\<lambda>_ _. True)" if "maintains (shows_ids ?X) m" for m :: "(runtime, unit) op"
    using that by (rule hoareE_conseq) simp_all
  have rest: "maintains (shows_ids ?X) (if b then n else returnE ())" if "maintains (shows_ids ?X) n" for b and n :: "(runtime, unit) op"
    using that by (intro flow_rules)
  show ?thesis unfolding record_checkpoint_def
    by (rule hoareE_bind [where R = "\<lambda>_. shows_ids X"], rule hoareE_gets, assumption,
        rule hoareE_then [OF save], rule weak, rule rest, intro flow_rules known.emit_event_keeps)
qed

lemma sync_checkpoints_ids:
  "ids \<subseteq> X \<Longrightarrow> hoareE (shows_ids X) (sync_checkpoints env ids ps) (\<lambda>_. shows_ids (X \<union> cp_id ` set ps)) (\<lambda>_ _. True)"
proof (induction ps arbitrary: ids X)
  case Nil
  then show ?case by (auto intro: hoare_intros)
next
  case (Cons p ps)
  show ?case
  proof (cases "cp_id p \<in> ids")
    case True
    with Cons.prems have "X \<union> cp_id ` set (p # ps) = X \<union> cp_id ` set ps" by auto
    with True Cons.IH [OF Cons.prems] show ?thesis by simp
  next
    case False
    have "insert (cp_id p) ids \<subseteq> insert (cp_id p) X" using Cons.prems by auto
    from hoareE_then [OF record_checkpoint_ids Cons.IH [OF this]] False show ?thesis by simp
  qed
qed

lemma checkpoint_list_in:
  assumes "p \<in> set (checkpoint_list u i)"
  obtains c where "c \<in> set (stream_of (md_checkpoints (mu_view u)) i)" and "ck_checkpoint c = p"
proof -
  have "snd ` set (fold (\<lambda>r d. set_default (cp_id (ck_checkpoint r)) (ck_checkpoint r) d) rs d) \<subseteq>
      snd ` set d \<union> ck_checkpoint ` set rs" for rs :: "CheckpointRecord list" and d
  proof (induction rs arbitrary: d)
    case (Cons r rs)
    have "snd ` set (set_default k v d) \<subseteq> insert v (snd ` set d)" for k :: string and v :: Checkpoint
      by (auto simp: set_default_def)
    from this [of "cp_id (ck_checkpoint r)" "ck_checkpoint r"] have "snd ` set (set_default (cp_id (ck_checkpoint r)) (ck_checkpoint r) d) \<union> ck_checkpoint ` set rs \<subseteq>
        snd ` set d \<union> ck_checkpoint ` set (r # rs)" by auto
    with Cons [of "set_default (cp_id (ck_checkpoint r)) (ck_checkpoint r) d"] show ?case
      by (simp only: fold_simps(2))
  qed simp
  from this [of "stream_of (md_checkpoints (mu_view u)) i" "[]"] assms that show thesis
    by (auto simp: checkpoint_list_def checkpoint_list_records_def Let_def)
qed

lemma checkpoint_list_ids: "cp_id ` set (checkpoint_list u i) \<subseteq> committed_ids (mu_view u)"
  by (auto simp: committed_ids_def elim!: checkpoint_list_in)

lemma sync_domain_ids:
  assumes "sync_domain_checkpoints env s = (Inr (), s')"
  shows "cp_id ` set (ex_checkpoints (exec_of s)) \<subseteq> committed_ids (mu_view (rt_uow s'))"
proof -
  let ?ids = "cp_id ` set (checkpoint_list (rt_uow s) (wr_id (run_of s)))"
  from assms have "sync_checkpoints env ?ids (ex_checkpoints (exec_of s)) s = (Inr (), s')"
    by (simp add: sync_domain_checkpoints_def op_simps)
  from hoareE_D_ok [OF sync_checkpoints_ids [OF order_refl] _ this] checkpoint_list_ids show ?thesis by blast
qed

lemma commit_settles: "settles env (runtime_commit env)"
proof (rule hoareE_I)
  fix s u s' assume ok: "calls_ahead env s" and com: "runtime_commit env s = (Inr u, s')"
  have ahead: "calls_ahead env s'" by (rule hoareE_D_ok [OF ahead_calls.commit_keeps ok com])
  have "clean s'" if d: "orders_dirty env"
  proof -
    from com have "runtime_commit env s = (Inr (), s')" by simp
    from this d ok obtain s1 v r where sync: "sync_domain_checkpoints env s = (Inr (), s1)"
      and s': "exec_of s' = exec_of s" "from_execution (exec_of s) v = Inr r"
        "map_of (md_executions (rt_db s')) (wr_id (run_of s)) = Some r"
        "\<forall>k. stream_of (md_checkpoints (rt_db s')) k = stream_of (md_checkpoints (mu_view (rt_uow s1))) k"
        "rt_uow s' = memory_refresh (rt_db s')" by (rule runtime_commit_stores)
    have "committed_ids (rt_db s') = committed_ids (mu_view (rt_uow s1))" using s'(4) by (simp add: committed_ids_def)
    with s' sync_domain_ids [OF sync] from_execution_reflects show ?thesis by (auto simp: clean_def)
  qed
  with ahead show "settled env s'" by (simp add: settled_def)
qed (use maintains_snd [OF ahead_calls.commit_keeps] in \<open>metis snd_conv\<close>)

section \<open>Every branch settles\<close>

lemma result_idles: "idles env runtime_result"
  unfolding runtime_result_def by (intro idle_rules)

lemma committed_result: "settles env (thenE (runtime_commit env) runtime_result)"
  "settles env (thenE (runtime_commit env) (bindE runtime_result (\<lambda>r. returnE (Some r))))"
  "settles env (thenE (runtime_commit env) (returnE c))"
  by (intro settles_first [OF commit_settles] idle_rules result_idles)+

lemma request_ahead: "maintains (calls_ahead env) (create_approval_request env sid srid att policy inputs)"
  unfolding create_approval_request_def Let_def by (intro ahead_rules)

lemmas settle_rules = settles_then settles_bind committed_result commit_settles ahead_rules request_ahead

lemma await_settles: "settles env (await_approval env b y)"
  unfolding await_approval_def by (intro settles_then settles_bind committed_result; intro ahead_rules request_ahead)

lemma retry_settles: "settles env (schedule_retry env b y)"
  unfolding schedule_retry_def by (intro settles_then settles_bind committed_result; intro ahead_rules)

lemma terminal_event_ahead: "maintains (calls_ahead env) (terminal_event env dec)"
  by (cases dec) (simp_all add: terminal_event_def ahead_rules)

lemma terminal_settles: "settles env (apply_terminal_decision env dec)"
  unfolding apply_terminal_decision_def
  by (intro settles_then settles_bind committed_result; intro ahead_rules terminal_event_ahead)

lemma success_ahead: "maintains (calls_ahead env) (save_emitted env y a)" "maintains (calls_ahead env) (update_memory y outs)"
  unfolding save_emitted_def update_memory_def by (intro ahead_rules)+

lemma success_settles: "settles env (after_success env y r)"
  unfolding after_success_def
  by (intro settles_then settles_bind committed_result; intro ahead_rules success_ahead)

lemma close_settles: "settles env (close_failed env y p)" "settles env (close_retry env y p)"
  unfolding close_failed_def close_retry_def
  by (intro settles_then settles_bind committed_result; intro ahead_rules)+

lemma failure_settles: "settles env (after_failure env y err)"
proof -
  have close: "settles env (case dec of RetryScheduled _ _ \<Rightarrow> close_retry env y p
      | WorkflowFailed _ _ \<Rightarrow> close_failed env y p | _ \<Rightarrow> raiseE (e dec))" for dec p e
    by (cases dec) (simp_all add: close_settles settles_raise)
  have before: "maintains (calls_ahead env) (case dec of WorkflowFailed _ _ \<Rightarrow>
      thenE (create_checkpoint_at env Bound_BEFORE_TERMINAL sid att) (returnE ()) | _ \<Rightarrow> returnE ())" for dec sid att
    by (cases dec) (simp_all add: ahead_rules)
  show ?thesis unfolding after_failure_def
    by (intro settles_then settles_bind close; intro ahead_rules before)
qed

lemma execute_settles: "settles env (execute_step env b y)"
  unfolding execute_step_def
  by (intro settles_bind hoareE_if settles_option invoke_skill_ahead success_settles failure_settles settles_raise)

text \<open>Applying \<open>ApprovalCompleted\<close> always makes a checkpoint, so the branch without one is not taken.\<close>

lemma settle_approval_settles: "settles env (settle_approval env b y)"
proof -
  have made: "hoareE (calls_ahead env) (on_world (apply_decision (re_coord env) (ApprovalCompleted b y)))
      (\<lambda>made s. calls_ahead env s \<and> made \<noteq> None) (\<lambda>_. calls_ahead env)"
  proof (rule hoareE_I)
    fix s made s' assume ok: "calls_ahead env s"
      and ap: "on_world (apply_decision (re_coord env) (ApprovalCompleted b y)) s = (Inr made, s')"
    from ap obtain w' where "apply_decision (re_coord env) (ApprovalCompleted b y) (rt_world s) = (Inr made, w')"
      by (auto simp: on_world_def split: prod.splits)
    with apply_records [of "ApprovalCompleted b y" "re_coord env"] have "made \<noteq> None"
      by (auto simp: has_effect_def records_def dest: hoareE_D_ok)
    with hoareE_D_ok [OF untouched_ahead(1) ok ap] show "calls_ahead env s' \<and> made \<noteq> None" by simp
  qed (rule hoareE_D_err [OF untouched_ahead(1)])
  have rest: "hoareE (\<lambda>s. calls_ahead env s \<and> made \<noteq> None) (case made of None \<Rightarrow> returnE ()
      | Some p \<Rightarrow> thenE (record_checkpoint env Bound_APPROVAL_RESOLVED p (Some (ac_step_id y)) None True) (runtime_commit env))
      (\<lambda>_. settled env) (\<lambda>_. calls_ahead env)" for made
  proof (cases made)
    case (Some p)
    have "settles env (thenE (record_checkpoint env Bound_APPROVAL_RESOLVED p (Some (ac_step_id y)) None True) (runtime_commit env))"
      by (intro settles_then commit_settles ahead_rules)
    with Some show ?thesis by simp
  qed (simp add: hoareE_def)
  show ?thesis unfolding settle_approval_def by (rule hoareE_bind [OF made rest])
qed

lemma loop_idles: "idles env (decision_loop env n)"
proof (induction n)
  case (Suc n)
  have "idles env (case dec of
        StepReady b y \<Rightarrow> bindE (execute_step env b y)
          (\<lambda>yielded. case yielded of Some r \<Rightarrow> returnE r | None \<Rightarrow> decision_loop env n)
      | WaitingApproval b y \<Rightarrow> await_approval env b y
      | RetryScheduled b y \<Rightarrow> schedule_retry env b y
      | WorkflowCompleted _ _ \<Rightarrow> apply_terminal_decision env dec
      | WorkflowFailed _ _ \<Rightarrow> apply_terminal_decision env dec
      | WorkflowCancelled _ _ \<Rightarrow> apply_terminal_decision env dec
      | ApprovalCompleted b y \<Rightarrow> thenE (settle_approval env b y) (decision_loop env n)
      | NoAction _ \<Rightarrow> runtime_result)" for dec
    by (cases dec)
      (auto intro!: idle_rules Suc result_idles
        settles_idles [OF execute_settles] settles_idles [OF settle_approval_settles]
        settles_idles [OF await_settles] settles_idles [OF retry_settles] settles_idles [OF terminal_settles])
  then show ?case by (simp add: idles_bind idles_pure)
qed (simp add: settles_raise)

section \<open>Resuming\<close>

lemma ensure_idles: "idles env (ensure_pending_approval env)"
proof -
  have "settles env (request_missing_approval env i)" for i
    unfolding request_missing_approval_def
    by (intro settles_bind settles_option settles_then commit_settles settles_raise; intro ahead_rules request_ahead)
  then show ?thesis unfolding ensure_pending_approval_def by (intro idle_rules settles_idles)
qed

lemma resume_approval_settles: "settles env (resume_approval env outcome outputs)"
proof -
  have final: "settles env (thenE (runtime_commit env)
      (bindE (getsE (\<lambda>s. run_is_terminal (wr_status (run_of s))))
      (\<lambda>final. if final then bindE runtime_result (\<lambda>r. returnE (Some r)) else returnE None)))"
    by (intro settles_first [OF commit_settles] idle_rules result_idles)
  show ?thesis unfolding resume_approval_def
    by (intro settles_bind final settles_then; intro ahead_rules)
qed

lemma recovered_settles: "settles env (record_recovered env)"
  unfolding record_recovered_def by (intro settles_bind settles_then commit_settles; intro ahead_rules)

text \<open>The handler of an interrupted run ends it; else the run goes on and is committed as recovered.\<close>

lemma handler_settles: "settles env (interrupted_handler env active e)"
  unfolding interrupted_handler_def
  by (intro settles_bind hoareE_if settles_then committed_result settles_raise; intro ahead_rules)

lemma resume_running_settles: "settles env (resume_running env active)"
proof -
  let ?Q = "\<lambda>ended s. if ended = None then calls_ahead env s else settled env s"
  have body: "hoareE (calls_ahead env) (bindE (readE (\<lambda>s. latest_checkpoint (exec_of s)))
      (\<lambda>p. thenE (on_world (engine_resume_from_checkpoint (re_coord env) p)) (returnE None)))
      ?Q (\<lambda>_. calls_ahead env)"
    by (rule hoareE_conseq [where Q' = "\<lambda>ended s. ended = None \<and> calls_ahead env s" and E' = "\<lambda>_. calls_ahead env"
          and P' = "calls_ahead env"])
      (auto simp: hoareE_def bindE_returned thenE_returned op_simps on_world_def calls_ahead_def split: sum.splits prod.splits)
  have tried: "hoareE (calls_ahead env) (tryE (bindE (readE (\<lambda>s. latest_checkpoint (exec_of s)))
      (\<lambda>p. thenE (on_world (engine_resume_from_checkpoint (re_coord env) p)) (returnE None)))
      (interrupted_handler env active)) ?Q (\<lambda>_. calls_ahead env)" (is "hoareE _ (tryE ?m _) _ _")
  proof (rule hoareE_I)
    fix s a s' assume ok: "calls_ahead env s" and tr: "tryE ?m (interrupted_handler env active) s = (Inr a, s')"
    then consider "?m s = (Inr a, s')" | e t where "?m s = (Inl e, t)" "interrupted_handler env active e t = (Inr a, s')"
      by (auto simp: tryE_def split: prod.splits sum.splits)
    then show "?Q a s'"
    proof cases
      case 1
      then show ?thesis using hoareE_D_ok [OF body ok] by blast
    next
      case 2
      with hoareE_D_ok [OF handler_settles hoareE_D_err [OF body ok]] settled_ahead show ?thesis by fastforce
    qed
  next
    fix s e s' assume ok: "calls_ahead env s" and tr: "tryE ?m (interrupted_handler env active) s = (Inl e, s')"
    then obtain e' t where "?m s = (Inl e', t)" "interrupted_handler env active e' t = (Inl e, s')"
      by (auto simp: tryE_def split: prod.splits sum.splits)
    with hoareE_D_err [OF handler_settles hoareE_D_err [OF body ok]] show "calls_ahead env s'" by blast
  qed
  have rest: "hoareE (?Q ended) (case ended of Some r \<Rightarrow> returnE (Some r)
      | None \<Rightarrow> thenE (record_recovered env) (returnE None)) (\<lambda>_. settled env) (\<lambda>_. calls_ahead env)" for ended
    by (cases ended) (simp_all add: hoareE_return settles_first [OF recovered_settles] idles_pure)
  show ?thesis unfolding resume_running_def
    by (intro settles_bind settles_then hoareE_bind [OF tried rest]; intro ahead_rules)
qed

lemma prepare_idles: "idles env (prepare_resume env outcome outputs)"
proof -
  have retried: "idles env (bindE (readE (\<lambda>s. latest_checkpoint (exec_of s)))
      (\<lambda>p. thenE (on_world (engine_resume_from_checkpoint (re_coord env) p)) (thenE (record_recovered env) (returnE None))))"
    by (intro settles_idles settles_bind settles_then settles_first [OF recovered_settles] idles_pure; intro ahead_rules)
  have running: "idles env (case active of [] \<Rightarrow> returnE None | a # _ \<Rightarrow> resume_running env a)" for active
    by (cases active) (simp_all add: idles_pure settles_idles [OF resume_running_settles])
  show ?thesis unfolding prepare_resume_def
    by (intro idles_bind [OF idles_pure(3)] hoareE_if retried idles_bind [OF idles_pure(2)] running idles_option
        idles_then ensure_idles idles_pure result_idles settles_idles [OF resume_approval_settles]
        idles_bind [OF result_idles])
qed

section \<open>A run\<close>

lemma start_settles: "settles env (start_workflow env)"
  unfolding start_workflow_def
  by (intro settles_bind settles_then commit_settles; intro ahead_rules ahead_calls.world_calls)

lemma body_idles: "idles env (run_body env outcome outputs)"
  unfolding run_body_def
  by (intro idles_bind [OF idles_pure(3)] hoareE_if result_idles idles_then settles_idles [OF start_settles]
      idles_pure idles_bind [OF prepare_idles] idles_option loop_idles)

text \<open>Initialising the memory and recording a baseline change nothing once there are any.\<close>

lemma initialized_already:
  assumes "memory_latest_revision_number (rt_uow s) (run_scope s) \<noteq> 0"
  shows "initialize_memory s = (Inr (), s)"
  using assms by (simp add: initialize_memory_def memory_initialize_context_def memory_latest_revision_number_def
      op_simps on_uow_def Let_def split: if_splits)

lemma baseline_already:
  "checkpoint_list_records (rt_uow s) (wr_id (run_of s)) \<noteq> [] \<Longrightarrow> record_baseline env s = (Inr (), s)"
  by (simp add: record_baseline_def op_simps)

lemma run_resolved_settles:
  assumes "run_resolved env is_new outcome outputs s = (Inr r, s')" and "calls_ahead env s"
    and "\<not> is_new \<Longrightarrow> settled env s"
  shows "settled env s'"
proof -
  let ?empty = "is_new \<or> memory_latest_revision_number (rt_uow s) (run_scope s) = 0 \<or>
    checkpoint_list_records (rt_uow s) (wr_id (run_of s)) = []"
  from assms(1) obtain s1 s2 s3 where i: "initialize_memory s = (Inr (), s1)" and b: "record_baseline env s1 = (Inr (), s2)"
    and c: "(if ?empty then runtime_commit env else returnE ()) s2 = (Inr (), s3)"
    and run: "run_body env outcome outputs s3 = (Inr r, s')"
    by (auto simp: run_resolved_def bindE_returned thenE_returned op_apply)
  have "maintains (calls_ahead env) initialize_memory"
    unfolding initialize_memory_def Let_def by (intro ahead_rules)
  moreover have "maintains (calls_ahead env) (record_baseline env)"
    unfolding record_baseline_def by (intro ahead_rules)
  ultimately have ahead: "calls_ahead env s2" using hoareE_D_ok i b assms(2) by metis
  have "settled env s3"
  proof (cases ?empty)
    case True
    with c hoareE_D_ok [OF commit_settles ahead] show ?thesis by simp
  next
    case False
    with initialized_already [of s] baseline_already [of s env] i b c assms(3) show ?thesis by (auto simp: op_apply)
  qed
  with hoareE_D_ok [OF body_idles _ run] show ?thesis .
qed

section \<open>What is returned is the result of the last state\<close>

definition reports :: "(runtime, RuntimeResult) op \<Rightarrow> bool" where
  "reports m \<longleftrightarrow> hoareE (\<lambda>_. True) m (\<lambda>r s. runtime_result s = (Inr r, s)) (\<lambda>_ _. True)"

definition may_report :: "(runtime, RuntimeResult option) op \<Rightarrow> bool" where
  "may_report m \<longleftrightarrow> hoareE (\<lambda>_. True) m (\<lambda>found s. \<forall>r. found = Some r \<longrightarrow> runtime_result s = (Inr r, s)) (\<lambda>_ _. True)"

lemma result_reports: "reports runtime_result"
proof -
  have "snd (runtime_result s) = s" for s by (simp add: runtime_result_def op_simps split: sum.splits)
  then show ?thesis unfolding reports_def by (intro hoareE_I TrueI) (metis snd_conv)
qed

lemma reports_rules:
  "reports n \<Longrightarrow> reports (thenE m n)" "(\<And>a. reports (f a)) \<Longrightarrow> reports (bindE m f)" "reports (raiseE e)"
  unfolding reports_def by (rule hoareE_then [OF hoareE_any], assumption) (rule hoareE_bind [OF hoareE_any], simp, intro hoare_intros)

lemma may_report_rules:
  "may_report n \<Longrightarrow> may_report (thenE m n)" "(\<And>a. may_report (g a)) \<Longrightarrow> may_report (bindE m g)"
  "may_report (raiseE e)" "may_report (returnE None)"
  unfolding may_report_def
  by (rule hoareE_then [OF hoareE_any], assumption) (rule hoareE_bind [OF hoareE_any], simp, (intro hoare_intros; simp)+)

lemma result_may_report: "may_report (bindE runtime_result (\<lambda>r. returnE (Some r)))"
  using result_reports unfolding reports_def may_report_def by (rule hoareE_bind) (simp add: hoareE_return)

lemma reported_option:
  assumes "may_report m" and "reports n"
  shows "reports (bindE m (\<lambda>found. case found of Some r \<Rightarrow> returnE r | None \<Rightarrow> n))"
proof -
  have "hoareE (\<lambda>s. \<forall>r. found = Some r \<longrightarrow> runtime_result s = (Inr r, s)) (case found of Some r \<Rightarrow> returnE r | None \<Rightarrow> n)
      (\<lambda>r s. runtime_result s = (Inr r, s)) (\<lambda>_ _. True)" for found
    using assms(2) by (cases found) (simp_all add: reports_def hoareE_return)
  with assms(1) show ?thesis unfolding reports_def may_report_def by (rule hoareE_bind)
qed

lemma may_report_if: "may_report m \<Longrightarrow> may_report n \<Longrightarrow> may_report (if b then m else n)"
  by simp

lemma reports_if: "reports m \<Longrightarrow> reports n \<Longrightarrow> reports (if b then m else n)"
  by simp

lemma may_report_option:
  "may_report n \<Longrightarrow> (\<And>a. may_report (g a)) \<Longrightarrow> may_report (case x of None \<Rightarrow> n | Some a \<Rightarrow> g a)"
  by (cases x) auto

lemmas tail_rules = may_report_rules may_report_if may_report_option result_may_report
  reports_rules reports_if result_reports

lemma execute_reports: "may_report (execute_step env b y)"
proof -
  have close: "may_report (case dec of RetryScheduled _ _ \<Rightarrow> close_retry env y p
      | WorkflowFailed _ _ \<Rightarrow> close_failed env y p | _ \<Rightarrow> raiseE (e dec))" for dec p e
    by (cases dec) (simp_all add: close_failed_def close_retry_def tail_rules)
  then have "may_report (after_failure env y err)" for err
    unfolding after_failure_def by (intro may_report_rules(1,2) close)
  moreover have "may_report (after_success env y r)" for r
    unfolding after_success_def by (intro may_report_rules)
  ultimately show ?thesis unfolding execute_step_def by (intro may_report_rules(2,3) may_report_if may_report_option)
qed

lemma loop_reports: "reports (decision_loop env n)"
proof (induction n)
  case (Suc n)
  have "reports (case dec of
        StepReady b y \<Rightarrow> bindE (execute_step env b y)
          (\<lambda>yielded. case yielded of Some r \<Rightarrow> returnE r | None \<Rightarrow> decision_loop env n)
      | WaitingApproval b y \<Rightarrow> await_approval env b y
      | RetryScheduled b y \<Rightarrow> schedule_retry env b y
      | WorkflowCompleted _ _ \<Rightarrow> apply_terminal_decision env dec
      | WorkflowFailed _ _ \<Rightarrow> apply_terminal_decision env dec
      | WorkflowCancelled _ _ \<Rightarrow> apply_terminal_decision env dec
      | ApprovalCompleted b y \<Rightarrow> thenE (settle_approval env b y) (decision_loop env n)
      | NoAction _ \<Rightarrow> runtime_result)" for dec
    by (cases dec)
      (simp_all add: await_approval_def schedule_retry_def apply_terminal_decision_def reports_rules Suc result_reports
        reported_option [OF execute_reports])
  then show ?case by (simp add: reports_rules)
qed (simp add: reports_rules)

lemma prepare_reports: "may_report (prepare_resume env outcome outputs)"
proof -
  have handler: "may_report (interrupted_handler env active e)" for active e
    unfolding interrupted_handler_def by (intro tail_rules)
  have "may_report (tryE (bindE m (\<lambda>p. thenE (n p) (returnE None))) (interrupted_handler env active))" (is "may_report (tryE ?m _)")
    for m :: "(runtime, Checkpoint) op" and n :: "Checkpoint \<Rightarrow> (runtime, decision) op" and active
  proof -
    have "\<forall>r. found = Some r \<longrightarrow> runtime_result s' = (Inr r, s')"
      if "tryE ?m (interrupted_handler env active) s = (Inr found, s')" for s found s'
    proof (cases "?m s")
      case (Pair q t)
      show ?thesis
      proof (cases q)
        case (Inl e)
        with Pair that have "interrupted_handler env active e t = (Inr found, s')" by (simp add: tryE_def)
        with handler show ?thesis by (auto simp: may_report_def dest: hoareE_D_ok)
      next
        case (Inr a)
        with Pair that have "found = a" by (simp add: tryE_def)
        moreover from Inr Pair have "a = None" by (auto simp: bindE_returned thenE_returned op_apply)
        ultimately show ?thesis by simp
      qed
    qed
    then show ?thesis unfolding may_report_def by (intro hoareE_I TrueI) blast
  qed
  note tried = this
  have "may_report (resume_running env active)" for active
  proof -
    have "hoareE (\<lambda>s. \<forall>r. ended = Some r \<longrightarrow> runtime_result s = (Inr r, s)) (case ended of Some r \<Rightarrow> returnE (Some r)
        | None \<Rightarrow> thenE (record_recovered env) (returnE None))
        (\<lambda>found s. \<forall>r. found = Some r \<longrightarrow> runtime_result s = (Inr r, s)) (\<lambda>_ _. True)" for ended
      using may_report_rules(1) [OF may_report_rules(4)] by (cases ended) (simp_all add: may_report_def hoareE_return)
    with tried have tail: "may_report (bindE (tryE (bindE m (\<lambda>p. thenE (n p) (returnE None))) (interrupted_handler env active))
        (\<lambda>ended. case ended of Some r \<Rightarrow> returnE (Some r) | None \<Rightarrow> thenE (record_recovered env) (returnE None)))"
      for m :: "(runtime, Checkpoint) op" and n :: "Checkpoint \<Rightarrow> (runtime, decision) op"
      unfolding may_report_def by (rule hoareE_bind)
    show ?thesis unfolding resume_running_def
      by (intro may_report_rules(1) may_report_rules(2) [where m = "readE _"] tail)
  qed
  then have running: "may_report (case active of [] \<Rightarrow> returnE None | a # _ \<Rightarrow> resume_running env a)" for active
    by (cases active) (simp_all add: may_report_rules)
  have "may_report (resume_approval env q outputs)" for q
    unfolding resume_approval_def by (intro tail_rules)
  then show ?thesis unfolding prepare_resume_def
    by (intro may_report_rules(2) [where m = "getsE _"] may_report_rules(2) [where m = "readE _"] running may_report_if
        may_report_option may_report_rules(1,4) result_may_report)
qed

lemma body_reports: "reports (run_body env outcome outputs)"
  unfolding run_body_def
  by (intro reports_rules(2) [where m = "getsE _"] reports_if reports_rules(1) result_reports
      reported_option [OF prepare_reports loop_reports])

lemma run_reports: "agent_run env arg outcome outputs s = (Inr r, s') \<Longrightarrow> runtime_result s' = (Inr r, s')"
proof -
  have "reports (agent_run env arg outcome outputs)"
    unfolding agent_run_def run_resolved_def by (intro reports_rules(1,2) body_reports)
  moreover assume "agent_run env arg outcome outputs s = (Inr r, s')"
  ultimately show ?thesis by (auto simp: reports_def dest: hoareE_D_ok)
qed

section \<open>Loading\<close>

definition executions_keyed :: "database \<Rightarrow> bool" where
  "executions_keyed db \<longleftrightarrow> (\<forall>i r. map_of (md_executions db) i = Some r \<longrightarrow> wr_id (xr_run r) = i)"

lemma loaded_clean:
  assumes "load_execution env i s = (Inr (), s')" and "rt_uow s = memory_refresh (rt_db s)" and "executions_keyed (rt_db s)"
  shows "clean s'"
proof -
  let ?ps = "checkpoint_list (rt_uow s) i"
  from assms(1) obtain found where get: "workflow_get (rt_uow s) i = Inr found"
    and rest: "(case found of None \<Rightarrow> raiseE (AgentRuntimeError (''WorkflowRun '' @ i @ '' was not found''))
      | Some x \<Rightarrow>
          bindE (getsE (\<lambda>s. checkpoint_list (rt_uow s) i))
          (\<lambda>ps. if ps = [] then
              raiseE (AgentRuntimeError (''WorkflowRun '' @ i @ '' has no persisted checkpoint''))
            else thenE (readE (\<lambda>_. verify_integrity (sha_of env) (last ps)))
              (bindE (getsE (\<lambda>s. workflow_get_version (rt_uow s) i))
              (\<lambda>version. case version of
                 None \<Rightarrow> raiseE (AgentRuntimeError (''WorkflowRun '' @ i @ '' has no persistence version''))
               | Some v \<Rightarrow> thenE (set_version i (Some v))
                   (modifyE (\<lambda>s. s\<lparr>rt_world := (rt_world s)\<lparr>w_exec := x\<lparr>ex_checkpoints := ps\<rparr>\<rparr>\<rparr>)))))) s = (Inr (), s')"
    unfolding load_execution_def read_returned by blast
  from rest obtain x where x: "found = Some x" by (cases found) (simp_all add: op_apply)
  have s': "rt_uow s' = rt_uow s" "rt_db s' = rt_db s" "exec_of s' = x\<lparr>ex_checkpoints := ?ps\<rparr>"
    using rest by (cases "workflow_get_version (rt_uow s) i"; cases "?ps = []";
        auto simp: x gets_returned thenE_returned op_apply set_version_def)+
  note get = get [unfolded x]
  from get assms(2) obtain r where r: "map_of (md_executions (rt_db s)) i = Some r" "to_execution r [] = Inr x"
    by (auto simp: workflow_get_def refresh_view bindR_Inr_iff split: option.splits)
  from to_execution_reflects [OF r(2)] have refl: "reflects r (exec_of s')" using s'(3) by simp
  with r(1) assms(3) have "wr_id (run_of s') = i" by (simp add: reflects_def run_face_def executions_keyed_def)
  with r(1) refl s' assms(2) checkpoint_list_ids [of "rt_uow s" i] show ?thesis
    by (auto simp: clean_def refresh_view)
qed

lemma resolve_settles:
  assumes "resolve_execution env arg s = (Inr is_new, s')" and "\<not> is_new" and "calls_ahead env s"
    and "rt_uow s = memory_refresh (rt_db s)" and "executions_keyed (rt_db s)"
  shows "settled env s'"
proof -
  from assms(1,2) obtain i where "load_execution env i s = (Inr (), s')"
    by (cases arg) (auto simp: resolve_execution_def Let_def bindE_returned thenE_returned op_apply split: if_splits)
  from loaded_clean [OF this assms(4,5)] hoareE_D_ok [OF resolve_execution_ahead assms(3,1)]
  show ?thesis by (simp add: settled_def)
qed

section \<open>Property\<close>

text \<open>What a result says of the record of its run and of the streams of the database.\<close>

definition describes :: "RuntimeResult \<Rightarrow> WorkflowExecutionRecord \<Rightarrow> database \<Rightarrow> bool" where
  "describes rr r db \<longleftrightarrow> rr_status rr = wr_status (xr_run r) \<and> rr_wait_reason rr = wr_wait_reason (xr_run r) \<and>
     rr_error_code rr = wr_error_code (xr_run r) \<and> thaw_map (rr_outputs rr) = thaw_map (wr_outputs (xr_run r)) \<and>
     rr_agent_session_id rr = as_id (xr_agent r) \<and>
     rr_runtime_checkpoint_count rr = length (stream_of (md_checkpoints db) (rr_workflow_run_id rr))"

text \<open>
  C6. A result that is returned is durable. When \<open>AgentRuntime.run\<close> returns, on whichever branch
  (a failure or a success of a skill, an approval requested or resolved, a retry, a terminal
  decision, an interrupted run, or nothing to do), the unit of work shows the committed database,
  which holds a record of the run with the status, wait reason, error code, outputs, session and
  number of checkpoint records that the result reports, and with every attempt of every step as
  the aggregate has it; and every checkpoint of the aggregate is committed. It is assumed that a
  commit walks exactly the dirty keys, in any order, that the run starts from a unit of work
  without changes, and that stored executions are kept under their identifiers.
\<close>

theorem returned_result_is_committed:
  assumes "orders_dirty env" and "rt_uow s = memory_refresh (rt_db s)" and "executions_keyed (rt_db s)"
    and "rt_calls s = []" and "agent_run env execution_or_id approval_outcome approval_outputs s = (Inr rr, s')"
  shows "rt_uow s' = memory_refresh (rt_db s') \<and>
    (\<exists>r. map_of (md_executions (rt_db s')) (rr_workflow_run_id rr) = Some r \<and> describes rr r (rt_db s') \<and>
       map step_face (xr_steps r) = map step_face (ex_step_runs (exec_of s'))) \<and>
    cp_id ` set (ex_checkpoints (exec_of s')) \<subseteq> committed_ids (rt_db s')"
proof -
  have start: "calls_ahead env s" using assms(2,4) by (simp add: calls_ahead_def tidy_refresh)
  from assms(5) obtain is_new t where res: "resolve_execution env execution_or_id s = (Inr is_new, t)"
    and run: "run_resolved env is_new approval_outcome approval_outputs t = (Inr rr, s')"
    by (auto simp: agent_run_def bindE_returned)
  have "settled env s'"
    by (rule run_resolved_settles [OF run hoareE_D_ok [OF resolve_execution_ahead start res]
          resolve_settles [OF res _ start assms(2,3)]])
  then have "clean s'" using assms(1) by (simp add: settled_def)
  moreover have "rr_workflow_run_id rr = wr_id (run_of s') \<and> describes rr r (rt_db s')"
    if "reflects r (exec_of s')" "rt_uow s' = memory_refresh (rt_db s')" for r
    using run_reports [OF assms(5)] that
    by (auto simp: runtime_result_def op_apply bindR_Inr_iff Let_def runtime_result_post_init_def freeze_json_at_Inr
        describes_def reflects_def run_face_def checkpoint_list_records_def refresh_view)
  ultimately show ?thesis by (auto simp: clean_def reflects_def)
qed

text \<open>A small aggregate whose only step has COMPLETED.\<close>

definition done_step :: WorkflowStep where
  "done_step = demo_step\<lparr>ws_id := ''s'', ws_uses := Some ''k@1'', ws_input_mapping := []\<rparr>"

definition done_execution :: ExecutionState where
  "done_execution = \<lparr>ex_workflow = \<lparr>wf_id = ''w'', wf_version = ''1'', wf_name = ''n'', wf_steps = [done_step],
       wf_schema_version = ''reagent/v1alpha1'', wf_input_schema = [], wf_outputs = []\<rparr>,
     ex_workflow_run = \<lparr>wr_id = ''r'', wr_project_id = ''p'', wr_workflow_id = ''w'', wr_workflow_version = ''1'',
       wr_actor_user_id = ''u'', wr_idempotency_key = ''k'', wr_inputs = [], wr_status = Run_RUNNING, wr_outputs = [],
       wr_wait_reason = None, wr_error_code = None, wr_row_version = 2, wr_created_at = Aware 0, wr_updated_at = Aware 1\<rparr>,
     ex_agent_session = \<lparr>as_id = ''a'', as_project_id = ''p'', as_workflow_run_id = ''r'', as_agent_profile_ref = ''f'',
       as_role = ''primary'', as_status = Agent_ACTIVE, as_state = [], as_row_version = 2, as_created_at = Aware 0,
       as_updated_at = Aware 1\<rparr>,
     ex_step_runs = [\<lparr>sr_id = ''i'', sr_workflow_run_id = ''r'', sr_step_id = ''s'', sr_attempt = 1,
       sr_idempotency_key = ''k'', sr_inputs = [], sr_status = Step_COMPLETED, sr_outputs = [], sr_error_code = None,
       sr_row_version = 3, sr_created_at = Aware 0, sr_updated_at = Aware 1, sr_started_at = None, sr_finished_at = None\<rparr>],
     ex_checkpoints = []\<rparr>"

definition done_env :: runtime_env where
  "done_env = demo_env\<lparr>re_coord := sample_env\<lparr>ce_sha256 := \<lambda>_. ''h''\<rparr>\<rparr>"

definition done_runtime :: runtime where
  "done_runtime = demo_runtime \<lparr>w_exec = done_execution, w_ticks = 0, w_ids = 0\<rparr>"

lemma done_runs:
  "case fst (agent_run done_env (Inl done_execution) None None done_runtime) of Inl e \<Rightarrow> False
   | Inr rr \<Rightarrow> rr_status rr = Run_COMPLETED \<and> rr_runtime_checkpoint_count rr = 2 \<and> rr_workflow_run_id rr = ''r''"
  by code_simp

theorem returned_result_is_committed_witness:
  "\<exists>rr s' r. agent_run done_env (Inl done_execution) None None done_runtime = (Inr rr, s') \<and>
     rr_status rr = Run_COMPLETED \<and> map_of (md_executions (rt_db s')) ''r'' = Some r \<and>
     wr_status (xr_run r) = Run_COMPLETED \<and> length (stream_of (md_checkpoints (rt_db s')) ''r'') = 2"
proof -
  obtain q s' where "agent_run done_env (Inl done_execution) None None done_runtime = (q, s')" by fastforce
  with done_runs obtain rr where run: "agent_run done_env (Inl done_execution) None None done_runtime = (Inr rr, s')"
    and rr: "rr_status rr = Run_COMPLETED" "rr_runtime_checkpoint_count rr = 2" "rr_workflow_run_id rr = ''r''"
    by (cases q) auto
  have "orders_dirty done_env" using demo_orders by (simp add: orders_dirty_def done_env_def)
  from returned_result_is_committed [OF this _ _ _ run] obtain r where
    "map_of (md_executions (rt_db s')) ''r'' = Some r" "describes rr r (rt_db s')"
    by (auto simp: done_runtime_def demo_runtime_def executions_keyed_def empty_database_def rr(3))
  with run rr show ?thesis by (auto simp: describes_def)
qed

end
