(* ===== verification/Application_Views.thy ===== *)
theory Application_Views
  imports Agent_Runtime
begin

text \<open>
  Commands and read models of the application layer, \<^verbatim>\<open>backend/application/commands.py\<close> and
  \<^verbatim>\<open>backend/application/views.py\<close>. A view copies an entity into plain containers.
\<close>

section \<open>Commands\<close>

record StepSpec =
  sp_id :: string
  sp_kind :: WorkflowStepKind
  sp_needs :: "string list"
  sp_uses :: "string option"
  sp_input_mapping :: pymap
  sp_timeout_seconds :: int
  sp_max_attempts :: int
  sp_retry_backoff :: string
  sp_retry_initial_seconds :: rat
  sp_retry_max_seconds :: rat
  sp_checkpoint_policy :: string
  sp_approval_policy :: "string option"

record WorkflowSpec =
  wp_id :: string
  wp_version :: string
  wp_name :: string
  wp_steps :: "StepSpec list"
  wp_schema_version :: string
  wp_input_schema :: pymap
  wp_outputs :: pymap

record CreateWorkflowRunCommand =
  cr_project_id :: string
  cr_actor_user_id :: string
  cr_idempotency_key :: string
  cr_agent_profile_ref :: string
  cr_workflow :: WorkflowSpec
  cr_inputs :: pymap

record CreateCatalogWorkflowRunCommand =
  cc_project_id :: string
  cc_actor_user_id :: string
  cc_idempotency_key :: string
  cc_agent_profile_ref :: string
  cc_workflow_id :: string
  cc_workflow_version :: string
  cc_inputs :: pymap

datatype ApprovalDecision = Decide_APPROVE | Decide_REJECT

record ApprovalDecisionCommand =
  ad_approval_id :: string
  ad_decision :: ApprovalDecision
  ad_resolved_by :: string
  ad_decision_idempotency_key :: string
  ad_current_fingerprint :: "string option"
  ad_reason :: "string option"
  ad_metadata :: pymap

section \<open>Plain containers\<close>

primrec plain :: "pyval \<Rightarrow> pyval" where
  "plain VNone = VNone"
| "plain (VBool b) = VBool b"
| "plain (VInt i) = VInt i"
| "plain (VFloat t) = VFloat t"
| "plain (VStr s) = VStr s"
| "plain (VList xs) = VList (map plain xs)"
| "plain (VTuple xs) = VList (map plain xs)"
| "plain (VDict kvs) = VDict (map (map_prod id plain) kvs)"
| "plain (VProxy kvs) = VDict (map (map_prod id plain) kvs)"
| "plain (VObj n) = VObj n"

definition plain_map :: "pymap \<Rightarrow> pymap" where
  "plain_map = map (map_prod id plain)"

lemma plain_eq_thaw_value: "plain v = thaw_value v"
  by (induction v rule: pyval_induct) auto

lemma plain_map_eq_thaw_map: "plain_map m = thaw_map m"
  by (auto simp: plain_map_def thaw_map_def plain_eq_thaw_value)

section \<open>Views of a run\<close>

record StepRunView =
  sv_id :: string
  sv_step_id :: string
  sv_attempt :: int
  sv_status :: StepRunStatus
  sv_inputs :: pymap
  sv_outputs :: pymap
  sv_error_code :: "string option"
  sv_created_at :: datetime
  sv_updated_at :: datetime

definition step_run_view :: "StepRun \<Rightarrow> StepRunView" where
  "step_run_view s = \<lparr>sv_id = sr_id s, sv_step_id = sr_step_id s, sv_attempt = sr_attempt s,
     sv_status = sr_status s, sv_inputs = plain_map (sr_inputs s), sv_outputs = plain_map (sr_outputs s),
     sv_error_code = sr_error_code s, sv_created_at = sr_created_at s, sv_updated_at = sr_updated_at s\<rparr>"

record WorkflowRunView =
  rv_id :: string
  rv_project_id :: string
  rv_workflow_id :: string
  rv_workflow_version :: string
  rv_actor_user_id :: string
  rv_agent_session_id :: string
  rv_status :: WorkflowRunStatus
  rv_inputs :: pymap
  rv_outputs :: pymap
  rv_wait_reason :: "string option"
  rv_error_code :: "string option"
  rv_completed_steps :: "string list"
  rv_checkpoint_count :: nat
  rv_created_at :: datetime
  rv_updated_at :: datetime
  rv_steps :: "StepRunView list"

text \<open>\<open>workflow.steps.index(step)\<close>: the position of the first equal step.\<close>

definition step_index :: "WorkflowStep \<Rightarrow> WorkflowStep list \<Rightarrow> nat" where
  "step_index s ss = length (takeWhile (\<lambda>t. t \<noteq> s) ss)"

definition ordered_step_runs :: "ExecutionState \<Rightarrow> StepRun list res" where
  "ordered_step_runs x =
     bindR (mapR (\<lambda>s. bindR (workflow_get_step (ex_workflow x) (sr_step_id s))
              (\<lambda>ws. Inr ((step_index ws (wf_steps (ex_workflow x)), sr_attempt s), s))) (ex_step_runs x))
     (\<lambda>keyed. Inr (map snd (sort_key fst keyed)))"

definition workflow_run_view :: "ExecutionState \<Rightarrow> WorkflowRunView res" where
  "workflow_run_view x =
     (let run = ex_workflow_run x in
      bindR (ordered_step_runs x)
      (\<lambda>steps. bindR (completed_steps x)
      (\<lambda>completed. Inr \<lparr>rv_id = wr_id run, rv_project_id = wr_project_id run,
         rv_workflow_id = wr_workflow_id run, rv_workflow_version = wr_workflow_version run,
         rv_actor_user_id = wr_actor_user_id run, rv_agent_session_id = as_id (ex_agent_session x),
         rv_status = wr_status run, rv_inputs = plain_map (wr_inputs run), rv_outputs = plain_map (wr_outputs run),
         rv_wait_reason = wr_wait_reason run, rv_error_code = wr_error_code run,
         rv_completed_steps = completed, rv_checkpoint_count = length (ex_checkpoints x),
         rv_created_at = wr_created_at run, rv_updated_at = wr_updated_at run,
         rv_steps = map step_run_view steps\<rparr>)))"

record WorkflowRunSummaryView =
  rw_id :: string
  rw_project_id :: string
  rw_workflow_id :: string
  rw_workflow_version :: string
  rw_workflow_name :: string
  rw_status :: WorkflowRunStatus
  rw_wait_reason :: "string option"
  rw_error_code :: "string option"
  rw_created_at :: datetime
  rw_updated_at :: datetime

definition run_summary_view :: "ExecutionState \<Rightarrow> WorkflowRunSummaryView" where
  "run_summary_view x = (let run = ex_workflow_run x in
     \<lparr>rw_id = wr_id run, rw_project_id = wr_project_id run, rw_workflow_id = wr_workflow_id run,
      rw_workflow_version = wr_workflow_version run, rw_workflow_name = wf_name (ex_workflow x),
      rw_status = wr_status run, rw_wait_reason = wr_wait_reason run, rw_error_code = wr_error_code run,
      rw_created_at = wr_created_at run, rw_updated_at = wr_updated_at run\<rparr>)"

record WorkflowRunPageView =
  pg_runs :: "WorkflowRunSummaryView list"
  pg_total :: nat
  pg_offset :: int
  pg_limit :: int

section \<open>Views of approvals, events, definitions and artifacts\<close>

record ApprovalView =
  av_id :: string
  av_project_id :: string
  av_workflow_run_id :: string
  av_step_run_id :: string
  av_policy_key :: string
  av_request_fingerprint :: string
  av_prompt :: string
  av_requested_action :: pymap
  av_requested_by :: string
  av_permitted_approver_role :: string
  av_requested_at :: datetime
  av_expires_at :: "datetime option"
  av_status :: ApprovalRequestStatus
  av_resolved_by :: "string option"
  av_resolved_at :: "datetime option"
  av_decision_reason :: "string option"

definition approval_view :: "ApprovalRequest \<Rightarrow> ApprovalView" where
  "approval_view a = \<lparr>av_id = ar_id a, av_project_id = ar_project_id a,
     av_workflow_run_id = ar_workflow_run_id a, av_step_run_id = ar_step_run_id a,
     av_policy_key = ar_policy_key a, av_request_fingerprint = ar_request_fingerprint a,
     av_prompt = ar_prompt a, av_requested_action = plain_map (ar_requested_action a),
     av_requested_by = ar_requested_by a, av_permitted_approver_role = ar_permitted_approver_role a,
     av_requested_at = ar_requested_at a, av_expires_at = ar_expires_at a, av_status = ar_status a,
     av_resolved_by = ar_resolved_by a, av_resolved_at = ar_resolved_at a,
     av_decision_reason = ar_decision_reason a\<rparr>"

record ApprovalDecisionView =
  dv_approval :: ApprovalView
  dv_workflow_run :: WorkflowRunView

record ApprovalPageView =
  pa_approvals :: "ApprovalView list"
  pa_total :: nat
  pa_offset :: int
  pa_limit :: int

record ExecutionEventView =
  vw_id :: string
  vw_sequence :: int
  vw_event_type :: ExecutionEventType
  vw_severity :: EventSeverity
  vw_payload :: pymap
  vw_occurred_at :: datetime
  vw_agent_session_id :: "string option"
  vw_step_run_id :: "string option"
  vw_correlation_id :: "string option"
  vw_causation_id :: "string option"

definition event_view :: "ExecutionEvent \<Rightarrow> ExecutionEventView" where
  "event_view e = \<lparr>vw_id = ev_id e, vw_sequence = ev_sequence e, vw_event_type = ev_event_type e,
     vw_severity = ev_severity e, vw_payload = thaw_map (ev_payload e), vw_occurred_at = ev_occurred_at e,
     vw_agent_session_id = ev_agent_session_id e, vw_step_run_id = ev_step_run_id e,
     vw_correlation_id = ev_correlation_id e, vw_causation_id = ev_causation_id e\<rparr>"

record WorkflowStepDefinitionView =
  sd_id :: string
  sd_kind :: string
  sd_needs :: "string list"
  sd_uses :: "string option"
  sd_input_mapping :: pymap
  sd_timeout_seconds :: int
  sd_max_attempts :: int
  sd_approval_policy :: "string option"

record WorkflowDefinitionView =
  dw_id :: string
  dw_version :: string
  dw_name :: string
  dw_schema_version :: string
  dw_input_schema :: pymap
  dw_outputs :: pymap
  dw_steps :: "WorkflowStepDefinitionView list"

fun step_kind_value :: "WorkflowStepKind \<Rightarrow> string" where
  "step_kind_value Kind_SKILL = ''skill''"
| "step_kind_value Kind_APPROVAL = ''approval''"

definition definition_view :: "Workflow \<Rightarrow> WorkflowDefinitionView" where
  "definition_view w = \<lparr>dw_id = wf_id w, dw_version = wf_version w, dw_name = wf_name w,
     dw_schema_version = wf_schema_version w, dw_input_schema = plain_map (wf_input_schema w),
     dw_outputs = plain_map (wf_outputs w),
     dw_steps = map (\<lambda>s. \<lparr>sd_id = ws_id s, sd_kind = step_kind_value (ws_kind s), sd_needs = ws_needs s,
       sd_uses = ws_uses s, sd_input_mapping = plain_map (ws_input_mapping s),
       sd_timeout_seconds = ws_timeout_seconds s, sd_max_attempts = ws_max_attempts s,
       sd_approval_policy = ws_approval_policy s\<rparr>) (wf_steps w)\<rparr>"

record ArtifactView =
  tv_id :: string
  tv_logical_name :: string
  tv_version :: int
  tv_kind :: string
  tv_checksum :: string
  tv_media_type :: string
  tv_size :: int
  tv_producer_run_id :: "string option"
  tv_producer_step_run_id :: "string option"
  tv_metadata :: pymap
  tv_created_at :: datetime

definition artifact_view :: "ArtifactMetadata \<Rightarrow> ArtifactView" where
  "artifact_view a = \<lparr>tv_id = am_id a, tv_logical_name = am_logical_name a, tv_version = am_version a,
     tv_kind = am_kind a, tv_checksum = am_checksum a, tv_media_type = am_media_type a, tv_size = am_size a,
     tv_producer_run_id = am_producer_run_id a, tv_producer_step_run_id = am_producer_step_run_id a,
     tv_metadata = plain_map (am_metadata a), tv_created_at = am_created_at a\<rparr>"

record ArtifactContentView =
  tc_artifact :: ArtifactView
  tc_content :: string

section \<open>Lemmas\<close>

lemma ordered_step_runs_total:
  assumes "\<And>s. s \<in> set (ex_step_runs x) \<Longrightarrow> sr_step_id s \<in> set (workflow_step_ids (ex_workflow x))"
  shows "\<exists>ss. ordered_step_runs x = Inr ss \<and> set ss = set (ex_step_runs x)"
proof -
  have "\<exists>y. bindR (workflow_get_step (ex_workflow x) (sr_step_id s))
      (\<lambda>ws. Inr ((step_index ws (wf_steps (ex_workflow x)), sr_attempt s), s)) = Inr y"
    if "s \<in> set (ex_step_runs x)" for s
    using assms [OF that] by (auto simp: workflow_get_step_def find_None_iff workflow_step_ids_def split: option.splits)
  then obtain keyed where k: "mapR (\<lambda>s. bindR (workflow_get_step (ex_workflow x) (sr_step_id s))
      (\<lambda>ws. Inr ((step_index ws (wf_steps (ex_workflow x)), sr_attempt s), s))) (ex_step_runs x) = Inr keyed"
    using mapR_total [of "ex_step_runs x"] by meson
  have "map snd keyed = ex_step_runs x"
    using k by (auto simp: mapR_Inr_iff bindR_Inr_iff list_all2_conv_all_nth intro!: nth_equalityI) (metis snd_conv)
  moreover have "set (map snd (sort_key fst keyed)) = set (map snd keyed)" by simp
  ultimately show ?thesis using k by (simp add: ordered_step_runs_def)
qed

end
