(* ===== verification/Application_Services.thy ===== *)
theory Application_Services
  imports Application_Views
begin

text \<open>
  The use cases of \<^verbatim>\<open>backend/application/services\<close>, their transaction boundaries and their
  error handling, over the runtime of \<^verbatim>\<open>Agent_Runtime\<close>; \<open>SyncExecutionDispatcher\<close> runs the
  runtime in place.

  One unit of work, one coordinator and one clock serve all of them, as
  \<^verbatim>\<open>backend/api/composition.py\<close> builds them, so a service is an effect on the state of the
  runtime. The content storage of artifacts, the hash of bytes and the hash of a definition are
  fields of \<open>service_env\<close>.
\<close>

section \<open>Errors\<close>

text \<open>\<open>WorkflowEngineError\<close> is a subclass of \<open>DomainError\<close>.\<close>

fun is_WorkflowEngineError :: "py_exc \<Rightarrow> bool" where
  "is_WorkflowEngineError (InvalidWorkflowDefinitionError _) = True"
| "is_WorkflowEngineError (InvalidReferenceError _) = True"
| "is_WorkflowEngineError (InvalidRetryPolicyError _) = True"
| "is_WorkflowEngineError (WorkflowStateError _) = True"
| "is_WorkflowEngineError (StaleDecisionError _) = True"
| "is_WorkflowEngineError _ = False"

fun is_DomainError :: "py_exc \<Rightarrow> bool" where
  "is_DomainError (DomainValidationError _) = True"
| "is_DomainError (InvalidStateTransition _ _ _ _) = True"
| "is_DomainError (CheckpointIntegrityError _) = True"
| "is_DomainError (CheckpointMismatchError _) = True"
| "is_DomainError (ExecutionNotResumableError _) = True"
| "is_DomainError (StepRunNotFoundError _) = True"
| "is_DomainError e = is_WorkflowEngineError e"

fun is_PersistenceError :: "py_exc \<Rightarrow> bool" where
  "is_PersistenceError (StaleStateError _) = True"
| "is_PersistenceError (DuplicateEntityError _) = True"
| "is_PersistenceError _ = False"

fun is_ExecutionNotResumableError :: "py_exc \<Rightarrow> bool" where
  "is_ExecutionNotResumableError (ExecutionNotResumableError _) = True"
| "is_ExecutionNotResumableError _ = False"

fun is_AgentRuntimeError :: "py_exc \<Rightarrow> bool" where
  "is_AgentRuntimeError (AgentRuntimeError _) = True"
| "is_AgentRuntimeError _ = False"

fun is_ApplicationValidationError :: "py_exc \<Rightarrow> bool" where
  "is_ApplicationValidationError (ApplicationValidationError _) = True"
| "is_ApplicationValidationError (ApplicationCodedValidationError _ _) = True"
| "is_ApplicationValidationError _ = False"

fun is_ApplicationConflictError :: "py_exc \<Rightarrow> bool" where
  "is_ApplicationConflictError (ApplicationConflictError _) = True"
| "is_ApplicationConflictError (ApplicationCodedConflictError _ _) = True"
| "is_ApplicationConflictError _ = False"

record service_env =
  se_runtime :: runtime_env
  se_storage :: "(string \<Rightarrow> string res) option"
  se_sha_bytes :: "string \<Rightarrow> string"
  se_definition_hash :: "Workflow \<Rightarrow> string"

text \<open>\<open>self.uow.rollback(); raise e\<close>\<close>

definition rolled_back :: "py_exc \<Rightarrow> (runtime, 'a) op" where
  "rolled_back e = thenE (on_store memory_rollback) (raiseE e)"

section \<open>Loading\<close>

definition app_load_execution :: "memory_uow \<Rightarrow> string \<Rightarrow> ExecutionState res" where
  "app_load_execution u run_id =
     bindR (workflow_get u run_id)
     (\<lambda>found. case found of
        None \<Rightarrow> Inl (ApplicationNotFoundError (''WorkflowRun '' @ run_id @ '' was not found''))
      | Some x \<Rightarrow> Inr (x\<lparr>ex_checkpoints := ex_checkpoints x @ checkpoint_list u run_id\<rparr>))"

definition load_run_view :: "memory_uow \<Rightarrow> string \<Rightarrow> WorkflowRunView res" where
  "load_run_view u run_id = bindR (app_load_execution u run_id) workflow_run_view"

section \<open>Creating a run\<close>

definition build_step :: "StepSpec \<Rightarrow> WorkflowStep res" where
  "build_step s = workflow_step_post_init
     \<lparr>ws_id = sp_id s, ws_kind = sp_kind s, ws_needs = sp_needs s, ws_uses = sp_uses s,
      ws_input_mapping = sp_input_mapping s, ws_timeout_seconds = sp_timeout_seconds s,
      ws_max_attempts = sp_max_attempts s, ws_retry_backoff = sp_retry_backoff s,
      ws_retry_initial_seconds = sp_retry_initial_seconds s, ws_retry_max_seconds = sp_retry_max_seconds s,
      ws_checkpoint_policy = sp_checkpoint_policy s, ws_approval_policy = sp_approval_policy s\<rparr>"

definition build_workflow :: "CreateWorkflowRunCommand \<Rightarrow> Workflow res" where
  "build_workflow c = (let w = cr_workflow c in
     bindR (mapR build_step (wp_steps w))
     (\<lambda>steps. workflow_post_init \<lparr>wf_id = wp_id w, wf_version = wp_version w, wf_name = wp_name w,
        wf_steps = steps, wf_schema_version = wp_schema_version w, wf_input_schema = wp_input_schema w,
        wf_outputs = wp_outputs w\<rparr>))"

text \<open>Equality of the frozen dataclasses \<open>WorkflowStep\<close> and \<open>Workflow\<close>, field by field.\<close>

definition step_eq :: "WorkflowStep \<Rightarrow> WorkflowStep \<Rightarrow> bool" where
  "step_eq s t \<longleftrightarrow> py_eq (VProxy (ws_input_mapping s)) (VProxy (ws_input_mapping t)) \<and>
     s\<lparr>ws_input_mapping := []\<rparr> = t\<lparr>ws_input_mapping := []\<rparr>"

definition workflow_eq :: "Workflow \<Rightarrow> Workflow \<Rightarrow> bool" where
  "workflow_eq v w \<longleftrightarrow> wf_id v = wf_id w \<and> wf_version v = wf_version w \<and> wf_name v = wf_name w \<and>
     length (wf_steps v) = length (wf_steps w) \<and>
     (\<forall>(s, t) \<in> set (zip (wf_steps v) (wf_steps w)). step_eq s t) \<and>
     wf_schema_version v = wf_schema_version w \<and>
     py_eq (VProxy (wf_input_schema v)) (VProxy (wf_input_schema w)) \<and>
     py_eq (VProxy (wf_outputs v)) (VProxy (wf_outputs w))"

definition verify_idempotent_request ::
  "ExecutionState \<Rightarrow> CreateWorkflowRunCommand \<Rightarrow> Workflow \<Rightarrow> unit res" where
  "verify_idempotent_request x c w =
     (let run = ex_workflow_run x in
      guardR (\<not> workflow_eq (ex_workflow x) w \<or> wr_actor_user_id run \<noteq> cr_actor_user_id c \<or>
              as_agent_profile_ref (ex_agent_session x) \<noteq> cr_agent_profile_ref c \<or>
              \<not> py_eq (VDict (wr_inputs run)) (VDict (cr_inputs c)))
        (ApplicationConflictError ''Idempotency key is already associated with a different run request''))"

text \<open>
  \<open>self.domain.create_workflow_run(...)\<close>: the aggregate becomes the one the service works on. When
  creation raises, the readings of clock and factory made so far are not counted.
\<close>

definition create_aggregate :: "service_env \<Rightarrow> CreateWorkflowRunCommand \<Rightarrow> Workflow \<Rightarrow> (runtime, unit) op" where
  "create_aggregate env c w =
     updE (\<lambda>s. bindR (create_workflow_run (re_coord (se_runtime env)) w (cr_project_id c) (cr_actor_user_id c)
         (cr_idempotency_key c) (VDict (cr_inputs c)) (cr_agent_profile_ref c)
         (w_ticks (rt_world s)) (w_ids (rt_world s)))
       (\<lambda>made. Inr (s\<lparr>rt_world := made\<rparr>)))"

definition create_body :: "service_env \<Rightarrow> CreateWorkflowRunCommand \<Rightarrow> Workflow \<Rightarrow> (runtime, WorkflowRunView) op" where
  "create_body env c w =
     thenE (create_aggregate env c w)
     (bindE (getsE exec_of)
     (\<lambda>x. thenE (on_uow (workflow_save x None))
     (bindE (readE (\<lambda>_. latest_checkpoint x))
     (\<lambda>p. thenE (on_uow (checkpoint_save (sha_of (se_runtime env)) p Bound_BASELINE None None))
       (thenE (commit_store (se_runtime env))
         (readE (\<lambda>_. workflow_run_view x)))))))"

definition create_handler :: "py_exc \<Rightarrow> (runtime, 'a) op" where
  "create_handler e =
     (if is_DomainError e then rolled_back (ApplicationValidationError (exc_str e))
      else if is_PersistenceError e then rolled_back (ApplicationConflictError (exc_str e))
      else rolled_back e)"

definition checked_workflow :: "CreateWorkflowRunCommand \<Rightarrow> Workflow res" where
  "checked_workflow c =
     bindR (build_workflow c) (\<lambda>w. bindR (workflow_from_domain w) (\<lambda>d. bindR (validate d) (\<lambda>_. Inr w)))"

definition create_execute :: "service_env \<Rightarrow> CreateWorkflowRunCommand \<Rightarrow> (runtime, WorkflowRunView) op" where
  "create_execute env c =
     bindE (tryE (readE (\<lambda>_. checked_workflow c))
       (\<lambda>e. if is_DomainError e then rolled_back (ApplicationValidationError (exc_str e)) else raiseE e))
     (\<lambda>w. bindE (readE (\<lambda>s. workflow_get_by_idempotency_key (rt_uow s) (cr_project_id c) (cr_idempotency_key c)))
     (\<lambda>existing. case existing of
        Some x \<Rightarrow>
          thenE (readE (\<lambda>_. verify_idempotent_request x c w))
          (readE (\<lambda>s. workflow_run_view
             (x\<lparr>ex_checkpoints := ex_checkpoints x @ checkpoint_list (rt_uow s) (wr_id (ex_workflow_run x))\<rparr>)))
      | None \<Rightarrow> tryE (create_body env c w) create_handler))"

section \<open>Creating a run from the catalog\<close>

definition spec_of_step :: "WorkflowStep \<Rightarrow> StepSpec" where
  "spec_of_step s = \<lparr>sp_id = ws_id s, sp_kind = ws_kind s, sp_needs = ws_needs s, sp_uses = ws_uses s,
     sp_input_mapping = ws_input_mapping s, sp_timeout_seconds = ws_timeout_seconds s,
     sp_max_attempts = ws_max_attempts s, sp_retry_backoff = ws_retry_backoff s,
     sp_retry_initial_seconds = ws_retry_initial_seconds s, sp_retry_max_seconds = ws_retry_max_seconds s,
     sp_checkpoint_policy = ws_checkpoint_policy s, sp_approval_policy = ws_approval_policy s\<rparr>"

definition spec_of_workflow :: "Workflow \<Rightarrow> WorkflowSpec" where
  "spec_of_workflow w = \<lparr>wp_id = wf_id w, wp_version = wf_version w, wp_name = wf_name w,
     wp_steps = map spec_of_step (wf_steps w), wp_schema_version = wf_schema_version w,
     wp_input_schema = wf_input_schema w, wp_outputs = wf_outputs w\<rparr>"

definition catalog_command :: "service_env \<Rightarrow> CreateCatalogWorkflowRunCommand \<Rightarrow> Workflow \<Rightarrow> CreateWorkflowRunCommand" where
  "catalog_command env c w =
     (let h = se_definition_hash env w in
      \<lparr>cr_project_id = cc_project_id c, cr_actor_user_id = cc_actor_user_id c,
       cr_idempotency_key = cc_idempotency_key c, cr_agent_profile_ref = cc_agent_profile_ref c,
       cr_workflow = spec_of_workflow w,
       cr_inputs = dict_set ''workflow_hash'' (VStr (if startswith h ''sha256:'' then h else ''sha256:'' @ h))
         (cc_inputs c)\<rparr>)"

definition catalog_execute ::
  "service_env \<Rightarrow> CreateCatalogWorkflowRunCommand \<Rightarrow> (runtime, WorkflowRunView) op" where
  "catalog_execute env c =
     bindE (getsE (\<lambda>s. find (\<lambda>w. wf_id w = cc_workflow_id c \<and> wf_version w = cc_workflow_version c)
              (workflow_list_definitions (rt_uow s))))
     (\<lambda>found. case found of
        None \<Rightarrow> raiseE (ApplicationValidationError
          (''Catalog workflow '' @ cc_workflow_id c @ ''@'' @ cc_workflow_version c @ '' was not found''))
      | Some w \<Rightarrow>
          if ''workflow_hash'' \<in> fst ` set (cc_inputs c) then
            raiseE (ApplicationValidationError ''workflow_hash is server-owned and cannot be supplied by clients'')
          else create_execute env (catalog_command env c w))"

section \<open>Reading, resuming, cancelling\<close>

definition get_run_execute :: "string \<Rightarrow> (runtime, WorkflowRunView) op" where
  "get_run_execute run_id = readE (\<lambda>s. load_run_view (rt_uow s) run_id)"

text \<open>\<open>SyncExecutionDispatcher.submit\<close>\<close>

record ExecutionRequest =
  er_workflow_run_id :: string
  er_approval_outcome :: "ApprovalOutcome option"
  er_approval_outputs :: "pymap option"

definition dispatch :: "service_env \<Rightarrow> ExecutionRequest \<Rightarrow> (runtime, RuntimeResult) op" where
  "dispatch env r = agent_run (se_runtime env) (Inr (er_workflow_run_id r)) (er_approval_outcome r) (er_approval_outputs r)"

definition resume_handler :: "py_exc \<Rightarrow> (runtime, 'a) op" where
  "resume_handler e =
     (if is_ApplicationConflictError e then raiseE e
      else if is_ExecutionNotResumableError e \<or> is_WorkflowEngineError e \<or> is_AgentRuntimeError e \<or>
              is_PersistenceError e then rolled_back (ApplicationConflictError (exc_str e))
      else rolled_back e)"

definition resume_execute :: "service_env \<Rightarrow> string \<Rightarrow> (runtime, WorkflowRunView) op" where
  "resume_execute env run_id =
     thenE (readE (\<lambda>s. app_load_execution (rt_uow s) run_id))
     (tryE (thenE (dispatch env \<lparr>er_workflow_run_id = run_id, er_approval_outcome = None, er_approval_outputs = None\<rparr>)
         (readE (\<lambda>s. load_run_view (rt_uow s) run_id)))
       resume_handler)"

definition cancel_handler :: "py_exc \<Rightarrow> (runtime, 'a) op" where
  "cancel_handler e =
     (if is_ExecutionNotResumableError e then rolled_back (ApplicationConflictError (exc_str e))
      else if is_DomainError e then rolled_back (ApplicationValidationError (exc_str e))
      else if is_PersistenceError e then rolled_back (ApplicationConflictError (exc_str e))
      else rolled_back e)"

definition cancel_body :: "service_env \<Rightarrow> int \<Rightarrow> (runtime, WorkflowRunView) op" where
  "cancel_body env expected_version =
     (let coord = re_coord (se_runtime env) in
      bindE (on_world (create_checkpoint coord))
      (\<lambda>before. thenE (on_uow (checkpoint_save (ce_sha256 coord) before Bound_BEFORE_TERMINAL None None))
      (bindE (on_world (cancel_execution coord))
      (\<lambda>terminal. thenE (on_uow (checkpoint_save (ce_sha256 coord) terminal Bound_TERMINAL None None))
      (bindE (getsE exec_of)
      (\<lambda>x. thenE (on_uow (workflow_save x (Some expected_version)))
        (thenE (commit_store (se_runtime env))
          (readE (\<lambda>_. workflow_run_view x)))))))))"

definition cancel_execute :: "service_env \<Rightarrow> string \<Rightarrow> (runtime, WorkflowRunView) op" where
  "cancel_execute env run_id =
     bindE (readE (\<lambda>s. app_load_execution (rt_uow s) run_id))
     (\<lambda>x. if run_is_terminal (wr_status (ex_workflow_run x)) then readE (\<lambda>_. workflow_run_view x)
       else bindE (getsE (\<lambda>s. workflow_get_version (rt_uow s) run_id))
       (\<lambda>expected. case expected of
          None \<Rightarrow> raiseE (ApplicationConflictError (''WorkflowRun '' @ run_id @ '' has no persistence version''))
        | Some v \<Rightarrow> thenE (modifyE (\<lambda>s. s\<lparr>rt_world := (rt_world s)\<lparr>w_exec := x\<rparr>\<rparr>))
            (tryE (cancel_body env v) cancel_handler)))"

section \<open>Artifacts\<close>

definition gateway_list_for_run :: "memory_uow \<Rightarrow> string \<Rightarrow> string \<Rightarrow> ArtifactMetadata list" where
  "gateway_list_for_run u project_id run_id =
     filter (\<lambda>a. am_producer_run_id a = Some run_id) (artifact_list_for_project u project_id)"

definition read_verified :: "service_env \<Rightarrow> (string \<Rightarrow> string res) \<Rightarrow> memory_uow \<Rightarrow> string \<Rightarrow> string res" where
  "read_verified env storage u artifact_id =
     (case artifact_get u artifact_id of
        None \<Rightarrow> Inl (ArtifactGatewayError (''Artifact '' @ artifact_id @ '' was not found''))
      | Some a \<Rightarrow>
          bindR (storage (am_storage_ref a))
          (\<lambda>content. bindR (guardR (int (length content) \<noteq> am_size a \<or>
               ''sha256:'' @ se_sha_bytes env content \<noteq> am_checksum a)
             (ArtifactGatewayError (''Artifact '' @ artifact_id @ '' failed checksum or size verification'')))
           (\<lambda>_. Inr content)))"

text \<open>\<open>except ArtifactGatewayError\<close>\<close>

definition gateway_conflict :: "string \<Rightarrow> 'a res \<Rightarrow> 'a res" where
  "gateway_conflict message r = (case r of Inl (ArtifactGatewayError _) \<Rightarrow> Inl (ApplicationConflictError message) | _ \<Rightarrow> r)"

definition list_artifacts_execute :: "string \<Rightarrow> (runtime, ArtifactView list) op" where
  "list_artifacts_execute run_id =
     readE (\<lambda>s. bindR (app_load_execution (rt_uow s) run_id)
       (\<lambda>x. Inr (map artifact_view (gateway_list_for_run (rt_uow s) (wr_project_id (ex_workflow_run x)) run_id))))"

definition get_artifact_execute :: "string \<Rightarrow> (runtime, ArtifactView) op" where
  "get_artifact_execute artifact_id =
     readE (\<lambda>s. case artifact_get (rt_uow s) artifact_id of
        None \<Rightarrow> Inl (ApplicationNotFoundError (''Artifact '' @ artifact_id @ '' was not found''))
      | Some a \<Rightarrow> Inr (artifact_view a))"

definition read_content_execute ::
  "service_env \<Rightarrow> (string \<Rightarrow> string res) \<Rightarrow> string \<Rightarrow> (runtime, ArtifactContentView) op" where
  "read_content_execute env storage artifact_id =
     readE (\<lambda>s. case artifact_get (rt_uow s) artifact_id of
        None \<Rightarrow> Inl (ApplicationNotFoundError (''Artifact '' @ artifact_id @ '' was not found''))
      | Some a \<Rightarrow>
          bindR (gateway_conflict (''Artifact '' @ artifact_id @ '' failed integrity verification'')
                  (read_verified env storage (rt_uow s) artifact_id))
          (\<lambda>content. Inr \<lparr>tc_artifact = artifact_view a, tc_content = content\<rparr>))"

section \<open>Queries\<close>

definition validate_page :: "int \<Rightarrow> int \<Rightarrow> unit res" where
  "validate_page offset limit =
     bindR (guardR (offset < 0) (ApplicationValidationError ''offset cannot be negative''))
     (\<lambda>_. guardR (limit \<le> 0 \<or> limit > 100) (ApplicationValidationError ''limit must be between 1 and 100''))"

definition list_runs_execute ::
  "WorkflowRunStatus option \<Rightarrow> int \<Rightarrow> int \<Rightarrow> (runtime, WorkflowRunPageView) op" where
  "list_runs_execute status offset limit =
     readE (\<lambda>s. bindR (validate_page offset limit)
       (\<lambda>_. bindR (workflow_list_runs (rt_uow s) status offset limit)
       (\<lambda>xs. Inr \<lparr>pg_runs = map run_summary_view xs, pg_total = workflow_count_runs (rt_uow s) status,
          pg_offset = offset, pg_limit = limit\<rparr>)))"

definition list_events_execute :: "string \<Rightarrow> (runtime, ExecutionEventView list) op" where
  "list_events_execute run_id =
     readE (\<lambda>s. bindR (app_load_execution (rt_uow s) run_id)
       (\<lambda>x. Inr (map event_view (event_list_for_run (rt_uow s)
          (wr_project_id (ex_workflow_run x), wr_id (ex_workflow_run x))))))"

definition list_approvals_execute ::
  "ApprovalRequestStatus option \<Rightarrow> int \<Rightarrow> int \<Rightarrow> (runtime, ApprovalPageView) op" where
  "list_approvals_execute status offset limit =
     readE (\<lambda>s. bindR (validate_page offset limit)
       (\<lambda>_. bindR (approval_list_requests (rt_uow s) status offset limit)
       (\<lambda>as. Inr \<lparr>pa_approvals = map approval_view as, pa_total = approval_count_requests (rt_uow s) status,
          pa_offset = offset, pa_limit = limit\<rparr>)))"

definition list_workflows_execute :: "(runtime, WorkflowDefinitionView list) op" where
  "list_workflows_execute = getsE (\<lambda>s. map definition_view (workflow_list_definitions (rt_uow s)))"

section \<open>Deciding an approval\<close>

definition verify_waiting_execution :: "ExecutionState \<Rightarrow> ApprovalRequest \<Rightarrow> unit res" where
  "verify_waiting_execution x a =
     (let run = ex_workflow_run x in
      bindR (guardR (wr_project_id run \<noteq> ar_project_id a)
        (ApplicationConflictError ''ApprovalRequest project does not match its WorkflowRun''))
      (\<lambda>_. bindR (guardR (wr_status run \<noteq> Run_WAITING_FOR_APPROVAL)
        (ApplicationConflictError (''WorkflowRun '' @ wr_id run @ '' is not waiting for approval'')))
      (\<lambda>_. bindR (current_step_runs x)
      (\<lambda>cur. guardR (case filter (\<lambda>i. sr_status (ex_step_runs x ! i) = Step_WAITING_APPROVAL) cur of
            [i] \<Rightarrow> sr_id (ex_step_runs x ! i) \<noteq> ar_step_run_id a | _ \<Rightarrow> True)
        (ApplicationConflictError ''ApprovalRequest does not identify the current waiting step'')))))"

text \<open>\<open>item.get("paper_id")\<close> for the mappings of a sequence.\<close>

definition preview_ids :: "pyval list \<Rightarrow> pyval list" where
  "preview_ids preview = concat (map (\<lambda>v. case as_mapping v of
     None \<Rightarrow> [] | Some m \<Rightarrow> [case map_of m ''paper_id'' of None \<Rightarrow> VNone | Some i \<Rightarrow> i]) preview)"

fun as_str :: "pyval \<Rightarrow> string option" where
  "as_str (VStr s) = Some s"
| "as_str _ = None"

definition lookup_str :: "pymap \<Rightarrow> string \<Rightarrow> string option" where
  "lookup_str m k = Option.bind (map_of m k) as_str"

definition lookup_sequence :: "pymap \<Rightarrow> string \<Rightarrow> pyval list option" where
  "lookup_sequence m k = Option.bind (map_of m k) as_sequence"

definition verify_bound_artifact ::
  "service_env \<Rightarrow> (string \<Rightarrow> string res) \<Rightarrow> memory_uow \<Rightarrow> pymap \<Rightarrow> pymap \<Rightarrow> unit res" where
  "verify_bound_artifact env storage u resolved_inputs bound =
     (case (lookup_str bound ''artifact_id'', lookup_str bound ''checksum'',
            lookup_sequence resolved_inputs ''selected_paper_ids'', lookup_sequence resolved_inputs ''approval_preview'') of
        (Some artifact_id, Some checksum, Some selected_ids, Some preview) \<Rightarrow>
          bindR (guardR (\<not> py_eq (VList (preview_ids preview)) (VList selected_ids))
            (ApplicationConflictError ''Approval candidate preview no longer matches selected paper IDs''))
          (\<lambda>_. bindR (guardR (map_option am_checksum (artifact_get u artifact_id) \<noteq> Some checksum)
            (ApplicationConflictError ''Approval-bound selected-paper artifact metadata changed''))
          (\<lambda>_. bindR (gateway_conflict ''Approval-bound selected-paper artifact failed integrity verification''
                 (read_verified env storage u artifact_id))
          (\<lambda>content. guardR (checksum \<noteq> ''sha256:'' @ se_sha_bytes env content)
            (ApplicationConflictError ''Approval-bound selected-paper artifact checksum changed''))))
      | _ \<Rightarrow> Inl (ApplicationConflictError ''Approval-bound selected-paper artifact is incomplete''))"

definition verify_bound_candidate_artifact :: "service_env \<Rightarrow> memory_uow \<Rightarrow> ApprovalRequest \<Rightarrow> unit res" where
  "verify_bound_candidate_artifact env u a =
     (case se_storage env of
        None \<Rightarrow> Inr ()
      | Some storage \<Rightarrow>
          (case (case map_of (ar_requested_action a) ''resolved_inputs'' of
                   None \<Rightarrow> Some [] | Some v \<Rightarrow> as_mapping v) of
             None \<Rightarrow> Inr ()
           | Some resolved_inputs \<Rightarrow>
               (case Option.bind (map_of resolved_inputs ''selected_papers_artifact'') as_mapping of
                  None \<Rightarrow> Inr ()
                | Some bound \<Rightarrow> verify_bound_artifact env storage u resolved_inputs bound)))"

text \<open>A method of the request: the object it leaves behind is the one the service goes on with.\<close>

definition on_request :: "(ApprovalRequest, unit) op \<Rightarrow> ApprovalRequest \<Rightarrow> ('s, ApprovalRequest) op" where
  "on_request m a = readE (\<lambda>_. case m a of (Inl e, _) \<Rightarrow> Inl e | (Inr _, a') \<Rightarrow> Inr a')"

definition decision_view :: "ApprovalRequest \<Rightarrow> (runtime, ApprovalDecisionView) op" where
  "decision_view a =
     readE (\<lambda>s. bindR (load_run_view (rt_uow s) (ar_workflow_run_id a))
       (\<lambda>v. Inr \<lparr>dv_approval = approval_view a, dv_workflow_run = v\<rparr>))"

definition approval_outputs_of :: "ApprovalRequest \<Rightarrow> pymap" where
  "approval_outputs_of a =
     [(''approval_request_id'', VStr (ar_id a)), (''approval_fingerprint'', VStr (ar_request_fingerprint a)),
      (''approval_status'', VStr (approval_status_value (ar_status a))),
      (''resolved_at'', (case ar_resolved_at a of None \<Rightarrow> VNone | Some t \<Rightarrow> VStr (isoformat t)))]"

definition decide_request ::
  "service_env \<Rightarrow> ApprovalDecisionCommand \<Rightarrow> ApprovalRequest \<Rightarrow> (runtime, ApprovalRequest \<times> ApprovalOutcome) op" where
  "decide_request env c a =
     (case ad_decision c of
        Decide_APPROVE \<Rightarrow>
          (case ad_current_fingerprint c of
             None \<Rightarrow> raiseE (ApplicationValidationError ''current_fingerprint is required for approval'')
           | Some fingerprint \<Rightarrow>
               thenE (readE (\<lambda>s. verify_bound_candidate_artifact env (rt_uow s) a))
               (bindE (runtime_clock (se_runtime env))
               (\<lambda>now. bindE (on_request (approve (ad_resolved_by c) (ad_decision_idempotency_key c) fingerprint
                    \<lparr>da_utc = now, da_at = Some now, da_reason = ad_reason c, da_metadata = Some (ad_metadata c)\<rparr>) a)
                 (\<lambda>b. returnE (b, Outcome_APPROVED)))))
      | Decide_REJECT \<Rightarrow>
          bindE (runtime_clock (se_runtime env))
          (\<lambda>now. bindE (on_request (reject (ad_resolved_by c) (ad_decision_idempotency_key c)
               \<lparr>da_utc = now, da_at = Some now, da_reason = ad_reason c, da_metadata = Some (ad_metadata c)\<rparr>) a)
            (\<lambda>b. returnE (b, Outcome_REJECTED))))"

text \<open>The staged request and the resumed run; the runtime commits both.\<close>

definition save_and_resume ::
  "service_env \<Rightarrow> int \<Rightarrow> ApprovalRequest \<Rightarrow> ApprovalOutcome \<Rightarrow> (runtime, ApprovalDecisionView) op" where
  "save_and_resume env expected_version a outcome =
     thenE (on_uow (approval_save a (Some expected_version)))
     (thenE (dispatch env \<lparr>er_workflow_run_id = ar_workflow_run_id a, er_approval_outcome = Some outcome,
          er_approval_outputs = (if outcome = Outcome_APPROVED then Some (approval_outputs_of a) else None)\<rparr>)
       (decision_view a))"

definition decide_handler :: "py_exc \<Rightarrow> (runtime, 'a) op" where
  "decide_handler e =
     (if is_ApplicationValidationError e then rolled_back e
      else if is_DomainError e then rolled_back (ApplicationValidationError (exc_str e))
      else if is_WorkflowEngineError e \<or> is_AgentRuntimeError e \<or> is_PersistenceError e then
        rolled_back (ApplicationConflictError (exc_str e))
      else rolled_back e)"

definition expire_handler :: "py_exc \<Rightarrow> (runtime, 'a) op" where
  "expire_handler e =
     (if is_DomainError e \<or> is_WorkflowEngineError e then rolled_back (ApplicationValidationError (exc_str e))
      else if is_AgentRuntimeError e \<or> is_PersistenceError e then rolled_back (ApplicationConflictError (exc_str e))
      else rolled_back e)"

definition waiting_version :: "ApprovalRequest \<Rightarrow> (runtime, int) op" where
  "waiting_version a =
     bindE (readE (\<lambda>s. app_load_execution (rt_uow s) (ar_workflow_run_id a)))
     (\<lambda>x. thenE (readE (\<lambda>_. verify_waiting_execution x a))
     (bindE (getsE (\<lambda>s. approval_get_version (rt_uow s) (ar_id a)))
     (\<lambda>expected. case expected of
        None \<Rightarrow> raiseE (ApplicationConflictError (''ApprovalRequest '' @ ar_id a @ '' has no persistence version''))
      | Some v \<Rightarrow> returnE v)))"

definition expire_and_cancel :: "service_env \<Rightarrow> ApprovalRequest \<Rightarrow> (runtime, ApprovalDecisionView) op" where
  "expire_and_cancel env a =
     bindE (waiting_version a)
     (\<lambda>v. tryE (bindE (runtime_clock (se_runtime env))
           (\<lambda>now. bindE (on_request (expire \<lparr>da_utc = now, da_at = Some now,
                da_reason = Some ''Approval request expired'', da_metadata = Some [(''policy'', VStr ''cancel'')]\<rparr>) a)
             (\<lambda>b. save_and_resume env v b Outcome_EXPIRED)))
         expire_handler)"

text \<open>\<open>approval.status is PENDING and approval.expires_at is not None and self.clock() >= approval.expires_at\<close>\<close>

definition past_deadline :: "service_env \<Rightarrow> ApprovalRequest \<Rightarrow> (runtime, bool) op" where
  "past_deadline env a =
     (if ar_status a = Approval_PENDING then
        (case ar_expires_at a of
           None \<Rightarrow> returnE False
         | Some x \<Rightarrow> bindE (runtime_clock (se_runtime env)) (\<lambda>now. readE (\<lambda>_. dt_le x now)))
      else returnE False)"

fun decision_target :: "ApprovalDecision \<Rightarrow> ApprovalRequestStatus" where
  "decision_target Decide_APPROVE = Approval_APPROVED"
| "decision_target Decide_REJECT = Approval_REJECTED"

definition decide_execute ::
  "service_env \<Rightarrow> ApprovalDecisionCommand \<Rightarrow> (runtime, ApprovalDecisionView) op" where
  "decide_execute env c =
     bindE (readE (\<lambda>s. approval_get (rt_uow s) (ad_approval_id c)))
     (\<lambda>found. case found of
        None \<Rightarrow> raiseE (ApplicationNotFoundError (''ApprovalRequest '' @ ad_approval_id c @ '' was not found''))
      | Some a \<Rightarrow>
          bindE (past_deadline env a)
          (\<lambda>late. if late then expire_and_cancel env a
            else if approval_is_terminal (ar_status a) then
              (if ar_status a = decision_target (ad_decision c) \<and>
                  ar_decision_idempotency_key a = Some (ad_decision_idempotency_key c) then decision_view a
               else raiseE (ApplicationConflictError
                 (''ApprovalRequest '' @ ar_id a @ '' is already '' @ approval_status_value (ar_status a))))
            else bindE (waiting_version a)
              (\<lambda>v. tryE (bindE (decide_request env c a) (\<lambda>(b, outcome). save_and_resume env v b outcome))
                decide_handler)))"

end
