(* ===== verification/Application_Claims.thy ===== *)
theory Application_Claims
  imports Application_Services Runtime_Claims
begin

text \<open>
  Properties of the application services: a repeated request to create a run returns the run,
  a cancellation is committed as a whole or not at all, and an approval is committed together
  with the step it releases.
\<close>

section \<open>Frozen values compare equal\<close>

fun list_free :: "pyval \<Rightarrow> bool" where
  "list_free (VList xs) \<longleftrightarrow> False"
| "list_free (VTuple xs) \<longleftrightarrow> (\<forall>x \<in> set xs. list_free x)"
| "list_free (VDict kvs) \<longleftrightarrow> (\<forall>(k, v) \<in> set kvs. list_free v)"
| "list_free (VProxy kvs) \<longleftrightarrow> (\<forall>(k, v) \<in> set kvs. list_free v)"
| "list_free _ \<longleftrightarrow> True"

fun distinct_keys :: "pyval \<Rightarrow> bool" where
  "distinct_keys (VList xs) \<longleftrightarrow> (\<forall>x \<in> set xs. distinct_keys x)"
| "distinct_keys (VTuple xs) \<longleftrightarrow> (\<forall>x \<in> set xs. distinct_keys x)"
| "distinct_keys (VDict kvs) \<longleftrightarrow> distinct (map fst kvs) \<and> (\<forall>(k, v) \<in> set kvs. distinct_keys v)"
| "distinct_keys (VProxy kvs) \<longleftrightarrow> distinct (map fst kvs) \<and> (\<forall>(k, v) \<in> set kvs. distinct_keys v)"
| "distinct_keys _ \<longleftrightarrow> True"

lemma freeze_list_free [simp]: "list_free (freeze_value v)"
  by (induction v rule: pyval_induct) auto

lemma freeze_distinct_keys [simp]: "distinct_keys (freeze_value v) \<longleftrightarrow> distinct_keys v"
  by (induction v rule: pyval_induct) (auto simp: comp_def)

lemma zip_map_self: "set (zip (map f xs) xs) = (\<lambda>x. (f x, x)) ` set xs"
  by (induction xs) auto

lemma py_eq_freeze: "json_value v \<Longrightarrow> distinct_keys v \<Longrightarrow> list_free v \<Longrightarrow> py_eq (freeze_value v) v"
proof (induction v rule: pyval_induct)
  case (Tuple xs)
  then show ?case by (auto simp: zip_map_self)
next
  case (Dict kvs)
  then show ?case by (fastforce simp: list_all_iff)
next
  case (Proxy kvs)
  then show ?case by (fastforce simp: list_all_iff)
qed auto

lemma py_eq_frozen: "json_value v \<Longrightarrow> distinct_keys v \<Longrightarrow> py_eq (freeze_value v) (freeze_value v)"
  using py_eq_freeze [of "freeze_value v"] by (simp add: json_value_freeze)

section \<open>Calls that return\<close>

lemma on_uow_returned: "on_uow f s = (Inr a, t) \<longleftrightarrow> (\<exists>u. f (rt_uow s) = (Inr a, u) \<and> t = s\<lparr>rt_uow := u\<rparr>)"
  by (cases "f (rt_uow s)") (auto simp: on_uow_def)

lemma on_world_returned: "on_world f s = (Inr a, t) \<longleftrightarrow> (\<exists>w. f (rt_world s) = (Inr a, w) \<and> t = s\<lparr>rt_world := w\<rparr>)"
  by (cases "f (rt_world s)") (auto simp: on_world_def)

lemma commit_store_returned:
  "commit_store env s = (Inr (), t) \<longleftrightarrow>
     (\<exists>u db. memory_commit (re_commit_order env (rt_uow s)) (rt_uow s, rt_db s) = (Inr (), (u, db)) \<and> t = s\<lparr>rt_uow := u, rt_db := db\<rparr>)"
  by (cases "memory_commit (re_commit_order env (rt_uow s)) (rt_uow s, rt_db s)")
    (auto simp: commit_store_def on_store_def op_simps)

lemma create_aggregate_returned:
  "create_aggregate env c w s = (Inr (), t) \<longleftrightarrow>
     (\<exists>made. create_workflow_run (re_coord (se_runtime env)) w (cr_project_id c) (cr_actor_user_id c)
         (cr_idempotency_key c) (VDict (cr_inputs c)) (cr_agent_profile_ref c)
         (w_ticks (rt_world s)) (w_ids (rt_world s)) = Inr made \<and> t = s\<lparr>rt_world := made\<rparr>)"
  by (auto simp: create_aggregate_def updE_apply bindR_Inr_iff split: sum.splits)

lemmas returned = bindE_returned thenE_returned on_uow_returned on_world_returned commit_store_returned
  create_aggregate_returned op_apply

section \<open>A created run\<close>

lemma created_parts:
  assumes "create_workflow_run env w project actor key (VDict inputs) profile ticks ids = Inr made"
  obtains p where "ex_workflow (w_exec made) = w" and "ex_checkpoints (w_exec made) = [p]"
    and "cp_workflow_run_id p = wr_id (ex_workflow_run (w_exec made))"
    and "wr_inputs (ex_workflow_run (w_exec made)) = freeze_map inputs"
    and "wr_outputs (ex_workflow_run (w_exec made)) = []"
    and "wr_project_id (ex_workflow_run (w_exec made)) = project"
    and "wr_idempotency_key (ex_workflow_run (w_exec made)) = key"
    and "wr_actor_user_id (ex_workflow_run (w_exec made)) = actor"
    and "as_agent_profile_ref (ex_agent_session (w_exec made)) = profile"
    and "constructible (w_exec made)" and "\<And>s. s \<in> set (ex_step_runs (w_exec made)) \<Longrightarrow> sr_outputs s = []"
proof -
  note d = assms [unfolded create_workflow_run_def Let_def bindR_Inr_iff]
  then obtain m r a srs where m: "validate_inputs w (VDict inputs) = Inr m"
    and r0: "workflow_run_post_init
         \<lparr>wr_id = ce_id_factory env ''run'' ids, wr_project_id = project,
          wr_workflow_id = wf_id w, wr_workflow_version = wf_version w,
          wr_actor_user_id = actor, wr_idempotency_key = key,
          wr_inputs = m, wr_status = Run_CREATED, wr_outputs = [], wr_wait_reason = None,
          wr_error_code = None, wr_row_version = 0, wr_created_at = ce_clock env ticks,
          wr_updated_at = ce_clock env ticks\<rparr> = Inr r"
    and a0: "agent_session_post_init
         \<lparr>as_id = ce_id_factory env ''agent'' (ids + 1), as_project_id = project,
          as_workflow_run_id = wr_id r, as_agent_profile_ref = profile,
          as_role = ''primary'', as_status = Agent_CREATED, as_state = [], as_row_version = 0,
          as_created_at = ce_clock env ticks, as_updated_at = ce_clock env ticks\<rparr> = Inr a"
    and srs: "mapR (\<lambda>(i, s). new_step_run (ce_id_factory env ''step_run'' i) r (ws_id s) 1 []
                   (ce_clock env ticks)) (enumerate (ids + 2) (wf_steps w)) = Inr srs"
    and c: "(case create_checkpoint env
              \<lparr>w_exec = \<lparr>ex_workflow = w, ex_workflow_run = r, ex_agent_session = a,
                         ex_step_runs = srs, ex_checkpoints = []\<rparr>,
               w_ticks = ticks + 1, w_ids = ids + 2 + length srs\<rparr> of
            (Inl e, _) \<Rightarrow> Inl e | (Inr _, world) \<Rightarrow> Inr world) = Inr made"
    by blast
  have "m = inputs" using m by (simp add: validate_inputs_def bindR_Inr_iff)
  moreover obtain p where p: "create_checkpoint env
              \<lparr>w_exec = \<lparr>ex_workflow = w, ex_workflow_run = r, ex_agent_session = a,
                         ex_step_runs = srs, ex_checkpoints = []\<rparr>,
               w_ticks = ticks + 1, w_ids = ids + 2 + length srs\<rparr> = (Inr p, made)"
    using c by (auto split: prod.splits sum.splits)
  moreover have "step_run_post_init s = Inr s \<and> sr_outputs s = []" if "s \<in> set srs" for s
  proof -
    from that obtain j where j: "j < length srs" "s = srs ! j" by (auto simp: in_set_conv_nth)
    obtain i t where "enumerate (ids + 2) (wf_steps w) ! j = (i, t)" by fastforce
    with srs j have "new_step_run (ce_id_factory env ''step_run'' i) r (ws_id t) 1 [] (ce_clock env ticks) = Inr s"
      by (auto simp: mapR_Inr_iff list_all2_conv_all_nth)
    then show ?thesis by (auto simp: new_step_run_def step_run_post_init_def bindR_Inr_iff freeze_map_def)
  qed
  moreover have "workflow_run_post_init r = Inr r" "agent_session_post_init a = Inr a"
    using r0 a0 by (auto simp: workflow_run_post_init_def agent_session_post_init_def bindR_Inr_iff)
  moreover have "w_exec made = \<lparr>ex_workflow = w, ex_workflow_run = r, ex_agent_session = a,
      ex_step_runs = srs, ex_checkpoints = [p]\<rparr>" "cp_workflow_run_id p = wr_id r"
    using p create_checkpoint_of_run(1) [OF p]
    by (auto simp: create_checkpoint_apply Let_def add_checkpoint_def split: sum.splits)
  ultimately show thesis using r0 a0
    by (intro that [of p])
      (auto simp: workflow_run_post_init_def agent_session_post_init_def bindR_Inr_iff constructible_def list_all_iff)
qed

lemma created_reloaded:
  assumes "create_workflow_run env w project actor key (VDict inputs) profile ticks ids = Inr made"
  shows "reloaded (w_exec made) = (w_exec made)\<lparr>ex_checkpoints := []\<rparr>"
proof -
  obtain p where "wr_outputs (ex_workflow_run (w_exec made)) = []"
    and "\<And>s. s \<in> set (ex_step_runs (w_exec made)) \<Longrightarrow> sr_outputs s = []"
    by (rule created_parts [OF assms]) blast
  moreover then have "map (\<lambda>s. s\<lparr>sr_outputs := thaw_map (sr_outputs s)\<rparr>) (ex_step_runs (w_exec made)) = ex_step_runs (w_exec made)"
    by (intro map_idI) (simp add: thaw_map_def)
  ultimately show ?thesis by (cases "w_exec made") (simp add: reloaded_def thaw_map_def)
qed

text \<open>The commit of a new run: one record more, and one checkpoint.\<close>

lemma update_new_key: "k \<notin> fst ` set t \<Longrightarrow> AList.update k v t = t @ [(k, v)]"
  by (induction t) auto

lemma write_table_single:
  assumes "set ks = {k}" and "map_of tbl k = Some v"
  shows "write_table tbl ks t = AList.update k v t"
proof -
  have "write_table tbl ks (AList.update k v t) = AList.update k v t" if "set ks \<subseteq> {k}" for ks t
    using that assms(2) by (induction ks arbitrary: t) auto
  with assms show ?thesis by (cases ks) auto
qed

lemma create_body_commits:
  assumes "create_body env c w s = (Inr v, s')" and "orders_dirty (se_runtime env)"
    and "rt_uow s = memory_refresh (rt_db s)" and "stream_of (md_checkpoints (rt_db s)) (rv_id v) = []"
  obtains made p r k where
    "create_workflow_run (re_coord (se_runtime env)) w (cr_project_id c) (cr_actor_user_id c)
       (cr_idempotency_key c) (VDict (cr_inputs c)) (cr_agent_profile_ref c) (w_ticks (rt_world s)) (w_ids (rt_world s)) = Inr made"
    and "workflow_run_view (w_exec made) = Inr v" and "from_execution (w_exec made) 1 = Inr r"
    and "md_executions (rt_db s') = md_executions (rt_db s) @ [(wr_id (ex_workflow_run (w_exec made)), r)]"
    and "stream_of (md_checkpoints (rt_db s')) (wr_id (ex_workflow_run (w_exec made))) = [k]"
    and "[ck_checkpoint k] = ex_checkpoints (w_exec made)" and "rt_uow s' = memory_refresh (rt_db s')"
proof -
  let ?coord = "re_coord (se_runtime env)"
  from assms(1) obtain made n u1 p k u2 where
      made: "create_workflow_run ?coord w (cr_project_id c) (cr_actor_user_id c) (cr_idempotency_key c)
        (VDict (cr_inputs c)) (cr_agent_profile_ref c) (w_ticks (rt_world s)) (w_ids (rt_world s)) = Inr made"
    and save: "workflow_save (w_exec made) None (rt_uow s) = (Inr n, u1)"
    and p: "latest_checkpoint (w_exec made) = Inr p"
    and ck: "checkpoint_save (ce_sha256 ?coord) p Bound_BASELINE None None u1 = (Inr k, u2)"
    and commit: "memory_commit (re_commit_order (se_runtime env) u2) (u2, rt_db s) = (Inr (), (rt_uow s', rt_db s'))"
    and view: "workflow_run_view (w_exec made) = Inr v"
    by (auto simp: create_body_def returned)
  let ?id = "wr_id (ex_workflow_run (w_exec made))"
  obtain q where q: "ex_checkpoints (w_exec made) = [q]" "cp_workflow_run_id q = ?id"
    by (rule created_parts [OF made])
  with p have pq: "p = q" by (simp add: latest_checkpoint_def)
  have id: "rv_id v = ?id" using view by (auto simp: workflow_run_view_def Let_def bindR_Inr_iff)
  from save assms(3) obtain r where r: "from_execution (w_exec made) 1 = Inr r" "n = 1"
    and fresh: "map_of (md_executions (rt_db s)) ?id = None"
    and u1: "mu_view u1 = (rt_db s)\<lparr>md_executions := AList.update ?id r (md_executions (rt_db s))\<rparr>"
      "mu_dirty_workflows u1 = {?id}" "mu_dirty_checkpoints u1 = {}"
    by (auto simp: workflow_save_def workflow_save_check_def Let_def op_simps update_view_def memory_refresh_def
        split: sum.splits option.splits)
  from ck have k: "ck_checkpoint k = p" "mu_view u2 = (mu_view u1)\<lparr>md_checkpoints := AList.update ?id [k] (md_checkpoints (mu_view u1))\<rparr>"
    "mu_dirty_workflows u2 = {?id}" "mu_dirty_checkpoints u2 = {?id}"
    using assms(4) id u1 q(2) pq
    by (auto simp: checkpoint_save_def Let_def op_simps update_view_def checkpoint_record_post_init_def bindR_Inr_iff
        split: sum.splits)
  have "finite_dirty u2"
  proof -
    have "finite_dirty (rt_uow s)" using assms(3) tidy_refresh by (simp add: tidy_def)
    then have "finite_dirty u1" using finite_dirty_calls(6) save by (metis snd_conv)
    then show ?thesis using finite_dirty_calls(2) ck by (metis snd_conv)
  qed
  with assms(2) have ord: "order_ok (re_commit_order (se_runtime env) u2) u2" by (simp add: orders_dirty_def)
  from commit have db': "rt_db s' = write_back (re_commit_order (se_runtime env) u2) u2 (rt_db s)"
    "rt_uow s' = memory_refresh (rt_db s')"
    by (cases rule: memory_commit_cases, simp_all)+
  have "md_executions (rt_db s') = AList.update ?id r (md_executions (rt_db s))"
    using ord k u1 unfolding db'(1) write_back_def Let_def
    by (auto simp: order_ok_def update_conv' intro!: write_table_single)
  moreover have "stream_of (md_checkpoints (rt_db s')) ?id = [k]"
    using ord k u1 write_table_single [of "co_checkpoints (re_commit_order (se_runtime env) u2)" ?id "md_checkpoints (mu_view u2)" "[k]"]
    unfolding db'(1) write_back_def Let_def by (simp add: order_ok_def update_conv')
  ultimately show thesis
    using that [of made r k] made view r(1) fresh k(1) q(1) pq db'(2) update_new_key
    by (metis domIff dom_map_of_conv_image_fst)
qed

section \<open>Creating a run again\<close>

lemma rolled_back_apply: "rolled_back e s = (Inl e, s\<lparr>rt_uow := memory_refresh (rt_db s)\<rparr>)"
  by (simp add: rolled_back_def op_simps on_store_def memory_rollback_def)

lemma handlers_raise:
  "\<exists>e'. create_handler e s = (Inl e', s\<lparr>rt_uow := memory_refresh (rt_db s)\<rparr>)"
  "\<exists>e'. cancel_handler e s = (Inl e', s\<lparr>rt_uow := memory_refresh (rt_db s)\<rparr>)"
  "\<exists>e'. decide_handler e s = (Inl e', s\<lparr>rt_uow := memory_refresh (rt_db s)\<rparr>)"
  "\<exists>e'. expire_handler e s = (Inl e', s\<lparr>rt_uow := memory_refresh (rt_db s)\<rparr>)"
  by (simp_all add: create_handler_def cancel_handler_def decide_handler_def expire_handler_def rolled_back_apply)

lemma tryE_handler_returned:
  assumes "tryE m h s = (Inr a, s')" and "\<And>e t. \<exists>e'. h e t = (Inl e', g t)"
  shows "m s = (Inr a, s')"
  using assms(1) assms(2) [of "projl (fst (m s))" "snd (m s)"]
  by (auto simp: tryE_def split: prod.splits sum.splits)

lemma create_execute_new:
  assumes "create_execute env c s = (Inr v, s')"
    and "workflow_get_by_idempotency_key (rt_uow s) (cr_project_id c) (cr_idempotency_key c) = Inr None"
  obtains w where "checked_workflow c = Inr w" and "create_body env c w s = (Inr v, s')"
proof (cases "checked_workflow c")
  case (Inl e)
  with assms(1) show thesis
    by (cases "is_DomainError e") (auto simp: create_execute_def returned tryE_def op_simps rolled_back_apply)
next
  case (Inr w)
  with assms have "tryE (create_body env c w) create_handler s = (Inr v, s')"
    by (auto simp: create_execute_def bindE_returned op_apply tryE_def [of "readE _"])
  from tryE_handler_returned [OF this handlers_raise(1)] Inr show thesis by (rule_tac that)
qed

text \<open>The stored run is found under its key.\<close>

lemma found_by_key:
  assumes "workflow_get_by_idempotency_key (memory_refresh db) project key = Inr None"
    and "md_executions db' = md_executions db @ [(i, r)]" and "Persistence.run_key r = (project, key)"
  shows "workflow_get_by_idempotency_key (memory_refresh db') project key = bindR (to_execution r []) (\<lambda>x. Inr (Some x))"
proof -
  have "filter (\<lambda>r. Persistence.run_key r = (project, key)) (map snd (md_executions db)) = []"
    using assms(1)
    by (cases "min_by (wr_id \<circ> xr_run) (filter (\<lambda>r. Persistence.run_key r = (project, key)) (map snd (md_executions db)))")
      (auto simp: workflow_get_by_idempotency_key_def refresh_view bindR_Inr_iff)
  with assms(2,3) show ?thesis
    by (simp add: workflow_get_by_idempotency_key_def refresh_view)
qed

text \<open>What the second request sees.\<close>

lemma create_again:
  assumes "orders_dirty (se_runtime env)" and "rt_uow s = memory_refresh (rt_db s)"
    and "workflow_get_by_idempotency_key (rt_uow s) (cr_project_id c) (cr_idempotency_key c) = Inr None"
    and "create_execute env c s = (Inr v, s')" and "stream_of (md_checkpoints (rt_db s)) (rv_id v) = []"
  obtains w x where "checked_workflow c = Inr w" and "ex_workflow x = w"
    and "wr_actor_user_id (ex_workflow_run x) = cr_actor_user_id c"
    and "as_agent_profile_ref (ex_agent_session x) = cr_agent_profile_ref c"
    and "wr_inputs (ex_workflow_run x) = freeze_map (cr_inputs c)" and "json_value (VDict (cr_inputs c))"
    and "create_execute env c s' = (case verify_idempotent_request x c w of Inl e \<Rightarrow> (Inl e, s') | Inr _ \<Rightarrow> (Inr v, s'))"
proof -
  obtain w where w: "checked_workflow c = Inr w" and body: "create_body env c w s = (Inr v, s')"
    by (rule create_execute_new [OF assms(4,3)])
  obtain made r k where made: "create_workflow_run (re_coord (se_runtime env)) w (cr_project_id c) (cr_actor_user_id c)
       (cr_idempotency_key c) (VDict (cr_inputs c)) (cr_agent_profile_ref c) (w_ticks (rt_world s)) (w_ids (rt_world s)) = Inr made"
    and v: "workflow_run_view (w_exec made) = Inr v" and r: "from_execution (w_exec made) 1 = Inr r"
    and db: "md_executions (rt_db s') = md_executions (rt_db s) @ [(wr_id (ex_workflow_run (w_exec made)), r)]"
    and k: "stream_of (md_checkpoints (rt_db s')) (wr_id (ex_workflow_run (w_exec made))) = [k]"
      "[ck_checkpoint k] = ex_checkpoints (w_exec made)"
    and u: "rt_uow s' = memory_refresh (rt_db s')"
    by (rule create_body_commits [OF body assms(1,2,5)])
  let ?x = "(w_exec made)\<lparr>ex_checkpoints := []\<rparr>"
  obtain p where parts: "ex_workflow (w_exec made) = w" "wr_inputs (ex_workflow_run (w_exec made)) = freeze_map (cr_inputs c)"
    "wr_project_id (ex_workflow_run (w_exec made)) = cr_project_id c"
    "wr_idempotency_key (ex_workflow_run (w_exec made)) = cr_idempotency_key c"
    "wr_actor_user_id (ex_workflow_run (w_exec made)) = cr_actor_user_id c"
    "as_agent_profile_ref (ex_agent_session (w_exec made)) = cr_agent_profile_ref c" "constructible (w_exec made)"
    by (rule created_parts [OF made]) blast
  have json: "json_value (VDict (cr_inputs c))"
    using r parts(2) json_value_freeze [of "VDict (cr_inputs c)"]
    by (auto simp: from_execution_def run_from_domain_def bindR_Inr_iff freeze_json_at_Inr freeze_map_def
        simp del: json_value_freeze)
  have "Persistence.run_key r = (cr_project_id c, cr_idempotency_key c)"
    using r parts(3,4) by (auto simp: from_execution_def run_from_domain_def execution_record_post_init_def bindR_Inr_iff Persistence.run_key_def)
  from found_by_key [OF assms(3) [unfolded assms(2)] db this] execution_record_roundtrip(1) [OF r parts(7)] created_reloaded [OF made]
  have found: "workflow_get_by_idempotency_key (rt_uow s') (cr_project_id c) (cr_idempotency_key c) = Inr (Some ?x)"
    by (simp add: u)
  have "checkpoint_list (rt_uow s') (wr_id (ex_workflow_run (w_exec made))) = ex_checkpoints (w_exec made)"
    using k(1) unfolding k(2) [symmetric] by (simp add: u checkpoint_list_def checkpoint_list_records_def refresh_view set_default_def)
  then have view: "workflow_run_view (?x\<lparr>ex_checkpoints := ex_checkpoints ?x @
      checkpoint_list (rt_uow s') (wr_id (ex_workflow_run ?x))\<rparr>) = Inr v"
    using v by simp
  have "create_execute env c s' = (case verify_idempotent_request ?x c w of Inl e \<Rightarrow> (Inl e, s') | Inr _ \<Rightarrow> (Inr v, s'))"
    using view by (simp add: create_execute_def tryE_def op_simps w found split: sum.splits)
  with that [of w ?x] w parts json show thesis by simp
qed

text \<open>A command whose documents are JSON and whose inputs hold no list.\<close>

definition replayable :: "CreateWorkflowRunCommand \<Rightarrow> bool" where
  "replayable c \<longleftrightarrow> list_free (VDict (cr_inputs c)) \<and> distinct_keys (VDict (cr_inputs c)) \<and>
     (\<forall>m \<in> {wp_input_schema (cr_workflow c), wp_outputs (cr_workflow c)} \<union> sp_input_mapping ` set (wp_steps (cr_workflow c)).
        json_value (VDict m) \<and> distinct_keys (VDict m))"

lemma py_eq_frozen_map: "json_value (VDict m) \<Longrightarrow> distinct_keys (VDict m) \<Longrightarrow> py_eq (VProxy (freeze_map m)) (VProxy (freeze_map m))"
  using py_eq_frozen [of "VDict m"] by (simp only: freeze_value.simps freeze_map_def)

lemma workflow_eq_self:
  assumes "replayable c" and "checked_workflow c = Inr w"
  shows "workflow_eq w w"
proof -
  from assms(2) obtain ss where ss: "mapR build_step (wp_steps (cr_workflow c)) = Inr ss" and w: "wf_steps w = ss"
    "wf_input_schema w = freeze_map (wp_input_schema (cr_workflow c))" "wf_outputs w = freeze_map (wp_outputs (cr_workflow c))"
    by (auto simp: checked_workflow_def build_workflow_def Let_def bindR_Inr_iff workflow_post_init_ok)
  have "step_eq t t" if "t \<in> set ss" for t
  proof -
    from that ss obtain sp where "sp \<in> set (wp_steps (cr_workflow c))" and "build_step sp = Inr t"
      by (force simp: mapR_Inr_iff list_all2_conv_all_nth in_set_conv_nth)
    with assms(1) show ?thesis
      by (auto simp: build_step_def workflow_step_post_init_ok step_eq_def replayable_def simp del: py_eq.simps
          intro!: py_eq_frozen_map)
  qed
  moreover have "(s, t) \<in> set (zip ss ss) \<Longrightarrow> s = t \<and> s \<in> set ss" for s t
    by (auto simp: set_zip)
  ultimately show ?thesis using assms(1)
    by (auto simp: workflow_eq_def w replayable_def simp del: py_eq.simps intro!: py_eq_frozen_map)
qed

section \<open>Properties\<close>

text \<open>
  C3. Idempotence of creation. When a request creates a run, the same request made again returns
  the same view of the same run and changes nothing, provided the inputs hold no list: the
  stored inputs are compared with the requested ones.
\<close>

theorem create_is_idempotent:
  assumes "orders_dirty (se_runtime env)" and "rt_uow s = memory_refresh (rt_db s)"
    and "workflow_get_by_idempotency_key (rt_uow s) (cr_project_id c) (cr_idempotency_key c) = Inr None"
    and "create_execute env c s = (Inr v, s')" and "stream_of (md_checkpoints (rt_db s)) (rv_id v) = []"
    and "replayable c"
  shows "create_execute env c s' = (Inr v, s')"
proof -
  obtain w x where w: "checked_workflow c = Inr w" "ex_workflow x = w" "wr_actor_user_id (ex_workflow_run x) = cr_actor_user_id c"
    "as_agent_profile_ref (ex_agent_session x) = cr_agent_profile_ref c"
    "wr_inputs (ex_workflow_run x) = freeze_map (cr_inputs c)" and json: "json_value (VDict (cr_inputs c))"
    and again: "create_execute env c s' = (case verify_idempotent_request x c w of Inl e \<Rightarrow> (Inl e, s') | Inr _ \<Rightarrow> (Inr v, s'))"
    by (rule create_again [OF assms(1-5)])
  have "py_eq (VDict (freeze_map (cr_inputs c))) (VDict (cr_inputs c))"
    using py_eq_freeze [OF json] assms(6) by (simp add: replayable_def freeze_map_def)
  with w workflow_eq_self [OF assms(6) w(1)] have "verify_idempotent_request x c w = Inr ()"
    by (simp add: verify_idempotent_request_def Let_def del: py_eq.simps)
  with again show ?thesis by simp
qed

text \<open>
  C4. A defect of the same check. The domain stores a list of the inputs as a tuple, and a tuple
  never equals a list: when an input is a list, repeating the very request that created the run
  is refused as a conflict.
\<close>

theorem list_input_breaks_idempotence:
  assumes "orders_dirty (se_runtime env)" and "rt_uow s = memory_refresh (rt_db s)"
    and "workflow_get_by_idempotency_key (rt_uow s) (cr_project_id c) (cr_idempotency_key c) = Inr None"
    and "create_execute env c s = (Inr v, s')" and "stream_of (md_checkpoints (rt_db s)) (rv_id v) = []"
    and "distinct (map fst (cr_inputs c))" and "(k, VList xs) \<in> set (cr_inputs c)"
  shows "create_execute env c s' =
    (Inl (ApplicationConflictError ''Idempotency key is already associated with a different run request''), s')"
proof -
  obtain w x where x: "wr_inputs (ex_workflow_run x) = freeze_map (cr_inputs c)"
    and again: "create_execute env c s' = (case verify_idempotent_request x c w of Inl e \<Rightarrow> (Inl e, s') | Inr _ \<Rightarrow> (Inr v, s'))"
    by (rule create_again [OF assms(1-5)])
  have "(k, VTuple (map freeze_value xs)) \<in> set (freeze_map (cr_inputs c))"
    using assms(7) by (force simp: freeze_map_def)
  moreover have "map_of (cr_inputs c) k = Some (VList xs)" using assms(6,7) by simp
  ultimately have "\<not> py_eq (VDict (freeze_map (cr_inputs c))) (VDict (cr_inputs c))" by fastforce
  with again x show ?thesis by (simp add: verify_idempotent_request_def guardR_def Let_def del: py_eq.simps)
qed

section \<open>A request\<close>

definition demo_services :: service_env where
  "demo_services = \<lparr>se_runtime = demo_env, se_storage = None, se_sha_bytes = (\<lambda>b. nat_str (length b)),
     se_definition_hash = (\<lambda>w. wf_id w)\<rparr>"

definition demo_request :: "pymap \<Rightarrow> CreateWorkflowRunCommand" where
  "demo_request inputs = \<lparr>cr_project_id = ''p1'', cr_actor_user_id = ''u1'', cr_idempotency_key = ''k1'',
     cr_agent_profile_ref = ''profile'', cr_workflow = spec_of_workflow demo_workflow, cr_inputs = inputs\<rparr>"

definition demo_idle :: runtime where
  "demo_idle = demo_runtime \<lparr>w_exec = demo_ready_execution, w_ticks = 0, w_ids = 0\<rparr>"

definition text_inputs :: pymap where
  "text_inputs = [(''topic'', VStr ''x'')]"

definition list_inputs :: pymap where
  "list_inputs = [(''topic'', VStr ''x''), (''years'', VList [VInt 2020])]"

lemma demo_created:
  "map_sum (\<lambda>_. ()) rv_id (fst (create_execute demo_services (demo_request text_inputs) demo_idle)) = Inr ''r0''"
  "map_sum (\<lambda>_. ()) rv_id (fst (create_execute demo_services (demo_request list_inputs) demo_idle)) = Inr ''r0''"
  by code_simp+

lemma demo_idle_empty:
  "rt_uow demo_idle = memory_refresh (rt_db demo_idle)" "stream_of (md_checkpoints (rt_db demo_idle)) run_id = []"
  "workflow_get_by_idempotency_key (rt_uow demo_idle) project key = Inr None"
  by (simp_all add: demo_idle_def demo_runtime_def empty_database_def workflow_get_by_idempotency_key_def memory_refresh_def stream_of_def)

lemma demo_services_order: "orders_dirty (se_runtime demo_services)"
  by (simp add: demo_services_def demo_orders)

theorem create_is_idempotent_witness:
  "\<exists>v s. create_execute demo_services (demo_request text_inputs) demo_idle = (Inr v, s) \<and> rv_id v = ''r0'' \<and>
     create_execute demo_services (demo_request text_inputs) s = (Inr v, s)"
proof -
  let ?c = "demo_request text_inputs"
  obtain v s where v: "create_execute demo_services ?c demo_idle = (Inr v, s)" "rv_id v = ''r0''"
    using demo_created(1) by (cases "create_execute demo_services ?c demo_idle"; cases "fst (create_execute demo_services ?c demo_idle)") auto
  have "replayable ?c" by code_simp
  from create_is_idempotent [OF demo_services_order demo_idle_empty(1) demo_idle_empty(3) v(1) demo_idle_empty(2) this] v
  show ?thesis by blast
qed

theorem list_input_breaks_idempotence_witness:
  "\<exists>v s e. create_execute demo_services (demo_request list_inputs) demo_idle = (Inr v, s) \<and>
     create_execute demo_services (demo_request list_inputs) s = (Inl (ApplicationConflictError e), s)"
proof -
  let ?c = "demo_request list_inputs"
  obtain v s where v: "create_execute demo_services ?c demo_idle = (Inr v, s)"
    using demo_created(2) by (cases "create_execute demo_services ?c demo_idle"; cases "fst (create_execute demo_services ?c demo_idle)") auto
  have "distinct (map fst (cr_inputs ?c))" "(''years'', VList [VInt 2020]) \<in> set (cr_inputs ?c)"
    by (simp_all add: demo_request_def list_inputs_def)
  from list_input_breaks_idempotence [OF demo_services_order demo_idle_empty(1) demo_idle_empty(3) v demo_idle_empty(2) this] v
  show ?thesis by blast
qed

end
