(* ===== verification/Application_Cancel.thy ===== *)
theory Application_Cancel
  imports Application_Claims
begin

text \<open>
  Cancelling a run through \<open>CancelWorkflowRunService\<close>: what is committed when it returns, and
  that nothing is committed when it raises.
\<close>

section \<open>Cancelling\<close>

lemma latest_index_stored:
  assumes "mapR step_from_domain_record srs = Inr rs"
  shows "now_of rs = now_of srs"
proof -
  have len: "length rs = length srs" using assms by (auto simp: mapR_Inr_iff dest: list_all2_lengthD)
  have same: "sr_step_id (rs ! i) = sr_step_id (srs ! i) \<and> sr_attempt (rs ! i) = sr_attempt (srs ! i) \<and>
      sr_status (rs ! i) = sr_status (srs ! i)" if "i < length srs" for i
  proof -
    from assms that have "step_from_domain_record (srs ! i) = Inr (rs ! i)" by (auto simp: mapR_Inr_iff list_all2_conv_all_nth)
    then show ?thesis by (auto simp: step_from_domain_record_def bindR_Inr_iff elim!: subst)
  qed
  have "latest_index rs s = latest_index srs s" for s
  proof -
    have "filter (\<lambda>i. sr_step_id (rs ! i) = s) [0..<length rs] = filter (\<lambda>i. sr_step_id (srs ! i) = s) [0..<length srs]"
      using same len by (intro filter_cong) auto
    then show ?thesis unfolding latest_index_def using same by (auto intro: first_max_cong)
  qed
  with same show ?thesis
    by (auto simp: now_of_def fun_eq_iff intro!: option.map_cong dest!: latest_index_Some(1))
qed

lemma agent_to_status: "agent_to t ts w = (Inr u, w') \<Longrightarrow> as_status (ex_agent_session (w_exec w')) = t"
  by (auto simp: agent_to_def updE_apply bindR_Inr_iff set_agent_def agent_session_transition_ok split: sum.splits)

text \<open>A cancelled aggregate: the run, the agent and every latest attempt are at rest.\<close>

definition at_rest :: "WorkflowRunStatus \<Rightarrow> AgentSessionStatus \<Rightarrow> StepRun list \<Rightarrow> bool" where
  "at_rest run agent srs \<longleftrightarrow> run = Run_CANCELLED \<and> agent = Agent_CANCELLED \<and>
     (\<forall>s i. latest_index srs s = Some i \<longrightarrow> step_is_terminal (sr_status (srs ! i)))"

lemma at_rest_now:
  "at_rest run agent srs \<longleftrightarrow> run = Run_CANCELLED \<and> agent = Agent_CANCELLED \<and>
     (\<forall>s a u. now_of srs s = Some (a, u) \<longrightarrow> step_is_terminal u)"
  by (auto simp: at_rest_def now_of_def simp del: step_is_terminal.simps)

lemma run_to_agent: "run_to t ts reason code w = (Inr u, w') \<Longrightarrow> wr_id (ex_workflow_run (w_exec w')) = wr_id (ex_workflow_run (w_exec w))"
  by (auto simp: run_to_def updE_apply bindR_Inr_iff set_run_def workflow_run_transition_ok split: sum.splits)

lemma agent_to_run: "agent_to t ts w = (Inr u, w') \<Longrightarrow> ex_workflow_run (w_exec w') = ex_workflow_run (w_exec w)"
  by (auto simp: agent_to_def updE_apply bindR_Inr_iff set_agent_def split: sum.splits)

lemma cancel_now_terminal: "cancel_now m s = Some (a, u) \<Longrightarrow> step_is_terminal u"
  by (auto simp: cancel_now_def split: if_splits)

lemma cancel_open_run: "maintains (\<lambda>w. ex_workflow_run (w_exec w) = r) (cancel_open_steps ts cur)"
proof -
  have "maintains (\<lambda>w. ex_workflow_run (w_exec w) = r) (step_to i t c)" for i t c
    by (auto simp: hoareE_def step_to_def updE_apply set_step_def split: sum.splits prod.splits dest!: bindR_Inr_iff [THEN iffD1])
  then show ?thesis unfolding cancel_open_steps_def by (intro flow_rules)
qed

lemma cancelled_at_rest:
  assumes "cancel_execution env w = (Inr p, w')" and "attempts_ok (w_exec w)"
  shows "at_rest (wr_status (ex_workflow_run (w_exec w'))) (as_status (ex_agent_session (w_exec w'))) (srs_of w')"
    and "wr_id (ex_workflow_run (w_exec w')) = wr_id (ex_workflow_run (w_exec w))"
    and "cp_workflow_run_id p = wr_id (ex_workflow_run (w_exec w))"
proof -
  from assms(1) obtain ts w0 cur u w1 u2 w2 u3 w3 u4 w4 u5 w5 where e: "w_exec w0 = w_exec w"
    and cur: "current_step_runs (w_exec w) = Inr cur"
    and c: "cancel_open_steps ts cur w0 = (Inr u, w1)" and 2: "run_to Run_CANCELLING ts None None w1 = (Inr u2, w2)"
    and 3: "agent_to Agent_CANCELLING ts w2 = (Inr u3, w3)" and 4: "run_to Run_CANCELLED ts None None w3 = (Inr u4, w4)"
    and 5: "agent_to Agent_CANCELLED ts w4 = (Inr u5, w5)" and 6: "create_checkpoint env w5 = (Inr p, w')"
    unfolding cancel_execution_def guard_returned
    by (auto elim!: clock_returned simp: read_returned thenE_returned)
  from cancel_open_all [OF c] e cur assms(2)
  have v1: "view w1 = (view w)\<lparr>p_now := cancel_now (p_now (view w))\<rparr>" by simp
  have "view w' = (view w)\<lparr>p_run := Run_CANCELLED, p_reason := None, p_now := cancel_now (p_now (view w))\<rparr>"
    using create_checkpoint_view [OF 6] agent_to_view(1) [OF 5] run_to_view(2) [OF 4] agent_to_view(1) [OF 3]
      run_to_view(2) [OF 2] v1 by simp
  then have run: "wr_status (ex_workflow_run (w_exec w')) = Run_CANCELLED" and now: "now_of (srs_of w') = cancel_now (p_now (view w))"
    by (simp_all add: proto_of_def)
  have agent: "ex_agent_session (w_exec w') = ex_agent_session (w_exec w5)"
    using 6 by (auto simp: create_checkpoint_apply Let_def add_checkpoint_def split: sum.splits)
  have "step_is_terminal v" if "now_of (srs_of w') s = Some (a, v)" for s a v
    using that unfolding now by (rule cancel_now_terminal)
  with run agent agent_to_status [OF 5]
  show "at_rest (wr_status (ex_workflow_run (w_exec w'))) (as_status (ex_agent_session (w_exec w'))) (srs_of w')"
    by (simp add: at_rest_now)
  have "wr_id (ex_workflow_run (w_exec w1)) = wr_id (ex_workflow_run (w_exec w))"
    using hoareE_D_ok [OF cancel_open_run [of "ex_workflow_run (w_exec w)"] _ c] e by simp
  with run_to_agent [OF 2] agent_to_run [OF 3] run_to_agent [OF 4] agent_to_run [OF 5] create_checkpoint_of_run [OF 6]
  show "wr_id (ex_workflow_run (w_exec w')) = wr_id (ex_workflow_run (w_exec w))" 
    and "cp_workflow_run_id p = wr_id (ex_workflow_run (w_exec w))" by simp_all
qed

lemma tryE_handler_raised:
  assumes "tryE m h s = (Inl e, s')" and "\<And>e t. \<exists>e'. h e t = (Inl e', g t)"
  obtains e0 t where "m s = (Inl e0, t)" and "s' = g t"
  using assms(1) assms(2) [of "projl (fst (m s))" "snd (m s)"] that
  by (auto simp: tryE_def split: prod.splits sum.splits)

text \<open>Only the commit touches the database, and it does so as the last call that can fail.\<close>

lemma workflow_save_next:
  assumes "workflow_save x (Some n) u = (Inr m, u')" shows "m = n + 1"
  using assms by (auto simp: workflow_save_def workflow_save_check_def Let_def op_simps bindR_Inr_iff
      split: sum.splits option.splits if_splits)

lemma workflow_run_view_status: "workflow_run_view x = Inr v \<Longrightarrow> rv_id v = wr_id (ex_workflow_run x) \<and> rv_status v = wr_status (ex_workflow_run x)"
  by (auto simp: workflow_run_view_def Let_def bindR_Inr_iff)

lemma cancel_body_commits:
  assumes "cancel_body env n s = (Inr v, s')" and "orders_dirty (se_runtime env)"
    and "rt_uow s = memory_refresh (rt_db s)" and "attempts_ok (exec_of s)"
  obtains rec where "map_of (md_executions (rt_db s')) (wr_id (run_of s)) = Some rec" and "xr_version rec = n + 1"
    and "at_rest (wr_status (xr_run rec)) (as_status (xr_agent rec)) (xr_steps rec)"
    and "has_record Bound_BEFORE_TERMINAL None None (wr_id (run_of s)) (rt_db s')"
    and "has_record Bound_TERMINAL None None (wr_id (run_of s)) (rt_db s')"
    and "rt_uow s' = memory_refresh (rt_db s')" and "rv_status v = Run_CANCELLED"
proof -
  let ?coord = "re_coord (se_runtime env)"
  from assms(1) obtain before w1 k1 u1 terminal w2 k2 u2 m u3 where
      1: "create_checkpoint ?coord (rt_world s) = (Inr before, w1)"
    and 2: "checkpoint_save (ce_sha256 ?coord) before Bound_BEFORE_TERMINAL None None (rt_uow s) = (Inr k1, u1)"
    and 3: "cancel_execution ?coord w1 = (Inr terminal, w2)"
    and 4: "checkpoint_save (ce_sha256 ?coord) terminal Bound_TERMINAL None None u1 = (Inr k2, u2)"
    and 5: "workflow_save (w_exec w2) (Some n) u2 = (Inr m, u3)"
    and 6: "memory_commit (re_commit_order (se_runtime env) u3) (u3, rt_db s) = (Inr (), (rt_uow s', rt_db s'))"
    and 7: "workflow_run_view (w_exec w2) = Inr v"
    by (auto simp: cancel_body_def Let_def returned)
  let ?id = "wr_id (run_of s)"
  note c = create_checkpoint_of_run [OF 1]
  have "attempts_ok (w_exec w1)"
    using assms(4) c 1 by (auto simp: create_checkpoint_apply Let_def add_checkpoint_def attempts_ok_def step_attempt_ok_def split: sum.splits)
  note rest = cancelled_at_rest [OF 3 this]
  have tidy: "tidy u3 (rt_db s)"
    using tidy_calls(2,7) 2 4 5 tidy_refresh assms(3) by (metis snd_conv)
  then have ok: "order_ok (re_commit_order (se_runtime env) u3) u3" and att: "attached u3 (rt_db s)"
    using assms(2) by (simp_all add: orders_dirty_def tidy_def)
  have db: "rt_db s' = write_back (re_commit_order (se_runtime env) u3) u3 (rt_db s)" "rt_uow s' = memory_refresh (rt_db s')"
    using 6 by (cases rule: memory_commit_cases, simp_all)+
  have part: "checkpoint_part u3 = checkpoint_part u2" using workflow_save_part(1) 5 by (metis snd_conv)
  have "has_record Bound_BEFORE_TERMINAL None None ?id (mu_view u2)"
    using has_record_save [OF checkpoint_save_records [OF 2]] 4 c(1) by (metis snd_conv)
  moreover have "has_record Bound_TERMINAL None None ?id (mu_view u2)"
    using checkpoint_save_records [OF 4] rest(3) c(2) by simp
  moreover have "has_record b None None ?id (rt_db s')" if "has_record b None None ?id (mu_view u2)" for b
    using has_record_same [OF part that] attached_written [OF att ok] unfolding db(1) has_record_def by simp
  ultimately have records: "has_record Bound_BEFORE_TERMINAL None None ?id (rt_db s')" "has_record Bound_TERMINAL None None ?id (rt_db s')"
    by blast+
  obtain r where r: "from_execution (w_exec w2) m = Inr r"
    "map_of (md_executions (mu_view u3)) ?id = Some r" "?id \<in> mu_dirty_workflows u3"
    using workflow_save_stores [OF 5] rest(2) c(2) by metis
  have "map_of (md_executions (rt_db s')) ?id = Some r" by (rule commit_publishes_execution [OF 6 ok r(3,2)])
  moreover have "xr_version r = n + 1"
    using r(1) workflow_save_next [OF 5] by (auto simp: from_execution_def execution_record_post_init_def bindR_Inr_iff)
  moreover have "at_rest (wr_status (xr_run r)) (as_status (xr_agent r)) (xr_steps r)"
  proof -
    from r(1) have "wr_status (xr_run r) = wr_status (ex_workflow_run (w_exec w2))"
      "as_status (xr_agent r) = as_status (ex_agent_session (w_exec w2))" and st: "mapR step_from_domain_record (srs_of w2) = Inr (xr_steps r)"
      by (auto simp: from_execution_def execution_record_post_init_def bindR_Inr_iff run_from_domain_def agent_from_domain_def)
    with rest(1) latest_index_stored [OF st] show ?thesis by (simp add: at_rest_now)
  qed
  ultimately show thesis using that [of r] records db(2) workflow_run_view_status [OF 7] rest(1) by (simp add: at_rest_def)
qed

lemma workflow_run_view_total:
  assumes "attempts_ok x" shows "\<exists>v. workflow_run_view x = Inr v"
proof -
  have ids: "sr_step_id ` set (ex_step_runs x) = set (workflow_step_ids (ex_workflow x))"
    using assms by (simp add: attempts_ok_def)
  have "\<exists>y. bindR (latest_step_run (ws_id ws) x) (\<lambda>i. Inr (ws_id ws, sr_status (ex_step_runs x ! i))) = Inr y"
    if "ws \<in> set (wf_steps (ex_workflow x))" for ws
  proof -
    have "ws_id ws \<in> sr_step_id ` set (ex_step_runs x)" using that ids by (simp add: workflow_step_ids_def)
    then obtain i where "latest_index (ex_step_runs x) (ws_id ws) = Some i"
      using latest_index_None [of "ex_step_runs x" "ws_id ws"] by (cases "latest_index (ex_step_runs x) (ws_id ws)") auto
    then have "latest_step_run (ws_id ws) x = Inr i" by (simp add: latest_step_run_Inr)
    then show ?thesis by simp
  qed
  then obtain sts where "mapR (\<lambda>ws. bindR (latest_step_run (ws_id ws) x)
      (\<lambda>i. Inr (ws_id ws, sr_status (ex_step_runs x ! i)))) (wf_steps (ex_workflow x)) = Inr sts"
    using mapR_total [of "wf_steps (ex_workflow x)"] by meson
  moreover obtain ss where "ordered_step_runs x = Inr ss" using ordered_step_runs_total [of x] ids by auto
  ultimately show ?thesis by (simp add: workflow_run_view_def completed_steps_def Let_def)
qed

lemma checkpoint_attempts: "create_checkpoint env w = (Inr p, w') \<Longrightarrow> attempts_ok (w_exec w) \<Longrightarrow> attempts_ok (w_exec w')"
  using hoareE_D_ok [OF attempts.create_checkpoint_done [of "\<lambda>_ _. True"]] by (simp add: attempts.keep_True)

lemma cancel_attempts: "cancel_execution env w = (Inr p, w') \<Longrightarrow> attempts_ok (w_exec w) \<Longrightarrow> attempts_ok (w_exec w')"
  using hoareE_D_ok [OF attempts.cancel_preserves] by (simp add: attempts.keep_True)

lemma cancel_body_refused:
  assumes "cancel_body env n s = (Inl e, s')" and "attempts_ok (exec_of s)"
  shows "rt_db s' = rt_db s"
proof -
  have "hoareE (\<lambda>t. rt_db t = rt_db s \<and> attempts_ok (exec_of t)) (cancel_body env n) (\<lambda>_ _. True) (\<lambda>_ t. rt_db t = rt_db s)"
    (is "hoareE ?P _ _ ?E")
  proof -
    have uow: "hoareE ?P (on_uow f) (\<lambda>_. ?P) ?E" for f :: "(memory_uow, 'b) op"
      by (auto simp: hoareE_def on_uow_def split: prod.splits sum.splits)
    have world: "hoareE ?P (on_world f) (\<lambda>_. ?P) ?E" if "\<And>w a w'. f w = (Inr a, w') \<Longrightarrow> attempts_ok (w_exec w) \<Longrightarrow> attempts_ok (w_exec w')"
      for f :: "(world, 'b) op" using that by (auto simp: hoareE_def on_world_def split: prod.splits sum.splits)
    have store: "hoareE ?P (commit_store (se_runtime env)) (\<lambda>_ _. True) ?E"
      unfolding hoareE_def commit_store_def on_store_def
      by (auto simp: op_simps split: prod.splits sum.splits elim!: memory_commit_cases)
    have tail: "hoareE (\<lambda>t. ?P t \<and> attempts_ok x) (thenE (on_uow (workflow_save x (Some n)))
        (thenE (commit_store (se_runtime env)) (readE (\<lambda>_. workflow_run_view x)))) (\<lambda>_ _. True) ?E" for x
    proof (cases "attempts_ok x")
      case True
      then obtain v where v: "workflow_run_view x = Inr v" using workflow_run_view_total by blast
      have "hoareE ?P (thenE (on_uow (workflow_save x (Some n)))
        (thenE (commit_store (se_runtime env)) (readE (\<lambda>_. workflow_run_view x)))) (\<lambda>_ _. True) ?E"
        by (rule hoareE_then [OF uow], rule hoareE_then [OF store]) (simp add: hoareE_def op_simps v)
      then show ?thesis by (rule hoareE_conseq) simp_all
    qed (simp add: hoareE_def)
    show ?thesis unfolding cancel_body_def Let_def
      by (rule hoareE_bind [OF world], erule checkpoint_attempts, assumption, rule hoareE_then [OF uow],
          rule hoareE_bind [OF world], erule cancel_attempts, assumption, rule hoareE_then [OF uow],
          rule hoareE_bind [OF hoareE_gets tail]) simp
  qed
  from hoareE_D_err [OF this _ assms(1)] assms(2) show ?thesis by simp
qed

text \<open>
  C2. A cancellation is committed as a whole or not at all. For an open run whose attempts are in
  order, from a unit of work with nothing staged: when the service returns, the database holds
  the run one version further, the run and its agent cancelled and every latest attempt at rest,
  together with the checkpoints in front of and behind the cancellation; when it raises, the
  database is as before and nothing is staged.
\<close>

theorem cancel_is_all_or_nothing:
  assumes "orders_dirty (se_runtime env)" and "rt_uow s = memory_refresh (rt_db s)"
    and "app_load_execution (rt_uow s) run_id = Inr x" and "wr_id (ex_workflow_run x) = run_id"
    and "\<not> run_is_terminal (wr_status (ex_workflow_run x))" and "attempts_ok x"
    and "cancel_execute env run_id s = (r, s')"
  shows "rt_uow s' = memory_refresh (rt_db s') \<and>
    (case r of
       Inl e \<Rightarrow> rt_db s' = rt_db s
     | Inr v \<Rightarrow> rv_status v = Run_CANCELLED \<and>
         (\<exists>n rec. workflow_get_version (rt_uow s) run_id = Some n \<and>
            map_of (md_executions (rt_db s')) run_id = Some rec \<and> xr_version rec = n + 1 \<and>
            at_rest (wr_status (xr_run rec)) (as_status (xr_agent rec)) (xr_steps rec)) \<and>
         has_record Bound_BEFORE_TERMINAL None None run_id (rt_db s') \<and>
         has_record Bound_TERMINAL None None run_id (rt_db s'))"
proof -
  let ?s = "s\<lparr>rt_world := (rt_world s)\<lparr>w_exec := x\<rparr>\<rparr>"
  obtain n where n: "workflow_get_version (rt_uow s) run_id = Some n"
    using assms(3) by (auto simp: app_load_execution_def workflow_get_def workflow_get_version_def bindR_Inr_iff split: option.splits)
  with assms(3,5,7) have run: "tryE (cancel_body env n) cancel_handler ?s = (r, s')"
    by (simp add: cancel_execute_def op_simps)
  show ?thesis
  proof (cases r)
    case (Inl e)
    with run have "tryE (cancel_body env n) cancel_handler ?s = (Inl e, s')" by simp
    from tryE_handler_raised [OF this handlers_raise(2)] obtain e0 t
      where t: "cancel_body env n ?s = (Inl e0, t)" "s' = t\<lparr>rt_uow := memory_refresh (rt_db t)\<rparr>" .
    from cancel_body_refused [OF t(1)] assms(6) t(2) Inl show ?thesis by simp
  next
    case (Inr v)
    with run have "tryE (cancel_body env n) cancel_handler ?s = (Inr v, s')" by simp
    from tryE_handler_returned [OF this handlers_raise(2)] have body: "cancel_body env n ?s = (Inr v, s')" .
    obtain rec where "map_of (md_executions (rt_db s')) run_id = Some rec" "xr_version rec = n + 1"
        "at_rest (wr_status (xr_run rec)) (as_status (xr_agent rec)) (xr_steps rec)"
        "has_record Bound_BEFORE_TERMINAL None None run_id (rt_db s')" "has_record Bound_TERMINAL None None run_id (rt_db s')"
        "rt_uow s' = memory_refresh (rt_db s')" "rv_status v = Run_CANCELLED"
      by (rule cancel_body_commits [OF body assms(1)]) (use assms(2,4,6) in simp_all)
    with n Inr show ?thesis by simp
  qed
qed

definition demo_created_state :: runtime where
  "demo_created_state = snd (create_execute demo_services (demo_request text_inputs) demo_idle)"

definition demo_loaded_ok :: "ExecutionState \<Rightarrow> bool" where
  "demo_loaded_ok x \<longleftrightarrow> wr_id (ex_workflow_run x) = ''r0'' \<and> wr_status (ex_workflow_run x) = Run_CREATED \<and>
     workflow_post_init (ex_workflow x) = Inr (ex_workflow x) \<and>
     forR (wf_steps (ex_workflow x)) (\<lambda>s. bindR (workflow_step_post_init s) (\<lambda>_. Inr ())) = Inr () \<and>
     map ws_id (wf_steps (ex_workflow x)) = [''search''] \<and> map ws_max_attempts (wf_steps (ex_workflow x)) = [2] \<and>
     (case ex_step_runs x of [s] \<Rightarrow> sr_step_id s = ''search'' \<and> sr_attempt s = 1 \<and> sr_workflow_run_id s = ''r0'' \<and> step_run_ok s | _ \<Rightarrow> False)"

lemma demo_loaded_attempts:
  assumes "demo_loaded_ok x" shows "attempts_ok x"
proof -
  from assms obtain s ws where s: "ex_step_runs x = [s]" "sr_step_id s = ''search''" "sr_attempt s = 1" "sr_workflow_run_id s = ''r0''" "step_run_ok s"
    and ws: "wf_steps (ex_workflow x) = [ws]" "ws_id ws = ''search''" "ws_max_attempts ws = 2"
    by (auto simp: demo_loaded_ok_def map_eq_Cons_conv split: list.splits)
  have "workflow_valid (ex_workflow x)"
    using assms by (auto simp: demo_loaded_ok_def workflow_valid_def workflow_post_init_ok forR_Inr_iff bindR_Inr_iff workflow_step_post_init_ok)
  with s ws assms show ?thesis
    by (simp add: attempts_ok_def step_attempt_ok_def attempts_ordered_def workflow_step_ids_def workflow_get_step_def demo_loaded_ok_def)
qed

lemma demo_loaded:
  "(case app_load_execution (rt_uow demo_created_state) ''r0'' of Inl _ \<Rightarrow> False | Inr x \<Rightarrow> demo_loaded_ok x)"
  by code_simp

lemma demo_cancelled: "\<not> isl (fst (cancel_execute demo_services ''r0'' demo_created_state))"
  by code_simp

theorem cancel_is_all_or_nothing_witness:
  "\<exists>v s rec. cancel_execute demo_services ''r0'' demo_created_state = (Inr v, s) \<and> rv_status v = Run_CANCELLED \<and>
     map_of (md_executions (rt_db s)) ''r0'' = Some rec \<and> wr_status (xr_run rec) = Run_CANCELLED \<and>
     has_record Bound_TERMINAL None None ''r0'' (rt_db s)"
proof -
  obtain v0 where v0: "create_execute demo_services (demo_request text_inputs) demo_idle = (Inr v0, demo_created_state)"
    using demo_created(1) by (cases "create_execute demo_services (demo_request text_inputs) demo_idle")
      (auto simp: demo_created_state_def map_sum_def split: sum.splits)
  have uow: "rt_uow demo_created_state = memory_refresh (rt_db demo_created_state)"
  proof -
    obtain w where w: "create_body demo_services (demo_request text_inputs) w demo_idle = (Inr v0, demo_created_state)"
      by (rule create_execute_new [OF v0 demo_idle_empty(3)])
    show ?thesis by (rule create_body_commits [OF w demo_services_order demo_idle_empty(1,2)])
  qed
  obtain x where x: "app_load_execution (rt_uow demo_created_state) ''r0'' = Inr x" "demo_loaded_ok x"
    using demo_loaded by (auto split: sum.splits)
  obtain v s where v: "cancel_execute demo_services ''r0'' demo_created_state = (Inr v, s)"
    using demo_cancelled by (cases "cancel_execute demo_services ''r0'' demo_created_state"; cases "fst (cancel_execute demo_services ''r0'' demo_created_state)") auto
  have "wr_id (ex_workflow_run x) = ''r0''" "\<not> run_is_terminal (wr_status (ex_workflow_run x))"
    using x(2) by (simp_all add: demo_loaded_ok_def)
  from cancel_is_all_or_nothing [OF demo_services_order uow x(1) this demo_loaded_attempts [OF x(2)] v] v
  show ?thesis by (auto simp: at_rest_def)
qed

end
