(* ===== verification/Application_Approvals.thy ===== *)
theory Application_Approvals
  imports Application_Cancel
begin

text \<open>
  The approvals under the services: a request that is resolved in the database stays as it is,
  whatever services are called afterwards.
\<close>

section \<open>Calls of the services\<close>

datatype service_call =
    Call_create CreateWorkflowRunCommand
  | Call_create_catalog CreateCatalogWorkflowRunCommand
  | Call_get_run string
  | Call_resume string
  | Call_cancel string
  | Call_decide ApprovalDecisionCommand

fun serve :: "service_env \<Rightarrow> service_call \<Rightarrow> (runtime, unit) op" where
  "serve env (Call_create c) = thenE (create_execute env c) (returnE ())"
| "serve env (Call_create_catalog c) = thenE (catalog_execute env c) (returnE ())"
| "serve env (Call_get_run i) = thenE (get_run_execute i) (returnE ())"
| "serve env (Call_resume i) = thenE (resume_execute env i) (returnE ())"
| "serve env (Call_cancel i) = thenE (cancel_execute env i) (returnE ())"
| "serve env (Call_decide c) = thenE (decide_execute env c) (returnE ())"

text \<open>Every call is made, whether the one in front of it returned or raised.\<close>

definition serve_all :: "service_env \<Rightarrow> service_call list \<Rightarrow> runtime \<Rightarrow> runtime" where
  "serve_all env cs s = fold (\<lambda>c t. snd (serve env c t)) cs s"

section \<open>The record of an approval\<close>

definition keyed :: "database \<Rightarrow> bool" where
  "keyed db \<longleftrightarrow> (\<forall>i r. map_of (md_approvals db) i = Some r \<longrightarrow> ar_id (ap_request r) = i)"

definition kept :: "string \<Rightarrow> ApprovalRecord \<Rightarrow> runtime \<Rightarrow> bool" where
  "kept i r s \<longleftrightarrow> (\<forall>d \<in> {rt_db s, mu_view (rt_uow s)}. keyed d \<and> map_of (md_approvals d) i = Some r)"

lemma same_approvals_kept:
  assumes "\<And>s. md_approvals (rt_db (snd (m s))) = md_approvals (rt_db s)"
    and "\<And>s. md_approvals (mu_view (rt_uow (snd (m s)))) = md_approvals (mu_view (rt_uow s))"
  shows "maintains (kept i r) m"
proof -
  have "kept i r (snd (m s))" if "kept i r s" for s
    using that assms by (simp add: kept_def keyed_def)
  then show ?thesis by (intro hoareE_I) (metis snd_conv)+
qed

lemma on_uow_kept:
  assumes "\<And>u. md_approvals (mu_view (snd (f u))) = md_approvals (mu_view u)"
  shows "maintains (kept i r) (on_uow f)"
  by (rule same_approvals_kept) (use assms in \<open>simp_all add: on_uow_def split: prod.splits\<close>, metis snd_conv)

lemma saved_elsewhere_kept:
  assumes "ar_id a \<noteq> i \<or> expected = None"
  shows "maintains (kept i r) (on_uow (approval_save a expected))"
proof (rule hoareE_I)
  have "kept i r (snd (on_uow (approval_save a expected) s))" if k: "kept i r s" for s
  proof (cases "approval_save a expected (rt_uow s)")
    case (Pair res u)
    show ?thesis
    proof (cases res)
      case (Inl e)
      with Pair have "mu_view u = mu_view (rt_uow s)"
        by (auto simp: approval_save_def op_simps split: sum.splits)
      with k Pair show ?thesis by (simp add: kept_def on_uow_def)
    next
      case (Inr v)
      with Pair obtain rec where fr: "from_approval a v = Inr rec"
        and u: "md_approvals (mu_view u) = AList.update (ar_id a) rec (md_approvals (mu_view (rt_uow s)))"
        and new: "expected = None \<Longrightarrow> map_of (md_approvals (mu_view (rt_uow s))) (ar_id a) = None"
        by (auto simp: approval_save_def approval_save_check_def Let_def op_simps update_view_def
            split: sum.splits option.splits)
      from fr have rec: "ar_id (ap_request rec) = ar_id a" by (auto simp: from_approval_def bindR_Inr_iff)
      have "ar_id a \<noteq> i" using assms new k by (auto simp: kept_def)
      with k Pair u rec show ?thesis by (auto simp: kept_def on_uow_def keyed_def update_conv')
    qed
  qed
  then show "kept i r s'" if "kept i r s" "on_uow (approval_save a expected) s = (Inr b, s')" for s b s'
    using that by (metis snd_conv)
  show "kept i r s'" if "kept i r s" "on_uow (approval_save a expected) s = (Inl b, s')" for s b s'
    using that \<open>\<And>s. kept i r s \<Longrightarrow> kept i r (snd (on_uow (approval_save a expected) s))\<close> by (metis snd_conv)
qed

lemma commit_kept: "maintains (kept i r) (commit_store env)"
proof -
  have "kept i r (snd (commit_store env s))" if k: "kept i r s" for s
  proof -
    obtain res u' db' where m: "memory_commit (re_commit_order env (rt_uow s)) (rt_uow s, rt_db s) = (res, (u', db'))"
      by (cases "memory_commit (re_commit_order env (rt_uow s)) (rt_uow s, rt_db s)") auto
    have t: "snd (commit_store env s) = s\<lparr>rt_uow := u', rt_db := db'\<rparr>"
      using m by (cases res) (simp_all add: commit_store_def op_simps on_store_def)
    from m show ?thesis
    proof (cases rule: memory_commit_cases)
      case stored
      then show ?thesis using k unfolding t
        by (auto simp: kept_def keyed_def refresh_view write_back_def Let_def map_of_write_table)
    qed (use k t in \<open>simp add: kept_def\<close>)
  qed
  then show ?thesis by (intro hoareE_I) (metis snd_conv)+
qed

lemma rollback_kept: "maintains (kept i r) (on_store memory_rollback)"
  by (auto simp: hoareE_def kept_def on_store_def memory_rollback_def refresh_view)

lemma world_kept: "maintains (kept i r) (on_world m)" "maintains (kept i r) (runtime_clock env)"
  "maintains (kept i r) (runtime_id env kind)" "maintains (kept i r) (set_version k v)"
  "maintains (kept i r) (modifyE (\<lambda>s. s\<lparr>rt_world := f s\<rparr>))" "maintains (kept i r) (modifyE (\<lambda>s. s\<lparr>rt_calls := g s\<rparr>))"
  by (auto simp: hoareE_def kept_def on_world_def runtime_clock_def runtime_id_def set_version_def op_simps
      split: prod.splits sum.splits)

lemma other_tables:
  "md_approvals (mu_view (snd (event_append e n u))) = md_approvals (mu_view u)"
  "md_approvals (mu_view (snd (checkpoint_save sha p boundary sid att u))) = md_approvals (mu_view u)"
  "md_approvals (mu_view (snd (artifact_save am u))) = md_approvals (mu_view u)"
  "md_approvals (mu_view (snd (memory_update_context sc m producer refs u))) = md_approvals (mu_view u)"
  "md_approvals (mu_view (snd (workflow_save x expected u))) = md_approvals (mu_view u)"
  by (simp_all add: event_append_def checkpoint_save_def artifact_save_def
      memory_update_context_def workflow_save_def Let_def op_simps update_view_def split: option.splits sum.splits)

lemma other_tables_initialize:
  "md_approvals (mu_view (snd (memory_initialize_context sc m producer refs u))) = md_approvals (mu_view u)"
  using other_tables(4) [of sc m producer refs u] by (auto simp: memory_initialize_context_def op_simps)

interpretation kept_calls: runtime_calls env "kept i r" for env i r
  by unfold_locales
    (intro world_kept commit_kept rollback_kept on_uow_kept other_tables other_tables_initialize saved_elsewhere_kept disjI2 refl)+

interpretation kept: runtime_invariant env "kept i r" for env i r
proof unfold_locales
  show "maintains (kept i r) (invoke_skill env b y)" for b y
    unfolding invoke_skill_def call_skill_def by (intro flow_rules kept_calls.start_keeps world_kept)
qed

lemma run_kept: "maintains (kept i r) (agent_run env arg outcome outputs)"
proof -
  have load: "maintains (kept i r) (load_execution env j)" for j
    unfolding load_execution_def by (intro flow_rules world_kept)
  have "maintains (kept i r) (resolve_execution env arg)"
    unfolding resolve_execution_def Let_def by (cases arg) (simp_all add: flow_rules load world_kept)
  then show ?thesis unfolding agent_run_def by (intro flow_rules kept.run_keeps)
qed

section \<open>The services\<close>

lemma rolled_back_kept: "maintains (kept i r) (rolled_back e)"
  unfolding rolled_back_def by (intro flow_rules rollback_kept)

lemma handlers_kept:
  "maintains (kept i r) (create_handler e)" "maintains (kept i r) (resume_handler e)" "maintains (kept i r) (cancel_handler e)"
  "maintains (kept i r) (decide_handler e)" "maintains (kept i r) (expire_handler e)"
  unfolding create_handler_def resume_handler_def cancel_handler_def decide_handler_def expire_handler_def
  by (intro flow_rules rolled_back_kept)+

lemmas service_rules = flow_rules handlers_kept rolled_back_kept world_kept commit_kept run_kept on_uow_kept other_tables

lemma create_kept: "maintains (kept i r) (create_execute env c)"
proof -
  have "maintains (kept i r) (create_aggregate env c w)" for w
    by (auto simp: hoareE_def create_aggregate_def updE_apply kept_def bindR_Inr_iff split: sum.splits)
  then show ?thesis unfolding create_execute_def create_body_def by (intro service_rules)
qed

lemma catalog_kept: "maintains (kept i r) (catalog_execute env c)"
  unfolding catalog_execute_def by (intro service_rules create_kept)

lemma resume_kept: "maintains (kept i r) (resume_execute env k)"
  unfolding resume_execute_def dispatch_def by (intro service_rules)

lemma cancel_kept: "maintains (kept i r) (cancel_execute env k)"
  unfolding cancel_execute_def cancel_body_def Let_def by (intro service_rules)

text \<open>A decision keeps the identifier of its request.\<close>

lemma decision_keeps_id:
  "maintains (\<lambda>a. ar_id a = k) (approve by key fp d)" "maintains (\<lambda>a. ar_id a = k) (reject by key d)"
  "maintains (\<lambda>a. ar_id a = k) (expire d)"
  unfolding approve_def reject_def expire_def approval_resolve_def ensure_pending_def finish_decision_def Let_def
  by (intro flow_rules hoare_intros; simp add: resolve_assign_def expire_assign_def)+

lemma on_request_kept:
  assumes "maintains (\<lambda>a. ar_id a = ar_id b) m"
  shows "hoareE (kept i r) (on_request m b) (\<lambda>c s. kept i r s \<and> ar_id c = ar_id b) (\<lambda>_. kept i r)"
proof (cases "m b")
  case (Pair res c)
  show ?thesis
  proof (cases res)
    case (Inr u)
    with Pair hoareE_D_ok [OF assms, of b u c] have "ar_id c = ar_id b" by simp
    with Pair Inr show ?thesis by (simp add: hoareE_def on_request_def op_simps)
  qed (simp add: Pair hoareE_def on_request_def op_simps)
qed

lemma elsewhere_kept:
  assumes "ar_id a \<noteq> i"
  shows "maintains (kept i r) (expire_and_cancel env a)"
    and "maintains (kept i r) (bindE (waiting_version a)
      (\<lambda>v. tryE (bindE (decide_request env c a) (\<lambda>(b, outcome). save_and_resume env v b outcome)) decide_handler))"
proof -
  have version: "maintains (kept i r) (waiting_version a)"
    unfolding waiting_version_def by (intro service_rules)
  have save: "hoareE (\<lambda>s. kept i r s \<and> ar_id b = ar_id a) (save_and_resume env v b outcome) (\<lambda>_. kept i r) (\<lambda>_. kept i r)" for v b outcome
  proof (cases "ar_id b = ar_id a")
    case True
    with assms have "maintains (kept i r) (save_and_resume env v b outcome)"
      unfolding save_and_resume_def dispatch_def decision_view_def by (intro service_rules saved_elsewhere_kept) simp
    then show ?thesis by (rule hoareE_conseq) simp_all
  qed (simp add: hoareE_def)
  have decide: "hoareE (kept i r) (decide_request env c a) (\<lambda>(b, _) s. kept i r s \<and> ar_id b = ar_id a) (\<lambda>_. kept i r)"
  proof -
    have fin: "hoareE (kept i r) (bindE (on_request m a) (\<lambda>b. returnE (b, outcome)))
        (\<lambda>(b, _) s. kept i r s \<and> ar_id b = ar_id a) (\<lambda>_. kept i r)" if "\<And>k. maintains (\<lambda>a. ar_id a = k) m" for m and outcome :: ApprovalOutcome
      by (rule hoareE_bind [OF on_request_kept [OF that]]) (simp add: hoareE_return)
    have clock: "hoareE (kept i r) (bindE (runtime_clock e) f) Q (\<lambda>_. kept i r)" if "\<And>now. hoareE (kept i r) (f now) Q (\<lambda>_. kept i r)"
      for e f and Q :: "ApprovalRequest \<times> ApprovalOutcome \<Rightarrow> runtime \<Rightarrow> bool" by (rule hoareE_bind [OF world_kept(2) that])
    show ?thesis unfolding decide_request_def
      by (cases "ad_decision c"; cases "ad_current_fingerprint c")
        (auto intro!: clock fin decision_keeps_id hoareE_then [where R = "kept i r"] intro: hoareE_raise hoareE_read)
  qed
  show "maintains (kept i r) (expire_and_cancel env a)"
    unfolding expire_and_cancel_def
    by (rule maintains_bind [OF version], rule maintains_try, rule maintains_bind [OF world_kept(2)],
        rule hoareE_bind [OF on_request_kept [OF decision_keeps_id(3)] save], rule handlers_kept)
  have "maintains (kept i r) (bindE (decide_request env c a) (\<lambda>(b, outcome). save_and_resume env v b outcome))" for v
    by (rule hoareE_bind [OF decide]) (auto intro: save)
  then show "maintains (kept i r) (bindE (waiting_version a)
      (\<lambda>v. tryE (bindE (decide_request env c a) (\<lambda>(b, outcome). save_and_resume env v b outcome)) decide_handler))"
    by (intro maintains_bind [OF version] maintains_try handlers_kept)
qed

lemma loaded_approval:
  assumes "kept i r s" and "approval_get (rt_uow s) k = Inr (Some a)"
  shows "ar_id a = k" and "ar_id a = i \<Longrightarrow> ar_status a = ar_status (ap_request r)"
proof -
  from assms(2) obtain q where q: "map_of (md_approvals (mu_view (rt_uow s))) k = Some q" "to_approval q = Inr a"
    by (auto simp: approval_get_def bindR_Inr_iff split: option.splits)
  have a: "ar_id a = ar_id (ap_request q)" "ar_status a = ar_status (ap_request q)"
    using q(2) by (auto simp: to_approval_def approval_request_post_init_def bindR_Inr_iff Let_def)
  with q(1) assms(1) show "ar_id a = k" by (simp add: kept_def keyed_def)
  with q(1) assms(1) a show "ar_status a = ar_status (ap_request r)" if "ar_id a = i" using that by (simp add: kept_def)
qed

lemma decide_kept:
  assumes "approval_is_terminal (ar_status (ap_request r))"
  shows "maintains (kept i r) (decide_execute env c)"
proof -
  let ?R = "\<lambda>found s. kept i r s \<and> (case found of None \<Rightarrow> True | Some a \<Rightarrow> ar_id a = i \<longrightarrow> ar_status a = ar_status (ap_request r))"
  show ?thesis unfolding decide_execute_def
  proof (rule hoareE_bind [where R = ?R])
    show "hoareE (kept i r) (readE (\<lambda>s. approval_get (rt_uow s) (ad_approval_id c))) ?R (\<lambda>_. kept i r)"
      by (rule hoareE_read) (auto split: option.splits dest: loaded_approval)
  next
    fix found
    have "maintains (kept i r) (case found of
        None \<Rightarrow> raiseE (ApplicationNotFoundError (''ApprovalRequest '' @ ad_approval_id c @ '' was not found''))
      | Some a \<Rightarrow>
          bindE (past_deadline env a)
          (\<lambda>late. if late then expire_and_cancel env a
            else if approval_is_terminal (ar_status a) then
              (if ar_status a = decision_target (ad_decision c) \<and>
                  ar_decision_idempotency_key a = Some (ad_decision_idempotency_key c) then decision_view a
               else raiseE (ApplicationConflictError
                 (''ApprovalRequest '' @ ar_id a @ '' is already '' @ approval_status_value (ar_status a))))
            else bindE (waiting_version a)
              (\<lambda>v. tryE (bindE (decide_request env c a) (\<lambda>(b, outcome). save_and_resume env v b outcome))
                decide_handler)))" (is "maintains _ (?m found)")
      if at: "case found of None \<Rightarrow> True | Some a \<Rightarrow> ar_id a = i \<longrightarrow> ar_status a = ar_status (ap_request r)"
    proof (cases found)
      case (Some a)
      have view: "maintains (kept i r) (decision_view a)" unfolding decision_view_def by (intro service_rules)
      have past: "maintains (kept i r) (past_deadline env a)" unfolding past_deadline_def by (intro service_rules)
      show ?thesis
      proof (cases "ar_id a = i")
        case True
        with at Some assms have st: "approval_is_terminal (ar_status a)" by simp
        then have past_now: "bindE (past_deadline env a) f = f False" for f :: "bool \<Rightarrow> (runtime, ApprovalDecisionView) op"
          by (auto simp: past_deadline_def fun_eq_iff op_simps)
        with st Some show ?thesis by (simp add: past_now flow_rules view)
      next
        case False
        show ?thesis using Some by (simp only: option.case) (intro service_rules past view elsewhere_kept [OF False])
      qed
    qed (simp add: flow_rules)
    then show "hoareE (?R found) (?m found) (\<lambda>_. kept i r) (\<lambda>_. kept i r)"
      by (auto simp: hoareE_def)
  qed
qed

section \<open>Properties\<close>

text \<open>
  C1. A resolved approval is final. Whatever services are called afterwards, in whatever order,
  with whatever commands, and whether they return or raise, the record of a request that is
  approved, rejected or expired in the database stays exactly as it is: the runtime only creates
  requests, and the decision service writes none but the pending one it has loaded.
\<close>

theorem resolved_approval_is_final:
  assumes "rt_uow s = memory_refresh (rt_db s)" and "keyed (rt_db s)"
    and "map_of (md_approvals (rt_db s)) i = Some r" and "approval_is_terminal (ar_status (ap_request r))"
  shows "map_of (md_approvals (rt_db (serve_all env cs s))) i = Some r"
proof -
  have served: "maintains (kept i r) (serve env c)" for c
    by (cases c) (simp_all add: flow_rules create_kept catalog_kept resume_kept cancel_kept decide_kept [OF assms(4)] get_run_execute_def)
  have "kept i r (serve_all env cs t)" if "kept i r t" for t
    using that unfolding serve_all_def
    by (induction cs arbitrary: t) (simp_all add: maintains_snd [OF served])
  moreover have "kept i r s" using assms(1-3) by (simp add: kept_def refresh_view)
  ultimately show ?thesis by (simp add: kept_def)
qed

definition approved_request :: ApprovalRecord where
  "approved_request = \<lparr>ap_request = sample_request\<lparr>ar_status := Approval_APPROVED, ar_resolved_by := Some ''owner'',
     ar_resolved_at := Some (Aware 4), ar_decision_idempotency_key := Some ''d1'', ar_row_version := 1\<rparr>, ap_version = 2\<rparr>"

definition approved_database :: database where
  "approved_database = empty_database\<lparr>md_approvals := [(''a1'', approved_request)]\<rparr>"

definition approved_state :: runtime where
  "approved_state = demo_idle\<lparr>rt_uow := memory_refresh approved_database, rt_db := approved_database\<rparr>"

definition late_rejection :: ApprovalDecisionCommand where
  "late_rejection = \<lparr>ad_approval_id = ''a1'', ad_decision = Decide_REJECT, ad_resolved_by = ''owner'',
     ad_decision_idempotency_key = ''d2'', ad_current_fingerprint = None, ad_reason = None, ad_metadata = []\<rparr>"

lemma late_rejection_refused:
  "fst (decide_execute demo_services late_rejection approved_state) =
     Inl (ApplicationConflictError ''ApprovalRequest a1 is already APPROVED'')"
  by code_simp

theorem resolved_approval_is_final_witness:
  "fst (decide_execute demo_services late_rejection approved_state) =
     Inl (ApplicationConflictError ''ApprovalRequest a1 is already APPROVED'') \<and>
   map_of (md_approvals (rt_db (serve_all demo_services [Call_decide late_rejection, Call_cancel ''r1''] approved_state)))
     ''a1'' = Some approved_request"
proof -
  have "keyed (rt_db approved_state)" "map_of (md_approvals (rt_db approved_state)) ''a1'' = Some approved_request"
    "rt_uow approved_state = memory_refresh (rt_db approved_state)" "approval_is_terminal (ar_status (ap_request approved_request))"
    by (simp_all add: keyed_def approved_state_def approved_database_def approved_request_def sample_request_def)
  from resolved_approval_is_final [OF this(3,1,2,4)] late_rejection_refused show ?thesis by blast
qed

end
