(* ===== verification/Progress_Model.thy ===== *)
theory Progress_Model
  imports Agent_Runtime
begin

text \<open>
  The contracts of \<^verbatim>\<open>backend/progress_reports/contracts.py\<close> that the service reads and
  writes, the chain validation of \<^verbatim>\<open>chain.py\<close> and the projection of \<^verbatim>\<open>projection.py\<close>.
  A timestamp of a report is the text the contract holds.
\<close>

section \<open>Contracts\<close>

abbreviation PROGRESS_REPORT_SCHEMA_V1 :: string where
  "PROGRESS_REPORT_SCHEMA_V1 \<equiv> ''progress-report/v0.1''"

abbreviation PROJECTION_SCHEMA_VERSION :: string where
  "PROJECTION_SCHEMA_VERSION \<equiv> ''project-progress-projection/v0.1''"

datatype ProgressStatus =
    Progress_IN_PROGRESS | Progress_COMPLETED | Progress_BLOCKED | Progress_FAILED | Progress_CANCELLED

datatype ChainState =
    VALID_CHAIN | LEGACY_CHAIN_WITH_WARNINGS | INCOMPLETE_CHAIN | CONTINUITY_CONFLICT | IDENTITY_CONFLICT
  | BRANCHED_HISTORY

datatype ValidationStatus = Validation_ACCEPTED | Validation_REJECTED

fun progress_status_value :: "ProgressStatus \<Rightarrow> string" where
  "progress_status_value Progress_IN_PROGRESS = ''IN_PROGRESS''"
| "progress_status_value Progress_COMPLETED = ''COMPLETED''"
| "progress_status_value Progress_BLOCKED = ''BLOCKED''"
| "progress_status_value Progress_FAILED = ''FAILED''"
| "progress_status_value Progress_CANCELLED = ''CANCELLED''"

fun chain_state_value :: "ChainState \<Rightarrow> string" where
  "chain_state_value VALID_CHAIN = ''VALID_CHAIN''"
| "chain_state_value LEGACY_CHAIN_WITH_WARNINGS = ''LEGACY_CHAIN_WITH_WARNINGS''"
| "chain_state_value INCOMPLETE_CHAIN = ''INCOMPLETE_CHAIN''"
| "chain_state_value CONTINUITY_CONFLICT = ''CONTINUITY_CONFLICT''"
| "chain_state_value IDENTITY_CONFLICT = ''IDENTITY_CONFLICT''"
| "chain_state_value BRANCHED_HISTORY = ''BRANCHED_HISTORY''"

fun validation_status_value :: "ValidationStatus \<Rightarrow> string" where
  "validation_status_value Validation_ACCEPTED = ''ACCEPTED''"
| "validation_status_value Validation_REJECTED = ''REJECTED''"

record PinReference =
  pn_pin_type :: string
  pn_identity :: string
  pn_version :: string
  pn_checksum :: string

record OutputArtifactReference =
  or_relative_path :: string
  or_artifact_kind :: string
  or_media_type :: string
  or_checksum :: string
  or_size :: "int option"

record ProgressReportUploadEnvelope =
  en_upload_schema_version :: string
  en_project_id :: string
  en_package_id :: string
  en_package_checksum :: string
  en_report_schema_version :: string
  en_report_id :: string
  en_report_checksum :: string
  en_original_report_media_type :: string
  en_original_report_base64 :: string
  en_original_report_checksum :: string
  en_original_report_size :: int
  en_uploaded_at :: string
  en_uploader_type :: string
  en_client_version :: string
  en_source_path_hint :: string
  en_context_snapshot_metadata :: "pymap option"
  en_envelope_checksum :: string

record NormalizedProgressRecord =
  nr_normalized_schema_version :: string
  nr_source_schema_version :: string
  nr_normalizer_version :: string
  nr_report_id :: string
  nr_report_checksum :: string
  nr_report_content_checksum :: "string option"
  nr_original_report_checksum :: string
  nr_package_id :: string
  nr_package_schema_version :: "string option"
  nr_package_checksum :: string
  nr_project_id :: string
  nr_workflow_id :: string
  nr_workflow_version :: string
  nr_workflow_checksum :: "string option"
  nr_execution_round :: int
  nr_harness_type :: string
  nr_harness_version :: "string option"
  nr_harness_session_id :: "string option"
  nr_previous_report_id :: "string option"
  nr_previous_report_checksum :: "string option"
  nr_started_at :: string
  nr_completed_at :: string
  nr_status :: ProgressStatus
  nr_completed_work :: "string list"
  nr_current_state :: string
  nr_next_recommended_action :: string
  nr_continuation_reason :: "string option"
  nr_output_artifacts :: "OutputArtifactReference list"
  nr_context_before_checksum :: "string option"
  nr_context_after_checksum :: "string option"
  nr_legacy_context_checksum :: "string option"
  nr_warnings :: "string list"
  nr_errors :: "string list"
  nr_unresolved_questions :: "string list"
  nr_continuation_instructions :: "string list"
  nr_skill_pins :: "PinReference list"
  nr_template_pins :: "PinReference list"
  nr_generated_at :: "string option"
  nr_experimental_declaration :: string
  nr_compatibility_assumptions :: "string list"
  nr_unavailable_fields :: "string list"
  nr_evidence_limitations :: "string list"
  nr_chain_state :: ChainState

record UploadedProgressReport =
  up_receipt_id :: string
  up_project_id :: string
  up_workflow_instance_id :: string
  up_package_id :: string
  up_package_checksum :: string
  up_report_id :: string
  up_report_checksum :: string
  up_report_schema_version :: string
  up_original_report_checksum :: string
  up_original_report_size :: int
  up_original_report_media_type :: string
  up_original_storage_key :: string
  up_envelope_checksum :: string
  up_uploaded_at :: string
  up_received_at :: string
  up_uploader_type :: string
  up_client_version :: string
  up_source_path_hint :: string
  up_validation_status :: ValidationStatus
  up_validation_errors :: "string list"
  up_validation_warnings :: "string list"
  up_chain_state :: ChainState
  up_accepted_for_projection :: bool
  up_normalized_record :: "NormalizedProgressRecord option"

record ProgressUploadReceipt =
  rc_receipt_id :: string
  rc_project_id :: string
  rc_workflow_instance_id :: string
  rc_package_id :: string
  rc_report_id :: string
  rc_report_checksum :: string
  rc_original_report_checksum :: string
  rc_validation_status :: ValidationStatus
  rc_chain_state :: ChainState
  rc_accepted_for_projection :: bool
  rc_idempotent_replay :: bool
  rc_uploaded_at :: string
  rc_received_at :: string
  rc_warning_count :: int
  rc_error_count :: int
  rc_receipt_checksum :: string

record ProjectProgressProjection =
  pj_schema_version :: string
  pj_project_id :: string
  pj_package_id :: string
  pj_package_schema_version :: "string option"
  pj_package_checksum :: string
  pj_workflow_id :: string
  pj_workflow_version :: string
  pj_latest_accepted_report_id :: string
  pj_latest_accepted_report_checksum :: string
  pj_latest_execution_round :: int
  pj_latest_status :: ProgressStatus
  pj_completed_work_summary :: "string list"
  pj_current_state_summary :: string
  pj_next_recommended_action :: string
  pj_output_artifacts :: "OutputArtifactReference list"
  pj_warning_count :: int
  pj_error_count :: int
  pj_unresolved_question_count :: int
  pj_harness_type :: string
  pj_latest_local_execution_timestamp :: string
  pj_latest_upload_timestamp :: string
  pj_chain_state :: ChainState
  pj_legacy_warning_state :: bool
  pj_projection_checksum :: string

section \<open>Checksums\<close>

text \<open>
  \<open>require_sha256\<close>: the prefix and 64 lowercase hexadecimal digits. The hash of a text is a
  parameter.
\<close>

definition is_sha256 :: "string \<Rightarrow> bool" where
  "is_sha256 s \<longleftrightarrow> startswith s ''sha256:'' \<and> length s = 71 \<and>
     list_all (\<lambda>c. c \<in> set ''0123456789abcdef'') (drop 7 s)"

definition require_sha256 :: "string \<Rightarrow> string \<Rightarrow> unit res" where
  "require_sha256 s name = guardR (\<not> is_sha256 s) (ValueErrorMsg (name @ '' must be sha256:<64 lowercase hex>''))"

abbreviation ZERO_HASH :: string where
  "ZERO_HASH \<equiv> ''sha256:'' @ replicate 64 CHR ''0''"

definition sha256_bytes :: "(string \<Rightarrow> string) \<Rightarrow> string \<Rightarrow> string" where
  "sha256_bytes sha content = ''sha256:'' @ sha content"

text \<open>\<open>canonical_hash\<close> of a document; \<open>allow_nan\<close> is off.\<close>

definition canonical_hash :: "(string \<Rightarrow> string) \<Rightarrow> pyval \<Rightarrow> string res" where
  "canonical_hash sha v = bindR (json_dumps False v) (\<lambda>t. Inr (sha256_bytes sha t))"

abbreviation opt_str :: "string option \<Rightarrow> pyval" where
  "opt_str s \<equiv> (case s of None \<Rightarrow> VNone | Some t \<Rightarrow> VStr t)"

abbreviation str_list :: "string list \<Rightarrow> pyval" where
  "str_list ss \<equiv> VList (map VStr ss)"

definition artifact_document :: "OutputArtifactReference \<Rightarrow> pyval" where
  "artifact_document a = VDict [(''relative_path'', VStr (or_relative_path a)), (''artifact_kind'', VStr (or_artifact_kind a)),
     (''media_type'', VStr (or_media_type a)), (''checksum'', VStr (or_checksum a)),
     (''size'', (case or_size a of None \<Rightarrow> VNone | Some n \<Rightarrow> VInt n))]"

text \<open>\<open>with_computed_checksum\<close> of a receipt: the replay flag is not part of the checksum.\<close>

definition receipt_document :: "ProgressUploadReceipt \<Rightarrow> pyval" where
  "receipt_document r = VDict [(''receipt_id'', VStr (rc_receipt_id r)), (''project_id'', VStr (rc_project_id r)),
     (''workflow_instance_id'', VStr (rc_workflow_instance_id r)), (''package_id'', VStr (rc_package_id r)),
     (''report_id'', VStr (rc_report_id r)), (''report_checksum'', VStr (rc_report_checksum r)),
     (''original_report_checksum'', VStr (rc_original_report_checksum r)),
     (''validation_status'', VStr (validation_status_value (rc_validation_status r))),
     (''chain_state'', VStr (chain_state_value (rc_chain_state r))),
     (''accepted_for_projection'', VBool (rc_accepted_for_projection r)),
     (''uploaded_at'', VStr (rc_uploaded_at r)), (''received_at'', VStr (rc_received_at r)),
     (''warning_count'', VInt (rc_warning_count r)), (''error_count'', VInt (rc_error_count r))]"

definition receipt_post_init :: "ProgressUploadReceipt \<Rightarrow> ProgressUploadReceipt res" where
  "receipt_post_init r =
     bindR (guardR (rc_warning_count r < 0 \<or> rc_error_count r < 0) (ValueErrorMsg ''receipt counts must be non-negative''))
     (\<lambda>_. bindR (require_sha256 (rc_receipt_checksum r) ''receipt_checksum'') (\<lambda>_. Inr r))"

definition receipt_with_checksum :: "(string \<Rightarrow> string) \<Rightarrow> ProgressUploadReceipt \<Rightarrow> ProgressUploadReceipt res" where
  "receipt_with_checksum sha r =
     bindR (canonical_hash sha (receipt_document r)) (\<lambda>h. receipt_post_init (r\<lparr>rc_receipt_checksum := h\<rparr>))"

definition projection_document :: "ProjectProgressProjection \<Rightarrow> pyval" where
  "projection_document p = VDict [(''schema_version'', VStr (pj_schema_version p)), (''project_id'', VStr (pj_project_id p)),
     (''package_id'', VStr (pj_package_id p)), (''package_schema_version'', opt_str (pj_package_schema_version p)),
     (''package_checksum'', VStr (pj_package_checksum p)), (''workflow_id'', VStr (pj_workflow_id p)),
     (''workflow_version'', VStr (pj_workflow_version p)),
     (''latest_accepted_report_id'', VStr (pj_latest_accepted_report_id p)),
     (''latest_accepted_report_checksum'', VStr (pj_latest_accepted_report_checksum p)),
     (''latest_execution_round'', VInt (pj_latest_execution_round p)),
     (''latest_status'', VStr (progress_status_value (pj_latest_status p))),
     (''completed_work_summary'', str_list (pj_completed_work_summary p)),
     (''current_state_summary'', VStr (pj_current_state_summary p)),
     (''next_recommended_action'', VStr (pj_next_recommended_action p)),
     (''output_artifacts'', VList (map artifact_document (pj_output_artifacts p))),
     (''warning_count'', VInt (pj_warning_count p)), (''error_count'', VInt (pj_error_count p)),
     (''unresolved_question_count'', VInt (pj_unresolved_question_count p)), (''harness_type'', VStr (pj_harness_type p)),
     (''latest_local_execution_timestamp'', VStr (pj_latest_local_execution_timestamp p)),
     (''latest_upload_timestamp'', VStr (pj_latest_upload_timestamp p)),
     (''chain_state'', VStr (chain_state_value (pj_chain_state p))),
     (''legacy_warning_state'', VBool (pj_legacy_warning_state p)), (''projection_checksum'', VNone)]"

definition projection_post_init :: "ProjectProgressProjection \<Rightarrow> ProjectProgressProjection res" where
  "projection_post_init p =
     bindR (guardR (pj_schema_version p \<noteq> PROJECTION_SCHEMA_VERSION) (ValueErrorMsg ''invalid projection schema''))
     (\<lambda>_. bindR (require_sha256 (pj_projection_checksum p) ''projection_checksum'') (\<lambda>_. Inr p))"

definition projection_with_checksum ::
  "(string \<Rightarrow> string) \<Rightarrow> ProjectProgressProjection \<Rightarrow> ProjectProgressProjection res" where
  "projection_with_checksum sha p =
     bindR (canonical_hash sha (projection_document p)) (\<lambda>h. projection_post_init (p\<lparr>pj_projection_checksum := h\<rparr>))"

section \<open>Chain validation\<close>

record ChainValidation =
  cv_state :: ChainState
  cv_accepted_for_projection :: bool
  cv_warnings :: "string list"
  cv_errors :: "string list"

abbreviation refused :: "ChainState \<Rightarrow> string \<Rightarrow> ChainValidation" where
  "refused st e \<equiv> \<lparr>cv_state = st, cv_accepted_for_projection = False, cv_warnings = [], cv_errors = [e]\<rparr>"

abbreviation admitted :: "ChainState \<Rightarrow> string list \<Rightarrow> ChainValidation" where
  "admitted st ws \<equiv> \<lparr>cv_state = st, cv_accepted_for_projection = True, cv_warnings = ws, cv_errors = []\<rparr>"

text \<open>The records of the accepted uploads, in the order of the history.\<close>

definition accepted_records :: "UploadedProgressReport list \<Rightarrow> NormalizedProgressRecord list" where
  "accepted_records history =
     concat (map (\<lambda>u. case up_normalized_record u of None \<Rightarrow> [] | Some r \<Rightarrow> if up_accepted_for_projection u then [r] else [])
       history)"

definition same_scope :: "NormalizedProgressRecord \<Rightarrow> NormalizedProgressRecord \<Rightarrow> bool" where
  "same_scope r c \<longleftrightarrow> nr_project_id r = nr_project_id c \<and> nr_package_id r = nr_package_id c \<and>
     nr_package_checksum r = nr_package_checksum c \<and> nr_workflow_id r = nr_workflow_id c \<and>
     nr_workflow_version r = nr_workflow_version c"

definition same_round :: "NormalizedProgressRecord \<Rightarrow> NormalizedProgressRecord list \<Rightarrow> NormalizedProgressRecord list" where
  "same_round c rs = filter (\<lambda>r. nr_execution_round r = nr_execution_round c) (filter (\<lambda>r. same_scope r c) rs)"

definition supersedable :: "NormalizedProgressRecord \<Rightarrow> NormalizedProgressRecord list \<Rightarrow> bool" where
  "supersedable c rs \<longleftrightarrow> list_all (\<lambda>r. nr_status r = Progress_IN_PROGRESS \<and>
     \<not> list_ex (\<lambda>other. nr_previous_report_id other = Some (nr_report_id r)) rs) (same_round c rs)"

definition occupied_by_other :: "NormalizedProgressRecord \<Rightarrow> NormalizedProgressRecord list \<Rightarrow> bool" where
  "occupied_by_other c rs \<longleftrightarrow> same_round c rs \<noteq> [] \<and> list_all (\<lambda>r. nr_report_id r \<noteq> nr_report_id c) (same_round c rs)"

abbreviation superseding_warnings :: "bool \<Rightarrow> string list" where
  "superseding_warnings b \<equiv> (if b then
     [''terminal report supersedes an earlier IN_PROGRESS checkpoint for this execution round''] else [])"

definition validate_first_round :: "bool \<Rightarrow> NormalizedProgressRecord \<Rightarrow> ChainValidation" where
  "validate_first_round superseding c =
     (if nr_previous_report_id c \<noteq> None then refused IDENTITY_CONFLICT ''round 1 must not reference a previous report''
      else if nr_source_schema_version c = PROGRESS_REPORT_SCHEMA_V1 then
        admitted LEGACY_CHAIN_WITH_WARNINGS [''legacy round accepted without context-transition verification'']
      else admitted VALID_CHAIN (superseding_warnings superseding))"

text \<open>\<open>a is not None and b is not None and a != b\<close>\<close>

definition both_differ :: "string option \<Rightarrow> string option \<Rightarrow> bool" where
  "both_differ a b \<longleftrightarrow> a \<noteq> None \<and> b \<noteq> None \<and> a \<noteq> b"

definition validate_successor ::
  "bool \<Rightarrow> NormalizedProgressRecord \<Rightarrow> NormalizedProgressRecord \<Rightarrow> ChainValidation" where
  "validate_successor superseding p c =
     (if \<not> same_scope p c then
        refused IDENTITY_CONFLICT ''previous report belongs to another project/package/workflow''
      else if nr_previous_report_checksum c \<noteq> None \<and> nr_previous_report_checksum c \<noteq> Some (nr_report_checksum p) then
        refused IDENTITY_CONFLICT ''previous report checksum does not resolve''
      else if nr_execution_round c \<noteq> nr_execution_round p + 1 then
        refused INCOMPLETE_CHAIN ''execution round is not monotonic from its predecessor''
      else if both_differ (nr_context_after_checksum p) (nr_context_before_checksum c) then
        refused CONTINUITY_CONFLICT ''context transition checksum does not continue the predecessor''
      else if nr_status p = Progress_COMPLETED \<and>
              \<not> nonblank (case nr_continuation_reason c of None \<Rightarrow> '''' | Some t \<Rightarrow> t) then
        refused CONTINUITY_CONFLICT ''a completed report requires a new-request continuation reason''
      else if nr_source_schema_version c = PROGRESS_REPORT_SCHEMA_V1 \<or>
              nr_source_schema_version p = PROGRESS_REPORT_SCHEMA_V1 then
        admitted LEGACY_CHAIN_WITH_WARNINGS [''chain includes legacy context semantics'']
      else admitted VALID_CHAIN (superseding_warnings superseding))"

text \<open>The first accepted upload with the identifier.\<close>

definition find_predecessor :: "string \<Rightarrow> UploadedProgressReport list \<Rightarrow> NormalizedProgressRecord option" where
  "find_predecessor i history =
     Option.bind (find (\<lambda>u. up_report_id u = i \<and> up_normalized_record u \<noteq> None \<and> up_accepted_for_projection u) history)
       up_normalized_record"

definition chain_validate :: "NormalizedProgressRecord \<Rightarrow> UploadedProgressReport list \<Rightarrow> ChainValidation" where
  "chain_validate c history =
     (let rs = accepted_records history; superseding = occupied_by_other c rs in
      if superseding \<and> \<not> (nr_status c = Progress_COMPLETED \<and> supersedable c rs) then
        refused BRANCHED_HISTORY ''another accepted report already occupies this execution round''
      else if nr_execution_round c = 1 then validate_first_round superseding c
      else (case nr_previous_report_id c of
          None \<Rightarrow> refused INCOMPLETE_CHAIN ''later round does not identify its predecessor''
        | Some i \<Rightarrow>
            (case find_predecessor i history of
               None \<Rightarrow> refused INCOMPLETE_CHAIN ''previous report is not present in accepted history''
             | Some p \<Rightarrow> validate_successor superseding p c)))"

section \<open>Projection\<close>

text \<open>\<open>html.escape\<close>, quotes included.\<close>

definition escape_char :: "char \<Rightarrow> string" where
  "escape_char c =
     (if c = CHR ''&'' then ''&amp;'' else if c = CHR ''<'' then ''&lt;'' else if c = CHR ''>'' then ''&gt;''
      else if c = CHR 0x22 then ''&quot;'' else if c = CHR 0x27 then ''&#x27;'' else [c])"

definition escape :: "string \<Rightarrow> string" where
  "escape s = concat (map escape_char s)"

text \<open>The first occurrence of each element.\<close>

fun first_occurrences :: "'a list \<Rightarrow> 'a list" where
  "first_occurrences [] = []"
| "first_occurrences (x # xs) = x # filter (\<lambda>y. y \<noteq> x) (first_occurrences xs)"

type_synonym accepted_upload = "UploadedProgressReport \<times> NormalizedProgressRecord"

definition accepted_uploads :: "UploadedProgressReport list \<Rightarrow> accepted_upload list" where
  "accepted_uploads history =
     concat (map (\<lambda>u. case up_normalized_record u of None \<Rightarrow> [] | Some r \<Rightarrow> if up_accepted_for_projection u then [(u, r)] else [])
       history)"

definition projection_order :: "accepted_upload \<Rightarrow> int \<times> string \<times> int \<times> string" where
  "projection_order = (\<lambda>(u, r). (nr_execution_round r, nr_completed_at r,
     (if nr_status r = Progress_COMPLETED then 1 else 0), up_report_id u))"

definition projection_of :: "accepted_upload list \<Rightarrow> UploadedProgressReport \<Rightarrow> NormalizedProgressRecord \<Rightarrow> ProjectProgressProjection" where
  "projection_of accepted u latest =
     \<lparr>pj_schema_version = PROJECTION_SCHEMA_VERSION, pj_project_id = nr_project_id latest,
      pj_package_id = nr_package_id latest, pj_package_schema_version = nr_package_schema_version latest,
      pj_package_checksum = nr_package_checksum latest, pj_workflow_id = nr_workflow_id latest,
      pj_workflow_version = nr_workflow_version latest, pj_latest_accepted_report_id = nr_report_id latest,
      pj_latest_accepted_report_checksum = nr_report_checksum latest,
      pj_latest_execution_round = nr_execution_round latest, pj_latest_status = nr_status latest,
      pj_completed_work_summary = map escape (first_occurrences (concat (map (\<lambda>(_, r). nr_completed_work r) accepted))),
      pj_current_state_summary = escape (nr_current_state latest),
      pj_next_recommended_action = escape (nr_next_recommended_action latest),
      pj_output_artifacts = nr_output_artifacts latest, pj_warning_count = int (length (nr_warnings latest)),
      pj_error_count = int (length (nr_errors latest)),
      pj_unresolved_question_count = int (length (nr_unresolved_questions latest)),
      pj_harness_type = nr_harness_type latest, pj_latest_local_execution_timestamp = nr_completed_at latest,
      pj_latest_upload_timestamp = up_received_at u, pj_chain_state = nr_chain_state latest,
      pj_legacy_warning_state = list_ex (\<lambda>(_, r). nr_source_schema_version r = PROGRESS_REPORT_SCHEMA_V1) accepted,
      pj_projection_checksum = ZERO_HASH\<rparr>"

definition build_projection ::
  "(string \<Rightarrow> string) \<Rightarrow> UploadedProgressReport list \<Rightarrow> ProjectProgressProjection option res" where
  "build_projection sha history =
     (let accepted = sort_key projection_order (accepted_uploads history) in
      if accepted = [] then Inr None
      else (case last accepted of (u, latest) \<Rightarrow>
        bindR (projection_post_init (projection_of accepted u latest))
        (\<lambda>p. bindR (projection_with_checksum sha p) (\<lambda>q. Inr (Some q)))))"

end
