(* ===== verification/Progress_Service.thy ===== *)
theory Progress_Service
  imports Progress_Model
begin

text \<open>
  The ingestion of reports, \<^verbatim>\<open>backend/progress_reports/service.py\<close>, over the in-memory
  repository (\<^verbatim>\<open>persistence/adapters/in_memory.py\<close>), and the resolution of the workflow
  instance, \<^verbatim>\<open>identity.py\<close>.

  The normalizer of report bytes, the resolver, the content storage and the artifact reference
  service are fields of \<open>progress_env\<close>; the last two act on a part of the state of their own.
\<close>

section \<open>Workflow identity\<close>

record CapsuleArtifactRow =
  ca_workflow_instance_id :: string
  ca_package_id :: string
  ca_package_checksum :: string

record WorkflowInstanceRow =
  wi_workflow_instance_id :: string
  wi_project_id :: string
  wi_workflow_definition_id :: string
  wi_workflow_version :: string

text \<open>
  What the resolver reads: whether the Project is registered, its current Package, the Capsule
  artifacts of the Project, and the Workflow Instances; \<open>il_legacy_id\<close> is the identifier derived
  for legacy Projects.
\<close>

record identity_lookups =
  il_registered :: "string \<Rightarrow> bool"
  il_current_package :: "string \<Rightarrow> (string \<times> string) option"
  il_capsule_artifacts :: "string \<Rightarrow> CapsuleArtifactRow list"
  il_instance :: "string \<Rightarrow> WorkflowInstanceRow option"
  il_legacy_id :: "string \<Rightarrow> string"

definition identity_error :: "string \<Rightarrow> py_exc" where
  "identity_error message = ApplicationCodedValidationError message ''PROGRESS_WORKFLOW_IDENTITY_MISMATCH''"

definition chosen_instance ::
  "identity_lookups \<Rightarrow> ProgressReportUploadEnvelope \<Rightarrow> string option \<Rightarrow> string res" where
  "chosen_instance l e requested =
     (let artifacts = filter (\<lambda>a. ca_package_id a = en_package_id e \<and> ca_package_checksum a = en_package_checksum e)
            (il_capsule_artifacts l (en_project_id e));
          legacy_id = il_legacy_id l (en_project_id e);
          legacy_matches = (il_current_package l (en_project_id e) = Some (en_package_id e, en_package_checksum e)) in
      case requested of
        Some i \<Rightarrow>
          bindR (guardR (filter (\<lambda>a. ca_workflow_instance_id a = i) artifacts = [] \<and> \<not> (legacy_matches \<and> i = legacy_id))
              (identity_error ''Progress Package is not bound to the requested Workflow Instance''))
            (\<lambda>_. Inr i)
      | None \<Rightarrow>
          (case artifacts of
             [a] \<Rightarrow> Inr (ca_workflow_instance_id a)
           | _ # _ # _ \<Rightarrow> Inl (identity_error ''Progress Package identity is ambiguous'')
           | [] \<Rightarrow> if legacy_matches then Inr legacy_id
               else Inl (identity_error
                 ''Progress upload requires an exact Capsule artifact or supported legacy Package binding'')))"

definition identity_resolve ::
  "identity_lookups \<Rightarrow> ProgressReportUploadEnvelope \<Rightarrow> NormalizedProgressRecord option \<Rightarrow> string option \<Rightarrow> string res" where
  "identity_resolve l e normalized requested =
     bindR (guardR (\<not> il_registered l (en_project_id e)) (identity_error ''Progress Project is not registered''))
     (\<lambda>_. bindR (chosen_instance l e requested)
     (\<lambda>i. case il_instance l i of
        None \<Rightarrow> Inl (identity_error ''Workflow Instance does not exist'')
      | Some w \<Rightarrow>
          bindR (guardR (wi_project_id w \<noteq> en_project_id e)
            (identity_error ''Workflow Instance belongs to another Project''))
          (\<lambda>_. bindR (guardR (case normalized of None \<Rightarrow> False | Some n \<Rightarrow> nr_project_id n \<noteq> en_project_id e \<or>
                 nr_workflow_id n \<noteq> wi_workflow_definition_id w \<or> nr_workflow_version n \<noteq> wi_workflow_version w)
               (identity_error ''Progress Report Workflow identity does not match the Workflow Instance''))
            (\<lambda>_. Inr (wi_workflow_instance_id w)))))"

section \<open>Envelopes\<close>

text \<open>\<open>base64.b64decode(s, validate=True)\<close>: groups of four, padding only in the last.\<close>

definition b64_digit :: "char \<Rightarrow> int option" where
  "b64_digit c =
     (let n = of_char c :: int in
      if 65 \<le> n \<and> n \<le> 90 then Some (n - 65) else if 97 \<le> n \<and> n \<le> 122 then Some (n - 71)
      else if 48 \<le> n \<and> n \<le> 57 then Some (n + 4) else if n = 43 then Some 62 else if n = 47 then Some 63 else None)"

fun b64_decode :: "string \<Rightarrow> string option" where
  "b64_decode [] = Some []"
| "b64_decode [a, b, c, d] =
     (case (b64_digit a, b64_digit b, b64_digit c, b64_digit d) of
        (Some w, Some x, Some y, Some z) \<Rightarrow>
          (let n = w * 262144 + x * 4096 + y * 64 + z in
           Some [char_of (n div 65536), char_of (n div 256 mod 256), char_of (n mod 256)])
      | (Some w, Some x, Some y, None) \<Rightarrow>
          if d = CHR ''='' then
            (let n = w * 262144 + x * 4096 + y * 64 in Some [char_of (n div 65536), char_of (n div 256 mod 256)])
          else None
      | (Some w, Some x, None, None) \<Rightarrow>
          if c = CHR ''='' \<and> d = CHR ''='' then
            (let n = w * 262144 + x * 4096 in Some [char_of (n div 65536)])
          else None
      | _ \<Rightarrow> None)"
| "b64_decode (a # b # c # d # s) =
     (case (b64_digit a, b64_digit b, b64_digit c, b64_digit d) of
        (Some w, Some x, Some y, Some z) \<Rightarrow>
          (let n = w * 262144 + x * 4096 + y * 64 + z in
           map_option (\<lambda>t. char_of (n div 65536) # char_of (n div 256 mod 256) # char_of (n mod 256) # t) (b64_decode s))
      | _ \<Rightarrow> None)"
| "b64_decode _ = None"

definition original_report_bytes :: "(string \<Rightarrow> string) \<Rightarrow> ProgressReportUploadEnvelope \<Rightarrow> string res" where
  "original_report_bytes sha e =
     (case b64_decode (en_original_report_base64 e) of
        None \<Rightarrow> Inl (ValueErrorMsg ''original report is not valid base64'')
      | Some content \<Rightarrow>
          bindR (guardR (int (length content) \<noteq> en_original_report_size e) (ValueErrorMsg ''original report size mismatch''))
          (\<lambda>_. bindR (guardR (sha256_bytes sha content \<noteq> en_original_report_checksum e)
               (ValueErrorMsg ''original report byte checksum mismatch''))
            (\<lambda>_. Inr content)))"

section \<open>The repository\<close>

text \<open>The view of the unit of work, the committed tables, and what the collaborators keep.\<close>

type_synonym projection_key = "string \<times> string \<times> string \<times> string"

record 'x progress_state =
  ps_reports :: "(string \<times> UploadedProgressReport) list"
  ps_projections :: "(projection_key \<times> ProjectProgressProjection) list"
  ps_committed_reports :: "(string \<times> UploadedProgressReport) list"
  ps_committed_projections :: "(projection_key \<times> ProjectProgressProjection) list"
  ps_ticks :: nat
  ps_other :: 'x

definition progress_append :: "UploadedProgressReport \<Rightarrow> ('x progress_state, unit) op" where
  "progress_append u = updE (\<lambda>s. case map_of (ps_reports s) (up_receipt_id u) of
     Some existing \<Rightarrow>
       if existing \<noteq> u then Inl (DuplicateEntityError (''Progress receipt '' @ up_receipt_id u @ '' has conflicting content''))
       else Inr s
   | None \<Rightarrow> Inr (s\<lparr>ps_reports := ps_reports s @ [(up_receipt_id u, u)]\<rparr>))"

definition progress_rows :: "'x progress_state \<Rightarrow> UploadedProgressReport list" where
  "progress_rows s = map snd (ps_reports s)"

definition received_order :: "UploadedProgressReport \<Rightarrow> string \<times> string" where
  "received_order u = (up_received_at u, up_receipt_id u)"

definition find_exact ::
  "'x progress_state \<Rightarrow> string \<Rightarrow> ProgressReportUploadEnvelope \<Rightarrow> UploadedProgressReport option" where
  "find_exact s i e = find (\<lambda>u. up_project_id u = en_project_id e \<and> up_workflow_instance_id u = i \<and>
     up_package_id u = en_package_id e \<and> up_package_checksum u = en_package_checksum e \<and>
     up_report_id u = en_report_id e \<and> up_report_checksum u = en_report_checksum e \<and>
     up_original_report_checksum u = en_original_report_checksum e) (progress_rows s)"

definition list_for_project ::
  "'x progress_state \<Rightarrow> string \<Rightarrow> string option \<Rightarrow> string option \<Rightarrow> UploadedProgressReport list" where
  "list_for_project s project package instance_id = sort_key received_order
     (filter (\<lambda>u. up_project_id u = project \<and> (package = None \<or> package = Some (up_package_id u)) \<and>
        (instance_id = None \<or> instance_id = Some (up_workflow_instance_id u))) (progress_rows s))"

definition list_by_report_id :: "'x progress_state \<Rightarrow> string \<Rightarrow> UploadedProgressReport list" where
  "list_by_report_id s i = sort_key received_order (filter (\<lambda>u. up_report_id u = i) (progress_rows s))"

definition list_by_original_checksum :: "'x progress_state \<Rightarrow> string \<Rightarrow> UploadedProgressReport list" where
  "list_by_original_checksum s c =
     sort_key received_order (filter (\<lambda>u. up_original_report_checksum u = c) (progress_rows s))"

definition projection_key :: "ProjectProgressProjection \<Rightarrow> projection_key" where
  "projection_key p = (pj_project_id p, pj_package_id p, pj_workflow_id p, pj_workflow_version p)"

definition save_projection :: "ProjectProgressProjection \<Rightarrow> ('x progress_state, unit) op" where
  "save_projection p = modifyE (\<lambda>s. s\<lparr>ps_projections := AList.update (projection_key p) p (ps_projections s)\<rparr>)"

section \<open>The service\<close>

text \<open>
  The artifact reference service: \<open>derive_reviewed_progress_declarations\<close>,
  \<open>promote_progress_artifacts\<close> and \<open>assert_progress_replay\<close>.
\<close>

record ('x, 'd) artifact_service =
  av_derive :: "'x \<Rightarrow> string \<Rightarrow> NormalizedProgressRecord \<Rightarrow> 'd list res"
  av_promote :: "UploadedProgressReport \<Rightarrow> NormalizedProgressRecord \<Rightarrow> 'd list \<Rightarrow> ('x, unit) op"
  av_assert_replay :: "string \<Rightarrow> 'd list \<Rightarrow> ('x, unit) op"

record ('x, 'd) progress_env =
  pe_sha :: "string \<Rightarrow> string"
  pe_normalize :: "string \<Rightarrow> NormalizedProgressRecord res"
  pe_resolve :: "'x \<Rightarrow> ProgressReportUploadEnvelope \<Rightarrow> NormalizedProgressRecord option \<Rightarrow> string option \<Rightarrow> string res"
  pe_write_immutable :: "string \<Rightarrow> string \<Rightarrow> string \<Rightarrow> ('x, unit) op"
  pe_commit :: "('x, unit) op"
  pe_clock :: "nat \<Rightarrow> datetime"
  pe_artifacts :: "('x, 'd) artifact_service option"

text \<open>\<open>except ValueError\<close>, and its subclass for unsafe bytes.\<close>

fun is_UnsafeProgressReportError :: "py_exc \<Rightarrow> bool" where
  "is_UnsafeProgressReportError (UnsafeProgressReportError _) = True"
| "is_UnsafeProgressReportError _ = False"

fun is_ValueError :: "py_exc \<Rightarrow> bool" where
  "is_ValueError (ValueErrorMsg _) = True"
| "is_ValueError PyValueError = True"
| "is_ValueError (UnsafeProgressReportError _) = True"
| "is_ValueError _ = False"

definition on_other :: "('x, 'a) op \<Rightarrow> ('x progress_state, 'a) op" where
  "on_other m s = (case m (ps_other s) of (r, x) \<Rightarrow> (r, s\<lparr>ps_other := x\<rparr>))"

text \<open>\<open>unit_of_work.commit\<close>: all tables or none.\<close>

definition progress_commit :: "('x, 'd) progress_env \<Rightarrow> ('x progress_state, unit) op" where
  "progress_commit env = thenE (on_other (pe_commit env))
     (modifyE (\<lambda>s. s\<lparr>ps_committed_reports := ps_reports s, ps_committed_projections := ps_projections s\<rparr>))"

definition progress_rollback :: "'x progress_state \<Rightarrow> 'x progress_state" where
  "progress_rollback s = s\<lparr>ps_reports := ps_committed_reports s, ps_projections := ps_committed_projections s\<rparr>"

definition progress_clock :: "('x, 'd) progress_env \<Rightarrow> ('x progress_state, datetime) op" where
  "progress_clock env s = (Inr (pe_clock env (ps_ticks s)), s\<lparr>ps_ticks := Suc (ps_ticks s)\<rparr>)"

text \<open>\<open>value.astimezone(utc).isoformat().replace("+00:00", "Z")\<close>\<close>

fun cloud_timestamp :: "datetime \<Rightarrow> string res" where
  "cloud_timestamp (Aware i) = Inr (isoformat_at i @ ''Z'')"
| "cloud_timestamp (Naive i) = Inl (ValueErrorMsg ''cloud clock must be timezone-aware'')"

text \<open>
  \<open>checksum.split(":", 1)[1]\<close>; it is only taken of texts that start with \<open>sha256:\<close>, so the
  \<open>IndexError\<close> of a text without colon never occurs.
\<close>

definition after_colon :: "string \<Rightarrow> string res" where
  "after_colon s = (case dropWhile (\<lambda>c. c \<noteq> CHR '':'') s of [] \<Rightarrow> Inl (PyKeyError ''list index out of range'') | _ # t \<Rightarrow> Inr t)"

definition storage_key :: "ProgressReportUploadEnvelope \<Rightarrow> string res" where
  "storage_key e = bindR (after_colon (en_original_report_checksum e))
     (\<lambda>d. Inr (''progress-reports/'' @ en_project_id e @ ''/'' @ en_package_id e @ ''/'' @ d @ ''.json''))"

definition identity_document :: "ProgressReportUploadEnvelope \<Rightarrow> pyval" where
  "identity_document e = VDict [(''project_id'', VStr (en_project_id e)), (''package_id'', VStr (en_package_id e)),
     (''package_checksum'', VStr (en_package_checksum e)), (''report_id'', VStr (en_report_id e)),
     (''report_checksum'', VStr (en_report_checksum e)),
     (''original_report_checksum'', VStr (en_original_report_checksum e))]"

definition receipt_id :: "(string \<Rightarrow> string) \<Rightarrow> ProgressReportUploadEnvelope \<Rightarrow> string res" where
  "receipt_id sha e = bindR (canonical_hash sha (identity_document e))
     (\<lambda>h. bindR (after_colon h) (\<lambda>d. Inr (''progress-receipt-'' @ d)))"

definition receipt_of :: "(string \<Rightarrow> string) \<Rightarrow> UploadedProgressReport \<Rightarrow> bool \<Rightarrow> ProgressUploadReceipt res" where
  "receipt_of sha u idempotent =
     bindR (receipt_post_init \<lparr>rc_receipt_id = up_receipt_id u, rc_project_id = up_project_id u,
        rc_workflow_instance_id = up_workflow_instance_id u, rc_package_id = up_package_id u,
        rc_report_id = up_report_id u, rc_report_checksum = up_report_checksum u,
        rc_original_report_checksum = up_original_report_checksum u, rc_validation_status = up_validation_status u,
        rc_chain_state = up_chain_state u, rc_accepted_for_projection = up_accepted_for_projection u,
        rc_idempotent_replay = idempotent, rc_uploaded_at = up_uploaded_at u, rc_received_at = up_received_at u,
        rc_warning_count = int (length (up_validation_warnings u)), rc_error_count = int (length (up_validation_errors u)),
        rc_receipt_checksum = ZERO_HASH\<rparr>)
     (receipt_with_checksum sha)"

text \<open>\<open>_assert_artifact_replay\<close>\<close>

definition assert_artifact_replay :: "('x, 'd) progress_env \<Rightarrow> string \<Rightarrow> 'd list \<Rightarrow> ('x progress_state, unit) op" where
  "assert_artifact_replay env rid decls =
     (case pe_artifacts env of
        None \<Rightarrow> readE (\<lambda>_. guardR (decls \<noteq> []) (ValueErrorMsg ''canonical Artifact declaration service is unavailable''))
      | Some av \<Rightarrow> on_other (av_assert_replay av rid decls))"

definition promote ::
  "('x, 'd) progress_env \<Rightarrow> UploadedProgressReport \<Rightarrow> NormalizedProgressRecord option \<Rightarrow> 'd list \<Rightarrow> ('x progress_state, unit) op" where
  "promote env u normalized decls =
     (case (pe_artifacts env, normalized) of
        (Some av, Some n) \<Rightarrow> on_other (av_promote av u n decls)
      | _ \<Rightarrow> raiseE (ValueErrorMsg ''canonical Artifact declaration service is unavailable''))"

definition derive ::
  "('x, 'd) progress_env \<Rightarrow> string \<Rightarrow> NormalizedProgressRecord option \<Rightarrow> ('x progress_state, 'd list) op" where
  "derive env i normalized =
     (case (pe_artifacts env, normalized) of
        (Some av, Some n) \<Rightarrow> readE (\<lambda>s. av_derive av (ps_other s) i n)
      | _ \<Rightarrow> returnE [])"

text \<open>\<open>derivation_record\<close>\<close>

definition derivation_record ::
  "('x, 'd) progress_env \<Rightarrow> string \<Rightarrow> 'd list \<Rightarrow> NormalizedProgressRecord option res" where
  "derivation_record env content decls =
     (if decls = [] \<and> pe_artifacts env \<noteq> None then
        (case pe_normalize env content of
           Inr n \<Rightarrow> Inr (Some n)
         | Inl e \<Rightarrow> if is_ValueError e then Inr None else Inl e)
      else Inr None)"

text \<open>An accepted exact row is an idempotent replay; declarations derived for it are promoted.\<close>

definition replay ::
  "('x, 'd) progress_env \<Rightarrow> UploadedProgressReport \<Rightarrow> string \<Rightarrow> NormalizedProgressRecord option \<Rightarrow> 'd list \<Rightarrow>
   ('x progress_state, ProgressUploadReceipt) op" where
  "replay env u instance_id derivation decls =
     bindE (if decls = [] then derive env instance_id derivation else returnE [])
     (\<lambda>derived. thenE (if derived \<noteq> [] then thenE (promote env u derivation derived) (progress_commit env) else returnE ())
       (thenE (assert_artifact_replay env (up_receipt_id u) (if derived \<noteq> [] then derived else decls))
         (readE (\<lambda>_. receipt_of (pe_sha env) u True))))"

definition identity_errors_of_row :: "ProgressReportUploadEnvelope \<Rightarrow> UploadedProgressReport \<Rightarrow> string list" where
  "identity_errors_of_row e u =
     (if \<not> up_accepted_for_projection u then []
      else (if up_report_checksum u \<noteq> en_report_checksum e then [''report ID already exists with another checksum'']
            else if up_original_report_checksum u \<noteq> en_original_report_checksum e then
              [''report ID already exists with different original bytes''] else []) @
           (if up_project_id u \<noteq> en_project_id e \<or> up_package_id u \<noteq> en_package_id e then
              [''report ID is already bound to another identity''] else []))"

definition original_errors_of_row :: "ProgressReportUploadEnvelope \<Rightarrow> UploadedProgressReport \<Rightarrow> string list" where
  "original_errors_of_row e u =
     (if \<not> up_accepted_for_projection u then []
      else if up_project_id u \<noteq> en_project_id e \<or> up_package_id u \<noteq> en_package_id e \<or>
              up_package_checksum u \<noteq> en_package_checksum e then
        [''original report checksum is already bound to an incompatible identity''] else [])"

definition collision_errors :: "'x progress_state \<Rightarrow> ProgressReportUploadEnvelope \<Rightarrow> string list" where
  "collision_errors s e =
     concat (map (identity_errors_of_row e) (list_by_report_id s (en_report_id e))) @
     concat (map (original_errors_of_row e) (list_by_original_checksum s (en_original_report_checksum e)))"

definition envelope_mismatches :: "ProgressReportUploadEnvelope \<Rightarrow> NormalizedProgressRecord \<Rightarrow> string list" where
  "envelope_mismatches e n =
     (if nr_project_id n \<noteq> en_project_id e then [''envelope project does not match report''] else []) @
     (if nr_package_id n \<noteq> en_package_id e then [''envelope package does not match report''] else []) @
     (if nr_package_checksum n \<noteq> en_package_checksum e then [''envelope package checksum does not match report''] else []) @
     (if nr_report_id n \<noteq> en_report_id e then [''envelope report ID does not match report''] else []) @
     (if nr_report_checksum n \<noteq> en_report_checksum e then [''envelope report checksum does not match report''] else [])"

text \<open>What the \<open>try\<close> block around the normalizer leaves behind.\<close>

record examination =
  xm_normalized :: "NormalizedProgressRecord option"
  xm_validation_errors :: "string list"
  xm_identity_errors :: "string list"
  xm_warnings :: "string list"

abbreviation failed_examination :: "NormalizedProgressRecord option \<Rightarrow> py_exc \<Rightarrow> examination res" where
  "failed_examination n e \<equiv>
     (if is_UnsafeProgressReportError e then Inl e
      else if is_ValueError e then
        Inr \<lparr>xm_normalized = n, xm_validation_errors = [exc_str e], xm_identity_errors = [], xm_warnings = []\<rparr>
      else Inl e)"

definition examine ::
  "('x, 'd) progress_env \<Rightarrow> 'x \<Rightarrow> ProgressReportUploadEnvelope \<Rightarrow> string option \<Rightarrow> string \<Rightarrow> string \<Rightarrow> examination res" where
  "examine env x e requested resolved content =
     (case pe_normalize env content of
        Inl err \<Rightarrow> failed_examination None err
      | Inr n \<Rightarrow>
          (case pe_resolve env x e (Some n) requested of
             Inl err \<Rightarrow> failed_examination (Some n) err
           | Inr verified \<Rightarrow>
               if verified \<noteq> resolved then
                 failed_examination (Some n) (ValueErrorMsg ''Progress Workflow Instance resolution changed'')
               else Inr \<lparr>xm_normalized = Some n,
                 xm_validation_errors = (if nr_source_schema_version n \<noteq> en_report_schema_version e then
                   [''envelope report schema does not match report''] else []),
                 xm_identity_errors = envelope_mismatches e n,
                 xm_warnings = nr_compatibility_assumptions n @ nr_evidence_limitations n\<rparr>))"

text \<open>The verdict: chain state, acceptance, errors, warnings and the record to keep.\<close>

record verdict =
  vd_chain_state :: ChainState
  vd_accepted :: bool
  vd_errors :: "string list"
  vd_warnings :: "string list"
  vd_record :: "NormalizedProgressRecord option"

definition judge :: "string list \<Rightarrow> examination \<Rightarrow> UploadedProgressReport list \<Rightarrow> verdict" where
  "judge identity_errors xm history =
     (case xm_normalized xm of
        Some n \<Rightarrow>
          if xm_validation_errors xm = [] \<and> identity_errors = [] then
            (let chain = chain_validate n history in
             \<lparr>vd_chain_state = cv_state chain, vd_accepted = cv_accepted_for_projection chain,
              vd_errors = cv_errors chain, vd_warnings = xm_warnings xm @ cv_warnings chain,
              vd_record = Some (n\<lparr>nr_chain_state := cv_state chain\<rparr>)\<rparr>)
          else
            (let st = (if identity_errors \<noteq> [] then IDENTITY_CONFLICT else INCOMPLETE_CHAIN) in
             \<lparr>vd_chain_state = st, vd_accepted = False, vd_errors = xm_validation_errors xm @ identity_errors,
              vd_warnings = xm_warnings xm, vd_record = Some (n\<lparr>nr_chain_state := st\<rparr>)\<rparr>)
      | None \<Rightarrow>
          \<lparr>vd_chain_state = (if identity_errors \<noteq> [] then IDENTITY_CONFLICT else INCOMPLETE_CHAIN), vd_accepted = False,
           vd_errors = xm_validation_errors xm @ identity_errors, vd_warnings = xm_warnings xm, vd_record = None\<rparr>)"

definition uploaded_of ::
  "ProgressReportUploadEnvelope \<Rightarrow> string \<Rightarrow> string \<Rightarrow> string \<Rightarrow> string \<Rightarrow> verdict \<Rightarrow> UploadedProgressReport" where
  "uploaded_of e instance_id rid key received_at v =
     (let ok = vd_accepted v \<and> vd_errors v = [] in
      \<lparr>up_receipt_id = rid, up_project_id = en_project_id e, up_workflow_instance_id = instance_id,
       up_package_id = en_package_id e, up_package_checksum = en_package_checksum e, up_report_id = en_report_id e,
       up_report_checksum = en_report_checksum e, up_report_schema_version = en_report_schema_version e,
       up_original_report_checksum = en_original_report_checksum e, up_original_report_size = en_original_report_size e,
       up_original_report_media_type = en_original_report_media_type e, up_original_storage_key = key,
       up_envelope_checksum = en_envelope_checksum e, up_uploaded_at = en_uploaded_at e, up_received_at = received_at,
       up_uploader_type = en_uploader_type e, up_client_version = en_client_version e,
       up_source_path_hint = en_source_path_hint e,
       up_validation_status = (if ok then Validation_ACCEPTED else Validation_REJECTED),
       up_validation_errors = first_occurrences (vd_errors v), up_validation_warnings = first_occurrences (vd_warnings v),
       up_chain_state = vd_chain_state v, up_accepted_for_projection = ok, up_normalized_record = vd_record v\<rparr>)"

text \<open>The reports the saved projection is built from.\<close>

definition scoped_history ::
  "'x progress_state \<Rightarrow> ProgressReportUploadEnvelope \<Rightarrow> string \<Rightarrow> NormalizedProgressRecord \<Rightarrow> UploadedProgressReport list" where
  "scoped_history s e instance_id n =
     filter (\<lambda>u. case up_normalized_record u of None \<Rightarrow> False
         | Some r \<Rightarrow> nr_workflow_id r = nr_workflow_id n \<and> nr_workflow_version r = nr_workflow_version n)
       (list_for_project s (en_project_id e) (Some (en_package_id e)) (Some instance_id))"

definition update_projection ::
  "('x, 'd) progress_env \<Rightarrow> ProgressReportUploadEnvelope \<Rightarrow> string \<Rightarrow> UploadedProgressReport \<Rightarrow> ('x progress_state, unit) op" where
  "update_projection env e instance_id u =
     (case up_normalized_record u of
        Some n \<Rightarrow>
          if up_accepted_for_projection u then
            bindE (readE (\<lambda>s. build_projection (pe_sha env) (scoped_history s e instance_id n)))
            (\<lambda>p. case p of None \<Rightarrow> returnE () | Some q \<Rightarrow> save_projection q)
          else returnE ()
      | None \<Rightarrow> returnE ())"

definition promote_uploaded ::
  "('x, 'd) progress_env \<Rightarrow> string \<Rightarrow> UploadedProgressReport \<Rightarrow> 'd list \<Rightarrow> ('x progress_state, unit) op" where
  "promote_uploaded env instance_id u decls =
     bindE (if decls = [] \<and> up_accepted_for_projection u then derive env instance_id (up_normalized_record u) else returnE decls)
     (\<lambda>ds. if ds \<noteq> [] then promote env u (up_normalized_record u) ds else returnE ())"

definition ingest ::
  "('x, 'd) progress_env \<Rightarrow> ProgressReportUploadEnvelope \<Rightarrow> string option \<Rightarrow> string \<Rightarrow> string \<Rightarrow> 'd list \<Rightarrow>
   ('x progress_state, ProgressUploadReceipt) op" where
  "ingest env e requested resolved content decls =
     bindE (getsE (\<lambda>s. collision_errors s e))
     (\<lambda>collisions. bindE (readE (\<lambda>s. examine env (ps_other s) e requested resolved content))
     (\<lambda>xm. bindE (readE (\<lambda>_. storage_key e))
     (\<lambda>key. thenE (on_other (pe_write_immutable env key content (en_original_report_media_type e)))
     (bindE (progress_clock env)
     (\<lambda>now. bindE (readE (\<lambda>_. cloud_timestamp now))
     (\<lambda>received_at. bindE (readE (\<lambda>_. receipt_id (pe_sha env) e))
     (\<lambda>rid. bindE (getsE (\<lambda>s. judge (collisions @ xm_identity_errors xm) xm
          (list_for_project s (en_project_id e) None (Some resolved))))
     (\<lambda>v. let u = uploaded_of e resolved rid key received_at v in
        thenE (progress_append u)
        (thenE (promote_uploaded env resolved u decls)
        (thenE (update_projection env e resolved u)
        (thenE (progress_commit env)
          (readE (\<lambda>_. receipt_of (pe_sha env) u False)))))))))))))"

definition exact_row :: "ProgressReportUploadEnvelope \<Rightarrow> UploadedProgressReport \<Rightarrow> bool" where
  "exact_row e u \<longleftrightarrow> up_project_id u = en_project_id e \<and> up_package_id u = en_package_id e \<and>
     up_package_checksum u = en_package_checksum e \<and> up_report_checksum u = en_report_checksum e \<and>
     up_original_report_checksum u = en_original_report_checksum e"

definition upload ::
  "('x, 'd) progress_env \<Rightarrow> ProgressReportUploadEnvelope \<Rightarrow> string option \<Rightarrow> 'd list \<Rightarrow>
   ('x progress_state, ProgressUploadReceipt) op" where
  "upload env e requested decls =
     bindE (readE (\<lambda>_. original_report_bytes (pe_sha env) e))
     (\<lambda>content. bindE (readE (\<lambda>_. derivation_record env content decls))
     (\<lambda>derivation. bindE (getsE (\<lambda>s. filter up_accepted_for_projection
          (filter (exact_row e) (list_by_report_id s (en_report_id e)))))
     (\<lambda>accepted_exact. case accepted_exact of
        [u] \<Rightarrow> replay env u (up_workflow_instance_id u) derivation decls
      | _ # _ # _ \<Rightarrow> raiseE (ValueErrorMsg ''immutable Progress Report identity is ambiguous'')
      | [] \<Rightarrow>
          bindE (readE (\<lambda>s. pe_resolve env (ps_other s) e None requested))
          (\<lambda>resolved. bindE (getsE (\<lambda>s. find_exact s resolved e))
          (\<lambda>found. case found of
             Some u \<Rightarrow> if up_accepted_for_projection u then replay env u resolved derivation decls
               else ingest env e requested resolved content decls
           | None \<Rightarrow> ingest env e requested resolved content decls)))))"

section \<open>Reading\<close>

text \<open>\<open>min(xs, key=k)\<close> and \<open>max(xs, key=k)\<close>: the first of the best.\<close>

definition least_by :: "('a \<Rightarrow> 'k::linorder) \<Rightarrow> 'a \<Rightarrow> 'a list \<Rightarrow> 'a" where
  "least_by k x xs = foldl (\<lambda>m y. if k y < k m then y else m) x xs"

definition greatest_by :: "('a \<Rightarrow> 'k::linorder) \<Rightarrow> 'a \<Rightarrow> 'a list \<Rightarrow> 'a" where
  "greatest_by k x xs = foldl (\<lambda>m y. if k m < k y then y else m) x xs"

definition get_report :: "'x progress_state \<Rightarrow> string \<Rightarrow> string \<Rightarrow> string option \<Rightarrow> UploadedProgressReport option" where
  "get_report s project report rid =
     (case rid of
        Some i \<Rightarrow>
          (case map_of (ps_reports s) i of
             None \<Rightarrow> None
           | Some u \<Rightarrow> if up_project_id u \<noteq> project \<or> up_report_id u \<noteq> report then None else Some u)
      | None \<Rightarrow>
          (case filter (\<lambda>u. up_project_id u = project) (list_by_report_id s report) of
             [] \<Rightarrow> None
           | u # us \<Rightarrow> Some (least_by (\<lambda>v. (\<not> up_accepted_for_projection v, up_received_at v, up_receipt_id v)) u us)))"

definition same_projection :: "NormalizedProgressRecord \<Rightarrow> NormalizedProgressRecord \<Rightarrow> bool" where
  "same_projection r n \<longleftrightarrow> nr_package_id r = nr_package_id n \<and> nr_workflow_id r = nr_workflow_id n \<and>
     nr_workflow_version r = nr_workflow_version n"

definition get_projection ::
  "('x, 'd) progress_env \<Rightarrow> 'x progress_state \<Rightarrow> string \<Rightarrow> string option \<Rightarrow> ProjectProgressProjection option res" where
  "get_projection env s project package =
     (case accepted_uploads (list_for_project s project package None) of
        [] \<Rightarrow> Inr None
      | x # xs \<Rightarrow>
          (let n = snd (greatest_by (\<lambda>(u, r). (up_received_at u, nr_execution_round r, up_report_id u)) x xs);
               stored = map_of (ps_projections s) (nr_project_id n, nr_package_id n, nr_workflow_id n, nr_workflow_version n) in
           bindR (build_projection (pe_sha env) (map fst (filter (\<lambda>(u, r). same_projection r n) (x # xs))))
           (\<lambda>rebuilt. case rebuilt of
              None \<Rightarrow> Inr None
            | Some p \<Rightarrow>
                bindR (guardR (case stored of None \<Rightarrow> False | Some q \<Rightarrow> pj_projection_checksum q \<noteq> pj_projection_checksum p)
                  (ValueErrorMsg ''stored progress projection does not match immutable history''))
                (\<lambda>_. Inr (Some p)))))"

end
