(* ===== verification/Progress_History.thy ===== *)
theory Progress_History
  imports Progress_Service Runtime_Claims "HOL-Library.Multiset"
begin

text \<open>
  The history that uploads build up: accepted reports form lines that start with round 1, rounds do
  not branch, a receipt identifier determines its row. Every upload, returning or raising, keeps this.
\<close>

section \<open>Histories\<close>

definition accepted_with :: "UploadedProgressReport \<Rightarrow> NormalizedProgressRecord \<Rightarrow> bool" where
  "accepted_with u r \<longleftrightarrow> up_accepted_for_projection u \<and> up_normalized_record u = Some r"

definition same_place :: "UploadedProgressReport \<Rightarrow> UploadedProgressReport \<Rightarrow> bool" where
  "same_place u v \<longleftrightarrow> up_project_id u = up_project_id v \<and> up_workflow_instance_id u = up_workflow_instance_id v"

text \<open>A report continues another: the next round of the same scope, with the context handed over.\<close>

definition continues :: "NormalizedProgressRecord \<Rightarrow> NormalizedProgressRecord \<Rightarrow> bool" where
  "continues p r \<longleftrightarrow> same_scope p r \<and> nr_execution_round r = nr_execution_round p + 1 \<and>
     \<not> both_differ (nr_context_after_checksum p) (nr_context_before_checksum r) \<and>
     (nr_status p = Progress_COMPLETED \<longrightarrow> (\<exists>t. nr_continuation_reason r = Some t \<and> nonblank t))"

text \<open>A line of accepted reports that starts with round 1.\<close>

inductive chained :: "UploadedProgressReport set \<Rightarrow> UploadedProgressReport \<Rightarrow> bool" for rows where
  chained_first: "u \<in> rows \<Longrightarrow> accepted_with u r \<Longrightarrow> nr_execution_round r = 1 \<Longrightarrow> nr_previous_report_id r = None \<Longrightarrow>
    chained rows u"
| chained_next: "u \<in> rows \<Longrightarrow> accepted_with u r \<Longrightarrow> chained rows v \<Longrightarrow> accepted_with v p \<Longrightarrow> same_place u v \<Longrightarrow>
    nr_previous_report_id r = Some (up_report_id v) \<Longrightarrow> continues p r \<Longrightarrow> chained rows u"

lemma chained_mono: "chained R u \<Longrightarrow> R \<subseteq> S \<Longrightarrow> chained S u"
  by (induction rule: chained.induct) (auto intro: chained.intros)

text \<open>Two accepted reports of one round: the checkpoint and the terminal report that supersedes it.\<close>

definition unbranched :: "UploadedProgressReport set \<Rightarrow> bool" where
  "unbranched rows \<longleftrightarrow> (\<forall>u \<in> rows. \<forall>v \<in> rows. \<forall>r q. accepted_with u r \<longrightarrow> accepted_with v q \<longrightarrow> same_place u v \<longrightarrow>
     same_scope r q \<longrightarrow> nr_execution_round r = nr_execution_round q \<longrightarrow> u \<noteq> v \<longrightarrow>
       up_report_id u \<noteq> up_report_id v \<and> {nr_status r, nr_status q} = {Progress_IN_PROGRESS, Progress_COMPLETED})"

lemma accepted_records_set: "r \<in> set (accepted_records h) \<longleftrightarrow> (\<exists>u \<in> set h. accepted_with u r)"
  by (force simp: accepted_records_def accepted_with_def split: option.splits if_splits)

lemma find_memberD: "find P xs = Some x \<Longrightarrow> x \<in> set xs \<and> P x"
  by (induction xs) (auto split: if_splits)

lemma same_scope_sym: "same_scope r q \<longleftrightarrow> same_scope q r"
  by (auto simp: same_scope_def)

lemma chain_accepts:
  assumes "cv_accepted_for_projection (chain_validate c h)"
  shows "occupied_by_other c (accepted_records h) \<Longrightarrow> nr_status c = Progress_COMPLETED \<and> supersedable c (accepted_records h)"
    and "(nr_execution_round c = 1 \<and> nr_previous_report_id c = None) \<or>
      (\<exists>v \<in> set h. \<exists>p. accepted_with v p \<and> nr_previous_report_id c = Some (up_report_id v) \<and> continues p c)"
proof -
  let ?b = "occupied_by_other c (accepted_records h)"
  show "?b \<Longrightarrow> nr_status c = Progress_COMPLETED \<and> supersedable c (accepted_records h)"
    using assms by (auto simp: chain_validate_def Let_def split: if_splits)
  from assms have rest: "cv_accepted_for_projection (if nr_execution_round c = 1 then validate_first_round ?b c
      else (case nr_previous_report_id c of
          None \<Rightarrow> refused INCOMPLETE_CHAIN ''later round does not identify its predecessor''
        | Some i \<Rightarrow>
            (case find_predecessor i h of
               None \<Rightarrow> refused INCOMPLETE_CHAIN ''previous report is not present in accepted history''
             | Some p \<Rightarrow> validate_successor ?b p c)))"
    by (auto simp: chain_validate_def Let_def split: if_splits)
  show "(nr_execution_round c = 1 \<and> nr_previous_report_id c = None) \<or>
      (\<exists>v \<in> set h. \<exists>p. accepted_with v p \<and> nr_previous_report_id c = Some (up_report_id v) \<and> continues p c)"
  proof (cases "nr_execution_round c = 1")
    case True
    with rest show ?thesis by (auto simp: validate_first_round_def split: if_splits)
  next
    case False
    with rest obtain i p where i: "nr_previous_report_id c = Some i" "find_predecessor i h = Some p"
      and ok: "cv_accepted_for_projection (validate_successor ?b p c)"
      by (auto split: option.splits)
    from i(2) obtain v where "v \<in> set h" "up_report_id v = i" "accepted_with v p"
      by (auto simp: find_predecessor_def bind_eq_Some_conv accepted_with_def dest!: find_memberD)
    moreover have "continues p c" using ok
      by (auto simp: validate_successor_def continues_def split: if_splits option.splits)
    ultimately show ?thesis using i(1) by blast
  qed
qed

section \<open>Tables\<close>

definition identified :: "(string \<Rightarrow> string) \<Rightarrow> UploadedProgressReport \<Rightarrow> bool" where
  "identified sha u \<longleftrightarrow> (\<exists>e. exact_row e u \<and> en_report_id e = up_report_id u \<and> receipt_id sha e = Inr (up_receipt_id u))"

definition record_matches :: "UploadedProgressReport \<Rightarrow> bool" where
  "record_matches u \<longleftrightarrow> (up_accepted_for_projection u \<longrightarrow> (\<exists>r. up_normalized_record u = Some r \<and>
     nr_report_id r = up_report_id u \<and> nr_project_id r = up_project_id u \<and> nr_package_id r = up_package_id u \<and>
     nr_package_checksum r = up_package_checksum u \<and> nr_report_checksum r = up_report_checksum u))"

type_synonym progress_table = "(string \<times> UploadedProgressReport) list"

abbreviation rows_of :: "progress_table \<Rightarrow> UploadedProgressReport set" where
  "rows_of T \<equiv> snd ` set T"

definition progress_table_ok :: "(string \<Rightarrow> string) \<Rightarrow> progress_table \<Rightarrow> bool" where
  "progress_table_ok sha T \<longleftrightarrow> distinct (map fst T) \<and>
     (\<forall>(k, u) \<in> set T. k = up_receipt_id u \<and> identified sha u \<and> record_matches u \<and>
        (up_accepted_for_projection u \<longrightarrow> chained (rows_of T) u)) \<and> unbranched (rows_of T)"

lemma receipt_id_same:
  assumes "receipt_id sha e = Inr i" and "exact_row e u" and "en_report_id e = up_report_id u" and "identified sha u"
  shows "up_receipt_id u = i"
proof -
  obtain e' where "exact_row e' u" "en_report_id e' = up_report_id u" "receipt_id sha e' = Inr (up_receipt_id u)"
    using assms(4) by (auto simp: identified_def)
  moreover from this(1,2) assms(2,3) have "identity_document e' = identity_document e"
    by (simp add: identity_document_def exact_row_def)
  ultimately show ?thesis using assms(1) by (simp add: receipt_id_def)
qed

text \<open>The row of an upload that is neither a replay nor refused.\<close>

definition fresh_row :: "(string \<Rightarrow> string) \<Rightarrow> progress_table \<Rightarrow> UploadedProgressReport \<Rightarrow> bool" where
  "fresh_row sha T u \<longleftrightarrow> identified sha u \<and> record_matches u \<and>
     (up_accepted_for_projection u \<longrightarrow>
        (\<exists>c h st. cv_accepted_for_projection (chain_validate c h) \<and> set h = {v \<in> rows_of T. same_place v u} \<and>
           up_normalized_record u = Some (c\<lparr>nr_chain_state := st\<rparr>)) \<and>
        (\<forall>v \<in> rows_of T. up_accepted_for_projection v \<longrightarrow> up_report_id v = up_report_id u \<longrightarrow>
           up_package_checksum v \<noteq> up_package_checksum u))"

lemma unbranched_insert:
  assumes "unbranched R" and "u \<notin> R"
    and "\<And>v r q. v \<in> R \<Longrightarrow> accepted_with u r \<Longrightarrow> accepted_with v q \<Longrightarrow> same_place u v \<Longrightarrow> same_scope r q \<Longrightarrow>
      nr_execution_round r = nr_execution_round q \<Longrightarrow>
      up_report_id u \<noteq> up_report_id v \<and> nr_status r = Progress_COMPLETED \<and> nr_status q = Progress_IN_PROGRESS"
  shows "unbranched (insert u R)"
  unfolding unbranched_def
proof (intro ballI allI impI)
  fix a b r q
  assume a: "a \<in> insert u R" and b: "b \<in> insert u R" and w: "accepted_with a r" "accepted_with b q" "same_place a b"
    "same_scope r q" "nr_execution_round r = nr_execution_round q" "a \<noteq> b"
  consider "a = u" "b \<in> R" | "a \<in> R" "b = u" | "a \<in> R" "b \<in> R" using a b w(6) by blast
  then show "up_report_id a \<noteq> up_report_id b \<and> {nr_status r, nr_status q} = {Progress_IN_PROGRESS, Progress_COMPLETED}"
  proof cases
    case 1
    with assms(3) [of b r q] w show ?thesis by auto
  next
    case 2
    have "same_place u a" "same_scope q r" using w 2 by (auto simp: same_place_def same_scope_def)
    with assms(3) [of a q r] w 2 show ?thesis by auto
  next
    case 3
    with assms(1) w show ?thesis unfolding unbranched_def by blast
  qed
qed

lemma progress_table_append:
  assumes ok: "progress_table_ok sha T" and fresh: "fresh_row sha T u" and new: "map_of T (up_receipt_id u) = None"
  shows "progress_table_ok sha (T @ [(up_receipt_id u, u)])"
proof -
  let ?T = "T @ [(up_receipt_id u, u)]"
  have rows: "rows_of ?T = insert u (rows_of T)" by auto
  have u: "u \<notin> rows_of T"
  proof
    assume "u \<in> rows_of T"
    then obtain k where "(k, u) \<in> set T" by auto
    with ok have "(up_receipt_id u, u) \<in> set T" by (auto simp: progress_table_ok_def)
    with new show False by (force simp: map_of_eq_None_iff)
  qed
  have chain: "chained (rows_of ?T) u" if acc: "up_accepted_for_projection u"
  proof -
    from fresh acc obtain c h st where c: "cv_accepted_for_projection (chain_validate c h)"
      and h: "set h = {v \<in> rows_of T. same_place v u}" and r: "accepted_with u (c\<lparr>nr_chain_state := st\<rparr>)"
      by (auto simp: fresh_row_def accepted_with_def)
    from chain_accepts(2) [OF c] show ?thesis
    proof
      assume "nr_execution_round c = 1 \<and> nr_previous_report_id c = None"
      then show ?thesis using r rows by (auto intro: chained_first)
    next
      assume "\<exists>v \<in> set h. \<exists>p. accepted_with v p \<and> nr_previous_report_id c = Some (up_report_id v) \<and> continues p c"
      then obtain v p where v: "v \<in> rows_of T" "same_place v u" "accepted_with v p" "nr_previous_report_id c = Some (up_report_id v)"
        and "continues p c" using h by blast
      then have cont: "continues p (c\<lparr>nr_chain_state := st\<rparr>)" by (simp add: continues_def same_scope_def)
      have "chained (rows_of T) v" using ok v by (auto simp: progress_table_ok_def accepted_with_def)
      then have "chained (rows_of ?T) v" by (rule chained_mono) auto
      moreover have "same_place u v" using v(2) by (simp add: same_place_def)
      ultimately show ?thesis using chained_next [OF _ r _ v(3) _ _ cont] v(4) rows by simp
    qed
  qed
  have "unbranched (insert u (rows_of T))"
  proof (rule unbranched_insert)
    show "unbranched (rows_of T)" using ok by (simp add: progress_table_ok_def)
    fix v r q
    assume v: "v \<in> rows_of T" and r: "accepted_with u r" and q: "accepted_with v q" and place: "same_place u v"
      and scope: "same_scope r q" and round: "nr_execution_round r = nr_execution_round q"
    from fresh r obtain c h st where c: "cv_accepted_for_projection (chain_validate c h)"
      and h: "set h = {v \<in> rows_of T. same_place v u}" and rc: "r = c\<lparr>nr_chain_state := st\<rparr>"
      and ids: "\<And>v. v \<in> rows_of T \<Longrightarrow> up_accepted_for_projection v \<Longrightarrow> up_report_id v = up_report_id u \<Longrightarrow>
        up_package_checksum v \<noteq> up_package_checksum u"
      by (auto simp: fresh_row_def accepted_with_def)
    have matches: "record_matches w" if "w \<in> insert u (rows_of T)" for w
      using that ok fresh by (auto simp: progress_table_ok_def fresh_row_def)
    have other: "nr_report_id x \<noteq> nr_report_id c" if "x \<in> set (same_round c (accepted_records h))" for x
    proof -
      from that obtain w where w: "w \<in> rows_of T" "accepted_with w x" and sc: "same_scope x c"
        using h by (auto simp: same_round_def accepted_records_set)
      have m: "nr_report_id x = up_report_id w" "nr_package_checksum x = up_package_checksum w"
        "nr_report_id c = up_report_id u" "nr_package_checksum c = up_package_checksum u"
        using matches [of w] matches [of u] w r rc by (auto simp: record_matches_def accepted_with_def)
      with ids [OF w(1)] sc w(2) show ?thesis by (auto simp: same_scope_def accepted_with_def)
    qed
    have "v \<in> set h" using v place h by (auto simp: same_place_def)
    then have qin: "q \<in> set (same_round c (accepted_records h))"
      using q scope round rc by (auto simp: same_round_def accepted_records_set same_scope_def)
    with other have "occupied_by_other c (accepted_records h)" by (auto simp: occupied_by_other_def list_all_iff)
    from chain_accepts(1) [OF c this] qin have "nr_status c = Progress_COMPLETED" "nr_status q = Progress_IN_PROGRESS"
      by (auto simp: supersedable_def list_all_iff)
    moreover have "up_report_id u \<noteq> up_report_id v"
      using other [OF qin] matches [of v] matches [of u] v q r rc by (auto simp: record_matches_def accepted_with_def)
    ultimately show "up_report_id u \<noteq> up_report_id v \<and> nr_status r = Progress_COMPLETED \<and> nr_status q = Progress_IN_PROGRESS"
      using rc by simp
  qed (use u in auto)
  moreover have "\<And>v. chained (rows_of T) v \<Longrightarrow> chained (rows_of ?T) v" by (rule chained_mono) auto
  moreover have "up_receipt_id u \<notin> fst ` set T" using new by (simp add: map_of_eq_None_iff)
  ultimately show ?thesis using ok fresh chain unfolding progress_table_ok_def fresh_row_def rows by auto
qed

section \<open>An upload\<close>

lemma collisions_none:
  assumes "collision_errors s e = []" and "v \<in> rows_of (ps_reports s)" and "up_accepted_for_projection v"
    and "up_report_id v = en_report_id e"
  shows "up_report_checksum v = en_report_checksum e \<and> up_original_report_checksum v = en_original_report_checksum e \<and>
    up_project_id v = en_project_id e \<and> up_package_id v = en_package_id e"
proof -
  from assms have "v \<in> set (list_by_report_id s (en_report_id e))" by (auto simp: list_by_report_id_def progress_rows_def)
  with assms(1) have "identity_errors_of_row e v = []" by (auto simp: collision_errors_def)
  with assms(3) show ?thesis by (auto simp: identity_errors_of_row_def split: if_splits)
qed

lemma examined:
  assumes "examine env x e requested resolved content = Inr xm" and "xm_normalized xm = Some n"
    and "xm_validation_errors xm = []" and "xm_identity_errors xm = []"
  shows "envelope_mismatches e n = []"
  using assms by (auto simp: examine_def split: sum.splits if_splits)

lemma judged_row_fresh:
  assumes none: "\<And>v. v \<in> rows_of (ps_reports s) \<Longrightarrow> exact_row e v \<Longrightarrow> up_report_id v = en_report_id e \<Longrightarrow> \<not> up_accepted_for_projection v"
    and coll: "coll = [] \<Longrightarrow> collision_errors s e = []"
    and xm: "examine env x e requested resolved content = Inr xm" and rid: "receipt_id sha e = Inr rid"
  shows "fresh_row sha (ps_reports s) (uploaded_of e resolved rid key t
    (judge (coll @ xm_identity_errors xm) xm (list_for_project s (en_project_id e) None (Some resolved))))"
proof -
  let ?h = "list_for_project s (en_project_id e) None (Some resolved)"
  let ?v = "judge (coll @ xm_identity_errors xm) xm ?h"
  let ?u = "uploaded_of e resolved rid key t ?v"
  have "identified sha ?u" using rid by (auto simp: identified_def uploaded_of_def exact_row_def Let_def intro!: exI [of _ e])
  moreover have h: "set ?h = {v \<in> rows_of (ps_reports s). same_place v ?u}"
    by (auto simp: list_for_project_def progress_rows_def same_place_def uploaded_of_def Let_def)
  moreover have "record_matches ?u \<and>
      (\<exists>c st. cv_accepted_for_projection (chain_validate c ?h) \<and> up_normalized_record ?u = Some (c\<lparr>nr_chain_state := st\<rparr>)) \<and>
      (\<forall>v \<in> rows_of (ps_reports s). up_accepted_for_projection v \<longrightarrow> up_report_id v = up_report_id ?u \<longrightarrow>
        up_package_checksum v \<noteq> up_package_checksum ?u)"
    if acc: "up_accepted_for_projection ?u"
  proof -
    from acc have a: "vd_accepted ?v" by (simp add: uploaded_of_def Let_def)
    then obtain n where n: "xm_normalized xm = Some n" "xm_validation_errors xm = []" "coll = []" "xm_identity_errors xm = []"
      by (auto simp: judge_def Let_def split: option.splits if_splits)
    with a have c: "cv_accepted_for_projection (chain_validate n ?h)" by (simp add: judge_def Let_def)
    from n have r: "up_normalized_record ?u = Some (n\<lparr>nr_chain_state := cv_state (chain_validate n ?h)\<rparr>)"
      by (simp add: judge_def uploaded_of_def Let_def)
    from examined [OF xm n(1,2,4)] have m: "nr_project_id n = en_project_id e" "nr_package_id n = en_package_id e"
      "nr_package_checksum n = en_package_checksum e" "nr_report_id n = en_report_id e" "nr_report_checksum n = en_report_checksum e"
      by (auto simp: envelope_mismatches_def split: if_splits)
    have "record_matches ?u" unfolding record_matches_def r using m by (simp add: uploaded_of_def Let_def)
    moreover have "up_package_checksum v \<noteq> up_package_checksum ?u"
      if v: "v \<in> rows_of (ps_reports s)" "up_accepted_for_projection v" "up_report_id v = up_report_id ?u" for v
    proof
      assume "up_package_checksum v = up_package_checksum ?u"
      moreover have id: "up_report_id v = en_report_id e" using v(3) by (simp add: uploaded_of_def Let_def)
      ultimately have "exact_row e v" using collisions_none [OF coll [OF n(3)] v(1,2) id]
        by (simp add: exact_row_def uploaded_of_def Let_def)
      with none [OF v(1) _ id] v(2) show False by simp
    qed
    ultimately show ?thesis using c r by blast
  qed
  ultimately show ?thesis unfolding fresh_row_def by (auto simp: record_matches_def)
qed

definition progress_ok :: "(string \<Rightarrow> string) \<Rightarrow> 'x progress_state \<Rightarrow> bool" where
  "progress_ok sha s \<longleftrightarrow> progress_table_ok sha (ps_reports s) \<and> progress_table_ok sha (ps_committed_reports s)"

abbreviation staged :: "(string \<Rightarrow> string) \<Rightarrow> progress_table \<Rightarrow> 'x progress_state \<Rightarrow> bool" where
  "staged sha T s \<equiv> progress_ok sha s \<and> ps_reports s = T"

text \<open>The calls that leave the rows alone.\<close>

locale progress_calls =
  fixes env :: "('x, 'd) progress_env" and I :: "'x progress_state \<Rightarrow> bool"
  assumes other: "maintains I (on_other (m :: ('x, unit) op))"
    and projected: "maintains I (save_projection p)"
    and published: "maintains I (modifyE (\<lambda>s. s\<lparr>ps_committed_reports := ps_reports s, ps_committed_projections := ps_projections s\<rparr>))"
begin

lemma commit_keeps: "maintains I (progress_commit env)"
  unfolding progress_commit_def by (intro flow_rules other published)

lemma promote_keeps: "maintains I (promote env u n ds)"
  unfolding promote_def by (auto split: option.splits intro!: flow_rules other)

lemma derive_keeps: "maintains I (derive env i n)"
  unfolding derive_def by (auto split: option.splits intro!: flow_rules)

lemma update_projection_keeps: "maintains I (update_projection env e i u)"
  unfolding update_projection_def by (intro flow_rules projected)

lemma promote_uploaded_keeps: "maintains I (promote_uploaded env i u ds)"
  unfolding promote_uploaded_def by (intro flow_rules derive_keeps promote_keeps)

lemma replay_keeps: "maintains I (replay env u i n ds)"
proof -
  have "maintains I (assert_artifact_replay env r ds)" for r ds
    unfolding assert_artifact_replay_def by (auto split: option.splits intro!: flow_rules other)
  then show ?thesis unfolding replay_def by (intro flow_rules derive_keeps promote_keeps commit_keeps)
qed

end

interpretation sound: progress_calls env "progress_ok sha" for env sha
  by unfold_locales (auto simp: hoareE_def on_other_def save_projection_def progress_ok_def op_simps split: prod.splits sum.splits)

interpretation rows_kept: progress_calls env "\<lambda>s. ps_reports s = T" for env T
  by unfold_locales (auto simp: hoareE_def on_other_def save_projection_def op_simps split: prod.splits sum.splits)

lemma other_steps:
  "maintains (staged sha T) (on_other m)" "maintains (staged sha T) (progress_clock env)"
  "maintains (\<lambda>s. ps_reports s = T) (progress_clock env)"
  by (auto simp: hoareE_def on_other_def progress_clock_def progress_ok_def split: prod.splits sum.splits)

lemma append_keeps_ok:
  assumes "fresh_row sha T u"
  shows "hoareE (staged sha T) (progress_append u) (\<lambda>_. progress_ok sha) (\<lambda>_. progress_ok sha)"
  using progress_table_append [OF _ assms]
  by (auto simp: hoareE_def progress_append_def updE_apply progress_ok_def split: option.splits if_splits)

lemma ingest_keeps_ok:
  assumes none: "\<And>v. v \<in> rows_of T \<Longrightarrow> exact_row e v \<Longrightarrow> up_report_id v = en_report_id e \<Longrightarrow> \<not> up_accepted_for_projection v"
  shows "hoareE (staged (pe_sha env) T) (ingest env e requested resolved content decls)
    (\<lambda>_. progress_ok (pe_sha env)) (\<lambda>_. progress_ok (pe_sha env))"
proof -
  let ?P = "staged (pe_sha env) T" and ?E = "\<lambda>_. progress_ok (pe_sha env)"
  have weak: "hoareE ?P m (\<lambda>_. ?P) ?E" if "maintains ?P m" for m :: "('a progress_state, 'z) op"
    using that by (rule hoareE_conseq) auto
  have read: "hoareE ?P (readE f) (\<lambda>a s. ?P s \<and> (\<exists>t. ps_reports t = T \<and> f t = Inr a)) ?E" for f :: "'a progress_state \<Rightarrow> 'z res"
    by (rule hoareE_read) auto
  have gets: "hoareE ?P (getsE f) (\<lambda>a s. ?P s \<and> (\<exists>t. ps_reports t = T \<and> f t = a)) ?E" for f :: "'a progress_state \<Rightarrow> 'z"
    by (rule hoareE_gets) auto
  have pull: "hoareE (\<lambda>s. ?P s \<and> A) m Q ?E" if "A \<Longrightarrow> hoareE ?P m Q ?E" for A Q and m :: "('a progress_state, 'z) op"
    using that by (auto simp: hoareE_def)
  have same: "collision_errors t e = collision_errors t' e" "list_for_project t p q i = list_for_project t' p q i"
    if "ps_reports t = ps_reports t'" for t t' :: "'a progress_state" and p q i
    using that by (simp_all add: collision_errors_def list_by_report_id_def list_by_original_checksum_def
        list_for_project_def progress_rows_def)
  have tail: "hoareE ?P (let u = uploaded_of e resolved rid key t v in
        thenE (progress_append u)
        (thenE (promote_uploaded env resolved u decls)
        (thenE (update_projection env e resolved u)
        (thenE (progress_commit env)
          (readE (\<lambda>_. receipt_of (pe_sha env) u False)))))) (\<lambda>_. progress_ok (pe_sha env)) ?E"
    if "fresh_row (pe_sha env) T (uploaded_of e resolved rid key t v)" for rid key t v
    unfolding Let_def
    by (rule hoareE_then [OF append_keeps_ok [OF that]])
      (intro flow_rules sound.promote_uploaded_keeps sound.update_projection_keeps sound.commit_keeps)
  show ?thesis unfolding ingest_def
    apply (rule hoareE_bind [OF gets], rule pull)
    apply (rule hoareE_bind [OF read], rule pull)
    apply (rule hoareE_bind [OF read], rule pull)
    apply (rule hoareE_then [OF weak [OF other_steps(1)]])
    apply (rule hoareE_bind [OF weak [OF other_steps(2)]])
    apply (rule hoareE_bind [OF read], rule pull)
    apply (rule hoareE_bind [OF read], rule pull)
    apply (rule hoareE_bind [OF gets], rule pull)
    apply (rule tail)
    apply (elim exE conjE)
    subgoal for coll xm key now t rid v s1 s2 s3 s4 s5 s6
      using judged_row_fresh [of s6 e coll env "ps_other s2" requested resolved content xm "pe_sha env" rid key t]
        none same(1) [of s1 s6] by force
    done
qed

lemma upload_keeps_ok: "maintains (progress_ok (pe_sha env)) (upload env e requested decls)"
proof -
  let ?I = "progress_ok (pe_sha env)"
  let ?none = "\<lambda>T. \<forall>v \<in> rows_of T. exact_row e v \<longrightarrow> up_report_id v = en_report_id e \<longrightarrow> \<not> up_accepted_for_projection v"
  have ingest: "hoareE (\<lambda>s. ?I s \<and> ?none (ps_reports s)) (ingest env e requested resolved content decls) (\<lambda>_. ?I) (\<lambda>_. ?I)"
    for resolved content
    using ingest_keeps_ok [of _ e env requested resolved content decls] by (fastforce simp: hoareE_def)
  have body: "hoareE (\<lambda>s. ?I s \<and> (acc = [] \<longrightarrow> ?none (ps_reports s))) (case acc of
        [u] \<Rightarrow> replay env u (up_workflow_instance_id u) derivation decls
      | _ # _ # _ \<Rightarrow> raiseE (ValueErrorMsg ''immutable Progress Report identity is ambiguous'')
      | [] \<Rightarrow>
          bindE (readE (\<lambda>s. pe_resolve env (ps_other s) e None requested))
          (\<lambda>resolved. bindE (getsE (\<lambda>s. find_exact s resolved e))
          (\<lambda>found. case found of
             Some u \<Rightarrow> if up_accepted_for_projection u then replay env u resolved derivation decls
               else ingest env e requested resolved content decls
           | None \<Rightarrow> ingest env e requested resolved content decls))) (\<lambda>_. ?I) (\<lambda>_. ?I)" for acc derivation content
  proof (cases acc)
    case Nil
    let ?N = "\<lambda>s. ?I s \<and> ?none (ps_reports s)"
    have read: "hoareE ?N (readE f) (\<lambda>_. ?N) (\<lambda>_. ?I)" for f :: "'a progress_state \<Rightarrow> 'z res"
      by (rule hoareE_read) auto
    have gets: "hoareE ?N (getsE f) (\<lambda>_. ?N) (\<lambda>_. ?I)" for f :: "'a progress_state \<Rightarrow> 'z"
      by (rule hoareE_gets) auto
    have replay: "hoareE ?N (replay env u i n decls) (\<lambda>_. ?I) (\<lambda>_. ?I)" for u i n
      by (rule hoareE_conseq [OF sound.replay_keeps]) auto
    have found: "hoareE ?N (case found of
             Some u \<Rightarrow> if up_accepted_for_projection u then replay env u resolved derivation decls
               else ingest env e requested resolved content decls
           | None \<Rightarrow> ingest env e requested resolved content decls) (\<lambda>_. ?I) (\<lambda>_. ?I)" for found resolved
      by (cases found) (simp_all only: option.case hoareE_if ingest replay)
    have "hoareE ?N (bindE (readE (\<lambda>s. pe_resolve env (ps_other s) e None requested))
          (\<lambda>resolved. bindE (getsE (\<lambda>s. find_exact s resolved e))
          (\<lambda>found. case found of
             Some u \<Rightarrow> if up_accepted_for_projection u then replay env u resolved derivation decls
               else ingest env e requested resolved content decls
           | None \<Rightarrow> ingest env e requested resolved content decls))) (\<lambda>_. ?I) (\<lambda>_. ?I)"
      by (rule hoareE_bind [OF read hoareE_bind [OF gets found]])
    with Nil show ?thesis by simp
  next
    case (Cons u us)
    have "maintains ?I (case us of [] \<Rightarrow> replay env u (up_workflow_instance_id u) derivation decls
        | _ \<Rightarrow> raiseE (ValueErrorMsg ''immutable Progress Report identity is ambiguous''))"
      by (auto intro: sound.replay_keeps flow_rules split: list.splits)
    then show ?thesis unfolding Cons by (cases us) (auto simp: hoareE_def)
  qed
  show ?thesis unfolding upload_def
  proof (rule maintains_bind [OF maintains_pure(2)], rule maintains_bind [OF maintains_pure(2)])
    fix content derivation
    show "maintains ?I (bindE (getsE (\<lambda>s. filter up_accepted_for_projection (filter (exact_row e) (list_by_report_id s (en_report_id e)))))
      (\<lambda>acc. case acc of
        [u] \<Rightarrow> replay env u (up_workflow_instance_id u) derivation decls
      | _ # _ # _ \<Rightarrow> raiseE (ValueErrorMsg ''immutable Progress Report identity is ambiguous'')
      | [] \<Rightarrow>
          bindE (readE (\<lambda>s. pe_resolve env (ps_other s) e None requested))
          (\<lambda>resolved. bindE (getsE (\<lambda>s. find_exact s resolved e))
          (\<lambda>found. case found of
             Some u \<Rightarrow> if up_accepted_for_projection u then replay env u resolved derivation decls
               else ingest env e requested resolved content decls
           | None \<Rightarrow> ingest env e requested resolved content decls))))"
      by (rule hoareE_bind [OF _ body], rule hoareE_gets)
        (auto simp: filter_empty_conv list_by_report_id_def progress_rows_def)
  qed
qed

section \<open>Histories of uploads\<close>

text \<open>Uploads that return or raise, and roll-backs of the unit of work, from an empty repository.\<close>

inductive progress_run :: "('x, 'd) progress_env \<Rightarrow> 'x progress_state \<Rightarrow> bool" for env where
  run_empty: "ps_reports s = [] \<Longrightarrow> ps_committed_reports s = [] \<Longrightarrow> progress_run env s"
| run_upload: "progress_run env s \<Longrightarrow> upload env e requested decls s = (r, s') \<Longrightarrow> progress_run env s'"
| run_rollback: "progress_run env s \<Longrightarrow> progress_run env (progress_rollback s)"

lemma progress_run_ok: "progress_run env s \<Longrightarrow> progress_ok (pe_sha env) s"
proof (induction rule: progress_run.induct)
  case (run_upload s e requested decls r s')
  from maintains_snd [OF upload_keeps_ok this(3)] run_upload(2) show ?case by (metis snd_conv)
qed (auto simp: progress_ok_def progress_table_ok_def progress_rollback_def unbranched_def)

section \<open>Reports that are stored already\<close>

lemma stored_row_unique:
  assumes "progress_table_ok sha T" and "u \<in> rows_of T" and "v \<in> rows_of T" and "exact_row e u" and "exact_row e v"
    and "en_report_id e = up_report_id u" and "en_report_id e = up_report_id v"
  shows "u = v"
proof -
  from assms(1,2) have u: "(up_receipt_id u, u) \<in> set T" "identified sha u" by (auto simp: progress_table_ok_def)
  from assms(1,3) have v: "(up_receipt_id v, v) \<in> set T" "identified sha v" by (auto simp: progress_table_ok_def)
  obtain e' where e': "exact_row e' u" "en_report_id e' = up_report_id u" "receipt_id sha e' = Inr (up_receipt_id u)"
    using u(2) by (auto simp: identified_def)
  then have "exact_row e' v" "en_report_id e' = up_report_id v" using assms by (auto simp: exact_row_def)
  then have "up_receipt_id v = up_receipt_id u" by (rule receipt_id_same [OF e'(3) _ _ v(2)])
  with u v assms(1) show ?thesis by (auto simp: progress_table_ok_def intro: eq_key_imp_eq_value)
qed

lemma receipt_of_flags:
  "receipt_of sha u b = Inr c \<Longrightarrow> rc_accepted_for_projection c = up_accepted_for_projection u \<and> rc_idempotent_replay c = b \<and>
     rc_receipt_id c = up_receipt_id u"
  by (auto simp: receipt_of_def receipt_post_init_def receipt_with_checksum_def bindR_Inr_iff)

lemma ingest_of_rejected:
  assumes u: "map_of T rid = Some u" "\<not> up_accepted_for_projection u" and rid: "\<And>i. receipt_id (pe_sha env) e = Inr i \<Longrightarrow> i = rid"
  shows "hoareE (\<lambda>s. ps_reports s = T) (ingest env e requested resolved content decls)
    (\<lambda>c s. ps_reports s = T \<and> \<not> rc_accepted_for_projection c) (\<lambda>_ s. ps_reports s = T)"
proof -
  let ?P = "\<lambda>s. ps_reports s = T" and ?Q = "\<lambda>c s. ps_reports s = T \<and> \<not> rc_accepted_for_projection c"
  have tail: "hoareE ?P (let w = uploaded_of e resolved rid key t v in
        thenE (progress_append w)
        (thenE (promote_uploaded env resolved w decls)
        (thenE (update_projection env e resolved w)
        (thenE (progress_commit env)
          (readE (\<lambda>_. receipt_of (pe_sha env) w False)))))) ?Q (\<lambda>_. ?P)" for key t v
  proof -
    let ?w = "uploaded_of e resolved rid key t v"
    have id: "up_receipt_id ?w = rid" by (simp add: uploaded_of_def Let_def)
    have app: "hoareE ?P (progress_append ?w) (\<lambda>_ s. ?P s \<and> ?w = u) (\<lambda>_. ?P)"
      using u id by (auto simp: hoareE_def progress_append_def updE_apply)
    have "hoareE ?P (thenE (promote_uploaded env resolved u decls)
        (thenE (update_projection env e resolved u)
        (thenE (progress_commit env) (readE (\<lambda>_. receipt_of (pe_sha env) u False))))) ?Q (\<lambda>_. ?P)"
      by (rule hoareE_then [OF rows_kept.promote_uploaded_keeps], rule hoareE_then [OF rows_kept.update_projection_keeps],
          rule hoareE_then [OF rows_kept.commit_keeps], rule hoareE_read) (use u(2) in \<open>auto dest: receipt_of_flags\<close>)
    then show ?thesis unfolding Let_def by (intro hoareE_then [OF app]) (auto simp: hoareE_def)
  qed
  have judged: "hoareE (\<lambda>s. ?P s \<and> i = rid) (bindE (getsE f) (\<lambda>v. let w = uploaded_of e resolved i key t v in
        thenE (progress_append w)
        (thenE (promote_uploaded env resolved w decls)
        (thenE (update_projection env e resolved w)
        (thenE (progress_commit env)
          (readE (\<lambda>_. receipt_of (pe_sha env) w False))))))) ?Q (\<lambda>_. ?P)" for f key t i
  proof (cases "i = rid")
    case True
    show ?thesis unfolding True by (rule hoareE_conseq [OF hoareE_bind [OF maintains_gets tail]]) simp_all
  qed (simp add: hoareE_def)
  have rid': "hoareE ?P (readE (\<lambda>_. receipt_id (pe_sha env) e)) (\<lambda>i s. ?P s \<and> i = rid) (\<lambda>_. ?P)"
    by (rule hoareE_read) (auto dest: rid)
  show ?thesis unfolding ingest_def
    apply (rule hoareE_bind [OF maintains_gets])
    apply (rule hoareE_bind [OF maintains_pure(2)])
    apply (rule hoareE_bind [OF maintains_pure(2)])
    apply (rule hoareE_then [OF rows_kept.other])
    apply (rule hoareE_bind [OF other_steps(3)])
    apply (rule hoareE_bind [OF maintains_pure(2)])
    apply (rule hoareE_bind [OF rid'])
    apply (rule judged)
    done
qed

lemma stored_key:
  assumes "progress_table_ok sha T" and "u \<in> rows_of T"
  shows "map_of T (up_receipt_id u) = Some u" and "identified sha u"
proof -
  from assms have "(up_receipt_id u, u) \<in> set T" by (auto simp: progress_table_ok_def)
  with assms show "map_of T (up_receipt_id u) = Some u" "identified sha u" by (auto simp: progress_table_ok_def)
qed

lemma distinct_one:
  assumes "distinct xs" and "u \<in> set xs" and "\<And>v. v \<in> set xs \<Longrightarrow> v = u"
  shows "xs = [u]"
proof -
  from assms(2) obtain a ys where xs: "xs = a # ys" by (cases xs) auto
  with assms(3) have "a = u" "set ys \<subseteq> {u}" by auto
  with assms(1) xs show ?thesis by (cases ys) auto
qed

lemma exact_rows_of_stored:
  assumes "progress_table_ok sha (ps_reports s)" and "u \<in> set (progress_rows s)" and "exact_row e u" and "en_report_id e = up_report_id u"
  shows "filter (exact_row e) (list_by_report_id s (en_report_id e)) = [u]"
proof -
  let ?us = "filter (exact_row e) (list_by_report_id s (en_report_id e))"
  have rows: "set (progress_rows s) = rows_of (ps_reports s)" by (simp add: progress_rows_def)
  have only: "v = u" if "v \<in> set ?us" for v
    using that assms rows stored_row_unique [OF assms(1), of v u e] by (auto simp: list_by_report_id_def)
  have "u \<in> set ?us" using assms by (auto simp: list_by_report_id_def)
  moreover have "distinct (progress_rows s)"
  proof -
    have "map up_receipt_id (progress_rows s) = map fst (ps_reports s)"
      using assms(1) by (auto simp: progress_table_ok_def progress_rows_def)
    then show ?thesis using assms(1) distinct_map by (metis progress_table_ok_def)
  qed
  then have "distinct ?us" by (simp add: list_by_report_id_def)
  ultimately show ?thesis using only by (intro distinct_one)
qed

end
