(* ===== verification/Progress_Uploads.thy ===== *)
theory Progress_Uploads
  imports Progress_History
begin

text \<open>
  When uploads return: the documents of the protocol can always be printed, so with collaborators
  that do not fail an upload of a new report appends its row. Two reports are followed through it,
  in order and out of order.
\<close>

section \<open>Uploads that return\<close>

lemma dumps_list_total: "(\<And>x. x \<in> set xs \<Longrightarrow> \<exists>t. json_dumps b x = Inr t) \<Longrightarrow> \<exists>t. json_dumps b (VList xs) = Inr t"
  using mapR_total [of xs "json_dumps b"] by auto

lemma dumps_dict_total:
  assumes "\<And>k v. (k, v) \<in> set kvs \<Longrightarrow> \<exists>t. json_dumps b v = Inr t"
  shows "\<exists>t. json_dumps b (VDict kvs) = Inr t"
proof -
  have "\<exists>ts. mapR (\<lambda>(k, v). bindR (json_dumps b v) (\<lambda>t. Inr (json_string k @ '':'' @ t))) (sort_key fst kvs) = Inr ts"
  proof (rule mapR_total, clarify)
    fix k v assume "(k, v) \<in> set (sort_key fst kvs)"
    with assms [of k v] show "\<exists>y. bindR (json_dumps b v) (\<lambda>t. Inr (json_string k @ '':'' @ t)) = Inr y" by auto
  qed
  then show ?thesis by auto
qed

lemma str_list_total: "\<exists>t. json_dumps b (str_list ss) = Inr t"
  by (rule dumps_list_total) auto

lemma opt_str_total: "\<exists>t. json_dumps b (opt_str s) = Inr t"
  by (cases s) simp_all

lemma documents_total:
  "\<exists>t. json_dumps False (receipt_document r) = Inr t" "\<exists>t. json_dumps False (projection_document p) = Inr t"
  "\<exists>t. json_dumps False (artifact_document a) = Inr t"
proof -
  show art: "\<exists>t. json_dumps False (artifact_document a) = Inr t" for a
    unfolding artifact_document_def by (rule dumps_dict_total) (auto split: option.splits)
  show "\<exists>t. json_dumps False (receipt_document r) = Inr t"
    unfolding receipt_document_def by (rule dumps_dict_total) auto
  have "\<exists>t. json_dumps False (VList (map artifact_document as)) = Inr t" for as
    by (rule dumps_list_total) (auto intro: art)
  then show "\<exists>t. json_dumps False (projection_document p) = Inr t"
    unfolding projection_document_def
    by (intro dumps_dict_total) (auto simp del: json_dumps.simps(6) intro: str_list_total opt_str_total)
qed

definition hashes :: "(string \<Rightarrow> string) \<Rightarrow> bool" where
  "hashes sha \<longleftrightarrow> (\<forall>t. is_sha256 (sha256_bytes sha t))"

lemma zero_hash: "is_sha256 ZERO_HASH"
  by code_simp

lemma receipt_of_total:
  assumes "hashes sha" obtains c where "receipt_of sha u b = Inr c"
proof -
  have "\<exists>c. receipt_with_checksum sha r = Inr c" if "0 \<le> rc_warning_count r" "0 \<le> rc_error_count r" for r
    using documents_total(1) [of r] that assms
    by (auto simp: receipt_with_checksum_def canonical_hash_def receipt_post_init_def require_sha256_def hashes_def guardR_def)
  then show thesis using that zero_hash
    by (force simp: receipt_of_def receipt_post_init_def require_sha256_def guardR_def)
qed

lemma build_projection_total:
  assumes "hashes sha" shows "\<exists>p. build_projection sha h = Inr p"
proof -
  have "\<exists>q. projection_with_checksum sha p = Inr q" if "pj_schema_version p = PROJECTION_SCHEMA_VERSION" for p
    using documents_total(2) [of p] that assms
    by (auto simp: projection_with_checksum_def canonical_hash_def projection_post_init_def require_sha256_def hashes_def guardR_def)
  then show ?thesis using zero_hash
    by (auto simp: build_projection_def Let_def projection_post_init_def require_sha256_def guardR_def projection_of_def bindR_Inr_iff
        split: prod.splits)
qed

text \<open>Collaborators that do nothing and never fail.\<close>

definition quiet :: "('x, 'd) progress_env \<Rightarrow> bool" where
  "quiet env \<longleftrightarrow> pe_artifacts env = None \<and> hashes (pe_sha env) \<and> (\<forall>x. pe_commit env x = (Inr (), x)) \<and>
     (\<forall>k c m x. pe_write_immutable env k c m x = (Inr (), x))"

definition next_row ::
  "('x, 'd) progress_env \<Rightarrow> ProgressReportUploadEnvelope \<Rightarrow> string \<Rightarrow> examination \<Rightarrow> string \<Rightarrow> string \<Rightarrow> string \<Rightarrow>
   'x progress_state \<Rightarrow> UploadedProgressReport" where
  "next_row env e resolved xm key t rid s = uploaded_of e resolved rid key t
     (judge (collision_errors s e @ xm_identity_errors xm) xm (list_for_project s (en_project_id e) None (Some resolved)))"

lemma clock_irrelevant:
  "collision_errors (s\<lparr>ps_ticks := n\<rparr>) e = collision_errors s e"
  "list_for_project (s\<lparr>ps_ticks := n\<rparr>) p q i = list_for_project s p q i"
  by (simp_all add: collision_errors_def list_by_report_id_def list_by_original_checksum_def list_for_project_def progress_rows_def)

lemma ingest_stages:
  assumes "quiet env" and "examine env (ps_other s) e requested resolved content = Inr xm" and "storage_key e = Inr key"
    and "cloud_timestamp (pe_clock env (ps_ticks s)) = Inr t" and "receipt_id (pe_sha env) e = Inr rid"
  shows "ingest env e requested resolved content decls s =
    (let u = next_row env e resolved xm key t rid s in
        thenE (progress_append u)
        (thenE (promote_uploaded env resolved u decls)
        (thenE (update_projection env e resolved u)
        (thenE (progress_commit env)
          (readE (\<lambda>_. receipt_of (pe_sha env) u False)))))) (s\<lparr>ps_ticks := Suc (ps_ticks s)\<rparr>)"
proof -
  have "on_other (pe_write_immutable env key content (en_original_report_media_type e)) s = (Inr (), s)"
    using assms(1) by (simp add: on_other_def quiet_def)
  moreover have "progress_clock env s = (Inr (pe_clock env (ps_ticks s)), s\<lparr>ps_ticks := Suc (ps_ticks s)\<rparr>)"
    by (simp add: progress_clock_def)
  ultimately show ?thesis using assms(2-5)
    by (simp add: ingest_def op_apply bindE_ok thenE_ok next_row_def clock_irrelevant)
qed

lemma ingest_conflicts:
  assumes "quiet env" and "examine env (ps_other s) e requested resolved content = Inr xm" and "storage_key e = Inr key"
    and "cloud_timestamp (pe_clock env (ps_ticks s)) = Inr t" and "receipt_id (pe_sha env) e = Inr rid"
    and "map_of (ps_reports s) rid = Some v" and "v \<noteq> next_row env e resolved xm key t rid s"
  shows "fst (ingest env e requested resolved content decls s) =
    Inl (DuplicateEntityError (''Progress receipt '' @ rid @ '' has conflicting content''))"
  using assms(6,7) unfolding ingest_stages [OF assms(1-5)]
  by (simp add: Let_def op_simps progress_append_def uploaded_of_def next_row_def)

lemma ingest_appends:
  assumes "quiet env" and "examine env (ps_other s) e requested resolved content = Inr xm" and "storage_key e = Inr key"
    and "cloud_timestamp (pe_clock env (ps_ticks s)) = Inr t" and "receipt_id (pe_sha env) e = Inr rid"
    and "map_of (ps_reports s) rid = None"
  obtains c s' where "ingest env e requested resolved content [] s = (Inr c, s')"
    and "ps_reports s' = ps_reports s @ [(rid, next_row env e resolved xm key t rid s)]" and "ps_ticks s' = Suc (ps_ticks s)"
    and "ps_other s' = ps_other s"
proof -
  let ?u = "next_row env e resolved xm key t rid s" and ?s = "s\<lparr>ps_ticks := Suc (ps_ticks s)\<rparr>"
  let ?t = "?s\<lparr>ps_reports := ps_reports s @ [(rid, ?u)]\<rparr>"
  have app: "progress_append ?u ?s = (Inr (), ?t)"
    using assms(6) by (simp add: progress_append_def updE_apply next_row_def uploaded_of_def Let_def)
  have art: "pe_artifacts env = None" "hashes (pe_sha env)" and com: "\<And>x. pe_commit env x = (Inr (), x)"
    using assms(1) by (simp_all add: quiet_def)
  have prom: "promote_uploaded env resolved ?u [] ?t = (Inr (), ?t)"
    by (simp add: promote_uploaded_def derive_def art op_apply bindE_ok)
  have "\<exists>u'. update_projection env e resolved ?u ?t = (Inr (), u') \<and> ps_reports u' = ps_reports ?t \<and>
      ps_ticks u' = ps_ticks ?t \<and> ps_other u' = ps_other ?t"
  proof (cases "up_normalized_record ?u")
    case (Some n)
    obtain p where "build_projection (pe_sha env) (scoped_history ?t e resolved n) = Inr p"
      using build_projection_total [OF art(2)] by blast
    then show ?thesis using Some
      by (cases p) (simp_all add: update_projection_def op_apply bindE_ok save_projection_def)
  qed (simp add: update_projection_def op_apply)
  then obtain u' where upd: "update_projection env e resolved ?u ?t = (Inr (), u')"
    and u': "ps_reports u' = ps_reports ?t" "ps_ticks u' = ps_ticks ?t" "ps_other u' = ps_other ?t" by blast
  obtain c where c: "receipt_of (pe_sha env) ?u False = Inr c" by (rule receipt_of_total [OF art(2)])
  have commit: "progress_commit env u' = (Inr (), u'\<lparr>ps_committed_reports := ps_reports u', ps_committed_projections := ps_projections u'\<rparr>)"
    by (simp add: progress_commit_def on_other_def com op_simps)
  have "ingest env e requested resolved content [] s =
      (Inr c, u'\<lparr>ps_committed_reports := ps_reports u', ps_committed_projections := ps_projections u'\<rparr>)"
    unfolding ingest_stages [OF assms(1-5)] Let_def
    by (simp add: op_apply thenE_ok app prom upd commit c)
  with that u' show thesis by simp
qed

lemma upload_ingests:
  assumes "original_report_bytes (pe_sha env) e = Inr content" and "pe_artifacts env = None"
    and "filter (\<lambda>u. exact_row e u \<and> up_accepted_for_projection u) (list_by_report_id s (en_report_id e)) = []"
    and "pe_resolve env (ps_other s) e None requested = Inr resolved"
    and "\<And>u. find_exact s resolved e = Some u \<Longrightarrow> \<not> up_accepted_for_projection u"
  shows "upload env e requested [] s = ingest env e requested resolved content [] s"
  using assms by (cases "find_exact s resolved e")
    (simp_all add: upload_def op_apply bindE_ok derivation_record_def)

text \<open>What a state says about an upload is a matter of its rows.\<close>

lemma rows_decide:
  assumes "ps_reports s = ps_reports s'"
  shows "next_row env e resolved xm key t rid s = next_row env e resolved xm key t rid s'"
    "list_by_report_id s i = list_by_report_id s' i" "find_exact s resolved e = find_exact s' resolved e"
  using assms by (simp_all add: next_row_def collision_errors_def list_by_report_id_def list_by_original_checksum_def
      list_for_project_def progress_rows_def find_exact_def)

section \<open>Two reports, uploaded in the wrong order\<close>

text \<open>A hash with 64 hexadecimal digits that tells the two reports apart.\<close>

definition demo_sha :: "string \<Rightarrow> string" where
  "demo_sha t = (if contains ''r2'' t then replicate 64 CHR ''2'' else replicate 64 CHR ''1'')"

definition demo_record :: "string \<Rightarrow> int \<Rightarrow> string option \<Rightarrow> ProgressStatus \<Rightarrow> NormalizedProgressRecord" where
  "demo_record i n prev st = \<lparr>nr_normalized_schema_version = ''n'', nr_source_schema_version = ''progress-report/v0.2'',
     nr_normalizer_version = ''v'', nr_report_id = i, nr_report_checksum = ''c-'' @ i, nr_report_content_checksum = None,
     nr_original_report_checksum = ''o'', nr_package_id = ''pkg'', nr_package_schema_version = None,
     nr_package_checksum = ''k'', nr_project_id = ''p1'', nr_workflow_id = ''w1'', nr_workflow_version = ''1.0.0'',
     nr_workflow_checksum = None, nr_execution_round = n, nr_harness_type = ''codex'', nr_harness_version = None,
     nr_harness_session_id = None, nr_previous_report_id = prev, nr_previous_report_checksum = map_option (\<lambda>j. ''c-'' @ j) prev,
     nr_started_at = ''t0'', nr_completed_at = ''t1'', nr_status = st, nr_completed_work = [''read <x>''],
     nr_current_state = ''s'', nr_next_recommended_action = ''a'', nr_continuation_reason = None, nr_output_artifacts = [],
     nr_context_before_checksum = None, nr_context_after_checksum = None, nr_legacy_context_checksum = None,
     nr_warnings = [], nr_errors = [], nr_unresolved_questions = [], nr_continuation_instructions = [], nr_skill_pins = [],
     nr_template_pins = [], nr_generated_at = None, nr_experimental_declaration = ''e'', nr_compatibility_assumptions = [],
     nr_unavailable_fields = [], nr_evidence_limitations = [], nr_chain_state = VALID_CHAIN\<rparr>"

definition demo_envelope :: "string \<Rightarrow> string \<Rightarrow> string \<Rightarrow> ProgressReportUploadEnvelope" where
  "demo_envelope i base64 content = \<lparr>en_upload_schema_version = ''progress-report-upload/v0.1'', en_project_id = ''p1'',
     en_package_id = ''pkg'', en_package_checksum = ''k'', en_report_schema_version = ''progress-report/v0.2'',
     en_report_id = i, en_report_checksum = ''c-'' @ i, en_original_report_media_type = ''application/json'',
     en_original_report_base64 = base64, en_original_report_checksum = sha256_bytes demo_sha content,
     en_original_report_size = int (length content), en_uploaded_at = ''t2'', en_uploader_type = ''cli'',
     en_client_version = ''1'', en_source_path_hint = ''r.json'', en_context_snapshot_metadata = None,
     en_envelope_checksum = ''''\<rparr>"

text \<open>Round 1 is \<open>r1\<close>, base64 \<open>cjE=\<close>; round 2 is \<open>r2\<close>, base64 \<open>cjI=\<close>.\<close>

definition demo_round1 :: ProgressReportUploadEnvelope where
  "demo_round1 = demo_envelope ''r1'' ''cjE='' ''r1''"

definition demo_round2 :: ProgressReportUploadEnvelope where
  "demo_round2 = demo_envelope ''r2'' ''cjI='' ''r2''"

definition demo_progress_env :: "(unit, unit) progress_env" where
  "demo_progress_env = \<lparr>pe_sha = demo_sha,
     pe_normalize = (\<lambda>content. if content = ''r1'' then Inr (demo_record ''r1'' 1 None Progress_IN_PROGRESS)
       else if content = ''r2'' then Inr (demo_record ''r2'' 2 (Some ''r1'') Progress_IN_PROGRESS)
       else Inl (ValueErrorMsg ''unsupported Progress Report schema'')),
     pe_resolve = (\<lambda>_ _ _ requested. Inr (case requested of None \<Rightarrow> ''wfi-1'' | Some i \<Rightarrow> i)),
     pe_write_immutable = (\<lambda>_ _ _. returnE ()), pe_commit = returnE (),
     pe_clock = (\<lambda>n. Aware (int n)), pe_artifacts = None\<rparr>"

definition demo_progress_empty :: "unit progress_state" where
  "demo_progress_empty = \<lparr>ps_reports = [], ps_projections = [], ps_committed_reports = [], ps_committed_projections = [],
     ps_ticks = 0, ps_other = ()\<rparr>"

lemma demo_quiet: "quiet demo_progress_env"
proof -
  have "is_sha256 (''sha256:'' @ replicate 64 CHR ''2'')" "is_sha256 (''sha256:'' @ replicate 64 CHR ''1'')" by code_simp+
  then show ?thesis by (simp add: quiet_def hashes_def sha256_bytes_def demo_sha_def demo_progress_env_def op_simps)
qed

definition demo_examination :: "NormalizedProgressRecord \<Rightarrow> examination" where
  "demo_examination n = \<lparr>xm_normalized = Some n, xm_validation_errors = [], xm_identity_errors = [], xm_warnings = []\<rparr>"

abbreviation demo_record1 :: NormalizedProgressRecord where
  "demo_record1 \<equiv> demo_record ''r1'' 1 None Progress_IN_PROGRESS"

abbreviation demo_record2 :: NormalizedProgressRecord where
  "demo_record2 \<equiv> demo_record ''r2'' 2 (Some ''r1'') Progress_IN_PROGRESS"

definition demo_rid :: "char \<Rightarrow> string" where
  "demo_rid c = ''progress-receipt-'' @ replicate 64 c"

definition demo_next_row ::
  "ProgressReportUploadEnvelope \<Rightarrow> NormalizedProgressRecord \<Rightarrow> char \<Rightarrow> string \<Rightarrow> progress_table \<Rightarrow> UploadedProgressReport" where
  "demo_next_row e n c t T = next_row demo_progress_env e ''wfi-1'' (demo_examination n)
     (''progress-reports/p1/pkg/'' @ replicate 64 c @ ''.json'') t (demo_rid c) (demo_progress_empty\<lparr>ps_reports := T\<rparr>)"

text \<open>Round 2 first, then round 1; and the other way round.\<close>

definition early_row2 :: UploadedProgressReport where
  "early_row2 = demo_next_row demo_round2 demo_record2 CHR ''2'' (isoformat_at 0 @ ''Z'') []"

definition late_row1 :: UploadedProgressReport where
  "late_row1 = demo_next_row demo_round1 demo_record1 CHR ''1'' (isoformat_at 1 @ ''Z'') [(demo_rid CHR ''2'', early_row2)]"

definition first_row :: UploadedProgressReport where
  "first_row = demo_next_row demo_round1 demo_record1 CHR ''1'' (isoformat_at 0 @ ''Z'') []"

definition second_row :: UploadedProgressReport where
  "second_row = demo_next_row demo_round2 demo_record2 CHR ''2'' (isoformat_at 1 @ ''Z'') [(demo_rid CHR ''1'', first_row)]"

lemma demo_parts:
  "original_report_bytes demo_sha demo_round1 = Inr ''r1''" "original_report_bytes demo_sha demo_round2 = Inr ''r2''"
  "storage_key demo_round1 = Inr (''progress-reports/p1/pkg/'' @ replicate 64 CHR ''1'' @ ''.json'')"
  "storage_key demo_round2 = Inr (''progress-reports/p1/pkg/'' @ replicate 64 CHR ''2'' @ ''.json'')"
  by code_simp+

lemma demo_receipts: "receipt_id demo_sha demo_round1 = Inr (demo_rid CHR ''1'')" "receipt_id demo_sha demo_round2 = Inr (demo_rid CHR ''2'')"
  by code_simp+

lemma demo_rows_identity:
  "up_project_id (demo_next_row e n c t T) = en_project_id e" "up_report_id (demo_next_row e n c t T) = en_report_id e"
  "up_workflow_instance_id (demo_next_row e n c t T) = ''wfi-1''" "up_received_at (demo_next_row e n c t T) = t"
  "up_package_id (demo_next_row e n c t T) = en_package_id e" "up_package_checksum (demo_next_row e n c t T) = en_package_checksum e"
  "up_report_checksum (demo_next_row e n c t T) = en_report_checksum e"
  "up_original_report_checksum (demo_next_row e n c t T) = en_original_report_checksum e"
  "up_receipt_id (demo_next_row e n c t T) = demo_rid c"
  by (simp_all add: demo_next_row_def next_row_def uploaded_of_def Let_def)

lemma demo_verdicts:
  "up_accepted_for_projection early_row2 = False" "up_chain_state early_row2 = INCOMPLETE_CHAIN"
  "up_accepted_for_projection late_row1 = True"
  "up_accepted_for_projection first_row = True" "up_accepted_for_projection second_row = True"
  by code_simp+

lemma demo_admissible: "cv_accepted_for_projection (chain_validate demo_record2 [early_row2, late_row1])"
proof -
  have "up_normalized_record late_row1 = Some demo_record1" "up_report_id late_row1 = ''r1''" by code_simp+
  with demo_verdicts(1,3) show ?thesis
    by (simp add: chain_validate_def accepted_records_def occupied_by_other_def same_round_def find_predecessor_def
        validate_successor_def same_scope_def both_differ_def demo_record_def split: option.split)
qed

lemma demo_examined:
  "examine demo_progress_env x demo_round1 None ''wfi-1'' ''r1'' = Inr (demo_examination demo_record1)"
  "examine demo_progress_env x demo_round2 None ''wfi-1'' ''r2'' = Inr (demo_examination demo_record2)"
  by (simp_all add: examine_def demo_progress_env_def demo_examination_def demo_round1_def demo_round2_def demo_envelope_def
      demo_record_def envelope_mismatches_def)

lemma demo_uploads:
  assumes run: "progress_run demo_progress_env s" and T: "ps_reports s = T"
    and e: "(e, n, c, content) \<in> {(demo_round1, demo_record1, CHR ''1'', ''r1''), (demo_round2, demo_record2, CHR ''2'', ''r2'')}"
    and none: "\<And>u. u \<in> rows_of T \<Longrightarrow> exact_row e u \<Longrightarrow> \<not> up_accepted_for_projection u"
    and new: "map_of T (demo_rid c) = None"
  obtains s' where "progress_run demo_progress_env s'" and "ps_ticks s' = Suc (ps_ticks s)"
    and "ps_reports s' = T @ [(demo_rid c, demo_next_row e n c (isoformat_at (int (ps_ticks s)) @ ''Z'') T)]"
proof -
  let ?env = demo_progress_env and ?t = "isoformat_at (int (ps_ticks s)) @ ''Z''"
  let ?key = "''progress-reports/p1/pkg/'' @ replicate 64 c @ ''.json''"
  have parts: "original_report_bytes (pe_sha ?env) e = Inr content" "storage_key e = Inr ?key" "receipt_id (pe_sha ?env) e = Inr (demo_rid c)"
    "examine ?env (ps_other s) e None ''wfi-1'' content = Inr (demo_examination n)"
    using e by (auto simp: demo_parts demo_receipts demo_examined) (simp_all add: demo_progress_env_def demo_parts demo_receipts)
  have env: "pe_artifacts ?env = None" "pe_resolve ?env x e m None = Inr ''wfi-1''"
    "cloud_timestamp (pe_clock ?env (ps_ticks s)) = Inr ?t" for x m
    by (simp_all add: demo_progress_env_def)
  have acc: "filter (\<lambda>u. exact_row e u \<and> up_accepted_for_projection u) (list_by_report_id s (en_report_id e)) = []"
    using none T by (auto simp: filter_empty_conv list_by_report_id_def progress_rows_def)
  have "upload ?env e None [] s = ingest ?env e None ''wfi-1'' content [] s"
    using none T by (intro upload_ingests parts env acc)
      (auto simp: find_exact_def exact_row_def progress_rows_def dest!: find_memberD)
  moreover have "map_of (ps_reports s) (demo_rid c) = None" using T new by simp
  from ingest_appends [OF demo_quiet parts(4) parts(2) env(3) parts(3) this] obtain r s'
    where "ingest ?env e None ''wfi-1'' content [] s = (Inr r, s')" and s': "ps_ticks s' = Suc (ps_ticks s)"
      "ps_reports s' = ps_reports s @ [(demo_rid c, next_row ?env e ''wfi-1'' (demo_examination n) ?key ?t (demo_rid c) s)]" by metis
  ultimately have "progress_run ?env s'" using run_upload [OF run] by simp
  moreover have "next_row ?env e ''wfi-1'' (demo_examination n) ?key ?t (demo_rid c) s = demo_next_row e n c ?t T"
    unfolding demo_next_row_def by (rule rows_decide) (simp add: T demo_progress_empty_def)
  ultimately show thesis using that s' T by simp
qed

lemma demo_not_exact:
  "exact_row demo_round1 early_row2 = False" "exact_row demo_round2 first_row = False"
  "exact_row demo_round1 first_row" "exact_row demo_round2 early_row2" "exact_row demo_round2 second_row"
  "up_report_id first_row = en_report_id demo_round1" "up_report_id early_row2 = en_report_id demo_round2"
  "up_report_id second_row = en_report_id demo_round2"
  by (simp_all add: exact_row_def early_row2_def first_row_def second_row_def demo_rows_identity) (simp_all add: demo_round1_def demo_round2_def demo_envelope_def)

lemma demo_rid_eq [simp]: "demo_rid c = demo_rid d \<longleftrightarrow> c = d"
  by (simp add: demo_rid_def)

lemma demo_in_order:
  obtains s where "progress_run demo_progress_env s" and "ps_reports s = [(demo_rid CHR ''1'', first_row), (demo_rid CHR ''2'', second_row)]"
proof -
  have "progress_run demo_progress_env demo_progress_empty" by (rule run_empty) (simp_all add: demo_progress_empty_def)
  then obtain s where s: "progress_run demo_progress_env s" "ps_ticks s = 1" "ps_reports s = [(demo_rid CHR ''1'', first_row)]"
    by (rule demo_uploads [where e = demo_round1 and n = demo_record1 and c = "CHR ''1''" and content = "''r1''" and T = "[]"])
      (simp_all add: demo_progress_empty_def first_row_def)
  from this(1,3) show thesis
    by (rule demo_uploads [where e = demo_round2 and n = demo_record2 and c = "CHR ''2''" and content = "''r2''"])
      (use s that in \<open>simp_all add: second_row_def demo_not_exact\<close>)
qed

lemma demo_out_of_order:
  obtains s where "progress_run demo_progress_env s" and "ps_reports s = [(demo_rid CHR ''2'', early_row2), (demo_rid CHR ''1'', late_row1)]"
proof -
  have "progress_run demo_progress_env demo_progress_empty" by (rule run_empty) (simp_all add: demo_progress_empty_def)
  then obtain s where s: "progress_run demo_progress_env s" "ps_ticks s = 1" "ps_reports s = [(demo_rid CHR ''2'', early_row2)]"
    by (rule demo_uploads [where e = demo_round2 and n = demo_record2 and c = "CHR ''2''" and content = "''r2''" and T = "[]"])
      (simp_all add: demo_progress_empty_def early_row2_def)
  from this(1,3) show thesis
    by (rule demo_uploads [where e = demo_round1 and n = demo_record1 and c = "CHR ''1''" and content = "''r1''"])
      (use s that in \<open>simp_all add: late_row1_def demo_not_exact\<close>)
qed

end
