(* ===== verification/Progress_Claims.thy ===== *)
theory Progress_Claims
  imports Progress_Uploads
begin

text \<open>
  Properties of the ingestion of progress reports: what the accepted reports of an instance look
  like after any uploads, what happens to a report that was rejected once, and the projection.
\<close>

text \<open>
  C11. Every accepted report continues an accepted line. After any uploads, whether they return or
  raise, and any roll-backs, every accepted report of a Workflow Instance is reached from an
  accepted report of round 1 by accepted reports of the same instance, package and workflow whose
  rounds count up by one, each naming the one before it, with the context checksums handed over
  and a reason given to go on after a completed report.
\<close>

theorem accepted_reports_are_chained:
  assumes "progress_run env s" and "u \<in> set (progress_rows s)" and "up_accepted_for_projection u"
  shows "chained (set (progress_rows s)) u"
proof -
  have "progress_table_ok (pe_sha env) (ps_reports s)" using progress_run_ok [OF assms(1)] by (simp add: progress_ok_def)
  with assms(2,3) show ?thesis by (auto simp: progress_table_ok_def progress_rows_def)
qed

lemma accepted_reports_are_chained_witness:
  "\<exists>s. progress_run demo_progress_env s \<and> progress_rows s = [first_row, second_row] \<and>
     chained (set (progress_rows s)) second_row"
proof -
  obtain s where s: "progress_run demo_progress_env s" "progress_rows s = [first_row, second_row]"
    by (rule demo_in_order) (simp add: progress_rows_def)
  with accepted_reports_are_chained [OF s(1), of second_row] demo_verdicts(5) show ?thesis by auto
qed

text \<open>
  C12. Rounds do not branch. Two different accepted reports of one instance, package, workflow and
  round have different identifiers, and one is the IN_PROGRESS checkpoint, the other the COMPLETED
  report that superseded it; so a round has at most two accepted reports and one outcome.
\<close>

theorem accepted_rounds_are_unbranched:
  assumes "progress_run env s"
  shows "unbranched (set (progress_rows s))"
  using progress_run_ok [OF assms] by (simp add: progress_ok_def progress_table_ok_def progress_rows_def)

lemma accepted_rounds_are_unbranched_witness:
  "\<exists>s. progress_run demo_progress_env s \<and> progress_rows s = [first_row, second_row] \<and> unbranched (set (progress_rows s))"
proof -
  obtain s where s: "progress_run demo_progress_env s" "progress_rows s = [first_row, second_row]"
    by (rule demo_in_order) (simp add: progress_rows_def)
  with accepted_rounds_are_unbranched [OF s(1)] show ?thesis by blast
qed

text \<open>
  C14. A report that was rejected can never be admitted. The service means to validate a rejected
  report again when the same bytes are uploaded again, but the receipt identifier is the hash of
  the identity alone and the repository refuses a second row under it: whatever has changed since,
  an upload of a stored rejected report leaves the rows as they are, and raises or answers with
  a rejection.
\<close>

theorem rejected_report_cannot_be_admitted:
  assumes "progress_run env s" and "u \<in> set (progress_rows s)" and "\<not> up_accepted_for_projection u"
    and "exact_row e u" and "en_report_id e = up_report_id u"
    and "upload env e requested decls s = (r, s')"
  shows "progress_rows s' = progress_rows s \<and> (\<forall>c. r = Inr c \<longrightarrow> \<not> rc_accepted_for_projection c)"
proof -
  let ?T = "ps_reports s"
  have ok: "progress_table_ok (pe_sha env) ?T" using progress_run_ok [OF assms(1)] by (simp add: progress_ok_def)
  have u: "u \<in> rows_of ?T" using assms(2) by (simp add: progress_rows_def)
  have acc: "filter up_accepted_for_projection (filter (exact_row e) (list_by_report_id s (en_report_id e))) = []"
    unfolding exact_rows_of_stored [OF ok assms(2,4,5)] using assms(3) by simp
  have found: "\<not> up_accepted_for_projection v" if "find_exact s i e = Some v" for i v
  proof -
    have "v \<in> rows_of ?T" "exact_row e v" "en_report_id e = up_report_id v"
      using that by (auto simp: find_exact_def progress_rows_def exact_row_def dest!: find_memberD)
    then show ?thesis using stored_row_unique [OF ok u _ assms(4)] assms(3,5) by blast
  qed
  consider (raised) x where "r = Inl x" "s' = s"
    | (ingested) resolved content where "ingest env e requested resolved content decls s = (r, s')"
    using assms(6) unfolding upload_def
    by (auto simp: op_simps acc [simplified filter_filter] split: sum.splits option.splits if_splits dest: found)
  then show ?thesis
  proof cases
    case raised
    then show ?thesis by simp
  next
    case ingested
    have rid: "i = up_receipt_id u" if "receipt_id (pe_sha env) e = Inr i" for i
      using receipt_id_same [OF that assms(4,5) stored_key(2) [OF ok u]] by simp
    note h = ingest_of_rejected [OF stored_key(1) [OF ok u] assms(3) rid]
    show ?thesis
    proof (cases r)
      case (Inl x)
      with hoareE_D_err [OF h _ ingested [unfolded Inl]] show ?thesis by (simp add: progress_rows_def)
    next
      case (Inr c)
      with hoareE_D_ok [OF h _ ingested [unfolded Inr]] show ?thesis by (simp add: progress_rows_def)
    qed
  qed
qed

text \<open>
  Round 2 comes first and is rejected as incomplete; round 1 follows and is accepted. Now round 2
  continues the accepted history, and still the retry raises and leaves it rejected.
\<close>

lemma rejected_report_cannot_be_admitted_witness:
  "\<exists>s. progress_run demo_progress_env s \<and> progress_rows s = [early_row2, late_row1] \<and>
     up_chain_state early_row2 = INCOMPLETE_CHAIN \<and>
     cv_accepted_for_projection (chain_validate demo_record2 (progress_rows s)) \<and>
     progress_rows (snd (upload demo_progress_env demo_round2 None [] s)) = [early_row2, late_row1]"
proof -
  obtain s where s: "progress_run demo_progress_env s" "progress_rows s = [early_row2, late_row1]"
    by (rule demo_out_of_order) (simp add: progress_rows_def)
  have "progress_rows (snd (upload demo_progress_env demo_round2 None [] s)) = progress_rows s"
    using rejected_report_cannot_be_admitted [OF s(1), of early_row2 demo_round2 None "[]"] s(2) demo_verdicts(1) demo_not_exact(4,7)
    by (metis list.set_intros(1) prod.collapse)
  with s demo_verdicts(2) demo_admissible show ?thesis by auto
qed

text \<open>
  C13. An accepted report is replayed. Without an artifact service and declarations, uploading the
  same bytes again changes nothing and returns the receipt of the stored row, marked as a replay.
\<close>

theorem accepted_report_is_replayed:
  assumes "progress_run env s" and "u \<in> set (progress_rows s)" and "up_accepted_for_projection u"
    and "exact_row e u" and "en_report_id e = up_report_id u"
    and "original_report_bytes (pe_sha env) e = Inr content" and "pe_artifacts env = None"
  shows "upload env e requested [] s = (receipt_of (pe_sha env) u True, s)"
proof -
  have ok: "progress_table_ok (pe_sha env) (ps_reports s)" using progress_run_ok [OF assms(1)] by (simp add: progress_ok_def)
  have acc: "filter up_accepted_for_projection (filter (exact_row e) (list_by_report_id s (en_report_id e))) = [u]"
    unfolding exact_rows_of_stored [OF ok assms(2,4,5)] using assms(3) by simp
  show ?thesis unfolding upload_def
    by (simp add: op_simps acc [simplified filter_filter] assms(6,7) derivation_record_def replay_def derive_def assert_artifact_replay_def guardR_def
        split: sum.splits)
qed

lemma accepted_report_is_replayed_witness:
  "\<exists>s c. progress_run demo_progress_env s \<and> progress_rows s = [first_row, second_row] \<and> rc_idempotent_replay c \<and>
     upload demo_progress_env demo_round1 None [] s = (Inr c, s)"
proof -
  obtain s where s: "progress_run demo_progress_env s" "progress_rows s = [first_row, second_row]"
    by (rule demo_in_order) (simp add: progress_rows_def)
  obtain c where c: "receipt_of demo_sha first_row True = Inr c"
    using demo_quiet receipt_of_total [of demo_sha first_row True] by (auto simp: quiet_def demo_progress_env_def)
  have "pe_sha demo_progress_env = demo_sha" "pe_artifacts demo_progress_env = None" by (simp_all add: demo_progress_env_def)
  with accepted_report_is_replayed [OF s(1), of first_row demo_round1 "''r1''" None] s(2) demo_verdicts(4) demo_not_exact(3,6) demo_parts(1) c
  have "upload demo_progress_env demo_round1 None [] s = (Inr c, s)" by simp
  moreover have "rc_idempotent_replay c" using c
    by (auto simp: receipt_of_def receipt_with_checksum_def receipt_post_init_def bindR_Inr_iff)
  ultimately show ?thesis using s by blast
qed

text \<open>
  C16. Whether a checkpoint can be superseded depends on the order of two uploads. The terminal
  report of round 1 is refused once round 2 is chained from the checkpoint; but when the terminal
  report comes first, round 2 may still be chained from the checkpoint it superseded, past the
  completed report, and both lines stand in the accepted history.
\<close>

theorem superseded_checkpoint_can_be_continued:
  assumes "accepted_with a r" and "accepted_with b c" and "accepted_with x d"
    and "up_report_id a = nr_report_id r" and "up_report_id b = nr_report_id c" and "nr_report_id r \<noteq> nr_report_id c"
    and "same_scope c r" and "continues r d" and "nr_previous_report_id d = Some (nr_report_id r)"
    and "nr_previous_report_checksum d = Some (nr_report_checksum r)"
    and "nr_execution_round r = 1" and "nr_execution_round c = 1"
    and "nr_status r = Progress_IN_PROGRESS" and "nr_status c = Progress_COMPLETED" and "nr_previous_report_id c = None"
    and "nr_previous_report_id r = None"
  shows "cv_accepted_for_projection (chain_validate c [a]) \<and> cv_accepted_for_projection (chain_validate d [a, b]) \<and>
    cv_accepted_for_projection (chain_validate d [a]) \<and>
    chain_validate c [a, x] = refused BRANCHED_HISTORY ''another accepted report already occupies this execution round''"
proof -
  have recs: "accepted_records [a] = [r]" "accepted_records [a, b] = [r, c]" "accepted_records [a, x] = [r, d]"
    using assms(1-3) by (simp_all add: accepted_records_def accepted_with_def)
  have d: "nr_execution_round d = 2" "same_scope r d" using assms(8,11) by (simp_all add: continues_def)
  have scopes: "same_scope r c" "same_scope c d" "same_scope d c" using assms(7) d(2) by (auto simp: same_scope_def)
  have c: "cv_accepted_for_projection (chain_validate c [a])"
    using assms scopes by (simp add: chain_validate_def Let_def recs occupied_by_other_def supersedable_def same_round_def
        validate_first_round_def)
  have pred: "find_predecessor (nr_report_id r) (a # us) = Some r" for us
    using assms(1,4) by (simp add: find_predecessor_def accepted_with_def)
  have none: "\<not> occupied_by_other d rs" if "rs \<in> {[r], [r, c]}" for rs
    using that d assms(11,12) by (auto simp: occupied_by_other_def same_round_def)
  have succ: "cv_accepted_for_projection (validate_successor False r d)"
    using assms(8,10) by (auto simp: validate_successor_def continues_def)
  have d_after: "cv_accepted_for_projection (chain_validate d (a # us))" if "accepted_records (a # us) \<in> {[r], [r, c]}" for us
    using none [OF that] d assms(9) pred succ by (simp add: chain_validate_def Let_def)
  have "chain_validate c [a, x] = refused BRANCHED_HISTORY ''another accepted report already occupies this execution round''"
    using assms scopes d by (auto simp: chain_validate_def Let_def recs occupied_by_other_def supersedable_def same_round_def)
  with c d_after [of "[]"] d_after [of "[b]"] recs show ?thesis by simp
qed

definition demo_stored :: "NormalizedProgressRecord \<Rightarrow> UploadedProgressReport" where
  "demo_stored n = first_row\<lparr>up_report_id := nr_report_id n, up_accepted_for_projection := True, up_normalized_record := Some n\<rparr>"

lemma demo_stored_accepted: "accepted_with (demo_stored n) n"
  by (simp add: accepted_with_def demo_stored_def)

abbreviation demo_terminal1 :: NormalizedProgressRecord where
  "demo_terminal1 \<equiv> demo_record ''r1b'' 1 None Progress_COMPLETED"

lemma superseded_checkpoint_can_be_continued_witness:
  "cv_accepted_for_projection (chain_validate demo_terminal1 [demo_stored demo_record1]) \<and>
   cv_accepted_for_projection (chain_validate demo_record2 [demo_stored demo_record1, demo_stored demo_terminal1])"
proof -
  have "continues demo_record1 demo_record2" "same_scope demo_terminal1 demo_record1"
    by (simp_all add: continues_def same_scope_def both_differ_def demo_record_def)
  with superseded_checkpoint_can_be_continued
    [OF demo_stored_accepted [of demo_record1] demo_stored_accepted [of demo_terminal1] demo_stored_accepted [of demo_record2]]
  show ?thesis by (simp add: demo_record_def demo_stored_def)
qed

lemma escape_char_nonempty [simp]: "escape_char c \<noteq> []"
  by (simp add: escape_char_def)

lemma escape_inj: "escape s = escape t \<Longrightarrow> s = t"
proof (induction s arbitrary: t)
  case Nil
  then show ?case by (cases t) (simp_all add: escape_def)
next
  case (Cons c s)
  then obtain d t' where t: "t = d # t'" by (cases t) (simp_all add: escape_def)
  from Cons.prems t have e: "escape_char c @ escape s = escape_char d @ escape t'" by (simp add: escape_def)
  have "c = d" using e by (auto simp: escape_char_def split: if_splits)
  with e Cons.IH [of t'] t show ?case by simp
qed

lemma set_first_occurrences [simp]: "set (first_occurrences xs) = set xs"
  by (induction xs) auto

lemma distinct_first_occurrences [simp]: "distinct (first_occurrences xs)"
  by (induction xs) auto

definition accepted_upload :: "UploadedProgressReport \<Rightarrow> accepted_upload list" where
  "accepted_upload u = (case up_normalized_record u of None \<Rightarrow> [] | Some r \<Rightarrow> if up_accepted_for_projection u then [(u, r)] else [])"

lemma accepted_uploads_mset: "mset (accepted_uploads h) = (\<Sum>u \<in># mset h. mset (accepted_upload u))"
  by (induction h) (simp_all add: accepted_uploads_def accepted_upload_def [symmetric])

lemma sorted_last: "sorted (map f xs) \<Longrightarrow> x \<in> set xs \<Longrightarrow> f x \<le> f (last xs)"
  by (induction xs) auto

text \<open>
  C15. The projection of a history is a function of the set of its accepted reports: it does not
  depend on the order in which they are listed; its round is the highest accepted one, and its
  summary of completed work names no item twice, the escaping included.
\<close>

theorem projection_is_order_independent:
  assumes "mset h = mset h'" and "inj_on projection_order (set (accepted_uploads h))"
  shows "build_projection sha h = build_projection sha h' \<and>
    (\<forall>p. build_projection sha h = Inr (Some p) \<longrightarrow> distinct (pj_completed_work_summary p) \<and>
       (\<exists>(u, r) \<in> set (accepted_uploads h). nr_report_id r = pj_latest_accepted_report_id p) \<and>
       (\<forall>(u, r) \<in> set (accepted_uploads h). nr_execution_round r \<le> pj_latest_execution_round p))"
proof -
  let ?xs = "sort_key projection_order (accepted_uploads h)"
  have same: "mset (accepted_uploads h) = mset (accepted_uploads h')" by (simp only: accepted_uploads_mset assms(1))
  have "?xs = sort_key projection_order (accepted_uploads h')"
    using same assms(2) by (intro sort_key_inj_key_eq) simp_all
  then have one: "build_projection sha h = build_projection sha h'" by (simp add: build_projection_def)
  moreover have "distinct (pj_completed_work_summary p) \<and>
      (\<exists>(u, r) \<in> set (accepted_uploads h). nr_report_id r = pj_latest_accepted_report_id p) \<and>
      (\<forall>(u, r) \<in> set (accepted_uploads h). nr_execution_round r \<le> pj_latest_execution_round p)"
    if p: "build_projection sha h = Inr (Some p)" for p
  proof -
    obtain u r where l: "last ?xs = (u, r)" by fastforce
    from p have ne: "?xs \<noteq> []" by (auto simp: build_projection_def Let_def)
    with p l have q: "pj_completed_work_summary p = pj_completed_work_summary (projection_of ?xs u r)"
      "pj_latest_execution_round p = nr_execution_round r" "pj_latest_accepted_report_id p = nr_report_id r"
      by (auto simp: build_projection_def Let_def bindR_Inr_iff projection_with_checksum_def projection_post_init_def projection_of_def)
    have "distinct (pj_completed_work_summary p)"
      unfolding q(1) projection_of_def by (simp add: distinct_map inj_on_def escape_inj)
    moreover have "(u, r) \<in> set (accepted_uploads h)" using l ne last_in_set [OF ne] by simp
    moreover have "nr_execution_round r' \<le> nr_execution_round r" if "(u', r') \<in> set (accepted_uploads h)" for u' r'
    proof -
      have "projection_order (u', r') \<le> projection_order (last ?xs)" using that by (intro sorted_last) simp_all
      then show ?thesis using l by (auto simp: projection_order_def less_eq_prod_def)
    qed
    ultimately show ?thesis using q by auto
  qed
  ultimately show ?thesis by blast
qed

lemma projection_is_order_independent_witness:
  "build_projection demo_sha [demo_stored demo_record1, demo_stored demo_record2] =
   build_projection demo_sha [demo_stored demo_record2, demo_stored demo_record1]"
proof (rule projection_is_order_independent [THEN conjunct1])
  show "inj_on projection_order (set (accepted_uploads [demo_stored demo_record1, demo_stored demo_record2]))"
    by (simp add: accepted_uploads_def demo_stored_def projection_order_def demo_record_def)
qed simp

end
