(* ===== verification/Spec2Isabelle.thy ===== *)
theory Spec2Isabelle
  imports Execution_Claims Approval Engine_Claims Provider_Claims Skill_Claims
    Persistence_Claims Runtime_Commits Application_Approvals Progress_Claims
begin

text \<open>
  A verification library for the execution backend of ReAgent, a research agent that runs
  versioned workflows of skills, pauses for human approval, retries, and recovers from
  checkpoints. Paths below are relative to \<^verbatim>\<open>src/backend\<close>.

  \<^bold>\<open>The program and its parts.\<close> A \<^emph>\<open>workflow\<close> is a graph of steps. An execution aggregate
  (run, step runs, agent session, checkpoints) is changed only by the commands of the
  domain's \<open>ExecutionCoordinator\<close>. The \<^emph>\<open>Workflow Engine\<close> is pure: from a definition and a
  snapshot of the aggregate it computes one decision, which its
  \<open>WorkflowExecutionCoordinator\<close> checks again and applies through the domain's commands.
  The \<^emph>\<open>agent runtime\<close> is the loop around both: it loads or creates the aggregate, asks for
  a decision, applies it, calls the \<^emph>\<open>skill executor\<close> for a ready step, and commits the
  aggregate with its checkpoints, memory revisions, approval requests, artifacts and events
  through a \<^emph>\<open>unit of work\<close>. Skills reach paid providers through \<^emph>\<open>provider operations\<close>, which
  are reserved against a budget, run and settled, and stored through the same unit of work.
  The \<^emph>\<open>application services\<close> are the use cases around the runtime: they create, resume and
  cancel runs and decide approvals, each in one transaction. A Project that runs a packaged
  workflow locally uploads \<^emph>\<open>progress reports\<close>, which are stored immutably, chained round by
  round and projected into a summary.

  \<^bold>\<open>Theories and the code they model.\<close>

  \<^item> \<^verbatim>\<open>Prelude\<close>, \<^verbatim>\<open>Py_Values\<close>, \<^verbatim>\<open>Json_Codec\<close>: exceptions as one datatype, methods that
    mutate and may raise as functions returning the state on both exits, a small Hoare
    logic for them, Python strings, dynamic values with mutable and read-only containers
    (\<^verbatim>\<open>domain/models/_utils.py\<close>, \<^verbatim>\<open>workflow_engine/models/_immutability.py\<close>), and the canonical
    JSON documents of \<open>json.dumps\<close> and \<open>json.loads\<close>.
  \<^item> \<^verbatim>\<open>Lifecycle\<close>, \<^verbatim>\<open>Entities\<close>, \<^verbatim>\<open>Approval\<close>: the enumerations, transition tables, constructors
    and methods of \<^verbatim>\<open>domain/enums\<close> and \<^verbatim>\<open>domain/models\<close>.
  \<^item> \<^verbatim>\<open>Graph\<close>, \<^verbatim>\<open>Workflow_Model\<close>: \<^verbatim>\<open>domain/models/workflow.py\<close> with its acyclicity check.
  \<^item> \<^verbatim>\<open>Execution\<close>: \<^verbatim>\<open>domain/services/execution_coordinator.py\<close>, every command; \<^verbatim>\<open>Execution_Inv\<close>,
    \<^verbatim>\<open>Execution_Proto\<close>, \<^verbatim>\<open>Execution_Resume\<close>, \<^verbatim>\<open>Execution_Claims\<close> hold its invariants, its
    abstract protocol, the success of resuming, and the properties.
  \<^item> \<^verbatim>\<open>Engine_Models\<close>, \<^verbatim>\<open>Engine_References\<close>, \<^verbatim>\<open>Engine_Schedule\<close>, \<^verbatim>\<open>Engine_Coordination\<close>:
    \<^verbatim>\<open>workflow_engine/models\<close> and \<^verbatim>\<open>workflow_engine/services\<close> (retry policies, snapshots and
    decisions; reference resolver and validator; scheduler and engine; the coordinator that
    applies decisions). \<^verbatim>\<open>Engine_Soundness\<close> holds the lemmas on decisions, \<^verbatim>\<open>Engine_Effects\<close> the
    abstract effect of a decision and its refinement, \<^verbatim>\<open>Engine_Claims\<close> the properties.
  \<^item> \<^verbatim>\<open>Skill_Schema\<close>, \<^verbatim>\<open>Skill_System\<close>, \<^verbatim>\<open>Skill_Claims\<close>: \<^verbatim>\<open>skill_system\<close>, that is schemas and their
    validator, references, definitions, the registry, capabilities, results, the executor and
    the deterministic skills.
  \<^item> \<^verbatim>\<open>Provider_Contracts\<close>, \<^verbatim>\<open>Provider_Budget\<close>, \<^verbatim>\<open>Provider_Repository\<close>: the provider contracts of
    \<^verbatim>\<open>research/contracts/models.py\<close>, \<^verbatim>\<open>research/services/budget.py\<close>, and the provider
    operations of \<^verbatim>\<open>persistence/adapters/in_memory.py\<close>; \<^verbatim>\<open>Provider_Service\<close> and
    \<^verbatim>\<open>Provider_Claims\<close> hold the contract of the repository and the properties.
  \<^item> \<^verbatim>\<open>Persistence\<close>: \<^verbatim>\<open>persistence/models\<close>, \<^verbatim>\<open>execution_events\<close>, and the repositories and the unit
    of work of \<^verbatim>\<open>persistence/adapters/in_memory.py\<close>. \<^verbatim>\<open>Persistence_Streams\<close> puts several units of
    work over one database; \<^verbatim>\<open>Persistence_Claims\<close> holds the properties.
  \<^item> \<^verbatim>\<open>Agent_Runtime\<close>: \<^verbatim>\<open>agent_runtime\<close>, composed of all of the above. \<^verbatim>\<open>Runtime_Claims\<close> shows
    what is committed when a skill is called, \<^verbatim>\<open>Runtime_Commits\<close> what is committed when a run
    returns.
  \<^item> \<^verbatim>\<open>Application_Views\<close>, \<^verbatim>\<open>Application_Services\<close>: the commands, views and services of
    \<^verbatim>\<open>application\<close>, with the dispatcher that runs the runtime in place and the artifact gateway
    of \<^verbatim>\<open>research/services/artifacts.py\<close>; \<^verbatim>\<open>Application_Claims\<close>, \<^verbatim>\<open>Application_Cancel\<close> and
    \<^verbatim>\<open>Application_Approvals\<close> hold the properties of creating, cancelling and deciding.
  \<^item> \<^verbatim>\<open>Progress_Model\<close>, \<^verbatim>\<open>Progress_Service\<close>: \<^verbatim>\<open>progress_reports\<close> (contracts, \<^verbatim>\<open>chain.py\<close>,
    \<^verbatim>\<open>projection.py\<close>, \<^verbatim>\<open>identity.py\<close>, \<^verbatim>\<open>service.py\<close>) over its in-memory repository.
    \<^verbatim>\<open>Progress_History\<close> shows what every upload keeps, \<^verbatim>\<open>Progress_Uploads\<close> when an upload
    returns, with two reports followed through it, and \<^verbatim>\<open>Progress_Claims\<close> holds the properties.

  \<^bold>\<open>Interfaces.\<close> \<open>lifecycle\<close> and \<open>versioned_entity\<close> are what the entities share;
  \<open>dag_checker\<close> is what the two acyclicity checks promise; \<open>coord_invariant\<close> says when a
  predicate is kept by every command of the domain coordinator; \<open>operation_repository\<close> is the
  port the provider service relies on; \<open>stream_table\<close> is what commit and refresh promise an
  append-only table; \<open>unit_calls\<close>, \<open>runtime_calls\<close> and \<open>runtime_invariant\<close> say when a
  predicate is kept by the runtime, so that the run loop is analysed once, and the services
  are analysed through it; \<open>progress_calls\<close> says when a predicate is kept by the calls of an
  upload that leave the reports alone. Each is interpreted on the model's own definitions.

  \<^bold>\<open>What the lemmas show.\<close>

  \<^item> \<^emph>\<open>Executions.\<close> Every command follows an abstract protocol; run and session move in
    lockstep; attempts stay within the budget of their step; checkpoints form a chain whose
    head restores the aggregate; a completed run has every step completed or skipped; a
    scheduled retry can be resumed.
  \<^item> \<^emph>\<open>Engine.\<close> The validator accepts exactly the well-formed definitions; on those the
    Engine always finds a decision; a ready step is the first one whose dependencies
    completed, with its references resolved; a decision applies once, and an applied decision
    has its abstract effect on the run and on every step and no other; retries and their delays
    are bounded.
  \<^item> \<^emph>\<open>Approvals.\<close> A request is decided once, by a deadline that separates the decisions.
  \<^item> \<^emph>\<open>Skills.\<close> Validation decides a declarative notion of conformance and freezes what
    conforms; every outcome of the executor is decided: a normalised result, or \<open>ValueError\<close> for
    a failure that the error value refuses.
  \<^item> \<^emph>\<open>Providers.\<close> The budget holds over sequential reservations, a key is reserved once,
    terminal operations are final, and optimistic versions lose no update.
  \<^item> \<^emph>\<open>Persistence.\<close> Streams of checkpoints, memory and events only grow, without gaps, in any
    interleaving of units of work; a committed execution loads back as the same aggregate.
  \<^item> \<^emph>\<open>Runtime.\<close> No skill is called before its attempt is committed as running behind a
    checkpoint, and a result that is returned describes the committed record of the run, with
    every checkpoint of the aggregate committed.
  \<^item> \<^emph>\<open>Services.\<close> The same request of plain inputs finds the run it created; cancelling commits
    everything or nothing; a resolved approval is final over any sequence of calls.
  \<^item> \<^emph>\<open>Progress.\<close> Accepted reports form lines from round 1 that do not branch, an accepted
    report is replayed, and the projection does not depend on the order of the history.
  \<^item> \<^emph>\<open>Defects.\<close> These theorems exhibit behaviour that the code does not mean: a failed approval
    keeps its new status, failing a waiting run strands it, an exponential delay overflows, a
    stale failure is accepted, any number of concurrent reservations overspend a budget, an
    empty failure message escapes the executor, a list among the inputs breaks the idempotence of a
    request, a report that was rejected can never be admitted, and a superseded checkpoint can
    be continued.

  \<^bold>\<open>Parameters and representation.\<close> Clocks, identifier factories, SHA-256, the skill
  implementations, and the order in which a commit walks a Python set are parameters: functions
  of the number of the call, a function of the message, functions of inputs and context, and an
  argument of the commit; for the services also the content storage, for progress reports the
  normalizer, the resolver of the Workflow Instance, the storage and the artifact reference
  service. Only the theorems that need it assume more of them (aware
  timestamps, non-blank identifiers, non-blank hashes). The loops over graphs and schemas have
  termination proofs, and the runtime loop runs at most \<open>max_decisions\<close> times, as in the source.
  Only the JSON parser has fuel, \<open>2 * n + 2\<close> calls for a text of \<open>n\<close> characters: each character is
  the first of at most two nested calls, and lemma \<open>json_fuel_enough\<close> shows that more fuel gives
  the same result. Strings are lists of characters up to U+00FF, and
  the JSON printer escapes as Python does on these. Python integers are \<open>int\<close>. A float is its
  literal text where it is only stored, the nearest binary64 number where a schema compares it,
  and a rational where a retry delay is computed. Timestamps count microseconds, in UTC or
  naive, without calendar bounds. Dictionaries are association lists in insertion order. The
  runtime is sequential; interleavings are those of units of work over one database.

  \<^bold>\<open>Not modelled.\<close> A cancelled asyncio task and a skill that writes to the
  runtime's own unit of work. In the in-memory adapter, the tables of local projects, manifests,
  workspaces and references, and the deletion of a project with the part of \<open>commit\<close>
  that purges its tables; the field \<open>schema_version\<close> of the provider contracts,
  which keeps its default. Of the application services, the list of provider usage and the
  writing of artifact content. Of progress reports, the parsing of report bytes and the screen
  for unsafe content, the field checks of the contracts, the projection of whole projects and the
  client; their repository serves one unit of work at a time. The relational adapter
  (\<^verbatim>\<open>database\<close>: an object-relational library), the HTTP API, provider
  clients, prompts and evaluation (\<^verbatim>\<open>research\<close> apart from contracts,
  budget and the reading of artifacts), the contracts of artifact and resource references, and
  the local product on a user's file system and network
  (\<^verbatim>\<open>project_workspaces\<close>, \<^verbatim>\<open>workflow_packages\<close>
  apart from its canonical hash, \<^verbatim>\<open>local_projects\<close>,
  \<^verbatim>\<open>local_sessions\<close>, \<^verbatim>\<open>cloud_api_proxy\<close>).
\<close>

end
